(* ===== verification/Kahu_Prelude.thy ===== *)
theory Kahu_Prelude
  imports Main "HOL-Library.State_Monad" "HOL-Library.Char_ord" "HOL-Library.List_Lexorder"
    "HOL-Library.Multiset"
begin

text \<open>
  Shared vocabulary of the development.

  The theory fixes how the Go program is read in HOL: error values with the reason that
  \<^verbatim>\<open>apierrors.IsNotFound\<close> and its kin inspect, an outcome type for functions that can
  dereference a nil pointer, the state monad of \<open>HOL-Library.State_Monad\<close> for handlers that
  thread the controller's state and the outside world, Hoare triples over it, and the few
  functions of Go's standard library the sources use (\<^verbatim>\<open>strconv.ParseInt\<close>,
  \<^verbatim>\<open>strings.Split\<close>, \<^verbatim>\<open>strings.Join\<close>, \<^verbatim>\<open>sets.String\<close>).
\<close>

named_theorems go_rules \<open>introduction rules for triples\<close>
named_theorems go_run \<open>equations that run a handler\<close>

section \<open>Errors and outcomes\<close>

text \<open>
  A Go error carries the reason the callers inspect (\<^verbatim>\<open>apierrors.IsNotFound\<close>,
  \<^verbatim>\<open>IsConflict\<close>, \<^verbatim>\<open>IsAlreadyExists\<close>, gRPC \<^verbatim>\<open>codes.Unavailable\<close>) and a
  message; a nil error is \<open>None\<close>. Wrapping keeps the reason, because
  \<^verbatim>\<open>errors.Wrap\<close> supports \<^verbatim>\<open>errors.As\<close>.
\<close>

datatype reason = NotFound | Conflict | AlreadyExists | Unavailable | OtherReason

datatype goerr = GoErr (err_reason: reason) (err_msg: string)

definition errorf :: "string \<Rightarrow> goerr" where
  "errorf msg = GoErr OtherReason msg"

definition wrap :: "goerr \<Rightarrow> string \<Rightarrow> goerr" where
  "wrap e msg = GoErr (err_reason e) (msg @ '': '' @ err_msg e)"

definition IsNotFound :: "goerr option \<Rightarrow> bool" where
  "IsNotFound e = (case e of None \<Rightarrow> False | Some x \<Rightarrow> err_reason x = NotFound)"

definition IsConflict :: "goerr option \<Rightarrow> bool" where
  "IsConflict e = (case e of None \<Rightarrow> False | Some x \<Rightarrow> err_reason x = Conflict)"

definition IsAlreadyExistsErr :: "goerr option \<Rightarrow> bool" where
  "IsAlreadyExistsErr e = (case e of None \<Rightarrow> False | Some x \<Rightarrow> err_reason x = AlreadyExists)"

lemma IsNotFound_simps [simp]:
  "\<not> IsNotFound None" "IsNotFound (Some e) \<longleftrightarrow> err_reason e = NotFound"
  by (simp_all add: IsNotFound_def)

lemma IsConflict_simps [simp]:
  "\<not> IsConflict None" "IsConflict (Some e) \<longleftrightarrow> err_reason e = Conflict"
  by (simp_all add: IsConflict_def)

lemma IsAlreadyExistsErr_simps [simp]:
  "\<not> IsAlreadyExistsErr None" "IsAlreadyExistsErr (Some e) \<longleftrightarrow> err_reason e = AlreadyExists"
  by (simp_all add: IsAlreadyExistsErr_def)

lemma err_reason_wrap [simp]: "err_reason (wrap e m) = err_reason e"
  by (simp add: wrap_def)

lemma err_reason_errorf [simp]: "err_reason (errorf m) = OtherReason"
  by (simp add: errorf_def)

text \<open>A function that may dereference nil returns, or panics.\<close>

datatype 'a outcome = Ret 'a | Panic

section \<open>Handlers and triples\<close>

definition triple :: "('s \<Rightarrow> bool) \<Rightarrow> ('s, 'a) state \<Rightarrow> ('a \<Rightarrow> 's \<Rightarrow> bool) \<Rightarrow> bool" where
  "triple P m Q \<longleftrightarrow> (\<forall>s. P s \<longrightarrow> (case run_state m s of (a, s') \<Rightarrow> Q a s'))"

lemma tripleI:
  assumes "\<And>s a s'. P s \<Longrightarrow> run_state m s = (a, s') \<Longrightarrow> Q a s'"
  shows "triple P m Q"
  using assms by (auto simp: triple_def)

lemma tripleD:
  assumes "triple P m Q" "P s" "run_state m s = (a, s')"
  shows "Q a s'"
  using assms by (force simp: triple_def)

lemma triple_conseq:
  assumes "triple P' m Q'" "\<And>s. P s \<Longrightarrow> P' s" "\<And>a s. Q' a s \<Longrightarrow> Q a s"
  shows "triple P m Q"
  using assms by (fastforce simp: triple_def)

lemma triple_return [go_rules]: "(\<And>s. P s \<Longrightarrow> Q x s) \<Longrightarrow> triple P (State_Monad.return x) Q"
  by (simp add: triple_def)

lemma triple_bind:
  assumes "triple P m R" "\<And>a. triple (R a) (f a) Q"
  shows "triple P (State_Monad.bind m f) Q"
  using assms by (fastforce simp: triple_def split: prod.splits)

lemma triple_if [go_rules]:
  assumes "b \<Longrightarrow> triple P m Q" "\<not> b \<Longrightarrow> triple P n Q"
  shows "triple P (if b then m else n) Q"
  using assms by simp

lemma triple_case_option [go_rules]:
  assumes "x = None \<Longrightarrow> triple P m Q" "\<And>a. x = Some a \<Longrightarrow> triple P (f a) Q"
  shows "triple P (case x of None \<Rightarrow> m | Some a \<Rightarrow> f a) Q"
  using assms by (cases x) auto

lemma triple_case_prod [go_rules]:
  assumes "\<And>a b. x = (a, b) \<Longrightarrow> triple P (f a b) Q"
  shows "triple P (case x of (a, b) \<Rightarrow> f a b) Q"
  using assms by (cases x) auto

text \<open>Running an arbitrary state transformer, and looking at the state.\<close>

definition liftst :: "('s \<Rightarrow> 'a \<times> 's) \<Rightarrow> ('s, 'a) state" where
  "liftst f = State f"

lemma run_liftst [simp, go_run]: "run_state (liftst f) s = f s"
  by (simp add: liftst_def)

lemma triple_liftst:
  "(\<And>s. P s \<Longrightarrow> Q (fst (f s)) (snd (f s))) \<Longrightarrow> triple P (liftst f) Q"
  by (auto simp: triple_def split: prod.splits)
     (metis fst_conv snd_conv)

text \<open>
  Error-returning steps: a step ends well, with an error, or with a panic; sequences and loops
  stop at the first step that does not end well.
\<close>

datatype sres = Ok | Fail goerr | Crash

definition seq :: "('s, sres) state \<Rightarrow> ('s, sres) state \<Rightarrow> ('s, sres) state" where
  "seq m n = do { r \<leftarrow> m; if r = Ok then n else State_Monad.return r }"

fun each :: "('a \<Rightarrow> ('s, sres) state) \<Rightarrow> 'a list \<Rightarrow> ('s, sres) state" where
  "each f [] = State_Monad.return Ok"
| "each f (x # xs) = seq (f x) (each f xs)"

definition of_err :: "goerr option \<Rightarrow> sres" where
  "of_err e = (case e of None \<Rightarrow> Ok | Some x \<Rightarrow> Fail x)"

lemma of_err_simps [simp]: "of_err None = Ok" "of_err (Some e) = Fail e"
  by (simp_all add: of_err_def)

lemma of_err_Ok [simp]: "of_err e = Ok \<longleftrightarrow> e = None" "Ok = of_err e \<longleftrightarrow> e = None"
  by (auto simp: of_err_def split: option.splits)

lemma triple_seq:
  assumes "triple P m R" "triple (R Ok) n Q" "\<And>r s. r \<noteq> Ok \<Longrightarrow> R r s \<Longrightarrow> Q r s"
  shows "triple P (seq m n) Q"
  unfolding seq_def
proof (rule triple_bind [OF assms(1)])
  fix r
  show "triple (R r) (if r = Ok then n else State_Monad.return r) Q"
    using assms(2,3) by (auto intro!: triple_return)
qed

text \<open>An invariant of every step is one of the loop.\<close>

lemma triple_each:
  assumes "\<And>x. x \<in> set xs \<Longrightarrow> triple I (f x) (\<lambda>_. I)"
  shows "triple I (each f xs) (\<lambda>_. I)"
  using assms
proof (induction xs)
  case Nil
  then show ?case by (simp add: triple_return)
next
  case (Cons x xs)
  have "triple I (each f xs) (\<lambda>_. I)" using Cons by auto
  then show ?case using Cons.prems [of x] by (auto intro!: triple_seq)
qed

text \<open>A loop that ends well has ended every step well; facts that are kept accumulate.\<close>

lemma triple_each_all:
  assumes step: "\<And>x. x \<in> set xs \<Longrightarrow> triple P (f x) (\<lambda>r s. P s \<and> (r = Ok \<longrightarrow> D x s))"
    and keep: "\<And>x y. x \<in> set xs \<Longrightarrow> y \<in> set xs \<Longrightarrow> triple (\<lambda>s. P s \<and> D y s) (f x) (\<lambda>_. D y)"
  shows "triple P (each f xs) (\<lambda>r s. P s \<and> (r = Ok \<longrightarrow> (\<forall>x \<in> set xs. D x s)))"
proof -
  have "triple (\<lambda>s. P s \<and> (\<forall>x \<in> set ys. D x s)) (each f zs)
      (\<lambda>r s. P s \<and> (r = Ok \<longrightarrow> (\<forall>x \<in> set (ys @ zs). D x s)))"
    if "set ys \<union> set zs \<subseteq> set xs" for ys zs
    using that
  proof (induction zs arbitrary: ys)
    case Nil
    then show ?case by (auto intro!: triple_return)
  next
    case (Cons z zs)
    have z: "z \<in> set xs" using Cons.prems by simp
    have st: "triple (\<lambda>s. P s \<and> (\<forall>x \<in> set ys. D x s)) (f z)
        (\<lambda>r s. P s \<and> (\<forall>x \<in> set ys. D x s) \<and> (r = Ok \<longrightarrow> D z s))"
    proof (rule tripleI)
      fix s a s' assume pre: "P s \<and> (\<forall>x \<in> set ys. D x s)" and run: "run_state (f z) s = (a, s')"
      have "P s' \<and> (a = Ok \<longrightarrow> D z s')" using tripleD [OF step [OF z] _ run] pre by blast
      moreover have "D y s'" if "y \<in> set ys" for y
        using tripleD [OF keep [OF z, of y] _ run] pre that Cons.prems by auto
      ultimately show "P s' \<and> (\<forall>x \<in> set ys. D x s') \<and> (a = Ok \<longrightarrow> D z s')" by blast
    qed
    have "triple (\<lambda>s. P s \<and> (\<forall>x \<in> set (ys @ [z]). D x s)) (each f zs)
        (\<lambda>r s. P s \<and> (r = Ok \<longrightarrow> (\<forall>x \<in> set ((ys @ [z]) @ zs). D x s)))"
      using Cons.prems by (intro Cons.IH) auto
    then show ?case
      by (auto intro!: triple_seq [OF st] elim: triple_conseq)
  qed
  from this [of "[]" xs] show ?thesis by simp
qed

section \<open>Standard library\<close>

subsection \<open>strconv.ParseInt (s, 10, 64)\<close>

definition digit_val :: "char \<Rightarrow> int option" where
  "digit_val c = (if 48 \<le> (of_char c :: nat) \<and> (of_char c :: nat) \<le> 57
                  then Some (int (of_char c) - 48) else None)"

fun parse_digits :: "int \<Rightarrow> string \<Rightarrow> int option" where
  "parse_digits acc [] = Some acc"
| "parse_digits acc (c # cs) =
     (case digit_val c of None \<Rightarrow> None | Some d \<Rightarrow> parse_digits (10 * acc + d) cs)"

definition in_int64 :: "int \<Rightarrow> bool" where
  "in_int64 n \<longleftrightarrow> - (2 ^ 63) \<le> n \<and> n < 2 ^ 63"

definition ParseInt :: "string \<Rightarrow> int option" where
  "ParseInt s = (case s of [] \<Rightarrow> None
     | c # cs \<Rightarrow>
        (let (sgn, ds) = (if c = CHR ''-'' then (-1, cs) else if c = CHR ''+'' then (1, cs) else (1, s))
         in if ds = [] then None
            else case parse_digits 0 ds of None \<Rightarrow> None
                 | Some n \<Rightarrow> if in_int64 (sgn * n) then Some (sgn * n) else None))"

lemma ParseInt_in_int64: "ParseInt s = Some n \<Longrightarrow> in_int64 n"
  by (auto simp: ParseInt_def Let_def split: list.splits if_splits option.splits)

lemma ParseInt_Nil [simp]: "ParseInt [] = None"
  by (simp add: ParseInt_def)

subsection \<open>strings.Split on a one-character separator, strings.Join\<close>

fun split_acc :: "char \<Rightarrow> string \<Rightarrow> string \<Rightarrow> string list" where
  "split_acc sep acc [] = [rev acc]"
| "split_acc sep acc (c # cs) =
     (if c = sep then rev acc # split_acc sep [] cs else split_acc sep (c # acc) cs)"

definition strings_Split :: "char \<Rightarrow> string \<Rightarrow> string list" where
  "strings_Split sep s = split_acc sep [] s"

fun strings_Join :: "string \<Rightarrow> string list \<Rightarrow> string" where
  "strings_Join sep [] = []"
| "strings_Join sep [x] = x"
| "strings_Join sep (x # y # xs) = x @ sep @ strings_Join sep (y # xs)"

subsection \<open>sets.String\<close>

text \<open>
  \<^verbatim>\<open>sets.String\<close> is a set of strings. \<^verbatim>\<open>List()\<close> returns it sorted; the order of
  \<^verbatim>\<open>UnsortedList()\<close> and of ranging over a Go map is unspecified, so it is a parameter.
\<close>

definition sets_List :: "string set \<Rightarrow> string list" where
  "sets_List S = sorted_list_of_set S"

lemma set_sets_List [simp]: "finite S \<Longrightarrow> set (sets_List S) = S"
  by (simp add: sets_List_def)

lemma distinct_sets_List [simp]: "distinct (sets_List S)"
  by (simp add: sets_List_def)

definition iteration :: "'a set \<Rightarrow> 'a list \<Rightarrow> bool" where
  "iteration S xs \<longleftrightarrow> distinct xs \<and> set xs = S"

section \<open>List lemmas shared by the components\<close>

lemma filter_sublist_set: "x \<in> set (filter P xs) \<longleftrightarrow> x \<in> set xs \<and> P x"
  by auto

lemma fold_map_upd_notin: "k \<notin> fst ` set kvs \<Longrightarrow> fold (\<lambda>(a, b) m. m(a \<mapsto> b)) kvs m k = m k"
  by (induction kvs arbitrary: m) auto

lemma remove1_notin_distinct: "distinct xs \<Longrightarrow> x \<notin> set (remove1 x xs)"
  by simp

end
