(* ===== verification/ObjectMeta.thy ===== *)
theory ObjectMeta
  imports Kahu_Prelude
begin

text \<open>
  Object metadata as the controllers read it (\<^verbatim>\<open>metav1.ObjectMeta\<close>), and the helpers of
  \<^verbatim>\<open>utils/annotations.go\<close>, \<^verbatim>\<open>utils/finalizers.go\<close> and
  \<^verbatim>\<open>utils/utils.go:NamespaceAndName\<close>.

  A nil annotation or label map and an empty one are identified: they behave alike under
  ranging, lookup and \<^verbatim>\<open>delete\<close>, and \<^verbatim>\<open>SetAnnotation\<close> makes the map before it
  writes. Owner references keep the difference, because \<^verbatim>\<open>isResourceNeedBackup\<close> compares
  them with nil. Every helper takes an interface value that may be nil, an \<open>option\<close> here.
\<close>

record owner_ref =
  owner_apiVersion :: string
  owner_kind :: string
  owner_name :: string
  owner_uid :: string

record object_meta =
  meta_name :: string
  meta_namespace :: string
  meta_uid :: string
  meta_resourceVersion :: string
  meta_labels :: "string \<rightharpoonup> string"
  meta_annotations :: "string \<rightharpoonup> string"
  meta_finalizers :: "string list"
  meta_ownerReferences :: "owner_ref list option"
  meta_deletionTimestamp :: "int option"

definition zero_meta :: object_meta where
  "zero_meta = \<lparr> meta_name = [], meta_namespace = [], meta_uid = [], meta_resourceVersion = [],
     meta_labels = Map.empty, meta_annotations = Map.empty, meta_finalizers = [],
     meta_ownerReferences = None, meta_deletionTimestamp = None \<rparr>"

section \<open>Annotations\<close>

definition ContainsAnnotation :: "object_meta option \<Rightarrow> string \<Rightarrow> bool" where
  "ContainsAnnotation m a = (case m of None \<Rightarrow> False | Some o' \<Rightarrow> meta_annotations o' a \<noteq> None)"

definition GetAnnotation :: "object_meta option \<Rightarrow> string \<Rightarrow> string \<times> bool" where
  "GetAnnotation m a = (case m of None \<Rightarrow> ([], False)
     | Some o' \<Rightarrow> (case meta_annotations o' a of None \<Rightarrow> ([], False) | Some v \<Rightarrow> (v, True)))"

definition SetAnnotation :: "object_meta option \<Rightarrow> string \<Rightarrow> string \<Rightarrow> object_meta option" where
  "SetAnnotation m a v = (case m of None \<Rightarrow> None
     | Some o' \<Rightarrow> Some (if \<not> ContainsAnnotation (Some o') a
                       then o'\<lparr>meta_annotations := (meta_annotations o')(a \<mapsto> v)\<rparr> else o'))"

definition RemoveAnnotation :: "object_meta option \<Rightarrow> string \<Rightarrow> object_meta option" where
  "RemoveAnnotation m a = (case m of None \<Rightarrow> None
     | Some o' \<Rightarrow> Some (o'\<lparr>meta_annotations := (meta_annotations o')(a := None)\<rparr>))"

section \<open>Finalizers\<close>

fun contains_string :: "string list \<Rightarrow> string \<Rightarrow> bool" where
  "contains_string [] f = False"
| "contains_string (x # xs) f = (if x = f then True else contains_string xs f)"

definition ContainsFinalizer :: "object_meta option \<Rightarrow> string \<Rightarrow> bool" where
  "ContainsFinalizer m f = (case m of None \<Rightarrow> False
     | Some o' \<Rightarrow> contains_string (meta_finalizers o') f)"

definition SetFinalizer :: "object_meta option \<Rightarrow> string \<Rightarrow> object_meta option" where
  "SetFinalizer m f = (case m of None \<Rightarrow> None
     | Some o' \<Rightarrow> Some (if \<not> ContainsFinalizer (Some o') f
                       then o'\<lparr>meta_finalizers := meta_finalizers o' @ [f]\<rparr> else o'))"

fun drop_finalizer :: "string list \<Rightarrow> string \<Rightarrow> string list" where
  "drop_finalizer [] f = []"
| "drop_finalizer (x # xs) f = (if x \<noteq> f then x # drop_finalizer xs f else drop_finalizer xs f)"

definition RemoveFinalizer :: "object_meta option \<Rightarrow> string \<Rightarrow> object_meta option" where
  "RemoveFinalizer m f = (case m of None \<Rightarrow> None
     | Some o' \<Rightarrow> Some (o'\<lparr>meta_finalizers := drop_finalizer (meta_finalizers o') f\<rparr>))"

section \<open>Keys\<close>

definition NamespaceAndName :: "object_meta \<Rightarrow> string" where
  "NamespaceAndName o' = (if meta_namespace o' = [] then meta_name o'
     else meta_namespace o' @ ''/'' @ meta_name o')"

section \<open>Laws\<close>

lemma contains_string_set [simp]: "contains_string xs f \<longleftrightarrow> f \<in> set xs"
  by (induction xs) auto

lemma drop_finalizer_filter [simp]: "drop_finalizer xs f = filter (\<lambda>x. x \<noteq> f) xs"
  by (induction xs) auto

lemma ContainsFinalizer_Some [simp]: "ContainsFinalizer (Some o') f \<longleftrightarrow> f \<in> set (meta_finalizers o')"
  by (simp add: ContainsFinalizer_def)

lemma ContainsAnnotation_Some [simp]:
  "ContainsAnnotation (Some o') a \<longleftrightarrow> meta_annotations o' a \<noteq> None"
  by (simp add: ContainsAnnotation_def)

text \<open>
  A marker on an object: something that can be set, cleared and tested, where marking is
  idempotent and markers of different names do not disturb each other. Annotations and
  finalizers both provide it, and the controllers use both as their persistent memory.
\<close>

locale marker =
  fixes has :: "object_meta option \<Rightarrow> string \<Rightarrow> bool"
    and mark :: "object_meta option \<Rightarrow> string \<Rightarrow> object_meta option"
    and clear :: "object_meta option \<Rightarrow> string \<Rightarrow> object_meta option"
  assumes has_nil: "\<not> has None a"
    and mark_nil: "mark None a = None" and clear_nil: "clear None a = None"
    and has_mark: "has (mark (Some m) a) b \<longleftrightarrow> b = a \<or> has (Some m) b"
    and has_clear: "has (clear (Some m) a) b \<longleftrightarrow> b \<noteq> a \<and> has (Some m) b"
    and mark_present: "has (Some m) a \<Longrightarrow> mark (Some m) a = Some m"
    and some_mark: "\<exists>m'. mark (Some m) a = Some m'"
    and some_clear: "\<exists>m'. clear (Some m) a = Some m'"
begin

lemma mark_idem: "mark (mark m a) a = mark m a"
proof (cases m)
  case None
  then show ?thesis by (simp add: mark_nil)
next
  case (Some x)
  obtain m' where m': "mark (Some x) a = Some m'" using some_mark by blast
  have "has (Some m') a" using has_mark [of x a a] by (simp add: m')
  then show ?thesis by (simp add: Some m' mark_present)
qed

lemma clear_mark: "\<not> has (clear (mark (Some m) a) a) a"
  using some_mark [of m a] has_clear by auto

lemma mark_clear: "has (mark (clear (Some m) a) a) b \<longleftrightarrow> b = a \<or> has (Some m) b"
proof -
  obtain m' where m': "clear (Some m) a = Some m'" using some_clear by blast
  show ?thesis using has_clear [of m a b] by (auto simp: m' has_mark)
qed

lemma mark_all:
  "has (foldl mark (Some m) as) b \<longleftrightarrow> b \<in> set as \<or> has (Some m) b"
proof (induction as arbitrary: m)
  case Nil
  then show ?case by simp
next
  case (Cons a as)
  obtain m' where m': "mark (Some m) a = Some m'" using some_mark by blast
  show ?case using Cons.IH [of m'] has_mark [of m a b] by (auto simp: m')
qed

end

interpretation fin: marker ContainsFinalizer SetFinalizer RemoveFinalizer
  by unfold_locales (auto simp: ContainsFinalizer_def SetFinalizer_def RemoveFinalizer_def)

interpretation ann: marker ContainsAnnotation "\<lambda>m a. SetAnnotation m a v" RemoveAnnotation for v
  by unfold_locales (auto simp: ContainsAnnotation_def SetAnnotation_def RemoveAnnotation_def)

lemma GetAnnotation_SetAnnotation:
  "GetAnnotation (SetAnnotation (Some m) a v) b =
     (if b = a \<and> meta_annotations m a = None then (v, True) else GetAnnotation (Some m) b)"
  by (simp add: GetAnnotation_def SetAnnotation_def)

lemma SetAnnotation_frame:
  "SetAnnotation (Some m) a v = Some m' \<Longrightarrow>
     meta_finalizers m' = meta_finalizers m \<and> meta_name m' = meta_name m \<and>
     meta_namespace m' = meta_namespace m \<and> meta_deletionTimestamp m' = meta_deletionTimestamp m"
  by (auto simp: SetAnnotation_def split: if_splits)

lemma RemoveFinalizer_frame:
  "RemoveFinalizer (Some m) f = Some m' \<Longrightarrow>
     meta_annotations m' = meta_annotations m \<and> meta_name m' = meta_name m \<and>
     meta_finalizers m' = filter (\<lambda>x. x \<noteq> f) (meta_finalizers m)"
  by (auto simp: RemoveFinalizer_def)

text \<open>
  Keys of namespaced objects are injective as long as namespaces and names contain no slash,
  which is the name syntax the API server enforces.
\<close>

lemma append_sep_inj:
  assumes "a @ c # b = a' @ c # b'" "c \<notin> set a" "c \<notin> set a'"
  shows "a = a' \<and> b = b'"
  using assms
proof (induction a arbitrary: a')
  case Nil
  then show ?case by (cases a') auto
next
  case (Cons x a)
  then show ?case by (cases a') auto
qed

lemma NamespaceAndName_inj:
  assumes "CHR ''/'' \<notin> set (meta_namespace m)" "CHR ''/'' \<notin> set (meta_namespace m')"
    and "CHR ''/'' \<notin> set (meta_name m)" "CHR ''/'' \<notin> set (meta_name m')"
    and "NamespaceAndName m = NamespaceAndName m'"
  shows "meta_namespace m = meta_namespace m' \<and> meta_name m = meta_name m'"
  using assms append_sep_inj [of "meta_namespace m" "CHR ''/''" "meta_name m"
      "meta_namespace m'" "meta_name m'"]
  by (auto simp: NamespaceAndName_def split: if_splits)
    (metis in_set_conv_decomp)+

end
