(* ===== verification/Store.thy ===== *)
theory Store
  imports ObjectMeta
begin

text \<open>
  The keyed cache of \<^verbatim>\<open>utils/store.go\<close> and the revision filter every controller puts in
  front of its work queue: \<^verbatim>\<open>StoreRevisionUpdate\<close> lets an object version pass only when
  it is not older than the one recorded, and \<^verbatim>\<open>StoreClean\<close> forgets it.

  The mutex of the source makes every store method atomic; a method is one function on the
  store here. Ranging over the item map has no order in Go, so \<^verbatim>\<open>List\<close> and
  \<^verbatim>\<open>ListKeys\<close> take the order as an argument. \<^verbatim>\<open>cache.DeletionHandlingMetaNamespaceKeyFunc\<close>
  and \<^verbatim>\<open>meta.Accessor\<close> are library functions and are parameters.
\<close>

section \<open>threadSafeStore\<close>

record ('o, 'v) threadSafeStore =
  items :: "string \<rightharpoonup> 'v"
  keyFunc :: "'o \<Rightarrow> goerr + string"

definition StoreError :: "goerr \<Rightarrow> goerr" where
  "StoreError e = errorf (''couldn't store key for object: '' @ err_msg e)"

definition NewStore :: "('o \<Rightarrow> goerr + string) \<Rightarrow> ('o, 'v) threadSafeStore" where
  "NewStore kf = \<lparr> items = Map.empty, keyFunc = kf \<rparr>"

definition store_Add ::
  "('o, 'v) threadSafeStore \<Rightarrow> 'o \<Rightarrow> 'v \<Rightarrow> goerr option \<times> ('o, 'v) threadSafeStore" where
  "store_Add store obj value = (case keyFunc store obj of
       Inl err \<Rightarrow> (Some (StoreError err), store)
     | Inr key \<Rightarrow>
         (if items store key \<noteq> None
          then (Some (StoreError (errorf (''key ('' @ key @ '') already exist''))), store)
          else (None, store\<lparr>items := (items store)(key \<mapsto> value)\<rparr>)))"

definition store_Update ::
  "('o, 'v) threadSafeStore \<Rightarrow> 'o \<Rightarrow> 'v \<Rightarrow> goerr option \<times> ('o, 'v) threadSafeStore" where
  "store_Update store obj value = (case keyFunc store obj of
       Inl err \<Rightarrow> (Some (StoreError err), store)
     | Inr key \<Rightarrow>
         (if items store key = None
          then (Some (StoreError (errorf (''key ('' @ key @ '') donot exist''))), store)
          else (None, store\<lparr>items := (items store)(key \<mapsto> value)\<rparr>)))"

definition store_Delete ::
  "('o, 'v) threadSafeStore \<Rightarrow> 'o \<Rightarrow> goerr option \<times> ('o, 'v) threadSafeStore" where
  "store_Delete store obj = (case keyFunc store obj of
       Inl err \<Rightarrow> (Some (StoreError err), store)
     | Inr key \<Rightarrow> (None, store\<lparr>items := (items store)(key := None)\<rparr>))"

definition store_Get :: "('o, 'v) threadSafeStore \<Rightarrow> 'o \<Rightarrow> goerr + 'v option" where
  "store_Get store obj = (case keyFunc store obj of
       Inl err \<Rightarrow> Inl (StoreError err) | Inr key \<Rightarrow> Inr (items store key))"

definition store_List :: "string list \<Rightarrow> ('o, 'v) threadSafeStore \<Rightarrow> 'v list" where
  "store_List order store = List.map_filter (items store) order"

definition store_ListKeys :: "string list \<Rightarrow> ('o, 'v) threadSafeStore \<Rightarrow> string list" where
  "store_ListKeys order store = filter (\<lambda>k. items store k \<noteq> None) order"

section \<open>The revision filter\<close>

text \<open>
  A stored value has the dynamic type of the Go interface it is kept in; only strings are
  revisions.
\<close>

datatype dyn = DynString string | DynOther string

definition revisionAccessor :: "dyn \<Rightarrow> goerr + string" where
  "revisionAccessor r0 = (case r0 of DynString r \<Rightarrow> Inr r
     | DynOther ty \<Rightarrow> Inl (errorf (''invalid revision type ('' @ ty @ '')'')))"

definition StoreRevisionUpdate ::
  "('o \<Rightarrow> goerr + string) \<Rightarrow> ('o \<Rightarrow> goerr + object_meta) \<Rightarrow> string \<Rightarrow>
   ('o, dyn) threadSafeStore \<Rightarrow> 'o \<Rightarrow> (bool \<times> goerr option) \<times> ('o, dyn) threadSafeStore" where
  "StoreRevisionUpdate objKey accessor className store obj =
   (case objKey obj of
      Inl err \<Rightarrow> ((False, Some (wrap err ''couldn't get key for object'')), store)
    | Inr objName \<Rightarrow>
   (case store_Get store obj of
      Inl err \<Rightarrow> ((False, Some (wrap err (''error finding '' @ className @ objName))), store)
    | Inr found \<Rightarrow>
   (case accessor obj of
      Inl err \<Rightarrow> ((False, Some err), store)
    | Inr objAccessor \<Rightarrow>
      let currentRevision = meta_resourceVersion objAccessor in
   (case found of
      None \<Rightarrow>
        (case store_Add store obj (DynString currentRevision) of
           (Some err, store') \<Rightarrow> ((False, Some (wrap err (''error adding '' @ className @ objName))), store')
         | (None, store') \<Rightarrow> ((True, None), store'))
    | Some oldRevObj \<Rightarrow>
   (case revisionAccessor oldRevObj of
      Inl err \<Rightarrow> ((False, Some err), store)
    | Inr oldRevision \<Rightarrow>
   (case ParseInt currentRevision of
      None \<Rightarrow> ((False, Some (errorf (''error parsing ResourceVersion of '' @ className @ objName))), store)
    | Some objResourceVersion \<Rightarrow>
   (case ParseInt oldRevision of
      None \<Rightarrow> ((False, Some (errorf (''error parsing old ResourceVersion of '' @ className @ objName))), store)
    | Some oldObjResourceVersion \<Rightarrow>
      if oldObjResourceVersion > objResourceVersion then ((False, None), store)
      else
        (case store_Update store obj (DynString currentRevision) of
           (Some err, store') \<Rightarrow> ((False, Some (wrap err (''error updating '' @ className @ objName))), store')
         | (None, store') \<Rightarrow> ((True, None), store')))))))))"

definition StoreClean ::
  "('o \<Rightarrow> goerr + string) \<Rightarrow> string \<Rightarrow> ('o, dyn) threadSafeStore \<Rightarrow> 'o \<Rightarrow>
   goerr option \<times> ('o, dyn) threadSafeStore" where
  "StoreClean objKey className store obj =
   (case objKey obj of
      Inl err \<Rightarrow> (Some (wrap err ''couldn't get key for object''), store)
    | Inr objName \<Rightarrow>
   (case store_Get store obj of
      Inl err \<Rightarrow> (Some (wrap err (''error finding '' @ className @ objName)), store)
    | Inr None \<Rightarrow> (None, store)
    | Inr (Some _) \<Rightarrow> store_Delete store obj))"

section \<open>The store contract\<close>

text \<open>
  What the revision filter relies on: a partial map from keys to values that the four methods
  read and change at the key of their argument, and nowhere else.
\<close>

locale kv_store =
  fixes key :: "'s \<Rightarrow> 'o \<Rightarrow> goerr + string"
    and look :: "'s \<Rightarrow> string \<rightharpoonup> 'v"
    and get :: "'s \<Rightarrow> 'o \<Rightarrow> goerr + 'v option"
    and add :: "'s \<Rightarrow> 'o \<Rightarrow> 'v \<Rightarrow> goerr option \<times> 's"
    and upd :: "'s \<Rightarrow> 'o \<Rightarrow> 'v \<Rightarrow> goerr option \<times> 's"
    and del :: "'s \<Rightarrow> 'o \<Rightarrow> goerr option \<times> 's"
  assumes get_look: "key s x = Inr k \<Longrightarrow> get s x = Inr (look s k)"
    and get_fail: "key s x = Inl e \<Longrightarrow> \<exists>e'. get s x = Inl e'"
    and add_new: "key s x = Inr k \<Longrightarrow> look s k = None \<Longrightarrow> add s x v = (r, s') \<Longrightarrow>
          r = None \<and> look s' = (look s)(k \<mapsto> v)"
    and add_old: "key s x = Inr k \<Longrightarrow> look s k = Some w \<Longrightarrow> add s x v = (r, s') \<Longrightarrow>
          r \<noteq> None \<and> s' = s"
    and upd_old: "key s x = Inr k \<Longrightarrow> look s k = Some w \<Longrightarrow> upd s x v = (r, s') \<Longrightarrow>
          r = None \<and> look s' = (look s)(k \<mapsto> v)"
    and upd_new: "key s x = Inr k \<Longrightarrow> look s k = None \<Longrightarrow> upd s x v = (r, s') \<Longrightarrow>
          r \<noteq> None \<and> s' = s"
    and del_look: "key s x = Inr k \<Longrightarrow> del s x = (r, s') \<Longrightarrow> r = None \<and> look s' = (look s)(k := None)"
    and key_add: "key (snd (add s x v)) = key s" and key_upd: "key (snd (upd s x v)) = key s"
    and key_del: "key (snd (del s x)) = key s"
begin

lemma get_after_add:
  assumes "key s x = Inr k" "key s y = Inr k'" "add s x v = (None, s')"
  shows "get s' y = (if k' = k then Inr (Some v) else get s y)"
proof -
  have none: "look s k = None" using add_old [OF assms(1) _ assms(3)] by (cases "look s k") auto
  have "key s' y = Inr k'" using key_add [of s x v] assms by simp
  then show ?thesis using add_new [OF assms(1) none assms(3)] assms(2) by (simp add: get_look)
qed

lemma get_after_upd:
  assumes "key s x = Inr k" "key s y = Inr k'" "upd s x v = (None, s')"
  shows "get s' y = (if k' = k then Inr (Some v) else get s y)"
proof -
  obtain w where old: "look s k = Some w"
    using upd_new [OF assms(1) _ assms(3)] by (cases "look s k") auto
  have "key s' y = Inr k'" using key_upd [of s x v] assms by simp
  then show ?thesis using upd_old [OF assms(1) old assms(3)] assms(2) by (simp add: get_look)
qed

lemma get_after_del:
  assumes "key s x = Inr k" "key s y = Inr k'" "del s x = (r, s')"
  shows "get s' y = (if k' = k then Inr None else get s y)"
proof -
  have "key s' y = Inr k'" using key_del [of s x] assms by simp
  then show ?thesis using del_look [OF assms(1,3)] assms(2) by (simp add: get_look)
qed

lemma add_del_add:
  assumes "key s x = Inr k" "del s x = (r, s')"
  shows "fst (add s' x v) = None"
proof -
  have "key s' x = Inr k" using key_del [of s x] assms by simp
  moreover have "look s' k = None" using del_look [OF assms] by simp
  ultimately show ?thesis using add_new by (metis prod.collapse)
qed

end

interpretation ts: kv_store keyFunc items store_Get store_Add store_Update store_Delete
  by unfold_locales
    (auto simp: store_Get_def store_Add_def store_Update_def store_Delete_def
          split: sum.splits if_splits)

section \<open>What the revision filter guarantees\<close>

definition stored_revision :: "('o, dyn) threadSafeStore \<Rightarrow> string \<Rightarrow> int option" where
  "stored_revision store k = (case items store k of
     Some (DynString r) \<Rightarrow> ParseInt r | _ \<Rightarrow> None)"

definition not_older :: "('o, dyn) threadSafeStore \<Rightarrow> string \<Rightarrow> string \<Rightarrow> bool" where
  "not_older store k rv \<longleftrightarrow> (case stored_revision store k of None \<Rightarrow> False
     | Some old \<Rightarrow> (case ParseInt rv of None \<Rightarrow> False | Some new \<Rightarrow> old \<le> new))"

definition revision_run ::
  "('o \<Rightarrow> goerr + string) \<Rightarrow> ('o \<Rightarrow> goerr + object_meta) \<Rightarrow> string \<Rightarrow> 'o list \<Rightarrow>
   ('o, dyn) threadSafeStore \<Rightarrow> ('o, dyn) threadSafeStore" where
  "revision_run objKey accessor className objs store =
     fold (\<lambda>obj st. snd (StoreRevisionUpdate objKey accessor className st obj)) objs store"

lemma revision_step_items:
  assumes "keyFunc store = objKey"
  shows "snd (StoreRevisionUpdate objKey accessor cn store obj) =
    (case objKey obj of Inl _ \<Rightarrow> store | Inr k \<Rightarrow>
      (case accessor obj of Inl _ \<Rightarrow> store | Inr m \<Rightarrow>
        (if items store k = None \<or> not_older store k (meta_resourceVersion m)
         then store\<lparr>items := (items store)(k \<mapsto> DynString (meta_resourceVersion m))\<rparr> else store)))"
  using assms
  by (auto simp: StoreRevisionUpdate_def store_Get_def store_Add_def store_Update_def Let_def
      revisionAccessor_def not_older_def stored_revision_def
      split: sum.splits option.splits dyn.splits prod.splits if_splits)

lemma revision_step_mono:
  assumes "keyFunc store = objKey" "stored_revision store k = Some n"
  shows "\<exists>n' \<ge> n. stored_revision (snd (StoreRevisionUpdate objKey accessor cn store obj)) k = Some n'"
  using assms(2) unfolding revision_step_items [OF assms(1)]
  by (auto simp: not_older_def stored_revision_def
      split: sum.splits option.splits dyn.splits if_splits)

lemma revision_step_keyFunc [simp]:
  "keyFunc store = objKey \<Longrightarrow>
     keyFunc (snd (StoreRevisionUpdate objKey accessor cn store obj)) = objKey"
  by (simp add: revision_step_items split: sum.splits)

text \<open>\<^verbatim>\<open>StoreRevisionUpdate\<close> accepts an object exactly when its key is not cached yet,
  or when both revisions are integers and the new one is not smaller than the cached one; when
  it accepts, the cache holds the object's revision at its key, and otherwise the cache is
  unchanged.\<close>

theorem StoreRevisionUpdate_accepts:
  assumes "objKey obj = Inr k" "keyFunc store = objKey" "accessor obj = Inr m"
  shows "(fst (StoreRevisionUpdate objKey accessor cn store obj) = (True, None) \<longleftrightarrow>
            items store k = None \<or> not_older store k (meta_resourceVersion m)) \<and>
         items (snd (StoreRevisionUpdate objKey accessor cn store obj)) =
           (if items store k = None \<or> not_older store k (meta_resourceVersion m)
            then (items store)(k \<mapsto> DynString (meta_resourceVersion m)) else items store)"
proof
  show "fst (StoreRevisionUpdate objKey accessor cn store obj) = (True, None) \<longleftrightarrow>
            items store k = None \<or> not_older store k (meta_resourceVersion m)"
    using assms
    by (auto simp: StoreRevisionUpdate_def store_Get_def store_Add_def store_Update_def Let_def
      revisionAccessor_def not_older_def stored_revision_def
      split: sum.splits option.splits dyn.splits prod.splits if_splits)
qed (simp add: revision_step_items assms)

text \<open>Whatever sequence of object versions is offered, the revision cached under a key
  never decreases.\<close>

theorem revision_run_monotone:
  assumes "keyFunc store = objKey" "stored_revision store k = Some n"
  shows "\<exists>n' \<ge> n. stored_revision (revision_run objKey accessor cn objs store) k = Some n'"
  using assms
proof (induction objs arbitrary: store n)
  case Nil
  then show ?case by (auto simp: revision_run_def)
next
  case (Cons x xs)
  obtain n1 where n1: "n \<le> n1"
      "stored_revision (snd (StoreRevisionUpdate objKey accessor cn store x)) k = Some n1"
    using revision_step_mono [OF Cons.prems] by blast
  obtain n2 where "n1 \<le> n2" "stored_revision (revision_run objKey accessor cn xs
      (snd (StoreRevisionUpdate objKey accessor cn store x))) k = Some n2"
    using Cons.IH [OF revision_step_keyFunc [OF Cons.prems(1)] n1(2)] by blast
  then show ?case using n1(1) by (auto simp: revision_run_def)
qed

text \<open>After \<^verbatim>\<open>StoreClean\<close> the object counts as new again.\<close>

lemma StoreClean_forgets:
  assumes "objKey obj = Inr k" "keyFunc store = objKey"
  shows "StoreClean objKey cn store obj = (None, store\<lparr>items := (items store)(k := None)\<rparr>)"
  using assms
  by (cases store)
     (auto simp: StoreClean_def store_Get_def store_Delete_def fun_upd_idem split: option.splits)

text \<open>Cleaning and then offering any version of the object is always accepted, so a
  recreated object is not mistaken for an old one even when its revision is smaller.\<close>

theorem StoreClean_then_accepts:
  assumes "objKey obj = Inr k" "keyFunc store = objKey" "accessor obj = Inr m"
  shows "fst (StoreRevisionUpdate objKey accessor cn
           (snd (StoreClean objKey cn store obj)) obj) = (True, None)"
proof -
  obtain r s' where c: "store_Delete store obj = (r, s')" by fastforce
  have "fst (store_Add s' obj (DynString (meta_resourceVersion m))) = None"
    using ts.add_del_add [of store obj k r s'] assms c by simp
  then show ?thesis using assms c
    by (auto simp: StoreRevisionUpdate_def StoreClean_forgets Let_def store_Get_def store_Delete_def
        split: prod.splits)
qed

section \<open>Witnesses\<close>

definition demo_key :: "object_meta \<Rightarrow> goerr + string" where
  "demo_key m = Inr (NamespaceAndName m)"

definition demo_obj :: "string \<Rightarrow> object_meta" where
  "demo_obj rv = zero_meta\<lparr>meta_name := ''b1'', meta_resourceVersion := rv\<rparr>"

definition demo_store :: "(object_meta, dyn) threadSafeStore" where
  "demo_store = snd (StoreRevisionUpdate demo_key Inr ''backup'' (NewStore demo_key) (demo_obj ''7''))"

lemma demo_store_eval [simp]:
  "demo_store = \<lparr>items = [''b1'' \<mapsto> DynString ''7''], keyFunc = demo_key\<rparr>"
  by (simp add: demo_store_def NewStore_def revision_step_items demo_key_def demo_obj_def
      NamespaceAndName_def zero_meta_def)

lemma demo_key_obj [simp]: "demo_key (demo_obj rv) = Inr ''b1''"
  by (simp add: demo_key_def demo_obj_def NamespaceAndName_def zero_meta_def)

lemma parse_demo [simp]: "ParseInt ''7'' = Some 7" "ParseInt ''12'' = Some 12" "ParseInt ''3'' = Some 3"
  by (simp_all add: ParseInt_def digit_val_def in_int64_def)

theorem StoreRevisionUpdate_accepts_witness:
  "fst (StoreRevisionUpdate demo_key Inr ''backup'' demo_store (demo_obj ''12'')) = (True, None)"
proof -
  have "not_older demo_store ''b1'' (meta_resourceVersion (demo_obj ''12''))"
    by (simp add: not_older_def stored_revision_def demo_obj_def)
  then show ?thesis
    using StoreRevisionUpdate_accepts [of demo_key "demo_obj ''12''" "''b1''" demo_store Inr
        "demo_obj ''12''" "''backup''"] by simp
qed

theorem revision_run_monotone_witness:
  "\<exists>n' \<ge> 7. stored_revision (revision_run demo_key Inr ''backup''
       [demo_obj ''12'', demo_obj ''3''] demo_store) ''b1'' = Some n'"
  using revision_run_monotone [of demo_store demo_key "''b1''" 7 Inr "''backup''"
      "[demo_obj ''12'', demo_obj ''3'']"]
  by (simp add: stored_revision_def)

theorem StoreClean_then_accepts_witness:
  "fst (StoreRevisionUpdate demo_key Inr ''backup''
     (snd (StoreClean demo_key ''backup'' demo_store (demo_obj ''3''))) (demo_obj ''3'')) = (True, None)"
  using StoreClean_then_accepts [of demo_key "demo_obj ''3''" "''b1''" demo_store Inr
      "demo_obj ''3''" "''backup''"] by simp

end
