(* ===== verification/Selection.thy ===== *)
theory Selection
  imports Kahu_Prelude
begin

text \<open>
  Inclusion and exclusion lists: \<^verbatim>\<open>utils/validations.go\<close> and the string matching of
  \<^verbatim>\<open>utils/utils.go\<close>.

  \<^verbatim>\<open>regexp\<close> and \<^verbatim>\<open>validation.ValidateNamespaceName\<close> are library code: the former
  is a parameter \<open>compile\<close> that yields a matcher for a valid expression, the latter a parameter
  \<open>nsMsgs\<close> that yields the list of complaints. Slices share their backing array after
  \<^verbatim>\<open>append(s[:i], s[i+1:]...)\<close>, so \<^verbatim>\<open>RemoveItem\<close> is modelled on the array and the
  length of the slice into it, and \<^verbatim>\<open>GetResultantItems\<close> also returns what the caller's
  array holds afterwards.
\<close>

section \<open>Validation of namespace lists\<close>

definition ValidateIncludesExcludes :: "string list \<Rightarrow> string list \<Rightarrow> string list" where
  "ValidateIncludesExcludes includesList excludesList =
     (let includeRes = set includesList; excludeRes = set excludesList;
          errs1 = (if ''*'' \<in> includeRes
                   then [''IncludeList doesnot support *. Empty list will be consider for all''] else []);
          errs2 = (if ''*'' \<in> excludeRes then [''excludeList cannot contain *''] else [])
      in errs1 @ errs2 @
         map (\<lambda>r. ''same resource can not be in iclude and exlude list: '' @ r)
           (filter (\<lambda>r. r \<in> includeRes) (sets_List excludeRes)))"

definition star_to_x :: "string \<Rightarrow> string" where
  "star_to_x ns = map (\<lambda>c. if c = CHR ''*'' then CHR ''x'' else c) ns"

definition validateNamespaceName :: "(string \<Rightarrow> string list) \<Rightarrow> string \<Rightarrow> string list" where
  "validateNamespaceName nsMsgs ns =
     map (\<lambda>m. ''invalid namespace '' @ ns @ '': '' @ m) (nsMsgs (star_to_x ns))"

definition ValidateNamespace ::
  "(string \<Rightarrow> string list) \<Rightarrow> string list \<Rightarrow> string list \<Rightarrow> string list" where
  "ValidateNamespace nsMsgs includesList excludesList =
     ValidateIncludesExcludes includesList excludesList @
     concat (map (validateNamespaceName nsMsgs) (sets_List (set includesList))) @
     concat (map (validateNamespaceName nsMsgs) (sets_List (set excludesList)))"

section \<open>Resultant items\<close>

fun Contains :: "string list \<Rightarrow> string \<Rightarrow> bool" where
  "Contains [] str = False"
| "Contains (v # s) str = (if v = str then True else Contains s str)"

fun index_of :: "string list \<Rightarrow> string \<Rightarrow> nat option" where
  "index_of [] r = None"
| "index_of (v # s) r = (if v = r then Some 0 else map_option Suc (index_of s r))"

text \<open>
  \<open>RemoveItem (arr, n) r\<close>: the slice is the first \<open>n\<close> cells of the array \<open>arr\<close>. The removal
  copies the cells after the hit one place down, so the cell \<open>n - 1\<close> keeps its value and the
  cells from \<open>n\<close> on are untouched.
\<close>

definition RemoveItem :: "string list \<times> nat \<Rightarrow> string \<Rightarrow> string list \<times> nat" where
  "RemoveItem sl r = (case sl of (arr, n) \<Rightarrow>
     (case index_of (take n arr) r of
        None \<Rightarrow> (arr, n)
      | Some i \<Rightarrow> (take i arr @ drop (Suc i) (take n arr) @ drop (n - 1) arr, n - 1)))"

definition slice :: "string list \<times> nat \<Rightarrow> string list" where
  "slice sl = take (snd sl) (fst sl)"

fun exclude_items :: "string list \<Rightarrow> string list \<times> nat \<Rightarrow> string list \<times> nat" where
  "exclude_items [] sl = sl"
| "exclude_items (itm # rest) sl =
     exclude_items rest (if Contains (slice sl) itm then RemoveItem sl itm else sl)"

text \<open>
  Result: the resultant items and the contents of the array of \<open>allList\<close> afterwards.
\<close>

definition GetResultantItems ::
  "string list \<Rightarrow> string list \<Rightarrow> string list \<Rightarrow> string list \<times> string list" where
  "GetResultantItems allList0 includeList excludeList =
     (let allList = (if allList0 = [] then includeList else allList0) in
      if includeList = []
      then (let sl = exclude_items excludeList (allList, length allList) in (slice sl, fst sl))
      else (let inc = filter (\<lambda>item. Contains allList item) includeList
            in (slice (exclude_items excludeList (inc, length inc)), allList0)))"

section \<open>Matching names\<close>

record resource_spec =
  rs_name :: string
  rs_kind :: string
  rs_isRegex :: bool

definition GetSubItemStrings ::
  "(string \<Rightarrow> (string \<Rightarrow> bool) option) \<Rightarrow> string list \<Rightarrow> string \<Rightarrow> bool \<Rightarrow> string list outcome" where
  "GetSubItemStrings compile allList input isRegex =
     (if isRegex then
        (case compile input of None \<Rightarrow> Panic | Some re \<Rightarrow> Ret (filter re allList))
      else Ret (filter (\<lambda>item. item = input) allList))"

fun collect_specs ::
  "(string \<Rightarrow> (string \<Rightarrow> bool) option) \<Rightarrow> string \<Rightarrow> string list \<Rightarrow> resource_spec list \<Rightarrow>
   string list outcome" where
  "collect_specs compile kind allList [] = Ret []"
| "collect_specs compile kind allList (r # rs) =
     (if rs_kind r = kind then
        (case GetSubItemStrings compile allList (rs_name r) (rs_isRegex r) of
           Panic \<Rightarrow> Panic
         | Ret xs \<Rightarrow> (case collect_specs compile kind allList rs of
                       Panic \<Rightarrow> Panic | Ret ys \<Rightarrow> Ret (xs @ ys)))
      else collect_specs compile kind allList rs)"

definition FindMatchedStrings ::
  "(string \<Rightarrow> (string \<Rightarrow> bool) option) \<Rightarrow> string \<Rightarrow> string list \<Rightarrow> resource_spec list \<Rightarrow>
   resource_spec list \<Rightarrow> string list outcome" where
  "FindMatchedStrings compile kind allList includeList excludeList =
     (case (if includeList = [] then Ret allList
            else collect_specs compile kind allList includeList) of
        Panic \<Rightarrow> Panic
      | Ret incs \<Rightarrow>
        (case collect_specs compile kind allList excludeList of
           Panic \<Rightarrow> Panic
         | Ret excs \<Rightarrow>
             Ret (if incs \<noteq> [] then fst (GetResultantItems allList incs excs) else incs)))"

section \<open>Volumes\<close>

record pv_source =
  src_csi :: "string option"
  src_aws :: bool
  src_azureDisk :: bool
  src_azureFile :: bool
  src_cephFS :: bool

definition CheckBackupSupport :: "string \<Rightarrow> pv_source \<Rightarrow> goerr option" where
  "CheckBackupSupport pvName spec = (if src_csi spec = None
     then Some (errorf (''PV '' @ pvName @ '' is non CSI volume, can not backup.'')) else None)"

definition VolumeProvider :: "pv_source \<Rightarrow> string" where
  "VolumeProvider spec = (case src_csi spec of Some driver \<Rightarrow> driver
     | None \<Rightarrow> if src_aws spec then ''AWSElasticBlockStore''
        else if src_azureDisk spec then ''AzureDisk''
        else if src_azureFile spec then ''AzureFile''
        else if src_cephFS spec then ''CephFS'' else [])"

section \<open>Library lemmas\<close>

lemma Contains_set [simp]: "Contains s x \<longleftrightarrow> x \<in> set s"
  by (induction s) auto

lemma index_of_None [simp]: "index_of s r = None \<longleftrightarrow> r \<notin> set s"
  by (induction s) auto

lemma index_of_Some:
  "index_of s r = Some i \<Longrightarrow> i < length s \<and> take i s @ drop (Suc i) s = remove1 r s"
  by (induction s arbitrary: i) (auto split: if_splits)

lemma RemoveItem_slice:
  assumes "n \<le> length arr"
  shows "slice (RemoveItem (arr, n) r) = remove1 r (take n arr)"
    and "snd (RemoveItem (arr, n) r) \<le> length (fst (RemoveItem (arr, n) r))"
    and "length (fst (RemoveItem (arr, n) r)) = length arr"
proof -
  have idx: "i < n \<and> take i arr @ drop (Suc i) (take n arr) = remove1 r (take n arr)"
    if "index_of (take n arr) r = Some i" for i
    using index_of_Some [OF that] assms by (simp add: min_def split: if_splits)
  show "slice (RemoveItem (arr, n) r) = remove1 r (take n arr)"
  proof (cases "index_of (take n arr) r")
    case None
    then have "RemoveItem (arr, n) r = (arr, n)" by (simp add: RemoveItem_def del: index_of_None)
    then show ?thesis using None by (simp add: slice_def remove1_idem)
  next
    case (Some i)
    have l: "length (take i arr @ drop (Suc i) (take n arr)) = n - 1"
      using conjunct1 [OF idx [OF Some]] assms by (simp add: min_def)
    have "slice (RemoveItem (arr, n) r) = take (n - 1) ((take i arr @ drop (Suc i) (take n arr)) @ drop (n - 1) arr)"
      using Some by (simp add: RemoveItem_def slice_def)
    also have "\<dots> = take i arr @ drop (Suc i) (take n arr)"
      using l by (metis append_eq_conv_conj)
    finally show ?thesis using idx [OF Some] by simp
  qed
  show "snd (RemoveItem (arr, n) r) \<le> length (fst (RemoveItem (arr, n) r))"
    using idx assms by (auto simp: RemoveItem_def split: option.splits)
  show "length (fst (RemoveItem (arr, n) r)) = length arr"
    using idx assms by (force simp: RemoveItem_def split: option.splits)
qed

lemma exclude_items_slice:
  "snd sl \<le> length (fst sl) \<Longrightarrow> slice (exclude_items ex sl) = fold remove1 ex (slice sl)"
proof (induction ex sl rule: exclude_items.induct)
  case (1 sl)
  then show ?case by simp
next
  case (2 itm rest sl)
  obtain arr n where sl: "sl = (arr, n)" by fastforce
  show ?case
  proof (cases "Contains (slice sl) itm")
    case True
    then show ?thesis using 2 RemoveItem_slice [of n arr itm] by (simp add: sl slice_def)
  next
    case False
    then show ?thesis using 2 by (simp add: sl remove1_idem)
  qed
qed

lemma GetResultantItems_eq:
  "fst (GetResultantItems allList inc ex) =
     fold remove1 ex (if inc = [] then allList
       else filter (\<lambda>x. allList = [] \<or> x \<in> set allList) inc)"
proof -
  have ex: "slice (exclude_items ex (l, length l)) = fold remove1 ex l" for l
    by (simp add: exclude_items_slice) (simp add: slice_def)
  have "Contains allList = (\<lambda>x. x \<in> set allList)" by auto
  then show ?thesis by (simp add: GetResultantItems_def Let_def ex)
qed

lemma set_fold_remove1:
  "distinct xs \<Longrightarrow> set (fold remove1 ex xs) = set xs - set ex \<and> distinct (fold remove1 ex xs)"
  by (induction ex arbitrary: xs) auto

lemma fold_remove1_subset: "set (fold remove1 ex xs) \<subseteq> set xs"
proof (induction ex arbitrary: xs)
  case (Cons e ex)
  show ?case using Cons [of "remove1 e xs"] set_remove1_subset [of e xs] by auto
qed simp

section \<open>Properties\<close>

text \<open>\<^verbatim>\<open>ValidateNamespace\<close> reports nothing exactly when neither list contains the
  wildcard, the lists are disjoint, and every entry passes the namespace name check after
  stars are replaced.\<close>

theorem ValidateNamespace_ok:
  "ValidateNamespace nsMsgs inc ex = [] \<longleftrightarrow>
     ''*'' \<notin> set inc \<and> ''*'' \<notin> set ex \<and> set inc \<inter> set ex = {} \<and>
     (\<forall>ns \<in> set inc \<union> set ex. nsMsgs (star_to_x ns) = [])"
proof -
  have "ValidateIncludesExcludes inc ex = [] \<longleftrightarrow>
     ''*'' \<notin> set inc \<and> ''*'' \<notin> set ex \<and> set inc \<inter> set ex = {}"
    by (auto simp: ValidateIncludesExcludes_def Let_def filter_empty_conv)
  moreover have "concat (map (validateNamespaceName nsMsgs) (sets_List (set l))) = [] \<longleftrightarrow>
      (\<forall>ns \<in> set l. nsMsgs (star_to_x ns) = [])" for l
    by (auto simp: validateNamespaceName_def)
  ultimately show ?thesis unfolding ValidateNamespace_def by auto
qed

theorem ValidateNamespace_ok_witness:
  "ValidateNamespace (\<lambda>ns. if ns = [] then [''empty''] else []) [''app'', ''db''] [''kube-system''] = []"
  by (rule ValidateNamespace_ok
      [of "\<lambda>ns. if ns = [] then [''empty''] else []" "[''app'', ''db'']" "[''kube-system'']",
       THEN iffD2]) (auto simp: star_to_x_def)

text \<open>On lists without repetition, the resultant items are the included ones that exist
  (all of them when nothing is included explicitly) minus the excluded ones, each once.\<close>

theorem GetResultantItems_set:
  assumes "distinct allList" "distinct inc" "allList \<noteq> []"
  shows "set (fst (GetResultantItems allList inc ex)) =
           (if inc = [] then set allList else set allList \<inter> set inc) - set ex \<and>
         distinct (fst (GetResultantItems allList inc ex))"
  using assms set_fold_remove1 [of allList ex]
    set_fold_remove1 [of "filter (\<lambda>x. x \<in> set allList) inc" ex]
  by (auto simp: GetResultantItems_eq)

theorem GetResultantItems_set_witness:
  "set (fst (GetResultantItems [''Pod'', ''Service'', ''Secret''] [] [''Service''])) =
     {''Pod'', ''Secret''}"
  using GetResultantItems_set [of "[''Pod'', ''Service'', ''Secret'']" "[]" "[''Service'']"]
  by auto

lemma GetSubItemStrings_subset:
  "GetSubItemStrings compile allList input isRegex = Ret xs \<Longrightarrow>
     set xs \<subseteq> set allList \<and> (distinct allList \<longrightarrow> distinct xs)"
  by (auto simp: GetSubItemStrings_def split: if_splits option.splits)

lemma collect_specs_subset:
  "collect_specs compile kind allList specs = Ret xs \<Longrightarrow> set xs \<subseteq> set allList"
  by (induction specs arbitrary: xs)
     (fastforce split: if_splits outcome.splits dest: GetSubItemStrings_subset)+

text \<open>When the include specifications select no name twice, the names found are exactly
  the selected candidates that no exclude specification of the kind matches.\<close>

theorem FindMatchedStrings_exact:
  assumes "distinct allList"
    and "collect_specs compile kind allList incs = Ret is" "distinct is"
    and "collect_specs compile kind allList excs = Ret es"
  shows "\<exists>xs. FindMatchedStrings compile kind allList incs excs = Ret xs \<and> distinct xs \<and>
     set xs = (if incs = [] then set allList else set is) - set es"
proof (cases "incs = []")
  case True
  then show ?thesis
    using assms set_fold_remove1 [of allList es] collect_specs_subset [OF assms(4)]
    by (auto simp: FindMatchedStrings_def GetResultantItems_eq filter_id_conv)
next
  case False
  have "filter (\<lambda>x. allList = [] \<or> x \<in> set allList) is = is"
    using collect_specs_subset [OF assms(2)] by (auto simp: filter_id_conv)
  then show ?thesis
    using False assms set_fold_remove1 [of "is" es]
    by (auto simp: FindMatchedStrings_def GetResultantItems_eq)
qed

theorem FindMatchedStrings_exact_witness:
  "\<exists>xs. FindMatchedStrings (\<lambda>_. None) ''Pod'' [''p1'', ''p2'']
      [] [\<lparr>rs_name = ''p2'', rs_kind = ''Pod'', rs_isRegex = False\<rparr>] = Ret xs \<and> set xs = {''p1''}"
  using FindMatchedStrings_exact [of "[''p1'', ''p2'']" "\<lambda>_. None" "''Pod''" "[]" "[]"
      "[\<lparr>rs_name = ''p2'', rs_kind = ''Pod'', rs_isRegex = False\<rparr>]" "[''p2'']"]
  by (auto simp: GetSubItemStrings_def)

section \<open>Where the code departs from its intent\<close>

text \<open>
  \<^verbatim>\<open>RemoveItem\<close> drops the first occurrence only. Two include specifications that both
  match a name put it in the list twice, and an exclusion of it leaves one copy.
\<close>

lemma FindMatchedStrings_keeps_excluded:
  "FindMatchedStrings (\<lambda>r. if r = ''.*'' then Some (\<lambda>_. True) else None) ''Pod'' [''p1'']
     [\<lparr>rs_name = ''p1'', rs_kind = ''Pod'', rs_isRegex = False\<rparr>,
      \<lparr>rs_name = ''.*'', rs_kind = ''Pod'', rs_isRegex = True\<rparr>]
     [\<lparr>rs_name = ''p1'', rs_kind = ''Pod'', rs_isRegex = False\<rparr>] = Ret [''p1'']"
  by (simp add: FindMatchedStrings_def GetSubItemStrings_def GetResultantItems_eq)

text \<open>
  With an empty include list the removal shifts the caller's own array: the list of all items
  loses the excluded one and repeats its last element.
\<close>

lemma GetResultantItems_clobbers_caller:
  "snd (GetResultantItems [''Pod'', ''Service'', ''Secret''] [] [''Pod'']) =
     [''Service'', ''Secret'', ''Secret'']"
  by (simp add: GetResultantItems_def RemoveItem_def slice_def Let_def)

end
