(* ===== verification/Backup_Types.thy ===== *)
theory Backup_Types
  imports Store Selection
begin

text \<open>
  The \<^verbatim>\<open>Backup\<close> object of \<^verbatim>\<open>apis/kahu/v1beta1/backup.go\<close>, the constants of
  \<^verbatim>\<open>controllers/backup/constants.go\<close> and the status merge of
  \<^verbatim>\<open>controllers/backup/updaters.go\<close>.

  String enumerations are datatypes with a constructor for the empty string and one for any
  other text. A \<^verbatim>\<open>metav1.LabelSelector\<close> is its formatted text: the controllers only hand
  it to library code.
\<close>

section \<open>apis/kahu/v1beta1/backup.go\<close>

datatype HookErrorMode = HookErrorModeNone | HookErrorModeContinue | HookErrorModeFail
  | HookErrorModeOther string

record ExecHook =
  eh_container :: string
  eh_command :: "string list"
  eh_onError :: HookErrorMode
  eh_timeout :: int

record ResourceHookSpec =
  hk_name :: string
  hk_includeNamespaces :: "string list"
  hk_excludeNamespaces :: "string list"
  hk_includeResources :: "resource_spec list"
  hk_excludeResources :: "resource_spec list"
  hk_labelSelector :: "string option"
  hk_continueIfNotFound :: bool
  hk_preHooks :: "ExecHook option list"
  hk_postHooks :: "ExecHook option list"

record BackupSpec =
  sp_metadataLocation :: string
  sp_hook :: "ResourceHookSpec list"
  sp_volumeBackupLocations :: "string list"
  sp_enableMetadataBackup :: bool
  sp_enableVolumeBackup :: bool
  sp_includeNamespaces :: "string list"
  sp_excludeNamespaces :: "string list"
  sp_includeResources :: "resource_spec list"
  sp_excludeResources :: "resource_spec list"
  sp_label :: "string option"

datatype ResourceStatus = ResourceStatusNone | Pending | Processing | Completed
  | ResourceStatusOther string

record BackupResource =
  br_apiVersion :: string
  br_kind :: string
  br_resourceName :: string
  br_namespace :: string
  br_status :: ResourceStatus

datatype BackupStage = BackupStageNone | BackupStageInitial | BackupStagePreHook
  | BackupStageResources | BackupStageVolumes | BackupStagePostHook | BackupStageFinished
  | BackupStageOther string

datatype BackupState = BackupStateNone | BackupStateNew | BackupStateValidating
  | BackupStateFailed | BackupStateProcessing | BackupStateCompleted | BackupStateDeleting
  | BackupStateOther string

record BackupStatus =
  st_stage :: BackupStage
  st_state :: BackupState
  st_lastBackup :: "int option"
  st_validationErrors :: "string list"
  st_resources :: "BackupResource list"
  st_startTimestamp :: "int option"
  st_completionTimestamp :: "int option"

record Backup =
  bk_meta :: object_meta
  bk_spec :: BackupSpec
  bk_status :: BackupStatus

definition zero_BackupStatus :: BackupStatus where
  "zero_BackupStatus = \<lparr>st_stage = BackupStageNone, st_state = BackupStateNone, st_lastBackup = None,
     st_validationErrors = [], st_resources = [], st_startTimestamp = None,
     st_completionTimestamp = None\<rparr>"

definition zero_BackupSpec :: BackupSpec where
  "zero_BackupSpec = \<lparr>sp_metadataLocation = [], sp_hook = [], sp_volumeBackupLocations = [],
     sp_enableMetadataBackup = False, sp_enableVolumeBackup = False, sp_includeNamespaces = [],
     sp_excludeNamespaces = [], sp_includeResources = [], sp_excludeResources = [], sp_label = None\<rparr>"

definition zero_Backup :: Backup where
  "zero_Backup = \<lparr>bk_meta = zero_meta, bk_spec = zero_BackupSpec, bk_status = zero_BackupStatus\<rparr>"

definition status_of :: "BackupStage \<Rightarrow> BackupState \<Rightarrow> BackupStatus" where
  "status_of stage state = zero_BackupStatus\<lparr>st_stage := stage, st_state := state\<rparr>"

abbreviation bk_stage :: "Backup \<Rightarrow> BackupStage" where "bk_stage b \<equiv> st_stage (bk_status b)"
abbreviation bk_state :: "Backup \<Rightarrow> BackupState" where "bk_state b \<equiv> st_state (bk_status b)"
abbreviation bk_name :: "Backup \<Rightarrow> string" where "bk_name b \<equiv> meta_name (bk_meta b)"

lemma status_of_simps [simp]:
  "st_stage (status_of g t) = g" "st_state (status_of g t) = t"
  "st_lastBackup (status_of g t) = None" "st_validationErrors (status_of g t) = []"
  "st_resources (status_of g t) = []" "st_startTimestamp (status_of g t) = None"
  "st_completionTimestamp (status_of g t) = None"
  by (simp_all add: status_of_def zero_BackupStatus_def)

section \<open>controllers/backup/constants.go\<close>

definition backupFinalizer :: string where "backupFinalizer = ''kahu.io/backup-protection''"
definition volumeContentBackupLabel :: string where "volumeContentBackupLabel = ''kahu.io/backup-name''"
definition volumeContentVolumeProvider :: string where
  "volumeContentVolumeProvider = ''kahu.io/backup-provider''"
definition annVolumeBackupDeleteCompleted :: string where
  "annVolumeBackupDeleteCompleted = ''kahu.io/volume-backup-delete-completed''"
definition annVolumeBackupCompleted :: string where
  "annVolumeBackupCompleted = ''kahu.io/volume-backup-completed''"
definition annVolumeBackupFailHooks :: string where
  "annVolumeBackupFailHooks = ''kahu.io/volume-backup-fail-hooks-completed''"
definition annBackupContentSynced :: string where
  "annBackupContentSynced = ''kahu.io/backup-content-sync-completed''"
definition annBackupCleanupDone :: string where
  "annBackupCleanupDone = ''kahu.io/backup-cleanup-done''"

fun toOrdinal :: "BackupStage \<Rightarrow> int" where
  "toOrdinal BackupStageInitial = 0"
| "toOrdinal BackupStagePreHook = 1"
| "toOrdinal BackupStageVolumes = 2"
| "toOrdinal BackupStagePostHook = 3"
| "toOrdinal BackupStageResources = 4"
| "toOrdinal BackupStageFinished = 5"
| "toOrdinal _ = -1"

section \<open>Merging a status\<close>

definition same_resource :: "BackupResource \<Rightarrow> BackupResource \<Rightarrow> bool" where
  "same_resource r q \<longleftrightarrow> br_namespace q = br_namespace r \<and> br_resourceName q = br_resourceName r"

definition mergeStatusResources :: "Backup \<Rightarrow> BackupStatus \<Rightarrow> Backup" where
  "mergeStatusResources backup status =
     (let newResources = filter (\<lambda>resource.
            \<not> list_ex (same_resource resource) (st_resources (bk_status backup))) (st_resources status)
      in backup\<lparr>bk_status := (bk_status backup)
           \<lparr>st_resources := st_resources (bk_status backup) @ newResources\<rparr>\<rparr>)"

text \<open>
  The part of \<^verbatim>\<open>updateBackupStatus\<close> before the API call: the object to send, and whether
  anything changed.
\<close>

definition mergeBackupStatus :: "Backup \<Rightarrow> BackupStatus \<Rightarrow> Backup \<times> bool" where
  "mergeBackupStatus backup status =
    (let old = bk_status backup;
         d1 = (st_stage status \<noteq> BackupStageNone \<and> toOrdinal (st_stage old) < toOrdinal (st_stage status));
         d2 = (st_state status \<noteq> BackupStateNone \<and> st_state old \<noteq> st_state status);
         d3 = (0 < length (st_validationErrors status));
         d4 = (st_startTimestamp old = None \<and> st_startTimestamp status \<noteq> None);
         d5 = (st_completionTimestamp old = None \<and> st_completionTimestamp status \<noteq> None);
         d6 = (st_lastBackup old = None \<and> st_lastBackup status \<noteq> None);
         d7 = (0 < length (st_resources status));
         clone = backup\<lparr>bk_status := old\<lparr>
           st_stage := if d1 then st_stage status else st_stage old,
           st_state := if d2 then st_state status else st_state old,
           st_validationErrors := if d3 then st_validationErrors status else st_validationErrors old,
           st_startTimestamp := if d4 then st_startTimestamp status else st_startTimestamp old,
           st_completionTimestamp := if d5 then st_completionTimestamp status else st_completionTimestamp old,
           st_lastBackup := if d6 then st_lastBackup status else st_lastBackup old\<rparr>\<rparr>
     in (if d7 then mergeStatusResources clone status else clone,
         d1 \<or> d2 \<or> d3 \<or> d4 \<or> d5 \<or> d6 \<or> d7))"

section \<open>Facts about the merge\<close>

lemma mergeStatusResources_frame [simp]:
  "bk_meta (mergeStatusResources b s) = bk_meta b"
  "bk_spec (mergeStatusResources b s) = bk_spec b"
  "st_stage (bk_status (mergeStatusResources b s)) = bk_stage b"
  "st_state (bk_status (mergeStatusResources b s)) = bk_state b"
  "st_startTimestamp (bk_status (mergeStatusResources b s)) = st_startTimestamp (bk_status b)"
  "st_completionTimestamp (bk_status (mergeStatusResources b s)) = st_completionTimestamp (bk_status b)"
  "st_validationErrors (bk_status (mergeStatusResources b s)) = st_validationErrors (bk_status b)"
  by (simp_all add: mergeStatusResources_def Let_def)

lemma merge_frame [simp]:
  "bk_meta (fst (mergeBackupStatus b s)) = bk_meta b"
  "bk_spec (fst (mergeBackupStatus b s)) = bk_spec b"
  by (simp_all add: mergeBackupStatus_def Let_def)

lemma merge_stage:
  "bk_stage (fst (mergeBackupStatus b s)) =
     (if st_stage s \<noteq> BackupStageNone \<and> toOrdinal (bk_stage b) < toOrdinal (st_stage s)
      then st_stage s else bk_stage b)"
  by (simp add: mergeBackupStatus_def Let_def)

lemma merge_state:
  "bk_state (fst (mergeBackupStatus b s)) = (if st_state s \<noteq> BackupStateNone then st_state s else bk_state b)"
  by (simp add: mergeBackupStatus_def Let_def)

lemma merge_completion:
  "st_completionTimestamp (bk_status (fst (mergeBackupStatus b s))) =
     (case st_completionTimestamp (bk_status b) of None \<Rightarrow> st_completionTimestamp s | Some t \<Rightarrow> Some t)"
  by (auto simp: mergeBackupStatus_def Let_def split: option.splits)

lemma merge_start:
  "st_startTimestamp (bk_status (fst (mergeBackupStatus b s))) =
     (case st_startTimestamp (bk_status b) of None \<Rightarrow> st_startTimestamp s | Some t \<Rightarrow> Some t)"
  by (auto simp: mergeBackupStatus_def Let_def split: option.splits)

lemma merge_resources:
  "st_resources (bk_status (fst (mergeBackupStatus b s))) =
     st_resources (bk_status b) @ filter (\<lambda>r. \<not> list_ex (same_resource r) (st_resources (bk_status b)))
       (st_resources s)"
  by (cases "st_resources s = []") (simp_all add: mergeBackupStatus_def mergeStatusResources_def Let_def)

lemma merge_clean: "\<not> snd (mergeBackupStatus b s) \<Longrightarrow> fst (mergeBackupStatus b s) = b"
  unfolding mergeBackupStatus_def Let_def fst_conv snd_conv de_Morgan_disj
  by (elim conjE) (simp only: if_False, simp)

lemma merge_stage_mono: "toOrdinal (bk_stage b) \<le> toOrdinal (bk_stage (fst (mergeBackupStatus b s)))"
  by (simp add: merge_stage)

end
