(* ===== verification/Kube_Types.thy ===== *)
theory Kube_Types
  imports ObjectMeta Selection
begin

text \<open>
  The Kubernetes objects the controllers read, reduced to the fields the sources look at, the
  client they read them through, and the kinds of \<^verbatim>\<open>utils/constant.go\<close>.

  The client is library code and is a parameter: a record of functions of the request and of
  the world, each returning an error or the objects. A get that fails returns a zero object next
  to the error, as the generated clients do.
\<close>

section \<open>utils/constant.go\<close>

definition Pod_kind :: string where "Pod_kind = ''Pod''"
definition Service_kind :: string where "Service_kind = ''Service''"
definition Deployment_kind :: string where "Deployment_kind = ''Deployment''"
definition Replicaset_kind :: string where "Replicaset_kind = ''ReplicaSet''"
definition StatefulSet_kind :: string where "StatefulSet_kind = ''StatefulSet''"
definition DaemonSet_kind :: string where "DaemonSet_kind = ''DaemonSet''"
definition Configmap_kind :: string where "Configmap_kind = ''ConfigMap''"
definition Secret_kind :: string where "Secret_kind = ''Secret''"
definition PVC_kind :: string where "PVC_kind = ''PersistentVolumeClaim''"
definition PV_kind :: string where "PV_kind = ''PersistentVolume''"
definition Endpoint_kind :: string where "Endpoint_kind = ''Endpoint''"
definition SC_kind :: string where "SC_kind = ''StorageClass''"
definition VBC_kind :: string where "VBC_kind = ''VolumeBackupContent''"

lemmas kind_defs = Pod_kind_def Service_kind_def Deployment_kind_def Replicaset_kind_def
  StatefulSet_kind_def DaemonSet_kind_def Configmap_kind_def Secret_kind_def PVC_kind_def
  PV_kind_def Endpoint_kind_def SC_kind_def VBC_kind_def

definition SupportedResourceList :: "string list" where
  "SupportedResourceList = [Pod_kind, Service_kind, Deployment_kind, Replicaset_kind,
     StatefulSet_kind, DaemonSet_kind, Configmap_kind, Secret_kind, PVC_kind, PV_kind,
     Endpoint_kind, SC_kind]"

section \<open>Objects\<close>

record pod_volume =
  vol_configMap :: "string option"
  vol_pvc :: "string option"
  vol_secret :: "string option"

record env_source =
  es_configMap :: "string option"
  es_secret :: "string option"

record container =
  ct_name :: string
  ct_env :: "env_source option list"
  ct_envFrom :: "env_source list"

record pod_spec =
  ps_volumes :: "pod_volume list"
  ps_serviceAccountName :: string
  ps_containers :: "container list"
  ps_initContainers :: "container list"
  ps_ephemeralContainers :: "container list"

text \<open>Label maps are kept as the list of their pairs in the order a range loop visits them.\<close>

type_synonym label_pairs = "(string \<times> string) list"

record service =
  svc_meta :: object_meta
  svc_selector :: label_pairs

record pod =
  pod_meta :: object_meta
  pod_podspec :: pod_spec
  pod_labels :: label_pairs

text \<open>Deployments, replica sets, daemon sets and stateful sets.\<close>

record workload =
  wl_meta :: object_meta
  wl_template :: pod_spec
  wl_matchLabels :: label_pairs
  wl_selector :: string
  wl_claimTemplates :: nat

record pvc =
  pvc_meta :: object_meta
  pvc_volumeName :: string
  pvc_storageClassName :: "string option"

record claim_ref =
  cr_apiVersion :: string
  cr_kind :: string
  cr_name :: string
  cr_namespace :: string

record pv =
  pv_meta :: object_meta
  pv_source :: pv_source
  pv_claimRef :: "claim_ref option"

record subject =
  sj_kind :: string
  sj_name :: string
  sj_namespace :: string

record binding =
  rb_meta :: object_meta
  rb_subjects :: "subject list"
  rb_roleKind :: string
  rb_roleName :: string
  rb_roleSize :: nat

datatype kobj =
    KMeta string object_meta
  | KService service
  | KPod pod
  | KWorkload string workload
  | KPVC pvc
  | KBinding string binding

fun kobj_meta :: "kobj \<Rightarrow> object_meta" where
  "kobj_meta (KMeta k m) = m"
| "kobj_meta (KService s) = svc_meta s"
| "kobj_meta (KPod p) = pod_meta p"
| "kobj_meta (KWorkload k w) = wl_meta w"
| "kobj_meta (KPVC p) = pvc_meta p"
| "kobj_meta (KBinding k b) = rb_meta b"

section \<open>The client\<close>

record 'w kube =
  kc_services :: "string \<Rightarrow> string \<Rightarrow> 'w \<Rightarrow> goerr + service list"
  kc_metas :: "string \<Rightarrow> string \<Rightarrow> string \<Rightarrow> 'w \<Rightarrow> goerr + object_meta list"
  kc_pods :: "string \<Rightarrow> string \<Rightarrow> 'w \<Rightarrow> goerr + pod list"
  kc_workloads :: "string \<Rightarrow> string \<Rightarrow> string \<Rightarrow> 'w \<Rightarrow> goerr + workload list"
  kc_pvcs :: "string \<Rightarrow> string \<Rightarrow> 'w \<Rightarrow> goerr + pvc list"
  kc_bindings :: "string \<Rightarrow> string \<Rightarrow> 'w \<Rightarrow> goerr + binding list"
  kc_getMeta :: "string \<Rightarrow> string \<Rightarrow> string \<Rightarrow> 'w \<Rightarrow> object_meta \<times> goerr option"
  kc_getPVC :: "string \<Rightarrow> string \<Rightarrow> 'w \<Rightarrow> goerr + pvc"
  kc_getPV :: "string \<Rightarrow> 'w \<Rightarrow> goerr + pv"

end
