(* ===== verification/Backup_Updater.thy ===== *)
theory Backup_Updater
  imports Backup_Types Kube_Types
begin

text \<open>
  The backup controller's state, its calls to the API server, and the two ways it changes a
  \<^verbatim>\<open>Backup\<close> there: \<^verbatim>\<open>updaters.go\<close> (status updates and patches) and
  \<^verbatim>\<open>backupvolume.go:annotateBackup\<close>.

  The API server is a parameter: a record of functions over an arbitrary world \<open>'w\<close>. The
  generated client returns a non-nil zero object together with an error, so a call yields an
  object and an optional error. Every call and every recorded event is appended to a log, which
  the properties of the handlers speak about. \<open>bc_supported\<close> is the global slice
  \<^verbatim>\<open>utils.SupportedResourceList\<close>. Marshalling and \<^verbatim>\<open>jsonpatch.CreateMergePatch\<close>
  are library code and one parameter.
\<close>

section \<open>State and calls\<close>

datatype HookPhase = PreHookPhase | PostHookPhase

datatype bk_event =
    EvUpdateStatus Backup bool
  | EvPatch Backup Backup bool
  | EvRecord string string
  | EvHook HookPhase bool
  | EvListVBC nat bool
  | EvDeleteVBC string bool
  | EvCreateVBC string bool
  | EvVolume string bool
  | EvMetaDelete string bool
  | EvMetaConnect string bool
  | EvMetaOpen bool
  | EvMetaSend kobj string bool
  | EvMetaIdentify string bool
  | EvMetaClose bool

record 'w bctrl =
  bc_processed :: "(Backup, dyn) threadSafeStore"
  bc_world :: 'w
  bc_log :: "bk_event list"
  bc_supported :: "string list"

record 'w backup_api =
  ba_objKey :: "Backup \<Rightarrow> goerr + string"
  ba_mergePatch :: "Backup \<Rightarrow> Backup \<Rightarrow> goerr + string"
  ba_Patch :: "string \<Rightarrow> string \<Rightarrow> 'w \<Rightarrow> (Backup \<times> goerr option) \<times> 'w"
  ba_UpdateStatus :: "Backup \<Rightarrow> 'w \<Rightarrow> (Backup \<times> goerr option) \<times> 'w"
  ba_Now :: "'w \<Rightarrow> int"

definition call :: "('w \<Rightarrow> 'r \<times> 'w) \<Rightarrow> ('r \<Rightarrow> bk_event) \<Rightarrow> ('w bctrl, 'r) state" where
  "call f ev = liftst (\<lambda>s. case f (bc_world s) of (r, w) \<Rightarrow>
     (r, s\<lparr>bc_world := w, bc_log := bc_log s @ [ev r]\<rparr>))"

definition emit :: "bk_event \<Rightarrow> ('w bctrl, unit) state" where
  "emit ev = liftst (\<lambda>s. ((), s\<lparr>bc_log := bc_log s @ [ev]\<rparr>))"

definition ask :: "('w \<Rightarrow> 'r) \<Rightarrow> ('w bctrl, 'r) state" where
  "ask f = liftst (\<lambda>s. (f (bc_world s), s))"

definition cache_update :: "'w backup_api \<Rightarrow> Backup \<Rightarrow> ('w bctrl, bool \<times> goerr option) state" where
  "cache_update api b = liftst (\<lambda>s.
     case StoreRevisionUpdate (ba_objKey api) (\<lambda>x. Inr (bk_meta x)) ''Backup'' (bc_processed s) b of
       (r, store) \<Rightarrow> (r, s\<lparr>bc_processed := store\<rparr>))"

definition cache_clean :: "'w backup_api \<Rightarrow> Backup \<Rightarrow> ('w bctrl, goerr option) state" where
  "cache_clean api b = liftst (\<lambda>s.
     case StoreClean (ba_objKey api) ''Backup'' (bc_processed s) b of
       (r, store) \<Rightarrow> (r, s\<lparr>bc_processed := store\<rparr>))"

section \<open>updaters.go\<close>

definition patchBackup ::
  "'w backup_api \<Rightarrow> Backup \<Rightarrow> Backup \<Rightarrow> ('w bctrl, Backup option \<times> goerr option) state" where
  "patchBackup api oldBackup newBackup = (case ba_mergePatch api oldBackup newBackup of
     Inl err \<Rightarrow> State_Monad.return (None, Some (wrap err ''error creating json merge patch for backup''))
   | Inr patchBytes \<Rightarrow> do {
       (updatedBackup, err) \<leftarrow> call (ba_Patch api (bk_name oldBackup) patchBytes)
          (\<lambda>(_, e). EvPatch oldBackup newBackup (e = None));
       case err of
         Some e \<Rightarrow> State_Monad.return (None, Some (wrap e ''error patching backup''))
       | None \<Rightarrow> do {
           (_, cerr) \<leftarrow> cache_update api updatedBackup;
           State_Monad.return (Some updatedBackup,
             map_option (\<lambda>e. wrap e ''Failed to updated processed backup cache'') cerr) } })"

definition updateBackupStatus ::
  "'w backup_api \<Rightarrow> Backup \<Rightarrow> BackupStatus \<Rightarrow> ('w bctrl, Backup \<times> goerr option) state" where
  "updateBackupStatus api backup status = (case mergeBackupStatus backup status of (clone, dirty) \<Rightarrow>
     if dirty then do {
       (backupClone, err) \<leftarrow> call (ba_UpdateStatus api clone) (\<lambda>(_, e). EvUpdateStatus clone (e = None));
       (_, cerr) \<leftarrow> cache_update api backupClone;
       State_Monad.return (backupClone,
         map_option (\<lambda>e. wrap e ''Failed to updated processed backup cache'') cerr) }
     else State_Monad.return (clone, None))"

definition updateBackupStatusWithEvent ::
  "'w backup_api \<Rightarrow> Backup \<Rightarrow> BackupStatus \<Rightarrow> string \<Rightarrow> string \<Rightarrow>
   ('w bctrl, Backup \<times> goerr option) state" where
  "updateBackupStatusWithEvent api backup status reason message = do {
     (newBackup, err) \<leftarrow> updateBackupStatus api backup status;
     if err \<noteq> None then State_Monad.return (newBackup, err)
     else if meta_resourceVersion (bk_meta newBackup) \<noteq> meta_resourceVersion (bk_meta backup)
     then do { emit (EvRecord reason message); State_Monad.return (newBackup, err) }
     else State_Monad.return (newBackup, err) }"

section \<open>backupvolume.go: annotateBackup\<close>

text \<open>The error of the patch is wrapped and dropped; the caller gets the client's object.\<close>

definition annotateBackup ::
  "'w backup_api \<Rightarrow> string \<Rightarrow> Backup \<Rightarrow> ('w bctrl, Backup \<times> goerr option) state" where
  "annotateBackup api annotation backup =
     (if meta_annotations (bk_meta backup) annotation \<noteq> None then State_Monad.return (backup, None)
      else let backupClone = backup\<lparr>bk_meta := (bk_meta backup)\<lparr>meta_annotations :=
                  (meta_annotations (bk_meta backup))(annotation \<mapsto> ''true'')\<rparr>\<rparr>
      in case ba_mergePatch api backup backupClone of
        Inl err \<Rightarrow> State_Monad.return (backup, Some (wrap err ''error creating json merge patch for backup''))
      | Inr patchBytes \<Rightarrow> do {
          (patched, err) \<leftarrow> call (ba_Patch api (bk_name backup) patchBytes)
             (\<lambda>(_, e). EvPatch backup backupClone (e = None));
          State_Monad.return (patched, None) })"

section \<open>Running the updater\<close>

lemma run_call [simp]: "run_state (call f ev) s = (case f (bc_world s) of (r, w) \<Rightarrow>
     (r, s\<lparr>bc_world := w, bc_log := bc_log s @ [ev r]\<rparr>))"
  by (simp add: call_def)

lemma run_emit [simp]: "run_state (emit ev) s = ((), s\<lparr>bc_log := bc_log s @ [ev]\<rparr>)"
  by (simp add: emit_def)

lemma run_ask [simp]: "run_state (ask f) s = (f (bc_world s), s)"
  by (simp add: ask_def)

text \<open>What one status update appends to the log, whatever the server answers.\<close>

definition update_log :: "Backup \<Rightarrow> BackupStatus \<Rightarrow> bk_event list \<Rightarrow> bool" where
  "update_log b st l \<longleftrightarrow> (if snd (mergeBackupStatus b st)
     then \<exists>ok. l = [EvUpdateStatus (fst (mergeBackupStatus b st)) ok] else l = [])"

lemma run_cache_update:
  "run_state (cache_update api b) s = (r, s') \<Longrightarrow> bc_log s' = bc_log s \<and> bc_world s' = bc_world s"
  by (auto simp: cache_update_def split: prod.splits)

lemma run_updateBackupStatus:
  assumes "run_state (updateBackupStatus api b st) s = ((nb, e), s')"
  shows "\<exists>l. bc_log s' = bc_log s @ l \<and> update_log b st l"
  using assms
  by (auto simp: updateBackupStatus_def update_log_def split: prod.splits if_splits
      dest!: run_cache_update)

lemma run_updateBackupStatusWithEvent:
  assumes "run_state (updateBackupStatusWithEvent api b st rs msg) s = ((nb, e), s')"
  shows "\<exists>l l'. bc_log s' = bc_log s @ l @ l' \<and> update_log b st l \<and>
     (l' = [] \<or> l' = [EvRecord rs msg] \<and> e = None)"
  using assms
  by (auto simp: updateBackupStatusWithEvent_def split: prod.splits if_splits
      dest!: run_updateBackupStatus) (blast | metis append_Nil2)+

end
