(* ===== verification/Collectors.thy ===== *)
theory Collectors
  imports Backup_Updater
begin

text \<open>
  The collectors that stream resource metadata to the metadata service:
  \<^verbatim>\<open>controllers/backup/pod.go\<close>, \<^verbatim>\<open>deployments.go\<close>, \<^verbatim>\<open>resourcecollector.go\<close>,
  \<^verbatim>\<open>rolescollector.go\<close> and \<^verbatim>\<open>backupSend\<close> of \<^verbatim>\<open>backupmetadata.go\<close>.

  \<^verbatim>\<open>scheme.Scheme.ObjectKinds\<close>, \<^verbatim>\<open>json.Marshal\<close>, \<^verbatim>\<open>labels.Set.String\<close>, the
  regular expression compiler and the gRPC stream are parameters of \<open>collect_env\<close>. A collector
  ends well, with the first error, or with a panic: \<^verbatim>\<open>regexp.MustCompile\<close> in
  \<^verbatim>\<open>FindMatchedStrings\<close> and one nil dereference below.
\<close>

record gvk =
  gvk_group :: string
  gvk_version :: string
  gvk_kind :: string

definition zero_gvk :: gvk where
  "zero_gvk = \<lparr>gvk_group = [], gvk_version = [], gvk_kind = []\<rparr>"

record meta_request =
  mr_name :: string
  mr_gvk :: gvk
  mr_data :: string

record 'w collect_env =
  co_kube :: "'w kube"
  co_objectKinds :: "kobj \<Rightarrow> goerr + gvk list"
  co_marshal :: "kobj \<Rightarrow> goerr + string"
  co_compile :: "string \<Rightarrow> (string \<Rightarrow> bool) option"
  co_selector :: "string option \<Rightarrow> string"
  co_Send :: "meta_request \<Rightarrow> 'w \<Rightarrow> goerr option \<times> 'w"

section \<open>Sending one object\<close>

text \<open>\<^verbatim>\<open>addTypeInformationToObject\<close>: the first kind with a name and an external version; none
  gives a zero kind and no error.\<close>

fun first_gvk :: "gvk list \<Rightarrow> gvk" where
  "first_gvk [] = zero_gvk"
| "first_gvk (g # gs) =
     (if gvk_kind g = [] then first_gvk gs
      else if gvk_version g = [] \<or> gvk_version g = ''__internal'' then first_gvk gs
      else g)"

definition addTypeInformationToObject :: "'w collect_env \<Rightarrow> kobj \<Rightarrow> goerr + gvk" where
  "addTypeInformationToObject env obj = (case co_objectKinds env obj of
     Inl err \<Rightarrow> Inl (wrap err ''missing apiVersion or kind and cannot assign it'')
   | Inr gvks \<Rightarrow> Inr (first_gvk gvks))"

definition backupSend :: "'w collect_env \<Rightarrow> kobj \<Rightarrow> string \<Rightarrow> ('w bctrl, sres) state" where
  "backupSend env obj metadataName = (case addTypeInformationToObject env obj of
     Inl err \<Rightarrow> State_Monad.return (Fail err)
   | Inr g \<Rightarrow> (case co_marshal env obj of
       Inl err \<Rightarrow> State_Monad.return (Fail err)
     | Inr resourceData \<Rightarrow> do {
         err \<leftarrow> call (co_Send env \<lparr>mr_name = metadataName, mr_gvk = g, mr_data = resourceData\<rparr>)
                  (\<lambda>e. EvMetaSend obj metadataName (e = None));
         State_Monad.return (of_err err) }))"

section \<open>Reading\<close>

definition reading :: "('w \<Rightarrow> goerr + 'r) \<Rightarrow> ('r \<Rightarrow> ('w bctrl, sres) state) \<Rightarrow> ('w bctrl, sres) state" where
  "reading f k = do { r \<leftarrow> ask f; case r of Inl err \<Rightarrow> State_Monad.return (Fail err) | Inr x \<Rightarrow> k x }"

definition get_meta ::
  "'w collect_env \<Rightarrow> string \<Rightarrow> string \<Rightarrow> string \<Rightarrow> 'w \<Rightarrow> goerr + object_meta" where
  "get_meta env kind ns name w = (case kc_getMeta (co_kube env) kind ns name w of
     (m, None) \<Rightarrow> Inr m | (m, Some err) \<Rightarrow> Inl err)"

definition GetSecret where "GetSecret env ns name = get_meta env Secret_kind ns name"
definition GetConfigMap where "GetConfigMap env ns name = get_meta env Configmap_kind ns name"
definition GetServiceAccount where "GetServiceAccount env ns name = get_meta env ''ServiceAccount'' ns name"
definition GetSC where "GetSC env name = get_meta env SC_kind [] name"

text \<open>\<^verbatim>\<open>GetPVC\<close>: nil for an unbound or deleted claim, an error for a non-CSI volume.\<close>

definition GetPVC :: "'w collect_env \<Rightarrow> pvc \<Rightarrow> 'w \<Rightarrow> goerr + pvc option" where
  "GetPVC env p w =
     (if length (pvc_volumeName p) = 0 \<or> meta_deletionTimestamp (pvc_meta p) \<noteq> None then Inr None
      else (case kc_getPV (co_kube env) (pvc_volumeName p) w of
         Inl err \<Rightarrow> Inl err
       | Inr k8sPV \<Rightarrow> (case CheckBackupSupport (meta_name (pv_meta k8sPV)) (pv_source k8sPV) of
           Some err \<Rightarrow> Inl err | None \<Rightarrow> Inr (Some p))))"

definition GetPVCByName :: "'w collect_env \<Rightarrow> string \<Rightarrow> string \<Rightarrow> 'w \<Rightarrow> goerr + pvc option" where
  "GetPVCByName env ns name w = (case kc_getPVC (co_kube env) ns name w of
     Inl err \<Rightarrow> Inl err | Inr p \<Rightarrow> GetPVC env p w)"

definition ListNamespaces :: "'w collect_env \<Rightarrow> 'w \<Rightarrow> string list \<times> goerr option" where
  "ListNamespaces env w = (case kc_metas (co_kube env) ''Namespace'' [] [] w of
     Inl err \<Rightarrow> ([], Some err) | Inr nss \<Rightarrow> (map meta_name nss, None))"

section \<open>Dependencies of a pod specification\<close>

definition send_meta :: "'w collect_env \<Rightarrow> string \<Rightarrow> ('w \<Rightarrow> goerr + object_meta) \<Rightarrow>
  (object_meta \<Rightarrow> string) \<Rightarrow> ('w bctrl, sres) state" where
  "send_meta env kind get nm = reading get (\<lambda>m. backupSend env (KMeta kind m) (nm m))"

definition send_storage_class :: "'w collect_env \<Rightarrow> string option \<Rightarrow> ('w bctrl, sres) state" where
  "send_storage_class env sc = (case sc of None \<Rightarrow> State_Monad.return Ok
     | Some name \<Rightarrow> if name = [] then State_Monad.return Ok
         else send_meta env SC_kind (GetSC env name) (\<lambda>_. name))"

definition send_config :: "'w collect_env \<Rightarrow> string \<Rightarrow> string option \<Rightarrow> ('w bctrl, sres) state" where
  "send_config env ns r = (case r of None \<Rightarrow> State_Monad.return Ok
     | Some name \<Rightarrow> send_meta env Configmap_kind (GetConfigMap env ns name) (\<lambda>_. name))"

definition send_secret :: "'w collect_env \<Rightarrow> string \<Rightarrow> string option \<Rightarrow> ('w bctrl, sres) state" where
  "send_secret env ns r = (case r of None \<Rightarrow> State_Monad.return Ok
     | Some name \<Rightarrow> send_meta env Secret_kind (GetSecret env ns name) (\<lambda>_. name))"

text \<open>A claim that is not bound skips the rest of the volume, its secret included.\<close>

definition GetVolumesSpec :: "'w collect_env \<Rightarrow> pod_spec \<Rightarrow> string \<Rightarrow> ('w bctrl, sres) state" where
  "GetVolumesSpec env podspec ns = each (\<lambda>v.
     seq (send_config env ns (vol_configMap v))
       (let secret = (case vol_secret v of None \<Rightarrow> State_Monad.return Ok
             | Some name \<Rightarrow> send_meta env Secret_kind (GetSecret env ns name) meta_name) in
        case vol_pvc v of
          None \<Rightarrow> secret
        | Some claim \<Rightarrow> reading (GetPVCByName env ns claim) (\<lambda>p. case p of
            None \<Rightarrow> State_Monad.return Ok
          | Some pvc \<Rightarrow>
              seq (backupSend env (KPVC pvc) claim)
                (seq (send_storage_class env (pvc_storageClassName pvc)) secret))))
     (ps_volumes podspec)"

definition GetServiceAccountSpec :: "'w collect_env \<Rightarrow> pod_spec \<Rightarrow> string \<Rightarrow> ('w bctrl, sres) state" where
  "GetServiceAccountSpec env podspec ns =
     (let saName = ps_serviceAccountName podspec in
      if saName \<noteq> [] then send_meta env ''ServiceAccount'' (GetServiceAccount env ns saName) (\<lambda>_. saName)
      else State_Monad.return Ok)"

definition send_env_source :: "'w collect_env \<Rightarrow> string \<Rightarrow> env_source \<Rightarrow> ('w bctrl, sres) state" where
  "send_env_source env ns src = seq (send_config env ns (es_configMap src)) (send_secret env ns (es_secret src))"

definition getEnvFromForContainers ::
  "'w collect_env \<Rightarrow> container list \<Rightarrow> string \<Rightarrow> ('w bctrl, sres) state" where
  "getEnvFromForContainers env cs ns = each (\<lambda>c. each (send_env_source env ns) (ct_envFrom c)) cs"

definition getEnvFromForEphemeralContainers ::
  "'w collect_env \<Rightarrow> container list \<Rightarrow> string \<Rightarrow> ('w bctrl, sres) state" where
  "getEnvFromForEphemeralContainers env cs ns = each (\<lambda>c. each (send_env_source env ns) (ct_envFrom c)) cs"

definition getEnvValueForContainers ::
  "'w collect_env \<Rightarrow> container list \<Rightarrow> string \<Rightarrow> ('w bctrl, sres) state" where
  "getEnvValueForContainers env cs ns = each (\<lambda>c. each (\<lambda>v. case v of
       None \<Rightarrow> State_Monad.return Ok | Some src \<Rightarrow> send_env_source env ns src) (ct_env c)) cs"

text \<open>The variant for ephemeral containers reads \<^verbatim>\<open>ValueFrom\<close> without checking it for
  nil.\<close>

definition getEnvValueForEphemeralContainers ::
  "'w collect_env \<Rightarrow> container list \<Rightarrow> string \<Rightarrow> ('w bctrl, sres) state" where
  "getEnvValueForEphemeralContainers env cs ns = each (\<lambda>c. each (\<lambda>v. case v of
       None \<Rightarrow> State_Monad.return Crash | Some src \<Rightarrow> send_env_source env ns src) (ct_env c)) cs"

definition getEnvFromsForPodSpec :: "'w collect_env \<Rightarrow> pod_spec \<Rightarrow> string \<Rightarrow> ('w bctrl, sres) state" where
  "getEnvFromsForPodSpec env ps ns =
     seq (getEnvFromForContainers env (ps_containers ps) ns)
     (seq (getEnvFromForContainers env (ps_initContainers ps) ns)
      (getEnvFromForEphemeralContainers env (ps_ephemeralContainers ps) ns))"

definition getEnvValueForPodSpec :: "'w collect_env \<Rightarrow> pod_spec \<Rightarrow> string \<Rightarrow> ('w bctrl, sres) state" where
  "getEnvValueForPodSpec env ps ns =
     seq (getEnvValueForContainers env (ps_containers ps) ns)
     (seq (getEnvValueForContainers env (ps_initContainers ps) ns)
      (getEnvValueForEphemeralContainers env (ps_ephemeralContainers ps) ns))"

section \<open>Roles\<close>

text \<open>The errors of the two gets are overwritten by the result of the send.\<close>

definition GetRoleOrClusterRole ::
  "'w collect_env \<Rightarrow> string \<Rightarrow> string \<Rightarrow> string \<Rightarrow> ('w bctrl, sres) state" where
  "GetRoleOrClusterRole env name kind ns =
     seq (if kind = ''Role'' then do {
            (role, _) \<leftarrow> ask (kc_getMeta (co_kube env) ''Role'' ns name);
            backupSend env (KMeta ''Role'' role) (meta_name role) }
          else State_Monad.return Ok)
         (if kind = ''ClusterRole'' then do {
            (role, _) \<leftarrow> ask (kc_getMeta (co_kube env) ''ClusterRole'' [] name);
            backupSend env (KMeta ''ClusterRole'' role) (meta_name role) }
          else State_Monad.return Ok)"

definition send_binding ::
  "'w collect_env \<Rightarrow> string \<Rightarrow> string \<Rightarrow> binding \<Rightarrow> ('w bctrl, sres) state" where
  "send_binding env kind sa b =
     (if meta_labels (rb_meta b) ''kubernetes.io/bootstrapping'' = Some ''rbac-defaults''
      then State_Monad.return Ok
      else each (\<lambda>sj.
        if sj_kind sj = ''ServiceAccount'' \<and> sj_name sj = sa then
          seq (backupSend env (KBinding kind b) (meta_name (rb_meta b)))
            (let (k, n) = (if rb_roleSize b \<noteq> 0 then (rb_roleKind b, rb_roleName b) else ([], []))
             in GetRoleOrClusterRole env n k (sj_namespace sj))
        else State_Monad.return Ok) (rb_subjects b))"

definition getclusterRoleBindings :: "'w collect_env \<Rightarrow> string \<Rightarrow> ('w bctrl, sres) state" where
  "getclusterRoleBindings env sa =
     reading (kc_bindings (co_kube env) ''ClusterRoleBinding'' []) (\<lambda>bs.
       each (send_binding env ''ClusterRoleBinding'' sa) bs)"

definition getRoleBindings :: "'w collect_env \<Rightarrow> string \<Rightarrow> string \<Rightarrow> ('w bctrl, sres) state" where
  "getRoleBindings env sa ns =
     reading (kc_bindings (co_kube env) ''RoleBinding'' ns) (\<lambda>bs.
       each (send_binding env ''RoleBinding'' sa) bs)"

section \<open>Collectors per kind\<close>

definition matched ::
  "'w collect_env \<Rightarrow> BackupSpec \<Rightarrow> string \<Rightarrow> string list \<Rightarrow> (string list \<Rightarrow> ('w bctrl, sres) state) \<Rightarrow>
   ('w bctrl, sres) state" where
  "matched env spec kind names k =
     (case FindMatchedStrings (co_compile env) kind names (sp_includeResources spec) (sp_excludeResources spec) of
        Panic \<Rightarrow> State_Monad.return Crash | Ret sel \<Rightarrow> k sel)"

text \<open>Loop over the listed lst, acting on those whose name was matched.\<close>

definition each_matched ::
  "'w collect_env \<Rightarrow> BackupSpec \<Rightarrow> string \<Rightarrow> ('a \<Rightarrow> string) \<Rightarrow> ('a \<Rightarrow> ('w bctrl, sres) state) \<Rightarrow>
   'a list \<Rightarrow> ('w bctrl, sres) state" where
  "each_matched env spec kind name act lst =
     matched env spec kind (map name lst) (\<lambda>sel.
       each (\<lambda>x. if Contains sel (name x) then act x else State_Monad.return Ok) lst)"

definition getServices :: "'w collect_env \<Rightarrow> BackupSpec \<Rightarrow> string \<Rightarrow> ('w bctrl, sres) state" where
  "getServices env spec ns =
     reading (kc_services (co_kube env) ns (co_selector env (sp_label spec))) (\<lambda>lst.
       each_matched env spec Service_kind (\<lambda>s. meta_name (svc_meta s))
         (\<lambda>s. backupSend env (KService s) (meta_name (svc_meta s))) lst)"

definition get_metas ::
  "'w collect_env \<Rightarrow> BackupSpec \<Rightarrow> string \<Rightarrow> string \<Rightarrow> ('w bctrl, sres) state" where
  "get_metas env spec kind ns =
     reading (kc_metas (co_kube env) kind ns (co_selector env (sp_label spec))) (\<lambda>lst.
       each_matched env spec kind meta_name (\<lambda>m. backupSend env (KMeta kind m) (meta_name m)) lst)"

definition getConfigMapS where "getConfigMapS env spec ns = get_metas env spec Configmap_kind ns"
definition getSecrets where "getSecrets env spec ns = get_metas env spec Secret_kind ns"
definition getStorageClass where "getStorageClass env spec = get_metas env spec SC_kind []"

text \<open>Endpoints are fetched again, one by one, before they are sent.\<close>

definition getEndpoints :: "'w collect_env \<Rightarrow> BackupSpec \<Rightarrow> string \<Rightarrow> ('w bctrl, sres) state" where
  "getEndpoints env spec ns =
     reading (kc_metas (co_kube env) Endpoint_kind ns (co_selector env (sp_label spec))) (\<lambda>lst.
       each_matched env spec Endpoint_kind meta_name
         (\<lambda>m. send_meta env Endpoint_kind (get_meta env Endpoint_kind ns (meta_name m)) meta_name) lst)"

definition getPersistentVolumeClaims :: "'w collect_env \<Rightarrow> BackupSpec \<Rightarrow> string \<Rightarrow> ('w bctrl, sres) state" where
  "getPersistentVolumeClaims env spec ns =
     reading (kc_pvcs (co_kube env) ns (co_selector env (sp_label spec))) (\<lambda>lst.
       each_matched env spec PVC_kind (\<lambda>p. meta_name (pvc_meta p))
         (\<lambda>p. reading (GetPVC env p) (\<lambda>r. case r of
            None \<Rightarrow> State_Monad.return Ok
          | Some pvcData \<Rightarrow>
              seq (backupSend env (KPVC pvcData) (meta_name (pvc_meta pvcData)))
                (send_storage_class env (pvc_storageClassName p)))) lst)"

text \<open>A service is sent once for every pair of its selector that equals a pair of some label
  map: one common pair is enough.\<close>

definition GetServiceForPod ::
  "'w collect_env \<Rightarrow> string \<Rightarrow> label_pairs list \<Rightarrow> ('w bctrl, sres) state" where
  "GetServiceForPod env ns podLabelList =
     reading (kc_services (co_kube env) ns []) (\<lambda>svcs.
       each (\<lambda>service. each (\<lambda>(skey, svalue). each (\<lambda>lbls. each (\<lambda>(lkey, lvalue).
         if skey = lkey \<and> svalue = lvalue
         then backupSend env (KService service) (meta_name (svc_meta service))
         else State_Monad.return Ok) lbls) podLabelList) (svc_selector service)) svcs)"

definition pod_objects :: "'w collect_env \<Rightarrow> kobj \<Rightarrow> string \<Rightarrow> pod_spec \<Rightarrow> string \<Rightarrow> ('w bctrl, sres) state" where
  "pod_objects env obj name ps ns =
     seq (backupSend env obj name)
     (seq (GetVolumesSpec env ps ns)
     (seq (GetServiceAccountSpec env ps ns)
     (seq (getclusterRoleBindings env (ps_serviceAccountName ps))
     (getRoleBindings env (ps_serviceAccountName ps) ns))))"

definition env_objects :: "'w collect_env \<Rightarrow> pod_spec \<Rightarrow> string \<Rightarrow> ('w bctrl, sres) state" where
  "env_objects env ps ns = seq (getEnvFromsForPodSpec env ps ns) (getEnvValueForPodSpec env ps ns)"

text \<open>Pods with owner references are skipped; services are looked up once, for the labels of the
  pods that were sent.\<close>

definition podBackup :: "'w collect_env \<Rightarrow> BackupSpec \<Rightarrow> string \<Rightarrow> ('w bctrl, sres) state" where
  "podBackup env spec ns =
     reading (kc_pods (co_kube env) ns (co_selector env (sp_label spec))) (\<lambda>lst.
       matched env spec Pod_kind (map (\<lambda>p. meta_name (pod_meta p)) lst) (\<lambda>sel.
         let chosen = filter (\<lambda>p. Contains sel (meta_name (pod_meta p)) \<and>
                                  meta_ownerReferences (pod_meta p) = None) lst
         in seq (each (\<lambda>p.
              seq (pod_objects env (KPod p) (meta_name (pod_meta p)) (pod_podspec p) (meta_namespace (pod_meta p)))
                  (env_objects env (pod_podspec p) (meta_namespace (pod_meta p)))) chosen)
            (GetServiceForPod env ns (map pod_labels chosen))))"

text \<open>Deployments and daemon sets: the object, its dependencies, the services that select its
  pods.\<close>

definition workload_objects :: "'w collect_env \<Rightarrow> string \<Rightarrow> workload \<Rightarrow> ('w bctrl, sres) state" where
  "workload_objects env kind w =
     pod_objects env (KWorkload kind w) (meta_name (wl_meta w)) (wl_template w) (meta_namespace (wl_meta w))"

definition workload_services :: "'w collect_env \<Rightarrow> workload \<Rightarrow> ('w bctrl, sres) state" where
  "workload_services env w = GetServiceForPod env (meta_namespace (wl_meta w)) [wl_matchLabels w]"

definition workload_backup ::
  "'w collect_env \<Rightarrow> BackupSpec \<Rightarrow> string \<Rightarrow> string \<Rightarrow> (workload \<Rightarrow> ('w bctrl, sres) state) \<Rightarrow>
   ('w bctrl, sres) state" where
  "workload_backup env spec kind ns act =
     reading (kc_workloads (co_kube env) kind ns (co_selector env (sp_label spec))) (\<lambda>lst.
       each_matched env spec kind (\<lambda>w. meta_name (wl_meta w)) act lst)"

definition deploymentBackup :: "'w collect_env \<Rightarrow> BackupSpec \<Rightarrow> string \<Rightarrow> ('w bctrl, sres) state" where
  "deploymentBackup env spec ns = workload_backup env spec Deployment_kind ns (\<lambda>d.
     seq (workload_objects env Deployment_kind d)
     (seq (env_objects env (wl_template d) (meta_namespace (wl_meta d)))
      (workload_services env d)))"

definition daemonSetBackup :: "'w collect_env \<Rightarrow> BackupSpec \<Rightarrow> string \<Rightarrow> ('w bctrl, sres) state" where
  "daemonSetBackup env spec ns = workload_backup env spec DaemonSet_kind ns (\<lambda>d.
     seq (workload_objects env DaemonSet_kind d)
     (seq (env_objects env (wl_template d) (meta_namespace (wl_meta d)))
      (workload_services env d)))"

text \<open>Replica sets: owned ones are skipped, and the environment sources are not collected.\<close>

definition replicaSetBackup :: "'w collect_env \<Rightarrow> BackupSpec \<Rightarrow> string \<Rightarrow> ('w bctrl, sres) state" where
  "replicaSetBackup env spec ns = workload_backup env spec Replicaset_kind ns (\<lambda>r.
     if meta_ownerReferences (wl_meta r) \<noteq> None then State_Monad.return Ok
     else seq (workload_objects env Replicaset_kind r) (workload_services env r))"

text \<open>Stateful sets: the claims of the selector come after the volumes, before the account.\<close>

definition getStatefulsets :: "'w collect_env \<Rightarrow> BackupSpec \<Rightarrow> string \<Rightarrow> ('w bctrl, sres) state" where
  "getStatefulsets env spec ns = workload_backup env spec StatefulSet_kind ns (\<lambda>w.
     let ps = wl_template w; wns = meta_namespace (wl_meta w) in
     seq (backupSend env (KWorkload StatefulSet_kind w) (meta_name (wl_meta w)))
     (seq (GetVolumesSpec env ps wns)
     (seq (reading (kc_pvcs (co_kube env) ns (wl_selector w)) (\<lambda>claims.
        each (\<lambda>p. reading (GetPVC env p) (\<lambda>r. case r of
            None \<Rightarrow> State_Monad.return Ok
          | Some pvcData \<Rightarrow>
              seq (backupSend env (KPVC pvcData) (meta_name (pvc_meta p)))
                (send_storage_class env (pvc_storageClassName p)))) claims))
     (seq (GetServiceAccountSpec env ps wns)
     (seq (getclusterRoleBindings env (ps_serviceAccountName ps))
     (seq (getRoleBindings env (ps_serviceAccountName ps) wns)
     (seq (env_objects env ps wns)
      (workload_services env w))))))))"

section \<open>What a collector may send\<close>

text \<open>\<open>appends Q m\<close>: running \<open>m\<close> only appends events that satisfy \<open>Q\<close> to the log.\<close>

definition appends :: "(bk_event \<Rightarrow> bool) \<Rightarrow> ('w bctrl, 'a) state \<Rightarrow> bool" where
  "appends Q m \<longleftrightarrow> (\<forall>s r s'. run_state m s = (r, s') \<longrightarrow>
     (\<exists>l. bc_log s' = bc_log s @ l \<and> (\<forall>e \<in> set l. Q e)))"

named_theorems appends_rules \<open>rules for what a step appends to the log\<close>

lemma appendsD:
  "appends Q m \<Longrightarrow> run_state m s = (r, s') \<Longrightarrow> \<exists>l. bc_log s' = bc_log s @ l \<and> (\<forall>e \<in> set l. Q e)"
  by (auto simp: appends_def)

lemma appends_weaken: "appends Q m \<Longrightarrow> (\<And>e. Q e \<Longrightarrow> R e) \<Longrightarrow> appends R m"
  unfolding appends_def by blast

lemma appends_return [appends_rules]: "appends Q (State_Monad.return x)"
  by (simp add: appends_def)

lemma appends_bind:
  assumes "appends Q m" "\<And>x. appends Q (f x)"
  shows "appends Q (State_Monad.bind m f)"
  unfolding appends_def
proof (intro allI impI)
  fix s r s' assume run: "run_state (State_Monad.bind m f) s = (r, s')"
  obtain a t where m: "run_state m s = (a, t)" by fastforce
  then have f: "run_state (f a) t = (r, s')" using run by simp
  show "\<exists>l. bc_log s' = bc_log s @ l \<and> (\<forall>e \<in> set l. Q e)"
    using appendsD [OF assms(1) m] appendsD [OF assms(2) f] by (metis Un_iff append_assoc set_append)
qed

lemma appends_ask [appends_rules]: "appends Q (ask f)"
  by (simp add: appends_def)

lemma appends_seq [appends_rules]: "appends Q m \<Longrightarrow> appends Q n \<Longrightarrow> appends Q (seq m n)"
  unfolding seq_def by (rule appends_bind) (auto simp: appends_return)

lemma appends_each [appends_rules]: "(\<And>x. x \<in> set xs \<Longrightarrow> appends Q (f x)) \<Longrightarrow> appends Q (each f xs)"
  by (induction xs) (auto intro: appends_rules)

lemma appends_reading [appends_rules]:
  "(\<And>x. appends Q (k x)) \<Longrightarrow> appends Q (reading f k)"
  unfolding reading_def by (rule appends_bind) (auto intro: appends_rules split: sum.splits)

lemma appends_if [appends_rules]:
  "(b \<Longrightarrow> appends Q m) \<Longrightarrow> (\<not> b \<Longrightarrow> appends Q n) \<Longrightarrow> appends Q (if b then m else n)"
  by simp

lemma appends_option [appends_rules]:
  "(x = None \<Longrightarrow> appends Q m) \<Longrightarrow> (\<And>y. x = Some y \<Longrightarrow> appends Q (f y)) \<Longrightarrow>
     appends Q (case x of None \<Rightarrow> m | Some y \<Rightarrow> f y)"
  by (cases x) auto

lemma appends_prod [appends_rules]:
  "(\<And>a b. x = (a, b) \<Longrightarrow> appends Q (f a b)) \<Longrightarrow> appends Q (case x of (a, b) \<Rightarrow> f a b)"
  by (cases x) auto

lemma appends_matched [appends_rules]:
  "(\<And>sel. FindMatchedStrings (co_compile env) kind names (sp_includeResources spec)
        (sp_excludeResources spec) = Ret sel \<Longrightarrow> appends Q (k sel)) \<Longrightarrow>
     appends Q (matched env spec kind names k)"
  unfolding matched_def by (auto intro: appends_rules split: outcome.splits)

lemma appends_backupSend [appends_rules]:
  "(\<And>ok. Q (EvMetaSend obj nm ok)) \<Longrightarrow> appends Q (backupSend env obj nm)"
  by (auto simp: backupSend_def appends_def split: sum.splits prod.splits)

lemma appends_each_matched [appends_rules]:
  "(\<And>x. appends Q (act x)) \<Longrightarrow> appends Q (each_matched env spec kind name act xs)"
  unfolding each_matched_def by (auto intro!: appends_rules)

text \<open>Every dependency a collector sends is of another kind than pods and workloads.\<close>

definition dep_event :: "bk_event \<Rightarrow> bool" where
  "dep_event e \<longleftrightarrow> (\<exists>obj nm ok. e = EvMetaSend obj nm ok \<and>
     (\<forall>p. obj \<noteq> KPod p) \<and> (\<forall>k w. obj \<noteq> KWorkload k w))"

lemma dep_event_simps [simp]:
  "dep_event (EvMetaSend (KMeta k m) nm ok)" "dep_event (EvMetaSend (KService s) nm ok)"
  "dep_event (EvMetaSend (KPVC p) nm ok)" "dep_event (EvMetaSend (KBinding k b) nm ok)"
  by (auto simp: dep_event_def)

lemmas dep_defs = send_meta_def send_storage_class_def send_config_def send_secret_def
  send_env_source_def

lemma appends_send_env [appends_rules]:
  "appends dep_event (send_meta env kind get nm)"
  "appends dep_event (send_storage_class env sc)"
  "appends dep_event (send_config env ns r)"
  "appends dep_event (send_secret env ns r)"
  "appends dep_event (send_env_source env ns src)"
  unfolding dep_defs by (intro appends_rules; simp)+

lemma appends_GetVolumesSpec [appends_rules]: "appends dep_event (GetVolumesSpec env ps ns)"
  unfolding GetVolumesSpec_def Let_def by (intro appends_rules; simp)

lemma appends_account [appends_rules]: "appends dep_event (GetServiceAccountSpec env ps ns)"
  unfolding GetServiceAccountSpec_def Let_def by (intro appends_rules)

lemma appends_env_objects [appends_rules]: "appends dep_event (env_objects env ps ns)"
  unfolding env_objects_def getEnvFromsForPodSpec_def getEnvValueForPodSpec_def
    getEnvFromForContainers_def getEnvFromForEphemeralContainers_def
    getEnvValueForContainers_def getEnvValueForEphemeralContainers_def
  by (intro appends_rules)

lemma appends_role [appends_rules]: "appends dep_event (GetRoleOrClusterRole env n k ns)"
  unfolding GetRoleOrClusterRole_def
  by (intro appends_rules appends_bind; simp)

lemma appends_bindings [appends_rules]:
  "appends dep_event (getclusterRoleBindings env sa)" "appends dep_event (getRoleBindings env sa ns)"
  unfolding getclusterRoleBindings_def getRoleBindings_def send_binding_def Let_def
  by (intro appends_rules; simp)+

lemma appends_services [appends_rules]: "appends dep_event (GetServiceForPod env ns ls)"
  unfolding GetServiceForPod_def by (intro appends_rules; simp)

lemma appends_pod_objects:
  "(\<And>ok. Q (EvMetaSend obj nm ok)) \<Longrightarrow> (\<And>e. dep_event e \<Longrightarrow> Q e) \<Longrightarrow>
     appends Q (pod_objects env obj nm ps ns)"
  unfolding pod_objects_def
  by (intro appends_seq appends_backupSend)
     (auto intro: appends_weaken [OF appends_GetVolumesSpec] appends_weaken [OF appends_account]
       appends_weaken [OF appends_bindings(1)] appends_weaken [OF appends_bindings(2)])

text \<open>A pod event of the pod collector: a standalone, selected pod.\<close>

definition pod_event_ok :: "'w collect_env \<Rightarrow> BackupSpec \<Rightarrow> bk_event \<Rightarrow> bool" where
  "pod_event_ok env spec e = (case e of
     EvMetaSend (KPod p) nm ok \<Rightarrow> meta_ownerReferences (pod_meta p) = None \<and> nm = meta_name (pod_meta p) \<and>
       (\<exists>names sel. FindMatchedStrings (co_compile env) Pod_kind names (sp_includeResources spec)
          (sp_excludeResources spec) = Ret sel \<and> nm \<in> set sel)
   | _ \<Rightarrow> True)"

lemma dep_event_pod_ok: "dep_event e \<Longrightarrow> pod_event_ok env spec e"
  by (auto simp: dep_event_def pod_event_ok_def split: kobj.splits)

lemma appends_podBackup: "appends (pod_event_ok env spec) (podBackup env spec ns)"
  unfolding podBackup_def Let_def
  by (intro appends_rules appends_pod_objects appends_weaken [OF appends_env_objects dep_event_pod_ok]
        appends_weaken [OF appends_services dep_event_pod_ok])
     (erule dep_event_pod_ok | force simp: pod_event_ok_def)+

section \<open>What a collector has sent when it ends well\<close>

lemma seq_Ok:
  "run_state (seq m n) s = (Ok, s') \<Longrightarrow> \<exists>t. run_state m s = (Ok, t) \<and> run_state n t = (Ok, s')"
  by (auto simp: seq_def split: prod.splits if_splits)

lemma appends_mono: "appends Q m \<Longrightarrow> run_state m s = (r, s') \<Longrightarrow> set (bc_log s) \<subseteq> set (bc_log s')"
  using appendsD by fastforce

lemma each_Ok:
  assumes "run_state (each f xs) s = (Ok, s')" "x \<in> set xs" "\<And>y. appends Q (f y)"
  shows "\<exists>t t'. run_state (f x) t = (Ok, t') \<and> set (bc_log t') \<subseteq> set (bc_log s')"
  using assms(1,2)
proof (induction xs arbitrary: s)
  case Nil
  then show ?case by simp
next
  case (Cons y ys)
  obtain t where t: "run_state (f y) s = (Ok, t)" "run_state (each f ys) t = (Ok, s')"
    using seq_Ok [of "f y" "each f ys"] Cons.prems(1) by auto
  have mono: "set (bc_log t) \<subseteq> set (bc_log s')"
    by (rule appends_mono [OF appends_each [of ys Q f] t(2)]) (rule assms(3))
  show ?case
  proof (cases "x = y")
    case True
    then show ?thesis using t mono by blast
  next
    case False
    then show ?thesis using Cons.IH [OF t(2)] Cons.prems(2) by auto
  qed
qed

lemma backupSend_Ok:
  "run_state (backupSend env obj nm) s = (Ok, s') \<Longrightarrow> EvMetaSend obj nm True \<in> set (bc_log s')"
  by (auto simp: backupSend_def split: sum.splits prod.splits)

lemma reading_Ok:
  "run_state (reading f k) s = (Ok, s') \<Longrightarrow> \<exists>x. f (bc_world s) = Inr x \<and> run_state (k x) s = (Ok, s')"
  by (auto simp: reading_def split: sum.splits)

lemma send_config_Ok:
  assumes "run_state (send_config env ns (Some n)) s = (Ok, s')"
  shows "\<exists>m. EvMetaSend (KMeta Configmap_kind m) n True \<in> set (bc_log s')"
  using assms unfolding send_config_def send_meta_def
  by (auto dest!: reading_Ok backupSend_Ok)

lemma GetVolumesSpec_configs:
  assumes "run_state (GetVolumesSpec env ps ns) s = (Ok, s')" "v \<in> set (ps_volumes ps)"
    "vol_configMap v = Some n"
  shows "\<exists>m. EvMetaSend (KMeta Configmap_kind m) n True \<in> set (bc_log s')"
proof -
  let ?rest = "\<lambda>v. (let secret = (case vol_secret v of None \<Rightarrow> State_Monad.return Ok
             | Some name \<Rightarrow> send_meta env Secret_kind (GetSecret env ns name) meta_name) in
        case vol_pvc v of
          None \<Rightarrow> secret
        | Some claim \<Rightarrow> reading (GetPVCByName env ns claim) (\<lambda>p. case p of
            None \<Rightarrow> State_Monad.return Ok
          | Some pvc \<Rightarrow>
              seq (backupSend env (KPVC pvc) claim)
                (seq (send_storage_class env (pvc_storageClassName pvc)) secret)))"
  have rest: "appends dep_event (?rest v)" for v
    unfolding Let_def by (intro appends_rules; simp)
  have step: "appends dep_event (seq (send_config env ns (vol_configMap v)) (?rest v))" for v
    by (intro appends_rules rest)
  obtain t t' where t: "run_state (seq (send_config env ns (vol_configMap v)) (?rest v)) t = (Ok, t')"
      and sub: "set (bc_log t') \<subseteq> set (bc_log s')"
    using each_Ok [OF assms(1)[unfolded GetVolumesSpec_def] assms(2) step] by blast
  obtain u where u: "run_state (send_config env ns (Some n)) t = (Ok, u)" "run_state (?rest v) u = (Ok, t')"
    using seq_Ok [OF t] assms(3) by auto
  show ?thesis using send_config_Ok [OF u(1)] appends_mono [OF rest u(2)] sub by blast
qed

lemma pod_objects_Ok:
  assumes "run_state (pod_objects env obj nm ps ns) s = (Ok, s')"
  shows "EvMetaSend obj nm True \<in> set (bc_log s') \<and>
    (\<forall>v \<in> set (ps_volumes ps). \<forall>n. vol_configMap v = Some n \<longrightarrow>
      (\<exists>m. EvMetaSend (KMeta Configmap_kind m) n True \<in> set (bc_log s')))"
proof -
  obtain t where t: "run_state (backupSend env obj nm) s = (Ok, t)"
      and t': "run_state (seq (GetVolumesSpec env ps ns) (seq (GetServiceAccountSpec env ps ns)
         (seq (getclusterRoleBindings env (ps_serviceAccountName ps))
           (getRoleBindings env (ps_serviceAccountName ps) ns)))) t = (Ok, s')"
    using seq_Ok [OF assms [unfolded pod_objects_def]] by blast
  obtain u where u: "run_state (GetVolumesSpec env ps ns) t = (Ok, u)"
      and r: "run_state (seq (GetServiceAccountSpec env ps ns)
         (seq (getclusterRoleBindings env (ps_serviceAccountName ps))
           (getRoleBindings env (ps_serviceAccountName ps) ns))) u = (Ok, s')"
    using seq_Ok [OF t'] by blast
  have m1: "set (bc_log t) \<subseteq> set (bc_log u)" by (rule appends_mono [OF appends_GetVolumesSpec u])
  have m2: "set (bc_log u) \<subseteq> set (bc_log s')"
    by (rule appends_mono [OF _ r, of dep_event]) (intro appends_rules)
  show ?thesis
    using backupSend_Ok [OF t] GetVolumesSpec_configs [OF u] m1 m2 by blast
qed

text \<open>The pod collector sends only standalone pods that the specification selects: a pod
  with owner references is never sent, nor one whose name was not matched.\<close>

theorem podBackup_sends_standalone:
  assumes "run_state (podBackup env spec ns) s = (r, s')"
    and "EvMetaSend (KPod p) nm ok \<in> set (drop (length (bc_log s)) (bc_log s'))"
  shows "meta_ownerReferences (pod_meta p) = None \<and> nm = meta_name (pod_meta p) \<and>
     (\<exists>names sel. FindMatchedStrings (co_compile env) Pod_kind names (sp_includeResources spec)
        (sp_excludeResources spec) = Ret sel \<and> nm \<in> set sel)"
proof -
  obtain l where "bc_log s' = bc_log s @ l" "\<forall>e \<in> set l. pod_event_ok env spec e"
    using appendsD [OF appends_podBackup assms(1)] by blast
  then have "pod_event_ok env spec (EvMetaSend (KPod p) nm ok)" using assms(2) by auto
  then show ?thesis by (auto simp: pod_event_ok_def)
qed

text \<open>When the deployment collector ends without an error, every deployment of the
  namespace that the specification selects has been sent, and with it the config map of every
  volume of its pod template.\<close>

theorem deploymentBackup_complete:
  assumes run: "run_state (deploymentBackup env spec ns) s = (Ok, s')"
    and ds: "kc_workloads (co_kube env) Deployment_kind ns (co_selector env (sp_label spec)) (bc_world s) = Inr ds"
    and sel: "FindMatchedStrings (co_compile env) Deployment_kind (map (\<lambda>d. meta_name (wl_meta d)) ds)
        (sp_includeResources spec) (sp_excludeResources spec) = Ret sel"
    and d: "d \<in> set ds" "meta_name (wl_meta d) \<in> set sel"
  shows "EvMetaSend (KWorkload Deployment_kind d) (meta_name (wl_meta d)) True \<in> set (bc_log s') \<and>
    (\<forall>v \<in> set (ps_volumes (wl_template d)). \<forall>n. vol_configMap v = Some n \<longrightarrow>
      (\<exists>m. EvMetaSend (KMeta Configmap_kind m) n True \<in> set (bc_log s')))"
proof -
  let ?act = "\<lambda>d. seq (workload_objects env Deployment_kind d)
     (seq (env_objects env (wl_template d) (meta_namespace (wl_meta d))) (workload_services env d))"
  let ?step = "\<lambda>x. if Contains sel (meta_name (wl_meta x)) then ?act x else State_Monad.return Ok"
  have tail: "appends dep_event (seq (env_objects env (wl_template d) (meta_namespace (wl_meta d)))
      (workload_services env d))" for d
    unfolding workload_services_def by (intro appends_rules)
  have app: "appends (\<lambda>_. True) (?step x)" for x
    unfolding workload_objects_def
    by (intro appends_rules appends_pod_objects appends_weaken [OF tail TrueI] TrueI)
  have each: "run_state (each ?step ds) s = (Ok, s')"
    using reading_Ok [OF run [unfolded deploymentBackup_def workload_backup_def]] ds sel
    by (auto simp: each_matched_def matched_def)
  obtain t t' where st: "run_state (?step d) t = (Ok, t')" and sub: "set (bc_log t') \<subseteq> set (bc_log s')"
    using each_Ok [OF each d(1) app] by (elim exE conjE)
  have act: "run_state (?act d) t = (Ok, t')" using st d(2) by (simp only: Contains_set if_True)
  obtain u where u: "run_state (workload_objects env Deployment_kind d) t = (Ok, u)"
      "run_state (seq (env_objects env (wl_template d) (meta_namespace (wl_meta d)))
      (workload_services env d)) u = (Ok, t')"
    using seq_Ok [OF act] by (elim exE conjE)
  show ?thesis
    using pod_objects_Ok [OF u(1) [unfolded workload_objects_def]] appends_mono [OF tail u(2)] sub
    by blast
qed

section \<open>A small cluster\<close>

definition demo_ps :: pod_spec where
  "demo_ps = \<lparr>ps_volumes = [\<lparr>vol_configMap = Some ''cfg'', vol_pvc = None, vol_secret = None\<rparr>],
     ps_serviceAccountName = [], ps_containers = [], ps_initContainers = [],
     ps_ephemeralContainers = []\<rparr>"

definition demo_pod :: pod where
  "demo_pod = \<lparr>pod_meta = zero_meta\<lparr>meta_name := ''p1''\<rparr>, pod_podspec = demo_ps, pod_labels = []\<rparr>"

definition demo_deploy :: workload where
  "demo_deploy = \<lparr>wl_meta = zero_meta\<lparr>meta_name := ''web''\<rparr>, wl_template = demo_ps,
     wl_matchLabels = [], wl_selector = [], wl_claimTemplates = 0\<rparr>"

definition demo_kube :: "nat kube" where
  "demo_kube = \<lparr>kc_services = (\<lambda>_ _ _. Inr []), kc_metas = (\<lambda>_ _ _ _. Inr []),
     kc_pods = (\<lambda>_ _ _. Inr [demo_pod]), kc_workloads = (\<lambda>_ _ _ _. Inr [demo_deploy]),
     kc_pvcs = (\<lambda>_ _ _. Inr []), kc_bindings = (\<lambda>_ _ _. Inr []),
     kc_getMeta = (\<lambda>_ _ n _. (zero_meta\<lparr>meta_name := n\<rparr>, None)),
     kc_getPVC = (\<lambda>_ _ _. Inl (errorf ''none'')), kc_getPV = (\<lambda>_ _. Inl (errorf ''none''))\<rparr>"

definition demo_collect :: "nat collect_env" where
  "demo_collect = \<lparr>co_kube = demo_kube,
     co_objectKinds = (\<lambda>_. Inr [\<lparr>gvk_group = [], gvk_version = ''v1'', gvk_kind = ''X''\<rparr>]),
     co_marshal = (\<lambda>_. Inr ''data''), co_compile = (\<lambda>_. None), co_selector = (\<lambda>_. []),
     co_Send = (\<lambda>_ n. (None, n + 1))\<rparr>"

definition demo_bctrl :: "nat bctrl" where
  "demo_bctrl = \<lparr>bc_processed = NewStore (\<lambda>b. Inr (bk_name b)), bc_world = 0, bc_log = [],
     bc_supported = SupportedResourceList\<rparr>"

lemmas demo_collect_defs = demo_ps_def demo_pod_def demo_deploy_def demo_kube_def demo_collect_def
  demo_bctrl_def zero_BackupSpec_def

lemmas collect_defs = reading_def seq_def matched_def each_matched_def Let_def
  pod_objects_def env_objects_def workload_objects_def workload_services_def workload_backup_def
  GetVolumesSpec_def send_config_def send_meta_def GetServiceAccountSpec_def getclusterRoleBindings_def
  getRoleBindings_def GetConfigMap_def get_meta_def getEnvFromsForPodSpec_def getEnvValueForPodSpec_def
  getEnvFromForContainers_def getEnvFromForEphemeralContainers_def getEnvValueForContainers_def
  getEnvValueForEphemeralContainers_def GetServiceForPod_def backupSend_def
  addTypeInformationToObject_def

lemma demo_find [simp]: "FindMatchedStrings c k xs [] [] = Ret xs"
  by (simp add: FindMatchedStrings_def GetResultantItems_eq filter_id_conv)

definition demo_deploy_end :: "nat bctrl" where
  "demo_deploy_end = demo_bctrl\<lparr>bc_world := 2, bc_log := [
     EvMetaSend (KWorkload Deployment_kind demo_deploy) ''web'' True,
     EvMetaSend (KMeta Configmap_kind (zero_meta\<lparr>meta_name := ''cfg''\<rparr>)) ''cfg'' True]\<rparr>"

lemma demo_deploy_run:
  "run_state (deploymentBackup demo_collect zero_BackupSpec ''ns'') demo_bctrl = (Ok, demo_deploy_end)"
  by (simp add: deploymentBackup_def demo_deploy_end_def collect_defs demo_collect_defs)

definition demo_pod_end :: "nat bctrl" where
  "demo_pod_end = demo_bctrl\<lparr>bc_world := 2, bc_log := [EvMetaSend (KPod demo_pod) ''p1'' True,
     EvMetaSend (KMeta Configmap_kind (zero_meta\<lparr>meta_name := ''cfg''\<rparr>)) ''cfg'' True]\<rparr>"

lemma demo_pod_run:
  "run_state (podBackup demo_collect zero_BackupSpec ''ns'') demo_bctrl = (Ok, demo_pod_end)"
  by (simp add: podBackup_def demo_pod_end_def collect_defs demo_collect_defs zero_meta_def)

theorem podBackup_sends_standalone_witness:
  "EvMetaSend (KPod demo_pod) ''p1'' True \<in> set (bc_log demo_pod_end) \<and>
     meta_ownerReferences (pod_meta demo_pod) = None"
  using podBackup_sends_standalone [OF demo_pod_run, of demo_pod "''p1''" True]
  by (simp add: demo_pod_end_def demo_bctrl_def)

theorem deploymentBackup_complete_witness:
  "EvMetaSend (KWorkload Deployment_kind demo_deploy) ''web'' True \<in> set (bc_log demo_deploy_end) \<and>
     (\<exists>m. EvMetaSend (KMeta Configmap_kind m) ''cfg'' True \<in> set (bc_log demo_deploy_end))"
  using deploymentBackup_complete [OF demo_deploy_run, of "[demo_deploy]" "[''web'']" demo_deploy]
  by (simp add: demo_collect_defs)

text \<open>
  An ephemeral container with a plain environment variable stops the whole controller: its
  \<^verbatim>\<open>ValueFrom\<close> is nil.
\<close>

lemma ephemeral_env_crashes:
  "fst (run_state (getEnvValueForPodSpec demo_collect (demo_ps\<lparr>ps_ephemeralContainers :=
     [\<lparr>ct_name = ''dbg'', ct_env = [None], ct_envFrom = []\<rparr>]\<rparr>) ''ns'') demo_bctrl) = Crash"
  by (simp add: collect_defs demo_ps_def)

text \<open>
  A service that selects on two labels is sent for a workload that carries only one of them.
\<close>

lemma partial_selector_sent:
  "EvMetaSend (KService \<lparr>svc_meta = zero_meta, svc_selector = [(''app'', ''web''), (''tier'', ''db'')]\<rparr>) [] True
     \<in> set (bc_log (snd (run_state (GetServiceForPod
        (demo_collect\<lparr>co_kube := demo_kube\<lparr>kc_services := \<lambda>_ _ _. Inr
            [\<lparr>svc_meta = zero_meta, svc_selector = [(''app'', ''web''), (''tier'', ''db'')]\<rparr>]\<rparr>\<rparr>)
        ''ns'' [[(''app'', ''web'')]]) demo_bctrl)))"
  by (simp add: collect_defs demo_collect_defs zero_meta_def)

end
