(* ===== verification/Paths.thy ===== *)
theory Paths
  imports ObjectMeta
begin

text \<open>
  File names of backed up resources and driver parameters: \<^verbatim>\<open>utils/parser.go\<close> and
  \<^verbatim>\<open>utils/backupconfig.go\<close>, with the parts of \<^verbatim>\<open>path/filepath\<close> they use
  (\<^verbatim>\<open>Join\<close>, \<^verbatim>\<open>Clean\<close>, \<^verbatim>\<open>Split\<close> on a slash-separated system).
\<close>

section \<open>path/filepath\<close>

fun clean_comps :: "bool \<Rightarrow> string list \<Rightarrow> string list \<Rightarrow> string list" where
  "clean_comps rooted out [] = rev out"
| "clean_comps rooted out (c # cs) =
     (if c = [] \<or> c = ''.'' then clean_comps rooted out cs
      else if c = ''..'' then
        (case out of
           [] \<Rightarrow> clean_comps rooted (if rooted then [] else [''..'']) cs
         | p # out' \<Rightarrow> if p = ''..'' then clean_comps rooted (''..'' # out) cs
                      else clean_comps rooted out' cs)
      else clean_comps rooted (c # out) cs)"

definition filepath_Clean :: "string \<Rightarrow> string" where
  "filepath_Clean path = (if path = [] then ''.'' else
     let rooted = (hd path = CHR ''/'');
         body = strings_Join ''/'' (clean_comps rooted [] (strings_Split (CHR ''/'') path))
     in if rooted then CHR ''/'' # body else if body = [] then ''.'' else body)"

definition filepath_Join :: "string list \<Rightarrow> string" where
  "filepath_Join elems = (case dropWhile (\<lambda>e. e = []) elems of [] \<Rightarrow> []
     | es \<Rightarrow> filepath_Clean (strings_Join ''/'' es))"

definition filepath_Split :: "string \<Rightarrow> string \<times> string" where
  "filepath_Split path =
     (let file = rev (takeWhile (\<lambda>c. c \<noteq> CHR ''/'') (rev path))
      in (take (length path - length file) path, file))"

section \<open>utils/parser.go\<close>

record pb_resource =
  pb_name :: string
  pb_group :: string
  pb_version :: string
  pb_kind :: string

definition ResourceToFile :: "string \<Rightarrow> pb_resource \<Rightarrow> string" where
  "ResourceToFile backupHandle r =
     (if pb_group r = [] then filepath_Join [backupHandle, pb_kind r, pb_version r, pb_name r]
      else filepath_Join [backupHandle, pb_kind r, pb_group r @ ''.'' @ pb_version r, pb_name r])"

definition FileToResource :: "string \<Rightarrow> pb_resource" where
  "FileToResource filePath =
     (let (dir1, file1) = filepath_Split filePath;
          (dir2, file2) = filepath_Split dir1;
          (dir3, file3) = filepath_Split dir2;
          (dir4, file4) = filepath_Split dir3
      in \<lparr>pb_name = file1, pb_group = file3, pb_version = file4, pb_kind = file2\<rparr>)"

record backup_location =
  bl_name :: string
  bl_provider :: string
  bl_config :: "string \<rightharpoonup> string"

record provider =
  pr_name :: string
  pr_manifest :: "string \<rightharpoonup> string"
  pr_type :: string
  pr_annotations :: "string \<rightharpoonup> string"

record backup_identifier =
  bi_handle :: string
  bi_parameters :: "string \<rightharpoonup> string"

text \<open>Two loops, the provider's manifest first: the location's configuration overrides it.\<close>

definition GetBackupIdentifier ::
  "object_meta option \<Rightarrow> backup_location option \<Rightarrow> provider option \<Rightarrow> goerr + backup_identifier" where
  "GetBackupIdentifier backup backupLocation backupProvider =
     (case (backup, backupLocation, backupProvider) of
        (Some b, Some l, Some p) \<Rightarrow>
          Inr \<lparr>bi_handle = meta_name b, bi_parameters = pr_manifest p ++ bl_config l\<rparr>
      | _ \<Rightarrow> Inl (errorf ''empty backup information for backup identifier''))"

section \<open>utils/backupconfig.go\<close>

definition fetchBackupLocation ::
  "(string \<Rightarrow> goerr + backup_location) \<Rightarrow> string \<Rightarrow> goerr + backup_location" where
  "fetchBackupLocation lister locationName = (case lister locationName of
     Inl err \<Rightarrow> Inl err | Inr l \<Rightarrow> Inr l)"

definition fetchProvider :: "(string \<Rightarrow> goerr + provider) \<Rightarrow> string \<Rightarrow> goerr + provider" where
  "fetchProvider lister providerName = (case lister providerName of
     Inl err \<Rightarrow> Inl err | Inr p \<Rightarrow> Inr p)"

definition GetBackupParameters ::
  "(string \<Rightarrow> goerr + backup_location) \<Rightarrow> (string \<Rightarrow> goerr + provider) \<Rightarrow> string \<Rightarrow> string \<Rightarrow>
   (string \<rightharpoonup> string) \<times> goerr option" where
  "GetBackupParameters locations providers backupName backupLocationName =
     (case fetchBackupLocation locations backupLocationName of
        Inl err \<Rightarrow> (Map.empty, Some (wrap err (''unable to get backup location for '' @ backupName)))
      | Inr l \<Rightarrow>
        (case fetchProvider providers (bl_provider l) of
           Inl err \<Rightarrow> (Map.empty, Some (wrap err (''unable to get backup location for '' @ backupName)))
         | Inr p \<Rightarrow> (pr_manifest p ++ bl_config l, None)))"

section \<open>Splitting and joining\<close>

definition plain :: "string \<Rightarrow> bool" where
  "plain c \<longleftrightarrow> c \<noteq> [] \<and> c \<noteq> ''.'' \<and> c \<noteq> ''..'' \<and> CHR ''/'' \<notin> set c"

lemma split_acc_append:
  "sep \<notin> set x \<Longrightarrow> split_acc sep acc (x @ sep # y) = (rev acc @ x) # split_acc sep [] y"
  by (induction x arbitrary: acc) auto

lemma split_acc_none: "sep \<notin> set x \<Longrightarrow> split_acc sep acc x = [rev acc @ x]"
  by (induction x arbitrary: acc) auto

lemma Split_Join:
  assumes "xs \<noteq> []" "\<And>x. x \<in> set xs \<Longrightarrow> sep \<notin> set x"
  shows "strings_Split sep (strings_Join [sep] xs) = xs"
  using assms
  by (induction "[sep]" xs rule: strings_Join.induct)
     (auto simp: strings_Split_def split_acc_append split_acc_none)

lemma clean_comps_plain: "\<forall>c \<in> set cs. plain c \<Longrightarrow> clean_comps r out cs = rev out @ cs"
  by (induction cs arbitrary: out) (auto simp: plain_def)

lemma hd_Join: "x \<noteq> [] \<Longrightarrow> hd (strings_Join sep (x # xs)) = hd x"
  by (cases xs) auto

lemma Join_Nil_iff: "x \<noteq> [] \<Longrightarrow> strings_Join sep (x # xs) \<noteq> []"
  by (cases xs) auto

lemma filepath_Join_plain:
  assumes "\<forall>c \<in> set (x # xs). plain c"
  shows "filepath_Join (x # xs) = strings_Join ''/'' (x # xs)"
proof -
  have px: "x \<noteq> []" "hd x \<noteq> CHR ''/''"
    using assms hd_in_set [of x] unfolding plain_def by (simp, metis list.set_intros(1))
  have "strings_Split (CHR ''/'') (strings_Join ''/'' (x # xs)) = x # xs"
    using assms by (intro Split_Join) (auto simp: plain_def)
  then show ?thesis
    using px clean_comps_plain [OF assms]
    by (simp add: filepath_Join_def filepath_Clean_def Let_def hd_Join Join_Nil_iff
        del: clean_comps.simps)
qed

lemma Join_inj:
  assumes "strings_Join ''/'' xs = strings_Join ''/'' ys" "xs \<noteq> []" "ys \<noteq> []"
    and "\<forall>c \<in> set xs \<union> set ys. plain c"
  shows "xs = ys"
proof -
  have "strings_Split (CHR ''/'') (strings_Join ''/'' zs) = zs" if "zs \<in> {xs, ys}" for zs
    using that assms by (intro Split_Join) (auto simp: plain_def)
  then show ?thesis using assms(1) by (metis insertCI)
qed

definition wf_resource :: "pb_resource \<Rightarrow> bool" where
  "wf_resource r \<longleftrightarrow> plain (pb_name r) \<and> plain (pb_kind r) \<and> plain (pb_version r) \<and>
     CHR ''.'' \<notin> set (pb_version r) \<and> (pb_group r = [] \<or> plain (pb_group r))"

lemma suffix_inj:
  "a @ c # b = a' @ c # b' \<Longrightarrow> c \<notin> set b \<Longrightarrow> c \<notin> set b' \<Longrightarrow> a = a' \<and> b = b'"
  using append_sep_inj [of "rev b" c "rev a" "rev b'" "rev a'"]
  by (metis rev.simps(2) rev_append rev_is_rev_conv append_assoc append_Cons append_Nil set_rev)

lemma plain_gv: "wf_resource r \<Longrightarrow> pb_group r \<noteq> [] \<Longrightarrow> plain (pb_group r @ ''.'' @ pb_version r)"
  by (cases "pb_group r"; cases "pb_version r") (auto simp: wf_resource_def plain_def)

definition gv_dir :: "pb_resource \<Rightarrow> string" where
  "gv_dir r = (if pb_group r = [] then pb_version r else pb_group r @ ''.'' @ pb_version r)"

lemma ResourceToFile_Join:
  "plain h \<Longrightarrow> wf_resource r \<Longrightarrow>
     ResourceToFile h r = strings_Join ''/'' [h, pb_kind r, gv_dir r, pb_name r] \<and>
     (\<forall>c \<in> set [h, pb_kind r, gv_dir r, pb_name r]. plain c)"
  using plain_gv [of r] filepath_Join_plain [of h "[pb_kind r, gv_dir r, pb_name r]"]
  by (auto simp: ResourceToFile_def gv_dir_def wf_resource_def)

lemma gv_dir_inj:
  "wf_resource r \<Longrightarrow> wf_resource r' \<Longrightarrow> gv_dir r = gv_dir r' \<Longrightarrow>
     pb_group r = pb_group r' \<and> pb_version r = pb_version r'"
  using suffix_inj [of "pb_group r" "CHR ''.''" "pb_version r" "pb_group r'" "pb_version r'"]
  by (auto simp: gv_dir_def wf_resource_def split: if_splits)
     (metis in_set_conv_decomp)+

text \<open>Within a backup, different resources are written to different files: the file name
  determines backup, kind, group, version and name, for names in the API server's syntax (no
  slash, no version with a dot).\<close>

theorem ResourceToFile_inj:
  assumes "plain h" "plain h'" "wf_resource r" "wf_resource r'"
    and "ResourceToFile h r = ResourceToFile h' r'"
  shows "h = h' \<and> r = r'"
proof -
  have "[h, pb_kind r, gv_dir r, pb_name r] = [h', pb_kind r', gv_dir r', pb_name r']"
    using ResourceToFile_Join [OF assms(1,3)] ResourceToFile_Join [OF assms(2,4)] assms(5)
    by (intro Join_inj) auto
  then show ?thesis using gv_dir_inj [OF assms(3,4)] by (cases r; cases r') auto
qed

theorem ResourceToFile_inj_witness:
  "ResourceToFile ''b1'' \<lparr>pb_name = ''web'', pb_group = ''apps'', pb_version = ''v1'', pb_kind = ''Deployment''\<rparr>
   \<noteq> ResourceToFile ''b1'' \<lparr>pb_name = ''web'', pb_group = '''', pb_version = ''v1'', pb_kind = ''Deployment''\<rparr>"
  using ResourceToFile_inj [of "''b1''" "''b1''"
      "\<lparr>pb_name = ''web'', pb_group = ''apps'', pb_version = ''v1'', pb_kind = ''Deployment''\<rparr>"
      "\<lparr>pb_name = ''web'', pb_group = '''', pb_version = ''v1'', pb_kind = ''Deployment''\<rparr>"]
  by (simp add: plain_def wf_resource_def) blast

text \<open>
  \<^verbatim>\<open>FileToResource\<close> does not invert it: after the first split the directory ends in the
  separator, so splitting it again returns an empty file name, and kind, group and version are
  always empty.
\<close>

lemma filepath_Split_dir:
  "filepath_Split path = (dir, file) \<Longrightarrow> dir = [] \<or> last dir = CHR ''/''"
proof -
  assume sp: "filepath_Split path = (dir, file)"
  let ?d = "dropWhile (\<lambda>c. c \<noteq> CHR ''/'') (rev path)"
  have "rev path = rev file @ ?d"
    using sp by (simp add: filepath_Split_def Let_def) (metis rev_rev_ident takeWhile_dropWhile_id)
  then have p: "path = rev ?d @ file" by (metis rev_append rev_rev_ident)
  have "dir = take (length path - length file) path" using sp by (auto simp: filepath_Split_def Let_def)
  then have "dir = rev ?d" using p by (metis add_diff_cancel_right' append_eq_conv_conj length_append)
  moreover have "?d \<noteq> [] \<Longrightarrow> hd ?d = CHR ''/''" using hd_dropWhile by blast
  ultimately show ?thesis by (metis last_rev rev_is_Nil_conv)
qed

lemma filepath_Split_again: "dir = [] \<or> last dir = CHR ''/'' \<Longrightarrow> filepath_Split dir = (dir, [])"
  by (cases dir rule: rev_cases) (auto simp: filepath_Split_def Let_def)

lemma FileToResource_only_name:
  "pb_kind (FileToResource p) = [] \<and> pb_group (FileToResource p) = [] \<and>
   pb_version (FileToResource p) = []"
proof -
  obtain d f where s: "filepath_Split p = (d, f)" by fastforce
  have "filepath_Split d = (d, [])" using filepath_Split_again [OF filepath_Split_dir [OF s]] .
  then show ?thesis by (simp add: FileToResource_def s)
qed

text \<open>The parameters a volume driver gets and those the metadata service gets agree: both
  are the provider's manifest overridden by the backup location's configuration.\<close>

theorem backup_parameters_agree:
  assumes "locations ln = Inr l" "providers (bl_provider l) = Inr p"
  shows "\<exists>bid. GetBackupIdentifier (Some b) (Some l) (Some p) = Inr bid \<and>
     bi_handle bid = meta_name b \<and>
     GetBackupParameters locations providers bn ln = (bi_parameters bid, None) \<and>
     (\<forall>k. bi_parameters bid k = (case bl_config l k of Some v \<Rightarrow> Some v | None \<Rightarrow> pr_manifest p k))"
  using assms
  by (auto simp: GetBackupIdentifier_def GetBackupParameters_def fetchBackupLocation_def
      fetchProvider_def map_add_def split: option.splits)

theorem backup_parameters_agree_witness:
  "\<exists>bid. GetBackupIdentifier (Some zero_meta)
      (Some \<lparr>bl_name = ''l'', bl_provider = ''nfs'', bl_config = [''dir'' \<mapsto> ''/x'']\<rparr>)
      (Some \<lparr>pr_name = ''nfs'', pr_manifest = [''dir'' \<mapsto> ''/y''],
          pr_type = ''MetadataProvider'', pr_annotations = Map.empty\<rparr>) = Inr bid \<and>
     bi_parameters bid ''dir'' = Some ''/x''"
  using backup_parameters_agree
    [of "\<lambda>_. Inr \<lparr>bl_name = ''l'', bl_provider = ''nfs'', bl_config = [''dir'' \<mapsto> ''/x'']\<rparr>" "''l''"
        "\<lparr>bl_name = ''l'', bl_provider = ''nfs'', bl_config = [''dir'' \<mapsto> ''/x'']\<rparr>"
        "\<lambda>_. Inr \<lparr>pr_name = ''nfs'', pr_manifest = [''dir'' \<mapsto> ''/y''],
          pr_type = ''MetadataProvider'', pr_annotations = Map.empty\<rparr>"
        "\<lparr>pr_name = ''nfs'', pr_manifest = [''dir'' \<mapsto> ''/y''],
          pr_type = ''MetadataProvider'', pr_annotations = Map.empty\<rparr>" zero_meta "''b''"]
  by force

end
