(* ===== verification/VBC_Types.thy ===== *)
theory VBC_Types
  imports ObjectMeta
begin

text \<open>
  \<^verbatim>\<open>VolumeBackupContent\<close> of \<^verbatim>\<open>apis/kahu/v1beta1/volumebackupcontent.go\<close>: the unit of
  volume backup a driver works on. A volume is represented by its name, and the reference to a
  snapshot by the name of the snapshot.
\<close>

datatype VolumeBackupContentPhase = VBCPhaseNone | VBCPhaseInit | VBCPhaseInProgress
  | VBCPhaseCompleted | VBCPhaseFailed | VBCPhaseDeleting | VBCPhaseOther string

record VolumeBackupState =
  vs_volumeName :: string
  vs_backupHandle :: string
  vs_attributes :: "string \<rightharpoonup> string"
  vs_progress :: int
  vs_lastProgressUpdate :: int

record VolumeBackupContent =
  vb_meta :: object_meta
  vb_backupName :: string
  vb_volumes :: "string list"
  vb_provider :: "string option"
  vb_parameters :: "string \<rightharpoonup> string"
  vb_sourceRef :: "string option"
  vb_phase :: VolumeBackupContentPhase
  vb_backupProvider :: "string option"
  vb_startTimestamp :: "int option"
  vb_failureReason :: string
  vb_states :: "VolumeBackupState list"

abbreviation vb_name :: "VolumeBackupContent \<Rightarrow> string" where "vb_name v \<equiv> meta_name (vb_meta v)"

definition zero_VBC :: VolumeBackupContent where
  "zero_VBC = \<lparr>vb_meta = zero_meta, vb_backupName = [], vb_volumes = [], vb_provider = None,
     vb_parameters = Map.empty, vb_sourceRef = None, vb_phase = VBCPhaseNone, vb_backupProvider = None, vb_startTimestamp = None,
     vb_failureReason = [], vb_states = []\<rparr>"

end
