(* ===== verification/Dependency.thy ===== *)
theory Dependency
  imports Kube_Types
begin

text \<open>
  Dependency resolution of a backup, \<^verbatim>\<open>controllers/backup/dependencyresolver.go\<close>: starting
  from the resources selected by the specification, the resolver adds what they refer to
  (claims, volumes, storage classes, config maps, secrets), and what those refer to, to the
  resource cache.

  \<^verbatim>\<open>cache.Indexer\<close> is library code: a record \<open>'c indexer\<close> of its methods, with what is used
  of its documentation stated as \<open>indexer_laws\<close>. The conversions from unstructured objects,
  discovery and the dynamic client are parameters too. Reads do not change the world during one
  resolution. The recursion \<^verbatim>\<open>resolve\<close> / \<^verbatim>\<open>populateDependency\<close> is not bounded by the
  code, so \<open>resolve\<close> takes fuel and \<open>None\<close> means that it ran out; the termination theorem gives
  the fuel that suffices.
\<close>

section \<open>Unstructured objects and the resource cache\<close>

record unstructured =
  un_apiVersion :: string
  un_kind :: string
  un_meta :: object_meta
  un_object :: string

record api_resource =
  ar_name :: string
  ar_group :: string
  ar_version :: string
  ar_kind :: string

definition gv_string :: "string \<Rightarrow> string \<Rightarrow> string" where
  "gv_string grp version = (if grp = [] then version else grp @ ''/'' @ version)"

record 'c indexer =
  ix_Add :: "(unstructured \<Rightarrow> goerr + string) \<Rightarrow> unstructured \<Rightarrow> 'c \<Rightarrow> goerr option \<times> 'c"
  ix_List :: "'c \<Rightarrow> unstructured list"
  ix_ByIndex :: "(unstructured \<Rightarrow> string list) \<Rightarrow> string \<Rightarrow> 'c \<Rightarrow> unstructured list"
  ix_IndexValues :: "(unstructured \<Rightarrow> string list) \<Rightarrow> 'c \<Rightarrow> string list"

definition uidKeyFunc :: "unstructured \<Rightarrow> goerr + string" where
  "uidKeyFunc u = Inr (meta_uid (un_meta u))"

definition namespaceIndex :: "unstructured \<Rightarrow> string list" where
  "namespaceIndex u = (if un_kind u = ''Namespace'' then [meta_name (un_meta u)] else [])"

definition resourceIndex :: "unstructured \<Rightarrow> string list" where
  "resourceIndex u = [un_kind u]"

definition clusterIndex :: "unstructured \<Rightarrow> string list" where
  "clusterIndex u = (if meta_namespace (un_meta u) = [] then [meta_name (un_meta u)] else [])"

definition indexer_laws :: "'c indexer \<Rightarrow> ('c \<Rightarrow> string \<rightharpoonup> unstructured) \<Rightarrow> bool" where
  "indexer_laws ix its \<longleftrightarrow>
     (\<forall>kf u k c. kf u = Inr k \<longrightarrow> fst (ix_Add ix kf u c) = None \<and>
        its (snd (ix_Add ix kf u c)) = (its c)(k \<mapsto> u)) \<and>
     (\<forall>c. set (ix_List ix c) = ran (its c)) \<and>
     (\<forall>f v c. set (ix_ByIndex ix f v c) = {u \<in> ran (its c). v \<in> set (f u)}) \<and>
     (\<forall>f c. set (ix_IndexValues ix f c) = (\<Union>u \<in> ran (its c). set (f u)))"

section \<open>Dependencies of one resource\<close>

record ResourceIdentifier =
  ri_GroupVersion :: string
  ri_Kind :: string
  ri_Namespace :: string
  ri_Name :: string

record 'w dep_env =
  de_toPV :: "unstructured \<Rightarrow> goerr + pv"
  de_toPVC :: "unstructured \<Rightarrow> goerr + pvc"
  de_toPod :: "unstructured \<Rightarrow> goerr + pod"
  de_toWorkload :: "unstructured \<Rightarrow> goerr + workload"
  de_listPVC :: "string \<Rightarrow> string \<Rightarrow> 'w \<Rightarrow> goerr + pvc list"
  de_ByKind :: "string \<Rightarrow> goerr + api_resource"
  de_Get :: "api_resource \<Rightarrow> string \<Rightarrow> string \<Rightarrow> 'w \<Rightarrow> goerr + unstructured"

definition core_id :: "string \<Rightarrow> string \<Rightarrow> string \<Rightarrow> ResourceIdentifier" where
  "core_id kind ns name = \<lparr>ri_GroupVersion = gv_string [] ''v1'', ri_Kind = kind,
     ri_Namespace = ns, ri_Name = name\<rparr>"

definition getPodDependency :: "string \<Rightarrow> pod_spec \<Rightarrow> ResourceIdentifier list" where
  "getPodDependency ns spec = concat (map (\<lambda>v.
     case vol_pvc v of Some claim \<Rightarrow> [core_id PVC_kind ns claim]
     | None \<Rightarrow>
        (case vol_configMap v of None \<Rightarrow> [] | Some n \<Rightarrow> [core_id Configmap_kind ns n]) @
        (case vol_secret v of None \<Rightarrow> [] | Some n \<Rightarrow> [core_id Secret_kind ns n]))
     (ps_volumes spec))"

definition pvResolver :: "'w dep_env \<Rightarrow> unstructured \<Rightarrow> goerr + ResourceIdentifier list" where
  "pvResolver env r = (case de_toPV env r of
     Inl err \<Rightarrow> Inl (wrap err ''Failed to covert unstructured resource to PV for resolution'')
   | Inr p \<Rightarrow> (case pv_claimRef p of None \<Rightarrow> Inr []
       | Some ref \<Rightarrow> Inr [\<lparr>ri_GroupVersion = cr_apiVersion ref, ri_Kind = cr_kind ref,
                         ri_Namespace = cr_namespace ref, ri_Name = cr_name ref\<rparr>]))"

definition pvcResolver :: "'w dep_env \<Rightarrow> unstructured \<Rightarrow> goerr + ResourceIdentifier list" where
  "pvcResolver env r = (case de_toPVC env r of
     Inl err \<Rightarrow> Inl (wrap err ''Failed to covert unstructured resource to PVC for resolution'')
   | Inr p \<Rightarrow> (case pvc_storageClassName p of None \<Rightarrow> Inr []
       | Some sc \<Rightarrow> if pvc_volumeName p = [] then Inr []
           else Inr [\<lparr>ri_GroupVersion = gv_string ''storage.k8s.io'' ''v1'', ri_Kind = SC_kind,
                      ri_Namespace = [], ri_Name = sc\<rparr>, core_id PV_kind [] (pvc_volumeName p)]))"

definition podResolver :: "'w dep_env \<Rightarrow> unstructured \<Rightarrow> goerr + ResourceIdentifier list" where
  "podResolver env r = (case de_toPod env r of
     Inl err \<Rightarrow> Inl (wrap err ''Failed to covert unstructured resource to Pod for resolution'')
   | Inr p \<Rightarrow> Inr (getPodDependency (meta_namespace (pod_meta p)) (pod_podspec p)))"

text \<open>Deployments, replica sets and daemon sets have resolvers of the same form.\<close>

definition deploymentResolver :: "'w dep_env \<Rightarrow> unstructured \<Rightarrow> goerr + ResourceIdentifier list" where
  "deploymentResolver env r = (case de_toWorkload env r of
     Inl err \<Rightarrow> Inl (wrap err ''Failed to covert unstructured resource to Deployment for resolution'')
   | Inr w \<Rightarrow> Inr (getPodDependency (meta_namespace (wl_meta w)) (wl_template w)))"

definition replicasetResolver :: "'w dep_env \<Rightarrow> unstructured \<Rightarrow> goerr + ResourceIdentifier list" where
  "replicasetResolver env r = (case de_toWorkload env r of
     Inl err \<Rightarrow> Inl (wrap err ''Failed to covert unstructured resource to replicaset for resolution'')
   | Inr w \<Rightarrow> Inr (getPodDependency (meta_namespace (wl_meta w)) (wl_template w)))"

definition daemonsetResolver :: "'w dep_env \<Rightarrow> unstructured \<Rightarrow> goerr + ResourceIdentifier list" where
  "daemonsetResolver env r = (case de_toWorkload env r of
     Inl err \<Rightarrow> Inl (wrap err ''Failed to covert unstructured resource to DaemonSet for resolution'')
   | Inr w \<Rightarrow> Inr (getPodDependency (meta_namespace (wl_meta w)) (wl_template w)))"

text \<open>Claims of a stateful set: \<^verbatim>\<open>*pvc.Spec.StorageClassName\<close> is read without a nil check,
  and the storage class is looked for in the core group.\<close>

definition statefulsetResolver ::
  "'w dep_env \<Rightarrow> 'w \<Rightarrow> unstructured \<Rightarrow> (goerr + ResourceIdentifier list) outcome" where
  "statefulsetResolver env w r = (case de_toWorkload env r of
     Inl err \<Rightarrow> Ret (Inl (wrap err ''Failed to covert unstructured resource to PVC for resolution''))
   | Inr s \<Rightarrow>
      let ns = meta_namespace (wl_meta s); pods = getPodDependency ns (wl_template s) in
      if 0 < wl_claimTemplates s then
        (case de_listPVC env ns (wl_selector s) w of
           Inl err \<Rightarrow> Ret (Inl (wrap err ''unable to list PVC fo statefulset''))
         | Inr claims \<Rightarrow>
             if list_ex (\<lambda>p. pvc_storageClassName p = None) claims then Panic
             else Ret (Inr (concat (map (\<lambda>p. [core_id PVC_kind ns (meta_name (pvc_meta p)),
                     core_id PV_kind [] (pvc_volumeName p),
                     core_id SC_kind [] (the (pvc_storageClassName p))]) claims) @ pods)))
      else Ret (Inr pods))"

text \<open>\<^verbatim>\<open>getAllProviders\<close> and \<^verbatim>\<open>GetDependency\<close>: \<open>None\<close> when no provider is registered.\<close>

definition getProvider ::
  "'w dep_env \<Rightarrow> 'w \<Rightarrow> string \<Rightarrow> (unstructured \<Rightarrow> (goerr + ResourceIdentifier list) outcome) option" where
  "getProvider env w kind =
     (if kind = PV_kind then Some (\<lambda>r. Ret (pvResolver env r))
      else if kind = PVC_kind then Some (\<lambda>r. Ret (pvcResolver env r))
      else if kind = Pod_kind then Some (\<lambda>r. Ret (podResolver env r))
      else if kind = Deployment_kind then Some (\<lambda>r. Ret (deploymentResolver env r))
      else if kind = Replicaset_kind then Some (\<lambda>r. Ret (replicasetResolver env r))
      else if kind = DaemonSet_kind then Some (\<lambda>r. Ret (daemonsetResolver env r))
      else if kind = StatefulSet_kind then Some (statefulsetResolver env w)
      else None)"

section \<open>Resolution\<close>

definition matches :: "ResourceIdentifier \<Rightarrow> unstructured \<Rightarrow> bool" where
  "matches d u \<longleftrightarrow> ri_GroupVersion d = un_apiVersion u \<and> ri_Kind d = un_kind u \<and>
     ri_Name d = meta_name (un_meta u) \<and> ri_Namespace d = meta_namespace (un_meta u)"

definition alreadyExist :: "'c indexer \<Rightarrow> ResourceIdentifier \<Rightarrow> 'c \<Rightarrow> bool" where
  "alreadyExist ix d c = list_ex (matches d) (ix_ByIndex ix resourceIndex (ri_Kind d) c)"

definition fetch :: "'w dep_env \<Rightarrow> 'w \<Rightarrow> ResourceIdentifier \<Rightarrow> goerr + unstructured" where
  "fetch env w d = (case de_ByKind env (ri_Kind d) of Inl err \<Rightarrow> Inl err
     | Inr apiResource \<Rightarrow> (case de_Get env apiResource (ri_Namespace d) (ri_Name d) w of
         Inl err \<Rightarrow> Inl err
       | Inr r \<Rightarrow> Inr (r\<lparr>un_apiVersion := gv_string (ar_group apiResource) (ar_version apiResource),
                        un_kind := ar_kind apiResource\<rparr>)))"

definition populateDependency ::
  "(unstructured \<Rightarrow> 'c \<Rightarrow> 'c outcome option) \<Rightarrow> 'w dep_env \<Rightarrow> 'c indexer \<Rightarrow> 'w \<Rightarrow>
   ResourceIdentifier \<Rightarrow> 'c \<Rightarrow> 'c outcome option" where
  "populateDependency rec env ix w d c = (case fetch env w d of
     Inl err \<Rightarrow> Some (Ret c)
   | Inr r \<Rightarrow> (case ix_Add ix uidKeyFunc r c of
       (Some err, c') \<Rightarrow> Some (Ret c') | (None, c') \<Rightarrow> rec r c'))"

fun visit_deps ::
  "(unstructured \<Rightarrow> 'c \<Rightarrow> 'c outcome option) \<Rightarrow> 'w dep_env \<Rightarrow> 'c indexer \<Rightarrow> 'w \<Rightarrow>
   ResourceIdentifier list \<Rightarrow> 'c \<Rightarrow> 'c outcome option" where
  "visit_deps rec env ix w [] c = Some (Ret c)"
| "visit_deps rec env ix w (d # ds) c =
     (if alreadyExist ix d c then visit_deps rec env ix w ds c
      else case populateDependency rec env ix w d c of
        Some (Ret c') \<Rightarrow> visit_deps rec env ix w ds c'
      | r \<Rightarrow> r)"

fun resolve ::
  "'w dep_env \<Rightarrow> 'c indexer \<Rightarrow> 'w \<Rightarrow> nat \<Rightarrow> unstructured \<Rightarrow> 'c \<Rightarrow> 'c outcome option" where
  "resolve env ix w 0 r c = None"
| "resolve env ix w (Suc n) r c = (case getProvider env w (un_kind r) of
     None \<Rightarrow> Some (Ret c)
   | Some depProvider \<Rightarrow> (case depProvider r of
       Panic \<Rightarrow> Some Panic
     | Ret (Inl err) \<Rightarrow> Some (Ret c)
     | Ret (Inr deps) \<Rightarrow> visit_deps (resolve env ix w n) env ix w deps c))"

fun resolve_list ::
  "'w dep_env \<Rightarrow> 'c indexer \<Rightarrow> 'w \<Rightarrow> nat \<Rightarrow> unstructured list \<Rightarrow> 'c \<Rightarrow> 'c outcome option" where
  "resolve_list env ix w n [] c = Some (Ret c)"
| "resolve_list env ix w n (r # rs) c = (case resolve env ix w n r c of
     Some (Ret c') \<Rightarrow> resolve_list env ix w n rs c' | x \<Rightarrow> x)"

definition Resolve :: "'w dep_env \<Rightarrow> 'c indexer \<Rightarrow> 'w \<Rightarrow> nat \<Rightarrow> 'c \<Rightarrow> 'c outcome option" where
  "Resolve env ix w n c = resolve_list env ix w n (ix_List ix c) c"

section \<open>Termination and closure\<close>

text \<open>
  The cluster as the resolver sees it: a finite set \<open>U\<close> of objects with distinct UIDs, such that
  what is fetched for an identifier is in \<open>U\<close> and, when its kind has dependencies of its own, is
  the object the identifier names.

  A stateful set one of whose claims has no storage class stops the resolution with a panic; it is
  the only way not to return.
\<close>

definition cached :: "('c \<Rightarrow> string \<rightharpoonup> unstructured) \<Rightarrow> 'c \<Rightarrow> unstructured set" where
  "cached its c = ran (its c)"

definition deps_of :: "'w dep_env \<Rightarrow> 'w \<Rightarrow> unstructured \<Rightarrow> ResourceIdentifier list" where
  "deps_of env w u = (case getProvider env w (un_kind u) of None \<Rightarrow> []
     | Some p \<Rightarrow> (case p u of Ret (Inr ds) \<Rightarrow> ds | _ \<Rightarrow> []))"

definition non_leaf :: "'w dep_env \<Rightarrow> 'w \<Rightarrow> unstructured \<Rightarrow> bool" where
  "non_leaf env w u \<longleftrightarrow> getProvider env w (un_kind u) \<noteq> None"

definition cluster :: "'w dep_env \<Rightarrow> 'w \<Rightarrow> unstructured set \<Rightarrow> bool" where
  "cluster env w U \<longleftrightarrow> finite U \<and>
     (\<forall>u \<in> U. \<forall>v \<in> U. meta_uid (un_meta u) = meta_uid (un_meta v) \<longrightarrow> u = v) \<and>
     (\<forall>d u v. u \<in> U \<longrightarrow> v \<in> U \<longrightarrow> matches d u \<longrightarrow> matches d v \<longrightarrow> u = v) \<and>
     (\<forall>u \<in> U. \<forall>d \<in> set (deps_of env w u). \<forall>v. fetch env w d = Inr v \<longrightarrow>
        v \<in> U \<and> (non_leaf env w v \<longrightarrow> matches d v) \<and>
        (\<forall>u' \<in> U. matches d u' \<longrightarrow> u' = v))"

definition claim_without_class :: "'w dep_env \<Rightarrow> 'w \<Rightarrow> unstructured \<Rightarrow> bool" where
  "claim_without_class env w u \<longleftrightarrow> un_kind u = StatefulSet_kind \<and>
     (case de_toWorkload env u of Inl err \<Rightarrow> False
      | Inr s \<Rightarrow> 0 < wl_claimTemplates s \<and>
          (case de_listPVC env (meta_namespace (wl_meta s)) (wl_selector s) w of Inl err \<Rightarrow> False
           | Inr claims \<Rightarrow> list_ex (\<lambda>p. pvc_storageClassName p = None) claims))"

lemma provider_panic:
  "getProvider env w (un_kind u) = Some p \<Longrightarrow> p u = Panic \<Longrightarrow> claim_without_class env w u"
  by (auto simp: getProvider_def claim_without_class_def statefulsetResolver_def Let_def kind_defs
      split: if_splits sum.splits)

text \<open>A resolution panics on a stateful set of \<open>U\<close>, or returns a cache with \<open>P\<close>.\<close>

definition resolves ::
  "'w dep_env \<Rightarrow> 'w \<Rightarrow> unstructured set \<Rightarrow> 'c outcome option \<Rightarrow> ('c \<Rightarrow> bool) \<Rightarrow> bool" where
  "resolves env w U x P \<longleftrightarrow> x = Some Panic \<and> (\<exists>u \<in> U. claim_without_class env w u) \<or>
     (\<exists>c'. x = Some (Ret c') \<and> P c')"

lemma resolvesE:
  assumes "resolves env w U x P"
  obtains "x = Some Panic" "\<exists>u \<in> U. claim_without_class env w u" | c' where "x = Some (Ret c')" "P c'"
  using assms unfolding resolves_def by blast

lemma resolves_panic [intro]: "u \<in> U \<Longrightarrow> claim_without_class env w u \<Longrightarrow> resolves env w U (Some Panic) P"
  by (auto simp: resolves_def)

lemma resolves_ret [simp]: "resolves env w U (Some (Ret c)) P \<longleftrightarrow> P c"
  by (simp add: resolves_def)

text \<open>Every fetchable dependency of \<open>u\<close> is in the set.\<close>

definition satisfied :: "'w dep_env \<Rightarrow> 'w \<Rightarrow> unstructured set \<Rightarrow> unstructured \<Rightarrow> bool" where
  "satisfied env w S u \<longleftrightarrow> (\<forall>d \<in> set (deps_of env w u). \<forall>v. fetch env w d = Inr v \<longrightarrow> v \<in> S)"

definition by_uid :: "('c \<Rightarrow> string \<rightharpoonup> unstructured) \<Rightarrow> 'c \<Rightarrow> bool" where
  "by_uid its c \<longleftrightarrow> (\<forall>k u. its c k = Some u \<longrightarrow> k = meta_uid (un_meta u))"

lemma satisfied_mono: "satisfied env w S u \<Longrightarrow> S \<subseteq> T \<Longrightarrow> satisfied env w T u"
  by (auto simp: satisfied_def)

lemma add_cached:
  assumes "indexer_laws ix its" "by_uid its c" "cached its c \<subseteq> U" "v \<in> U" "cluster env w U"
  obtains c' where "ix_Add ix uidKeyFunc v c = (None, c')" "cached its c' = insert v (cached its c)"
    "by_uid its c'"
proof -
  let ?c' = "snd (ix_Add ix uidKeyFunc v c)" and ?k = "meta_uid (un_meta v)"
  have its': "its ?c' = (its c)(?k \<mapsto> v)" "fst (ix_Add ix uidKeyFunc v c) = None"
    using assms(1) by (auto simp: indexer_laws_def uidKeyFunc_def)
  have old: "u = v" if "its c ?k = Some u" for u
  proof -
    have "u \<in> U" using that assms(3) by (auto simp: cached_def ran_def)
    moreover have "?k = meta_uid (un_meta u)" using assms(2) that by (simp add: by_uid_def)
    ultimately show ?thesis using assms(4,5) unfolding cluster_def by metis
  qed
  have "ran ((its c)(?k \<mapsto> v)) = insert v (ran (its c))"
  proof (cases "its c ?k")
    case (Some u)
    then have "its c ?k = Some v" using old by blast
    then have "(its c)(?k \<mapsto> v) = its c" by auto
    then show ?thesis using \<open>its c ?k = Some v\<close> by (auto simp: ran_def)
  qed simp
  then have "cached its ?c' = insert v (cached its c)" by (simp add: cached_def its')
  moreover have "by_uid its ?c'" using assms(2) by (auto simp: by_uid_def its')
  ultimately show thesis using that [of ?c'] its'(2) by (metis prod.collapse)
qed

lemma alreadyExist_iff:
  assumes "indexer_laws ix its"
  shows "alreadyExist ix d c \<longleftrightarrow> (\<exists>u \<in> cached its c. matches d u)"
  using assms by (auto simp: alreadyExist_def indexer_laws_def list_ex_iff resourceIndex_def
      cached_def matches_def)

text \<open>What a resolution from cache \<open>c\<close> to \<open>c'\<close> guarantees.\<close>

definition good ::
  "'w dep_env \<Rightarrow> 'w \<Rightarrow> ('c \<Rightarrow> string \<rightharpoonup> unstructured) \<Rightarrow> unstructured set \<Rightarrow> 'c \<Rightarrow> 'c \<Rightarrow> bool" where
  "good env w its U c c' \<longleftrightarrow> cached its c \<subseteq> cached its c' \<and> cached its c' \<subseteq> U \<and> by_uid its c' \<and>
     (\<forall>u \<in> cached its c' - cached its c. satisfied env w (cached its c') u)"

lemma good_refl: "cached its c \<subseteq> U \<Longrightarrow> by_uid its c \<Longrightarrow> good env w its U c c"
  by (simp add: good_def)

lemma good_trans: "good env w its U c c1 \<Longrightarrow> good env w its U c1 c2 \<Longrightarrow> good env w its U c c2"
  unfolding good_def by (metis DiffI DiffD1 DiffD2 satisfied_mono subset_trans)

definition measure_left :: "'w dep_env \<Rightarrow> 'w \<Rightarrow> ('c \<Rightarrow> string \<rightharpoonup> unstructured) \<Rightarrow> unstructured set \<Rightarrow> 'c \<Rightarrow> nat" where
  "measure_left env w its U c = card {u \<in> U. non_leaf env w u \<and> u \<notin> cached its c}"

lemma measure_left_mono:
  "finite U \<Longrightarrow> cached its c \<subseteq> cached its c' \<Longrightarrow>
     measure_left env w its U c' \<le> measure_left env w its U c"
  unfolding measure_left_def by (intro card_mono) auto

text \<open>Enough fuel: one more than the uncached objects with dependencies, and one for a leaf.\<close>

definition enough ::
  "'w dep_env \<Rightarrow> 'w \<Rightarrow> ('c \<Rightarrow> string \<rightharpoonup> unstructured) \<Rightarrow> unstructured set \<Rightarrow> nat \<Rightarrow> unstructured \<Rightarrow> 'c \<Rightarrow> bool" where
  "enough env w its U n r c \<longleftrightarrow> (if non_leaf env w r then measure_left env w its U c + 2 \<le> n else 0 < n)"

lemma visit_one:
  assumes laws: "indexer_laws ix its" and cl: "cluster env w U"
    and c: "by_uid its c" "cached its c \<subseteq> U"
    and u: "u \<in> U" "d \<in> set (deps_of env w u)"
    and new: "\<not> alreadyExist ix d c" and f: "fetch env w d = Inr v"
    and n: "measure_left env w its U c + 1 \<le> n"
    and IH: "\<And>r c. r \<in> U \<Longrightarrow> by_uid its c \<Longrightarrow> cached its c \<subseteq> U \<Longrightarrow> enough env w its U n r c \<Longrightarrow>
      resolves env w U (resolve env ix w n r c)
        (\<lambda>c'. good env w its U c c' \<and> satisfied env w (cached its c') r)"
  shows "resolves env w U (populateDependency (resolve env ix w n) env ix w d c)
     (\<lambda>c'. good env w its U c c' \<and> v \<in> cached its c')"
proof -
  have v: "v \<in> U" "non_leaf env w v \<Longrightarrow> matches d v" using cl u f unfolding cluster_def by blast+
  obtain c1 where c1: "ix_Add ix uidKeyFunc v c = (None, c1)" "cached its c1 = insert v (cached its c)"
      "by_uid its c1"
    using add_cached [OF laws c v(1) cl] by blast
  have sub: "cached its c1 \<subseteq> U" using c1(2) c(2) v(1) by simp
  have "enough env w its U n v c1"
  proof (cases "non_leaf env w v")
    case True
    then have "v \<notin> cached its c" using v(2) new alreadyExist_iff [OF laws] by blast
    then have "{x \<in> U. non_leaf env w x \<and> x \<notin> cached its c1} \<subset> {x \<in> U. non_leaf env w x \<and> x \<notin> cached its c}"
      using True v(1) c1(2) by auto
    moreover have "finite U" using cl by (simp add: cluster_def)
    ultimately have "measure_left env w its U c1 < measure_left env w its U c"
      unfolding measure_left_def by (intro psubset_card_mono) auto
    then show ?thesis using True n by (simp add: enough_def)
  next
    case False
    then show ?thesis using n by (simp add: enough_def)
  qed
  then have run: "resolves env w U (resolve env ix w n v c1)
      (\<lambda>c'. good env w its U c1 c' \<and> satisfied env w (cached its c') v)"
    using IH [OF v(1) c1(3) sub] by blast
  have keep: "good env w its U c c' \<and> v \<in> cached its c'"
    if c': "good env w its U c1 c'" "satisfied env w (cached its c') v" for c'
    unfolding good_def
  proof (intro conjI ballI)
    show "cached its c \<subseteq> cached its c'" "cached its c' \<subseteq> U" "by_uid its c'"
      using c'(1) c1(2) by (auto simp: good_def)
    show "v \<in> cached its c'" using c'(1) c1(2) unfolding good_def by blast
    fix x assume "x \<in> cached its c' - cached its c"
    then have "x = v \<or> x \<in> cached its c' - cached its c1" using c1(2) by blast
    then show "satisfied env w (cached its c') x" using c' by (auto simp: good_def)
  qed
  have "populateDependency (resolve env ix w n) env ix w d c = resolve env ix w n v c1"
    using c1(1) f by (simp add: populateDependency_def)
  then show ?thesis using run keep by (auto simp: resolves_def)
qed

lemma visit_all:
  assumes laws: "indexer_laws ix its" and cl: "cluster env w U"
    and c: "by_uid its c" "cached its c \<subseteq> U"
    and u: "u \<in> U" "set ds \<subseteq> set (deps_of env w u)"
    and n: "measure_left env w its U c + 1 \<le> n"
    and IH: "\<And>r c. r \<in> U \<Longrightarrow> by_uid its c \<Longrightarrow> cached its c \<subseteq> U \<Longrightarrow> enough env w its U n r c \<Longrightarrow>
      resolves env w U (resolve env ix w n r c)
        (\<lambda>c'. good env w its U c c' \<and> satisfied env w (cached its c') r)"
  shows "resolves env w U (visit_deps (resolve env ix w n) env ix w ds c) (\<lambda>c'. good env w its U c c' \<and>
     (\<forall>d \<in> set ds. \<forall>v. fetch env w d = Inr v \<longrightarrow> v \<in> cached its c'))"
  using c u(2) n
proof (induction ds arbitrary: c)
  case Nil
  then show ?case using good_refl by auto
next
  case (Cons d ds)
  have dep: "d \<in> set (deps_of env w u)" using Cons.prems(3) by simp
  have fin: "finite U" using cl by (simp add: cluster_def)
  let ?x = "if alreadyExist ix d c then Some (Ret c)
       else populateDependency (resolve env ix w n) env ix w d c"
  have step: "resolves env w U ?x
     (\<lambda>c1. good env w its U c c1 \<and> (\<forall>v. fetch env w d = Inr v \<longrightarrow> v \<in> cached its c1))"
  proof (cases "alreadyExist ix d c")
    case True
    then obtain u' where u': "u' \<in> cached its c" "matches d u'" using alreadyExist_iff [OF laws] by blast
    then have "u' \<in> U" using Cons.prems(2) by blast
    then have "v = u'" if "fetch env w d = Inr v" for v
      using that cl u(1) dep u'(2) unfolding cluster_def by metis
    then show ?thesis using True u'(1) good_refl [OF Cons.prems(2,1)] by auto
  next
    case False
    show ?thesis
    proof (cases "fetch env w d")
      case (Inl e)
      then show ?thesis using False good_refl [OF Cons.prems(2,1)] by (auto simp: populateDependency_def)
    next
      case (Inr v)
      then show ?thesis
        using visit_one [OF laws cl Cons.prems(1,2) u(1) dep False Inr Cons.prems(4) IH] False by auto
    qed
  qed
  from step show ?case
  proof (cases rule: resolvesE)
    case 1
    then have "visit_deps (resolve env ix w n) env ix w (d # ds) c = Some Panic" by (auto split: if_splits)
    then show ?thesis using 1(2) by auto
  next
    case (2 c1)
    have g: "by_uid its c1" "cached its c1 \<subseteq> U" "cached its c \<subseteq> cached its c1"
      using 2(2) by (auto simp: good_def)
    have "measure_left env w its U c1 + 1 \<le> n"
      using measure_left_mono [OF fin g(3), of env w] Cons.prems(4) by simp
    then have rest: "resolves env w U (visit_deps (resolve env ix w n) env ix w ds c1)
        (\<lambda>c'. good env w its U c1 c' \<and> (\<forall>d \<in> set ds. \<forall>v. fetch env w d = Inr v \<longrightarrow> v \<in> cached its c'))"
      using Cons.IH [OF g(1,2)] Cons.prems(3) by auto
    have keep: "good env w its U c c' \<and> (\<forall>d' \<in> set (d # ds). \<forall>v. fetch env w d' = Inr v \<longrightarrow> v \<in> cached its c')"
      if "good env w its U c1 c'" "\<forall>d \<in> set ds. \<forall>v. fetch env w d = Inr v \<longrightarrow> v \<in> cached its c'" for c'
      using that good_trans [OF conjunct1 [OF 2(2)] that(1)] 2(2) by (auto simp: good_def)
    have "visit_deps (resolve env ix w n) env ix w (d # ds) c = visit_deps (resolve env ix w n) env ix w ds c1"
      using 2(1) by (auto split: if_splits)
    then show ?thesis using rest keep by (auto simp: resolves_def)
  qed
qed

lemma deps_of_provider:
  "getProvider env w (un_kind r) = Some p \<Longrightarrow> p r = Ret (Inr ds) \<Longrightarrow> deps_of env w r = ds"
  by (simp add: deps_of_def)

lemma resolve_good:
  assumes laws: "indexer_laws ix its" and cl: "cluster env w U"
    and "r \<in> U" "by_uid its c" "cached its c \<subseteq> U" "enough env w its U n r c"
  shows "resolves env w U (resolve env ix w n r c)
     (\<lambda>c'. good env w its U c c' \<and> satisfied env w (cached its c') r)"
  using assms(3-)
proof (induction n arbitrary: r c)
  case 0
  then show ?case by (auto simp: enough_def split: if_splits)
next
  case (Suc n)
  have refl: "good env w its U c c" by (rule good_refl [OF Suc.prems(3,2)])
  show ?case
  proof (cases "getProvider env w (un_kind r)")
    case None
    then show ?thesis using refl by (auto simp: satisfied_def deps_of_def)
  next
    case (Some p)
    show ?thesis
    proof (cases "p r")
      case (Ret x)
      show ?thesis
      proof (cases x)
        case (Inl e)
        then show ?thesis using refl Some Ret by (auto simp: satisfied_def deps_of_def)
      next
        case (Inr ds)
        have ds: "deps_of env w r = ds" using deps_of_provider Some Ret Inr by metis
        have "measure_left env w its U c + 1 \<le> n"
          using Suc.prems(4) Some by (simp add: enough_def non_leaf_def)
        then have "resolves env w U (visit_deps (resolve env ix w n) env ix w ds c)
            (\<lambda>c'. good env w its U c c' \<and> (\<forall>d \<in> set ds. \<forall>v. fetch env w d = Inr v \<longrightarrow> v \<in> cached its c'))"
          using visit_all [OF laws cl Suc.prems(2,3,1), of ds n] Suc.IH ds by blast
        then show ?thesis using Some Ret Inr ds by (simp add: satisfied_def)
      qed
    next
      case Panic
      then show ?thesis using provider_panic [OF Some Panic] Suc.prems(1) Some by auto
    qed
  qed
qed

lemma resolve_list_good:
  assumes laws: "indexer_laws ix its" and cl: "cluster env w U"
    and "set rs \<subseteq> U" "by_uid its c" "cached its c \<subseteq> U" "card U + 2 \<le> n"
  shows "resolves env w U (resolve_list env ix w n rs c)
     (\<lambda>c'. good env w its U c c' \<and> (\<forall>r \<in> set rs. satisfied env w (cached its c') r))"
  using assms(3-5)
proof (induction rs arbitrary: c)
  case Nil
  then show ?case using good_refl by auto
next
  case (Cons r rs)
  have fin: "finite U" using cl by (simp add: cluster_def)
  have "measure_left env w its U c \<le> card U"
    unfolding measure_left_def using fin by (intro card_mono) auto
  then have "enough env w its U n r c" using assms(6) by (auto simp: enough_def)
  then have "resolves env w U (resolve env ix w n r c)
      (\<lambda>c'. good env w its U c c' \<and> satisfied env w (cached its c') r)"
    using resolve_good [OF laws cl _ Cons.prems(2,3), of r n] Cons.prems(1) by simp
  then show ?case
  proof (cases rule: resolvesE)
    case 1
    then show ?thesis by auto
  next
    case (2 c1)
    have rest: "resolves env w U (resolve_list env ix w n rs c1)
        (\<lambda>c'. good env w its U c1 c' \<and> (\<forall>r \<in> set rs. satisfied env w (cached its c') r))"
      using Cons.IH [of c1] Cons.prems(1) 2(2) by (auto simp: good_def)
    have "good env w its U c c' \<and> (\<forall>x \<in> set (r # rs). satisfied env w (cached its c') x)"
      if "good env w its U c1 c'" "\<forall>r \<in> set rs. satisfied env w (cached its c') r" for c'
      using that good_trans [OF conjunct1 [OF 2(2)] that(1)] satisfied_mono [OF conjunct2 [OF 2(2)]]
      by (auto simp: good_def)
    then show ?thesis using rest 2(1) by (auto simp: resolves_def)
  qed
qed

text \<open>C33: on a cluster of \<open>card U\<close> objects, dependency resolution ends with recursion depth
  \<open>card U + 2\<close>, in one of two ways. It returns a cache that contains everything it started with and
  every fetchable dependency of every object in it; or it panics, and then the cluster has a
  stateful set with claim templates one of whose claims names no storage class, which the code
  dereferences without a check.\<close>

theorem Resolve_closes:
  assumes laws: "indexer_laws ix its" and cl: "cluster env w U"
    and c: "by_uid its c" "cached its c \<subseteq> U" and n: "card U + 2 \<le> n"
  shows "(\<exists>c'. Resolve env ix w n c = Some (Ret c') \<and> cached its c \<subseteq> cached its c' \<and>
       cached its c' \<subseteq> U \<and>
       (\<forall>u \<in> cached its c'. \<forall>d \<in> set (deps_of env w u). \<forall>v. fetch env w d = Inr v \<longrightarrow> v \<in> cached its c')) \<or>
     (Resolve env ix w n c = Some Panic \<and> (\<exists>u \<in> U. claim_without_class env w u))"
proof -
  have l: "set (ix_List ix c) = cached its c" using laws by (simp add: indexer_laws_def cached_def)
  have run: "resolves env w U (resolve_list env ix w n (ix_List ix c) c)
      (\<lambda>c'. good env w its U c c' \<and> (\<forall>r \<in> cached its c. satisfied env w (cached its c') r))"
    using resolve_list_good [OF laws cl _ c n, of "ix_List ix c"] l c(2) by auto
  have "cached its c \<subseteq> cached its c' \<and> cached its c' \<subseteq> U \<and> (\<forall>u \<in> cached its c'. satisfied env w (cached its c') u)"
    if "good env w its U c c'" "\<forall>r \<in> cached its c. satisfied env w (cached its c') r" for c'
    using that by (auto simp: good_def)
  then show ?thesis using run unfolding Resolve_def satisfied_def resolves_def by blast
qed

section \<open>Witness\<close>

text \<open>The cache as an association list, and a cluster with a pod and its claim.\<close>

definition alist_indexer :: "(string \<times> unstructured) list indexer" where
  "alist_indexer = \<lparr>
     ix_Add = (\<lambda>kf u c. case kf u of Inl e \<Rightarrow> (Some e, c)
                 | Inr k \<Rightarrow> (None, (k, u) # filter (\<lambda>(k', _). k' \<noteq> k) c)),
     ix_List = (\<lambda>c. map snd (rev (filter (\<lambda>(k, u). map_of c k = Some u) c))),
     ix_ByIndex = (\<lambda>f v c. filter (\<lambda>u. v \<in> set (f u)) (map snd (filter (\<lambda>(k, u). map_of c k = Some u) c))),
     ix_IndexValues = (\<lambda>f c. concat (map f (map snd (filter (\<lambda>(k, u). map_of c k = Some u) c))))\<rparr>"

lemma map_of_filter_key: "map_of (filter (\<lambda>(k', _). k' \<noteq> k) c) = (map_of c)(k := None)"
  by (induction c) (auto simp: fun_eq_iff)

lemma ran_map_of: "ran (map_of c) = snd ` {(k, u). (k, u) \<in> set c \<and> map_of c k = Some u}"
  by (force simp: ran_def dest: map_of_SomeD)

lemma alist_indexer_laws: "indexer_laws alist_indexer map_of"
  unfolding indexer_laws_def alist_indexer_def
  by (auto simp: map_of_filter_key ran_map_of split: sum.splits)

definition demo_un :: "string \<Rightarrow> string \<Rightarrow> string \<Rightarrow> unstructured" where
  "demo_un kind ns name = \<lparr>un_apiVersion = ''v1'', un_kind = kind,
     un_meta = zero_meta\<lparr>meta_name := name, meta_namespace := ns, meta_uid := name\<rparr>, un_object = []\<rparr>"

definition demo_dep :: "'w dep_env" where
  "demo_dep = \<lparr>de_toPV = (\<lambda>_. Inl (errorf ''x'')), de_toPVC = (\<lambda>_. Inl (errorf ''x'')),
     de_toPod = (\<lambda>u. Inr \<lparr>pod_meta = un_meta u, pod_podspec = \<lparr>ps_volumes =
          [\<lparr>vol_configMap = Some ''cm'', vol_pvc = None, vol_secret = None\<rparr>], ps_serviceAccountName = [],
          ps_containers = [], ps_initContainers = [], ps_ephemeralContainers = []\<rparr>, pod_labels = []\<rparr>),
     de_toWorkload = (\<lambda>_. Inl (errorf ''x'')), de_listPVC = (\<lambda>_ _ _. Inr []),
     de_ByKind = (\<lambda>k. Inr \<lparr>ar_name = k, ar_group = [], ar_version = ''v1'', ar_kind = k\<rparr>),
     de_Get = (\<lambda>ar ns n _. if n = ''cm'' \<and> ns = ''ns'' \<and> ar_kind ar = Configmap_kind
        then Inr (demo_un Configmap_kind ''ns'' ''cm'') else Inl (errorf ''none''))\<rparr>"

definition demo_U :: "unstructured set" where
  "demo_U = {demo_un Pod_kind ''ns'' ''p'', demo_un Configmap_kind ''ns'' ''cm''}"

lemma demo_deps:
  "deps_of demo_dep () (demo_un Pod_kind ''ns'' ''p'') = [core_id Configmap_kind ''ns'' ''cm'']"
  "deps_of demo_dep () (demo_un Configmap_kind ''ns'' ''cm'') = []"
  by (simp_all add: deps_of_def getProvider_def demo_un_def kind_defs podResolver_def demo_dep_def
      getPodDependency_def)

lemma demo_fetch:
  "fetch demo_dep () (core_id Configmap_kind ''ns'' ''cm'') = Inr (demo_un Configmap_kind ''ns'' ''cm'')"
  by (simp add: fetch_def demo_dep_def core_id_def demo_un_def gv_string_def)

lemma demo_cluster: "cluster demo_dep () demo_U"
  unfolding cluster_def
proof (intro conjI)
  show "finite demo_U" by (simp add: demo_U_def)
  show "\<forall>u\<in>demo_U. \<forall>v\<in>demo_U. meta_uid (un_meta u) = meta_uid (un_meta v) \<longrightarrow> u = v"
    by (simp add: demo_U_def demo_un_def)
  show "\<forall>d u v. u \<in> demo_U \<longrightarrow> v \<in> demo_U \<longrightarrow> matches d u \<longrightarrow> matches d v \<longrightarrow> u = v"
    by (auto simp: demo_U_def demo_un_def matches_def kind_defs)
  show "\<forall>u\<in>demo_U. \<forall>d\<in>set (deps_of demo_dep () u). \<forall>v. fetch demo_dep () d = Inr v \<longrightarrow>
      v \<in> demo_U \<and> (non_leaf demo_dep () v \<longrightarrow> matches d v) \<and>
      (\<forall>u' \<in> demo_U. matches d u' \<longrightarrow> u' = v)"
    by (auto simp: demo_U_def demo_deps demo_fetch)
      (simp_all add: demo_un_def matches_def core_id_def gv_string_def kind_defs)
qed

theorem Resolve_closes_witness:
  "\<exists>c'. Resolve demo_dep alist_indexer () 4 [(''p'', demo_un Pod_kind ''ns'' ''p'')] = Some (Ret c') \<and>
     demo_un Configmap_kind ''ns'' ''cm'' \<in> cached map_of c'"
proof -
  let ?c = "[(''p'', demo_un Pod_kind ''ns'' ''p'')]"
  have card: "card demo_U + 2 \<le> 4"
    by (simp add: demo_U_def) (simp add: demo_un_def kind_defs)
  have c: "by_uid map_of ?c" "cached map_of ?c \<subseteq> demo_U"
    by (auto simp: by_uid_def cached_def demo_U_def demo_un_def)
  have p: "demo_un Pod_kind ''ns'' ''p'' \<in> cached map_of ?c" by (simp add: cached_def)
  have d: "core_id Configmap_kind ''ns'' ''cm'' \<in> set (deps_of demo_dep () (demo_un Pod_kind ''ns'' ''p''))"
    by (simp add: demo_deps)
  have "\<not> claim_without_class demo_dep () u" if "u \<in> demo_U" for u
    using that by (auto simp: demo_U_def demo_un_def claim_without_class_def kind_defs)
  then obtain c' where "Resolve demo_dep alist_indexer () 4 ?c = Some (Ret c')"
      "cached map_of ?c \<subseteq> cached map_of c'"
      "\<forall>u \<in> cached map_of c'. \<forall>d \<in> set (deps_of demo_dep () u). \<forall>v. fetch demo_dep () d = Inr v \<longrightarrow> v \<in> cached map_of c'"
    using Resolve_closes [OF alist_indexer_laws demo_cluster c card] by (elim disjE exE conjE) blast+
  then show ?thesis using p d demo_fetch by blast
qed

end
