(* ===== verification/Backup_Metadata.thy ===== *)
theory Backup_Metadata
  imports Collectors Paths VBC_Types Dependency
begin

text \<open>
  The metadata backup of \<^verbatim>\<open>controllers/backup/backupmetadata.go\<close> and
  \<^verbatim>\<open>metaservice.go\<close>, with the parts of \<^verbatim>\<open>backupvolume.go\<close> that stream volume backup
  contents and backup locations.

  Listers, discovery, the API client for volume backup contents and the gRPC client of the
  metadata service are parameters of \<open>meta_env\<close>. \<open>me_order\<close> is the order in which Go ranges over
  a string set.
\<close>

record 'w meta_env =
  me_api :: "'w backup_api"
  me_collect :: "'w collect_env"
  me_locationGet :: "string \<Rightarrow> 'w \<Rightarrow> goerr + backup_location"
  me_providerGet :: "string \<Rightarrow> 'w \<Rightarrow> goerr + provider"
  me_connect :: "string \<Rightarrow> 'w \<Rightarrow> goerr option \<times> 'w"
  me_openBackup :: "'w \<Rightarrow> goerr option \<times> 'w"
  me_identify :: "string \<Rightarrow> 'w \<Rightarrow> goerr option \<times> 'w"
  me_closeAndRecv :: "'w \<Rightarrow> goerr option \<times> 'w"
  me_delete :: "string \<Rightarrow> 'w \<Rightarrow> goerr option \<times> 'w"
  me_byKind :: "string \<Rightarrow> goerr + api_resource"
  me_listVBC :: "(string \<times> string) list \<Rightarrow> 'w \<Rightarrow> (VolumeBackupContent list \<times> goerr option) \<times> 'w"
  me_marshalVBC :: "VolumeBackupContent \<Rightarrow> goerr + string"
  me_supported :: string
  me_order :: "string set \<Rightarrow> string list"

section \<open>metaservice.go\<close>

definition ctrl_fetchBackupLocation :: "'w meta_env \<Rightarrow> string \<Rightarrow> 'w \<Rightarrow> goerr + backup_location" where
  "ctrl_fetchBackupLocation env name w = (case me_locationGet env name w of Inl err \<Rightarrow> Inl err | Inr l \<Rightarrow> Inr l)"

definition ctrl_fetchProvider :: "'w meta_env \<Rightarrow> string \<Rightarrow> 'w \<Rightarrow> goerr + provider" where
  "ctrl_fetchProvider env name w = (case me_providerGet env name w of Inl err \<Rightarrow> Inl err | Inr p \<Rightarrow> Inr p)"

definition BackupLocationServiceAnnotation :: string where
  "BackupLocationServiceAnnotation = ''kahu.io/provider-service''"

definition fetchMetaServiceClient :: "'w meta_env \<Rightarrow> string \<Rightarrow> ('w bctrl, goerr option) state" where
  "fetchMetaServiceClient env location = do {
     l \<leftarrow> ask (ctrl_fetchBackupLocation env location);
     case l of Inl err \<Rightarrow> State_Monad.return (Some err)
     | Inr backLocation \<Rightarrow> do {
         p \<leftarrow> ask (ctrl_fetchProvider env (bl_provider backLocation));
         case p of Inl err \<Rightarrow> State_Monad.return (Some err)
         | Inr backupProvider \<Rightarrow>
             if pr_type backupProvider \<noteq> ''MetadataProvider''
             then State_Monad.return (Some (errorf (''invalid metadata provider type ('' @ pr_type backupProvider @ '')'')))
             else (case pr_annotations backupProvider BackupLocationServiceAnnotation of
                 None \<Rightarrow> State_Monad.return (Some (errorf (''failed to get metadata provider('' @ pr_name backupProvider @ '') service info'')))
               | Some providerService \<Rightarrow> do {
                   err \<leftarrow> call (me_connect env providerService) (\<lambda>e. EvMetaConnect providerService (e = None));
                   State_Monad.return (case err of None \<Rightarrow> None
                     | Some e \<Rightarrow> Some (errorf (''failed to get metadata service client('' @ providerService @ '')''))) }) } }"

section \<open>backupmetadata.go\<close>

text \<open>\<^verbatim>\<open>getResultant\<close>: without a configured list the global slice is used, and
  \<^verbatim>\<open>GetResultantItems\<close> may write to its array.\<close>

definition getResultant :: "'w meta_env \<Rightarrow> BackupSpec \<Rightarrow> ('w bctrl, string list) state" where
  "getResultant env spec =
     (let included = map rs_kind (sp_includeResources spec);
          excluded = (if included = [] then map rs_kind (filter (\<lambda>r. rs_name r = [] \<or> rs_name r = ''*'')
                        (sp_excludeResources spec)) else [])
      in if me_supported env \<noteq> []
         then State_Monad.return (fst (GetResultantItems (strings_Split (CHR '','') (me_supported env)) included excluded))
         else liftst (\<lambda>s. case GetResultantItems (bc_supported s) included excluded of
                (res, arr) \<Rightarrow> (res, s\<lparr>bc_supported := arr\<rparr>)))"

definition vbc_event_obj :: "VolumeBackupContent \<Rightarrow> kobj" where
  "vbc_event_obj v = KMeta VBC_kind (vb_meta v)"

definition backupVolumeBackupContent :: "'w meta_env \<Rightarrow> string \<Rightarrow> ('w bctrl, sres) state" where
  "backupVolumeBackupContent env backupName = (case me_byKind env VBC_kind of
     Inl err \<Rightarrow> State_Monad.return (Fail err)
   | Inr apiResource \<Rightarrow> do {
       (vbcs, err) \<leftarrow> call (me_listVBC env [(volumeContentBackupLabel, backupName)])
                          (\<lambda>(l, e). EvListVBC (length l) (e = None));
       case err of Some e \<Rightarrow> State_Monad.return (Fail e)
       | None \<Rightarrow> each (\<lambda>v. case me_marshalVBC env v of
             Inl e \<Rightarrow> State_Monad.return (Fail e)
           | Inr resourceData \<Rightarrow> do {
               e \<leftarrow> call (co_Send (me_collect env)
                      \<lparr>mr_name = vb_name v,
                       mr_gvk = \<lparr>gvk_group = gv_string (ar_group apiResource) (ar_version apiResource),
                                 gvk_version = gv_string (ar_group apiResource) (ar_version apiResource),
                                 gvk_kind = ar_kind apiResource\<rparr>,
                       mr_data = resourceData\<rparr>)
                    (\<lambda>e. EvMetaSend (vbc_event_obj v) (vb_name v) (e = None));
               State_Monad.return (of_err e) }) vbcs })"

text \<open>The result of the last send is assigned and not returned.\<close>

definition backupBackupLocation ::
  "'w meta_env \<Rightarrow> (backup_location \<Rightarrow> goerr + string) \<Rightarrow> string \<Rightarrow> ('w bctrl, sres) state" where
  "backupBackupLocation env marshal name = (case me_byKind env ''BackupLocation'' of
     Inl err \<Rightarrow> State_Monad.return (Fail err)
   | Inr apiResource \<Rightarrow> reading (me_locationGet env name) (\<lambda>location.
       case marshal location of Inl err \<Rightarrow> State_Monad.return (Fail err)
       | Inr resourceData \<Rightarrow> do {
           e \<leftarrow> call (co_Send (me_collect env) \<lparr>mr_name = bl_name location,
                  mr_gvk = \<lparr>gvk_group = ar_group apiResource, gvk_version = ar_version apiResource,
                            gvk_kind = ar_kind apiResource\<rparr>, mr_data = resourceData\<rparr>)
                (\<lambda>e. EvMetaSend (KMeta ''BackupLocation'' zero_meta) (bl_name location) (e = None));
           State_Monad.return Ok }))"

definition collect_kind :: "'w meta_env \<Rightarrow> BackupSpec \<Rightarrow> string \<Rightarrow> string \<Rightarrow> ('w bctrl, sres) state" where
  "collect_kind env spec ns name =
     (let co = me_collect env in
      if name = Pod_kind then podBackup co spec ns
      else if name = Deployment_kind then deploymentBackup co spec ns
      else if name = Configmap_kind then getConfigMapS co spec ns
      else if name = PVC_kind then getPersistentVolumeClaims co spec ns
      else if name = Service_kind then getServices co spec ns
      else if name = Secret_kind then getSecrets co spec ns
      else if name = Endpoint_kind then getEndpoints co spec ns
      else if name = Replicaset_kind then replicaSetBackup co spec ns
      else if name = StatefulSet_kind then getStatefulsets co spec ns
      else if name = DaemonSet_kind then daemonSetBackup co spec ns
      else State_Monad.return Ok)"

definition runBackup :: "'w meta_env \<Rightarrow> Backup \<Rightarrow> ('w bctrl, sres) state" where
  "runBackup env backup = do {
     err \<leftarrow> call (me_identify env (bk_name backup)) (\<lambda>e. EvMetaIdentify (bk_name backup) (e = None));
     if err \<noteq> None then State_Monad.return (of_err err)
     else do {
       kinds \<leftarrow> getResultant env (bk_spec backup);
       allNamespace \<leftarrow> (if sp_includeNamespaces (bk_spec backup) = []
                        then ask (\<lambda>w. fst (ListNamespaces (me_collect env) w))
                        else State_Monad.return []);
       let resultNs = fst (GetResultantItems allNamespace (sp_includeNamespaces (bk_spec backup))
                        (sp_excludeNamespaces (bk_spec backup)));
       r \<leftarrow> each (\<lambda>ns. each (collect_kind env (bk_spec backup) ns) (me_order env (set kinds)))
              (me_order env (set resultNs));
       if r \<noteq> Ok then State_Monad.return r
       else do {
         r2 \<leftarrow> backupVolumeBackupContent env (bk_name backup);
         State_Monad.return (case r2 of Fail e \<Rightarrow> Fail (wrap e ''unable to backup volume backup contents'')
                             | x \<Rightarrow> x) } } }"

definition EventResourceBackupFailed :: string where
  "EventResourceBackupFailed = ''ResourceBackupFailed''"

definition processMetadataBackup ::
  "'w meta_env \<Rightarrow> Backup \<Rightarrow> ('w bctrl, (Backup \<times> goerr option) outcome) state" where
  "processMetadataBackup env backup0 =
     (if bk_state backup0 = BackupStateCompleted then State_Monad.return (Ret (backup0, None))
      else let
        backup = backup0\<lparr>bk_status := (bk_status backup0)\<lparr>st_validationErrors := []\<rparr>\<rparr>;
        locationName = sp_metadataLocation (bk_spec backup);
        fail_with = (\<lambda>msg. do {
          r \<leftarrow> updateBackupStatusWithEvent (me_api env) backup (status_of BackupStageNone BackupStateFailed)
                 EventResourceBackupFailed msg;
          State_Monad.return (Ret r) })
      in do {
        l \<leftarrow> ask (me_locationGet env locationName);
        case l of
          Inl err \<Rightarrow> do {
            r \<leftarrow> updateBackupStatus (me_api env) backup (status_of BackupStageNone BackupStateFailed);
            State_Monad.return (Ret r) }
        | Inr metaLocation \<Rightarrow> do {
            err \<leftarrow> fetchMetaServiceClient env locationName;
            if err \<noteq> None then fail_with ''Unable to connect metadata service''
            else do {
              err2 \<leftarrow> call (me_openBackup env) (\<lambda>e. EvMetaOpen (e = None));
              if err2 \<noteq> None then fail_with ''Unable to get backup client''
              else do {
                r \<leftarrow> runBackup env backup;
                if r = Crash then State_Monad.return Panic
                else do {
                  err3 \<leftarrow> call (me_closeAndRecv env) (\<lambda>e. EvMetaClose (e = None));
                  if err3 \<noteq> None then fail_with ''Unable to backup resources''
                  else do {
                    u \<leftarrow> updateBackupStatus (me_api env) backup (status_of BackupStageNone
                           (if r = Ok then BackupStateCompleted else BackupStateFailed));
                    State_Monad.return (Ret u) } } } } } })"

definition deleteMetadataBackup :: "'w meta_env \<Rightarrow> Backup \<Rightarrow> ('w bctrl, goerr option) state" where
  "deleteMetadataBackup env backup =
     (if bk_state backup = BackupStateFailed \<or>
         toOrdinal (bk_stage backup) < toOrdinal BackupStageResources
      then State_Monad.return None
      else do {
        err \<leftarrow> fetchMetaServiceClient env (sp_metadataLocation (bk_spec backup));
        if err \<noteq> None then State_Monad.return err
        else do {
          err2 \<leftarrow> call (me_delete env (bk_name backup)) (\<lambda>e. EvMetaDelete (bk_name backup) (e = None));
          State_Monad.return (if err2 \<noteq> None
            then Some (errorf (''unable to delete metadata backup file '' @ bk_name backup)) else None) } })"

end
