(* ===== verification/Backup_Resources.thy ===== *)
theory Backup_Resources
  imports Backup_Updater Dependency
begin

text \<open>
  Selection of the resources of a backup, \<^verbatim>\<open>controllers/backup/backupresources.go\<close>: the
  kinds to list, the namespaces, the filter on single resources, the cache they are collected
  in, and the status update that records them.

  Discovery, the clients, label selectors and the conversion of a namespace to an unstructured
  object are parameters of \<open>res_env\<close> (the code only logs a failed conversion and adds what it returned, so
  \<open>re_nsUnstructured\<close> is the object in either case); \<open>re_order\<close> is the order in which Go ranges over the map of
  selected namespaces.
\<close>

section \<open>Kinds\<close>

record 'w res_env =
  re_apiResources :: "goerr + api_resource list"
  re_namespaces :: "'w \<Rightarrow> goerr + object_meta list"
  re_order :: "object_meta list \<Rightarrow> object_meta list"
  re_nsUnstructured :: "object_meta \<Rightarrow> unstructured"
  re_selector :: "string \<Rightarrow> goerr + string"
  re_list :: "api_resource \<Rightarrow> string \<Rightarrow> string \<Rightarrow> 'w \<Rightarrow> goerr + unstructured list"
  re_compile :: "string \<Rightarrow> (string \<Rightarrow> bool) option"
  re_dep :: "'w dep_env"
  re_fuel :: nat

definition excludeResourceType :: "string set" where
  "excludeResourceType = {''Node'', ''Event'', ''VolumeSnapshot'', ''EndpointSlice''}"

definition AnnResourceSelector :: string where "AnnResourceSelector = ''kahu.io/backup-resources''"

definition filteredAPIResourcesByAnnotation :: "Backup \<Rightarrow> api_resource list \<Rightarrow> api_resource list" where
  "filteredAPIResourcesByAnnotation backup apis =
     (if ContainsAnnotation (Some (bk_meta backup)) AnnResourceSelector then
        (case GetAnnotation (Some (bk_meta backup)) AnnResourceSelector of (resources, exist) \<Rightarrow>
           if \<not> exist then apis
           else filter (\<lambda>a. ar_kind a \<in> set (strings_Split (CHR '','') resources)) apis)
      else apis)"

definition filterApiResourceByIncludeResources :: "Backup \<Rightarrow> api_resource list \<Rightarrow> api_resource list" where
  "filterApiResourceByIncludeResources backup apis =
     (let includeKind = set (map rs_kind (sp_includeResources (bk_spec backup))) in
      if includeKind = {} then apis else filter (\<lambda>a. ar_kind a \<in> includeKind) apis)"

definition filterApiResourceByExcludeResources :: "Backup \<Rightarrow> api_resource list \<Rightarrow> api_resource list" where
  "filterApiResourceByExcludeResources backup apis =
     (let filterKind = set (map rs_kind (filter (\<lambda>r. rs_name r = [] \<or> rs_name r = ''*'')
            (sp_excludeResources (bk_spec backup)))) in
      if filterKind = {} then apis else filter (\<lambda>a. ar_kind a \<notin> filterKind) apis)"

definition filterApiResourceByBackup :: "Backup \<Rightarrow> api_resource list \<Rightarrow> api_resource list" where
  "filterApiResourceByBackup backup apis =
     filterApiResourceByExcludeResources backup (filterApiResourceByIncludeResources backup apis)"

definition filteredAPIResources :: "'w res_env \<Rightarrow> Backup \<Rightarrow> goerr + api_resource list" where
  "filteredAPIResources env backup = (case re_apiResources env of
     Inl err \<Rightarrow> Inl (wrap err ''unable to get namespaces API resource'')
   | Inr apis \<Rightarrow> Inr (filterApiResourceByBackup backup (filteredAPIResourcesByAnnotation backup
        (filter (\<lambda>a. ar_kind a \<notin> excludeResourceType) apis))))"

section \<open>Namespaces\<close>

definition namespace_selected :: "Backup \<Rightarrow> string \<Rightarrow> bool" where
  "namespace_selected backup name =
     (let includeList = set (sp_includeNamespaces (bk_spec backup));
          excludeList = set (sp_excludeNamespaces (bk_spec backup))
      in if name \<in> excludeList then False
         else if includeList \<noteq> {} \<and> name \<notin> includeList then False else True)"

fun add_all :: "'c indexer \<Rightarrow> unstructured list \<Rightarrow> 'c \<Rightarrow> goerr option \<times> 'c" where
  "add_all ix [] c = (None, c)"
| "add_all ix (u # us) c = (case ix_Add ix uidKeyFunc u c of
     (Some err, c') \<Rightarrow> (Some err, c') | (None, c') \<Rightarrow> add_all ix us c')"

definition collectNamespacesWithBackupSpec ::
  "'w res_env \<Rightarrow> 'c indexer \<Rightarrow> Backup \<Rightarrow> 'w \<Rightarrow> 'c \<Rightarrow> goerr option \<times> 'c" where
  "collectNamespacesWithBackupSpec env ix backup w c = (case re_namespaces env w of
     Inl err \<Rightarrow> (if IsNotFound (Some err) then (None, c)
                 else (Some (wrap err ''unable to get namespaces''), c))
   | Inr nss \<Rightarrow> add_all ix (map (re_nsUnstructured env)
        (re_order env (filter (\<lambda>m. namespace_selected backup (meta_name m)) nss))) c)"

definition getCachedNamespaceNames :: "'c indexer \<Rightarrow> 'c \<Rightarrow> string list" where
  "getCachedNamespaceNames ix c = ix_IndexValues ix namespaceIndex c"

section \<open>Single resources\<close>

fun spec_hit :: "(string \<Rightarrow> (string \<Rightarrow> bool) option) \<Rightarrow> string \<Rightarrow> string \<Rightarrow> resource_spec list \<Rightarrow> bool" where
  "spec_hit compile kind name [] = False"
| "spec_hit compile kind name (s # ss) =
     (if rs_kind s = kind \<and> rs_isRegex s then
        (case compile (rs_name s) of None \<Rightarrow> spec_hit compile kind name ss
         | Some re \<Rightarrow> if re name then True else spec_hit compile kind name ss)
      else if rs_kind s = kind then
        (if name = [] \<or> name = rs_name s then True else spec_hit compile kind name ss)
      else spec_hit compile kind name ss)"

definition isResourceNeedBackup ::
  "(string \<Rightarrow> (string \<Rightarrow> bool) option) \<Rightarrow> Backup \<Rightarrow> unstructured \<Rightarrow> bool" where
  "isResourceNeedBackup compile backup u =
     (if meta_ownerReferences (un_meta u) \<noteq> None then False
      else if spec_hit compile (un_kind u) (meta_name (un_meta u)) (sp_excludeResources (bk_spec backup))
      then False
      else if length (sp_includeResources (bk_spec backup)) = 0 then True
      else spec_hit compile (un_kind u) (meta_name (un_meta u)) (sp_includeResources (bk_spec backup)))"

definition applyResourceFilters ::
  "(string \<Rightarrow> (string \<Rightarrow> bool) option) \<Rightarrow> Backup \<Rightarrow> unstructured list \<Rightarrow> unstructured list" where
  "applyResourceFilters compile backup rs = filter (isResourceNeedBackup compile backup) rs"

fun collectNamespaceResources ::
  "'w res_env \<Rightarrow> string \<Rightarrow> string \<Rightarrow> 'w \<Rightarrow> api_resource list \<Rightarrow> goerr + unstructured list" where
  "collectNamespaceResources env ns sel w [] = Inr []"
| "collectNamespaceResources env ns sel w (a # as) =
     (case re_list env a ns sel w of
        Inl err \<Rightarrow> (if IsNotFound (Some err) then collectNamespaceResources env ns sel w as
                    else Inl (wrap err ''failed to list resource info''))
      | Inr us \<Rightarrow> (case collectNamespaceResources env ns sel w as of
          Inl err \<Rightarrow> Inl err
        | Inr rest \<Rightarrow> Inr (map (\<lambda>u. u\<lparr>un_apiVersion := gv_string (ar_group a) (ar_version a),
                                     un_kind := ar_kind a\<rparr>) us @ rest)))"

section \<open>The cache\<close>

fun collect_all ::
  "'w res_env \<Rightarrow> 'c indexer \<Rightarrow> Backup \<Rightarrow> 'w \<Rightarrow> api_resource list \<Rightarrow> string \<Rightarrow> string list \<Rightarrow> 'c \<Rightarrow>
   goerr option \<times> 'c" where
  "collect_all env ix backup w apis sel [] c = (None, c)"
| "collect_all env ix backup w apis sel (ns # nss) c =
     (case collectNamespaceResources env ns sel w apis of
        Inl err \<Rightarrow> (Some (wrap err (''unable to retrieve resource for namespace '' @ ns)), c)
      | Inr rs \<Rightarrow> (case add_all ix (applyResourceFilters (re_compile env) backup rs) c of
          (Some err, c') \<Rightarrow> (Some (wrap err ''unable to populate backup cache''), c')
        | (None, c') \<Rightarrow> collect_all env ix backup w apis sel nss c'))"

text \<open>The resources selected by the specification, before dependencies are resolved.\<close>

definition collectFromBackupSpec ::
  "'w res_env \<Rightarrow> 'c indexer \<Rightarrow> Backup \<Rightarrow> 'w \<Rightarrow> 'c \<Rightarrow> goerr option \<times> 'c" where
  "collectFromBackupSpec env ix backup w c = (case filteredAPIResources env backup of
     Inl err \<Rightarrow> (Some (wrap err ''unable to get API resources''), c)
   | Inr apis \<Rightarrow> (case collectNamespacesWithBackupSpec env ix backup w c of
       (Some err, c1) \<Rightarrow> (Some err, c1)
     | (None, c1) \<Rightarrow>
        (let namespaces = getCachedNamespaceNames ix c1 in
         case (case sp_label (bk_spec backup) of None \<Rightarrow> Inr [] | Some l \<Rightarrow> re_selector env l) of
           Inl err \<Rightarrow> (Some (wrap err ''invalid label selector''), c1)
         | Inr sel \<Rightarrow> collect_all env ix backup w apis sel namespaces c1)))"

datatype 'a hout = HRet 'a | HPanic | HHang

definition populateCacheFromBackupSpec ::
  "'w res_env \<Rightarrow> 'c indexer \<Rightarrow> Backup \<Rightarrow> 'w \<Rightarrow> 'c \<Rightarrow> (goerr option \<times> 'c) hout" where
  "populateCacheFromBackupSpec env ix backup w c = (case collectFromBackupSpec env ix backup w c of
     (Some err, c1) \<Rightarrow> HRet (Some err, c1)
   | (None, c1) \<Rightarrow> (case Resolve (re_dep env) ix w (re_fuel env) c1 of
       None \<Rightarrow> HHang | Some Panic \<Rightarrow> HPanic | Some (Ret c2) \<Rightarrow> HRet (None, c2)))"

definition GetResources :: "'c indexer \<Rightarrow> 'c \<Rightarrow> unstructured list" where
  "GetResources ix c = ix_List ix c"

definition GetResourcesByKind :: "'c indexer \<Rightarrow> 'c \<Rightarrow> string \<Rightarrow> unstructured list" where
  "GetResourcesByKind ix c kind = ix_ByIndex ix resourceIndex kind c"

definition GetClusterScopedResources :: "'c indexer \<Rightarrow> 'c \<Rightarrow> unstructured list" where
  "GetClusterScopedResources ix c =
     concat (map (\<lambda>v. ix_ByIndex ix clusterIndex v c) (ix_IndexValues ix clusterIndex c))"

definition GetNamespaceScopedResources :: "'c indexer \<Rightarrow> 'c \<Rightarrow> unstructured list" where
  "GetNamespaceScopedResources ix c =
     concat (map (\<lambda>v. ix_ByIndex ix clusterIndex v c) (ix_IndexValues ix clusterIndex c))"

section \<open>Sync\<close>

definition syncWithServer ::
  "'w backup_api \<Rightarrow> 'c indexer \<Rightarrow> Backup \<Rightarrow> 'c \<Rightarrow> ('w bctrl, Backup \<times> goerr option) state" where
  "syncWithServer api ix backup c = updateBackupStatus api backup
     (zero_BackupStatus\<lparr>st_resources := map (\<lambda>u. \<lparr>br_apiVersion = un_apiVersion u, br_kind = un_kind u,
        br_resourceName = meta_name (un_meta u), br_namespace = meta_namespace (un_meta u),
        br_status = ResourceStatusNone\<rparr>) (GetResources ix c)\<rparr>)"

definition Sync ::
  "'w backup_api \<Rightarrow> 'w res_env \<Rightarrow> 'c indexer \<Rightarrow> 'c \<Rightarrow> Backup \<Rightarrow>
   ('w bctrl, ((Backup \<times> goerr option) \<times> 'c) hout) state" where
  "Sync api env ix c backup =
     (if meta_annotations (bk_meta backup) annBackupContentSynced \<noteq> None
      then State_Monad.return (HRet ((backup, None), c))
      else do {
        p \<leftarrow> ask (\<lambda>w. populateCacheFromBackupSpec env ix backup w c);
        case p of
          HPanic \<Rightarrow> State_Monad.return HPanic
        | HHang \<Rightarrow> State_Monad.return HHang
        | HRet (Some err, c1) \<Rightarrow> State_Monad.return (HRet ((backup, Some err), c1))
        | HRet (None, c1) \<Rightarrow> do {
            r \<leftarrow> syncWithServer api ix backup c1;
            State_Monad.return (HRet (r, c1)) } })"

section \<open>What is selected\<close>

text \<open>When a specification entry names a resource, read off the API documentation as the code
  has it.\<close>

definition hits :: "(string \<Rightarrow> (string \<Rightarrow> bool) option) \<Rightarrow> resource_spec \<Rightarrow> unstructured \<Rightarrow> bool" where
  "hits compile s u \<longleftrightarrow> rs_kind s = un_kind u \<and>
     (if rs_isRegex s then (\<exists>re. compile (rs_name s) = Some re \<and> re (meta_name (un_meta u)))
      else meta_name (un_meta u) = [] \<or> meta_name (un_meta u) = rs_name s)"

lemma spec_hit_iff:
  "spec_hit compile (un_kind u) (meta_name (un_meta u)) ss \<longleftrightarrow> (\<exists>s \<in> set ss. hits compile s u)"
  by (induction ss) (auto simp: hits_def split: option.splits)

text \<open>The filter loop decides exactly this: a resource is backed up when nothing owns it,
  no exclude entry hits it, and either there is no include entry or one hits it. Exclusion wins
  over inclusion, whatever the order of the entries.\<close>

theorem isResourceNeedBackup_iff:
  "isResourceNeedBackup compile backup u \<longleftrightarrow>
     meta_ownerReferences (un_meta u) = None \<and>
     \<not> (\<exists>s \<in> set (sp_excludeResources (bk_spec backup)). hits compile s u) \<and>
     (sp_includeResources (bk_spec backup) = [] \<or>
      (\<exists>s \<in> set (sp_includeResources (bk_spec backup)). hits compile s u))"
  by (simp add: isResourceNeedBackup_def spec_hit_iff)

lemma ran_upd_subset: "ran (m(k \<mapsto> u)) \<subseteq> insert u (ran m)"
  by (auto simp: ran_def)

lemma add_cached_subset:
  assumes "indexer_laws ix its" "ix_Add ix uidKeyFunc u c = (e, c')"
  shows "cached its c' \<subseteq> insert u (cached its c)"
proof -
  have "its (snd (ix_Add ix uidKeyFunc u c)) = (its c)(meta_uid (un_meta u) \<mapsto> u)"
    using assms(1) by (simp add: indexer_laws_def uidKeyFunc_def)
  then show ?thesis using assms(2) ran_upd_subset by (simp add: cached_def)
qed

lemma add_all_subset:
  "indexer_laws ix its \<Longrightarrow> add_all ix us c = (e, c') \<Longrightarrow> cached its c' \<subseteq> set us \<union> cached its c"
proof (induction us arbitrary: c)
  case Nil
  then show ?case by simp
next
  case (Cons u us)
  obtain e1 c1 where a: "ix_Add ix uidKeyFunc u c = (e1, c1)" by fastforce
  have "cached its c1 \<subseteq> insert u (cached its c)" by (rule add_cached_subset [OF Cons.prems(1) a])
  then show ?case using Cons a by (auto split: option.splits)
qed

text \<open>What the API promises of the two reads: a list request for a namespace returns objects of
  that namespace, and a namespace converts to an object of its kind and name.\<close>

definition api_reads :: "'w res_env \<Rightarrow> bool" where
  "api_reads env \<longleftrightarrow>
     (\<forall>a ns sel w us. re_list env a ns sel w = Inr us \<longrightarrow>
        (\<forall>u \<in> set us. meta_namespace (un_meta u) = ns)) \<and>
     (\<forall>m. un_kind (re_nsUnstructured env m) = ''Namespace'' \<and>
          meta_name (un_meta (re_nsUnstructured env m)) = meta_name m) \<and>
     (\<forall>ms. set (re_order env ms) = set ms)"

definition selection_ok :: "'w res_env \<Rightarrow> Backup \<Rightarrow> unstructured \<Rightarrow> bool" where
  "selection_ok env b u \<longleftrightarrow>
     un_kind u = ''Namespace'' \<and> namespace_selected b (meta_name (un_meta u)) \<or>
     namespace_selected b (meta_namespace (un_meta u)) \<and> un_kind u \<notin> excludeResourceType \<and>
     isResourceNeedBackup (re_compile env) b u"

text \<open>The namespaces of a specification.\<close>

definition in_spec_namespaces :: "Backup \<Rightarrow> string \<Rightarrow> bool" where
  "in_spec_namespaces b n \<longleftrightarrow> n \<notin> set (sp_excludeNamespaces (bk_spec b)) \<and>
     (sp_includeNamespaces (bk_spec b) = [] \<or> n \<in> set (sp_includeNamespaces (bk_spec b)))"

lemma namespace_selected_iff: "namespace_selected b n \<longleftrightarrow> in_spec_namespaces b n"
  by (auto simp: namespace_selected_def in_spec_namespaces_def Let_def)

lemma collectNamespaceResources_sound:
  assumes "api_reads env" "collectNamespaceResources env ns sel w apis = Inr rs" "u \<in> set rs"
  shows "meta_namespace (un_meta u) = ns \<and> (\<exists>a \<in> set apis. un_kind u = ar_kind a)"
  using assms(2,3)
proof (induction apis arbitrary: rs)
  case (Cons a as)
  have ns: "meta_namespace (un_meta x) = ns" if "re_list env a ns sel w = Inr us" "x \<in> set us" for us x
    using assms(1) that unfolding api_reads_def by blast
  show ?case
  proof (cases "re_list env a ns sel w")
    case (Inl e)
    then show ?thesis using Cons by (auto split: if_splits)
  next
    case (Inr us)
    then show ?thesis using Cons ns [OF Inr] by (auto split: sum.splits)
  qed
qed simp

lemma collect_all_ok:
  assumes laws: "indexer_laws ix its" and api: "api_reads env"
    and kinds: "\<forall>a \<in> set apis. ar_kind a \<notin> excludeResourceType"
  shows "collect_all env ix b w apis sel nss c = (e, c') \<Longrightarrow> \<forall>n \<in> set nss. namespace_selected b n \<Longrightarrow>
     \<forall>u \<in> cached its c. selection_ok env b u \<Longrightarrow> \<forall>u \<in> cached its c'. selection_ok env b u"
proof (induction nss arbitrary: c)
  case Nil
  then show ?case by simp
next
  case (Cons ns nss)
  show ?case
  proof (cases "collectNamespaceResources env ns sel w apis")
    case (Inl err)
    then show ?thesis using Cons.prems by simp
  next
    case (Inr rs)
    obtain e1 c1 where a: "add_all ix (applyResourceFilters (re_compile env) b rs) c = (e1, c1)"
      by fastforce
    have "selection_ok env b u" if "u \<in> set (applyResourceFilters (re_compile env) b rs)" for u
      using that collectNamespaceResources_sound [OF api Inr, of u] kinds Cons.prems(2)
      by (auto simp: applyResourceFilters_def selection_ok_def)
    then have c1: "\<forall>u \<in> cached its c1. selection_ok env b u"
      using add_all_subset [OF laws a] Cons.prems(3) by blast
    show ?thesis
    proof (cases e1)
      case None
      then show ?thesis using Cons.IH [of c1] Cons.prems c1 Inr a by simp
    next
      case (Some err)
      then show ?thesis using Cons.prems c1 Inr a by simp
    qed
  qed
qed

lemma filteredAPIResources_kinds:
  "filteredAPIResources env b = Inr apis \<Longrightarrow> a \<in> set apis \<Longrightarrow> ar_kind a \<notin> excludeResourceType"
  by (auto simp: filteredAPIResources_def filterApiResourceByBackup_def Let_def
      filterApiResourceByExcludeResources_def filterApiResourceByIncludeResources_def
      filteredAPIResourcesByAnnotation_def split: sum.splits if_splits prod.splits)

text \<open>C34: nothing outside the specification is selected. Every object in the cache before dependencies are resolved
  is a \<^verbatim>\<open>Namespace\<close>, or lies in a namespace, that is not excluded and, if namespaces are listed to include, is one of
  these. Namespaces go in without the resource filter; every other object is not of one of the four excluded
  types, has no owner, is hit by no exclude entry, and is hit by an include entry if there are any. What \<open>hits\<close>
  says is how the code compares entries: an entry that is no regular expression is hit by its exact name.\<close>

theorem collectFromBackupSpec_sound:
  assumes laws: "indexer_laws ix its" and api: "api_reads env" and empty: "cached its c = {}"
    and run: "collectFromBackupSpec env ix b w c = (e, c')" and u: "u \<in> cached its c'"
  shows "un_kind u = ''Namespace'' \<and> in_spec_namespaces b (meta_name (un_meta u)) \<or>
     in_spec_namespaces b (meta_namespace (un_meta u)) \<and> un_kind u \<notin> excludeResourceType \<and>
       meta_ownerReferences (un_meta u) = None \<and>
       \<not> (\<exists>s \<in> set (sp_excludeResources (bk_spec b)). hits (re_compile env) s u) \<and>
       (sp_includeResources (bk_spec b) = [] \<or> (\<exists>s \<in> set (sp_includeResources (bk_spec b)). hits (re_compile env) s u))"
proof -
  obtain e1 c1 where c1: "collectNamespacesWithBackupSpec env ix b w c = (e1, c1)" by fastforce
  have ns_only: "\<forall>u \<in> cached its c1. un_kind u = ''Namespace'' \<and> namespace_selected b (meta_name (un_meta u))"
  proof (cases "re_namespaces env w")
    case (Inl err)
    then show ?thesis using c1 empty by (auto simp: collectNamespacesWithBackupSpec_def split: if_splits)
  next
    case (Inr nss)
    let ?nss = "filter (\<lambda>m. namespace_selected b (meta_name m)) nss"
    have "cached its c1 \<subseteq> re_nsUnstructured env ` set (re_order env ?nss)"
      using add_all_subset [OF laws c1 [unfolded collectNamespacesWithBackupSpec_def Inr sum.case]] empty
      by simp
    moreover have "set (re_order env ?nss) = set ?nss"
        "un_kind (re_nsUnstructured env m) = ''Namespace''"
        "meta_name (un_meta (re_nsUnstructured env m)) = meta_name m" for m
      using api unfolding api_reads_def by blast+
    ultimately show ?thesis by auto
  qed
  have vals: "\<forall>n \<in> set (getCachedNamespaceNames ix c1). namespace_selected b n"
    using ns_only laws
    by (auto simp: getCachedNamespaceNames_def indexer_laws_def cached_def namespaceIndex_def)
  have base: "\<forall>u \<in> cached its c1. selection_ok env b u" using ns_only by (simp add: selection_ok_def)
  have "\<forall>u \<in> cached its c'. selection_ok env b u"
  proof (cases "filteredAPIResources env b")
    case (Inl err)
    then show ?thesis using run empty by (simp add: collectFromBackupSpec_def)
  next
    case (Inr apis)
    have kinds: "\<forall>a \<in> set apis. ar_kind a \<notin> excludeResourceType"
      using filteredAPIResources_kinds [OF Inr] by blast
    have all: "\<forall>u \<in> cached its c2. selection_ok env b u"
      if "collect_all env ix b w apis sel (getCachedNamespaceNames ix c1) c1 = (e2, c2)" for sel e2 c2
      by (rule collect_all_ok [OF laws api kinds that vals base])
    let ?sel = "case sp_label (bk_spec b) of None \<Rightarrow> Inr [] | Some l \<Rightarrow> re_selector env l"
    have "(e, c') = (case e1 of Some err \<Rightarrow> (Some err, c1) | None \<Rightarrow> (case ?sel of
        Inl err \<Rightarrow> (Some (wrap err ''invalid label selector''), c1)
      | Inr sel \<Rightarrow> collect_all env ix b w apis sel (getCachedNamespaceNames ix c1) c1))"
      using run unfolding collectFromBackupSpec_def Inr sum.case c1 prod.case Let_def
      by (cases e1) auto
    then have "c' = c1 \<or> (\<exists>sel. collect_all env ix b w apis sel (getCachedNamespaceNames ix c1) c1 = (e, c'))"
      by (cases e1; cases ?sel) (simp_all, (metis prod.collapse)?)
    then show ?thesis using base all by (elim disjE exE) simp_all
  qed
  then have "selection_ok env b u" using u by blast
  then show ?thesis by (auto simp: selection_ok_def namespace_selected_iff isResourceNeedBackup_iff)
qed

section \<open>Where the code departs from its intent\<close>

text \<open>
  The API documents an empty name in a resource specification as \<open>any name\<close>, and the kind filter
  honours it. The resource filter compares the resource's own name with the empty string instead,
  so an include entry that gives only a kind selects no named resource.
\<close>

lemma include_kind_only_selects_nothing:
  assumes "sp_includeResources (bk_spec b) = [\<lparr>rs_name = [], rs_kind = k, rs_isRegex = False\<rparr>]"
    and "meta_name (un_meta u) \<noteq> []"
  shows "\<not> isResourceNeedBackup compile b u"
  using assms by (auto simp: isResourceNeedBackup_iff hits_def)

text \<open>The namespaced and the cluster scoped accessors return the same objects.\<close>

lemma GetNamespaceScopedResources_is_cluster_scoped:
  assumes "indexer_laws ix its" "u \<in> set (GetNamespaceScopedResources ix c)"
  shows "meta_namespace (un_meta u) = []"
  using assms by (auto simp: GetNamespaceScopedResources_def indexer_laws_def clusterIndex_def split: if_splits)

section \<open>Witnesses\<close>

definition demo_res :: "'w res_env" where
  "demo_res = \<lparr>re_apiResources = Inr [\<lparr>ar_name = ''pods'', ar_group = [], ar_version = ''v1'', ar_kind = ''Pod''\<rparr>],
     re_namespaces = (\<lambda>_. Inr [zero_meta\<lparr>meta_name := ''app'', meta_uid := ''u0''\<rparr>]),
     re_order = (\<lambda>ms. ms),
     re_nsUnstructured = (\<lambda>m. \<lparr>un_apiVersion = ''v1'', un_kind = ''Namespace'', un_meta = m, un_object = []\<rparr>),
     re_selector = Inr,
     re_list = (\<lambda>a ns sel w. Inr [\<lparr>un_apiVersion = [], un_kind = [], un_meta =
        zero_meta\<lparr>meta_name := ''web'', meta_namespace := ns, meta_uid := ''u1''\<rparr>, un_object = []\<rparr>]),
     re_compile = (\<lambda>_. None), re_dep = demo_dep, re_fuel = 10\<rparr>"

lemma demo_res_reads: "api_reads demo_res"
  by (auto simp: api_reads_def demo_res_def)

definition demo_web :: unstructured where
  "demo_web = \<lparr>un_apiVersion = ''v1'', un_kind = ''Pod'',
     un_meta = zero_meta\<lparr>meta_name := ''web'', meta_namespace := ''app'', meta_uid := ''u1''\<rparr>, un_object = []\<rparr>"

lemma demo_collect_run:
  "collectFromBackupSpec demo_res alist_indexer zero_Backup () [] =
     (None, [(''u1'', demo_web), (''u0'', re_nsUnstructured demo_res
        (zero_meta\<lparr>meta_name := ''app'', meta_uid := ''u0''\<rparr>))])"
  by (simp add: collectFromBackupSpec_def filteredAPIResources_def demo_res_def excludeResourceType_def
      filteredAPIResourcesByAnnotation_def filterApiResourceByBackup_def
      filterApiResourceByExcludeResources_def filterApiResourceByIncludeResources_def
      zero_Backup_def zero_BackupSpec_def zero_meta_def collectNamespacesWithBackupSpec_def
      namespace_selected_def getCachedNamespaceNames_def alist_indexer_def uidKeyFunc_def
      namespaceIndex_def applyResourceFilters_def isResourceNeedBackup_def demo_web_def gv_string_def)

theorem isResourceNeedBackup_iff_witness: "isResourceNeedBackup (\<lambda>_. None) zero_Backup demo_web"
  using isResourceNeedBackup_iff [of "\<lambda>_. None" zero_Backup demo_web]
  by (simp add: zero_Backup_def zero_BackupSpec_def demo_web_def zero_meta_def)

theorem collectFromBackupSpec_sound_witness:
  "in_spec_namespaces zero_Backup (meta_namespace (un_meta demo_web)) \<and>
     un_kind demo_web \<notin> excludeResourceType"
  using collectFromBackupSpec_sound [OF alist_indexer_laws demo_res_reads _ demo_collect_run, of demo_web]
  by (simp add: cached_def demo_web_def)

end
