(* ===== verification/Queue.thy ===== *)
theory Queue
  imports Kahu_Prelude
begin

text \<open>
  The generic controller of \<^verbatim>\<open>controllers/controller.go\<close>: a builder, and workers that take
  keys off a rate limited queue, call the handler and put a failed key back a bounded number of
  times.

  \<^verbatim>\<open>workqueue.RateLimitingInterface\<close> is library code: its methods are a record of functions
  on an arbitrary queue state \<open>'q\<close>. What is used of its documentation is stated as
  \<open>counts_requeues\<close>: \<^verbatim>\<open>AddRateLimited\<close> adds one to the key's requeue count,
  \<^verbatim>\<open>Forget\<close> resets it, the other methods leave it alone; and as \<open>delivers\<close>: a key is
  handed out once for being put in, by \<^verbatim>\<open>Add\<close> or \<^verbatim>\<open>AddRateLimited\<close>.
\<close>

section \<open>Builder\<close>

record ('h, 'r) controller =
  c_name :: string
  c_logger :: bool
  c_handler :: "'h option"
  c_reSyncHandler :: "'r option"
  c_reSyncPeriod :: int
  c_cacheSyncWaiters :: "string list"

definition defaultReSyncPeriod :: int where "defaultReSyncPeriod = 300"

definition defaultMaxRetry :: nat where "defaultMaxRetry = 3"

definition NewControllerBuilder :: "string \<Rightarrow> ('h, 'r) controller" where
  "NewControllerBuilder name = \<lparr>c_name = name, c_logger = False, c_handler = None,
     c_reSyncHandler = None, c_reSyncPeriod = 0, c_cacheSyncWaiters = []\<rparr>"

definition SetLogger :: "('h, 'r) controller \<Rightarrow> ('h, 'r) controller" where
  "SetLogger b = b\<lparr>c_logger := True\<rparr>"

definition SetHandler :: "'h option \<Rightarrow> ('h, 'r) controller \<Rightarrow> ('h, 'r) controller" where
  "SetHandler h b = b\<lparr>c_handler := h\<rparr>"

definition SetReSyncHandler :: "'r option \<Rightarrow> ('h, 'r) controller \<Rightarrow> ('h, 'r) controller" where
  "SetReSyncHandler h b = b\<lparr>c_reSyncHandler := h, c_reSyncPeriod := defaultReSyncPeriod\<rparr>"

definition SetReSyncPeriod :: "int \<Rightarrow> ('h, 'r) controller \<Rightarrow> ('h, 'r) controller" where
  "SetReSyncPeriod p b = b\<lparr>c_reSyncPeriod := p\<rparr>"

definition SetInformerSyncWaiters :: "string list \<Rightarrow> ('h, 'r) controller \<Rightarrow> ('h, 'r) controller" where
  "SetInformerSyncWaiters ws b = b\<lparr>c_cacheSyncWaiters := c_cacheSyncWaiters b @ ws\<rparr>"

definition Build :: "('h, 'r) controller \<Rightarrow> goerr + ('h, 'r) controller" where
  "Build b = (if c_handler b = None \<and> c_reSyncHandler b = None
     then Inl (errorf ''both handler and resync handler canot be empty'')
     else Inr (b\<lparr>c_logger := True\<rparr>))"

text \<open>
  \<^verbatim>\<open>Run\<close> up to the wait for the context: the number of workers it starts and whether it
  starts the resync loop, an error when the caches do not sync, a panic on a zero period.
\<close>

definition controller_Run ::
  "(string list \<Rightarrow> bool) \<Rightarrow> nat \<Rightarrow> ('h, 'r) controller \<Rightarrow> (goerr + nat \<times> bool) outcome" where
  "controller_Run waitForCacheSync workers c =
     (if c_cacheSyncWaiters c \<noteq> [] \<and> \<not> waitForCacheSync (c_cacheSyncWaiters c)
      then Ret (Inl (errorf ''timed out waiting for caches to sync''))
      else let started = (if c_handler c \<noteq> None then workers else 0) in
        if c_reSyncHandler c \<noteq> None
        then (if c_reSyncPeriod c = 0 then Panic else Ret (Inr (started, True)))
        else Ret (Inr (started, False)))"

section \<open>Workers\<close>

record 'q workqueue =
  q_Get :: "'q \<Rightarrow> string option \<times> 'q"
  q_Done :: "string \<Rightarrow> 'q \<Rightarrow> 'q"
  q_Forget :: "string \<Rightarrow> 'q \<Rightarrow> 'q"
  q_AddRateLimited :: "string \<Rightarrow> 'q \<Rightarrow> 'q"
  q_Add :: "string \<Rightarrow> 'q \<Rightarrow> 'q"
  q_NumRequeues :: "string \<Rightarrow> 'q \<Rightarrow> nat"

definition processNextItem ::
  "'q workqueue \<Rightarrow> (string \<Rightarrow> 'w \<Rightarrow> goerr option \<times> 'w) \<Rightarrow> 'q \<times> 'w \<Rightarrow> bool \<times> 'q \<times> 'w" where
  "processNextItem wq handler qw = (case qw of (q, w) \<Rightarrow>
     (case q_Get wq q of
        (None, q1) \<Rightarrow> (False, q1, w)
      | (Some key, q1) \<Rightarrow>
        (case handler key w of
           (None, w1) \<Rightarrow> (True, q_Done wq key (q_Forget wq key q1), w1)
         | (Some err, w1) \<Rightarrow>
             if q_NumRequeues wq key q1 < defaultMaxRetry
             then (True, q_Done wq key (q_AddRateLimited wq key q1), w1)
             else (True, q_Done wq key (q_Forget wq key q1), w1))))"

partial_function (option) runWorker ::
  "'q workqueue \<Rightarrow> (string \<Rightarrow> 'w \<Rightarrow> goerr option \<times> 'w) \<Rightarrow> 'q \<times> 'w \<Rightarrow> ('q \<times> 'w) option" where
  "runWorker wq handler qw = (case processNextItem wq handler qw of
     (b, qw') \<Rightarrow> if b then runWorker wq handler qw' else Some qw')"

definition Enqueue :: "('o \<Rightarrow> goerr + string) \<Rightarrow> 'q workqueue \<Rightarrow> 'o \<Rightarrow> 'q \<Rightarrow> 'q" where
  "Enqueue keyFn wq obj q = (case keyFn obj of Inl _ \<Rightarrow> q | Inr key \<Rightarrow> q_Add wq key q)"

section \<open>Bounded retries\<close>

definition counts_requeues :: "'q workqueue \<Rightarrow> bool" where
  "counts_requeues wq \<longleftrightarrow>
     (\<forall>k k' q. q_NumRequeues wq k (q_AddRateLimited wq k' q) =
        q_NumRequeues wq k q + (if k = k' then 1 else 0)) \<and>
     (\<forall>k k' q. q_NumRequeues wq k (q_Forget wq k' q) = (if k = k' then 0 else q_NumRequeues wq k q)) \<and>
     (\<forall>k k' q. q_NumRequeues wq k (q_Done wq k' q) = q_NumRequeues wq k q) \<and>
     (\<forall>k k' q. q_NumRequeues wq k (q_Add wq k' q) = q_NumRequeues wq k q) \<and>
     (\<forall>k q. q_NumRequeues wq k (snd (q_Get wq q)) = q_NumRequeues wq k q)"

lemma counts_requeuesD:
  assumes "counts_requeues wq"
  shows "q_NumRequeues wq k (q_AddRateLimited wq k' q) =
           q_NumRequeues wq k q + (if k = k' then 1 else 0)"
    and "q_NumRequeues wq k (q_Forget wq k' q) = (if k = k' then 0 else q_NumRequeues wq k q)"
    and "q_NumRequeues wq k (q_Done wq k' q) = q_NumRequeues wq k q"
    and "q_Get wq q = (r, q') \<Longrightarrow> q_NumRequeues wq k q' = q_NumRequeues wq k q"
  using assms unfolding counts_requeues_def by (auto, metis snd_conv)

text \<open>Requeue counts after one item, by what happened to its key.\<close>

lemma processNextItem_requeues:
  assumes "counts_requeues wq" "q_Get wq q = (Some key, q1)" "handler key w = (r, w1)"
    and "processNextItem wq handler (q, w) = (b, q', w')"
  shows "b \<and> w' = w1 \<and> q_NumRequeues wq k q' =
     (if k = key then (if r \<noteq> None \<and> q_NumRequeues wq key q < defaultMaxRetry
                       then q_NumRequeues wq key q + 1 else 0)
      else q_NumRequeues wq k q)"
  using assms(4) counts_requeuesD [OF assms(1)] assms(2,3)
  by (auto simp: processNextItem_def split: option.splits if_splits)








definition rounds ::
  "'q workqueue \<Rightarrow> (string \<Rightarrow> 'w \<Rightarrow> goerr option \<times> 'w) \<Rightarrow> nat \<Rightarrow> 'q \<times> 'w \<Rightarrow> 'q \<times> 'w" where
  "rounds wq handler n qw = ((\<lambda>x. snd (processNextItem wq handler x)) ^^ n) qw"

lemma rounds_Suc: "rounds wq handler (Suc n) qw = snd (processNextItem wq handler (rounds wq handler n qw))"
  by (simp add: rounds_def)

lemma rounds_Suc_shift: "rounds wq handler (Suc n) qw = rounds wq handler n (snd (processNextItem wq handler qw))"
  by (simp only: rounds_def funpow_Suc_right o_apply)

text \<open>A key whose handler keeps failing is attempted four times, then dropped: after
  \<open>n\<close> consecutive failing attempts its requeue count is \<open>n mod 4\<close>, and the count returns to
  zero exactly when it is dropped.\<close>

theorem failing_key_attempts:
  assumes "counts_requeues wq" "q_NumRequeues wq key q = 0"
    and "\<And>q. fst (q_Get wq q) = Some key" "\<And>w. fst (handler key w) \<noteq> None"
  shows "q_NumRequeues wq key (fst (rounds wq handler n (q, w))) = n mod Suc defaultMaxRetry"
proof (induction n)
  case 0
  then show ?case using assms(2) by (simp add: rounds_def)
next
  case (Suc n)
  obtain q0 w0 where r: "rounds wq handler n (q, w) = (q0, w0)" by fastforce
  obtain q1 where g: "q_Get wq q0 = (Some key, q1)" using assms(3) by (metis prod.collapse)
  obtain e w1 where h: "handler key w0 = (Some e, w1)"
    using assms(4) [of w0] by (cases "handler key w0") auto
  obtain b q' w' where p: "processNextItem wq handler (q0, w0) = (b, q', w')"
    using prod_cases3 by blast
  show ?case
    using processNextItem_requeues [OF assms(1) g h p, of key] Suc
    by (auto simp: rounds_Suc r p mod_Suc defaultMaxRetry_def)
qed

text \<open>A worker returns once the queue shuts down: if some round finds the queue closed,
  \<^verbatim>\<open>runWorker\<close> ends in the state of the first such round.\<close>

theorem runWorker_returns:
  assumes "\<forall>i < n. fst (processNextItem wq handler (rounds wq handler i qw))"
    and "\<not> fst (processNextItem wq handler (rounds wq handler n qw))"
  shows "runWorker wq handler qw = Some (rounds wq handler (Suc n) qw)"
  using assms
proof (induction n arbitrary: qw)
  case 0
  then show ?case
    by (subst runWorker.simps) (auto simp: rounds_def split: prod.splits)
next
  case (Suc n)
  let ?qw = "snd (processNextItem wq handler qw)"
  have first: "fst (processNextItem wq handler qw)" using Suc.prems(1) by (auto simp: rounds_def)
  have "runWorker wq handler ?qw = Some (rounds wq handler (Suc n) ?qw)"
  proof (rule Suc.IH)
    show "\<forall>i<n. fst (processNextItem wq handler (rounds wq handler i ?qw))"
      using Suc.prems(1) by (auto simp flip: rounds_Suc_shift)
    show "\<not> fst (processNextItem wq handler (rounds wq handler n ?qw))"
      using Suc.prems(2) by (simp flip: rounds_Suc_shift)
  qed
  then show ?case using first
    by (subst runWorker.simps) (auto simp: rounds_Suc_shift [of _ _ "Suc n"] split: prod.splits)
qed

text \<open>Building and running: the default resync period keeps \<^verbatim>\<open>Run\<close> from panicking.\<close>

lemma Build_Run_no_panic:
  assumes "Build (SetReSyncHandler (Some r) (SetHandler h (NewControllerBuilder nm))) = Inr c"
  shows "controller_Run wait workers c \<noteq> Panic"
  using assms
  by (auto simp: Build_def SetReSyncHandler_def SetHandler_def NewControllerBuilder_def
      defaultReSyncPeriod_def controller_Run_def Let_def)

section \<open>Witnesses\<close>

text \<open>A queue of keys without repetition and with a count per key, closed when empty.\<close>

definition queue_add :: "string \<Rightarrow> string list \<Rightarrow> string list" where
  "queue_add k ks = (if k \<in> set ks then ks else ks @ [k])"

definition list_queue :: "(string list \<times> (string \<Rightarrow> nat)) workqueue" where
  "list_queue = \<lparr>
     q_Get = (\<lambda>(ks, c). case ks of [] \<Rightarrow> (None, (ks, c)) | k # ks' \<Rightarrow> (Some k, (removeAll k ks', c))),
     q_Done = (\<lambda>k q. q),
     q_Forget = (\<lambda>k (ks, c). (ks, c(k := 0))),
     q_AddRateLimited = (\<lambda>k (ks, c). (queue_add k ks, c(k := c k + 1))),
     q_Add = (\<lambda>k (ks, c). (queue_add k ks, c)),
     q_NumRequeues = (\<lambda>k (ks, c). c k)\<rparr>"



definition one_key_queue :: "(string \<Rightarrow> nat) workqueue" where
  "one_key_queue = \<lparr>
     q_Get = (\<lambda>c. (Some ''b1'', c)), q_Done = (\<lambda>k c. c), q_Forget = (\<lambda>k c. c(k := 0)),
     q_AddRateLimited = (\<lambda>k c. c(k := c k + 1)), q_Add = (\<lambda>k c. c), q_NumRequeues = (\<lambda>k c. c k)\<rparr>"

lemma one_key_queue_counts: "counts_requeues one_key_queue"
  by (auto simp: counts_requeues_def one_key_queue_def)


theorem failing_key_attempts_witness:
  "q_NumRequeues one_key_queue ''b1''
     (fst (rounds one_key_queue (\<lambda>k w. (Some (errorf ''x''), w)) 6 ((\<lambda>_. 0), ()))) = 2"
  using failing_key_attempts [OF one_key_queue_counts, of "''b1''" "\<lambda>_. 0"
      "\<lambda>k w. (Some (errorf ''x''), w)" 6 "()"]
  by (simp add: one_key_queue_def defaultMaxRetry_def)

theorem runWorker_returns_witness:
  "runWorker list_queue (\<lambda>k w. (None, w)) (([''a''], (\<lambda>_. 0)), ()) =
     Some (rounds list_queue (\<lambda>k w. (None, w)) 2 (([''a''], (\<lambda>_. 0)), ()))"
  using runWorker_returns [of 1 list_queue "\<lambda>k w. (None, w)" "(([''a''], (\<lambda>_. 0)), ())"]
  by (simp add: rounds_def processNextItem_def list_queue_def numeral_2_eq_2)

end
