(* ===== verification/Backup_Controller.thy ===== *)
theory Backup_Controller
  imports Backup_Metadata Backup_Resources Queue
begin

text \<open>
  The backup controller, \<^verbatim>\<open>controllers/backup/backupcontroller.go\<close> and the volume part of
  \<^verbatim>\<open>backupvolume.go\<close>: the queue handler, initialisation, validation, the stage machine of
  \<^verbatim>\<open>syncBackup\<close> and deletion.

  The hook executor and the volume handler are interface values of the controller struct and are
  functions here; so are the listers and the clients. A handler returns an optional error, panics,
  or hangs (when dependency resolution does not end).
\<close>

section \<open>Environment\<close>

record 'w volume_ops =
  vo_groupByPVCs :: "string \<Rightarrow> pvc list \<Rightarrow> 'w \<Rightarrow> (goerr + string) \<times> 'w"
  vo_snapshotByGroup :: "string \<Rightarrow> 'w \<Rightarrow> (goerr + string) \<times> 'w"
  vo_snapshotApply :: "string \<Rightarrow> 'w \<Rightarrow> goerr option \<times> 'w"
  vo_waitForSnapshot :: "string \<Rightarrow> string \<Rightarrow> 'w \<Rightarrow> goerr option \<times> 'w"
  vo_backupBySnapshot :: "string \<Rightarrow> 'w \<Rightarrow> (goerr + string) \<times> 'w"
  vo_backupApply :: "string \<Rightarrow> string \<Rightarrow> 'w \<Rightarrow> goerr option \<times> 'w"

record ('w, 'c) ctrl_env =
  ce_meta :: "'w meta_env"
  ce_res :: "'w res_env"
  ce_ix :: "'c indexer"
  ce_newCache :: 'c
  ce_splitKey :: "string \<Rightarrow> goerr + string"
  ce_backupGet :: "string \<Rightarrow> 'w \<Rightarrow> goerr + Backup"
  ce_backupList :: "'w \<Rightarrow> goerr + Backup list"
  ce_hook :: "BackupSpec \<Rightarrow> HookPhase \<Rightarrow> 'w \<Rightarrow> goerr option \<times> 'w"
  ce_deleteVBC :: "string \<Rightarrow> 'w \<Rightarrow> goerr option \<times> 'w"
  ce_volume :: "'w volume_ops"
  ce_compile :: "string \<Rightarrow> (string \<Rightarrow> bool) option"

abbreviation ce_api :: "('w, 'c) ctrl_env \<Rightarrow> 'w backup_api" where "ce_api env \<equiv> me_api (ce_meta env)"

definition EventPreHookFailed :: string where "EventPreHookFailed = ''PreHookFailed''"
definition EventPostHookFailed :: string where "EventPostHookFailed = ''PostHookFailed''"
definition EventVolumeBackupFailed :: string where "EventVolumeBackupFailed = ''VolumeBackupFailed''"
definition EventVolumeBackupSuccess :: string where "EventVolumeBackupSuccess = ''VolumeBackupSuccess''"
definition EventVolumeBackupScheduled :: string where "EventVolumeBackupScheduled = ''VolumeBackupScheduled''"
definition EventValidationSuccess :: string where "EventValidationSuccess = ''ValidationSuccessful''"

definition set_state ::
  "('w, 'c) ctrl_env \<Rightarrow> Backup \<Rightarrow> BackupStage \<Rightarrow> BackupState \<Rightarrow> string \<Rightarrow> string \<Rightarrow>
   ('w bctrl, Backup \<times> goerr option) state" where
  "set_state env b stage st reason msg =
     updateBackupStatusWithEvent (ce_api env) b (status_of stage st) reason msg"

definition exec_hook :: "('w, 'c) ctrl_env \<Rightarrow> Backup \<Rightarrow> HookPhase \<Rightarrow> ('w bctrl, goerr option) state" where
  "exec_hook env b ph = call (ce_hook env (bk_spec b) ph) (\<lambda>e. EvHook ph (e = None))"

section \<open>Volumes\<close>

fun to_pvcs :: "'w dep_env \<Rightarrow> unstructured list \<Rightarrow> goerr + pvc list" where
  "to_pvcs env [] = Inr []"
| "to_pvcs env (u # us) = (case de_toPVC env u of Inl err \<Rightarrow> Inl err
     | Inr p \<Rightarrow> (case to_pvcs env us of Inl err \<Rightarrow> Inl err | Inr ps \<Rightarrow> Inr (p # ps)))"

definition getVolumes :: "('w, 'c) ctrl_env \<Rightarrow> 'c \<Rightarrow> goerr + pvc list" where
  "getVolumes env resources = to_pvcs (re_dep (ce_res env)) (GetResourcesByKind (ce_ix env) resources PVC_kind)"

definition processVolumeBackup ::
  "('w, 'c) ctrl_env \<Rightarrow> Backup \<Rightarrow> 'c \<Rightarrow> ('w bctrl, Backup \<times> goerr option) state" where
  "processVolumeBackup env backup resources = (let vo = ce_volume env in
     case getVolumes env resources of
       Inl err \<Rightarrow> do {
         (_, e) \<leftarrow> set_state env backup BackupStageNone BackupStateFailed EventVolumeBackupFailed
                    ''Volume backup validation failed. '';
         State_Monad.return (backup, case e of Some x \<Rightarrow> Some (wrap x ''Volume backup validation failed'')
                             | None \<Rightarrow> Some err) }
     | Inr pvcs \<Rightarrow>
        if length pvcs = 0 then annotateBackup (ce_api env) annVolumeBackupCompleted backup
        else do {
          g \<leftarrow> call (vo_groupByPVCs vo (bk_name backup) pvcs) (\<lambda>r. EvVolume ''group'' (\<not> isl r));
          case g of Inl err \<Rightarrow> State_Monad.return (backup, Some err)
          | Inr volumeGroup \<Rightarrow> do {
          sn \<leftarrow> call (vo_snapshotByGroup vo volumeGroup) (\<lambda>r. EvVolume ''snapshot'' (\<not> isl r));
          case sn of Inl err \<Rightarrow> State_Monad.return (backup, Some err)
          | Inr snapshotter \<Rightarrow> do {
          e1 \<leftarrow> call (vo_snapshotApply vo snapshotter) (\<lambda>e. EvVolume ''snapshot-apply'' (e = None));
          if e1 \<noteq> None then State_Monad.return (backup, e1) else do {
          e2 \<leftarrow> call (vo_waitForSnapshot vo snapshotter (bk_name backup)) (\<lambda>e. EvVolume ''snapshot-wait'' (e = None));
          if e2 \<noteq> None then State_Monad.return (backup, e2) else do {
          bp \<leftarrow> call (vo_backupBySnapshot vo snapshotter) (\<lambda>r. EvVolume ''backup'' (\<not> isl r));
          case bp of Inl err \<Rightarrow> State_Monad.return (backup, Some err)
          | Inr backupper \<Rightarrow> do {
          e3 \<leftarrow> call (vo_backupApply vo backupper (bk_name backup)) (\<lambda>e. EvVolume ''backup-apply'' (e = None));
          State_Monad.return (backup, e3) } } } } } })"

definition syncVolumeBackup ::
  "('w, 'c) ctrl_env \<Rightarrow> Backup \<Rightarrow> ('w bctrl, (Backup \<times> goerr option) hout) state" where
  "syncVolumeBackup env backup =
     (if bk_state backup = BackupStateCompleted then State_Monad.return (HRet (backup, None))
      else if meta_annotations (bk_meta backup) annVolumeBackupCompleted \<noteq> None then do {
        r \<leftarrow> set_state env backup BackupStageNone BackupStateCompleted EventVolumeBackupSuccess
               ''Volume backup successful'';
        State_Monad.return (HRet r) }
      else if bk_state backup \<noteq> BackupStateNew then State_Monad.return (HRet (backup, None))
      else do {
        sy \<leftarrow> Sync (ce_api env) (ce_res env) (ce_ix env) (ce_newCache env) backup;
        case sy of
          HPanic \<Rightarrow> State_Monad.return HPanic
        | HHang \<Rightarrow> State_Monad.return HHang
        | HRet ((newBackup, Some err), _) \<Rightarrow> State_Monad.return (HRet (backup, Some err))
        | HRet ((newBackup, None), resources) \<Rightarrow> do {
            (newBackup2, err) \<leftarrow> processVolumeBackup env newBackup resources;
            if err \<noteq> None then State_Monad.return (HRet (newBackup2, err))
            else do {
              r \<leftarrow> set_state env newBackup2 BackupStageNone BackupStateProcessing
                     EventVolumeBackupScheduled ''Volume backup Scheduled'';
              State_Monad.return (HRet r) } } })"

section \<open>Hooks on failure\<close>

definition reversePreHooksExecutionOnFailure ::
  "('w, 'c) ctrl_env \<Rightarrow> Backup \<Rightarrow> string \<Rightarrow> ('w bctrl, unit) state" where
  "reversePreHooksExecutionOnFailure env backup event = do {
     err \<leftarrow> exec_hook env backup PostHookPhase;
     emit (EvRecord event (if err \<noteq> None then ''Post hook execution to revert Pre hook also failed''
       else ''Post hook execution to revert Pre hook is success'')) }"

section \<open>The stage machine\<close>

text \<open>One definition per case of the switch; a case that falls through calls the next one.\<close>

definition sync_finished :: "('w, 'c) ctrl_env \<Rightarrow> Backup \<Rightarrow> ('w bctrl, goerr option hout) state" where
  "sync_finished env backup = do {
     now \<leftarrow> ask (ba_Now (ce_api env));
     (_, err) \<leftarrow> updateBackupStatusWithEvent (ce_api env) backup
        ((status_of BackupStageFinished BackupStateCompleted)\<lparr>st_completionTimestamp := Some now\<rparr>)
        ''Resources'' ''Backup successful'';
     State_Monad.return (HRet err) }"

definition sync_resources :: "('w, 'c) ctrl_env \<Rightarrow> Backup \<Rightarrow> ('w bctrl, goerr option hout) state" where
  "sync_resources env backup = do {
     r \<leftarrow> processMetadataBackup (ce_meta env) backup;
     case r of
       Panic \<Rightarrow> State_Monad.return HPanic
     | Ret (backup1, err) \<Rightarrow>
         if err \<noteq> None then State_Monad.return (HRet err)
         else if bk_state backup1 \<noteq> BackupStateCompleted then State_Monad.return (HRet None)
         else do {
           (backup2, err2) \<leftarrow> set_state env backup1 BackupStageFinished BackupStateNew
              ''Resources'' ''Backup resources successful'';
           if err2 \<noteq> None then State_Monad.return (HRet err2) else sync_finished env backup2 } }"

definition sync_posthook :: "('w, 'c) ctrl_env \<Rightarrow> Backup \<Rightarrow> ('w bctrl, goerr option hout) state" where
  "sync_posthook env backup = do {
     err \<leftarrow> exec_hook env backup PostHookPhase;
     if err \<noteq> None then do {
       (_, err2) \<leftarrow> set_state env backup BackupStageNone BackupStateFailed EventPostHookFailed
          ''post hook execution failed'';
       State_Monad.return (HRet err2) }
     else do {
       emit (EvRecord ''PostHook'' ''Post hook execution successful'');
       (backup1, err3) \<leftarrow> set_state env backup BackupStageResources BackupStateNew
          ''Resources'' ''Start resource backup'';
       if err3 \<noteq> None then State_Monad.return (HRet err3) else sync_resources env backup1 } }"

definition sync_volumes :: "('w, 'c) ctrl_env \<Rightarrow> Backup \<Rightarrow> ('w bctrl, goerr option hout) state" where
  "sync_volumes env backup0 = do {
     v \<leftarrow> syncVolumeBackup env backup0;
     case v of
       HPanic \<Rightarrow> State_Monad.return HPanic
     | HHang \<Rightarrow> State_Monad.return HHang
     | HRet (backup, err) \<Rightarrow>
        if err \<noteq> None then State_Monad.return (HRet err)
        else if bk_state backup = BackupStateFailed then
          (if meta_annotations (bk_meta backup) annVolumeBackupFailHooks \<noteq> None
           then State_Monad.return (HRet None)
           else do {
             (backup1, err1) \<leftarrow> set_state env backup BackupStageNone BackupStateFailed
                EventVolumeBackupFailed ''volume backup failed'';
             if err1 \<noteq> None then State_Monad.return (HRet err1)
             else do {
               reversePreHooksExecutionOnFailure env backup1 EventVolumeBackupFailed;
               annotateBackup (ce_api env) annVolumeBackupFailHooks backup1;
               State_Monad.return (HRet None) } })
        else if bk_state backup \<noteq> BackupStateCompleted then State_Monad.return (HRet None)
        else do {
          (backup2, err2) \<leftarrow> set_state env backup BackupStagePostHook BackupStateProcessing
             ''PostHook'' ''Check and process post hook'';
          if err2 \<noteq> None then State_Monad.return (HRet err2) else sync_posthook env backup2 } }"

definition sync_prehook :: "('w, 'c) ctrl_env \<Rightarrow> Backup \<Rightarrow> ('w bctrl, goerr option hout) state" where
  "sync_prehook env backup0 = do {
     (backup, err) \<leftarrow> set_state env backup0 BackupStageNone BackupStateProcessing
        ''PreHook'' ''Check and process prehook'';
     if err \<noteq> None then State_Monad.return (HRet err)
     else do {
       herr \<leftarrow> exec_hook env backup PreHookPhase;
       if herr \<noteq> None then do {
         (backup1, err1) \<leftarrow> set_state env backup BackupStageNone BackupStateFailed
            EventPreHookFailed ''Pre hook execution failed'';
         if err1 \<noteq> None then State_Monad.return (HRet err1)
         else do {
           reversePreHooksExecutionOnFailure env backup1 EventPreHookFailed;
           State_Monad.return (HRet None) } }
       else do {
         emit (EvRecord ''PreHook'' ''Pre hook execution successful'');
         (backup2, err2) \<leftarrow> set_state env backup BackupStageVolumes BackupStateNew
            ''Volumes'' ''Start backup volumes'';
         if err2 \<noteq> None then State_Monad.return (HRet err2) else sync_volumes env backup2 } } }"

definition sync_initial :: "('w, 'c) ctrl_env \<Rightarrow> Backup \<Rightarrow> ('w bctrl, goerr option hout) state" where
  "sync_initial env backup0 = do {
     (backup, err) \<leftarrow> set_state env backup0 BackupStagePreHook BackupStateNew ''PreHook'' ''Start prehook'';
     if err \<noteq> None then State_Monad.return (HRet err) else sync_prehook env backup }"

definition syncBackup :: "('w, 'c) ctrl_env \<Rightarrow> Backup \<Rightarrow> ('w bctrl, goerr option hout) state" where
  "syncBackup env backup =
     (if (bk_state backup = BackupStateDeleting \<or> bk_state backup = BackupStateFailed) \<and>
         bk_stage backup \<noteq> BackupStageVolumes
      then State_Monad.return (HRet None)
      else (case bk_stage backup of
        BackupStageInitial \<Rightarrow> sync_initial env backup
      | BackupStagePreHook \<Rightarrow> sync_prehook env backup
      | BackupStageVolumes \<Rightarrow> sync_volumes env backup
      | BackupStagePostHook \<Rightarrow> sync_posthook env backup
      | BackupStageResources \<Rightarrow> sync_resources env backup
      | BackupStageFinished \<Rightarrow> sync_finished env backup
      | _ \<Rightarrow> State_Monad.return (HRet None)))"

section \<open>Validation\<close>

definition location_errors :: "('w, 'c) ctrl_env \<Rightarrow> string \<Rightarrow> 'w \<Rightarrow> string list" where
  "location_errors env loc w =
     (if loc = [] then [''metadata location can not be empty'']
      else (case me_locationGet (ce_meta env) loc w of
          Inl err \<Rightarrow> (if IsNotFound (Some err) then [''metadata location ('' @ loc @ '') not found''] else [])
        | Inr l \<Rightarrow> (case me_providerGet (ce_meta env) (bl_provider l) w of
            Inl err \<Rightarrow> (if IsNotFound (Some err)
              then [''invalid provider name ('' @ bl_provider l @ '') configured for metadata location ('' @ loc @ '')'']
              else [])
          | Inr _ \<Rightarrow> [])))"

definition validation_errors :: "('w, 'c) ctrl_env \<Rightarrow> BackupSpec \<Rightarrow> 'w \<Rightarrow> string list" where
  "validation_errors env spec w =
     (let common = set (sp_includeNamespaces spec) \<inter> set (sp_excludeNamespaces spec)
      in (if common \<noteq> {} then [''common namespace name ('' @ strings_Join '','' (sets_List common) @
                 '') in include and exclude namespace list''] else [])) @
     map (\<lambda>r. ''invalid include resource expression ('' @ rs_name r @ '')'')
       (filter (\<lambda>r. ce_compile env (rs_name r) = None) (sp_includeResources spec)) @
     map (\<lambda>r. ''invalid exclude resource expression ('' @ rs_name r @ '')'')
       (filter (\<lambda>r. ce_compile env (rs_name r) = None) (sp_excludeResources spec)) @
     location_errors env (sp_metadataLocation spec) w"

definition validateBackup :: "('w, 'c) ctrl_env \<Rightarrow> Backup \<Rightarrow> ('w bctrl, bool \<times> goerr option) state" where
  "validateBackup env backup = do {
     errs \<leftarrow> ask (validation_errors env (bk_spec backup));
     if length errs = 0 then State_Monad.return (True, None)
     else do {
       (_, err) \<leftarrow> updateBackupStatusWithEvent (ce_api env) backup
          ((status_of BackupStageNone BackupStateFailed)\<lparr>st_validationErrors := errs\<rparr>)
          ''Failed'' (''Backup validation failed. '' @ strings_Join '', '' errs);
       State_Monad.return (False, Some (case err of
           Some e \<Rightarrow> wrap e ''backup validation failed'' | None \<Rightarrow> errorf ''backup validation failed'')) } }"

section \<open>Initialisation\<close>

definition isBackupInitNeeded :: "Backup \<Rightarrow> bool" where
  "isBackupInitNeeded backup =
     (if \<not> ContainsFinalizer (Some (bk_meta backup)) backupFinalizer \<or>
         bk_stage backup = BackupStageNone \<or> bk_stage backup = BackupStageInitial
      then True else False)"

definition backupInitialize ::
  "('w, 'c) ctrl_env \<Rightarrow> Backup \<Rightarrow> ('w bctrl, Backup \<times> goerr option) state" where
  "backupInitialize env backup = do {
     p \<leftarrow> (if \<not> ContainsFinalizer (Some (bk_meta backup)) backupFinalizer then do {
             (pb, err) \<leftarrow> patchBackup (ce_api env) backup
                (backup\<lparr>bk_meta := the (SetFinalizer (Some (bk_meta backup)) backupFinalizer)\<rparr>);
             State_Monad.return (pb, err) }
           else State_Monad.return (Some backup, None));
     case p of
       (_, Some err) \<Rightarrow> State_Monad.return (backup, Some (wrap err ''Unable to update finalizer''))
     | (pb, None) \<Rightarrow> do {
         now \<leftarrow> ask (ba_Now (ce_api env));
         let clone0 = the pb;
         let clone1 = (if bk_stage clone0 = BackupStageNone
               then clone0\<lparr>bk_status := (bk_status clone0)\<lparr>st_stage := BackupStageInitial\<rparr>\<rparr> else clone0);
         let clone2 = (if st_startTimestamp (bk_status backup) = None
               then clone1\<lparr>bk_status := (bk_status clone1)\<lparr>st_startTimestamp := Some now\<rparr>\<rparr> else clone1);
         updateBackupStatus (ce_api env) clone2 (bk_status clone2) } }"

definition ensureSupportedResourceList ::
  "('w, 'c) ctrl_env \<Rightarrow> Backup \<Rightarrow> ('w bctrl, Backup option \<times> goerr option) state" where
  "ensureSupportedResourceList env backup =
     (if ContainsAnnotation (Some (bk_meta backup)) AnnResourceSelector
      then State_Monad.return (Some backup, None)
      else if me_supported (ce_meta env) \<noteq> []
      then patchBackup (ce_api env) backup (backup\<lparr>bk_meta :=
             the (SetAnnotation (Some (bk_meta backup)) AnnResourceSelector (me_supported (ce_meta env)))\<rparr>)
      else State_Monad.return (Some backup, None))"

section \<open>Deletion\<close>

fun delete_vbcs :: "('w, 'c) ctrl_env \<Rightarrow> VolumeBackupContent list \<Rightarrow> ('w bctrl, goerr option) state" where
  "delete_vbcs env [] = State_Monad.return None"
| "delete_vbcs env (v # vs) =
     (if meta_deletionTimestamp (vb_meta v) \<noteq> None then delete_vbcs env vs
      else do {
        err \<leftarrow> call (ce_deleteVBC env (vb_name v)) (\<lambda>e. EvDeleteVBC (vb_name v) (e = None));
        case err of Some e \<Rightarrow> State_Monad.return (Some (wrap e ''Unable to delete volume backup content''))
        | None \<Rightarrow> delete_vbcs env vs })"

definition list_vbcs ::
  "('w, 'c) ctrl_env \<Rightarrow> Backup \<Rightarrow> ('w bctrl, VolumeBackupContent list \<times> goerr option) state" where
  "list_vbcs env backup = call (me_listVBC (ce_meta env) [(volumeContentBackupLabel, bk_name backup)])
     (\<lambda>(l, e). EvListVBC (length l) (e = None))"

definition removeVolumeBackup :: "('w, 'c) ctrl_env \<Rightarrow> Backup \<Rightarrow> ('w bctrl, goerr option) state" where
  "removeVolumeBackup env backup = do {
     (vbcs, err) \<leftarrow> list_vbcs env backup;
     case err of Some e \<Rightarrow> State_Monad.return (Some (wrap e ''unable to get volume backup content list''))
     | None \<Rightarrow> delete_vbcs env vbcs }"

definition cleaned :: "Backup \<Rightarrow> Backup" where
  "cleaned backup = backup\<lparr>bk_meta := the (SetAnnotation
     (RemoveFinalizer (Some (bk_meta backup)) backupFinalizer) annBackupCleanupDone ''true'')\<rparr>"

text \<open>When the patch fails, \<^verbatim>\<open>backup\<close> is the nil the patch returned and the log line reads its
  name.\<close>

definition deleteBackup :: "('w, 'c) ctrl_env \<Rightarrow> Backup \<Rightarrow> ('w bctrl, goerr option hout) state" where
  "deleteBackup env backup = do {
     err \<leftarrow> removeVolumeBackup env backup;
     if err \<noteq> None then State_Monad.return (HRet err)
     else do {
       (vbcs, err1) \<leftarrow> list_vbcs env backup;
       if err1 \<noteq> None then State_Monad.return (HRet err1)
       else if 0 < length vbcs then State_Monad.return (HRet None)
       else do {
         err2 \<leftarrow> deleteMetadataBackup (ce_meta env) backup;
         if err2 \<noteq> None then State_Monad.return (HRet err2)
         else do {
           (pb, err3) \<leftarrow> patchBackup (ce_api env) backup (cleaned backup);
           case pb of None \<Rightarrow> State_Monad.return HPanic
           | Some updated \<Rightarrow> do {
               err4 \<leftarrow> cache_clean (ce_api env) updated;
               State_Monad.return (HRet err4) } } } } }"

section \<open>The queue handler\<close>

definition reSync :: "('w, 'c) ctrl_env \<Rightarrow> (Backup \<Rightarrow> goerr + string) \<Rightarrow> 'q workqueue \<Rightarrow> 'w \<Rightarrow> 'q \<Rightarrow> 'q" where
  "reSync env keyFn wq w q = (case ce_backupList env w of Inl err \<Rightarrow> q
     | Inr backups \<Rightarrow> fold (Enqueue keyFn wq) backups q)"

definition process_initial ::
  "('w, 'c) ctrl_env \<Rightarrow> Backup \<Rightarrow> ('w bctrl, goerr option hout) state" where
  "process_initial env backup0 = do {
     (backup, err) \<leftarrow> (if isBackupInitNeeded backup0 then backupInitialize env backup0
                       else State_Monad.return (backup0, None));
     if err \<noteq> None then State_Monad.return (HRet err)
     else do {
       (isValid, _) \<leftarrow> validateBackup env backup;
       if \<not> isValid then State_Monad.return (HRet None)
       else do {
         (eb, err2) \<leftarrow> ensureSupportedResourceList env backup;
         if err2 \<noteq> None then State_Monad.return (HRet err2)
         else do {
           (nb, err3) \<leftarrow> set_state env (the eb) BackupStageNone BackupStateCompleted
              EventValidationSuccess ''Backup spec validation success'';
           if err3 \<noteq> None then State_Monad.return (HRet err3) else syncBackup env nb } } } }"

definition processQueue :: "('w, 'c) ctrl_env \<Rightarrow> string \<Rightarrow> ('w bctrl, goerr option hout) state" where
  "processQueue env key = (case ce_splitKey env key of
     Inl err \<Rightarrow> State_Monad.return (HRet (Some err))
   | Inr name \<Rightarrow> do {
       b \<leftarrow> ask (ce_backupGet env name);
       case b of
         Inl err \<Rightarrow> (if IsNotFound (Some err) then State_Monad.return (HRet None)
            else State_Monad.return (HRet (Some (wrap err (''error getting backup '' @ name @ '' from lister'')))))
       | Inr backup \<Rightarrow> do {
           (new, _) \<leftarrow> cache_update (ce_api env) backup;
           if \<not> new then State_Monad.return (HRet None)
           else if meta_deletionTimestamp (bk_meta backup) \<noteq> None then deleteBackup env backup
           else if bk_stage backup = BackupStageNone \<or> bk_stage backup = BackupStageInitial
           then process_initial env backup
           else syncBackup env backup } })"

end
