(* ===== verification/Backup_Safety.thy ===== *)
theory Backup_Safety
  imports Backup_Controller
begin

text \<open>
  What the backup controller guarantees about the order of its effects, whatever the API server,
  the hook executor, the volume handler and the metadata service answer. The statements are about
  the events a handler appends to the log.
\<close>

section \<open>Traces\<close>

text \<open>\<open>traces R m\<close>: a run of \<open>m\<close> with result \<open>r\<close> appends a list \<open>l\<close> with \<open>R r l\<close> to the log.\<close>

definition traces :: "('a \<Rightarrow> bk_event list \<Rightarrow> bool) \<Rightarrow> ('w bctrl, 'a) state \<Rightarrow> bool" where
  "traces R m \<longleftrightarrow> (\<forall>s r s'. run_state m s = (r, s') \<longrightarrow> (\<exists>l. bc_log s' = bc_log s @ l \<and> R r l))"

lemma tracesD: "traces R m \<Longrightarrow> run_state m s = (r, s') \<Longrightarrow> \<exists>l. bc_log s' = bc_log s @ l \<and> R r l"
  by (auto simp: traces_def)

lemma traces_weaken: "traces R m \<Longrightarrow> (\<And>r l. R r l \<Longrightarrow> T r l) \<Longrightarrow> traces T m"
  unfolding traces_def by blast

lemma traces_return: "R x [] \<Longrightarrow> traces R (State_Monad.return x)"
  by (simp add: traces_def)

lemma traces_bind:
  assumes "traces R m" "\<And>a l. R a l \<Longrightarrow> traces (\<lambda>r l'. T r (l @ l')) (f a)"
  shows "traces T (State_Monad.bind m f)"
  unfolding traces_def
proof (intro allI impI)
  fix s r s' assume run: "run_state (State_Monad.bind m f) s = (r, s')"
  obtain a t where m: "run_state m s = (a, t)" by fastforce
  then have f: "run_state (f a) t = (r, s')" using run by simp
  obtain l where l: "bc_log t = bc_log s @ l" "R a l" using tracesD [OF assms(1) m] by blast
  obtain l' where "bc_log s' = bc_log t @ l'" "T r (l @ l')" using tracesD [OF assms(2) [OF l(2)] f] by blast
  then show "\<exists>l. bc_log s' = bc_log s @ l \<and> T r l" using l(1) by auto
qed

lemma traces_if: "(b \<Longrightarrow> traces R m) \<Longrightarrow> (\<not> b \<Longrightarrow> traces R n) \<Longrightarrow> traces R (if b then m else n)"
  by simp

lemma traces_appends: "appends Q m \<longleftrightarrow> traces (\<lambda>_ l. \<forall>e \<in> set l. Q e) m"
  by (simp add: appends_def traces_def)

lemma traces_call: "(\<And>r. R r [ev r]) \<Longrightarrow> traces R (call f ev)"
  by (auto simp: traces_def split: prod.splits)

lemma appends_call: "(\<And>r. Q (ev r)) \<Longrightarrow> appends Q (call f ev)"
  by (auto simp: appends_def split: prod.splits)

lemma appends_emit: "Q ev \<Longrightarrow> appends Q (emit ev)"
  by (auto simp: appends_def)

lemma appends_cache_update: "appends Q (cache_update api b)"
  by (auto simp: appends_def dest!: run_cache_update)

lemma appends_cache_clean: "appends Q (cache_clean api b)"
  by (auto simp: appends_def cache_clean_def split: prod.splits)

lemma appends_sum [appends_rules]:
  "(\<And>a. x = Inl a \<Longrightarrow> appends Q (f a)) \<Longrightarrow> (\<And>b. x = Inr b \<Longrightarrow> appends Q (g b)) \<Longrightarrow>
     appends Q (case x of Inl a \<Rightarrow> f a | Inr b \<Rightarrow> g b)"
  by (cases x) auto

lemma appends_hout [appends_rules]:
  "(\<And>a. x = HRet a \<Longrightarrow> appends Q (f a)) \<Longrightarrow> appends Q p \<Longrightarrow> appends Q h \<Longrightarrow>
     appends Q (case x of HRet a \<Rightarrow> f a | HPanic \<Rightarrow> p | HHang \<Rightarrow> h)"
  by (cases x) auto

lemma appends_outcome [appends_rules]:
  "(\<And>a. x = Ret a \<Longrightarrow> appends Q (f a)) \<Longrightarrow> appends Q p \<Longrightarrow> appends Q (case x of Ret a \<Rightarrow> f a | Panic \<Rightarrow> p)"
  by (cases x) auto

text \<open>\<open>guarded A B l\<close>: in \<open>l\<close> no event of kind \<open>A\<close> comes before the first event of kind \<open>B\<close>.\<close>

fun guarded :: "(bk_event \<Rightarrow> bool) \<Rightarrow> (bk_event \<Rightarrow> bool) \<Rightarrow> bk_event list \<Rightarrow> bool" where
  "guarded A B [] = True"
| "guarded A B (e # es) = (\<not> A e \<and> (B e \<or> guarded A B es))"

lemma guarded_none: "\<forall>e \<in> set l. \<not> A e \<Longrightarrow> guarded A B l"
  by (induction l) auto

lemma guarded_append:
  "\<forall>e \<in> set l. \<not> A e \<Longrightarrow> (\<exists>e \<in> set l. B e) \<or> guarded A B l' \<Longrightarrow> guarded A B (l @ l')"
  by (induction l) auto

lemma guarded_split:
  assumes "guarded A B l" "l = xs @ e # ys" "A e"
  shows "\<exists>b \<in> set xs. B b"
  using assms by (induction xs arbitrary: l) auto

section \<open>Kinds of events\<close>

fun is_meta :: "bk_event \<Rightarrow> bool" where
  "is_meta (EvMetaConnect _ _) = True" | "is_meta (EvMetaOpen _) = True"
| "is_meta (EvMetaIdentify _ _) = True" | "is_meta (EvMetaSend _ _ _) = True"
| "is_meta (EvMetaClose _) = True" | "is_meta _ = False"

fun is_vol :: "bk_event \<Rightarrow> bool" where
  "is_vol (EvVolume _ _) = True" | "is_vol _ = False"

fun is_hook :: "bk_event \<Rightarrow> bool" where
  "is_hook (EvHook _ _) = True" | "is_hook _ = False"

fun is_status :: "bk_event \<Rightarrow> bool" where
  "is_status (EvUpdateStatus _ _) = True" | "is_status (EvRecord _ _) = True"
| "is_status (EvPatch _ _ _) = True" | "is_status _ = False"

text \<open>Events of the volume stage itself, and of the metadata backup.\<close>

definition vol_stage :: "bk_event \<Rightarrow> bool" where "vol_stage e \<longleftrightarrow> is_status e \<or> is_vol e"

fun meta_stage :: "bk_event \<Rightarrow> bool" where
  "meta_stage (EvListVBC _ _) = True" | "meta_stage e = (is_status e \<or> is_meta e)"

lemma disjoint_events [simp]:
  "is_status e \<Longrightarrow> \<not> is_meta e" "is_status e \<Longrightarrow> \<not> is_vol e" "is_status e \<Longrightarrow> \<not> is_hook e"
  "vol_stage e \<Longrightarrow> \<not> is_meta e" "vol_stage e \<Longrightarrow> \<not> is_hook e"
  "meta_stage e \<Longrightarrow> \<not> is_hook e" "meta_stage e \<Longrightarrow> \<not> is_vol e"
  by (cases e; simp add: vol_stage_def)+

section \<open>What each step appends\<close>

lemma appends_updateBackupStatus: "(\<And>b ok. Q (EvUpdateStatus b ok)) \<Longrightarrow> appends Q (updateBackupStatus api b st)"
  unfolding updateBackupStatus_def
  by (intro appends_rules appends_bind appends_call appends_cache_update) auto

lemma appends_updateBackupStatusWithEvent:
  "(\<And>b ok. Q (EvUpdateStatus b ok)) \<Longrightarrow> Q (EvRecord rs msg) \<Longrightarrow>
     appends Q (updateBackupStatusWithEvent api b st rs msg)"
  unfolding updateBackupStatusWithEvent_def
  by (intro appends_rules appends_bind appends_updateBackupStatus appends_emit) auto

lemma appends_set_state: "(\<And>b ok. Q (EvUpdateStatus b ok)) \<Longrightarrow> Q (EvRecord rs msg) \<Longrightarrow>
     appends Q (set_state env b g t rs msg)"
  unfolding set_state_def by (rule appends_updateBackupStatusWithEvent)

lemma appends_patchBackup: "(\<And>ok. Q (EvPatch a b ok)) \<Longrightarrow> appends Q (patchBackup api a b)"
  unfolding patchBackup_def
  by (intro appends_rules appends_bind appends_call appends_cache_update) auto

lemma appends_annotateBackup: "(\<And>a b ok. Q (EvPatch a b ok)) \<Longrightarrow> appends Q (annotateBackup api an b)"
  unfolding annotateBackup_def Let_def
  by (intro appends_rules appends_bind appends_call) auto

lemma appends_processVolumeBackup:
  "(\<And>e. vol_stage e \<Longrightarrow> Q e) \<Longrightarrow> appends Q (processVolumeBackup env b c)"
  unfolding processVolumeBackup_def Let_def
  by (intro appends_rules appends_bind appends_set_state appends_annotateBackup appends_call)
     (auto simp: vol_stage_def)

lemma appends_Sync: "(\<And>b ok. Q (EvUpdateStatus b ok)) \<Longrightarrow> appends Q (Sync api env ix c b)"
  unfolding Sync_def syncWithServer_def
  by (intro appends_rules appends_bind appends_updateBackupStatus) auto

lemma appends_syncVolumeBackup: "(\<And>e. vol_stage e \<Longrightarrow> Q e) \<Longrightarrow> appends Q (syncVolumeBackup env b)"
  unfolding syncVolumeBackup_def
  by (intro appends_rules appends_bind appends_set_state appends_Sync appends_processVolumeBackup)
     (auto simp: vol_stage_def)

fun is_send :: "bk_event \<Rightarrow> bool" where
  "is_send (EvMetaSend _ _ _) = True" | "is_send _ = False"

lemma dep_event_is_send: "dep_event e \<Longrightarrow> is_send e"
  by (auto simp: dep_event_def)

lemmas dep_sends = appends_send_env [THEN appends_weaken, OF dep_event_is_send]
  appends_GetVolumesSpec [THEN appends_weaken, OF dep_event_is_send]
  appends_account [THEN appends_weaken, OF dep_event_is_send]
  appends_env_objects [THEN appends_weaken, OF dep_event_is_send]
  appends_bindings [THEN appends_weaken, OF dep_event_is_send]
  appends_services [THEN appends_weaken, OF dep_event_is_send]

lemma sends_workload_objects: "appends is_send (workload_objects env k w)"
  unfolding workload_objects_def by (rule appends_pod_objects) (auto dest: dep_event_is_send)

lemma sends_workload_services: "appends is_send (workload_services env w)"
  unfolding workload_services_def by (rule dep_sends)

lemma sends_workload_backup: "(\<And>w. appends is_send (act w)) \<Longrightarrow> appends is_send (workload_backup env spec k ns act)"
  unfolding workload_backup_def by (intro appends_rules)

lemma sends_workloads:
  "appends is_send (deploymentBackup env spec ns)" "appends is_send (daemonSetBackup env spec ns)"
  "appends is_send (replicaSetBackup env spec ns)" "appends is_send (getStatefulsets env spec ns)"
  unfolding deploymentBackup_def daemonSetBackup_def replicaSetBackup_def getStatefulsets_def Let_def
  by (intro sends_workload_backup appends_rules sends_workload_objects sends_workload_services dep_sends; simp)+

lemma sends_podBackup: "appends is_send (podBackup env spec ns)"
  unfolding podBackup_def Let_def
  by (intro appends_rules appends_pod_objects dep_sends) (auto dest: dep_event_is_send)

lemma sends_simple:
  "appends is_send (getConfigMapS env spec ns)" "appends is_send (getSecrets env spec ns)"
  "appends is_send (getServices env spec ns)" "appends is_send (getEndpoints env spec ns)"
  "appends is_send (getPersistentVolumeClaims env spec ns)"
  unfolding getConfigMapS_def getSecrets_def getServices_def getEndpoints_def
    getPersistentVolumeClaims_def get_metas_def
  by (intro appends_rules dep_sends; simp)+

lemma sends_collect_kind: "appends is_send (collect_kind env spec ns k)"
  unfolding collect_kind_def Let_def
  by (intro appends_rules sends_workloads sends_podBackup sends_simple)

lemma is_send_meta: "is_send e \<Longrightarrow> meta_stage e"
  by (cases e) auto

lemma appends_getResultant: "appends Q (getResultant env spec)"
  by (auto simp: getResultant_def appends_def Let_def split: prod.splits)

lemma appends_backupVBC: "appends meta_stage (backupVolumeBackupContent env n)"
  unfolding backupVolumeBackupContent_def
  by (intro appends_rules appends_bind appends_call) (auto split: prod.splits)

lemma appends_runBackup: "appends meta_stage (runBackup env b)"
  unfolding runBackup_def
  by (intro appends_rules appends_bind appends_call appends_getResultant appends_backupVBC
      appends_weaken [OF sends_collect_kind is_send_meta]) (auto simp: Let_def intro!: appends_rules
      appends_bind appends_backupVBC appends_weaken [OF sends_collect_kind is_send_meta])

lemma appends_fetchMeta: "(\<And>n ok. Q (EvMetaConnect n ok)) \<Longrightarrow> appends Q (fetchMetaServiceClient env l)"
  unfolding fetchMetaServiceClient_def
  by (intro appends_rules appends_bind appends_call) auto

lemma appends_processMetadataBackup: "appends meta_stage (processMetadataBackup env b)"
  unfolding processMetadataBackup_def Let_def
  by (intro appends_rules appends_bind appends_call appends_runBackup appends_fetchMeta
      appends_updateBackupStatus appends_updateBackupStatusWithEvent) auto

section \<open>Order of the stages\<close>

definition post_ok :: "bk_event \<Rightarrow> bool" where "post_ok e \<longleftrightarrow> e = EvHook PostHookPhase True"
definition pre_ok :: "bk_event \<Rightarrow> bool" where "pre_ok e \<longleftrightarrow> e = EvHook PreHookPhase True"
definition pre_any :: "bk_event \<Rightarrow> bool" where "pre_any e \<longleftrightarrow> (\<exists>ok. e = EvHook PreHookPhase ok)"

definition is_post :: "bk_event \<Rightarrow> bool" where "is_post e \<longleftrightarrow> (\<exists>ok. e = EvHook PostHookPhase ok)"

lemma is_post_disjoint [simp]:
  "is_post e \<Longrightarrow> \<not> is_meta e" "is_post e \<Longrightarrow> \<not> is_vol e" "is_post e \<Longrightarrow> \<not> pre_any e"
  "is_status e \<Longrightarrow> \<not> pre_any e" "vol_stage e \<Longrightarrow> \<not> pre_any e" "is_status e \<Longrightarrow> \<not> is_post e"
  by (auto simp: is_post_def pre_any_def vol_stage_def)

lemma appends_reverse: "appends (\<lambda>e. is_status e \<or> is_post e) (reversePreHooksExecutionOnFailure env b ev)"
  unfolding reversePreHooksExecutionOnFailure_def exec_hook_def
  by (intro appends_bind appends_call appends_emit) (auto simp: is_post_def)

lemma appends_sync_finished: "(\<And>e. is_status e \<Longrightarrow> Q e) \<Longrightarrow> appends Q (sync_finished env b)"
  unfolding sync_finished_def
  by (intro appends_rules appends_bind appends_updateBackupStatusWithEvent) auto

lemma appends_sync_resources: "appends meta_stage (sync_resources env b)"
  unfolding sync_resources_def
  by (intro appends_rules appends_bind appends_processMetadataBackup appends_set_state
      appends_sync_finished) (auto simp: is_status.simps elim: is_status.elims)

text \<open>The post hook stage: the hook first, and metadata only if it succeeded.\<close>

definition post_first :: "bk_event list \<Rightarrow> bool" where
  "post_first l \<longleftrightarrow> (\<exists>ok l'. l = EvHook PostHookPhase ok # l' \<and> (\<forall>e \<in> set l'. meta_stage e) \<and>
     (\<not> ok \<longrightarrow> (\<forall>e \<in> set l'. is_status e)))"

lemma traces_exec_hook: "traces (\<lambda>r l. l = [EvHook ph (r = None)]) (exec_hook env b ph)"
  unfolding exec_hook_def by (rule traces_call) simp

lemma status_meta_stage: "is_status e \<Longrightarrow> meta_stage e"
  by (cases e) auto

lemma traces_sync_posthook: "traces (\<lambda>_. post_first) (sync_posthook env b)"
  unfolding sync_posthook_def
proof (rule traces_bind [OF traces_exec_hook])
  fix err l assume l: "l = [EvHook PostHookPhase (err = None)]"
  let ?ok = "do {
       emit (EvRecord ''PostHook'' ''Post hook execution successful'');
       (backup1, err3) \<leftarrow> set_state env b BackupStageResources BackupStateNew ''Resources'' ''Start resource backup'';
       if err3 \<noteq> None then State_Monad.return (HRet err3) else sync_resources env backup1 }"
  let ?fail = "do {
       (_, err2) \<leftarrow> set_state env b BackupStageNone BackupStateFailed EventPostHookFailed
          ''post hook execution failed'';
       State_Monad.return (HRet err2) }"
  have ok: "appends meta_stage ?ok"
    by (intro appends_bind appends_emit appends_rules appends_set_state appends_sync_resources) auto
  have fail: "appends is_status ?fail"
    by (intro appends_bind appends_rules appends_set_state) auto
  show "traces (\<lambda>r l'. post_first (l @ l')) (if err \<noteq> None then ?fail else ?ok)"
  proof (cases "err = None")
    case True
    have "traces (\<lambda>r l'. post_first (l @ l')) ?ok"
      using ok [unfolded traces_appends] by (rule traces_weaken) (auto simp: l post_first_def True)
    then show ?thesis using True by simp
  next
    case False
    have "traces (\<lambda>r l'. post_first (l @ l')) ?fail"
      using fail [unfolded traces_appends] by (rule traces_weaken)
        (use False in \<open>auto simp: l post_first_def status_meta_stage\<close>)
    then show ?thesis using False by simp
  qed
qed

lemma post_first_guarded: "post_first l \<Longrightarrow> guarded is_meta post_ok l"
proof -
  assume "post_first l"
  then obtain ok l' where l: "l = EvHook PostHookPhase ok # l'" "\<not> ok \<longrightarrow> (\<forall>e \<in> set l'. is_status e)"
    by (auto simp: post_first_def)
  then show ?thesis by (cases ok) (auto simp: post_ok_def intro!: guarded_none)
qed

lemma post_first_hooks: "post_first l \<Longrightarrow> e \<in> set l \<Longrightarrow> \<not> is_vol e \<and> \<not> pre_any e"
  by (fastforce simp: post_first_def pre_any_def)

text \<open>The volume stage: volume work, then either the post hook stage or the reversal of the pre
  hooks.\<close>

definition vol_shape :: "bk_event list \<Rightarrow> bool" where
  "vol_shape l \<longleftrightarrow> (\<exists>l0 l1. l = l0 @ l1 \<and> (\<forall>e \<in> set l0. vol_stage e) \<and>
     (post_first l1 \<or> (\<forall>e \<in> set l1. is_status e \<or> is_post e)))"

lemma vol_shape_extend:
  assumes "\<forall>e \<in> set l0. vol_stage e" "vol_shape l"
  shows "vol_shape (l0 @ l)"
proof -
  obtain k0 k1 where k: "l = k0 @ k1" "\<forall>e \<in> set k0. vol_stage e"
      "post_first k1 \<or> (\<forall>e \<in> set k1. is_status e \<or> is_post e)"
    using assms(2) unfolding vol_shape_def by blast
  show ?thesis unfolding vol_shape_def
    using k assms(1) by (intro exI [of _ "l0 @ k0"] exI [of _ k1]) auto
qed

lemma vol_shape_post: "post_first l \<Longrightarrow> vol_shape l"
  unfolding vol_shape_def by (intro exI [of _ "[]"] exI [of _ l]) simp

lemma vol_shape_fail: "\<forall>e \<in> set l. is_status e \<or> is_post e \<Longrightarrow> vol_shape l"
  unfolding vol_shape_def by (intro exI [of _ "[]"] exI [of _ l]) simp

lemma status_vol_stage: "is_status e \<Longrightarrow> vol_stage e"
  by (simp add: vol_stage_def)

lemma vol_shape_status: "\<forall>e \<in> set l0. is_status e \<Longrightarrow> vol_shape l \<Longrightarrow> vol_shape (l0 @ l)"
  by (rule vol_shape_extend) (simp_all add: status_vol_stage)

lemma traces_set_state: "traces (\<lambda>_ l. \<forall>e \<in> set l. is_status e) (set_state env b g t rs msg)"
  unfolding traces_appends [symmetric] by (rule appends_set_state) auto

lemma traces_sync_volumes: "traces (\<lambda>_. vol_shape) (sync_volumes env b)"
  unfolding sync_volumes_def
proof (rule traces_bind [OF appends_syncVolumeBackup [of vol_stage, unfolded traces_appends]])
  fix v l assume l: "\<forall>e \<in> set l. vol_stage e"
  have nil: "vol_shape []" by (rule vol_shape_fail) simp
  have "traces (\<lambda>_. vol_shape) (case v of
       HPanic \<Rightarrow> State_Monad.return HPanic
     | HHang \<Rightarrow> State_Monad.return HHang
     | HRet (backup, err) \<Rightarrow>
        if err \<noteq> None then State_Monad.return (HRet err)
        else if bk_state backup = BackupStateFailed then
          (if meta_annotations (bk_meta backup) annVolumeBackupFailHooks \<noteq> None
           then State_Monad.return (HRet None)
           else do {
             (backup1, err1) \<leftarrow> set_state env backup BackupStageNone BackupStateFailed
                EventVolumeBackupFailed ''volume backup failed'';
             if err1 \<noteq> None then State_Monad.return (HRet err1)
             else do {
               reversePreHooksExecutionOnFailure env backup1 EventVolumeBackupFailed;
               annotateBackup (ce_api env) annVolumeBackupFailHooks backup1;
               State_Monad.return (HRet None) } })
        else if bk_state backup \<noteq> BackupStateCompleted then State_Monad.return (HRet None)
        else do {
          (backup2, err2) \<leftarrow> set_state env backup BackupStagePostHook BackupStateProcessing
             ''PostHook'' ''Check and process post hook'';
          if err2 \<noteq> None then State_Monad.return (HRet err2) else sync_posthook env backup2 })" (is "traces _ ?m")
  proof (cases v)
    case (HRet x)
    obtain backup err where x: "x = (backup, err)" by fastforce
    have rev: "appends (\<lambda>e. is_status e \<or> is_post e) (do {
             (backup1, err1) \<leftarrow> set_state env backup BackupStageNone BackupStateFailed
                EventVolumeBackupFailed ''volume backup failed'';
             if err1 \<noteq> None then State_Monad.return (HRet err1)
             else do {
               reversePreHooksExecutionOnFailure env backup1 EventVolumeBackupFailed;
               annotateBackup (ce_api env) annVolumeBackupFailHooks backup1;
               State_Monad.return (HRet None) } })"
      by (intro appends_bind appends_rules appends_set_state appends_annotateBackup appends_reverse) auto
    have fwd: "traces (\<lambda>_. vol_shape) (do {
          (backup2, err2) \<leftarrow> set_state env backup BackupStagePostHook BackupStateProcessing
             ''PostHook'' ''Check and process post hook'';
          if err2 \<noteq> None then State_Monad.return (HRet err2) else sync_posthook env backup2 })"
    proof (rule traces_bind [OF traces_set_state], clarify)
      fix backup2 err2 l assume st: "\<forall>e \<in> set l. is_status e"
      show "traces (\<lambda>r l'. vol_shape (l @ l')) (if err2 \<noteq> None then State_Monad.return (HRet err2) else sync_posthook env backup2)"
        by (intro traces_if traces_return traces_weaken [OF traces_sync_posthook]
            vol_shape_status [OF st] nil vol_shape_post)
    qed
    show ?thesis
      using rev [unfolded traces_appends] fwd nil
      by (auto simp: HRet x intro!: traces_return elim!: traces_weaken intro: vol_shape_fail)
  qed (simp_all add: traces_return nil)
  then show "traces (\<lambda>r l'. vol_shape (l @ l')) ?m"
    by (rule traces_weaken) (rule vol_shape_extend [OF l])
qed simp

text \<open>The pre hook stage: status updates, the hook, and volume work only if it succeeded.\<close>

definition pre_shape :: "bk_event list \<Rightarrow> bool" where
  "pre_shape l \<longleftrightarrow> (\<forall>e \<in> set l. is_status e) \<or> (\<exists>l0 ok l1. l = l0 @ EvHook PreHookPhase ok # l1 \<and>
     (\<forall>e \<in> set l0. is_status e) \<and>
     (if ok then vol_shape l1 else (\<forall>e \<in> set l1. is_status e \<or> is_post e)))"

lemma pre_shape_extend:
  assumes "\<forall>e \<in> set l0. is_status e" "pre_shape l" shows "pre_shape (l0 @ l)"
proof (cases "\<forall>e \<in> set l. is_status e")
  case True
  then show ?thesis using assms(1) by (auto simp: pre_shape_def)
next
  case False
  then obtain k0 ok k1 where k: "l = k0 @ EvHook PreHookPhase ok # k1" "\<forall>e \<in> set k0. is_status e"
      "if ok then vol_shape k1 else (\<forall>e \<in> set k1. is_status e \<or> is_post e)"
    using assms(2) unfolding pre_shape_def by blast
  show ?thesis unfolding pre_shape_def
    using k assms(1) by (intro disjI2 exI [of _ "l0 @ k0"] exI [of _ ok] exI [of _ k1]) auto
qed

lemma pre_shape_hook:
  "(if ok then vol_shape l1 else (\<forall>e \<in> set l1. is_status e \<or> is_post e)) \<Longrightarrow>
     pre_shape (EvHook PreHookPhase ok # l1)"
  unfolding pre_shape_def by (intro disjI2 exI [of _ "[]"] exI [of _ ok] exI [of _ l1]) simp

lemma traces_after_prehook:
  "traces (\<lambda>_ l. pre_shape (EvHook PreHookPhase (herr = None) # l))
     (if herr \<noteq> None then do {
         (backup1, err1) \<leftarrow> set_state env backup BackupStageNone BackupStateFailed
            EventPreHookFailed ''Pre hook execution failed'';
         if err1 \<noteq> None then State_Monad.return (HRet err1)
         else do {
           reversePreHooksExecutionOnFailure env backup1 EventPreHookFailed;
           State_Monad.return (HRet None) } }
       else do {
         emit (EvRecord ''PreHook'' ''Pre hook execution successful'');
         (backup2, err2) \<leftarrow> set_state env backup BackupStageVolumes BackupStateNew
            ''Volumes'' ''Start backup volumes'';
         if err2 \<noteq> None then State_Monad.return (HRet err2) else sync_volumes env backup2 })"
proof (rule traces_if)
  let ?fail = "do {
         (backup1, err1) \<leftarrow> set_state env backup BackupStageNone BackupStateFailed
            EventPreHookFailed ''Pre hook execution failed'';
         if err1 \<noteq> None then State_Monad.return (HRet err1)
         else do {
           reversePreHooksExecutionOnFailure env backup1 EventPreHookFailed;
           State_Monad.return (HRet None) } }"
  have "appends (\<lambda>e. is_status e \<or> is_post e) ?fail"
    by (intro appends_bind appends_rules appends_set_state appends_reverse) auto
  moreover assume "herr \<noteq> None"
  ultimately show "traces (\<lambda>_ l. pre_shape (EvHook PreHookPhase (herr = None) # l)) ?fail"
    unfolding traces_appends by (auto elim!: traces_weaken intro!: pre_shape_hook)
next
  let ?ok = "do {
         emit (EvRecord ''PreHook'' ''Pre hook execution successful'');
         (backup2, err2) \<leftarrow> set_state env backup BackupStageVolumes BackupStateNew
            ''Volumes'' ''Start backup volumes'';
         if err2 \<noteq> None then State_Monad.return (HRet err2) else sync_volumes env backup2 }"
  have e: "traces (\<lambda>_ l. \<forall>e \<in> set l. is_status e) (emit (EvRecord ''PreHook'' ''Pre hook execution successful''))"
    unfolding traces_appends [symmetric] by (rule appends_emit) simp
  have "traces (\<lambda>_. vol_shape) ?ok"
  proof (rule traces_bind [OF e], rule traces_bind [OF traces_set_state], clarify)
    fix l1 l2 backup2 err2
    assume st: "\<forall>e \<in> set l1. is_status e" "\<forall>e \<in> set l2. is_status e"
    show "traces (\<lambda>r l'. vol_shape (l1 @ l2 @ l'))
       (if err2 \<noteq> None then State_Monad.return (HRet err2) else sync_volumes env backup2)"
      by (intro traces_if traces_return traces_weaken [OF traces_sync_volumes]
          vol_shape_status [OF st(1)] vol_shape_status [OF st(2)]) (auto intro: vol_shape_fail)
  qed
  moreover assume "\<not> herr \<noteq> None"
  ultimately show "traces (\<lambda>_ l. pre_shape (EvHook PreHookPhase (herr = None) # l)) ?ok"
    by (auto elim!: traces_weaken intro!: pre_shape_hook)
qed

lemma traces_sync_prehook: "traces (\<lambda>_. pre_shape) (sync_prehook env b)"
  unfolding sync_prehook_def
proof (rule traces_bind [OF traces_set_state], clarify)
  fix backup err l assume st: "\<forall>e \<in> set l. is_status e"
  show "traces (\<lambda>r l'. pre_shape (l @ l')) (if err \<noteq> None then State_Monad.return (HRet err)
     else do {
       herr \<leftarrow> exec_hook env backup PreHookPhase;
       if herr \<noteq> None then do {
         (backup1, err1) \<leftarrow> set_state env backup BackupStageNone BackupStateFailed
            EventPreHookFailed ''Pre hook execution failed'';
         if err1 \<noteq> None then State_Monad.return (HRet err1)
         else do {
           reversePreHooksExecutionOnFailure env backup1 EventPreHookFailed;
           State_Monad.return (HRet None) } }
       else do {
         emit (EvRecord ''PreHook'' ''Pre hook execution successful'');
         (backup2, err2) \<leftarrow> set_state env backup BackupStageVolumes BackupStateNew
            ''Volumes'' ''Start backup volumes'';
         if err2 \<noteq> None then State_Monad.return (HRet err2) else sync_volumes env backup2 } })"
  proof (rule traces_if)
    show "traces (\<lambda>r l'. pre_shape (l @ l')) (State_Monad.return (HRet err))"
      using st by (intro traces_return) (simp add: pre_shape_def)
  qed (rule traces_bind [OF traces_exec_hook],
       rule traces_weaken [OF traces_after_prehook], use pre_shape_extend [OF st] in simp)
qed

lemma rev_guarded:
  assumes "\<forall>e \<in> set l. is_status e \<or> is_post e"
  shows "guarded is_meta B l" "guarded is_vol B l"
  using assms by (auto intro!: guarded_none)

lemma vol_shape_meta: "vol_shape l \<Longrightarrow> guarded is_meta post_ok l"
proof -
  assume "vol_shape l"
  then obtain l0 l1 where l: "l = l0 @ l1" "\<forall>e \<in> set l0. vol_stage e"
      "post_first l1 \<or> (\<forall>e \<in> set l1. is_status e \<or> is_post e)"
    unfolding vol_shape_def by blast
  have "guarded is_meta post_ok l1"
    using l(3) by (auto intro: post_first_guarded rev_guarded)
  then show ?thesis using l(1,2) by (auto intro!: guarded_append)
qed

lemma vol_shape_no_pre: "vol_shape l \<Longrightarrow> e \<in> set l \<Longrightarrow> \<not> pre_any e"
  unfolding vol_shape_def
  using post_first_hooks by fastforce

lemma pre_shape_meta: "pre_shape l \<Longrightarrow> guarded is_meta post_ok l"
proof -
  assume pre: "pre_shape l"
  show ?thesis
  proof (cases "\<forall>e \<in> set l. is_status e")
    case False
    then obtain l0 ok l1 where l: "l = l0 @ EvHook PreHookPhase ok # l1" "\<forall>e \<in> set l0. is_status e"
        "if ok then vol_shape l1 else (\<forall>e \<in> set l1. is_status e \<or> is_post e)"
      using pre unfolding pre_shape_def by blast
    have "guarded is_meta post_ok l1"
      using l(3) by (cases ok) (auto intro: vol_shape_meta rev_guarded)
    then show ?thesis using l by (auto intro!: guarded_append)
  qed (auto intro: guarded_none)
qed

lemma pre_shape_vol: "pre_shape l \<Longrightarrow> guarded is_vol pre_ok l"
proof -
  assume pre: "pre_shape l"
  show ?thesis
  proof (cases "\<forall>e \<in> set l. is_status e")
    case False
    then obtain l0 ok l1 where l: "l = l0 @ EvHook PreHookPhase ok # l1" "\<forall>e \<in> set l0. is_status e"
        "if ok then vol_shape l1 else (\<forall>e \<in> set l1. is_status e \<or> is_post e)"
      using pre unfolding pre_shape_def by blast
    have "ok \<or> guarded is_vol pre_ok l1" using l(3) by (cases ok) (auto intro: rev_guarded)
    then show ?thesis using l by (auto intro!: guarded_append simp: pre_ok_def)
  qed (auto intro: guarded_none)
qed

lemma pre_shape_post: "pre_shape l \<Longrightarrow> guarded is_post pre_any l"
proof -
  assume pre: "pre_shape l"
  show ?thesis
  proof (cases "\<forall>e \<in> set l. is_status e")
    case False
    then obtain l0 ok l1 where l: "l = l0 @ EvHook PreHookPhase ok # l1" "\<forall>e \<in> set l0. is_status e"
      using pre unfolding pre_shape_def by blast
    then show ?thesis by (auto intro!: guarded_append) (auto simp: is_post_def pre_any_def)
  qed (auto intro: guarded_none)
qed

lemma traces_sync_initial: "traces (\<lambda>_. pre_shape) (sync_initial env b)"
  unfolding sync_initial_def
proof (rule traces_bind [OF traces_set_state], clarify)
  fix backup err l assume st: "\<forall>e \<in> set l. is_status e"
  show "traces (\<lambda>r l'. pre_shape (l @ l'))
     (if err \<noteq> None then State_Monad.return (HRet err) else sync_prehook env backup)"
    by (intro traces_if traces_return traces_weaken [OF traces_sync_prehook] pre_shape_extend [OF st])
       (simp add: pre_shape_def)
qed

definition stage_order :: "BackupStage \<Rightarrow> bk_event list \<Rightarrow> bool" where
  "stage_order stage l \<longleftrightarrow>
     (stage \<noteq> BackupStageResources \<longrightarrow> guarded is_meta post_ok l) \<and>
     (stage \<noteq> BackupStageVolumes \<longrightarrow> guarded is_vol pre_ok l) \<and>
     (if stage = BackupStageInitial \<or> stage = BackupStagePreHook then guarded is_post pre_any l
      else \<forall>e \<in> set l. \<not> pre_any e) \<and>
     (stage = BackupStageResources \<longrightarrow> (\<forall>e \<in> set l. \<not> is_post e))"

lemma pre_shape_order: "pre_shape l \<Longrightarrow> g \<in> {BackupStageInitial, BackupStagePreHook} \<Longrightarrow> stage_order g l"
  by (auto simp: stage_order_def pre_shape_meta pre_shape_vol pre_shape_post)

lemma vol_shape_order: "vol_shape l \<Longrightarrow> stage_order BackupStageVolumes l"
  using vol_shape_no_pre by (auto simp: stage_order_def vol_shape_meta)

lemma post_first_order: "post_first l \<Longrightarrow> stage_order BackupStagePostHook l"
  using post_first_hooks by (auto simp: stage_order_def post_first_guarded intro!: guarded_none)

lemma meta_stage_no_hook: "meta_stage e \<Longrightarrow> \<not> pre_any e \<and> \<not> is_post e"
  by (auto simp: pre_any_def is_post_def)

lemma meta_order: "\<forall>e \<in> set l. meta_stage e \<Longrightarrow> stage_order BackupStageResources l"
  using meta_stage_no_hook by (auto simp: stage_order_def intro!: guarded_none)

lemma status_order: "\<forall>e \<in> set l. is_status e \<Longrightarrow> stage_order g l"
  by (auto simp: stage_order_def intro!: guarded_none)

lemma traces_syncBackup: "traces (\<lambda>_. stage_order (bk_stage b)) (syncBackup env b)"
proof (cases "(bk_state b = BackupStateDeleting \<or> bk_state b = BackupStateFailed) \<and>
    bk_stage b \<noteq> BackupStageVolumes")
  case True
  then show ?thesis by (auto simp: syncBackup_def intro!: traces_return status_order)
next
  case False
  have fin: "traces (\<lambda>_. stage_order BackupStageFinished) (sync_finished env b)"
    using appends_sync_finished [of is_status env b, unfolded traces_appends]
    by (auto elim!: traces_weaken intro: status_order)
  have res: "traces (\<lambda>_. stage_order BackupStageResources) (sync_resources env b)"
    using appends_sync_resources [unfolded traces_appends] by (rule traces_weaken) (rule meta_order)
  have nil: "stage_order g []" for g by (rule status_order) simp
  show ?thesis
    using False unfolding syncBackup_def
    by (cases "bk_stage b")
       (simp_all add: traces_return nil fin res
         traces_weaken [OF traces_sync_initial pre_shape_order]
         traces_weaken [OF traces_sync_prehook pre_shape_order]
         traces_weaken [OF traces_sync_volumes vol_shape_order]
         traces_weaken [OF traces_sync_posthook post_first_order])
qed

text \<open>C1: the order of the effects of a pass of \<^verbatim>\<open>syncBackup\<close>, whatever the servers and hooks answer.
  A pass that does not start in the resources stage sends metadata only after a run of the post hooks in
  this pass that succeeded; one that does not start in the volumes stage works on volumes only after a run
  of the pre hooks in this pass that succeeded. A pass that starts in the initial or the pre hook stage runs
  no post hook before the pre hooks; any other runs no pre hook at all, and one that resumes in the
  resources stage no post hook either. (The API documentation says that post hooks run after the item was
  stored in the backup; the code runs them before any metadata is sent.)\<close>

theorem syncBackup_order:
  assumes "run_state (syncBackup env b) s = (r, s')"
  shows "\<exists>l. bc_log s' = bc_log s @ l \<and>
     (bk_stage b \<noteq> BackupStageResources \<longrightarrow> guarded is_meta post_ok l) \<and>
     (bk_stage b \<noteq> BackupStageVolumes \<longrightarrow> guarded is_vol pre_ok l) \<and>
     (if bk_stage b = BackupStageInitial \<or> bk_stage b = BackupStagePreHook then guarded is_post pre_any l
      else \<forall>e \<in> set l. \<not> pre_any e) \<and>
     (bk_stage b = BackupStageResources \<longrightarrow> (\<forall>e \<in> set l. \<not> is_post e))"
  using tracesD [OF traces_syncBackup assms] unfolding stage_order_def .

text \<open>A failed pre hook whose failure was recorded is reversed.\<close>

definition reversed :: "goerr option hout \<Rightarrow> bk_event list \<Rightarrow> bool" where
  "reversed r l \<longleftrightarrow> (EvHook PreHookPhase False \<in> set l \<longrightarrow> r = HRet None \<longrightarrow> (\<exists>e \<in> set l. is_post e))"

lemma traces_reverse: "traces (\<lambda>_ l. \<exists>e \<in> set l. is_post e) (reversePreHooksExecutionOnFailure env b ev)"
  unfolding reversePreHooksExecutionOnFailure_def
proof (rule traces_bind [OF traces_exec_hook])
  fix err :: "goerr option" and l assume l: "l = [EvHook PostHookPhase (err = None)]"
  have "is_post (EvHook PostHookPhase (err = None))" by (auto simp: is_post_def)
  then show "traces (\<lambda>r l'. \<exists>e \<in> set (l @ l'). is_post e) (emit (EvRecord ev
     (if err \<noteq> None then ''Post hook execution to revert Pre hook also failed''
      else ''Post hook execution to revert Pre hook is success'')))"
    unfolding l by (auto simp: traces_def)
qed

lemma traces_prehook_fail:
  "traces (\<lambda>r l. r = HRet None \<longrightarrow> (\<exists>e \<in> set l. is_post e)) (do {
         (backup1, err1) \<leftarrow> set_state env backup BackupStageNone BackupStateFailed
            EventPreHookFailed ''Pre hook execution failed'';
         if err1 \<noteq> None then State_Monad.return (HRet err1)
         else do {
           reversePreHooksExecutionOnFailure env backup1 EventPreHookFailed;
           State_Monad.return (HRet None) } })"
  by (rule traces_bind [OF traces_set_state], clarify, intro traces_if traces_return,
      simp, rule traces_bind [OF traces_reverse], rule traces_return) auto

lemma traces_sync_prehook_reversed: "traces reversed (sync_prehook env b)"
  unfolding sync_prehook_def
proof (rule traces_bind [OF traces_set_state], clarify, rule traces_if, goal_cases)
  case (1 backup err l)
  then show ?case by (auto intro!: traces_return simp: reversed_def)
next
  case (2 backup err l)
  have no: "EvHook PreHookPhase False \<notin> set l" using 2(1) by auto
  show ?case
  proof (rule traces_bind [OF traces_exec_hook], rule traces_if, goal_cases)
    case (1 herr l')
    then show ?case by (intro traces_weaken [OF traces_prehook_fail]) (auto simp: reversed_def)
  next
    case (2 herr l')
    let ?ok = "do {
         emit (EvRecord ''PreHook'' ''Pre hook execution successful'');
         (backup2, err2) \<leftarrow> set_state env backup BackupStageVolumes BackupStateNew
            ''Volumes'' ''Start backup volumes'';
         if err2 \<noteq> None then State_Monad.return (HRet err2) else sync_volumes env backup2 }"
    have pre: "traces (\<lambda>_ l. pre_shape (EvHook PreHookPhase True # l)) ?ok"
      using traces_after_prehook [of None env backup] by simp
    have ev: "EvHook PreHookPhase False \<notin> set k" if "pre_shape (EvHook PreHookPhase True # k)" for k
    proof -
      have "\<exists>l0 ok l1. EvHook PreHookPhase True # k = l0 @ EvHook PreHookPhase ok # l1 \<and>
          (\<forall>e \<in> set l0. is_status e) \<and>
          (if ok then vol_shape l1 else (\<forall>e \<in> set l1. is_status e \<or> is_post e))"
        using that [unfolded pre_shape_def] by (rule disjE) simp
      then obtain l0 ok l1 where k: "EvHook PreHookPhase True # k = l0 @ EvHook PreHookPhase ok # l1"
          "\<forall>e \<in> set l0. is_status e" "if ok then vol_shape l1 else (\<forall>e \<in> set l1. is_status e \<or> is_post e)"
        by (elim exE conjE)
      have "l0 = []" using k(1,2) by (cases l0) auto
      then have "k = l1" "vol_shape l1" using k by auto
      then show ?thesis using vol_shape_no_pre [of l1 "EvHook PreHookPhase False"] by (auto simp: pre_any_def)
    qed
    show ?case using 2 no by (intro traces_weaken [OF pre]) (auto simp: reversed_def dest: ev)
  qed
qed

text \<open>C3: a failed pre hook stops the backup: no volume is snapshotted and no metadata is sent in
  that pass, and unless recording the failure fails, the post hooks are run to reverse what the
  pre hooks did.\<close>

theorem failed_prehook_stops:
  assumes "run_state (sync_prehook env b) s = (r, s')"
    and "EvHook PreHookPhase False \<in> set (drop (length (bc_log s)) (bc_log s'))"
  shows "(\<forall>e \<in> set (drop (length (bc_log s)) (bc_log s')). \<not> is_vol e \<and> \<not> is_meta e) \<and>
     (r = HRet None \<longrightarrow> (\<exists>e \<in> set (drop (length (bc_log s)) (bc_log s')). is_post e))"
proof -
  obtain l where l: "bc_log s' = bc_log s @ l" "pre_shape l" using tracesD [OF traces_sync_prehook assms(1)] by blast
  have "EvHook PreHookPhase False \<in> set l" using assms(2) l(1) by simp
  then obtain l0 ok l1 where k: "l = l0 @ EvHook PreHookPhase ok # l1" "\<forall>e \<in> set l0. is_status e"
      "if ok then vol_shape l1 else (\<forall>e \<in> set l1. is_status e \<or> is_post e)"
    using l(2) unfolding pre_shape_def by auto
  have "\<not> ok"
  proof
    assume ok
    then have "EvHook PreHookPhase False \<in> set l0 \<union> set l1" "vol_shape l1"
      using k \<open>EvHook PreHookPhase False \<in> set l\<close> by auto
    moreover have "pre_any (EvHook PreHookPhase False)" by (auto simp: pre_any_def)
    ultimately show False using k(2) vol_shape_no_pre [of l1] is_post_disjoint(4) by blast
  qed
  moreover have "reversed r l" using tracesD [OF traces_sync_prehook_reversed assms(1)] l(1) by auto
  ultimately show ?thesis using k l(1) \<open>EvHook PreHookPhase False \<in> set l\<close> by (auto simp: reversed_def)
qed

section \<open>Deletion\<close>

fun is_patch :: "bk_event \<Rightarrow> bool" where
  "is_patch (EvPatch _ _ _) = True" | "is_patch _ = False"

lemma traces_list_vbcs: "traces (\<lambda>(l', e) l. l = [EvListVBC (length l') (e = None)]) (list_vbcs env b)"
  unfolding list_vbcs_def by (rule traces_call) (auto split: prod.splits)

lemma appends_delete_vbcs: "(\<And>n ok. Q (EvDeleteVBC n ok)) \<Longrightarrow> appends Q (delete_vbcs env vs)"
  by (induction vs) (auto intro!: appends_rules appends_bind appends_call)

lemma appends_removeVolumeBackup:
  "(\<And>n ok. Q (EvDeleteVBC n ok)) \<Longrightarrow> (\<And>n ok. Q (EvListVBC n ok)) \<Longrightarrow> appends Q (removeVolumeBackup env b)"
  unfolding removeVolumeBackup_def list_vbcs_def
  by (intro appends_bind appends_rules appends_call appends_delete_vbcs) (auto split: prod.splits)

lemma traces_deleteMetadataBackup:
  "traces (\<lambda>r l. (\<forall>e \<in> set l. \<not> is_patch e) \<and> (r = None \<longrightarrow>
       bk_state b \<noteq> BackupStateFailed \<longrightarrow> toOrdinal BackupStageResources \<le> toOrdinal (bk_stage b) \<longrightarrow>
       EvMetaDelete (bk_name b) True \<in> set l))
     (deleteMetadataBackup env b)"
  unfolding deleteMetadataBackup_def
proof (rule traces_if)
  assume "bk_state b = BackupStateFailed \<or> toOrdinal (bk_stage b) < toOrdinal BackupStageResources"
  then show "traces (\<lambda>r l. (\<forall>e \<in> set l. \<not> is_patch e) \<and> (r = None \<longrightarrow>
       bk_state b \<noteq> BackupStateFailed \<longrightarrow> toOrdinal BackupStageResources \<le> toOrdinal (bk_stage b) \<longrightarrow>
       EvMetaDelete (bk_name b) True \<in> set l)) (State_Monad.return None)"
    by (intro traces_return) auto
next
  have f: "traces (\<lambda>_ l. \<forall>e \<in> set l. \<not> is_patch e) (fetchMetaServiceClient env (sp_metadataLocation (bk_spec b)))"
    unfolding traces_appends [symmetric] by (rule appends_fetchMeta) simp
  have d: "traces (\<lambda>r l. l = [EvMetaDelete (bk_name b) (r = None)])
      (call (me_delete env (bk_name b)) (\<lambda>e. EvMetaDelete (bk_name b) (e = None)))"
    by (rule traces_call) simp
  show "traces (\<lambda>r l. (\<forall>e \<in> set l. \<not> is_patch e) \<and> (r = None \<longrightarrow>
       bk_state b \<noteq> BackupStateFailed \<longrightarrow> toOrdinal BackupStageResources \<le> toOrdinal (bk_stage b) \<longrightarrow>
       EvMetaDelete (bk_name b) True \<in> set l)) (do {
        err \<leftarrow> fetchMetaServiceClient env (sp_metadataLocation (bk_spec b));
        if err \<noteq> None then State_Monad.return err
        else do {
          err2 \<leftarrow> call (me_delete env (bk_name b)) (\<lambda>e. EvMetaDelete (bk_name b) (e = None));
          State_Monad.return (if err2 \<noteq> None
            then Some (errorf (''unable to delete metadata backup file '' @ bk_name b)) else None) } })"
  proof (rule traces_bind [OF f], rule traces_if, goal_cases)
    case (1 err l)
    then show ?case by (intro traces_return) auto
  next
    case (2 err l)
    show ?case by (rule traces_bind [OF d], rule traces_return) (use 2 in auto)
  qed
qed

lemma failed_backup_keeps_metadata:
  "bk_state b = BackupStateFailed \<Longrightarrow> run_state (deleteMetadataBackup env b) s = (None, s)"
  by (simp add: deleteMetadataBackup_def)

text \<open>C2: the finalizer of a backup is removed only after a list of its volume backup contents that
  succeeded and was empty, and, when the stage of the backup is Resources or later and its state is not
  Failed, after its metadata was deleted from the backup location. A failed backup loses its finalizer
  without a deletion of metadata, whatever its stage (\<open>failed_backup_keeps_metadata\<close>).\<close>

theorem deleteBackup_safe:
  assumes "run_state (deleteBackup env b) s = (r, s')"
  shows "\<exists>l. bc_log s' = bc_log s @ l \<and> guarded is_patch (\<lambda>e. e = EvListVBC 0 True) l \<and>
     (bk_state b \<noteq> BackupStateFailed \<longrightarrow> toOrdinal BackupStageResources \<le> toOrdinal (bk_stage b) \<longrightarrow>
      guarded is_patch (\<lambda>e. e = EvMetaDelete (bk_name b) True) l)"
proof -
  let ?G = "\<lambda>l. guarded is_patch (\<lambda>e. e = EvListVBC 0 True) l \<and>
     (bk_state b \<noteq> BackupStateFailed \<longrightarrow> toOrdinal BackupStageResources \<le> toOrdinal (bk_stage b) \<longrightarrow>
      guarded is_patch (\<lambda>e. e = EvMetaDelete (bk_name b) True) l)"
  have none: "?G l" if "\<forall>e \<in> set l. \<not> is_patch e" for l using that by (simp add: guarded_none)
  have pre: "?G (l @ l')" if "\<forall>e \<in> set l. \<not> is_patch e"
      "EvListVBC 0 True \<in> set l" "bk_state b \<noteq> BackupStateFailed \<longrightarrow>
        toOrdinal BackupStageResources \<le> toOrdinal (bk_stage b) \<longrightarrow> EvMetaDelete (bk_name b) True \<in> set l" for l l'
    using that by (auto intro!: guarded_append)
  have rem: "traces (\<lambda>_ l. \<forall>e \<in> set l. \<not> is_patch e) (removeVolumeBackup env b)"
    unfolding traces_appends [symmetric] by (rule appends_removeVolumeBackup) simp_all
  have any: "traces (\<lambda>_ _. True) m" if "appends (\<lambda>_. True) m" for m :: "('w bctrl, goerr option hout) state"
    using that by (simp add: traces_appends)
  have tail: "appends (\<lambda>_. True) (do {
           (pb, err3) \<leftarrow> patchBackup (ce_api env) b (cleaned b);
           case pb of None \<Rightarrow> State_Monad.return HPanic
           | Some updated \<Rightarrow> do {
               err4 \<leftarrow> cache_clean (ce_api env) updated;
               State_Monad.return (HRet err4) } })"
    by (intro appends_bind appends_rules appends_patchBackup appends_cache_clean) auto
  have "traces (\<lambda>_. ?G) (deleteBackup env b)"
    unfolding deleteBackup_def
  proof (rule traces_bind [OF rem], rule traces_if, goal_cases)
    case (1 err l1)
    then show ?case by (intro traces_return) (simp add: none)
  next
    case (2 err l1)
    show ?case
    proof (rule traces_bind [OF traces_list_vbcs], clarify, intro traces_if, goal_cases)
      case (1 vbcs e1)
      then show ?case using 2(1) by (intro traces_return) (simp add: none)
    next
      case (2 vbcs e1)
      then show ?case using \<open>\<forall>e \<in> set l1. \<not> is_patch e\<close> by (intro traces_return) (simp add: none)
    next
      case (3 vbcs e1)
      have l2: "EvListVBC (length vbcs) (e1 = None) = EvListVBC 0 True" using 3 by simp
      show ?case
      proof (rule traces_bind [OF traces_deleteMetadataBackup], rule traces_if, goal_cases)
        case (1 err2 l3)
        then show ?case using \<open>\<forall>e \<in> set l1. \<not> is_patch e\<close>
          by (intro traces_return conjI impI guarded_none) auto
      next
        case (2 err2 l3)
        let ?L = "l1 @ [EvListVBC (length vbcs) (e1 = None)] @ l3"
        have nop: "\<forall>e \<in> set ?L. \<not> is_patch e" using 2(1) \<open>\<forall>e \<in> set l1. \<not> is_patch e\<close> by auto
        have lst: "EvListVBC 0 True \<in> set ?L" using l2 by simp
        have del: "bk_state b \<noteq> BackupStateFailed \<longrightarrow>
            toOrdinal BackupStageResources \<le> toOrdinal (bk_stage b) \<longrightarrow> EvMetaDelete (bk_name b) True \<in> set ?L"
          using 2 by simp
        have "?G (l1 @ [EvListVBC (length vbcs) (e1 = None)] @ l3 @ l')" for l'
          using pre [OF nop lst del, of l'] unfolding append_assoc .
        then show ?case by (intro traces_weaken [OF any [OF tail]])
      qed
    qed
  qed
  then show ?thesis by (rule tracesD [OF _ assms])
qed

section \<open>Work starts under protection\<close>

definition is_work :: "bk_event \<Rightarrow> bool" where "is_work e \<longleftrightarrow> is_hook e \<or> is_vol e \<or> is_meta e"

definition protects :: "bk_event \<Rightarrow> bool" where
  "protects e \<longleftrightarrow> (\<exists>a b. e = EvPatch a b True \<and> backupFinalizer \<in> set (meta_finalizers (bk_meta b)))"

lemma status_not_work [simp]: "is_status e \<Longrightarrow> \<not> is_work e"
  by (simp add: is_work_def)

lemma traces_patchBackup:
  "traces (\<lambda>r l. (\<forall>e \<in> set l. is_status e) \<and> (snd r = None \<longrightarrow> l = [EvPatch a b True])) (patchBackup api a b)"
  unfolding patchBackup_def
proof (cases "ba_mergePatch api a b")
  case (Inr p)
  have c: "traces (\<lambda>r l. l = [EvPatch a b (snd r = None)]) (call (ba_Patch api (bk_name a) p)
      (\<lambda>(_, e). EvPatch a b (e = None)))"
    by (rule traces_call) (auto split: prod.splits)
  have u: "traces (\<lambda>r l. l = []) (cache_update api x)" for x
    by (auto simp: traces_def dest!: run_cache_update)
  show "traces (\<lambda>r l. (\<forall>e \<in> set l. is_status e) \<and> (snd r = None \<longrightarrow> l = [EvPatch a b True]))
     (case ba_mergePatch api a b of
     Inl err \<Rightarrow> State_Monad.return (None, Some (wrap err ''error creating json merge patch for backup''))
   | Inr patchBytes \<Rightarrow> do {
       (updatedBackup, err) \<leftarrow> call (ba_Patch api (bk_name a) patchBytes)
          (\<lambda>(_, e). EvPatch a b (e = None));
       case err of
         Some e \<Rightarrow> State_Monad.return (None, Some (wrap e ''error patching backup''))
       | None \<Rightarrow> do {
           (_, cerr) \<leftarrow> cache_update api updatedBackup;
           State_Monad.return (Some updatedBackup,
             map_option (\<lambda>e. wrap e ''Failed to updated processed backup cache'') cerr) } })"
    unfolding Inr sum.case
  proof (rule traces_bind [OF c], clarify)
    fix x e
    show "traces (\<lambda>r l'. (\<forall>e' \<in> set ([EvPatch a b (snd (x, e) = None)] @ l'). is_status e') \<and>
        (snd r = None \<longrightarrow> [EvPatch a b (snd (x, e) = None)] @ l' = [EvPatch a b True]))
      (case e of
         Some e \<Rightarrow> State_Monad.return (None, Some (wrap e ''error patching backup''))
       | None \<Rightarrow> do {
           (_, cerr) \<leftarrow> cache_update api x;
           State_Monad.return (Some x,
             map_option (\<lambda>e. wrap e ''Failed to updated processed backup cache'') cerr) })"
      by (cases e) (auto intro!: traces_return traces_bind [OF u])
  qed
qed (simp add: traces_return)

lemma traces_backupInitialize:
  assumes "backupFinalizer \<notin> set (meta_finalizers (bk_meta b))"
  shows "traces (\<lambda>r l. (\<forall>e \<in> set l. is_status e) \<and> (snd r = None \<longrightarrow> (\<exists>e \<in> set l. protects e)))
     (backupInitialize env b)"
proof -
  let ?fb = "b\<lparr>bk_meta := the (SetFinalizer (Some (bk_meta b)) backupFinalizer)\<rparr>"
  have fin: "protects (EvPatch b ?fb True)"
    using assms by (auto simp: protects_def SetFinalizer_def)
  have up: "traces (\<lambda>_ l. \<forall>e \<in> set l. is_status e) (updateBackupStatus (ce_api env) x st)" for x st
    unfolding traces_appends [symmetric] by (rule appends_updateBackupStatus) simp
  have nw: "traces (\<lambda>_ l. l = []) (ask f)" for f :: "'w \<Rightarrow> int"
    by (simp add: traces_def)
  have p: "traces (\<lambda>r l. (\<forall>e \<in> set l. is_status e) \<and> (snd r = None \<longrightarrow> (\<exists>e \<in> set l. protects e)))
     (do { (pb, err) \<leftarrow> patchBackup (ce_api env) b ?fb; State_Monad.return (pb, err) })"
    by (rule traces_bind [OF traces_patchBackup]) (auto intro!: traces_return simp: fin)
  have cond: "\<not> ContainsFinalizer (Some (bk_meta b)) backupFinalizer" using assms by simp
  show ?thesis
    unfolding backupInitialize_def if_P [OF cond]
  proof (rule traces_bind [OF p], clarify, goal_cases)
    case (1 pb err l)
    show ?case
    proof (cases err)
      case None
      show ?thesis unfolding None prod.case option.case Let_def
        by (rule traces_bind [OF nw], rule traces_weaken [OF up]) (use 1 None in auto)
    next
      case (Some e)
      then show ?thesis using 1 by (auto intro!: traces_return)
    qed
  qed
qed

lemma traces_any: "appends (\<lambda>_. True) m \<Longrightarrow> traces (\<lambda>_ _. True) m"
  by (simp add: traces_appends)

lemma logs_syncBackup: "traces (\<lambda>_ _. True) (syncBackup env b)"
  by (rule traces_weaken [OF traces_syncBackup]) simp

lemma appends_validateBackup: "appends is_status (validateBackup env b)"
  unfolding validateBackup_def
  by (intro appends_bind appends_rules appends_updateBackupStatusWithEvent) auto

lemma appends_ensure: "appends is_status (ensureSupportedResourceList env b)"
  unfolding ensureSupportedResourceList_def by (intro appends_rules appends_patchBackup) auto

text \<open>C4: a new backup is protected before any work starts: if the object does not carry the
  finalizer when it is taken off the queue, the first hook, volume operation or metadata message
  of the pass comes after a successful patch that adds the finalizer.\<close>

theorem work_after_finalizer:
  assumes "run_state (process_initial env b) s = (r, s')"
    and "backupFinalizer \<notin> set (meta_finalizers (bk_meta b))"
  shows "\<exists>l. bc_log s' = bc_log s @ l \<and> guarded is_work protects l"
proof -
  let ?rest = "\<lambda>backup. do {
       (isValid, _) \<leftarrow> validateBackup env backup;
       if \<not> isValid then State_Monad.return (HRet None)
       else do {
         (eb, err2) \<leftarrow> ensureSupportedResourceList env backup;
         if err2 \<noteq> None then State_Monad.return (HRet err2)
         else do {
           (nb, err3) \<leftarrow> set_state env (the eb) BackupStageNone BackupStateCompleted
              EventValidationSuccess ''Backup spec validation success'';
           if err3 \<noteq> None then State_Monad.return (HRet err3) else syncBackup env nb } } }"
  have sb: "appends (\<lambda>_. True) (syncBackup env nb)" for nb
    using logs_syncBackup [of env nb] by (simp add: traces_appends)
  have rest: "traces (\<lambda>_ _. True) (?rest backup)" for backup
    by (intro traces_any appends_bind appends_rules sb appends_set_state TrueI
        appends_weaken [OF appends_validateBackup] appends_weaken [OF appends_ensure])
  have init: "isBackupInitNeeded b" using assms(2) by (simp add: isBackupInitNeeded_def)
  have "traces (\<lambda>_. guarded is_work protects) (process_initial env b)"
    unfolding process_initial_def if_P [OF init]
  proof (rule traces_bind [OF traces_backupInitialize [OF assms(2)]], clarify, rule traces_if, goal_cases)
    case (1 backup err l)
    then show ?case by (intro traces_return guarded_none) auto
  next
    case (2 backup err l)
    have "guarded is_work protects (l @ l')" for l'
      using 2 by (intro guarded_append) auto
    then show ?case by (intro traces_weaken [OF rest])
  qed
  then show ?thesis by (rule tracesD [OF _ assms(1)])
qed

section \<open>Witnesses\<close>

text \<open>A controller over the unit world: the server accepts every update and stamps a revision,
  a patch returns an object in the initial stage, and the verdict of the hooks is a parameter.\<close>

definition demo_api :: "'w backup_api" where
  "demo_api = \<lparr>ba_objKey = (\<lambda>b. Inr (bk_name b)),
     ba_mergePatch = (\<lambda>_ _. Inr []),
     ba_Patch = (\<lambda>n p w. if n = [] then ((zero_Backup, Some (errorf ''no name'')), w) else ((zero_Backup\<lparr>bk_meta := zero_meta\<lparr>meta_name := n, meta_resourceVersion := ''3'',
          meta_finalizers := [backupFinalizer]\<rparr>,
        bk_status := zero_BackupStatus\<lparr>st_stage := BackupStageInitial\<rparr>\<rparr>, None), w)),
     ba_UpdateStatus = (\<lambda>b w. if bk_name b = [] then ((zero_Backup, Some (errorf ''no name'')), w)
        else ((b\<lparr>bk_meta := (bk_meta b)\<lparr>meta_resourceVersion := ''3''\<rparr>\<rparr>, None), w)),
     ba_Now = (\<lambda>_. 7)\<rparr>"

definition demo_unit_kube :: "'w kube" where
  "demo_unit_kube = \<lparr>kc_services = (\<lambda>_ _ _. Inr []), kc_metas = (\<lambda>_ _ _ _. Inr []),
     kc_pods = (\<lambda>_ _ _. Inr []), kc_workloads = (\<lambda>_ _ _ _. Inr []),
     kc_pvcs = (\<lambda>_ _ _. Inr []), kc_bindings = (\<lambda>_ _ _. Inr []),
     kc_getMeta = (\<lambda>_ _ n _. (zero_meta\<lparr>meta_name := n\<rparr>, None)),
     kc_getPVC = (\<lambda>_ _ _. Inl (errorf ''none'')), kc_getPV = (\<lambda>_ _. Inl (errorf ''none''))\<rparr>"

definition demo_unit_collect :: "'w collect_env" where
  "demo_unit_collect = \<lparr>co_kube = demo_unit_kube,
     co_objectKinds = (\<lambda>_. Inr [\<lparr>gvk_group = [], gvk_version = ''v1'', gvk_kind = ''X''\<rparr>]),
     co_marshal = (\<lambda>_. Inr ''data''), co_compile = (\<lambda>_. None), co_selector = (\<lambda>_. []),
     co_Send = (\<lambda>_ w. (None, w))\<rparr>"

definition demo_meta :: "'w meta_env" where
  "demo_meta = \<lparr>me_api = demo_api, me_collect = demo_unit_collect,
     me_locationGet = (\<lambda>n _. if n = ''loc'' then Inr \<lparr>bl_name = n, bl_provider = ''nfs'', bl_config = Map.empty\<rparr>
        else Inl (GoErr NotFound ''no location'')),
     me_providerGet = (\<lambda>n _. Inr \<lparr>pr_name = n, pr_manifest = Map.empty, pr_type = ''MetadataProvider'',
        pr_annotations = [BackupLocationServiceAnnotation \<mapsto> ''svc'']\<rparr>),
     me_connect = (\<lambda>_ w. (None, w)), me_openBackup = (\<lambda>w. (None, w)), me_identify = (\<lambda>_ w. (None, w)),
     me_closeAndRecv = (\<lambda>w. (None, w)), me_delete = (\<lambda>_ w. (None, w)),
     me_byKind = (\<lambda>k. Inr \<lparr>ar_name = k, ar_group = [], ar_version = ''v1'', ar_kind = k\<rparr>),
     me_listVBC = (\<lambda>_ w. (([], None), w)), me_marshalVBC = (\<lambda>_. Inr ''x''), me_supported = [],
     me_order = sets_List\<rparr>"

definition demo_volume :: "'w volume_ops" where
  "demo_volume = \<lparr>vo_groupByPVCs = (\<lambda>_ _ w. (Inr ''g'', w)), vo_snapshotByGroup = (\<lambda>_ w. (Inr ''s'', w)),
     vo_snapshotApply = (\<lambda>_ w. (None, w)), vo_waitForSnapshot = (\<lambda>_ _ w. (None, w)),
     vo_backupBySnapshot = (\<lambda>_ w. (Inr ''b'', w)), vo_backupApply = (\<lambda>_ _ w. (None, w))\<rparr>"

definition demo_ctrl :: "goerr option \<Rightarrow> ('w, (string \<times> unstructured) list) ctrl_env" where
  "demo_ctrl herr = \<lparr>ce_meta = demo_meta, ce_res = demo_res, ce_ix = alist_indexer, ce_newCache = [],
     ce_splitKey = Inr, ce_backupGet = (\<lambda>_ _. Inl (GoErr NotFound [])), ce_backupList = (\<lambda>_. Inr []),
     ce_hook = (\<lambda>_ _ w. (herr, w)), ce_deleteVBC = (\<lambda>_ w. (None, w)), ce_volume = demo_volume,
     ce_compile = (\<lambda>_. Some (\<lambda>_. True))\<rparr>"

definition demo_backup :: "BackupStage \<Rightarrow> BackupState \<Rightarrow> Backup" where
  "demo_backup g t = zero_Backup\<lparr>bk_meta := zero_meta\<lparr>meta_name := ''b1'', meta_resourceVersion := ''2''\<rparr>,
     bk_spec := zero_BackupSpec\<lparr>sp_metadataLocation := ''loc''\<rparr>, bk_status := status_of g t\<rparr>"

definition demo_unit :: "unit bctrl" where
  "demo_unit = \<lparr>bc_processed = NewStore (\<lambda>b. Inr (bk_name b)), bc_world = (), bc_log = [],
     bc_supported = SupportedResourceList\<rparr>"

theorem syncBackup_order_witness:
  "\<exists>r s'. run_state (syncBackup (demo_ctrl None) (demo_backup BackupStageInitial BackupStateCompleted)) demo_unit
      = (r, s') \<and> guarded is_meta post_ok (bc_log s') \<and> guarded is_vol pre_ok (bc_log s') \<and>
      guarded is_post pre_any (bc_log s')"
proof -
  obtain r s' where run: "run_state (syncBackup (demo_ctrl None)
      (demo_backup BackupStageInitial BackupStateCompleted)) demo_unit = (r, s')" by fastforce
  show ?thesis using syncBackup_order [OF run] run by (auto simp: demo_backup_def demo_unit_def)
qed

lemma parse_3 [simp]: "ParseInt ''2'' = Some 2"
  by (simp add: ParseInt_def digit_val_def in_int64_def)

lemmas demo_run_defs = demo_ctrl_def demo_meta_def demo_api_def demo_unit_def demo_backup_def
  NewStore_def zero_Backup_def zero_meta_def

lemmas update_defs = set_state_def updateBackupStatusWithEvent_def updateBackupStatus_def
  cache_update_def StoreRevisionUpdate_def store_Get_def store_Add_def store_Update_def
  revisionAccessor_def mergeBackupStatus_def Let_def

lemma demo_prehook_fails:
  "EvHook PreHookPhase False \<in> set (bc_log (snd (run_state
      (sync_prehook (demo_ctrl (Some (errorf ''x''))) (demo_backup BackupStagePreHook BackupStateNew)) demo_unit)))"
  by (simp add: sync_prehook_def exec_hook_def reversePreHooksExecutionOnFailure_def update_defs demo_run_defs)

theorem failed_prehook_stops_witness:
  "filter (\<lambda>e. is_vol e \<or> is_meta e) (bc_log (snd (run_state (sync_prehook (demo_ctrl (Some (errorf ''x'')))
      (demo_backup BackupStagePreHook BackupStateNew)) demo_unit))) = []"
proof -
  obtain r s' where run: "run_state (sync_prehook (demo_ctrl (Some (errorf ''x'')))
      (demo_backup BackupStagePreHook BackupStateNew)) demo_unit = (r, s')" by fastforce
  show ?thesis using failed_prehook_stops [OF run] demo_prehook_fails run
    by (simp add: demo_unit_def filter_empty_conv)
qed

theorem deleteBackup_safe_witness:
  "\<exists>r s'. run_state (deleteBackup (demo_ctrl None) (demo_backup BackupStageFinished BackupStateCompleted)) demo_unit
      = (r, s') \<and> guarded is_patch (\<lambda>e. e = EvListVBC 0 True) (bc_log s') \<and>
      guarded is_patch (\<lambda>e. e = EvMetaDelete ''b1'' True) (bc_log s')"
proof -
  obtain r s' where run: "run_state (deleteBackup (demo_ctrl None)
      (demo_backup BackupStageFinished BackupStateCompleted)) demo_unit = (r, s')" by fastforce
  show ?thesis using deleteBackup_safe [OF run] run by (auto simp: demo_backup_def demo_unit_def)
qed

theorem work_after_finalizer_witness:
  "\<exists>r s'. run_state (process_initial (demo_ctrl None) (demo_backup BackupStageNone BackupStateNone)) demo_unit
      = (r, s') \<and> guarded is_work protects (bc_log s')"
proof -
  obtain r s' where run: "run_state (process_initial (demo_ctrl None)
      (demo_backup BackupStageNone BackupStateNone)) demo_unit = (r, s')" by fastforce
  show ?thesis using work_after_finalizer [OF run] run
    by (auto simp: demo_backup_def demo_unit_def zero_meta_def)
qed

end
