(* ===== verification/Backup_Progress.thy ===== *)
theory Backup_Progress
  imports Backup_Safety
begin

text \<open>
  Progress of a backup through its stages: when the API server stores what it accepts, the stages
  the controller writes never go back; a backup whose steps succeed reaches the finished stage
  with a completion time; an invalid specification is recorded and nothing is done. The theory
  ends with the places where the updater and the deletion handler lose or mishandle errors.
\<close>

section \<open>Stages never go back\<close>

definition stage_of_event :: "bk_event \<Rightarrow> int list" where
  "stage_of_event e = (case e of EvUpdateStatus b ok \<Rightarrow> if ok then [toOrdinal (bk_stage b)] else [] | _ \<Rightarrow> [])"

definition stages_of :: "bk_event list \<Rightarrow> int list" where
  "stages_of l = concat (map stage_of_event l)"

lemma stages_of_simps [simp]:
  "stages_of [] = []" "stages_of (e # l) = stage_of_event e @ stages_of l"
  "stages_of (l @ l') = stages_of l @ stages_of l'"
  by (simp_all add: stages_of_def)

text \<open>The API server, with an observer \<open>stored\<close> of the stages it stores by name: an accepted status update
  is stored and returned, an accepted merge patch between objects of one status leaves the stored status and
  returns it, a nameless object is not accepted, and a refused request comes with the zero object of the
  client (an update that is reported as refused may have been stored).\<close>

type_synonym 'w stage_observer = "'w \<Rightarrow> string \<Rightarrow> BackupStage"

definition server_ok :: "'w backup_api \<Rightarrow> 'w stage_observer \<Rightarrow> bool" where
  "server_ok api stored \<longleftrightarrow>
     (\<forall>b w b' e w'. ba_UpdateStatus api b w = ((b', e), w') \<longrightarrow>
        (if e = None then bk_name b \<noteq> [] \<and> bk_name b' = bk_name b \<and> bk_stage b' = bk_stage b \<and>
           stored w' = (stored w)(bk_name b := bk_stage b)
         else bk_name b' = [] \<and>
           (stored w' = stored w \<or> bk_name b \<noteq> [] \<and> stored w' = (stored w)(bk_name b := bk_stage b)))) \<and>
     (\<forall>a b p w b' e w'. ba_mergePatch api a b = Inr p \<longrightarrow> bk_status a = bk_status b \<longrightarrow>
        ba_Patch api (bk_name a) p w = ((b', e), w') \<longrightarrow> stored w' = stored w \<and>
        (if e = None then bk_name a \<noteq> [] \<and> bk_name b' = bk_name a \<and> bk_stage b' = stored w (bk_name a)
         else bk_name b' = []))"

text \<open>Hooks, which run commands in pods, do not set a backup back.\<close>

definition hooks_quiet :: "('w, 'c) ctrl_env \<Rightarrow> 'w stage_observer \<Rightarrow> bool" where
  "hooks_quiet env stored \<longleftrightarrow> (\<forall>spec ph w n.
     toOrdinal (stored w n) \<le> toOrdinal (stored (snd (ce_hook env spec ph w)) n))"

text \<open>The object the controller works on: it lies at or above the stage bound, or descends from a
  refused request.\<close>

definition at_least :: "string \<Rightarrow> int \<Rightarrow> Backup \<Rightarrow> bool" where
  "at_least nm n b \<longleftrightarrow> bk_name b = [] \<or> bk_name b = nm \<and> n \<le> toOrdinal (bk_stage b)"

text \<open>What is known of the stored stage: that it lies above the bound, or nothing.\<close>

abbreviation above :: "'w stage_observer \<Rightarrow> string \<Rightarrow> int \<Rightarrow> 'w \<Rightarrow> bool" where
  "above stored nm n w \<equiv> n \<le> toOrdinal (stored w nm)"

abbreviation unbound :: "int \<Rightarrow> 'w \<Rightarrow> bool" where "unbound \<equiv> \<lambda>_ _. True"

definition adv ::
  "(int \<Rightarrow> 'w \<Rightarrow> bool) \<Rightarrow> (int \<Rightarrow> 'w \<Rightarrow> bool) \<Rightarrow> int \<Rightarrow> (int \<Rightarrow> 'a \<Rightarrow> bool) \<Rightarrow> ('w bctrl, 'a) state \<Rightarrow> bool" where
  "adv I J n P m \<longleftrightarrow> (\<forall>s r s'. I n (bc_world s) \<longrightarrow> run_state m s = (r, s') \<longrightarrow>
     (\<exists>l k. bc_log s' = bc_log s @ l \<and> sorted (n # stages_of l @ [k]) \<and> J k (bc_world s') \<and> P k r))"

lemma advI:
  assumes "\<And>s r s'. I n (bc_world s) \<Longrightarrow> run_state m s = (r, s') \<Longrightarrow>
     \<exists>l k. bc_log s' = bc_log s @ l \<and> sorted (n # stages_of l @ [k]) \<and> J k (bc_world s') \<and> P k r"
  shows "adv I J n P m"
  using assms by (simp add: adv_def)

lemma advD:
  assumes "adv I J n P m" "I n (bc_world s)" "run_state m s = (r, s')"
  obtains l k where "bc_log s' = bc_log s @ l" "sorted (n # stages_of l @ [k])" "J k (bc_world s')" "P k r"
  using assms unfolding adv_def by blast

lemma adv_return: "P n x \<Longrightarrow> adv I I n P (State_Monad.return x)"
  by (force intro: advI)

lemma adv_end: "adv I J n P m \<Longrightarrow> adv I unbound n P m"
  by (rule advI) (erule (2) advD, blast)

lemma adv_from: "adv unbound J n P m \<Longrightarrow> adv I J n P m"
  unfolding adv_def by blast

lemma adv_stop: "P n x \<Longrightarrow> adv I unbound n P (State_Monad.return x)"
  by (rule adv_end [OF adv_return])

lemma sorted_chain:
  assumes "sorted (n # xs @ [k :: int])" "sorted (k # ys @ [j])"
  shows "sorted (n # (xs @ ys) @ [j])"
proof -
  have k: "\<forall>x \<in> set xs. x \<le> k" "n \<le> k" "sorted xs" "\<forall>x \<in> set xs. n \<le> x"
    using assms(1) by (auto simp: sorted_append)
  have y: "\<forall>y \<in> set (ys @ [j]). k \<le> y" "sorted (ys @ [j])" using assms(2) by auto
  then have "\<forall>x \<in> set (n # xs). \<forall>y \<in> set (ys @ [j]). x \<le> y" using k by fastforce
  then have "sorted ((n # xs) @ (ys @ [j]))" using k y(2) by (simp only: sorted_append) auto
  then show ?thesis by simp
qed

lemma adv_bind:
  assumes "adv I J n P m" "\<And>k a. n \<le> k \<Longrightarrow> P k a \<Longrightarrow> adv J K k Q (f a)"
  shows "adv I K n Q (State_Monad.bind m f)"
proof (rule advI)
  fix s r s' assume s: "I n (bc_world s)" and run: "run_state (State_Monad.bind m f) s = (r, s')"
  obtain a t where m: "run_state m s = (a, t)" by fastforce
  then have f: "run_state (f a) t = (r, s')" using run by simp
  obtain l k where l: "bc_log t = bc_log s @ l" "sorted (n # stages_of l @ [k])" "J k (bc_world t)" "P k a"
    using advD [OF assms(1) s m] by blast
  have rest: "adv J K k Q (f a)" using l(2,4) by (intro assms(2)) auto
  obtain l' j where l': "bc_log s' = bc_log t @ l'" "sorted (k # stages_of l' @ [j])" "K j (bc_world s')" "Q j r"
    using advD [OF rest, of t r s'] l(3) f by blast
  have "sorted (n # stages_of (l @ l') @ [j])" using sorted_chain [OF l(2) l'(2)] by simp
  then show "\<exists>l k. bc_log s' = bc_log s @ l \<and> sorted (n # stages_of l @ [k]) \<and> K k (bc_world s') \<and> Q k r"
    using l(1) l'(1,3,4) by (intro exI [of _ "l @ l'"] exI [of _ j]) simp
qed

lemma adv_if: "(b \<Longrightarrow> adv I J n P m) \<Longrightarrow> (\<not> b \<Longrightarrow> adv I J n P m') \<Longrightarrow> adv I J n P (if b then m else m')"
  by simp

lemma adv_option:
  "(x = None \<Longrightarrow> adv I J n P m) \<Longrightarrow> (\<And>y. x = Some y \<Longrightarrow> adv I J n P (f y)) \<Longrightarrow>
     adv I J n P (case x of None \<Rightarrow> m | Some y \<Rightarrow> f y)"
  by (cases x) auto

lemma adv_sum:
  "(\<And>y. x = Inl y \<Longrightarrow> adv I J n P (f y)) \<Longrightarrow> (\<And>y. x = Inr y \<Longrightarrow> adv I J n P (g y)) \<Longrightarrow>
     adv I J n P (case x of Inl y \<Rightarrow> f y | Inr y \<Rightarrow> g y)"
  by (cases x) auto

lemma adv_prod: "(\<And>a b. x = (a, b) \<Longrightarrow> adv I J n P (f a b)) \<Longrightarrow> adv I J n P (case x of (a, b) \<Rightarrow> f a b)"
  by (cases x) auto

lemma adv_hout:
  "(\<And>a. x = HRet a \<Longrightarrow> adv I J n P (f a)) \<Longrightarrow> adv I J n P p \<Longrightarrow> adv I J n P h \<Longrightarrow>
     adv I J n P (case x of HRet a \<Rightarrow> f a | HPanic \<Rightarrow> p | HHang \<Rightarrow> h)"
  by (cases x) auto

lemma adv_outcome:
  "(\<And>a. x = Ret a \<Longrightarrow> adv I J n P (f a)) \<Longrightarrow> adv I J n P p \<Longrightarrow> adv I J n P (case x of Ret a \<Rightarrow> f a | Panic \<Rightarrow> p)"
  by (cases x) auto

lemmas adv_cases = adv_if adv_option adv_sum adv_prod adv_hout adv_outcome

lemma adv_weaken: "adv I J n P m \<Longrightarrow> (\<And>k r. P k r \<Longrightarrow> Q k r) \<Longrightarrow> adv I J n Q m"
  unfolding adv_def by blast

fun is_upd :: "bk_event \<Rightarrow> bool" where
  "is_upd (EvUpdateStatus _ _) = True" | "is_upd _ = False"

lemma stages_of_none: "\<forall>e \<in> set l. \<not> is_upd e \<Longrightarrow> stages_of l = []"
  by (induction l) (auto simp: stage_of_event_def split: bk_event.splits)

text \<open>Steps without a status update, which may or may not touch the world.\<close>

lemma adv_other: "appends (\<lambda>e. \<not> is_upd e) m \<Longrightarrow> adv I unbound n (\<lambda>k _. k = n) m"
  unfolding appends_def by (rule advI) (fastforce simp: stages_of_none)

lemma adv_still:
  assumes "appends (\<lambda>e. \<not> is_upd e) m" "\<And>s. bc_world (snd (run_state m s)) = bc_world s"
  shows "adv I I n (\<lambda>k _. k = n) m"
proof (rule advI)
  fix s r s' assume s: "I n (bc_world s)" and run: "run_state m s = (r, s')"
  obtain l where "bc_log s' = bc_log s @ l" "\<forall>e \<in> set l. \<not> is_upd e" using assms(1) run unfolding appends_def by blast
  then show "\<exists>l k. bc_log s' = bc_log s @ l \<and> sorted (n # stages_of l @ [k]) \<and> I k (bc_world s') \<and> k = n"
    using s assms(2) [of s] run stages_of_none by (intro exI [of _ l] exI [of _ n]) simp
qed

lemma adv_emit: "\<not> is_upd ev \<Longrightarrow> adv I I n (\<lambda>k _. k = n) (emit ev)"
  by (rule adv_still) (auto intro: appends_emit)

lemma adv_ask: "adv I I n (\<lambda>k _. k = n) (ask f)"
  by (rule adv_still) (simp_all add: appends_def)

lemma adv_cache: "adv I I n (\<lambda>k _. k = n) (cache_update api x)"
  by (rule adv_still [OF appends_cache_update]) (auto simp: cache_update_def split: prod.splits)

section \<open>Updates and patches\<close>

text \<open>A status update keeps either knowledge.\<close>

lemma adv_updateBackupStatus_keeps:
  assumes srv: "server_ok api stored" and b: "at_least nm n b" and I: "I \<in> {unbound, above stored nm}"
  shows "adv I I n (\<lambda>k r. at_least nm k (fst r)) (updateBackupStatus api b st)"
proof (cases "mergeBackupStatus b st")
  case (Pair clone dirty)
  have clone: "bk_name clone = bk_name b" "toOrdinal (bk_stage b) \<le> toOrdinal (bk_stage clone)"
    using merge_frame(1) [of b st] merge_stage_mono [of b st] Pair by simp_all
  have nd: "clone = b" if "\<not> dirty" using merge_clean [of b st] Pair that by simp
  have c: "adv I I n (\<lambda>k r. at_least nm k (fst r)) (call (ba_UpdateStatus api clone) (\<lambda>(_, e). EvUpdateStatus clone (e = None)))"
  proof (rule advI)
    fix s r s' assume s: "I n (bc_world s)" and run: "run_state (call (ba_UpdateStatus api clone) (\<lambda>(_, e). EvUpdateStatus clone (e = None))) s = (r, s')"
    obtain b' e w' where u: "ba_UpdateStatus api clone (bc_world s) = ((b', e), w')" by (metis prod.collapse)
    have laws: "if e = None then bk_name clone \<noteq> [] \<and> bk_name b' = bk_name clone \<and> bk_stage b' = bk_stage clone \<and>
          stored w' = (stored (bc_world s))(bk_name clone := bk_stage clone)
       else bk_name b' = [] \<and> (stored w' = stored (bc_world s) \<or>
          bk_name clone \<noteq> [] \<and> stored w' = (stored (bc_world s))(bk_name clone := bk_stage clone))"
      using srv u unfolding server_ok_def by blast
    have res: "r = (b', e)" "bc_log s' = bc_log s @ [EvUpdateStatus clone (e = None)]" "bc_world s' = w'" using run u by auto
    have "\<exists>k. sorted (n # stages_of [EvUpdateStatus clone (e = None)] @ [k]) \<and> I k w' \<and> at_least nm k b'"
    proof (cases "e = None")
      case True
      then show ?thesis using laws clone b I
        by (intro exI [of _ "toOrdinal (bk_stage clone)"]) (auto simp: at_least_def stage_of_event_def)
    next
      case False
      then have "I n w'" using laws clone b I s by (auto simp: at_least_def)
      then show ?thesis using laws False by (intro exI [of _ n]) (auto simp: at_least_def stage_of_event_def)
    qed
    then show "\<exists>l k. bc_log s' = bc_log s @ l \<and> sorted (n # stages_of l @ [k]) \<and> I k (bc_world s') \<and> at_least nm k (fst r)"
      using res by auto
  qed
  show ?thesis
    unfolding updateBackupStatus_def Pair prod.case
    using b nd by (auto intro!: adv_if adv_bind [OF c] adv_bind [OF adv_cache] adv_return)
qed

lemma adv_updateWithEvent_keeps:
  assumes "server_ok api stored" "at_least nm n b" "I \<in> {unbound, above stored nm}"
  shows "adv I I n (\<lambda>k r. at_least nm k (fst r)) (updateBackupStatusWithEvent api b st rs msg)"
  unfolding updateBackupStatusWithEvent_def
  by (auto intro!: adv_bind [OF adv_updateBackupStatus_keeps [OF assms]] adv_if adv_bind [OF adv_emit] adv_return)

lemma adv_set_state_keeps:
  assumes "server_ok (ce_api env) stored" "at_least nm n b"
  shows "adv (above stored nm) (above stored nm) n (\<lambda>k r. at_least nm k (fst r)) (set_state env b g t rs msg)"
  unfolding set_state_def by (rule adv_updateWithEvent_keeps [OF assms]) simp

text \<open>The same without knowledge of the stored stage.\<close>

lemma adv_updateBackupStatus:
  "server_ok api stored \<Longrightarrow> at_least nm n b \<Longrightarrow> adv I unbound n (\<lambda>k r. at_least nm k (fst r)) (updateBackupStatus api b st)"
  by (rule adv_from [OF adv_updateBackupStatus_keeps]) auto

lemma adv_updateWithEvent:
  "server_ok api stored \<Longrightarrow> at_least nm n b \<Longrightarrow>
     adv I unbound n (\<lambda>k r. at_least nm k (fst r)) (updateBackupStatusWithEvent api b st rs msg)"
  by (rule adv_from [OF adv_updateWithEvent_keeps]) auto

lemma adv_set_state:
  "server_ok (ce_api env) stored \<Longrightarrow> at_least nm n b \<Longrightarrow>
     adv I unbound n (\<lambda>k r. at_least nm k (fst r)) (set_state env b g t rs msg)"
  unfolding set_state_def by (rule adv_updateWithEvent)

lemma server_patch:
  assumes "server_ok api stored" "ba_mergePatch api a b = Inr p" "bk_status a = bk_status b"
    "ba_Patch api (bk_name a) p w = ((b', e), w')"
  shows "if e = None then bk_name a \<noteq> [] \<and> bk_name b' = bk_name a \<and> bk_stage b' = stored w (bk_name a) else bk_name b' = []"
  using assms unfolding server_ok_def by blast

lemma adv_annotate:
  assumes "server_ok api stored" "at_least nm n b"
  shows "adv (above stored nm) unbound n (\<lambda>k r. at_least nm k (fst r)) (annotateBackup api an b)"
proof -
  let ?c = "b\<lparr>bk_meta := (bk_meta b)\<lparr>meta_annotations := (meta_annotations (bk_meta b))(an \<mapsto> ''true'')\<rparr>\<rparr>"
  have c: "adv (above stored nm) unbound n (\<lambda>k r. at_least nm k (fst r)) (call (ba_Patch api (bk_name b) p) (\<lambda>(_, e). EvPatch b ?c (e = None)))"
    if p: "ba_mergePatch api b ?c = Inr p" for p
  proof (rule advI)
    fix s r s' assume s: "above stored nm n (bc_world s)"
      and run: "run_state (call (ba_Patch api (bk_name b) p) (\<lambda>(_, e). EvPatch b ?c (e = None))) s = (r, s')"
    obtain b' e w' where u: "ba_Patch api (bk_name b) p (bc_world s) = ((b', e), w')" by (metis prod.collapse)
    have "if e = None then bk_name b \<noteq> [] \<and> bk_name b' = bk_name b \<and> bk_stage b' = stored (bc_world s) (bk_name b)
        else bk_name b' = []"
      by (rule server_patch [OF assms(1) p _ u]) simp
    then have "at_least nm n b'" using assms(2) s by (auto simp: at_least_def split: if_splits)
    then show "\<exists>l k. bc_log s' = bc_log s @ l \<and> sorted (n # stages_of l @ [k]) \<and> True \<and> at_least nm k (fst r)"
      using run u by (auto simp: stage_of_event_def)
  qed
  show ?thesis unfolding annotateBackup_def Let_def
    using assms(2) by (auto intro!: adv_if adv_stop adv_sum adv_bind [OF c])
qed

lemma appends_annotate_no_upd: "appends (\<lambda>e. \<not> is_upd e) (annotateBackup api an b)"
  unfolding annotateBackup_def Let_def by (intro appends_rules appends_bind appends_call) (auto split: prod.splits)

section \<open>The stages\<close>

lemma adv_call: "(\<And>r. \<not> is_upd (ev r)) \<Longrightarrow> adv I unbound n (\<lambda>k _. k = n) (call f ev)"
  by (intro adv_other appends_call)

lemma adv_hook: "adv I unbound n (\<lambda>k _. k = n) (exec_hook env b ph)"
  unfolding exec_hook_def by (rule adv_call) simp

lemma adv_hook_keeps:
  assumes "hooks_quiet env stored"
  shows "adv (above stored nm) (above stored nm) n (\<lambda>k _. k = n) (exec_hook env b ph)"
proof (rule advI)
  fix s r s' assume s: "above stored nm n (bc_world s)" and run: "run_state (exec_hook env b ph) s = (r, s')"
  have "above stored nm n (snd (ce_hook env (bk_spec b) ph (bc_world s)))"
    using s assms unfolding hooks_quiet_def by (meson order_trans)
  then show "\<exists>l k. bc_log s' = bc_log s @ l \<and> sorted (n # stages_of l @ [k]) \<and> above stored nm k (bc_world s') \<and> k = n"
    using run by (auto simp: exec_hook_def stage_of_event_def split: prod.splits)
qed

lemma adv_reverse: "adv I unbound n (\<lambda>k _. k = n) (reversePreHooksExecutionOnFailure env b ev)"
  unfolding reversePreHooksExecutionOnFailure_def
  by (auto intro!: adv_bind [OF adv_hook] adv_emit)

text \<open>The result of a step that hands on the object only when it reports no error.\<close>

definition handed :: "string \<Rightarrow> int \<Rightarrow> Backup \<times> goerr option \<Rightarrow> bool" where
  "handed nm k r \<longleftrightarrow> (snd r = None \<longrightarrow> at_least nm k (fst r))"

lemma handed_simps [simp]: "handed nm k (b, Some e)" "handed nm k (b, None) \<longleftrightarrow> at_least nm k b"
  "err \<noteq> None \<Longrightarrow> handed nm k (b, err)"
  by (auto simp: handed_def)

lemma adv_handed: "adv I J n (\<lambda>k r. at_least nm k (fst r)) m \<Longrightarrow> adv I J n (handed nm) m"
  by (erule adv_weaken) (simp add: handed_def)

lemma adv_processVolumeBackup:
  assumes "server_ok (ce_api env) stored" "at_least nm n b"
  shows "adv (above stored nm) unbound n (handed nm) (processVolumeBackup env b c)"
  unfolding processVolumeBackup_def Let_def
  using assms(2)
  by (intro adv_sum adv_if adv_bind [OF adv_set_state [OF assms]] adv_prod adv_handed [OF adv_annotate [OF assms]]
      adv_bind [OF adv_call] adv_stop)
     (auto split: option.splits simp: handed_def)

definition handed_ret :: "string \<Rightarrow> int \<Rightarrow> (Backup \<times> goerr option) hout \<Rightarrow> bool" where
  "handed_ret nm k r \<longleftrightarrow> (\<forall>x. r = HRet x \<longrightarrow> handed nm k x)"

lemma handed_ret_simps [simp]: "handed_ret nm k (HRet x) \<longleftrightarrow> handed nm k x" "handed_ret nm k HPanic" "handed_ret nm k HHang"
  by (auto simp: handed_ret_def)

lemma adv_Sync:
  assumes "server_ok api stored" "at_least nm n b"
  shows "adv (above stored nm) (above stored nm) n (\<lambda>k r. \<forall>x c'. r = HRet (x, c') \<longrightarrow> handed nm k x) (Sync api env ix c b)"
  unfolding Sync_def syncWithServer_def
  using assms(2)
  by (intro adv_cases adv_return adv_bind [OF adv_ask] adv_bind [OF adv_updateBackupStatus_keeps [OF assms(1)]])
     (auto simp: handed_def)

lemma adv_syncVolumeBackup:
  assumes "server_ok (ce_api env) stored" "at_least nm n b"
  shows "adv (above stored nm) unbound n (handed_ret nm) (syncVolumeBackup env b)"
  unfolding syncVolumeBackup_def
  using assms(2)
  by (intro adv_cases adv_stop adv_bind [OF adv_set_state [OF assms(1)]]
      adv_bind [OF adv_Sync [OF assms(1)]] adv_bind [OF adv_processVolumeBackup [OF assms(1)]])
     (auto simp: handed_def)

lemma meta_no_upd: "appends is_send m \<Longrightarrow> appends (\<lambda>e. \<not> is_upd e) m"
  by (erule appends_weaken) (auto elim: is_send.elims)

lemma runBackup_no_upd: "appends (\<lambda>e. \<not> is_upd e) (runBackup env b)"
  unfolding runBackup_def backupVolumeBackupContent_def
  by (intro appends_rules appends_bind appends_call appends_getResultant meta_no_upd [OF sends_collect_kind])
     (auto simp: Let_def split: prod.splits
       intro!: appends_rules appends_bind appends_call meta_no_upd [OF sends_collect_kind])

definition handed_out :: "string \<Rightarrow> int \<Rightarrow> (Backup \<times> goerr option) outcome \<Rightarrow> bool" where
  "handed_out nm k r \<longleftrightarrow> (\<forall>x. r = Ret x \<longrightarrow> handed nm k x)"

lemma handed_out_simps [simp]: "handed_out nm k (Ret x) \<longleftrightarrow> handed nm k x" "handed_out nm k Panic"
  by (auto simp: handed_out_def)

lemma adv_processMetadataBackup:
  assumes srv: "server_ok (me_api env) stored" and b: "at_least nm n b"
  shows "adv unbound unbound n (handed_out nm) (processMetadataBackup env b)"
proof -
  let ?b = "b\<lparr>bk_status := (bk_status b)\<lparr>st_validationErrors := []\<rparr>\<rparr>"
  have b': "at_least nm n ?b" using b by (simp add: at_least_def)
  have fail: "adv unbound unbound n (handed_out nm) (do { r \<leftarrow> updateBackupStatusWithEvent (me_api env) ?b st rs msg; State_Monad.return (Ret r) })"
    for st rs msg
    by (rule adv_bind [OF adv_updateWithEvent [OF srv b']]) (auto intro!: adv_return simp: handed_def)
  have upd: "adv unbound unbound n (handed_out nm) (do { r \<leftarrow> updateBackupStatus (me_api env) ?b st; State_Monad.return (Ret r) })" for st
    by (rule adv_bind [OF adv_updateBackupStatus [OF srv b']]) (auto intro!: adv_return simp: handed_def)
  have fetch: "adv unbound unbound n (\<lambda>k _. k = n) (fetchMetaServiceClient env l)" for l
    by (intro adv_other appends_fetchMeta) simp
  have run: "adv unbound unbound n (\<lambda>k _. k = n) (runBackup env ?b)"
    by (rule adv_other) (rule runBackup_no_upd)
  show ?thesis
    unfolding processMetadataBackup_def Let_def
    using b by (auto intro!: adv_if adv_return fail upd adv_bind [OF adv_ask] adv_sum adv_bind [OF fetch]
        adv_bind [OF adv_call] adv_bind [OF run])
qed

abbreviation forward :: "int \<Rightarrow> ('w bctrl, 'a) state \<Rightarrow> bool" where
  "forward n m \<equiv> adv unbound unbound n (\<lambda>_ _. True) m"

lemma adv_sync_finished:
  assumes "server_ok (ce_api env) stored" "at_least nm n b"
  shows "forward n (sync_finished env b)"
  unfolding sync_finished_def
  using assms by (auto intro!: adv_bind [OF adv_ask] adv_bind [OF adv_updateWithEvent] adv_return)

lemma adv_sync_resources:
  assumes "server_ok (ce_api env) stored" "at_least nm n b"
  shows "forward n (sync_resources env b)"
  unfolding sync_resources_def
  by (intro adv_bind [OF adv_processMetadataBackup [OF assms]] adv_outcome adv_prod adv_if adv_return TrueI
      adv_bind [OF adv_set_state [OF assms(1)]] adv_sync_finished [OF assms(1)])
     (auto simp: handed_def)

lemma adv_sync_posthook:
  assumes "server_ok (ce_api env) stored" "at_least nm n b"
  shows "forward n (sync_posthook env b)"
  unfolding sync_posthook_def
  using assms(2)
  by (intro adv_bind [OF adv_hook] adv_bind [OF adv_emit] adv_prod adv_if adv_return TrueI
      adv_bind [OF adv_set_state [OF assms(1)]] adv_sync_resources [OF assms(1)])
     (auto simp: handed_def)

lemma adv_sync_volumes:
  assumes "server_ok (ce_api env) stored" "at_least nm n b"
  shows "adv (above stored nm) unbound n (\<lambda>_ _. True) (sync_volumes env b)"
  unfolding sync_volumes_def
  by (intro adv_bind [OF adv_syncVolumeBackup [OF assms]] adv_hout adv_prod adv_if adv_return TrueI
      adv_bind [OF adv_set_state [OF assms(1)]] adv_bind [OF adv_reverse]
      adv_bind [OF adv_other [OF appends_annotate_no_upd]] adv_sync_posthook [OF assms(1)])
     (auto simp: handed_def)

lemma adv_sync_prehook:
  assumes "server_ok (ce_api env) stored" "hooks_quiet env stored" "at_least nm n b"
  shows "adv (above stored nm) unbound n (\<lambda>_ _. True) (sync_prehook env b)"
  unfolding sync_prehook_def
  by (intro adv_bind [OF adv_set_state_keeps [OF assms(1,3)]] adv_bind [OF adv_hook_keeps [OF assms(2)]] adv_prod adv_if
      adv_stop TrueI adv_bind [OF adv_emit] adv_bind [OF adv_set_state_keeps [OF assms(1)]] adv_bind [OF adv_reverse]
      adv_sync_volumes [OF assms(1)])
     auto

lemma adv_sync_initial:
  assumes "server_ok (ce_api env) stored" "hooks_quiet env stored" "at_least nm n b"
  shows "adv (above stored nm) unbound n (\<lambda>_ _. True) (sync_initial env b)"
  unfolding sync_initial_def
  by (intro adv_bind [OF adv_set_state_keeps [OF assms(1,3)]] adv_prod adv_if adv_stop TrueI adv_sync_prehook [OF assms(1,2)])
     auto

lemma adv_syncBackup:
  assumes "server_ok (ce_api env) stored" "hooks_quiet env stored" "at_least nm n b"
  shows "adv (above stored nm) unbound n (\<lambda>_ _. True) (syncBackup env b)"
  unfolding syncBackup_def
  using assms by (auto intro!: adv_stop adv_sync_initial adv_sync_prehook adv_sync_volumes adv_from [OF adv_sync_posthook]
      adv_from [OF adv_sync_resources] adv_from [OF adv_sync_finished] split: BackupStage.splits)

text \<open>C5: the stage machine only moves forward: when the API server stores what it accepts, and the backup it
  stores is at least as far as the one the pass received (a lister may lag behind), the stages of the status
  updates accepted during one pass of \<^verbatim>\<open>syncBackup\<close> are in order, none of them before the stage the pass
  started from.\<close>

theorem syncBackup_stages_forward:
  assumes "run_state (syncBackup env b) s = (r, s')" "server_ok (ce_api env) stored" "hooks_quiet env stored"
    and "toOrdinal (bk_stage b) \<le> toOrdinal (stored (bc_world s) (bk_name b))"
  shows "\<exists>l. bc_log s' = bc_log s @ l \<and> sorted (toOrdinal (bk_stage b) # stages_of l)"
proof -
  have "adv (above stored (bk_name b)) unbound (toOrdinal (bk_stage b)) (\<lambda>_ _. True) (syncBackup env b)"
    by (rule adv_syncBackup [OF assms(2,3)]) (simp add: at_least_def)
  from advD [OF this assms(4,1)] obtain l k where
    "bc_log s' = bc_log s @ l" "sorted (toOrdinal (bk_stage b) # stages_of l @ [k])" by blast
  then show ?thesis by (auto simp: sorted_append)
qed

text \<open>A server whose world is the backups it stores by name.\<close>

definition storing_api :: "(string \<Rightarrow> Backup) backup_api" where
  "storing_api = demo_api\<lparr>
     ba_Patch := (\<lambda>n p w. if n = [] then ((zero_Backup, Some (errorf ''no name'')), w)
        else let b = (w n)\<lparr>bk_meta := (bk_meta (w n))\<lparr>meta_name := n, meta_resourceVersion := ''3''\<rparr>\<rparr> in ((b, None), w(n := b))),
     ba_UpdateStatus := (\<lambda>b w. if bk_name b = [] then ((zero_Backup, Some (errorf ''no name'')), w)
        else let b' = b\<lparr>bk_meta := (bk_meta b)\<lparr>meta_resourceVersion := ''3''\<rparr>\<rparr> in ((b', None), w(bk_name b := b')))\<rparr>"

definition storing_ctrl :: "(string \<Rightarrow> Backup, (string \<times> unstructured) list) ctrl_env" where
  "storing_ctrl = (demo_ctrl None)\<lparr>ce_meta := demo_meta\<lparr>me_api := storing_api\<rparr>\<rparr>"

definition storing_start :: "Backup \<Rightarrow> (string \<Rightarrow> Backup) bctrl" where
  "storing_start b = \<lparr>bc_processed = NewStore (\<lambda>b. Inr (bk_name b)), bc_world = (\<lambda>_. b), bc_log = [],
     bc_supported = SupportedResourceList\<rparr>"

lemma storing_server: "server_ok storing_api (\<lambda>w n. bk_stage (w n))" "hooks_quiet storing_ctrl (\<lambda>w n. bk_stage (w n))"
  by (auto simp: server_ok_def hooks_quiet_def storing_ctrl_def demo_ctrl_def storing_api_def Let_def zero_Backup_def zero_meta_def
      intro!: ext split: if_splits)

theorem syncBackup_stages_forward_witness:
  "\<exists>r s'. run_state (syncBackup storing_ctrl (demo_backup BackupStageInitial BackupStateCompleted))
       (storing_start (demo_backup BackupStageInitial BackupStateCompleted)) = (r, s') \<and>
     sorted (toOrdinal BackupStageInitial # stages_of (bc_log s'))"
proof -
  let ?b = "demo_backup BackupStageInitial BackupStateCompleted"
  obtain r s' where run: "run_state (syncBackup storing_ctrl ?b) (storing_start ?b) = (r, s')" by fastforce
  have "server_ok (ce_api storing_ctrl) (\<lambda>w n. bk_stage (w n))" by (simp add: storing_ctrl_def storing_server)
  from syncBackup_stages_forward [OF run this storing_server(2)] run
  show ?thesis by (auto simp: demo_backup_def storing_start_def)
qed

section \<open>A pass past the volumes settles the backup\<close>

text \<open>An update settles a pass when it records the completion, records a failure, or was refused.\<close>

fun settled :: "bk_event \<Rightarrow> bool" where
  "settled (EvUpdateStatus c ok) \<longleftrightarrow> \<not> ok \<or> bk_state c = BackupStateFailed \<or>
     (bk_stage c = BackupStageFinished \<and> bk_state c = BackupStateCompleted \<and>
      st_completionTimestamp (bk_status c) \<noteq> None)"
| "settled _ \<longleftrightarrow> False"

definition stores_status :: "'w backup_api \<Rightarrow> bool" where
  "stores_status api \<longleftrightarrow> (\<forall>b w b' w'. ba_UpdateStatus api b w = ((b', None), w') \<longrightarrow> bk_status b' = bk_status b)"

definition updated :: "Backup \<Rightarrow> BackupStatus \<Rightarrow> Backup \<times> goerr option \<Rightarrow> bk_event list \<Rightarrow> bool" where
  "updated b st r l \<longleftrightarrow> (snd (mergeBackupStatus b st) \<longrightarrow> (\<exists>ok. EvUpdateStatus (fst (mergeBackupStatus b st)) ok \<in> set l)) \<and>
     ((\<exists>e \<in> set l. settled e) \<or> bk_status (fst r) = bk_status (fst (mergeBackupStatus b st)))"

lemma traces_update:
  assumes "stores_status api"
  shows "traces (updated b st) (updateBackupStatus api b st)"
  unfolding traces_def
proof (intro allI impI)
  fix s r s' assume run: "run_state (updateBackupStatus api b st) s = (r, s')"
  obtain clone dirty where m: "mergeBackupStatus b st = (clone, dirty)" by fastforce
  obtain b' e w' where u: "ba_UpdateStatus api clone (bc_world s) = ((b', e), w')" by (metis prod.collapse)
  have st: "e = None \<Longrightarrow> bk_status b' = bk_status clone" using assms u by (auto simp: stores_status_def)
  show "\<exists>l. bc_log s' = bc_log s @ l \<and> updated b st r l"
  proof (cases dirty)
    case True
    then have "bc_log s' = bc_log s @ [EvUpdateStatus clone (e = None)] \<and> fst r = b'"
      using run m u by (auto simp: updateBackupStatus_def split: prod.splits dest!: run_cache_update)
    moreover have "updated b st r [EvUpdateStatus clone (e = None)]" if "fst r = b'"
      using st m that by (auto simp: updated_def)
    ultimately show ?thesis by blast
  next
    case False
    then show ?thesis using run m by (auto simp: updateBackupStatus_def updated_def)
  qed
qed

lemma updated_more: "updated b st r l \<Longrightarrow> set l \<subseteq> set l' \<Longrightarrow> updated b st r l'"
  unfolding updated_def by blast

lemma traces_updateWithEvent:
  assumes "stores_status api"
  shows "traces (updated b st) (updateBackupStatusWithEvent api b st rs msg)"
  unfolding updateBackupStatusWithEvent_def
proof (rule traces_bind [OF traces_update [OF assms]], clarify, intro traces_if, goal_cases)
  case (3 nb err l)
  show ?case by (rule traces_weaken [OF traces_return]) (use 3 in auto)
next
  case (2 nb err l)
  have "traces (\<lambda>_ l. True) (emit (EvRecord rs msg))" by (simp add: traces_def)
  then show ?case by (rule traces_bind) (intro traces_return updated_more [OF 2(1)], simp)
qed (simp add: traces_return)

definition settles :: "goerr option hout \<Rightarrow> bk_event list \<Rightarrow> bool" where
  "settles r l \<longleftrightarrow> r = HRet None \<longrightarrow> (\<exists>e \<in> set l. settled e)"

lemma settles_more: "settles r l \<Longrightarrow> set l \<subseteq> set l' \<Longrightarrow> settles r l'"
  unfolding settles_def by blast

lemma settles_error [simp]: "settles HPanic l" "settles HHang l" "settles (HRet (Some e)) l"
  "err \<noteq> None \<Longrightarrow> settles (HRet err) l"
  by (auto simp: settles_def)

definition done_in :: "bk_event list \<Rightarrow> bool" where "done_in l \<longleftrightarrow> (\<exists>e \<in> set l. settled e)"

lemma settles_bind:
  assumes "traces R m" "\<And>a l. R a l \<Longrightarrow> done_in l \<or> traces settles (f a)" "\<And>a. appends (\<lambda>_. True) (f a)"
  shows "traces settles (State_Monad.bind m f)"
proof (rule traces_bind [OF assms(1)])
  fix a l assume R: "R a l"
  show "traces (\<lambda>r l'. settles r (l @ l')) (f a)"
  proof (cases "done_in l")
    case True
    then have "settles r (l @ l')" for r l' by (auto simp: settles_def done_in_def)
    then show ?thesis by (intro traces_weaken [OF traces_any [OF assms(3)]])
  next
    case False
    then have "traces settles (f a)" using assms(2) [OF R] by blast
    then show ?thesis by (rule traces_weaken) (erule settles_more, simp)
  qed
qed

lemma updated_failed:
  assumes "updated b st r l" "st_state st = BackupStateFailed" "bk_state b \<noteq> BackupStateFailed"
  shows "done_in l"
proof -
  let ?m = "mergeBackupStatus b st"
  have "snd ?m" using assms(2,3) by (simp add: mergeBackupStatus_def Let_def)
  moreover have "bk_state (fst ?m) = BackupStateFailed" using assms(2) by (simp add: merge_state)
  ultimately show ?thesis using assms(1) by (force simp: updated_def done_in_def)
qed

lemma updated_status:
  assumes "updated b st r l" "\<not> done_in l"
  shows "bk_status (fst r) = bk_status (fst (mergeBackupStatus b st))"
  using assms by (auto simp: updated_def done_in_def)

lemma updated_completed:
  assumes "updated b ((status_of BackupStageFinished BackupStateCompleted)\<lparr>st_completionTimestamp := Some t\<rparr>) r l"
    and "bk_state b \<noteq> BackupStateCompleted"
  shows "done_in l"
proof -
  let ?st = "(status_of BackupStageFinished BackupStateCompleted)\<lparr>st_completionTimestamp := Some t\<rparr>"
  let ?m = "mergeBackupStatus b ?st"
  have "snd ?m" using assms(2) by (simp add: mergeBackupStatus_def Let_def)
  moreover have "bk_state (fst ?m) = BackupStateCompleted" by (simp add: merge_state)
  moreover have "bk_stage (fst ?m) = BackupStageFinished"
    by (cases "bk_stage b") (simp_all add: merge_stage)
  moreover have "st_completionTimestamp (bk_status (fst ?m)) \<noteq> None"
    by (simp add: merge_completion split: option.splits)
  ultimately show ?thesis using assms(1) by (force simp: updated_def done_in_def)
qed

lemma traces_ask: "traces (\<lambda>_ l. l = []) (ask f)"
  by (simp add: traces_def)

lemma settles_done: "done_in l \<Longrightarrow> settles r l"
  by (auto simp: settles_def done_in_def)

lemma traces_settles_sync_finished:
  assumes srv: "stores_status (ce_api env)" and b: "bk_state b \<noteq> BackupStateCompleted"
  shows "traces settles (sync_finished env b)"
  unfolding sync_finished_def
proof (rule traces_bind [OF traces_ask], rule traces_bind [OF traces_updateWithEvent [OF srv]], goal_cases)
  case (1 now l r l')
  have "done_in (l @ l')" using updated_completed [OF 1(2) b] by (auto simp: done_in_def)
  then show ?case using 1(1) by (auto simp: done_in_def intro!: traces_return settles_done split: prod.splits)
qed

text \<open>What a metadata backup hands on: a completed object, or the pass is settled.\<close>

definition meta_done :: "(Backup \<times> goerr option) outcome \<Rightarrow> bk_event list \<Rightarrow> bool" where
  "meta_done r l \<longleftrightarrow> done_in l \<or> r = Panic \<or> (\<exists>b e. r = Ret (b, e) \<and> bk_state b = BackupStateCompleted)"

lemma meta_done_more: "meta_done r l \<Longrightarrow> set l \<subseteq> set l' \<Longrightarrow> meta_done r l'"
  unfolding meta_done_def done_in_def by blast

lemma meta_done_bind:
  assumes "appends (\<lambda>_. True) m" "\<And>a. traces meta_done (f a)"
  shows "traces meta_done (State_Monad.bind m f)"
  by (rule traces_bind [OF traces_any [OF assms(1)]], rule traces_weaken [OF assms(2)])
     (erule meta_done_more, simp)

lemma traces_meta_done:
  assumes srv: "stores_status (me_api env)" and b: "bk_state b \<noteq> BackupStateFailed"
  shows "traces meta_done (processMetadataBackup env b)"
proof -
  let ?b = "b\<lparr>bk_status := (bk_status b)\<lparr>st_validationErrors := []\<rparr>\<rparr>"
  have b': "bk_state ?b \<noteq> BackupStateFailed" using b by simp
  have fail: "traces meta_done (do { r \<leftarrow> updateBackupStatusWithEvent (me_api env) ?b
      (status_of BackupStageNone BackupStateFailed) rs msg; State_Monad.return (Ret r) })" for rs msg
    by (rule traces_bind [OF traces_updateWithEvent [OF srv]])
       (auto intro!: traces_return simp: meta_done_def dest!: updated_failed [OF _ _ b'])
  have upd: "traces meta_done (do { r \<leftarrow> updateBackupStatus (me_api env) ?b
      (status_of BackupStageNone t); State_Monad.return (Ret r) })"
    if "t = BackupStateFailed \<or> t = BackupStateCompleted" for t
  proof (rule traces_bind [OF traces_update [OF srv]], rule traces_return)
    fix r l assume u: "updated ?b (status_of BackupStageNone t) r l"
    have "meta_done (Ret r) l"
    proof (cases "done_in l")
      case False
      then have "t = BackupStateCompleted" using that updated_failed [OF u _ b'] by auto
      then have "bk_state (fst r) = BackupStateCompleted"
        using updated_status [OF u False] by (simp add: merge_state)
      then show ?thesis by (cases r) (auto simp: meta_done_def)
    qed (simp add: meta_done_def)
    then show "meta_done (Ret r) (l @ [])" by simp
  qed
  have any: "appends (\<lambda>_. True) (runBackup env ?b)" by (rule appends_weaken [OF appends_runBackup]) simp
  show ?thesis
    unfolding processMetadataBackup_def Let_def
    by (intro traces_if meta_done_bind appends_ask appends_fetchMeta appends_call any TrueI fail)
       (auto simp: meta_done_def split: sum.splits intro!: traces_return traces_if meta_done_bind appends_fetchMeta
         appends_call any fail upd)
qed

lemma anys:
  "appends (\<lambda>_. True) (sync_finished env b)" "appends (\<lambda>_. True) (sync_resources env b)"
  "appends (\<lambda>_. True) (set_state env b g t rs msg)"
  by (auto intro: appends_sync_finished appends_weaken [OF appends_sync_resources] appends_set_state)

lemma updated_state:
  assumes "updated b (status_of g t) r l" "\<not> done_in l" "t \<noteq> BackupStateNone"
  shows "bk_state (fst r) = t"
  using updated_status [OF assms(1,2)] assms(3) by (simp add: merge_state)

lemma traces_settles_sync_resources:
  assumes srv: "stores_status (ce_api env)" and b: "bk_state b \<noteq> BackupStateFailed"
  shows "traces settles (sync_resources env b)"
  unfolding sync_resources_def
proof (rule settles_bind [OF traces_meta_done [OF srv b]], goal_cases)
  case (1 a l)
  have fin: "traces settles (do { (backup2, err2) \<leftarrow> set_state env b1 BackupStageFinished BackupStateNew
              ''Resources'' ''Backup resources successful'';
           if err2 \<noteq> None then State_Monad.return (HRet err2) else sync_finished env backup2 })" for b1
    unfolding set_state_def
  proof (rule settles_bind [OF traces_updateWithEvent [OF srv]], goal_cases)
    case (1 a l)
    have "bk_state (fst a) \<noteq> BackupStateCompleted" if "\<not> done_in l" using updated_state [OF 1 that] by simp
    then show ?case by (cases a) (auto intro!: traces_if traces_return traces_settles_sync_finished [OF srv])
  qed (auto intro!: appends_rules anys)
  show ?case
  proof (cases "done_in l")
    case False
    consider "a = Panic" | b1 e1 where "a = Ret (b1, e1)" "bk_state b1 = BackupStateCompleted"
      using 1 False unfolding meta_done_def by blast
    then show ?thesis
    proof cases
      case 2
      have "traces settles (if e1 \<noteq> None then State_Monad.return (HRet e1)
         else if bk_state b1 \<noteq> BackupStateCompleted then State_Monad.return (HRet None)
         else do {
           (backup2, err2) \<leftarrow> set_state env b1 BackupStageFinished BackupStateNew
              ''Resources'' ''Backup resources successful'';
           if err2 \<noteq> None then State_Monad.return (HRet err2) else sync_finished env backup2 })"
        by (rule traces_if, simp add: traces_return, rule traces_if, simp add: 2, rule fin)
      then show ?thesis using 2(1) by simp
    qed (simp add: traces_return)
  qed simp
next
  case (2 a)
  then show ?case by (intro appends_rules appends_bind anys)
qed

lemma traces_settles_sync_posthook:
  assumes srv: "stores_status (ce_api env)" and b: "bk_state b \<noteq> BackupStateFailed"
  shows "traces settles (sync_posthook env b)"
  unfolding sync_posthook_def
proof (rule settles_bind [OF traces_exec_hook], rule disjI2, rule traces_if, goal_cases)
  case (1 err l)
  show ?case unfolding set_state_def
    by (rule traces_bind [OF traces_updateWithEvent [OF srv]])
       (auto intro!: traces_return settles_done split: prod.splits dest!: updated_failed [OF _ _ b])
next
  case (2 err l)
  have "traces settles (do { (backup1, err3) \<leftarrow> set_state env b BackupStageResources BackupStateNew
          ''Resources'' ''Start resource backup'';
       if err3 \<noteq> None then State_Monad.return (HRet err3) else sync_resources env backup1 })"
    unfolding set_state_def
  proof (rule settles_bind [OF traces_updateWithEvent [OF srv]], goal_cases)
    case (1 a l)
    have "bk_state (fst a) \<noteq> BackupStateFailed" if "\<not> done_in l" using updated_state [OF 1 that] by simp
    then show ?case by (cases a) (auto intro!: traces_if traces_return traces_settles_sync_resources [OF srv])
  qed (auto intro!: appends_rules anys)
  moreover have "traces (\<lambda>_ _. True) (emit (EvRecord r m))" for r m by (simp add: traces_def)
  ultimately show ?case
    by (intro settles_bind) (auto intro!: appends_rules appends_bind anys)
next
  case (3 a)
  then show ?case by (intro appends_rules appends_bind appends_emit anys TrueI)
qed

text \<open>C6: a pass of \<^verbatim>\<open>syncBackup\<close> that starts in the hook stage or the resource stage, for a backup that has
  neither failed nor is marked as deleting, never stops silently: if it returns without an error, and the API
  server returns the status it accepts, then it has recorded the finished stage, completed, with a completion
  time, or it has recorded a failure, or a status update was refused.\<close>

theorem syncBackup_settles:
  assumes "run_state (syncBackup env b) s = (HRet None, s')" "stores_status (ce_api env)"
    and "bk_stage b = BackupStagePostHook \<or> bk_stage b = BackupStageResources"
    and "bk_state b \<noteq> BackupStateFailed" "bk_state b \<noteq> BackupStateDeleting"
  shows "\<exists>l. bc_log s' = bc_log s @ l \<and> (\<exists>e \<in> set l. settled e)"
proof -
  have "traces settles (syncBackup env b)"
    using assms(3-5) traces_settles_sync_posthook [OF assms(2,4)] traces_settles_sync_resources [OF assms(2,4)]
    by (auto simp: syncBackup_def)
  from tracesD [OF this assms(1)] show ?thesis by (auto simp: settles_def)
qed

lemma stores_status_demo: "stores_status demo_api"
  by (auto simp: stores_status_def demo_api_def)

lemma demo_posthook_pass:
  "fst (run_state (syncBackup (demo_ctrl None) (demo_backup BackupStagePostHook BackupStateProcessing)) demo_unit) = HRet None"
  by (simp add: syncBackup_def sync_posthook_def sync_resources_def sync_finished_def exec_hook_def
      processMetadataBackup_def fetchMetaServiceClient_def ctrl_fetchBackupLocation_def ctrl_fetchProvider_def runBackup_def getResultant_def
      backupVolumeBackupContent_def ListNamespaces_def GetResultantItems_def
      demo_unit_collect_def demo_unit_kube_def zero_BackupSpec_def slice_def sets_List_def
      update_defs demo_run_defs)

theorem syncBackup_settles_witness:
  "\<exists>s'. run_state (syncBackup (demo_ctrl None) (demo_backup BackupStagePostHook BackupStateProcessing)) demo_unit
      = (HRet None, s') \<and> filter settled (bc_log s') \<noteq> []"
proof -
  let ?m = "syncBackup (demo_ctrl None) (demo_backup BackupStagePostHook BackupStateProcessing)"
  obtain s' where run: "run_state ?m demo_unit = (HRet None, s')"
    using demo_posthook_pass by (metis prod.collapse)
  have "stores_status (ce_api (demo_ctrl None))" by (simp add: demo_ctrl_def demo_meta_def stores_status_demo)
  from syncBackup_settles [OF run this] run
  show ?thesis by (auto simp: demo_backup_def demo_unit_def filter_empty_conv)
qed

section \<open>Status updates accumulate\<close>

definition accumulates :: "Backup \<Rightarrow> Backup \<Rightarrow> bool" where
  "accumulates b c \<longleftrightarrow> bk_meta c = bk_meta b \<and> bk_spec c = bk_spec b \<and>
     toOrdinal (bk_stage b) \<le> toOrdinal (bk_stage c) \<and>
     (\<forall>t. st_startTimestamp (bk_status b) = Some t \<longrightarrow> st_startTimestamp (bk_status c) = Some t) \<and>
     (\<forall>t. st_completionTimestamp (bk_status b) = Some t \<longrightarrow> st_completionTimestamp (bk_status c) = Some t) \<and>
     (\<exists>new. st_resources (bk_status c) = st_resources (bk_status b) @ new \<and>
       (\<forall>r \<in> set new. \<not> list_ex (same_resource r) (st_resources (bk_status b))))"

lemma merge_accumulates: "accumulates b (fst (mergeBackupStatus b st))"
  unfolding accumulates_def merge_frame merge_start merge_completion merge_resources
  using merge_stage_mono by (auto simp: list_ex_iff)

lemma accumulates_refl: "accumulates b b"
  by (simp add: accumulates_def)

lemma accumulates_trans:
  assumes "accumulates a b" "accumulates b c"
  shows "accumulates a c"
proof -
  obtain n1 where n1: "st_resources (bk_status b) = st_resources (bk_status a) @ n1"
      "\<forall>r \<in> set n1. \<not> list_ex (same_resource r) (st_resources (bk_status a))"
    using assms(1) unfolding accumulates_def by blast
  obtain n2 where n2: "st_resources (bk_status c) = st_resources (bk_status b) @ n2"
      "\<forall>r \<in> set n2. \<not> list_ex (same_resource r) (st_resources (bk_status b))"
    using assms(2) unfolding accumulates_def by blast
  have "st_resources (bk_status c) = st_resources (bk_status a) @ (n1 @ n2) \<and>
      (\<forall>r \<in> set (n1 @ n2). \<not> list_ex (same_resource r) (st_resources (bk_status a)))"
    using n1 n2 by auto
  then show ?thesis using assms unfolding accumulates_def
    by (intro conjI exI) (auto intro: order_trans)
qed

text \<open>Whatever sequence of status updates is merged into a backup, its metadata and specification
  stay, its stage never goes back, a start or completion time once set is never changed, and no
  recorded resource is lost or recorded a second time by a later update.\<close>

theorem status_updates_accumulate:
  "accumulates b (fold (\<lambda>st c. fst (mergeBackupStatus c st)) sts b)"
proof (induction sts arbitrary: b)
  case (Cons st sts)
  show ?case using accumulates_trans [OF merge_accumulates Cons.IH] by simp
qed (simp add: accumulates_refl)

section \<open>Validation\<close>

definition valid_spec :: "('w, 'c) ctrl_env \<Rightarrow> BackupSpec \<Rightarrow> 'w \<Rightarrow> bool" where
  "valid_spec env spec w \<longleftrightarrow>
     set (sp_includeNamespaces spec) \<inter> set (sp_excludeNamespaces spec) = {} \<and>
     (\<forall>r \<in> set (sp_includeResources spec) \<union> set (sp_excludeResources spec). ce_compile env (rs_name r) \<noteq> None) \<and>
     sp_metadataLocation spec \<noteq> [] \<and>
     (case me_locationGet (ce_meta env) (sp_metadataLocation spec) w of
        Inl err \<Rightarrow> err_reason err \<noteq> NotFound
      | Inr l \<Rightarrow> (case me_providerGet (ce_meta env) (bl_provider l) w of
          Inl err \<Rightarrow> err_reason err \<noteq> NotFound | Inr _ \<Rightarrow> True))"

lemma location_errors_Nil:
  "location_errors env loc w = [] \<longleftrightarrow> loc \<noteq> [] \<and>
     (case me_locationGet (ce_meta env) loc w of
        Inl err \<Rightarrow> err_reason err \<noteq> NotFound
      | Inr l \<Rightarrow> (case me_providerGet (ce_meta env) (bl_provider l) w of
          Inl err \<Rightarrow> err_reason err \<noteq> NotFound | Inr _ \<Rightarrow> True))"
  by (auto simp: location_errors_def split: sum.splits)

lemma validation_errors_Nil: "validation_errors env spec w = [] \<longleftrightarrow> valid_spec env spec w"
  by (auto simp: validation_errors_def valid_spec_def location_errors_Nil Let_def filter_empty_conv)

text \<open>C32: validation accepts exactly the specifications with disjoint namespace lists, resource
  expressions that compile and a metadata location whose object and provider are not known to be
  missing; an accepted one changes nothing, a rejected one yields an error and a status update that
  carries the failed state and the messages.\<close>

theorem validateBackup_verdict:
  assumes "run_state (validateBackup env b) s = ((ok, err), s')"
  shows "ok = valid_spec env (bk_spec b) (bc_world s) \<and>
     (if ok then err = None \<and> s' = s
      else err \<noteq> None \<and> (\<exists>c sent l. bc_log s' = bc_log s @ EvUpdateStatus c sent # l \<and>
        bk_state c = BackupStateFailed \<and> bk_spec c = bk_spec b \<and>
        st_validationErrors (bk_status c) = validation_errors env (bk_spec b) (bc_world s)))"
proof (cases "validation_errors env (bk_spec b) (bc_world s) = []")
  case True
  then show ?thesis using assms by (auto simp: validateBackup_def validation_errors_Nil)
next
  case False
  let ?errs = "validation_errors env (bk_spec b) (bc_world s)"
  let ?st = "(status_of BackupStageNone BackupStateFailed)\<lparr>st_validationErrors := ?errs\<rparr>"
  let ?c = "fst (mergeBackupStatus b ?st)"
  obtain nb e where run: "run_state (updateBackupStatusWithEvent (ce_api env) b ?st ''Failed''
      (''Backup validation failed. '' @ strings_Join '', '' ?errs)) s = ((nb, e), s')" and r: "\<not> ok" "err \<noteq> None"
    using assms False by (auto simp: validateBackup_def split: prod.splits)
  have d: "snd (mergeBackupStatus b ?st)" using False by (simp add: mergeBackupStatus_def Let_def)
  have v: "st_validationErrors (bk_status ?c) = ?errs" using False by (simp add: mergeBackupStatus_def Let_def)
  obtain l l' where l: "bc_log s' = bc_log s @ l @ l'" "update_log b ?st l"
    using run_updateBackupStatusWithEvent [OF run] by blast
  then obtain sent where "l = [EvUpdateStatus ?c sent]" using d by (auto simp: update_log_def)
  then have "bc_log s' = bc_log s @ EvUpdateStatus ?c sent # l'" using l(1) by simp
  moreover have "bk_state ?c = BackupStateFailed" by (simp add: merge_state)
  ultimately show ?thesis using r v False validation_errors_Nil [of env "bk_spec b" "bc_world s"]
    by (auto simp: merge_frame)
qed

theorem validateBackup_verdict_witness:
  "\<exists>err s'. run_state (validateBackup (demo_ctrl None) zero_Backup) demo_unit = ((False, err), s') \<and> err \<noteq> None"
proof -
  obtain ok err s' where run: "run_state (validateBackup (demo_ctrl None) zero_Backup) demo_unit = ((ok, err), s')"
    by (metis prod.collapse)
  have "\<not> valid_spec (demo_ctrl None) (bk_spec zero_Backup) (bc_world demo_unit)"
    by (simp add: valid_spec_def zero_Backup_def zero_BackupSpec_def)
  with validateBackup_verdict [OF run] run show ?thesis by auto
qed

section \<open>Errors that are lost\<close>

text \<open>A server that refuses every request, with the zero object the client hands out then.\<close>

definition refusing_api :: "unit backup_api" where
  "refusing_api = demo_api\<lparr>ba_Patch := (\<lambda>_ _ w. ((zero_Backup, Some (errorf ''refused'')), w)),
     ba_UpdateStatus := (\<lambda>_ w. ((zero_Backup, Some (errorf ''refused'')), w))\<rparr>"

definition refusing_ctrl :: "(unit, (string \<times> unstructured) list) ctrl_env" where
  "refusing_ctrl = (demo_ctrl None)\<lparr>ce_meta := demo_meta\<lparr>me_api := refusing_api\<rparr>\<rparr>"

text \<open>\<^verbatim>\<open>updateBackupStatus\<close> overwrites the error of the status update with that of the cache
  update: the caller sees success and goes on with a nameless object.\<close>

lemma refused_update_unreported:
  "fst (run_state (updateBackupStatus refusing_api (demo_backup BackupStageInitial BackupStateNew)
      (status_of BackupStagePreHook BackupStateNew)) demo_unit) = (zero_Backup, None)"
  by (simp add: refusing_api_def update_defs demo_run_defs)

text \<open>\<^verbatim>\<open>annotateBackup\<close> drops the error of its patch in the same way.\<close>

lemma refused_annotation_unreported:
  "fst (run_state (annotateBackup refusing_api annVolumeBackupCompleted (demo_backup BackupStageVolumes BackupStateNew))
      demo_unit) = (zero_Backup, None)"
  by (simp add: annotateBackup_def refusing_api_def demo_run_defs)

text \<open>When the patch that removes the finalizer is refused, \<^verbatim>\<open>deleteBackup\<close> dereferences nil.\<close>

lemma refused_finalizer_patch_panics:
  "fst (run_state (deleteBackup refusing_ctrl (demo_backup BackupStageInitial BackupStateNew)) demo_unit) = HPanic"
  by (simp add: deleteBackup_def removeVolumeBackup_def list_vbcs_def deleteMetadataBackup_def patchBackup_def
      refusing_ctrl_def refusing_api_def demo_run_defs)

text \<open>\<^verbatim>\<open>backupBackupLocation\<close> reports success when the stream refused the location.\<close>

lemma unsent_location_unreported:
  "fst (run_state (backupBackupLocation (demo_meta\<lparr>me_collect := demo_unit_collect\<lparr>co_Send :=
      (\<lambda>_ w. (Some (errorf ''refused''), w))\<rparr>\<rparr>) (\<lambda>_. Inr ''x'') ''loc'') demo_unit) = Ok"
  by (simp add: backupBackupLocation_def reading_def demo_run_defs demo_unit_collect_def)

text \<open>Excluding a kind in one backup removes a kind from the global list of supported kinds, so that a
  later backup without any selection no longer covers it.\<close>

lemma getResultant_corrupts_supported:
  "Pod_kind \<in> set (bc_supported demo_unit)"
  "Pod_kind \<notin> set (bc_supported (snd (run_state (getResultant demo_meta (zero_BackupSpec\<lparr>sp_excludeResources :=
      [\<lparr>rs_name = [], rs_kind = Pod_kind, rs_isRegex = False\<rparr>]\<rparr>)) demo_unit)))"
  by (simp_all add: getResultant_def zero_BackupSpec_def demo_run_defs GetResultantItems_def SupportedResourceList_def
     RemoveItem_def slice_def Let_def kind_defs)

end
