(* ===== verification/Traces.thy ===== *)
theory Traces
  imports Kahu_Prelude
begin

text \<open>
  What a handler appends to a log: \<open>tr lg R m\<close> says that a run of \<open>m\<close> with result \<open>r\<close> appends a
  list \<open>l\<close> with \<open>R r l\<close> to the log \<open>lg\<close> of its state. The rules follow the structure of the
  handlers; \<open>every\<close> is the common case of a property of all appended events.
\<close>

section \<open>Changing and reading the state\<close>

definition upd :: "('s \<Rightarrow> 's) \<Rightarrow> ('s, unit) state" where "upd f = liftst (\<lambda>s. ((), f s))"

definition look :: "('s \<Rightarrow> 'a) \<Rightarrow> ('s, 'a) state" where "look f = liftst (\<lambda>s. (f s, s))"

lemma triple_upd: "(\<And>s. P s \<Longrightarrow> Q () (f s)) \<Longrightarrow> triple P (upd f) Q"
  by (auto simp: triple_def upd_def)

lemma triple_look: "(\<And>s. P s \<Longrightarrow> Q (f s) s) \<Longrightarrow> triple P (look f) Q"
  by (auto simp: triple_def look_def)

section \<open>What a step appends\<close>

named_theorems tr_rules \<open>rules for what a step appends\<close>

definition tr :: "('s \<Rightarrow> 'e list) \<Rightarrow> ('a \<Rightarrow> 'e list \<Rightarrow> bool) \<Rightarrow> ('s, 'a) state \<Rightarrow> bool" where
  "tr lg R m \<longleftrightarrow> (\<forall>s r s'. run_state m s = (r, s') \<longrightarrow> (\<exists>l. lg s' = lg s @ l \<and> R r l))"

abbreviation every :: "('s \<Rightarrow> 'e list) \<Rightarrow> ('e \<Rightarrow> bool) \<Rightarrow> ('s, 'a) state \<Rightarrow> bool" where
  "every lg Q m \<equiv> tr lg (\<lambda>_ l. \<forall>e \<in> set l. Q e) m"

lemma trI:
  assumes "\<And>s r s'. run_state m s = (r, s') \<Longrightarrow> \<exists>l. lg s' = lg s @ l \<and> R r l"
  shows "tr lg R m"
  using assms by (simp add: tr_def)

lemma trD: "tr lg R m \<Longrightarrow> run_state m s = (r, s') \<Longrightarrow> \<exists>l. lg s' = lg s @ l \<and> R r l"
  by (auto simp: tr_def)

lemma tr_weaken: "tr lg R m \<Longrightarrow> (\<And>r l. R r l \<Longrightarrow> T r l) \<Longrightarrow> tr lg T m"
  unfolding tr_def by blast

lemma every_weaken: "every lg Q m \<Longrightarrow> (\<And>e. Q e \<Longrightarrow> T e) \<Longrightarrow> every lg T m"
  by (erule tr_weaken) blast

lemma tr_return [tr_rules]: "R x [] \<Longrightarrow> tr lg R (State_Monad.return x)"
  by (simp add: tr_def)

lemma tr_bind:
  assumes "tr lg R m" "\<And>a l. R a l \<Longrightarrow> tr lg (\<lambda>r l'. T r (l @ l')) (f a)"
  shows "tr lg T (State_Monad.bind m f)"
proof (rule trI)
  fix s r s' assume run: "run_state (State_Monad.bind m f) s = (r, s')"
  obtain a t where m: "run_state m s = (a, t)" by fastforce
  then have f: "run_state (f a) t = (r, s')" using run by simp
  obtain l where l: "lg t = lg s @ l" "R a l" using trD [OF assms(1) m] by blast
  obtain l' where "lg s' = lg t @ l'" "T r (l @ l')" using trD [OF assms(2) [OF l(2)] f] by blast
  then show "\<exists>l. lg s' = lg s @ l \<and> T r l" using l(1) by auto
qed

text \<open>A first step that leaves the log alone.\<close>

lemma tr_skip:
  assumes "tr lg (\<lambda>a l. l = [] \<and> P a) m" "\<And>a. P a \<Longrightarrow> tr lg T (f a)"
  shows "tr lg T (State_Monad.bind m f)"
  by (rule tr_bind [OF assms(1)]) (use assms(2) in auto)

lemma every_bind [tr_rules]:
  assumes "every lg Q m" "\<And>a. every lg Q (f a)"
  shows "every lg Q (State_Monad.bind m f)"
  by (rule tr_bind [OF assms(1)], rule tr_weaken [OF assms(2)]) auto

lemma tr_if [tr_rules]: "(b \<Longrightarrow> tr lg R m) \<Longrightarrow> (\<not> b \<Longrightarrow> tr lg R n) \<Longrightarrow> tr lg R (if b then m else n)"
  by simp

lemma tr_option [tr_rules]:
  "(x = None \<Longrightarrow> tr lg R m) \<Longrightarrow> (\<And>a. x = Some a \<Longrightarrow> tr lg R (f a)) \<Longrightarrow>
     tr lg R (case x of None \<Rightarrow> m | Some a \<Rightarrow> f a)"
  by (cases x) auto

lemma tr_sum [tr_rules]:
  "(\<And>a. x = Inl a \<Longrightarrow> tr lg R (f a)) \<Longrightarrow> (\<And>b. x = Inr b \<Longrightarrow> tr lg R (g b)) \<Longrightarrow>
     tr lg R (case x of Inl a \<Rightarrow> f a | Inr b \<Rightarrow> g b)"
  by (cases x) auto

lemma tr_prod [tr_rules]: "(\<And>a b. x = (a, b) \<Longrightarrow> tr lg R (f a b)) \<Longrightarrow> tr lg R (case x of (a, b) \<Rightarrow> f a b)"
  by (cases x) auto

lemma tr_outcome [tr_rules]:
  "(\<And>a. x = Ret a \<Longrightarrow> tr lg R (f a)) \<Longrightarrow> tr lg R p \<Longrightarrow> tr lg R (case x of Ret a \<Rightarrow> f a | Panic \<Rightarrow> p)"
  by (cases x) auto

lemma tr_seq:
  assumes "tr lg R m" "tr lg R n" "\<And>r l l'. R Ok l \<Longrightarrow> R r l' \<Longrightarrow> R r (l @ l')"
  shows "tr lg R (seq m n)"
  unfolding seq_def
proof (rule tr_bind [OF assms(1)], rule tr_if)
  fix r l assume "R r l" "r = Ok"
  then show "tr lg (\<lambda>r l'. R r (l @ l')) n" using assms(3) by (intro tr_weaken [OF assms(2)]) auto
next
  fix r l assume "R r l" "r \<noteq> Ok"
  then show "tr lg (\<lambda>r l'. R r (l @ l')) (State_Monad.return r)" by (auto intro: tr_return)
qed

lemma tr_each:
  assumes "\<And>x. x \<in> set xs \<Longrightarrow> tr lg R (f x)" "R Ok []" "\<And>r l l'. R Ok l \<Longrightarrow> R r l' \<Longrightarrow> R r (l @ l')"
  shows "tr lg R (each f xs)"
  using assms(1)
proof (induction xs)
  case (Cons x xs)
  have "tr lg R (f x)" "tr lg R (each f xs)" using Cons by auto
  then show ?case by (auto intro!: tr_seq simp: assms(3))
qed (simp add: tr_return assms(2))

lemma every_seq [tr_rules]: "every lg Q m \<Longrightarrow> every lg Q n \<Longrightarrow> every lg Q (seq m n)"
  by (rule tr_seq) auto

lemma every_each [tr_rules]: "(\<And>x. x \<in> set xs \<Longrightarrow> every lg Q (f x)) \<Longrightarrow> every lg Q (each f xs)"
  by (rule tr_each) auto

lemma every_bind_with:
  assumes "tr lg (\<lambda>a l. (\<forall>e \<in> set l. Q e) \<and> P a) m" "\<And>a. P a \<Longrightarrow> every lg Q (f a)"
  shows "every lg Q (State_Monad.bind m f)"
proof (rule tr_bind [OF assms(1)])
  fix a l assume "(\<forall>e \<in> set l. Q e) \<and> P a"
  then show "tr lg (\<lambda>_ l'. \<forall>e \<in> set (l @ l'). Q e) (f a)" by (intro tr_weaken [OF assms(2)]) auto
qed

lemma every_any: "tr lg R m \<Longrightarrow> tr lg (\<lambda>_ _. True) m"
  by (erule tr_weaken) simp

lemma tr_run: "tr lg R m \<Longrightarrow> \<exists>l. lg (snd (run_state m s)) = lg s @ l \<and> R (fst (run_state m s)) l"
  unfolding tr_def by (metis prod.collapse)

lemma tr_sres [tr_rules]:
  "(x = Ok \<Longrightarrow> tr lg R a) \<Longrightarrow> (\<And>e. x = Fail e \<Longrightarrow> tr lg R (f e)) \<Longrightarrow> tr lg R b \<Longrightarrow>
     tr lg R (case x of Ok \<Rightarrow> a | Fail e \<Rightarrow> f e | Crash \<Rightarrow> b)"
  by (cases x) auto

section \<open>Properties of logs that are kept by appending\<close>

definition appendable :: "('e list \<Rightarrow> bool) \<Rightarrow> bool" where
  "appendable C \<longleftrightarrow> C [] \<and> (\<forall>l l'. C l \<longrightarrow> C l' \<longrightarrow> C (l @ l'))"

abbreviation all_of :: "('s \<Rightarrow> 'e list) \<Rightarrow> ('e list \<Rightarrow> bool) \<Rightarrow> ('s, 'a) state \<Rightarrow> bool" where
  "all_of lg C m \<equiv> tr lg (\<lambda>_ l. C l) m"

lemma all_of_bind:
  assumes "appendable C" "all_of lg C m" "\<And>a. all_of lg C (f a)"
  shows "all_of lg C (State_Monad.bind m f)"
  using assms(1) by (intro tr_bind [OF assms(2)] tr_weaken [OF assms(3)]) (auto simp: appendable_def)

lemma all_of_seq: "appendable C \<Longrightarrow> all_of lg C m \<Longrightarrow> all_of lg C n \<Longrightarrow> all_of lg C (seq m n)"
  by (rule tr_seq) (auto simp: appendable_def)

lemma all_of_each: "appendable C \<Longrightarrow> (\<And>x. x \<in> set xs \<Longrightarrow> all_of lg C (f x)) \<Longrightarrow> all_of lg C (each f xs)"
  by (rule tr_each) (auto simp: appendable_def)

text \<open>\<open>led_by D P l\<close>: every event of kind \<open>D\<close> in \<open>l\<close> comes directly after an event that justifies it.\<close>

definition led_by :: "('e \<Rightarrow> bool) \<Rightarrow> ('e \<Rightarrow> 'e \<Rightarrow> bool) \<Rightarrow> 'e list \<Rightarrow> bool" where
  "led_by D P l \<longleftrightarrow> (\<forall>xs e ys. l = xs @ e # ys \<longrightarrow> D e \<longrightarrow> (\<exists>zs g. xs = zs @ [g] \<and> P g e))"

lemma append_mid_cases:
  assumes "l @ l' = xs @ e # ys"
  obtains us where "l = xs @ e # us" | us where "xs = l @ us" "l' = us @ e # ys"
  using assms by (auto simp: append_eq_append_conv2 append_eq_Cons_conv Cons_eq_append_conv)

lemma led_by_append:
  assumes "led_by D P l" "led_by D P l'"
  shows "led_by D P (l @ l')"
  unfolding led_by_def
proof (intro allI impI)
  fix xs e ys assume eq: "l @ l' = xs @ e # ys" and d: "D e"
  from eq show "\<exists>zs g. xs = zs @ [g] \<and> P g e"
  proof (cases rule: append_mid_cases)
    case (1 us)
    then show ?thesis using assms(1) d unfolding led_by_def by blast
  next
    case (2 us)
    then obtain zs g where "us = zs @ [g]" "P g e" using assms(2) d unfolding led_by_def by blast
    then show ?thesis using 2(1) by auto
  qed
qed

lemma led_by_none: "\<forall>e \<in> set l. \<not> D e \<Longrightarrow> led_by D P l"
  by (auto simp: led_by_def)

lemma appendable_led_by [simp]: "appendable (led_by D P)"
  by (auto simp: appendable_def led_by_append led_by_none)

lemma every_led_by: "every lg (\<lambda>e. \<not> D e) m \<Longrightarrow> all_of lg (led_by D P) m"
  by (erule tr_weaken) (simp add: led_by_none)

lemmas leads = all_of_bind [OF appendable_led_by] all_of_seq [OF appendable_led_by] all_of_each [OF appendable_led_by]

text \<open>\<open>only_after D C l\<close>: what comes before an event of kind \<open>D\<close> satisfies \<open>C\<close>.\<close>

definition only_after :: "('e \<Rightarrow> bool) \<Rightarrow> ('e list \<Rightarrow> bool) \<Rightarrow> 'e list \<Rightarrow> bool" where
  "only_after D C l \<longleftrightarrow> (\<forall>xs e ys. l = xs @ e # ys \<longrightarrow> D e \<longrightarrow> C xs)"

lemma only_after_none: "\<forall>e \<in> set l. \<not> D e \<Longrightarrow> only_after D C l"
  by (auto simp: only_after_def)

lemma only_after_append:
  assumes "only_after D C l" "only_after D (\<lambda>xs. C (l @ xs)) l'"
  shows "only_after D C (l @ l')"
  unfolding only_after_def
proof (intro allI impI)
  fix xs e ys assume "l @ l' = xs @ e # ys" "D e"
  then show "C xs" using assms unfolding only_after_def by (metis append_mid_cases)
qed

lemma only_after_prefix:
  assumes "\<forall>e \<in> set l. \<not> D e" "only_after D C l'" "\<And>xs. C xs \<Longrightarrow> C (l @ xs)"
  shows "only_after D C (l @ l')"
proof (rule only_after_append)
  show "only_after D (\<lambda>xs. C (l @ xs)) l'" using assms(2,3) unfolding only_after_def by blast
qed (simp add: assms(1) only_after_none)

lemma only_after_single: "only_after D C [e] \<longleftrightarrow> (D e \<longrightarrow> C [])"
  by (auto simp: only_after_def Cons_eq_append_conv)

lemma only_after_behind: "\<forall>e \<in> set l. \<not> D e \<Longrightarrow> (\<And>xs. C (l @ xs)) \<Longrightarrow> only_after D C (l @ l')"
  by (rule only_after_append) (auto simp: only_after_none only_after_def)

end
