(* ===== verification/Backup_Volumes.thy ===== *)
theory Backup_Volumes
  imports Backup_Controller Traces
begin

text \<open>
  Parts of the backup controller that no other part calls: the parameters and the creation of volume
  backup contents (\<^verbatim>\<open>controllers/backup/backupvolume.go\<close>) and the order of core resources
  (\<^verbatim>\<open>backupmetadata.go\<close>, \<^verbatim>\<open>prepare_backup.go\<close>).

  The map from providers to volumes is given as the list of its entries in the order Go visits them.
\<close>

section \<open>Volume backup contents\<close>

definition silent :: "('w \<Rightarrow> 'r \<times> 'w) \<Rightarrow> ('w bctrl, 'r) state" where
  "silent f = liftst (\<lambda>s. case f (bc_world s) of (r, w) \<Rightarrow> (r, s\<lparr>bc_world := w\<rparr>))"

definition getVBCName :: "string \<Rightarrow> string" where "getVBCName uuid = ''vbc-'' @ uuid"

text \<open>The loop always returns in its first round. A lister error other than not found leaves the location
  nil, and its configuration is read.\<close>

definition ensureVolumeBackupParameters ::
  "('w, 'c) ctrl_env \<Rightarrow> Backup \<Rightarrow> 'w \<Rightarrow> ((string \<rightharpoonup> string) \<times> string list) outcome" where
  "ensureVolumeBackupParameters env backup w = (case sp_volumeBackupLocations (bk_spec backup) of
     [] \<Rightarrow> Ret (Map.empty, [''volume backup location can not be empty for backups with volumes''])
   | loc # _ \<Rightarrow> (case me_locationGet (ce_meta env) loc w of
       Inl err \<Rightarrow> if IsNotFound (Some err) then Ret (Map.empty, [''volume backup location('' @ loc @ '') not found'']) else Panic
     | Inr l \<Rightarrow> (case me_providerGet (ce_meta env) (bl_provider l) w of
         Inl err \<Rightarrow> if IsNotFound (Some err)
           then Ret (Map.empty, [''invalid provider name ('' @ bl_provider l @ '') configured for volume backup location ('' @ loc @ '')''])
           else Ret (bl_config l, [])
       | Inr _ \<Rightarrow> Ret (bl_config l, []))))"

definition new_content ::
  "string \<Rightarrow> (string \<rightharpoonup> string) \<Rightarrow> string \<Rightarrow> pv list \<Rightarrow> string \<Rightarrow> int \<Rightarrow> VolumeBackupContent" where
  "new_content backupName param provider pvs uuid now = zero_VBC\<lparr>
     vb_meta := zero_meta\<lparr>meta_name := getVBCName uuid,
        meta_labels := [volumeContentBackupLabel \<mapsto> backupName, volumeContentVolumeProvider \<mapsto> provider]\<rparr>,
     vb_backupName := backupName, vb_volumes := map (\<lambda>p. meta_name (pv_meta p)) pvs, vb_provider := Some provider,
     vb_parameters := param, vb_phase := VBCPhaseInit, vb_startTimestamp := Some now\<rparr>"

fun ensureVolumeBackupContent ::
  "('w, 'c) ctrl_env \<Rightarrow> ('w \<Rightarrow> string \<times> 'w) \<Rightarrow> (VolumeBackupContent \<Rightarrow> 'w \<Rightarrow> goerr option \<times> 'w) \<Rightarrow>
   string \<Rightarrow> (string \<rightharpoonup> string) \<Rightarrow> (string \<times> pv list) list \<Rightarrow> ('w bctrl, goerr option) state" where
  "ensureVolumeBackupContent env newUUID create backupName param [] = State_Monad.return None"
| "ensureVolumeBackupContent env newUUID create backupName param ((provider, pvs) # rest) = do {
     (vbcs, err) \<leftarrow> call (me_listVBC (ce_meta env) [(volumeContentBackupLabel, backupName), (volumeContentVolumeProvider, provider)])
        (\<lambda>(vs, e). EvListVBC (length vs) (e = None));
     (case err of
        Some e \<Rightarrow> State_Monad.return (Some (wrap e ''Unable to get volume backup content list''))
      | None \<Rightarrow>
          if 0 < length vbcs then ensureVolumeBackupContent env newUUID create backupName param rest
          else do {
            now \<leftarrow> ask (ba_Now (ce_api env));
            uuid \<leftarrow> silent newUUID;
            cerr \<leftarrow> call (create (new_content backupName param provider pvs uuid now)) (\<lambda>e. EvCreateVBC (getVBCName uuid) (e = None));
            (case cerr of
               Some e \<Rightarrow> State_Monad.return (Some (wrap e ''unable to create volume backup content''))
             | None \<Rightarrow> ensureVolumeBackupContent env newUUID create backupName param rest) }) }"

section \<open>Order of core resources\<close>

definition ToLower :: "string \<Rightarrow> string" where
  "ToLower s = map (\<lambda>c. if CHR ''A'' \<le> c \<and> c \<le> CHR ''Z'' then char_of (of_char c + 32 :: nat) else c) s"

definition CoreGroupResourcePriority :: "string \<Rightarrow> nat" where
  "CoreGroupResourcePriority resource = (let r = ToLower resource in
     if r = ''deployments'' then 0 else if r = ''pods'' then 1 else if r = ''persistentvolumeclaims'' then 2
     else if r = ''persistentvolumes'' then 3 else 4)"

definition sortCoreGroup :: "api_resource list \<Rightarrow> api_resource list" where
  "sortCoreGroup = sort_key (\<lambda>r. CoreGroupResourcePriority (ar_name r))"

section \<open>One content per provider\<close>

fun is_create_vbc :: "bk_event \<Rightarrow> bool" where
  "is_create_vbc (EvCreateVBC _ _) = True" | "is_create_vbc _ = False"

lemma tr_call: "(\<And>r. R r [ev r]) \<Longrightarrow> tr bc_log R (call f ev)"
  by (auto simp: tr_def call_def split: prod.splits)

text \<open>A content is only created directly after a listing that shows none for its backup and provider.\<close>

lemma contents_created_once:
  "all_of bc_log (led_by is_create_vbc (\<lambda>g e. g = EvListVBC 0 True))
     (ensureVolumeBackupContent env newUUID create backupName param pvs)"
proof (induction pvs)
  case (Cons p pvs)
  let ?C = "led_by is_create_vbc (\<lambda>g e. g = EvListVBC 0 True)"
  obtain provider vs where p: "p = (provider, vs)" by fastforce
  have one: "?C [EvListVBC n ok]" and two: "?C ([EvListVBC 0 True] @ [EvCreateVBC m ok])" for n m ok
    by (auto simp: led_by_def Cons_eq_append_conv)
  have skip: "tr bc_log (\<lambda>_ l. l = [] \<and> True) (ask f)" "tr bc_log (\<lambda>_ l. l = [] \<and> True) (silent g)" for f :: "_ \<Rightarrow> 'z" and g :: "_ \<Rightarrow> 'y \<times> _"
    by (auto simp: tr_def ask_def silent_def split: prod.splits)
  have rest: "tr bc_log (\<lambda>_ l'. ?C (l @ l')) (ensureVolumeBackupContent env newUUID create backupName param pvs)" if "?C l" for l
    using that by (intro tr_weaken [OF Cons.IH]) (rule led_by_append)
  have create: "tr bc_log (\<lambda>_ l'. ?C ([EvListVBC 0 True] @ l')) (do {
      now \<leftarrow> ask (ba_Now (ce_api env));
      uuid \<leftarrow> silent newUUID;
      cerr \<leftarrow> call (create (new_content backupName param provider vs uuid now)) (\<lambda>e. EvCreateVBC (getVBCName uuid) (e = None));
      (case cerr of
         None \<Rightarrow> ensureVolumeBackupContent env newUUID create backupName param pvs
       | Some e \<Rightarrow> State_Monad.return (Some (wrap e ''unable to create volume backup content''))) })"
    by (rule tr_skip [OF skip(1)], rule tr_skip [OF skip(2)],
        rule tr_bind [OF tr_call, where R = "\<lambda>_ l. \<exists>n ok. l = [EvCreateVBC n ok]"])
       (use two in \<open>auto intro!: tr_option tr_return rest simp flip: append_assoc simp del: append.simps\<close>)
  show ?case unfolding p ensureVolumeBackupContent.simps
  proof (rule tr_bind [OF tr_call, where R = "\<lambda>r l. l = [EvListVBC (length (fst r)) (snd r = None)]"], goal_cases)
    case (2 a l)
    then show ?case
      using create rest [OF one] one by (cases a; cases "snd a") (auto intro!: tr_return)
  qed (simp split: prod.splits)
qed (simp add: tr_return led_by_none)

end
