(* ===== verification/Operation.thy ===== *)
theory Operation
  imports Kahu_Prelude
begin

text \<open>
  The operation manager of \<^verbatim>\<open>utils/operation/manager.go\<close>: \<^verbatim>\<open>Run\<close> starts a
  goroutine that polls an operation until it fails or succeeds, and refuses an index that is
  already running.

  \<^verbatim>\<open>Run\<close> reads the index table in one critical section and writes it in another, and the
  goroutine removes its entry in a third. The interleavings of these sections are the steps of
  \<open>op_step\<close>; each section is one function on the table, because the mutex makes it atomic.
\<close>

section \<open>The table\<close>

type_synonym 'h op_table = "string \<rightharpoonup> 'h"

definition newOperations :: "'h op_table" where
  "newOperations = Map.empty"

definition ops_add :: "string \<Rightarrow> 'h \<Rightarrow> 'h op_table \<Rightarrow> 'h op_table" where
  "ops_add key handler tab = tab(key \<mapsto> handler)"

definition ops_delete :: "string \<Rightarrow> 'h op_table \<Rightarrow> 'h op_table" where
  "ops_delete key tab = tab(key := None)"

definition ops_get :: "string \<Rightarrow> 'h op_table \<Rightarrow> 'h option" where
  "ops_get key tab = tab key"

section \<open>One poll\<close>

record 'w handler =
  h_Operation :: "string \<Rightarrow> 'w \<Rightarrow> (bool \<times> goerr option) \<times> 'w"
  h_OnFailure :: "(string \<Rightarrow> goerr \<Rightarrow> 'w \<Rightarrow> 'w) option"
  h_OnSuccess :: "(string \<Rightarrow> 'w \<Rightarrow> 'w) option"

definition operationHandler :: "string \<Rightarrow> 'w handler \<Rightarrow> 'w \<Rightarrow> bool \<times> 'w" where
  "operationHandler operationName h w =
     (case h_Operation h operationName w of
        ((successful, Some err), w') \<Rightarrow>
          (False, case h_OnFailure h of None \<Rightarrow> w' | Some f \<Rightarrow> f operationName err w')
      | ((successful, None), w') \<Rightarrow>
          (if successful
           then (False, case h_OnSuccess h of None \<Rightarrow> w' | Some f \<Rightarrow> f operationName w')
           else (True, w')))"

text \<open>The polling loop; it may run forever, which is the value \<open>None\<close>.\<close>

partial_function (option) operate :: "string \<Rightarrow> 'w handler \<Rightarrow> 'w \<Rightarrow> 'w option" where
  "operate operationName h w =
     (case operationHandler operationName h w of (opContinue, w') \<Rightarrow>
        if \<not> opContinue then Some w' else operate operationName h w')"

definition alreadyExistsError :: "string \<Rightarrow> goerr" where
  "alreadyExistsError index = GoErr AlreadyExists
     (''Failed to create operation with name '' @ index @ ''. An operation with that name is already exist.'')"

definition IsAlreadyExists :: "goerr \<Rightarrow> bool" where
  "IsAlreadyExists e \<longleftrightarrow> err_reason e = AlreadyExists"

section \<open>Interleavings\<close>

text \<open>
  \<open>checked\<close>: calls of \<^verbatim>\<open>Run\<close> between the lookup and the insertion; \<open>polling\<close>: goroutines
  inside \<^verbatim>\<open>operate\<close>; \<open>leaving\<close>: goroutines between \<^verbatim>\<open>operate\<close> and the removal.
\<close>

record 'h op_state =
  table :: "'h op_table"
  checked :: "(string \<times> 'h) multiset"
  polling :: "(string \<times> 'h) multiset"
  leaving :: "string multiset"

datatype op_label = Refused string | Checked string | Started string | Polled string
  | Ended string | Removed string

definition op_init :: "'h op_state" where
  "op_init = \<lparr>table = newOperations, checked = {#}, polling = {#}, leaving = {#}\<rparr>"

inductive op_step :: "'h op_state \<Rightarrow> op_label \<Rightarrow> 'h op_state \<Rightarrow> bool" where
  run_refused: "ops_get i (table s) \<noteq> None \<Longrightarrow> op_step s (Refused i) s"
| run_checked: "ops_get i (table s) = None \<Longrightarrow>
    op_step s (Checked i) (s\<lparr>checked := add_mset (i, h) (checked s)\<rparr>)"
| run_started: "(i, h) \<in># checked s \<Longrightarrow>
    op_step s (Started i) (s\<lparr>checked := checked s - {#(i, h)#},
      table := ops_add i h (table s), polling := add_mset (i, h) (polling s)\<rparr>)"
| poll_again: "(i, h) \<in># polling s \<Longrightarrow> op_step s (Polled i) s"
| poll_ends: "(i, h) \<in># polling s \<Longrightarrow>
    op_step s (Ended i) (s\<lparr>polling := polling s - {#(i, h)#}, leaving := add_mset i (leaving s)\<rparr>)"
| removed: "i \<in># leaving s \<Longrightarrow>
    op_step s (Removed i) (s\<lparr>leaving := leaving s - {#i#}, table := ops_delete i (table s)\<rparr>)"

inductive_cases op_stepE: "op_step s l s'"

inductive op_run :: "'h op_state \<Rightarrow> op_label list \<Rightarrow> 'h op_state \<Rightarrow> bool" where
  op_nil: "op_run s [] s"
| op_cons: "op_step s l s' \<Longrightarrow> op_run s' ls s'' \<Longrightarrow> op_run s (l # ls) s''"

inductive_cases op_run_nilE: "op_run s [] s'"
inductive_cases op_run_consE: "op_run s (l # ls) s''"

text \<open>
  Callers are serialised per index when no lookup for an index happens while another call is
  between its lookup and its insertion: a work queue that hands a key to one worker at a time
  gives this.
\<close>

fun serial :: "string list \<Rightarrow> op_label list \<Rightarrow> bool" where
  "serial pend [] = True"
| "serial pend (l # ls) = (case l of
     Checked i \<Rightarrow> i \<notin> set pend \<and> serial (i # pend) ls
   | Started i \<Rightarrow> serial (remove1 i pend) ls
   | _ \<Rightarrow> serial pend ls)"

fun pending :: "string list \<Rightarrow> op_label list \<Rightarrow> string list" where
  "pending pend [] = pend"
| "pending pend (l # ls) = (case l of
     Checked i \<Rightarrow> pending (i # pend) ls
   | Started i \<Rightarrow> pending (remove1 i pend) ls
   | _ \<Rightarrow> pending pend ls)"

definition idx_count :: "string \<Rightarrow> 'h op_state \<Rightarrow> nat" where
  "idx_count i s = count (image_mset fst (polling s)) i + count (leaving s) i"

text \<open>The invariant: a table entry per live goroutine, at most one per index, and a call that
  passed its lookup found no goroutine.\<close>

definition op_inv :: "string list \<Rightarrow> 'h op_state \<Rightarrow> bool" where
  "op_inv pend s \<longleftrightarrow> image_mset fst (checked s) = mset pend \<and> distinct pend \<and>
     (\<forall>i. idx_count i s = (if table s i = None then 0 else 1)) \<and>
     (\<forall>i \<in> set pend. table s i = None)"

section \<open>At most one goroutine per index\<close>

lemmas table_defs = ops_add_def ops_delete_def ops_get_def newOperations_def

lemma op_inv_init: "op_inv [] op_init"
  by (simp add: op_inv_def op_init_def idx_count_def table_defs)

lemma mset_remove_fst: "(i, h) \<in># M \<Longrightarrow> image_mset fst (M - {#(i, h)#}) = image_mset fst M - {#i#}"
  by (simp add: image_mset_Diff)

lemma op_inv_member: "op_inv pend s \<Longrightarrow> (i, h) \<in># checked s \<Longrightarrow> i \<in> set pend"
  unfolding op_inv_def by (metis image_eqI fst_conv set_image_mset set_mset_mset)

lemma polling_count: "(i, h) \<in># polling s \<Longrightarrow> 0 < count (image_mset fst (polling s)) i"
  by (metis count_greater_zero_iff fst_conv image_eqI set_image_mset)

lemma op_step_inv:
  assumes "op_step s l s'" "op_inv pend s" "serial pend (l # ls)"
  shows "op_inv (pending pend [l]) s'"
  using assms(1)
proof cases
  case (run_refused i)
  then show ?thesis using assms(2) by simp
next
  case (run_checked i h)
  then show ?thesis using assms(2,3) by (auto simp: op_inv_def idx_count_def table_defs)
next
  case (run_started i h)
  have "i \<in> set pend" using op_inv_member [OF assms(2) run_started(3)] .
  moreover have "idx_count j s' = idx_count j s + (if j = i then 1 else 0)" for j
    using run_started by (simp add: idx_count_def)
  ultimately show ?thesis using run_started assms(2)
    by (auto simp: op_inv_def table_defs mset_remove_fst)
next
  case (poll_again i h)
  then show ?thesis using assms(2) by simp
next
  case (poll_ends i h)
  obtain n where "count (image_mset fst (polling s)) i = Suc n"
    using gr0_implies_Suc [OF polling_count [OF poll_ends(3)]] by blast
  then have "idx_count j s' = idx_count j s" for j
    using poll_ends by (cases "j = i") (simp_all add: idx_count_def mset_remove_fst)
  then show ?thesis using poll_ends assms(2) by (simp add: op_inv_def)
next
  case (removed i)
  have pos: "0 < count (leaving s) i" using removed(3) by simp
  have all: "idx_count j s = (if table s j = None then 0 else 1)" for j
    using assms(2) unfolding op_inv_def by blast
  have "idx_count i s = 1" using all [of i] pos unfolding idx_count_def by presburger
  moreover have "idx_count j s' = idx_count j s - (if j = i then 1 else 0)" for j
    using removed pos by (simp add: idx_count_def)
  ultimately show ?thesis using removed assms(2) by (auto simp: op_inv_def table_defs)
qed

lemma op_run_inv:
  "op_run s ls s' \<Longrightarrow> op_inv pend s \<Longrightarrow> serial pend ls \<Longrightarrow> op_inv (pending pend ls) s'"
proof (induction arbitrary: pend rule: op_run.induct)
  case (op_nil s)
  then show ?case by simp
next
  case (op_cons s l s' ls s'')
  have "op_inv (pending pend [l]) s'" by (rule op_step_inv [OF op_cons.hyps(1) op_cons.prems])
  moreover have "serial (pending pend [l]) ls" using op_cons.prems(2) by (auto split: op_label.splits)
  ultimately have "op_inv (pending (pending pend [l]) ls) s''" by (rule op_cons.IH)
  then show ?case by (auto split: op_label.splits)
qed

text \<open>C35: when calls of \<^verbatim>\<open>Run\<close> for one index do not overlap, every interleaving with the
  goroutines keeps at most one goroutine per index, and an index is refused exactly while a
  goroutine holds it.\<close>

theorem at_most_one_operation:
  assumes "op_run op_init ls s" "serial [] ls"
  shows "count (image_mset fst (polling s)) i \<le> 1 \<and>
         (ops_get i (table s) \<noteq> None \<longleftrightarrow> idx_count i s = 1)"
proof -
  have "idx_count i s = (if table s i = None then 0 else 1)"
    using op_run_inv [OF assms(1) op_inv_init assms(2)] unfolding op_inv_def by blast
  then show ?thesis by (cases "table s i") (auto simp: idx_count_def ops_get_def)
qed

text \<open>Without that, the two critical sections of \<^verbatim>\<open>Run\<close> let both of two overlapping calls
  through.\<close>

lemma overlapping_runs_both_start:
  "\<exists>s. op_run op_init [Checked ''x'', Checked ''x'', Started ''x'', Started ''x''] (s :: unit op_state) \<and>
     count (image_mset fst (polling s)) ''x'' = 2"
proof -
  let ?s1 = "op_init\<lparr>checked := {#(''x'', ())#}\<rparr>"
  let ?s2 = "op_init\<lparr>checked := {#(''x'', ()), (''x'', ())#}\<rparr>"
  let ?s3 = "op_init\<lparr>checked := {#(''x'', ())#}, table := [''x'' \<mapsto> ()], polling := {#(''x'', ())#}\<rparr>"
  let ?s4 = "op_init\<lparr>table := [''x'' \<mapsto> ()], polling := {#(''x'', ()), (''x'', ())#}\<rparr>"
  have a: "op_step op_init (Checked ''x'') ?s1"
    using run_checked [of "''x''" op_init "()"] by (simp add: op_init_def table_defs)
  have b: "op_step ?s1 (Checked ''x'') ?s2"
    using run_checked [of "''x''" ?s1 "()"] by (simp add: op_init_def table_defs)
  have c: "op_step ?s2 (Started ''x'') ?s3"
    using run_started [of "''x''" "()" ?s2] by (simp add: op_init_def table_defs)
  have d: "op_step ?s3 (Started ''x'') ?s4"
    using run_started [of "''x''" "()" ?s3] by (simp add: op_init_def table_defs)
  have "op_run op_init [Checked ''x'', Checked ''x'', Started ''x'', Started ''x''] ?s4"
    by (rule op_cons [OF a op_cons [OF b op_cons [OF c op_cons [OF d op_nil]]]])
  then show ?thesis by (intro exI [of _ ?s4]) simp
qed

section \<open>The polling loop\<close>

definition polls :: "string \<Rightarrow> 'w handler \<Rightarrow> nat \<Rightarrow> 'w \<Rightarrow> 'w" where
  "polls nm h n w = ((\<lambda>x. snd (operationHandler nm h x)) ^^ n) w"

lemma polls_Suc: "polls nm h (Suc n) w = polls nm h n (snd (operationHandler nm h w))"
  by (simp only: polls_def funpow_Suc_right o_apply)

text \<open>The polling loop returns as soon as a poll fails or succeeds, with the state after
  that poll's callback: it polls exactly until the first poll that does not ask to
  continue.\<close>

theorem operate_returns:
  assumes "\<forall>i < n. fst (operationHandler nm h (polls nm h i w))"
    and "operationHandler nm h (polls nm h n w) = (False, w')"
  shows "operate nm h w = Some w'"
  using assms
proof (induction n arbitrary: w)
  case 0
  then show ?case by (subst operate.simps) (simp add: polls_def)
next
  case (Suc n)
  have first: "fst (operationHandler nm h w)" using Suc.prems(1) by (auto simp: polls_def)
  have "operate nm h (snd (operationHandler nm h w)) = Some w'"
    using Suc.prems by (intro Suc.IH) (auto simp flip: polls_Suc)
  then show ?case using first by (subst operate.simps) (auto split: prod.splits)
qed

definition countdown :: "nat handler" where
  "countdown = \<lparr>h_Operation = (\<lambda>_ n. ((n = 0, None), n - 1)), h_OnFailure = None,
     h_OnSuccess = Some (\<lambda>_ _. 42)\<rparr>"

theorem operate_returns_witness: "operate ''x'' countdown 1 = Some 42"
  using operate_returns [of 1 "''x''" countdown 1 42]
  by (simp add: countdown_def operationHandler_def polls_def)

theorem at_most_one_operation_witness:
  "\<exists>s. op_run op_init [Checked ''x'', Started ''x''] (s :: unit op_state) \<and>
     count (image_mset fst (polling s)) ''x'' \<le> 1"
proof -
  let ?s1 = "op_init\<lparr>checked := {#(''x'', ())#}\<rparr>"
  let ?s2 = "op_init\<lparr>table := [''x'' \<mapsto> ()], polling := {#(''x'', ())#}\<rparr>"
  have a: "op_step op_init (Checked ''x'') ?s1"
    using run_checked [of "''x''" op_init "()"] by (simp add: op_init_def table_defs)
  have b: "op_step ?s1 (Started ''x'') ?s2"
    using run_started [of "''x''" "()" ?s1] by (simp add: op_init_def table_defs)
  have r: "op_run op_init [Checked ''x'', Started ''x''] ?s2"
    by (rule op_cons [OF a op_cons [OF b op_nil]])
  then show ?thesis using at_most_one_operation [OF r, of "''x''"] by auto
qed

end
