(* ===== verification/Restore_Types.thy ===== *)
theory Restore_Types
  imports Backup_Types VBC_Types Dependency
begin

text \<open>
  The \<^verbatim>\<open>Restore\<close> object of \<^verbatim>\<open>apis/kahu/v1beta1/restore.go\<close>, the
  \<^verbatim>\<open>VolumeRestoreContent\<close> object of \<^verbatim>\<open>volumerestorecontent.go\<close> and the constants of
  \<^verbatim>\<open>controllers/restore/constants.go\<close>. Enumerations, times and label selectors are
  represented as in \<open>Backup_Types\<close>.
\<close>

section \<open>Hooks of a restore\<close>

record RestoreExecHook =
  rh_container :: string
  rh_command :: "string list"
  rh_onError :: HookErrorMode
  rh_timeout :: int
  rh_waitTimeout :: int

record init_container =
  ic_name :: string
  ic_image :: string
  ic_command :: "string list"

record RestoreResourceHook =
  rr_exec :: "RestoreExecHook option"
  rr_init :: "init_container list option"

record RestoreResourceHookSpec =
  rk_name :: string
  rk_includeNamespaces :: "string list"
  rk_excludeNamespaces :: "string list"
  rk_includeResources :: "resource_spec list"
  rk_excludeResources :: "resource_spec list"
  rk_labelSelector :: "string option"
  rk_postHooks :: "RestoreResourceHook list"

section \<open>Restore\<close>

record RestoreSpec =
  rp_backupName :: string
  rp_includeNamespaces :: "string list"
  rp_excludeNamespaces :: "string list"
  rp_includeResources :: "resource_spec list"
  rp_excludeResources :: "resource_spec list"
  rp_labelSelector :: "string option"
  rp_namespaceMapping :: "string \<rightharpoonup> string"
  rp_resourcePrefix :: string
  rp_hooks :: "RestoreResourceHookSpec list"
  rp_preserveNodePort :: "bool option"
  rp_preserveClusterIpAddr :: "bool option"

record RestoreResource =
  rx_apiVersion :: string
  rx_kind :: string
  rx_name :: string
  rx_namespace :: string

datatype RestoreStage = RestoreStageNone | RestoreStageInitial | RestoreStagePreHook
  | RestoreStageResources | RestoreStageVolumes | RestoreStagePostHook | RestoreStageFinished
  | RestoreStageOther string

datatype RestoreState = RestoreStateNone | RestoreStateNew | RestoreStateValidating
  | RestoreStateFailed | RestoreStateProcessing | RestoreStateCompleted | RestoreStateDeleting
  | RestoreStateOther string

record RestoreStatus =
  rt_stage :: RestoreStage
  rt_state :: RestoreState
  rt_resources :: "RestoreResource list"
  rt_startTimestamp :: "int option"
  rt_completionTimestamp :: "int option"
  rt_failureReason :: string
  rt_validationErrors :: "string list"

record Restore =
  rs_meta :: object_meta
  rs_spec :: RestoreSpec
  rs_status :: RestoreStatus

abbreviation rs_stage :: "Restore \<Rightarrow> RestoreStage" where "rs_stage r \<equiv> rt_stage (rs_status r)"
abbreviation rs_state :: "Restore \<Rightarrow> RestoreState" where "rs_state r \<equiv> rt_state (rs_status r)"
abbreviation rs_nm :: "Restore \<Rightarrow> string" where "rs_nm r \<equiv> meta_name (rs_meta r)"

definition set_rstate :: "RestoreState \<Rightarrow> Restore \<Rightarrow> Restore" where
  "set_rstate t r = r\<lparr>rs_status := (rs_status r)\<lparr>rt_state := t\<rparr>\<rparr>"

definition set_rstage :: "RestoreStage \<Rightarrow> Restore \<Rightarrow> Restore" where
  "set_rstage g r = r\<lparr>rs_status := (rs_status r)\<lparr>rt_stage := g\<rparr>\<rparr>"

definition set_reason :: "string \<Rightarrow> Restore \<Rightarrow> Restore" where
  "set_reason m r = r\<lparr>rs_status := (rs_status r)\<lparr>rt_failureReason := m\<rparr>\<rparr>"

lemma set_restore_simps [simp]:
  "rs_meta (set_rstate t r) = rs_meta r" "rs_spec (set_rstate t r) = rs_spec r"
  "rs_stage (set_rstate t r) = rs_stage r" "rs_state (set_rstate t r) = t"
  "rs_meta (set_rstage g r) = rs_meta r" "rs_spec (set_rstage g r) = rs_spec r"
  "rs_stage (set_rstage g r) = g" "rs_state (set_rstage g r) = rs_state r"
  "rs_meta (set_reason m r) = rs_meta r" "rs_spec (set_reason m r) = rs_spec r"
  "rs_stage (set_reason m r) = rs_stage r" "rs_state (set_reason m r) = rs_state r"
  "rt_completionTimestamp (rs_status (set_rstate t r)) = rt_completionTimestamp (rs_status r)"
  "rt_completionTimestamp (rs_status (set_rstage g r)) = rt_completionTimestamp (rs_status r)"
  "rt_completionTimestamp (rs_status (set_reason m r)) = rt_completionTimestamp (rs_status r)"
  "rt_resources (rs_status (set_rstate t r)) = rt_resources (rs_status r)"
  "rt_resources (rs_status (set_rstage g r)) = rt_resources (rs_status r)"
  "rt_resources (rs_status (set_reason m r)) = rt_resources (rs_status r)"
  by (simp_all add: set_rstate_def set_rstage_def set_reason_def)

definition zero_RestoreSpec :: RestoreSpec where
  "zero_RestoreSpec = \<lparr>rp_backupName = [], rp_includeNamespaces = [], rp_excludeNamespaces = [],
     rp_includeResources = [], rp_excludeResources = [], rp_labelSelector = None,
     rp_namespaceMapping = Map.empty, rp_resourcePrefix = [], rp_hooks = [],
     rp_preserveNodePort = None, rp_preserveClusterIpAddr = None\<rparr>"

definition zero_RestoreStatus :: RestoreStatus where
  "zero_RestoreStatus = \<lparr>rt_stage = RestoreStageNone, rt_state = RestoreStateNone, rt_resources = [],
     rt_startTimestamp = None, rt_completionTimestamp = None, rt_failureReason = [],
     rt_validationErrors = []\<rparr>"

definition zero_Restore :: Restore where
  "zero_Restore = \<lparr>rs_meta = zero_meta, rs_spec = zero_RestoreSpec, rs_status = zero_RestoreStatus\<rparr>"

section \<open>VolumeRestoreContent\<close>

datatype VolumeRestoreContentPhase = VRCPhaseNone | VRCPhaseInit | VRCPhaseInProgress
  | VRCPhaseCompleted | VRCPhaseFailed | VRCPhaseDeleting | VRCPhaseOther string

record VolumeRestoreState =
  vt_volumeName :: string
  vt_volumeHandle :: string
  vt_attributes :: "string \<rightharpoonup> string"
  vt_progress :: int
  vt_lastProgressUpdate :: int

record RestoreVolumeSpec =
  rv_backupHandle :: string
  rv_attributes :: "string \<rightharpoonup> string"
  rv_claim :: pvc

record VolumeRestoreContent =
  vr_meta :: object_meta
  vr_backupName :: string
  vr_restoreName :: string
  vr_volumes :: "RestoreVolumeSpec list"
  vr_provider :: "string option"
  vr_parameters :: "string \<rightharpoonup> string"
  vr_phase :: VolumeRestoreContentPhase
  vr_startTimestamp :: "int option"
  vr_failureReason :: string
  vr_states :: "VolumeRestoreState list"

abbreviation vr_name :: "VolumeRestoreContent \<Rightarrow> string" where "vr_name v \<equiv> meta_name (vr_meta v)"

section \<open>controllers/restore/constants.go\<close>

definition restoreFinalizer :: string where "restoreFinalizer = ''kahu.io/restore-protection''"
definition annVolumeRestoreCompleted :: string where
  "annVolumeRestoreCompleted = ''kahu.io/volume-restore-completed''"
definition annVolumeRestoreDeleteCompleted :: string where
  "annVolumeRestoreDeleteCompleted = ''kahu.io/volume-restore-delete-completed''"
definition annVolumeResourceCleanup :: string where
  "annVolumeResourceCleanup = ''kahu.io/volume-resource-cleanup''"
definition annRestoreIdentifier :: string where "annRestoreIdentifier = ''kahu.io/restore-name''"
definition annRestoreCleanupDone :: string where
  "annRestoreCleanupDone = ''kahu.io/restore-cleanup-done''"
definition crdName :: string where "crdName = ''CustomResourceDefinition''"
definition volumeContentRestoreLabel :: string where
  "volumeContentRestoreLabel = ''kahu.io/restore-name''"

definition excludeRestoreResources :: "string set" where
  "excludeRestoreResources = {''CustomResourceDefinition'', ''VolumeBackupContent'', PV_kind, PVC_kind}"

definition excludeResources :: "string set" where
  "excludeResources = {''Node'', ''Namespace'', ''Event''}"

end
