(* ===== verification/Hooks.thy ===== *)
theory Hooks
  imports Backup_Updater Restore_Types Traces
begin

text \<open>
  Hook execution, \<^verbatim>\<open>hooks/common.go\<close>, \<^verbatim>\<open>hooks.go\<close>,
  \<^verbatim>\<open>pod_command_executor.go\<close> and \<^verbatim>\<open>init_hooks.go\<close>: which pods a hook runs in, how a
  pod's annotations override the specification, what a failing command does, and the init
  containers added to a restored pod.

  The API server, the stream executor, JSON and duration parsing, label selectors and regular
  expressions are fields of \<open>hook_env\<close>; \<open>he_order\<close> is the order of
  \<^verbatim>\<open>sets.String.UnsortedList\<close>. \<open>he_stream\<close> gives the event that wins the
  \<^verbatim>\<open>select\<close> between the command's end and the timer. Commands that reach the stream executor
  are appended to a log, with the error mode the hook declares and the one it is logged with.
\<close>

section \<open>State and environment\<close>

record exec_request =
  rq_namespace :: string
  rq_pod :: string
  rq_hook :: string
  rq_container :: string
  rq_command :: "string list"
  rq_onError :: HookErrorMode
  rq_timeout :: int
  rq_declared :: HookErrorMode

datatype stream_result = Streamed "goerr option" | TimedOut

record ipod =
  ip_pod :: pod
  ip_initContainers :: "init_container list"

record 'w hook_env =
  he_namespaces :: "'w \<Rightarrow> goerr + string list"
  he_pods :: "string \<Rightarrow> string \<Rightarrow> 'w \<Rightarrow> goerr + string list"
  he_workloads :: "string \<Rightarrow> string \<Rightarrow> 'w \<Rightarrow> goerr + (string \<times> string option) list"
  he_getPod :: "string \<Rightarrow> string \<Rightarrow> 'w \<Rightarrow> goerr + pod"
  he_matchLabels :: "string option \<Rightarrow> string"
  he_selector :: "string \<Rightarrow> goerr + (label_pairs \<Rightarrow> bool)"
  he_toUnstructured :: "pod \<Rightarrow> goerr + string"
  he_fromUnstructured :: "string \<Rightarrow> goerr + pod"
  he_compile :: "string \<Rightarrow> (string \<Rightarrow> bool) option"
  he_order :: "string set \<Rightarrow> string list"
  he_parseDuration :: "string \<Rightarrow> int option"
  he_unmarshal :: "string \<Rightarrow> string list option"
  he_newExecutor :: "exec_request \<Rightarrow> 'w \<Rightarrow> goerr option \<times> 'w"
  he_stream :: "exec_request \<Rightarrow> 'w \<Rightarrow> stream_result \<times> 'w"
  he_uuid :: "'w \<Rightarrow> goerr + string"
  he_toIpod :: "unstructured \<Rightarrow> goerr + ipod"
  he_fromIpod :: "ipod \<Rightarrow> goerr + unstructured"

record 'w hstate =
  hs_world :: 'w
  hs_log :: "(exec_request \<times> bool) list"

definition hreads :: "('w \<Rightarrow> 'a) \<Rightarrow> ('w hstate, 'a) state" where
  "hreads f = liftst (\<lambda>s. (f (hs_world s), s))"

section \<open>common.go\<close>

record CommonHookSpec =
  ch_name :: string
  ch_includeNamespaces :: "string list"
  ch_excludeNamespaces :: "string list"
  ch_includeResources :: "resource_spec list"
  ch_excludeResources :: "resource_spec list"
  ch_labelSelector :: "string option"
  ch_continueFlag :: bool
  ch_hooks :: "ExecHook option list"

text \<open>Without includes the result is the caller's own set, from which the excludes are deleted:
  the second component is what \<open>rawItems\<close> holds afterwards.\<close>

definition filterIncludesExcludes ::
  "string set \<Rightarrow> string list \<Rightarrow> string list \<Rightarrow> string set \<times> string set" where
  "filterIncludesExcludes rawItems includes excludes =
     (let includeItems = set includes in
      if includeItems \<noteq> {} then
        let excludeItems = {item \<in> rawItems. item \<notin> includeItems} \<union>
              {item \<in> includeItems. item \<notin> rawItems} \<union> set excludes
        in (includeItems - excludeItems, rawItems)
      else let rest = rawItems - set excludes in (rest, rest))"

definition FilterHookNamespaces ::
  "string set \<Rightarrow> string list \<Rightarrow> string list \<Rightarrow> string set \<times> string set" where
  "FilterHookNamespaces allNamespaces includes excludes =
     filterIncludesExcludes allNamespaces includes excludes"

definition checkInclude :: "string list \<Rightarrow> string list \<Rightarrow> string \<Rightarrow> bool" where
  "checkInclude inc exc key =
     (if key \<in> set exc then False else length inc = 0 \<or> key \<in> set inc)"

definition parseStringToCommand :: "'w hook_env \<Rightarrow> string \<Rightarrow> string list outcome" where
  "parseStringToCommand env commandValue = (case commandValue of
     [] \<Rightarrow> Panic
   | c # _ \<Rightarrow> if c = CHR ''['' then
        (case he_unmarshal env commandValue of None \<Rightarrow> Ret [commandValue] | Some command \<Rightarrow> Ret command)
      else Ret [commandValue])"

text \<open>The four listings of pods by workload differ in the kind only. The pods listed before an error
  are returned with it; a workload without a selector is a nil dereference.\<close>

fun list_workload_pods ::
  "'w hook_env \<Rightarrow> string \<Rightarrow> string set \<Rightarrow> 'w \<Rightarrow> (string \<times> string option) list \<Rightarrow>
   (string list list \<times> goerr option) outcome" where
  "list_workload_pods env ns selected w [] = Ret ([], None)"
| "list_workload_pods env ns selected w ((name, sel) # rest) =
     (if name \<in> selected then
        (case sel of None \<Rightarrow> Panic
         | Some s \<Rightarrow> (case he_pods env ns s w of
             Inl err \<Rightarrow> Ret ([], Some err)
           | Inr pods \<Rightarrow> (case list_workload_pods env ns selected w rest of
               Panic \<Rightarrow> Panic | Ret (ls, e) \<Rightarrow> Ret (pods # ls, e))))
      else list_workload_pods env ns selected w rest)"

definition GetPodsFromWorkload ::
  "'w hook_env \<Rightarrow> string \<Rightarrow> string \<Rightarrow> resource_spec list \<Rightarrow> resource_spec list \<Rightarrow> 'w \<Rightarrow>
   (string list list \<times> goerr option) outcome" where
  "GetPodsFromWorkload env kind ns inc exc w = (case he_workloads env kind ns w of
     Inl err \<Rightarrow> Ret ([], Some err)
   | Inr its \<Rightarrow> (case FindMatchedStrings (he_compile env) kind (map fst its) inc exc of
       Panic \<Rightarrow> Panic
     | Ret filtered \<Rightarrow> list_workload_pods env ns (set filtered) w its))"

definition GetPodsFromDeployment ::
  "'w hook_env \<Rightarrow> string \<Rightarrow> resource_spec list \<Rightarrow> resource_spec list \<Rightarrow> 'w \<Rightarrow>
   (string list list \<times> goerr option) outcome" where
  "GetPodsFromDeployment env = GetPodsFromWorkload env Deployment_kind"

definition GetPodsFromDaemonset ::
  "'w hook_env \<Rightarrow> string \<Rightarrow> resource_spec list \<Rightarrow> resource_spec list \<Rightarrow> 'w \<Rightarrow>
   (string list list \<times> goerr option) outcome" where
  "GetPodsFromDaemonset env = GetPodsFromWorkload env DaemonSet_kind"

definition GetPodsFromStatefulset ::
  "'w hook_env \<Rightarrow> string \<Rightarrow> resource_spec list \<Rightarrow> resource_spec list \<Rightarrow> 'w \<Rightarrow>
   (string list list \<times> goerr option) outcome" where
  "GetPodsFromStatefulset env = GetPodsFromWorkload env StatefulSet_kind"

definition GetPodsFromReplicaset ::
  "'w hook_env \<Rightarrow> string \<Rightarrow> resource_spec list \<Rightarrow> resource_spec list \<Rightarrow> 'w \<Rightarrow>
   (string list list \<times> goerr option) outcome" where
  "GetPodsFromReplicaset env = GetPodsFromWorkload env Replicaset_kind"

section \<open>hooks.go: pods of a namespace\<close>

definition getPodsFromPodResourceSpec ::
  "'w hook_env \<Rightarrow> string \<Rightarrow> string option \<Rightarrow> resource_spec list \<Rightarrow> resource_spec list \<Rightarrow> 'w \<Rightarrow>
   (string set \<times> goerr option) outcome" where
  "getPodsFromPodResourceSpec env ns selector inc exc w =
     (case he_pods env ns (he_matchLabels env selector) w of
        Inl err \<Rightarrow> Ret ({}, Some err)
      | Inr pods \<Rightarrow> (case FindMatchedStrings (he_compile env) Pod_kind pods inc exc of
          Panic \<Rightarrow> Panic | Ret filtered \<Rightarrow> Ret (set filtered, None)))"

text \<open>\<^verbatim>\<open>getPodsFrom...ResourceSpec\<close>: an error yields no pod at all.\<close>

definition pods_or_none :: "(string list list \<times> goerr option) outcome \<Rightarrow> string set outcome" where
  "pods_or_none r = (case r of Panic \<Rightarrow> Panic
     | Ret (_, Some err) \<Rightarrow> Ret {} | Ret (ls, None) \<Rightarrow> Ret (\<Union> (set ` set ls)))"

definition getPodsFromDeploymentResourceSpec where
  "getPodsFromDeploymentResourceSpec env ns inc exc w = pods_or_none (GetPodsFromDeployment env ns inc exc w)"

definition getPodsFromStatefulSetResourceSpec where
  "getPodsFromStatefulSetResourceSpec env ns inc exc w = pods_or_none (GetPodsFromStatefulset env ns inc exc w)"

definition getPodsFromReplicaSetResourceSpec where
  "getPodsFromReplicaSetResourceSpec env ns inc exc w = pods_or_none (GetPodsFromReplicaset env ns inc exc w)"

definition getPodsFromDaemonSetResourceSpec where
  "getPodsFromDaemonSetResourceSpec env ns inc exc w = pods_or_none (GetPodsFromDaemonset env ns inc exc w)"

definition obind :: "'a outcome \<Rightarrow> ('a \<Rightarrow> 'b outcome) \<Rightarrow> 'b outcome" where
  "obind m f = (case m of Panic \<Rightarrow> Panic | Ret x \<Rightarrow> f x)"

text \<open>Errors are logged only.\<close>

definition GetAllPodsForNamespace ::
  "'w hook_env \<Rightarrow> string \<Rightarrow> string option \<Rightarrow> resource_spec list \<Rightarrow> resource_spec list \<Rightarrow> 'w \<Rightarrow>
   string set outcome" where
  "GetAllPodsForNamespace env ns selector inc exc w =
     obind (getPodsFromPodResourceSpec env ns selector inc exc w) (\<lambda>(pods, _).
     obind (getPodsFromDeploymentResourceSpec env ns inc exc w) (\<lambda>deploys.
     obind (getPodsFromStatefulSetResourceSpec env ns inc exc w) (\<lambda>stss.
     obind (getPodsFromReplicaSetResourceSpec env ns inc exc w) (\<lambda>rss.
     obind (getPodsFromDaemonSetResourceSpec env ns inc exc w) (\<lambda>dss.
       Ret (pods \<union> deploys \<union> stss \<union> rss \<union> dss))))))"

definition validateHook ::
  "'w hook_env \<Rightarrow> CommonHookSpec \<Rightarrow> string \<Rightarrow> string \<Rightarrow> label_pairs \<Rightarrow> 'w \<Rightarrow> bool outcome" where
  "validateHook env h name ns slabels w =
     (if \<not> checkInclude (ch_includeNamespaces h) (ch_excludeNamespaces h) ns then Ret False
      else obind (GetAllPodsForNamespace env ns (ch_labelSelector h) (ch_includeResources h)
                   (ch_excludeResources h) w) (\<lambda>pods.
        if name \<notin> pods then Ret False
        else (case ch_labelSelector h of None \<Rightarrow> Ret True
          | Some l \<Rightarrow> (case he_selector env l of Inl err \<Rightarrow> Ret False
              | Inr sel \<Rightarrow> Ret (sel slabels)))))"

section \<open>pod_command_executor.go\<close>

definition defaultTimeout :: int where "defaultTimeout = 30 * 10 ^ 9"

definition ensureContainerExists :: "pod \<Rightarrow> string \<Rightarrow> goerr option" where
  "ensureContainerExists p container =
     (if list_ex (\<lambda>c. ct_name c = container) (ps_containers (pod_podspec p)) then None
      else Some (errorf (''no such container: '' @ container)))"

definition setDefaultHookContainer :: "pod \<Rightarrow> ExecHook \<Rightarrow> goerr + ExecHook" where
  "setDefaultHookContainer p hook = (case ps_containers (pod_podspec p) of
     [] \<Rightarrow> Inl (errorf ''need at least 1 container'')
   | c # _ \<Rightarrow> Inr (hook\<lparr>eh_container := ct_name c\<rparr>))"

definition CheckContainerExists :: "'w hook_env \<Rightarrow> string \<Rightarrow> string \<Rightarrow> goerr option" where
  "CheckContainerExists env item container = (case he_fromUnstructured env item of
     Inl err \<Rightarrow> Some err | Inr p \<Rightarrow> ensureContainerExists p container)"

definition local_hook :: "pod \<Rightarrow> ExecHook \<Rightarrow> goerr + ExecHook" where
  "local_hook p hook =
     (case (if eh_container hook = [] then setDefaultHookContainer p hook
            else (case ensureContainerExists p (eh_container hook) of Some err \<Rightarrow> Inl err | None \<Rightarrow> Inr hook)) of
        Inl err \<Rightarrow> Inl err
      | Inr h \<Rightarrow> if length (eh_command h) = 0 then Inl (errorf ''command is required'')
         else Inr (h\<lparr>eh_onError := (if eh_onError h = HookErrorModeFail \<or> eh_onError h = HookErrorModeContinue
                        then eh_onError h else HookErrorModeFail),
                     eh_timeout := (if eh_timeout h = 0 then defaultTimeout else eh_timeout h)\<rparr>))"

definition hcall :: "('w \<Rightarrow> 'r \<times> 'w) \<Rightarrow> ('w hstate, 'r) state" where
  "hcall f = liftst (\<lambda>s. case f (hs_world s) of (r, w) \<Rightarrow> (r, s\<lparr>hs_world := w\<rparr>))"

definition run_stream :: "'w hook_env \<Rightarrow> exec_request \<Rightarrow> ('w hstate, goerr option) state" where
  "run_stream env rq = liftst (\<lambda>s. case he_stream env rq (hs_world s) of (r, w) \<Rightarrow>
     (let e = (case r of Streamed err \<Rightarrow> err | TimedOut \<Rightarrow> Some (errorf ''timed out''))
      in (e, s\<lparr>hs_world := w, hs_log := hs_log s @ [(rq, e = None)]\<rparr>)))"

definition ExecutePodCommand ::
  "'w hook_env \<Rightarrow> string option \<Rightarrow> string \<Rightarrow> string \<Rightarrow> string \<Rightarrow> ExecHook option \<Rightarrow>
   ('w hstate, goerr option) state" where
  "ExecutePodCommand env item ns name hookName hook =
     (case item of None \<Rightarrow> State_Monad.return (Some (errorf ''item is required''))
      | Some it \<Rightarrow>
     if ns = [] then State_Monad.return (Some (errorf ''namespace is required''))
     else if name = [] then State_Monad.return (Some (errorf ''name is required''))
     else if hookName = [] then State_Monad.return (Some (errorf ''hookName is required''))
     else (case hook of None \<Rightarrow> State_Monad.return (Some (errorf ''hook is required''))
      | Some h \<Rightarrow> (case he_fromUnstructured env it of Inl err \<Rightarrow> State_Monad.return (Some err)
      | Inr p \<Rightarrow> (case local_hook p h of Inl err \<Rightarrow> State_Monad.return (Some err)
      | Inr lh \<Rightarrow>
         let rq = \<lparr>rq_namespace = ns, rq_pod = name, rq_hook = hookName, rq_container = eh_container lh,
                   rq_command = eh_command lh, rq_onError = eh_onError lh, rq_timeout = eh_timeout lh,
                   rq_declared = eh_onError h\<rparr>
         in do {
           e \<leftarrow> hcall (he_newExecutor env rq);
           if e \<noteq> None then State_Monad.return e else run_stream env rq }))))"

section \<open>hooks.go: execution\<close>

fun phase_string :: "HookPhase \<Rightarrow> string" where
  "phase_string PreHookPhase = ''pre''" | "phase_string PostHookPhase = ''post''"

definition ann_value :: "object_meta \<Rightarrow> string \<Rightarrow> string" where
  "ann_value m k = (case meta_annotations m k of None \<Rightarrow> [] | Some v \<Rightarrow> v)"

definition on_error_of :: "string \<Rightarrow> HookErrorMode" where
  "on_error_of s = (if s = ''Continue'' then HookErrorModeContinue
     else if s = ''Fail'' then HookErrorModeFail else HookErrorModeNone)"

definition duration_of :: "'w hook_env \<Rightarrow> string \<Rightarrow> int" where
  "duration_of env s = (if s = [] then 0 else (case he_parseDuration env s of None \<Rightarrow> 0 | Some d \<Rightarrow> d))"

definition getHooksSpecFromAnnotations ::
  "'w hook_env \<Rightarrow> object_meta \<Rightarrow> HookPhase \<Rightarrow> ExecHook option outcome" where
  "getHooksSpecFromAnnotations env m ph =
     (let key = (\<lambda>k. phase_string ph @ ''.hook.backup.kahu.io/'' @ k);
          commands = ann_value m (key ''command'')
      in if commands = [] then Ret None
         else obind (parseStringToCommand env commands) (\<lambda>cmd.
           Ret (Some \<lparr>eh_container = ann_value m (key ''container''), eh_command = cmd,
             eh_onError = on_error_of (ann_value m (key ''on-error'')),
             eh_timeout = duration_of env (ann_value m (key ''timeout''))\<rparr>)))"

definition run_spec_hook ::
  "'w hook_env \<Rightarrow> CommonHookSpec \<Rightarrow> string \<Rightarrow> string \<Rightarrow> string \<Rightarrow> ExecHook option \<Rightarrow> ('w hstate, sres) state" where
  "run_spec_hook env h item ns name hook = (case hook of None \<Rightarrow> State_Monad.return Ok
     | Some x \<Rightarrow>
        if ch_continueFlag h \<and> eh_container x \<noteq> [] \<and> CheckContainerExists env item (eh_container x) \<noteq> None
        then State_Monad.return Ok
        else do {
          e \<leftarrow> ExecutePodCommand env (Some item) ns name (ch_name h) (Some x);
          State_Monad.return (if e \<noteq> None \<and> eh_onError x = HookErrorModeFail then of_err e else Ok) })"

definition CommonExecuteHook ::
  "'w hook_env \<Rightarrow> CommonHookSpec \<Rightarrow> string \<Rightarrow> string \<Rightarrow> HookPhase \<Rightarrow> ('w hstate, sres) state" where
  "CommonExecuteHook env h ns name ph = do {
     p \<leftarrow> hreads (he_getPod env ns name);
     case p of Inl err \<Rightarrow> State_Monad.return (Fail err)
     | Inr pod \<Rightarrow> (case he_toUnstructured env pod of Inl err \<Rightarrow> State_Monad.return Ok
     | Inr item \<Rightarrow> (case getHooksSpecFromAnnotations env (pod_meta pod) ph of
         Panic \<Rightarrow> State_Monad.return Crash
       | Ret (Some x) \<Rightarrow> do {
           e \<leftarrow> ExecutePodCommand env (Some item) ns name ''annotationHook'' (Some x);
           State_Monad.return (if e \<noteq> None \<and> eh_onError x = HookErrorModeFail then of_err e else Ok) }
       | Ret None \<Rightarrow> each (run_spec_hook env h item ns name) (ch_hooks h))) }"

definition phase_hooks :: "HookPhase \<Rightarrow> ResourceHookSpec \<Rightarrow> ExecHook option list" where
  "phase_hooks ph h = (if ph = PostHookPhase then hk_postHooks h else hk_preHooks h)"

definition common_spec :: "HookPhase \<Rightarrow> ResourceHookSpec \<Rightarrow> CommonHookSpec" where
  "common_spec ph h = \<lparr>ch_name = hk_name h, ch_includeNamespaces = hk_includeNamespaces h,
     ch_excludeNamespaces = hk_excludeNamespaces h, ch_includeResources = hk_includeResources h,
     ch_excludeResources = hk_excludeResources h, ch_labelSelector = hk_labelSelector h,
     ch_continueFlag = hk_continueIfNotFound h, ch_hooks = phase_hooks ph h\<rparr>"

definition hook_namespace ::
  "'w hook_env \<Rightarrow> CommonHookSpec \<Rightarrow> HookPhase \<Rightarrow> string \<Rightarrow> ('w hstate, sres) state" where
  "hook_namespace env h ph ns = do {
     ps \<leftarrow> hreads (GetAllPodsForNamespace env ns (ch_labelSelector h) (ch_includeResources h) (ch_excludeResources h));
     case ps of Panic \<Rightarrow> State_Monad.return Crash
     | Ret pods \<Rightarrow> each (\<lambda>pod. CommonExecuteHook env h ns pod ph) (he_order env pods) }"

text \<open>The set of namespaces is threaded through the loop, because the filter may delete from it.\<close>

fun hook_specs ::
  "'w hook_env \<Rightarrow> HookPhase \<Rightarrow> string set \<Rightarrow> ResourceHookSpec list \<Rightarrow> ('w hstate, sres) state" where
  "hook_specs env ph allNs [] = State_Monad.return Ok"
| "hook_specs env ph allNs (h # hs) =
     (if length (phase_hooks ph h) = 0 then hook_specs env ph allNs hs
      else (case FilterHookNamespaces allNs (hk_includeNamespaces h) (hk_excludeNamespaces h) of
        (nss, allNs') \<Rightarrow> seq (each (hook_namespace env (common_spec ph h) ph) (he_order env nss))
                            (hook_specs env ph allNs' hs)))"

definition ExecuteHook :: "'w hook_env \<Rightarrow> BackupSpec \<Rightarrow> HookPhase \<Rightarrow> ('w hstate, sres) state" where
  "ExecuteHook env spec ph = do {
     l \<leftarrow> hreads (he_namespaces env);
     case l of Inl err \<Rightarrow> State_Monad.return (Fail err)
     | Inr nss \<Rightarrow> hook_specs env ph (set nss) (sp_hook spec) }"

section \<open>init_hooks.go\<close>

definition getInitRestoreHookFromAnnotation ::
  "'w hook_env \<Rightarrow> object_meta \<Rightarrow> 'w \<Rightarrow> init_container list option outcome" where
  "getInitRestoreHookFromAnnotation env m w =
     (let image = ann_value m ''init.hook.restore.kahu.io/container-image'';
          name0 = ann_value m ''init.hook.restore.kahu.io/container-name'';
          command = ann_value m ''init.hook.restore.kahu.io/command''
      in if image = [] then Ret None
         else let name = (if name0 = [] then ''restore-init-'' @ (case he_uuid env w of Inl err \<Rightarrow> ''dummyuuid''
                            | Inr uid \<Rightarrow> hd (strings_Split (CHR ''-'') uid)) else name0)
              in obind (parseStringToCommand env command) (\<lambda>cmd.
                   Ret (Some [\<lparr>ic_name = name, ic_image = image, ic_command = cmd\<rparr>])))"

definition restore_common :: "RestoreResourceHookSpec \<Rightarrow> CommonHookSpec" where
  "restore_common h = \<lparr>ch_name = rk_name h, ch_includeNamespaces = rk_includeNamespaces h,
     ch_excludeNamespaces = rk_excludeNamespaces h, ch_includeResources = rk_includeResources h,
     ch_excludeResources = rk_excludeResources h, ch_labelSelector = rk_labelSelector h,
     ch_continueFlag = False, ch_hooks = []\<rparr>"

fun spec_init_containers ::
  "'w hook_env \<Rightarrow> pod \<Rightarrow> 'w \<Rightarrow> RestoreResourceHookSpec list \<Rightarrow> init_container list outcome" where
  "spec_init_containers env p w [] = Ret []"
| "spec_init_containers env p w (h # hs) =
     obind (validateHook env (restore_common h) (meta_name (pod_meta p)) (meta_namespace (pod_meta p))
              (pod_labels p) w) (\<lambda>ok.
     obind (spec_init_containers env p w hs) (\<lambda>rest.
       Ret ((if ok then concat (map (\<lambda>r. case rr_init r of None \<Rightarrow> [] | Some cs \<Rightarrow> cs) (rk_postHooks h)) else [])
            @ rest)))"

text \<open>The first argument is whether the group resource is \<^verbatim>\<open>pods\<close>.\<close>

definition HandleInitHook ::
  "'w hook_env \<Rightarrow> bool \<Rightarrow> unstructured \<Rightarrow> RestoreResourceHookSpec list \<Rightarrow> 'w \<Rightarrow>
   (unstructured option \<times> goerr option) outcome" where
  "HandleInitHook env isPods obj specs w =
     (if \<not> isPods then Ret (None, None)
      else (case he_toIpod env obj of Inl err \<Rightarrow> Ret (None, Some err)
      | Inr ip \<Rightarrow>
         obind (getInitRestoreHookFromAnnotation env (un_meta obj) w) (\<lambda>ann.
         obind (case ann of Some cs \<Rightarrow> Ret cs
                | None \<Rightarrow> spec_init_containers env
                    ((ip_pod ip)\<lparr>pod_meta := (pod_meta (ip_pod ip))\<lparr>meta_namespace := meta_namespace (un_meta obj)\<rparr>\<rparr>) w specs)
           (\<lambda>cs. (case he_fromIpod env (ip\<lparr>ip_initContainers := cs @ ip_initContainers ip\<rparr>) of
               Inl err \<Rightarrow> Ret (None, Some err) | Inr u \<Rightarrow> Ret (Some u, None))))))"

section \<open>Which namespaces a hook runs in\<close>

text \<open>The namespaces a hook runs in are those of the cluster that pass the test used for single
  pods: not excluded, and included unless no includes are given.\<close>

theorem FilterHookNamespaces_checkInclude:
  "fst (FilterHookNamespaces allNs inc exc) = {ns \<in> allNs. checkInclude inc exc ns}"
  by (auto simp: FilterHookNamespaces_def filterIncludesExcludes_def checkInclude_def Let_def)

text \<open>Without includes the filter edits the caller's set, so that a namespace excluded by one hook is
  lost for the hooks after it.\<close>

lemma excluded_namespace_lost:
  "snd (FilterHookNamespaces {''a'', ''b''} [] [''a'']) = {''b''}"
  by (auto simp: FilterHookNamespaces_def filterIncludesExcludes_def Let_def)

lemma snd_Filter: "snd (FilterHookNamespaces allNs inc exc) \<subseteq> allNs"
  by (auto simp: FilterHookNamespaces_def filterIncludesExcludes_def Let_def)

section \<open>What is executed\<close>

lemma run_hreads [simp]: "run_state (hreads f) s = (f (hs_world s), s)"
  by (simp add: hreads_def)

lemma tr_hreads: "tr hs_log (\<lambda>a l. l = [] \<and> (\<exists>w. a = f w)) (hreads f)"
  by (auto simp: tr_def)

lemma tr_hcall: "tr hs_log (\<lambda>_ l. l = [] \<and> True) (hcall f)"
  by (auto simp: tr_def hcall_def split: prod.splits)

lemma tr_run_stream: "tr hs_log (\<lambda>r l. l = [(rq, r = None)]) (run_stream env rq)"
  by (auto simp: tr_def run_stream_def Let_def split: prod.splits)

definition request_of :: "string \<Rightarrow> string \<Rightarrow> string \<Rightarrow> ExecHook \<Rightarrow> exec_request \<Rightarrow> bool" where
  "request_of ns name hookName h rq \<longleftrightarrow> rq_namespace rq = ns \<and> rq_pod rq = name \<and> rq_hook rq = hookName \<and>
     rq_command rq = eh_command h \<and> rq_command rq \<noteq> [] \<and> rq_declared rq = eh_onError h \<and>
     (eh_container h \<noteq> [] \<longrightarrow> rq_container rq = eh_container h)"

lemma local_hook_Inr:
  "local_hook p h = Inr lh \<Longrightarrow> eh_command lh = eh_command h \<and> eh_command lh \<noteq> [] \<and>
     (eh_container h \<noteq> [] \<longrightarrow> eh_container lh = eh_container h)"
  by (auto simp: local_hook_def setDefaultHookContainer_def split: if_splits option.splits sum.splits list.splits)

text \<open>One command: at most one request, which is the result.\<close>

lemma tr_ExecutePodCommand:
  "tr hs_log (\<lambda>r l. l = [] \<and> r \<noteq> None \<or> (\<exists>rq. l = [(rq, r = None)] \<and> request_of ns name hn h rq))
     (ExecutePodCommand env item ns name hn (Some h))"
proof -
  let ?R = "\<lambda>r l. l = [] \<and> r \<noteq> None \<or> (\<exists>rq. l = [(rq, r = None)] \<and> request_of ns name hn h rq)"
  have key: "tr hs_log ?R (do { e \<leftarrow> hcall (he_newExecutor env rq);
      if e \<noteq> None then State_Monad.return e else run_stream env rq })"
    if "request_of ns name hn h rq" for rq
    using that by (intro tr_skip [OF tr_hcall] tr_if tr_return tr_weaken [OF tr_run_stream]) auto
  show ?thesis unfolding ExecutePodCommand_def Let_def option.case
    by (intro tr_option tr_if tr_sum tr_return key) (auto simp: request_of_def dest!: local_hook_Inr)
qed

text \<open>
  \<open>fail_stop r l\<close>: a command that failed although its hook declares the mode \<^verbatim>\<open>Fail\<close> is the last one,
  and the result is not success.
\<close>

definition tolerated :: "exec_request \<times> bool \<Rightarrow> bool" where
  "tolerated e \<longleftrightarrow> snd e \<or> rq_declared (fst e) \<noteq> HookErrorModeFail"

definition fail_stop :: "sres \<Rightarrow> (exec_request \<times> bool) list \<Rightarrow> bool" where
  "fail_stop r l \<longleftrightarrow> (\<forall>e \<in> set (butlast l). tolerated e) \<and> (r = Ok \<longrightarrow> (\<forall>e \<in> set l. tolerated e))"

lemma fail_stop_append: "fail_stop Ok l \<Longrightarrow> fail_stop r l' \<Longrightarrow> fail_stop r (l @ l')"
  by (cases "l' = []") (auto simp: fail_stop_def butlast_append dest: in_set_butlastD)

lemma fail_stop_Nil [simp]: "fail_stop r []"
  by (simp add: fail_stop_def)

lemmas tr_seq_stop = tr_seq [where R = fail_stop, OF _ _ fail_stop_append]
lemmas tr_each_stop = tr_each [where R = fail_stop, OF _ fail_stop_Nil fail_stop_append]

lemma stop_command:
  "tr hs_log fail_stop (do { e \<leftarrow> ExecutePodCommand env item ns name hn (Some x);
     State_Monad.return (if e \<noteq> None \<and> eh_onError x = HookErrorModeFail then of_err e else Ok) })"
  by (rule tr_bind [OF tr_ExecutePodCommand], rule tr_return)
     (auto simp: fail_stop_def tolerated_def request_of_def)

lemma stop_spec_hook: "tr hs_log fail_stop (run_spec_hook env h item ns name hook)"
  unfolding run_spec_hook_def by (intro tr_option tr_if tr_return stop_command) simp_all

lemma stop_CommonExecuteHook: "tr hs_log fail_stop (CommonExecuteHook env h ns name ph)"
  unfolding CommonExecuteHook_def
  by (intro tr_skip [OF tr_hreads] tr_sum tr_outcome tr_option tr_return stop_command tr_each_stop stop_spec_hook)
     simp_all

lemma stop_hook_namespace: "tr hs_log fail_stop (hook_namespace env h ph ns)"
  unfolding hook_namespace_def
  by (intro tr_skip [OF tr_hreads] tr_outcome tr_each_stop tr_return stop_CommonExecuteHook) simp_all

lemma stop_hook_specs: "tr hs_log fail_stop (hook_specs env ph allNs hs)"
proof (induction hs arbitrary: allNs)
  case (Cons h hs)
  show ?case unfolding hook_specs.simps
    by (intro tr_if tr_prod tr_seq_stop tr_each_stop stop_hook_namespace Cons.IH)
qed (simp add: tr_return)

text \<open>C37: hooks stop at the first failure that counts: in a run of \<^verbatim>\<open>ExecuteHook\<close> a command that
  fails although its hook declares the mode \<^verbatim>\<open>Fail\<close> is the last command run, and the result is
  then not success.\<close>

theorem ExecuteHook_fail_stop:
  assumes "run_state (ExecuteHook env spec ph) s = (r, s')"
  shows "\<exists>l. hs_log s' = hs_log s @ l \<and> fail_stop r l"
proof -
  have "tr hs_log fail_stop (ExecuteHook env spec ph)"
    unfolding ExecuteHook_def
    by (intro tr_skip [OF tr_hreads] tr_sum tr_return stop_hook_specs) simp
  then show ?thesis by (rule trD [OF _ assms])
qed

section \<open>Where it is executed\<close>

definition hook_target ::
  "'w hook_env \<Rightarrow> HookPhase \<Rightarrow> string set \<Rightarrow> ResourceHookSpec \<Rightarrow> exec_request \<Rightarrow> bool" where
  "hook_target env ph allNs h rq \<longleftrightarrow> (\<exists>w pods.
     phase_hooks ph h \<noteq> [] \<and> rq_namespace rq \<in> allNs \<and>
     checkInclude (hk_includeNamespaces h) (hk_excludeNamespaces h) (rq_namespace rq) \<and>
     GetAllPodsForNamespace env (rq_namespace rq) (hk_labelSelector h) (hk_includeResources h)
       (hk_excludeResources h) w = Ret pods \<and> rq_pod rq \<in> pods \<and>
     (rq_hook rq = ''annotationHook'' \<or>
      rq_hook rq = hk_name h \<and> (\<exists>x. Some x \<in> set (phase_hooks ph h) \<and> rq_command rq = eh_command x)))"

definition on_target ::
  "'w hook_env \<Rightarrow> HookPhase \<Rightarrow> string set \<Rightarrow> ResourceHookSpec list \<Rightarrow> exec_request \<Rightarrow> bool" where
  "on_target env ph allNs hs rq \<longleftrightarrow> (\<exists>h \<in> set hs. hook_target env ph allNs h rq)"

lemma on_target_mono:
  assumes "on_target env ph A hs rq" "A \<subseteq> B" "set hs \<subseteq> set gs"
  shows "on_target env ph B gs rq"
  using assms unfolding on_target_def hook_target_def by blast

definition at :: "string \<Rightarrow> string \<Rightarrow> CommonHookSpec \<Rightarrow> exec_request \<times> bool \<Rightarrow> bool" where
  "at ns name h e \<longleftrightarrow> rq_namespace (fst e) = ns \<and> rq_pod (fst e) = name \<and>
     (rq_hook (fst e) = ''annotationHook'' \<or>
      rq_hook (fst e) = ch_name h \<and> (\<exists>x. Some x \<in> set (ch_hooks h) \<and> rq_command (fst e) = eh_command x))"

lemma every_command:
  assumes "\<And>rq ok. request_of ns name hn x rq \<Longrightarrow> Q (rq, ok)"
  shows "every hs_log Q (do { e \<leftarrow> ExecutePodCommand env item ns name hn (Some x); State_Monad.return (g e) })"
  by (rule tr_bind [OF tr_ExecutePodCommand], rule tr_return) (use assms in auto)

lemma every_CommonExecuteHook: "every hs_log (at ns name h) (CommonExecuteHook env h ns name ph)"
proof -
  have sp: "every hs_log (at ns name h) (run_spec_hook env h item ns name hook)" if "hook \<in> set (ch_hooks h)" for item hook
    unfolding run_spec_hook_def using that
    by (intro tr_option tr_if tr_return every_command) (auto simp: at_def request_of_def)
  show ?thesis
    unfolding CommonExecuteHook_def
    by (intro tr_skip [OF tr_hreads] tr_sum tr_outcome tr_option tr_return every_command every_each sp)
       (auto simp: at_def request_of_def)
qed

lemma every_hook_namespace:
  assumes "\<And>S. set (he_order env S) \<subseteq> S"
  shows "every hs_log (\<lambda>e. \<exists>w pods. GetAllPodsForNamespace env ns (ch_labelSelector h) (ch_includeResources h)
     (ch_excludeResources h) w = Ret pods \<and> rq_pod (fst e) \<in> pods \<and> at ns (rq_pod (fst e)) h e)
     (hook_namespace env h ph ns)"
  unfolding hook_namespace_def
proof (intro tr_skip [OF tr_hreads] tr_outcome tr_return every_each, goal_cases)
  case (1 a pods p)
  then obtain w where w: "GetAllPodsForNamespace env ns (ch_labelSelector h) (ch_includeResources h)
     (ch_excludeResources h) w = Ret pods" by auto
  have "p \<in> pods" using 1 assms by blast
  then show ?case using w by (intro every_weaken [OF every_CommonExecuteHook]) (auto simp: at_def)
qed simp_all

lemma every_hook_specs:
  assumes "\<And>S. set (he_order env S) \<subseteq> S"
  shows "every hs_log (\<lambda>e. on_target env ph allNs hs (fst e)) (hook_specs env ph allNs hs)"
proof (induction hs arbitrary: allNs)
  case (Cons h hs)
  have rec: "every hs_log (\<lambda>e. on_target env ph allNs (h # hs) (fst e)) (hook_specs env ph allNs' hs)"
    if "allNs' \<subseteq> allNs" for allNs'
    by (rule every_weaken [OF Cons.IH], erule on_target_mono [OF _ that]) auto
  have one: "every hs_log (\<lambda>e. on_target env ph allNs (h # hs) (fst e)) (hook_namespace env (common_spec ph h) ph ns)"
    if "phase_hooks ph h \<noteq> []" "ns \<in> allNs" "checkInclude (hk_includeNamespaces h) (hk_excludeNamespaces h) ns" for ns
  proof (rule every_weaken [OF every_hook_namespace [OF assms]], elim exE conjE)
    fix e w pods
    assume "GetAllPodsForNamespace env ns (ch_labelSelector (common_spec ph h))
        (ch_includeResources (common_spec ph h)) (ch_excludeResources (common_spec ph h)) w = Ret pods"
      and "rq_pod (fst e) \<in> pods" "at ns (rq_pod (fst e)) (common_spec ph h) e"
    then have "hook_target env ph allNs h (fst e)"
      using that unfolding hook_target_def at_def common_spec_def by (intro exI [of _ w] exI [of _ pods]) auto
    then show "on_target env ph allNs (h # hs) (fst e)" by (simp add: on_target_def)
  qed
  show ?case unfolding hook_specs.simps
  proof (intro tr_if tr_prod every_seq every_each, goal_cases)
    case 1
    then show ?case by (intro rec) simp
  next
    case (2 nss allNs' ns)
    then have "ns \<in> nss" "nss = {ns \<in> allNs. checkInclude (hk_includeNamespaces h) (hk_excludeNamespaces h) ns}"
      using assms FilterHookNamespaces_checkInclude [of allNs "hk_includeNamespaces h" "hk_excludeNamespaces h"] by auto
    then show ?case using 2 by (intro one) auto
  next
    case (3 nss allNs')
    then show ?case using snd_Filter [of allNs "hk_includeNamespaces h" "hk_excludeNamespaces h"] by (intro rec) simp
  qed
qed (simp add: tr_return)

text \<open>Hooks run only where the specification says: every command a run of \<^verbatim>\<open>ExecuteHook\<close> sends
  goes to a namespace of the cluster that the hook includes and does not exclude, to a pod selected
  there, and is the command of a hook of that specification and phase or of the pod's own
  annotations.\<close>

theorem ExecuteHook_on_target:
  assumes "run_state (ExecuteHook env spec ph) s = (r, s')" "he_namespaces env (hs_world s) = Inr nss"
    and "\<And>S. set (he_order env S) \<subseteq> S"
  shows "\<exists>l. hs_log s' = hs_log s @ l \<and> (\<forall>(rq, ok) \<in> set l. on_target env ph (set nss) (sp_hook spec) rq)"
proof -
  have "run_state (hook_specs env ph (set nss) (sp_hook spec)) s = (r, s')"
    using assms(1,2) by (simp add: ExecuteHook_def)
  from trD [OF every_hook_specs [OF assms(3)] this] show ?thesis by fastforce
qed

section \<open>Witnesses and divergences\<close>

definition hook_pod :: pod where
  "hook_pod = \<lparr>pod_meta = zero_meta\<lparr>meta_name := ''p'', meta_namespace := ''a''\<rparr>,
     pod_podspec = \<lparr>ps_volumes = [], ps_serviceAccountName = [], ps_containers =
       [\<lparr>ct_name = ''main'', ct_env = [], ct_envFrom = []\<rparr>], ps_initContainers = [], ps_ephemeralContainers = []\<rparr>,
     pod_labels = []\<rparr>"

text \<open>One namespace with one pod, in which every command fails.\<close>

definition failing_hooks :: "'w hook_env" where
  "failing_hooks = \<lparr>he_namespaces = (\<lambda>_. Inr [''a'']), he_pods = (\<lambda>_ _ _. Inr [''p'']),
     he_workloads = (\<lambda>_ _ _. Inr []), he_getPod = (\<lambda>_ _ _. Inr hook_pod), he_matchLabels = (\<lambda>_. []),
     he_selector = (\<lambda>_. Inr (\<lambda>_. True)), he_toUnstructured = (\<lambda>_. Inr ''pod''),
     he_fromUnstructured = (\<lambda>_. Inr hook_pod), he_compile = (\<lambda>_. None), he_order = sets_List,
     he_parseDuration = (\<lambda>_. None), he_unmarshal = (\<lambda>_. None), he_newExecutor = (\<lambda>_ w. (None, w)),
     he_stream = (\<lambda>_ w. (Streamed (Some (errorf ''exit 1'')), w)), he_uuid = (\<lambda>_. Inr ''u-1''),
     he_toIpod = (\<lambda>_. Inr \<lparr>ip_pod = hook_pod, ip_initContainers = []\<rparr>),
     he_fromIpod = (\<lambda>_. Inl (errorf ''none''))\<rparr>"

definition hook_spec :: "HookErrorMode \<Rightarrow> BackupSpec" where
  "hook_spec mode = zero_BackupSpec\<lparr>sp_hook := [\<lparr>hk_name = ''h'', hk_includeNamespaces = [], hk_excludeNamespaces = [],
     hk_includeResources = [], hk_excludeResources = [], hk_labelSelector = None, hk_continueIfNotFound = False,
     hk_preHooks = replicate 2 (Some \<lparr>eh_container = [], eh_command = [''sync''], eh_onError = mode, eh_timeout = 0\<rparr>),
     hk_postHooks = []\<rparr>]\<rparr>"

definition hook_start :: "unit hstate" where "hook_start = \<lparr>hs_world = (), hs_log = []\<rparr>"

theorem ExecuteHook_fail_stop_witness:
  "\<exists>r s'. run_state (ExecuteHook failing_hooks (hook_spec HookErrorModeFail) PreHookPhase) hook_start = (r, s') \<and>
     fail_stop r (hs_log s')"
proof -
  obtain r s' where run: "run_state (ExecuteHook failing_hooks (hook_spec HookErrorModeFail) PreHookPhase) hook_start
      = (r, s')" by fastforce
  show ?thesis using ExecuteHook_fail_stop [OF run] run by (auto simp: hook_start_def)
qed

lemma sets_List_subset: "set (sets_List S) \<subseteq> S"
  by (cases "finite S") (simp_all add: sets_List_def)

theorem ExecuteHook_on_target_witness:
  "\<exists>r s'. run_state (ExecuteHook failing_hooks (hook_spec HookErrorModeFail) PreHookPhase) hook_start = (r, s') \<and>
     filter (\<lambda>(rq, _). rq_namespace rq \<noteq> ''a'') (hs_log s') = []"
proof -
  obtain r s' where run: "run_state (ExecuteHook failing_hooks (hook_spec HookErrorModeFail) PreHookPhase) hook_start
      = (r, s')" by fastforce
  have "he_namespaces failing_hooks (hs_world hook_start) = Inr [''a'']" by (simp add: failing_hooks_def)
  moreover have "set (he_order failing_hooks S) \<subseteq> S" for S by (simp add: failing_hooks_def sets_List_subset)
  ultimately show ?thesis using ExecuteHook_on_target [OF run] run
    by (auto simp: hook_start_def filter_empty_conv on_target_def hook_target_def)
qed

text \<open>A hook without an error mode: the executor records the default \<^verbatim>\<open>Fail\<close> that its comment promises, and
  the failure is ignored all the same.\<close>

lemma unset_mode_failure_ignored:
  "\<exists>s'. run_state (CommonExecuteHook failing_hooks (common_spec PreHookPhase (hd (sp_hook (hook_spec HookErrorModeNone))))
       ''a'' ''p'' PreHookPhase) hook_start = (Ok, s') \<and>
     map (\<lambda>(rq, ok). (rq_onError rq, ok)) (hs_log s') = [(HookErrorModeFail, False), (HookErrorModeFail, False)]"
  by (simp add: CommonExecuteHook_def failing_hooks_def common_spec_def hook_spec_def zero_BackupSpec_def
      getHooksSpecFromAnnotations_def ann_value_def hook_pod_def zero_meta_def phase_hooks_def numeral_2_eq_2
      run_spec_hook_def ExecutePodCommand_def local_hook_def setDefaultHookContainer_def Let_def seq_def
      hcall_def run_stream_def hook_start_def)

text \<open>An init hook annotation without a command: the code logs that the image's entry point will be used,
  and then indexes the empty command.\<close>

lemma init_hook_without_command_panics:
  "HandleInitHook failing_hooks True (u\<lparr>un_meta := zero_meta\<lparr>meta_annotations :=
     [''init.hook.restore.kahu.io/container-image'' \<mapsto> ''busybox'']\<rparr>\<rparr>) [] () = Panic"
  by (simp add: HandleInitHook_def failing_hooks_def getInitRestoreHookFromAnnotation_def ann_value_def
      parseStringToCommand_def obind_def Let_def zero_meta_def)

end
