(* ===== verification/Restore_Hooks.thy ===== *)
theory Restore_Hooks
  imports Hooks
begin

text \<open>
  Post-restore exec hooks, \<^verbatim>\<open>hooks/restore_hooks.go\<close>: grouping the hooks of a restored pod by
  container, and the handler that waits for the containers and runs the hooks.

  The informer is library code; \<^verbatim>\<open>HandleHooks\<close> takes the list of the events it delivers until
  it returns. Nothing is assumed about that list: an informer may deliver events after the context
  was cancelled. \<open>now\<close> reads the clock from the world.
\<close>

section \<open>Grouping\<close>

record PodExecRestoreHook =
  px_name :: string
  px_source :: string
  px_hook :: RestoreExecHook
  px_executed :: bool

type_synonym by_container = "string \<rightharpoonup> PodExecRestoreHook list"

definition getPodExecRestoreHookFromAnnotations ::
  "'w hook_env \<Rightarrow> object_meta \<Rightarrow> RestoreExecHook option outcome" where
  "getPodExecRestoreHookFromAnnotations env m =
     (let key = (\<lambda>k. ''post.hook.restore.kahu.io/'' @ k); commandValue = ann_value m (key ''command'')
      in if commandValue = [] then Ret None
         else obind (parseStringToCommand env commandValue) (\<lambda>cmd.
           Ret (Some \<lparr>rh_container = ann_value m (key ''container''), rh_command = cmd,
             rh_onError = on_error_of (ann_value m (key ''on-error'')),
             rh_timeout = duration_of env (ann_value m (key ''exec-timeout'')),
             rh_waitTimeout = duration_of env (ann_value m (key ''wait-timeout''))\<rparr>)))"

definition default_container :: "string \<Rightarrow> RestoreExecHook \<Rightarrow> RestoreExecHook" where
  "default_container first h = (if rh_container h = [] then h\<lparr>rh_container := first\<rparr> else h)"

definition add_hook :: "string \<Rightarrow> string \<Rightarrow> RestoreResourceHook \<Rightarrow> by_container \<Rightarrow> by_container" where
  "add_hook first name r m = (case rr_exec r of None \<Rightarrow> m
     | Some h \<Rightarrow>
        let x = \<lparr>px_name = name, px_source = ''RestoreSpec'', px_hook = default_container first h, px_executed = False\<rparr>;
            cn = rh_container (px_hook x)
        in m(cn \<mapsto> (case m cn of None \<Rightarrow> [] | Some hs \<Rightarrow> hs) @ [x]))"

fun group_specs ::
  "'w hook_env \<Rightarrow> string \<Rightarrow> pod \<Rightarrow> 'w \<Rightarrow> RestoreResourceHookSpec list \<Rightarrow> by_container \<Rightarrow> by_container outcome" where
  "group_specs env first p w [] m = Ret m"
| "group_specs env first p w (h # hs) m =
     obind (validateHook env (restore_common h) (meta_name (pod_meta p)) (meta_namespace (pod_meta p)) (pod_labels p) w)
       (\<lambda>ok. group_specs env first p w hs (if ok then fold (add_hook first (rk_name h)) (rk_postHooks h) m else m))"

definition GroupRestoreExecHooks ::
  "'w hook_env \<Rightarrow> RestoreResourceHookSpec list \<Rightarrow> pod option \<Rightarrow> 'w \<Rightarrow> by_container outcome" where
  "GroupRestoreExecHooks env specs pod w = (case pod of None \<Rightarrow> Ret Map.empty
     | Some p \<Rightarrow> (case ps_containers (pod_podspec p) of [] \<Rightarrow> Ret Map.empty
     | c # _ \<Rightarrow> obind (getPodExecRestoreHookFromAnnotations env (pod_meta p)) (\<lambda>ann.
         (case ann of
            Some h \<Rightarrow> let h' = default_container (ct_name c) h in
              Ret [rh_container h' \<mapsto> [\<lparr>px_name = ''<from-annotation>'', px_source = ''annotation'',
                 px_hook = h', px_executed = False\<rparr>]]
          | None \<Rightarrow> group_specs env (ct_name c) p w specs Map.empty))))"

section \<open>Waiting and running\<close>

definition podHasContainer :: "pod option \<Rightarrow> string \<Rightarrow> bool" where
  "podHasContainer pod cn = (case pod of None \<Rightarrow> False
     | Some p \<Rightarrow> list_ex (\<lambda>c. ct_name c = cn) (ps_containers (pod_podspec p)))"

record pod_obs =
  po_pod :: pod
  po_phase :: string
  po_statuses :: "(string \<times> bool) list"

datatype pod_event = PodUpdate pod_obs | PodDeleted

fun running_status :: "string \<Rightarrow> (string \<times> bool) list \<Rightarrow> bool" where
  "running_status cn [] = False"
| "running_status cn ((n, running) # rest) = (if n \<noteq> cn then running_status cn rest else running)"

definition isContainerRunning :: "pod_obs option \<Rightarrow> string \<Rightarrow> bool" where
  "isContainerRunning obs cn = (case obs of None \<Rightarrow> False | Some x \<Rightarrow> running_status cn (po_statuses x))"

text \<open>The order of the map does not matter for the maximum: the hooks are given as the list in which a
  range loop visits them.\<close>

fun max_wait :: "int \<Rightarrow> PodExecRestoreHook list \<Rightarrow> int" where
  "max_wait m [] = m"
| "max_wait m (h # hs) = (if rh_waitTimeout (px_hook h) \<le> 0 then 0
     else max_wait (if rh_waitTimeout (px_hook h) > m then rh_waitTimeout (px_hook h) else m) hs)"

definition maxHookWait :: "(string set \<Rightarrow> string list) \<Rightarrow> by_container \<Rightarrow> int" where
  "maxHookWait order m = max_wait 0 (concat (map (\<lambda>cn. the (m cn)) (order (dom m))))"

record 'w rh_state =
  rh_h :: "'w hstate"
  rh_by :: by_container
  rh_errors :: "goerr list"
  rh_cancelled :: bool

definition zoom :: "('w hstate, 'a) state \<Rightarrow> ('w rh_state, 'a) state" where
  "zoom m = liftst (\<lambda>s. case run_state m (rh_h s) of (r, h) \<Rightarrow> (r, s\<lparr>rh_h := h\<rparr>))"

definition mark_executed :: "string \<Rightarrow> nat \<Rightarrow> by_container \<Rightarrow> by_container" where
  "mark_executed cn i m = (case m cn of None \<Rightarrow> m
     | Some hs \<Rightarrow> m(cn \<mapsto> hs[i := (hs ! i)\<lparr>px_executed := True\<rparr>]))"

definition fail_with :: "goerr \<Rightarrow> ('w rh_state, unit) state" where
  "fail_with e = upd (\<lambda>s. s\<lparr>rh_errors := rh_errors s @ [e], rh_cancelled := True\<rparr>)"

definition cancel :: "('w rh_state, unit) state" where
  "cancel = upd (\<lambda>s. s\<lparr>rh_cancelled := True\<rparr>)"

definition exec_of :: "RestoreExecHook \<Rightarrow> ExecHook" where
  "exec_of h = \<lparr>eh_container = rh_container h, eh_command = rh_command h, eh_onError = rh_onError h,
     eh_timeout = rh_timeout h\<rparr>"

text \<open>The hooks of one ready container; the result tells whether the loop ran to its end.\<close>

fun run_hooks ::
  "'w hook_env \<Rightarrow> ('w \<Rightarrow> int) \<Rightarrow> int \<Rightarrow> pod \<Rightarrow> string \<Rightarrow> string \<Rightarrow> nat \<Rightarrow> PodExecRestoreHook list \<Rightarrow>
   ('w rh_state, bool) state" where
  "run_hooks env now start p item cn i [] = State_Monad.return True"
| "run_hooks env now start p item cn i (x # xs) = do {
     upd (\<lambda>s. s\<lparr>rh_by := mark_executed cn i (rh_by s)\<rparr>);
     t \<leftarrow> look (\<lambda>s. now (hs_world (rh_h s)));
     if rh_waitTimeout (px_hook x) \<noteq> 0 \<and> rh_waitTimeout (px_hook x) < t - start \<and>
        rh_onError (px_hook x) = HookErrorModeFail
     then do { fail_with (errorf (''hook '' @ px_name x @ '' expired before executing'')); State_Monad.return False }
     else do {
       e \<leftarrow> zoom (ExecutePodCommand env (Some item) (meta_namespace (pod_meta p)) (meta_name (pod_meta p))
              (px_name x) (Some (exec_of (px_hook x))));
       (case e of
          Some err \<Rightarrow> if rh_onError (px_hook x) = HookErrorModeFail
            then do { fail_with err; State_Monad.return False }
            else run_hooks env now start p item cn (Suc i) xs
        | None \<Rightarrow> run_hooks env now start p item cn (Suc i) xs) } }"

fun on_containers ::
  "'w hook_env \<Rightarrow> ('w \<Rightarrow> int) \<Rightarrow> int \<Rightarrow> pod_obs \<Rightarrow> string list \<Rightarrow> ('w rh_state, bool) state" where
  "on_containers env now start obs [] = State_Monad.return True"
| "on_containers env now start obs (cn # cns) = do {
     by \<leftarrow> look rh_by;
     (case by cn of
        None \<Rightarrow> on_containers env now start obs cns
      | Some hooks \<Rightarrow>
         if \<not> isContainerRunning (Some obs) cn then on_containers env now start obs cns
         else (case he_toUnstructured env (po_pod obs) of
            Inl err \<Rightarrow> do { cancel; State_Monad.return False }
          | Inr item \<Rightarrow> do {
              ok \<leftarrow> run_hooks env now start (po_pod obs) item cn 0 hooks;
              if ok then do {
                upd (\<lambda>s. s\<lparr>rh_by := (rh_by s)(cn := None)\<rparr>);
                on_containers env now start obs cns }
              else State_Monad.return False })) }"

definition handle_event ::
  "'w hook_env \<Rightarrow> ('w \<Rightarrow> int) \<Rightarrow> int \<Rightarrow> pod_event \<Rightarrow> ('w rh_state, unit) state" where
  "handle_event env now start ev = (case ev of
     PodDeleted \<Rightarrow> cancel
   | PodUpdate obs \<Rightarrow>
      if po_phase obs = ''Succeeded'' \<or> po_phase obs = ''Failed'' then cancel
      else do {
        by \<leftarrow> look rh_by;
        ok \<leftarrow> on_containers env now start obs (he_order env (dom by));
        by' \<leftarrow> look rh_by;
        if ok \<and> dom by' = {} then cancel else State_Monad.return () })"

fun handle_events ::
  "'w hook_env \<Rightarrow> ('w \<Rightarrow> int) \<Rightarrow> int \<Rightarrow> pod_event list \<Rightarrow> ('w rh_state, unit) state" where
  "handle_events env now start [] = State_Monad.return ()"
| "handle_events env now start (ev # evs) = do { handle_event env now start ev; handle_events env now start evs }"

definition unexecuted :: "(string set \<Rightarrow> string list) \<Rightarrow> by_container \<Rightarrow> PodExecRestoreHook list" where
  "unexecuted order m = filter (\<lambda>x. \<not> px_executed x) (concat (map (\<lambda>cn. the (m cn)) (order (dom m))))"

definition HandleHooks ::
  "'w hook_env \<Rightarrow> ('w \<Rightarrow> int) \<Rightarrow> pod option \<Rightarrow> by_container \<Rightarrow> pod_event list \<Rightarrow> 'w hstate \<Rightarrow>
   goerr list \<times> 'w hstate" where
  "HandleHooks env now pod by evs h = (if pod = None then ([], h)
     else let by0 = by |` {cn. podHasContainer pod cn} in
       if dom by0 = {} then ([], h)
       else let s = snd (run_state (handle_events env now (now (hs_world h)) evs)
                     \<lparr>rh_h = h, rh_by = by0, rh_errors = [], rh_cancelled = False\<rparr>)
            in (rh_errors s @ map (\<lambda>x. errorf (''Hook '' @ px_name x @ '' not executed''))
                  (filter (\<lambda>x. rh_onError (px_hook x) = HookErrorModeFail) (unexecuted (he_order env) (rh_by s))),
                rh_h s))"

section \<open>No error, no missed hook\<close>

text \<open>\<open>served x l\<close>: if the hook \<open>x\<close> declares \<^verbatim>\<open>Fail\<close>, the log \<open>l\<close> has a successful run of its command.\<close>

definition served :: "PodExecRestoreHook \<Rightarrow> (exec_request \<times> bool) list \<Rightarrow> bool" where
  "served x l \<longleftrightarrow> (rh_onError (px_hook x) = HookErrorModeFail \<longrightarrow>
     (\<exists>ns name rq. (rq, True) \<in> set l \<and> request_of ns name (px_name x) (exec_of (px_hook x)) rq))"

definition like :: "PodExecRestoreHook \<Rightarrow> PodExecRestoreHook \<Rightarrow> bool" where
  "like x y \<longleftrightarrow> px_name x = px_name y \<and> px_hook x = px_hook y"

lemma served_like: "like x y \<Longrightarrow> served x l \<longleftrightarrow> served y l"
  by (simp add: served_def like_def)

lemma served_append: "served x l \<Longrightarrow> served x (l @ l')"
  unfolding served_def by fastforce

abbreviation rlog :: "'w rh_state \<Rightarrow> (exec_request \<times> bool) list" where "rlog s \<equiv> hs_log (rh_h s)"

text \<open>The invariant, with the hooks \<open>hole\<close> that are marked and not yet run.\<close>

definition entry_ok ::
  "PodExecRestoreHook set \<Rightarrow> (exec_request \<times> bool) list \<Rightarrow> PodExecRestoreHook list \<Rightarrow>
   PodExecRestoreHook list option \<Rightarrow> bool" where
  "entry_ok hole l hs entry \<longleftrightarrow> (case entry of None \<Rightarrow> (\<forall>x \<in> set hs. served x l)
     | Some hs' \<Rightarrow> list_all2 like hs hs' \<and>
         (\<forall>x \<in> set hs'. px_executed x \<longrightarrow> served x l \<or> (\<exists>y \<in> hole. like y x)))"

definition kept :: "by_container \<Rightarrow> PodExecRestoreHook set \<Rightarrow> 'w rh_state \<Rightarrow> bool" where
  "kept by0 hole s \<longleftrightarrow> dom (rh_by s) \<subseteq> dom by0 \<and> (\<forall>cn hs. by0 cn = Some hs \<longrightarrow> entry_ok hole (rlog s) hs (rh_by s cn))"

definition hinv :: "by_container \<Rightarrow> PodExecRestoreHook set \<Rightarrow> 'w rh_state \<Rightarrow> bool" where
  "hinv by0 hole s \<longleftrightarrow> rh_errors s = [] \<longrightarrow> kept by0 hole s"

definition queued :: "string \<Rightarrow> nat \<Rightarrow> PodExecRestoreHook list \<Rightarrow> 'w rh_state \<Rightarrow> bool" where
  "queued cn i xs s \<longleftrightarrow> (\<exists>hs. rh_by s cn = Some hs \<and> length hs = i + length xs \<and> list_all2 like xs (drop i hs))"

lemma like_refl [simp]: "like x x" by (simp add: like_def)

lemma like_trans: "like x y \<Longrightarrow> like y z \<Longrightarrow> like x z" by (simp add: like_def)

lemma like_sym: "like x y \<Longrightarrow> like y x" by (simp add: like_def)

lemma list_all2_like_update:
  assumes "list_all2 like hs hs'" "like (hs' ! i) y"
  shows "list_all2 like hs (hs'[i := y])"
proof -
  have "like (hs ! j) (hs'[i := y] ! j)" if "j < length hs'" for j
    using assms that by (cases "j = i") (auto simp: list_all2_conv_all_nth intro: like_trans)
  then show ?thesis using assms(1) by (auto simp: list_all2_conv_all_nth)
qed

lemma kept_mark:
  assumes k: "kept by0 {} s" and q: "queued cn i (x # xs) s"
  shows "kept by0 {x} (s\<lparr>rh_by := mark_executed cn i (rh_by s)\<rparr>)"
    and "queued cn (Suc i) xs (s\<lparr>rh_by := mark_executed cn i (rh_by s)\<rparr>)"
proof -
  obtain hs where hs: "rh_by s cn = Some hs" "length hs = i + length (x # xs)" "list_all2 like (x # xs) (drop i hs)"
    using q by (auto simp: queued_def)
  have d: "drop i hs = hs ! i # drop (Suc i) hs" using hs(2) by (simp add: Cons_nth_drop_Suc)
  have lx: "like x (hs ! i)" "list_all2 like xs (drop (Suc i) hs)" using hs(3) d by auto
  let ?y = "(hs ! i)\<lparr>px_executed := True\<rparr>"
  have ly: "like x ?y" "like (hs ! i) ?y" using lx by (auto simp: like_def)
  have m: "mark_executed cn i (rh_by s) = (rh_by s)(cn \<mapsto> hs[i := ?y])" by (simp add: mark_executed_def hs(1))
  show "kept by0 {x} (s\<lparr>rh_by := mark_executed cn i (rh_by s)\<rparr>)"
    unfolding kept_def
  proof (intro conjI allI impI)
    show "dom (rh_by (s\<lparr>rh_by := mark_executed cn i (rh_by s)\<rparr>)) \<subseteq> dom by0"
      using k hs(1) m by (auto simp: kept_def)
    fix cn' hs0 assume b: "by0 cn' = Some hs0"
    have old: "entry_ok {} (rlog s) hs0 (rh_by s cn')" using k b by (simp add: kept_def)
    have "entry_ok {x} (rlog s) hs0 (mark_executed cn i (rh_by s) cn')"
    proof (cases "cn' = cn")
      case True
      have o: "list_all2 like hs0 hs" "\<forall>x \<in> set hs. px_executed x \<longrightarrow> served x (rlog s)"
        using old hs(1) True by (auto simp: entry_ok_def)
      have "z = ?y \<or> z \<in> set hs" if "z \<in> set (hs[i := ?y])" for z
        using that set_update_subset_insert [of hs i ?y] by blast
      then show ?thesis using list_all2_like_update [OF o(1) ly(2)] o(2) ly(1) True m
        by (auto simp: entry_ok_def)
    next
      case False
      then show ?thesis using old m by (auto simp: entry_ok_def split: option.splits)
    qed
    then show "entry_ok {x} (rlog (s\<lparr>rh_by := mark_executed cn i (rh_by s)\<rparr>)) hs0
        (rh_by (s\<lparr>rh_by := mark_executed cn i (rh_by s)\<rparr>) cn')" by simp
  qed
  show "queued cn (Suc i) xs (s\<lparr>rh_by := mark_executed cn i (rh_by s)\<rparr>)"
    using hs(2) lx(2) m by (simp add: queued_def)
qed

lemma entry_ok_fill:
  assumes "entry_ok hole l hs e" "\<forall>y \<in> hole. served y (l @ l')"
  shows "entry_ok {} (l @ l') hs e"
proof (cases e)
  case (Some hs')
  have "served z (l @ l')" if "z \<in> set hs'" "px_executed z" for z
  proof -
    have "served z l \<or> (\<exists>y \<in> hole. like y z)" using assms(1) that Some by (simp add: entry_ok_def)
    then show ?thesis using assms(2) served_like served_append by blast
  qed
  then show ?thesis using assms(1) Some by (simp add: entry_ok_def)
qed (use assms in \<open>auto simp: entry_ok_def intro: served_append\<close>)

lemma kept_fill:
  assumes "kept by0 hole s" "\<forall>y \<in> hole. served y (rlog s @ l)" "rh_by s' = rh_by s" "rlog s' = rlog s @ l"
  shows "kept by0 {} s'"
  using assms entry_ok_fill unfolding kept_def by metis

lemma kept_delete:
  assumes "kept by0 {} s" "\<And>hs. by0 cn = Some hs \<Longrightarrow> \<forall>x \<in> set hs. served x (rlog s)"
  shows "kept by0 {} (s\<lparr>rh_by := (rh_by s)(cn := None)\<rparr>)"
  using assms by (auto simp: kept_def entry_ok_def)

lemma run_simps [simp]:
  "run_state (upd f) s = ((), f s)" "run_state (look g) s = (g s, s)"
  "run_state (fail_with e) t = ((), t\<lparr>rh_errors := rh_errors t @ [e], rh_cancelled := True\<rparr>)"
  "run_state cancel t = ((), t\<lparr>rh_cancelled := True\<rparr>)"
  by (simp_all add: upd_def look_def fail_with_def cancel_def)

lemma run_zoom_exec:
  assumes "run_state (zoom (ExecutePodCommand env item ns name hn (Some h))) s = (e, t)"
  shows "\<exists>l. rlog t = rlog s @ l \<and> rh_by t = rh_by s \<and> rh_errors t = rh_errors s \<and>
     (e = None \<longrightarrow> (\<exists>rq. (rq, True) \<in> set l \<and> request_of ns name hn h rq))"
proof -
  obtain h' where r: "run_state (ExecutePodCommand env item ns name hn (Some h)) (rh_h s) = (e, h')"
      "t = s\<lparr>rh_h := h'\<rparr>" using assms by (auto simp: zoom_def split: prod.splits)
  show ?thesis using trD [OF tr_ExecutePodCommand r(1)] r(2) by auto
qed

definition rdone :: "by_container \<Rightarrow> PodExecRestoreHook list \<Rightarrow> bool \<Rightarrow> 'w rh_state \<Rightarrow> 'w rh_state \<Rightarrow> bool" where
  "rdone by0 xs ok s s' \<longleftrightarrow> (rh_errors s' = [] \<longrightarrow> rh_errors s = [] \<and> kept by0 {} s' \<and>
     (\<exists>l. rlog s' = rlog s @ l) \<and> (ok \<longrightarrow> (\<forall>x \<in> set xs. served x (rlog s'))))"

lemma run_hooks_rdone:
  assumes "run_state (run_hooks env now st p item cn i xs) s = (ok, s')"
    and "rh_errors s = [] \<Longrightarrow> kept by0 {} s" "rh_errors s = [] \<Longrightarrow> queued cn i xs s"
  shows "rdone by0 xs ok s s'"
  using assms
proof (induction xs arbitrary: i s)
  case Nil
  then show ?case by (auto simp: rdone_def queued_def)
next
  case (Cons x xs)
  define s1 where "s1 = s\<lparr>rh_by := mark_executed cn i (rh_by s)\<rparr>"
  have s1: "rh_errors s1 = rh_errors s" "rlog s1 = rlog s" by (simp_all add: s1_def)
  have k1: "kept by0 {x} s1" "queued cn (Suc i) xs s1" if "rh_errors s = []"
    using kept_mark [OF Cons.prems(2,3)] that unfolding s1_def by blast+
  let ?exec = "zoom (ExecutePodCommand env (Some item) (meta_namespace (pod_meta p)) (meta_name (pod_meta p))
              (px_name x) (Some (exec_of (px_hook x))))"
  obtain e t where run: "run_state ?exec s1 = (e, t)" by fastforce
  obtain l where t: "rlog t = rlog s @ l" "rh_by t = rh_by s1" "rh_errors t = rh_errors s"
      "e = None \<Longrightarrow> \<exists>rq. (rq, True) \<in> set l \<and> request_of (meta_namespace (pod_meta p)) (meta_name (pod_meta p))
          (px_name x) (exec_of (px_hook x)) rq"
    using run_zoom_exec [OF run] s1 by metis
  have cont: "rdone by0 (x # xs) ok s s'"
    if r: "run_state (run_hooks env now st p item cn (Suc i) xs) t = (ok, s')"
      and sv: "served x (rlog s @ l)"
  proof -
    have kt: "rh_errors t = [] \<Longrightarrow> kept by0 {} t"
      using kept_fill [OF k1(1), of l t] sv s1 t by auto
    have qt: "rh_errors t = [] \<Longrightarrow> queued cn (Suc i) xs t" using k1(2) t by (simp add: queued_def)
    have R: "rdone by0 xs ok t s'" using Cons.IH [OF r kt qt] .
    have "served x (rlog s')" if "\<exists>l'. rlog s' = rlog t @ l'"
      using that sv t(1) served_append by metis
    then show ?thesis using R t unfolding rdone_def by auto
  qed
  have skip: "served x (rlog s @ l)" if "e = None \<or> rh_onError (px_hook x) \<noteq> HookErrorModeFail"
    using that t(4) unfolding served_def by fastforce
  have stop: "rdone by0 (x # xs) ok s s'" if "rh_errors s' \<noteq> []" using that by (simp add: rdone_def)
  let ?expired = "rh_waitTimeout (px_hook x) \<noteq> 0 \<and>
      rh_waitTimeout (px_hook x) < now (hs_world (rh_h s1)) - st \<and> rh_onError (px_hook x) = HookErrorModeFail"
  have step: "run_state (run_hooks env now st p item cn i (x # xs)) s =
     (if ?expired then (False, s1\<lparr>rh_errors := rh_errors s1 @ [errorf (''hook '' @ px_name x @ '' expired before executing'')],
          rh_cancelled := True\<rparr>)
      else (case e of
         Some err \<Rightarrow> if rh_onError (px_hook x) = HookErrorModeFail
           then (False, t\<lparr>rh_errors := rh_errors t @ [err], rh_cancelled := True\<rparr>)
           else run_state (run_hooks env now st p item cn (Suc i) xs) t
       | None \<Rightarrow> run_state (run_hooks env now st p item cn (Suc i) xs) t))"
    using run by (simp add: s1_def [symmetric] split: option.splits)
  show ?case
  proof (cases "?expired \<or> (\<exists>err. e = Some err) \<and> rh_onError (px_hook x) = HookErrorModeFail")
    case True
    then have "rh_errors s' \<noteq> []" using Cons.prems(1) unfolding step by (auto split: if_splits)
    then show ?thesis by (rule stop)
  next
    case False
    then have "run_state (run_hooks env now st p item cn (Suc i) xs) t = (ok, s')"
      using Cons.prems(1) unfolding step by (auto split: if_splits option.splits)
    then show ?thesis using False by (intro cont skip) auto
  qed
qed

lemma on_containers_hinv:
  assumes "run_state (on_containers env now st obs cns) s = (ok, s')" "hinv by0 {} s"
  shows "hinv by0 {} s' \<and> (rh_errors s' = [] \<longrightarrow> rh_errors s = [] \<and> (\<exists>l. rlog s' = rlog s @ l))"
  using assms
proof (induction cns arbitrary: s)
  case Nil
  then show ?case by auto
next
  case (Cons cn cns)
  show ?case
  proof (cases "rh_by s cn = None \<or> \<not> isContainerRunning (Some obs) cn")
    case True
    then have "run_state (on_containers env now st obs cns) s = (ok, s')"
      using Cons.prems(1) by (auto split: option.splits)
    then show ?thesis using Cons.IH Cons.prems(2) by blast
  next
    case False
    then obtain hooks where h: "rh_by s cn = Some hooks" by auto
    show ?thesis
    proof (cases "he_toUnstructured env (po_pod obs)")
      case (Inl err)
      then have "s' = s\<lparr>rh_cancelled := True\<rparr>" using Cons.prems(1) False h by auto
      then show ?thesis using Cons.prems(2) by (simp add: hinv_def kept_def)
    next
      case (Inr item)
      obtain ok1 t where r: "run_state (run_hooks env now st (po_pod obs) item cn 0 hooks) s = (ok1, t)" by fastforce
      have q: "queued cn 0 hooks s" using h by (simp add: queued_def list_all2_refl)
      have R: "rdone by0 hooks ok1 s t"
        using run_hooks_rdone [OF r, of by0] Cons.prems(2) q by (simp add: hinv_def)
      let ?d = "t\<lparr>rh_by := (rh_by t)(cn := None)\<rparr>"
      have step: "(ok, s') = (if ok1 then run_state (on_containers env now st obs cns) ?d else (False, t))"
        using Cons.prems(1) h False Inr r by auto
      show ?thesis
      proof (cases ok1)
        case True
        have "kept by0 {} ?d" if no: "rh_errors t = []"
        proof (rule kept_delete)
          show "kept by0 {} t" using R no by (simp add: rdone_def)
          fix hs0 assume b: "by0 cn = Some hs0"
          have "kept by0 {} s" using Cons.prems(2) R no by (simp add: hinv_def rdone_def)
          then have "list_all2 like hs0 hooks" using b h unfolding kept_def entry_ok_def by fastforce
          then show "\<forall>x \<in> set hs0. served x (rlog t)"
            using R no True served_like unfolding rdone_def by (metis in_set_conv_nth list_all2_conv_all_nth nth_mem)
        qed
        then have "hinv by0 {} ?d" by (simp add: hinv_def)
        then have "hinv by0 {} s' \<and> (rh_errors s' = [] \<longrightarrow> rh_errors ?d = [] \<and> (\<exists>l. rlog s' = rlog ?d @ l))"
          using Cons.IH [of ?d] step True by simp
        then show ?thesis using R by (auto simp: rdone_def)
      next
        case False
        then show ?thesis using step R by (auto simp: hinv_def rdone_def)
      qed
    qed
  qed
qed

lemma handle_event_hinv:
  assumes "run_state (handle_event env now st ev) s = (u, s')" "hinv by0 {} s"
  shows "hinv by0 {} s'"
proof -
  have c: "hinv by0 {} (s\<lparr>rh_cancelled := True\<rparr>)" if "hinv by0 {} s" for s :: "'a rh_state"
    using that by (simp add: hinv_def kept_def)
  show ?thesis
  proof (cases ev)
    case (PodUpdate obs)
    show ?thesis
    proof (cases "po_phase obs = ''Succeeded'' \<or> po_phase obs = ''Failed''")
      case False
      obtain ok t where r: "run_state (on_containers env now st obs (he_order env (dom (rh_by s)))) s = (ok, t)" by fastforce
      have "hinv by0 {} t" using on_containers_hinv [OF r assms(2)] by blast
      then show ?thesis using assms(1) PodUpdate False r c by (auto simp: handle_event_def split: if_splits)
    qed (use assms PodUpdate c in \<open>auto simp: handle_event_def\<close>)
  qed (use assms c in \<open>auto simp: handle_event_def\<close>)
qed

lemma handle_events_hinv:
  assumes "run_state (handle_events env now st evs) s = (u, s')" "hinv by0 {} s"
  shows "hinv by0 {} s'"
  using assms
proof (induction evs arbitrary: s)
  case (Cons ev evs)
  obtain u1 t where r: "run_state (handle_event env now st ev) s = (u1, t)" by (metis prod.collapse)
  then show ?case using Cons handle_event_hinv [OF r] by auto
qed auto

text \<open>C38: when the handler reports no error, every post-restore hook with error mode \<^verbatim>\<open>Fail\<close> in a
  container the pod has was run and succeeded, whatever events the informer delivered.\<close>

theorem HandleHooks_no_missed_hook:
  assumes "HandleHooks env now (Some p) by evs h = ([], h')"
    and "\<And>S. finite S \<Longrightarrow> set (he_order env S) = S" "finite (dom by)"
    and "\<forall>cn hs. by cn = Some hs \<longrightarrow> (\<forall>x \<in> set hs. \<not> px_executed x)"
    and "by cn = Some hs" "podHasContainer (Some p) cn" "x \<in> set hs" "rh_onError (px_hook x) = HookErrorModeFail"
  shows "\<exists>ns name rq. (rq, True) \<in> set (hs_log h') \<and> request_of ns name (px_name x) (exec_of (px_hook x)) rq"
proof -
  let ?by0 = "by |` {cn. podHasContainer (Some p) cn}"
  let ?s0 = "\<lparr>rh_h = h, rh_by = ?by0, rh_errors = [], rh_cancelled = False\<rparr>"
  obtain u s where run: "run_state (handle_events env now (now (hs_world h)) evs) ?s0 = (u, s)" by (metis prod.collapse)
  have b: "?by0 cn = Some hs" using assms(5,6) by simp
  then have ne: "dom ?by0 \<noteq> {}" by (metis domI empty_iff)
  have none: "rh_errors s = []" "filter (\<lambda>x. rh_onError (px_hook x) = HookErrorModeFail) (unexecuted (he_order env) (rh_by s)) = []"
    and h': "h' = rh_h s"
    using assms(1) unfolding HandleHooks_def Let_def if_not_P [OF ne] run by simp_all
  have "kept ?by0 {} ?s0"
    using assms(4) by (auto simp: kept_def entry_ok_def list_all2_refl restrict_map_def split: if_splits)
  then have "hinv ?by0 {} s" using handle_events_hinv [OF run] by (simp add: hinv_def)
  then have e: "entry_ok {} (rlog s) hs (rh_by s cn)" using none(1) b by (simp add: hinv_def kept_def)
  have "served x (rlog s)"
  proof (cases "rh_by s cn")
    case None
    then show ?thesis using e assms(7) by (simp add: entry_ok_def)
  next
    case (Some hs')
    then have l: "list_all2 like hs hs'" "\<forall>z \<in> set hs'. px_executed z \<longrightarrow> served z (rlog s)"
      using e by (auto simp: entry_ok_def)
    have "dom (rh_by s) \<subseteq> dom ?by0" using \<open>hinv ?by0 {} s\<close> none(1) by (simp add: hinv_def kept_def)
    then have "finite (dom (rh_by s))" using assms(3) by (auto intro: finite_subset)
    then have o: "cn \<in> set (he_order env (dom (rh_by s)))" using assms(2) Some by blast
    obtain x' where x': "x' \<in> set hs'" "like x x'"
      using l(1) assms(7) by (metis in_set_conv_nth list_all2_conv_all_nth nth_mem)
    have "px_executed x'"
    proof (rule ccontr)
      assume "\<not> px_executed x'"
      then have "x' \<in> set (unexecuted (he_order env) (rh_by s))" using o Some x'(1) by (force simp: unexecuted_def)
      then show False using none(2) x'(2) assms(8) by (auto simp: filter_empty_conv like_def)
    qed
    then show ?thesis using l(2) x' served_like by blast
  qed
  then show ?thesis using assms(8) h' by (simp add: served_def)
qed

theorem HandleHooks_no_missed_hook_witness:
  "\<exists>h'. HandleHooks (failing_hooks\<lparr>he_stream := (\<lambda>_ w. (Streamed None, w))\<rparr>) (\<lambda>_. 0) (Some hook_pod)
       [''main'' \<mapsto> [\<lparr>px_name = ''h'', px_source = ''RestoreSpec'', px_hook = \<lparr>rh_container = ''main'', rh_command = [''up''],
          rh_onError = HookErrorModeFail, rh_timeout = 0, rh_waitTimeout = 0\<rparr>, px_executed = False\<rparr>]]
       [PodUpdate \<lparr>po_pod = hook_pod, po_phase = ''Running'', po_statuses = [(''main'', True)]\<rparr>] hook_start = ([], h') \<and>
     filter snd (hs_log h') \<noteq> []"
proof -
  let ?env = "failing_hooks\<lparr>he_stream := (\<lambda>_ w. (Streamed None, w))\<rparr>"
  let ?x = "\<lparr>px_name = ''h'', px_source = ''RestoreSpec'', px_hook = \<lparr>rh_container = ''main'', rh_command = [''up''],
          rh_onError = HookErrorModeFail, rh_timeout = 0, rh_waitTimeout = 0\<rparr>, px_executed = False\<rparr>"
  let ?evs = "[PodUpdate \<lparr>po_pod = hook_pod, po_phase = ''Running'', po_statuses = [(''main'', True)]\<rparr>]"
  have ev: "fst (HandleHooks ?env (\<lambda>_. 0) (Some hook_pod) [''main'' \<mapsto> [?x]] ?evs hook_start) = []"
    by (simp add: HandleHooks_def Let_def podHasContainer_def hook_pod_def handle_event_def failing_hooks_def
        sets_List_def isContainerRunning_def ExecutePodCommand_def exec_of_def local_hook_def ensureContainerExists_def
        zoom_def mark_executed_def hcall_def run_stream_def zero_meta_def hook_start_def unexecuted_def)
  then obtain h' where run: "HandleHooks ?env (\<lambda>_. 0) (Some hook_pod) [''main'' \<mapsto> [?x]] ?evs hook_start = ([], h')"
    by (metis prod.collapse)
  have "\<exists>ns name rq. (rq, True) \<in> set (hs_log h') \<and> request_of ns name (px_name ?x) (exec_of (px_hook ?x)) rq"
    by (rule HandleHooks_no_missed_hook [OF run, of "''main''" "[?x]" ?x])
       (auto simp: failing_hooks_def podHasContainer_def hook_pod_def split: if_splits)
  then show ?thesis using run by (force simp: filter_empty_conv)
qed

end
