(* ===== verification/Restore_Filters.thy ===== *)
theory Restore_Filters
  imports Restore_Types
begin

text \<open>
  What a restore works on: the cache of restore candidates, \<^verbatim>\<open>controllers/restore/filters.go\<close>
  (namespace, resource and label filters) and \<^verbatim>\<open>resolver.go\<close> (volumes, claims and storage
  classes the candidates depend on).

  \<^verbatim>\<open>cache.Indexer\<close> is library code as in \<open>Dependency\<close>, here with deletion. Conversions to typed
  objects, regular expressions and label selectors are parameters. The type switches of the source
  on cached values have one case that occurs: every cached value is a pointer to an unstructured
  object.
\<close>

section \<open>The cache\<close>

record 'c rindexer = "'c indexer" +
  ix_Delete :: "(unstructured \<Rightarrow> goerr + string) \<Rightarrow> unstructured \<Rightarrow> 'c \<Rightarrow> goerr option \<times> 'c"

definition restoreNamespaceIndex :: "unstructured \<Rightarrow> string list" where
  "restoreNamespaceIndex u = (if 0 < length (meta_namespace (un_meta u)) then [meta_namespace (un_meta u)] else [])"

definition rindexer_laws :: "'c rindexer \<Rightarrow> ('c \<Rightarrow> string \<rightharpoonup> unstructured) \<Rightarrow> bool" where
  "rindexer_laws ix its \<longleftrightarrow>
     (\<forall>kf u k c. kf u = Inr k \<longrightarrow> fst (ix_Add ix kf u c) = None \<and>
        its (snd (ix_Add ix kf u c)) = (its c)(k \<mapsto> u)) \<and>
     (\<forall>kf u k c. kf u = Inr k \<longrightarrow> fst (ix_Delete ix kf u c) = None \<and>
        its (snd (ix_Delete ix kf u c)) = (its c)(k := None)) \<and>
     (\<forall>c. set (ix_List ix c) = ran (its c)) \<and>
     (\<forall>f v c. set (ix_ByIndex ix f v c) = {u \<in> ran (its c). v \<in> set (f u)}) \<and>
     (\<forall>f c. set (ix_IndexValues ix f c) = (\<Union>u \<in> ran (its c). set (f u)))"

abbreviation un_uid :: "unstructured \<Rightarrow> string" where "un_uid u \<equiv> meta_uid (un_meta u)"

definition keyed :: "('c \<Rightarrow> string \<rightharpoonup> unstructured) \<Rightarrow> 'c \<Rightarrow> bool" where
  "keyed its c \<longleftrightarrow> (\<forall>k u. its c k = Some u \<longrightarrow> un_uid u = k)"

fun delete_all :: "'c rindexer \<Rightarrow> unstructured list \<Rightarrow> 'c \<Rightarrow> goerr option \<times> 'c" where
  "delete_all ix [] c = (None, c)"
| "delete_all ix (u # us) c = (case ix_Delete ix uidKeyFunc u c of
     (Some err, c') \<Rightarrow> (Some err, c') | (None, c') \<Rightarrow> delete_all ix us c')"

section \<open>filters.go\<close>

text \<open>A namespace that is not included should be excluded; \<^verbatim>\<open>excludeNamespaces.Insert()\<close> inserts
  nothing.\<close>

definition excluded_namespaces :: "'c rindexer \<Rightarrow> Restore \<Rightarrow> 'c \<Rightarrow> string set" where
  "excluded_namespaces ix restore c =
     (let includeNamespaces = set (rp_includeNamespaces (rs_spec restore));
          fromIncludes = (if includeNamespaces \<noteq> {}
             then fold (\<lambda>ns acc. if ns \<notin> includeNamespaces then acc \<union> set [] else acc)
                    (ix_IndexValues ix restoreNamespaceIndex c) {} else {})
      in fromIncludes \<union> set (rp_excludeNamespaces (rs_spec restore)))"

definition namespaceFilter_handle ::
  "(Restore \<Rightarrow> 'c \<Rightarrow> goerr option \<times> 'c) \<Rightarrow> 'c rindexer \<Rightarrow> Restore \<Rightarrow> 'c \<Rightarrow> goerr option \<times> 'c" where
  "namespaceFilter_handle nxt ix restore c =
     (let excludeResourceList = concat (map (\<lambda>ns. ix_ByIndex ix restoreNamespaceIndex ns c)
            (sets_List (excluded_namespaces ix restore c)))
      in case delete_all ix excludeResourceList c of
           (Some err, c') \<Rightarrow> (Some (errorf (''failed to delete resources from cache for namespace resource exclusion. '' @ err_msg err)), c')
         | (None, c') \<Rightarrow> nxt restore c')"

definition isMatch :: "(string \<Rightarrow> (string \<Rightarrow> bool) option) \<Rightarrow> unstructured \<Rightarrow> resource_spec \<Rightarrow> bool" where
  "isMatch compile u spec =
     (if rs_kind spec \<noteq> un_kind u then False
      else if rs_isRegex spec then
        (case compile (rs_name spec) of None \<Rightarrow> False | Some re \<Rightarrow> re (meta_name (un_meta u)))
      else False)"

fun include_loop ::
  "(string \<Rightarrow> (string \<Rightarrow> bool) option) \<Rightarrow> unstructured \<Rightarrow> bool \<Rightarrow> resource_spec list \<Rightarrow> bool" where
  "include_loop compile u exclude [] = exclude"
| "include_loop compile u exclude (s # ss) =
     (if isMatch compile u s then False else include_loop compile u True ss)"

definition isResourceNeedExclude ::
  "(string \<Rightarrow> (string \<Rightarrow> bool) option) \<Rightarrow> unstructured \<Rightarrow> resource_spec list \<Rightarrow> resource_spec list \<Rightarrow> bool" where
  "isResourceNeedExclude compile u includes excludes =
     (if list_ex (isMatch compile u) excludes then True else include_loop compile u False includes)"

definition resourceFilter_handle ::
  "(Restore \<Rightarrow> 'c \<Rightarrow> goerr option \<times> 'c) \<Rightarrow> (string \<Rightarrow> (string \<Rightarrow> bool) option) \<Rightarrow> 'c rindexer \<Rightarrow>
   Restore \<Rightarrow> 'c \<Rightarrow> goerr option \<times> 'c" where
  "resourceFilter_handle nxt compile ix restore c =
     (case delete_all ix (filter (\<lambda>u. isResourceNeedExclude compile u
              (rp_includeResources (rs_spec restore)) (rp_excludeResources (rs_spec restore))) (ix_List ix c)) c of
        (Some err, c') \<Rightarrow> (Some (errorf (''failed to delete resources from cache for resource exclusion. '' @ err_msg err)), c')
      | (None, c') \<Rightarrow> nxt restore c')"

fun label_loop ::
  "(string \<Rightarrow> goerr + ((string \<rightharpoonup> string) \<Rightarrow> bool)) \<Rightarrow> string \<Rightarrow> 'c rindexer \<Rightarrow> unstructured list \<Rightarrow> 'c \<Rightarrow>
   goerr option \<times> 'c" where
  "label_loop asSelector l ix [] c = (None, c)"
| "label_loop asSelector l ix (u # us) c = (case asSelector l of
     Inl err \<Rightarrow> (Some err, c)
   | Inr sel \<Rightarrow> if \<not> sel (meta_labels (un_meta u)) then
        (case ix_Delete ix uidKeyFunc u c of
           (Some err, c') \<Rightarrow> (Some err, c') | (None, c') \<Rightarrow> label_loop asSelector l ix us c')
      else label_loop asSelector l ix us c)"

definition labelSelectorFilter_handle ::
  "(string \<Rightarrow> goerr + ((string \<rightharpoonup> string) \<Rightarrow> bool)) \<Rightarrow> 'c rindexer \<Rightarrow> Restore \<Rightarrow> 'c \<Rightarrow> goerr option \<times> 'c" where
  "labelSelectorFilter_handle asSelector ix restore c = (case rp_labelSelector (rs_spec restore) of
     None \<Rightarrow> (None, c) | Some l \<Rightarrow> label_loop asSelector l ix (ix_List ix c) c)"

definition constructFilterHandler ::
  "(string \<Rightarrow> (string \<Rightarrow> bool) option) \<Rightarrow> (string \<Rightarrow> goerr + ((string \<rightharpoonup> string) \<Rightarrow> bool)) \<Rightarrow> 'c rindexer \<Rightarrow>
   Restore \<Rightarrow> 'c \<Rightarrow> goerr option \<times> 'c" where
  "constructFilterHandler compile asSelector ix =
     namespaceFilter_handle (resourceFilter_handle (labelSelectorFilter_handle asSelector ix) compile ix) ix"

section \<open>resolver.go\<close>

record conv_env =
  cv_toPV :: "unstructured \<Rightarrow> goerr + pv"
  cv_toPVC :: "unstructured \<Rightarrow> goerr + pvc"

definition find_add ::
  "'c rindexer \<Rightarrow> (unstructured \<Rightarrow> bool) \<Rightarrow> unstructured list \<Rightarrow> 'c \<Rightarrow> (unstructured option \<times> goerr option) \<times> 'c" where
  "find_add ix P us c = (case find P us of None \<Rightarrow> ((None, None), c)
     | Some u \<Rightarrow> (case ix_Add ix uidKeyFunc u c of (e, c') \<Rightarrow> ((Some u, e), c')))"

definition restore_pvcResolver ::
  "conv_env \<Rightarrow> 'c rindexer \<Rightarrow> 'c \<Rightarrow> unstructured \<Rightarrow> 'c \<Rightarrow> goerr option \<times> 'c" where
  "restore_pvcResolver cv ix backupObjects u c = (case cv_toPVC cv u of
     Inl err \<Rightarrow> (Some (wrap err ''Failed to covert unstructured resource to PVC for resolution''), c)
   | Inr p \<Rightarrow> (case pvc_storageClassName p of None \<Rightarrow> (None, c)
     | Some sc \<Rightarrow> (case find_add ix (\<lambda>s. meta_name (un_meta s) = sc) (ix_ByIndex ix resourceIndex SC_kind backupObjects) c of
         ((None, _), c') \<Rightarrow> (Some (errorf (''SC does not exist in cache for PVC '' @ meta_name (pvc_meta p))), c')
       | ((Some _, e), c') \<Rightarrow> (e, c'))))"

text \<open>A claim reference may name any kind, so the two resolvers are mutually recursive; fuel bounds the
  recursion and \<open>None\<close> is running out of it.\<close>

fun restore_resolve ::
  "conv_env \<Rightarrow> 'c rindexer \<Rightarrow> 'c \<Rightarrow> nat \<Rightarrow> unstructured \<Rightarrow> 'c \<Rightarrow> (goerr option \<times> 'c) option" where
  "restore_resolve cv ix b 0 u c = None"
| "restore_resolve cv ix b (Suc n) u c =
     (if un_kind u = PVC_kind then Some (restore_pvcResolver cv ix b u c)
      else (case cv_toPV cv u of
         Inl err \<Rightarrow> Some (Some (wrap err ''Failed to covert unstructured resource to PV for resolution''), c)
       | Inr p \<Rightarrow> (case pv_claimRef p of None \<Rightarrow> Some (None, c)
         | Some ref \<Rightarrow>
            (case find_add ix (\<lambda>v. meta_namespace (un_meta v) = cr_namespace ref \<and> meta_name (un_meta v) = cr_name ref)
                    (ix_ByIndex ix resourceIndex (cr_kind ref) b) c of
               ((None, _), c') \<Rightarrow> Some (Some (errorf (''PVC does not exist in cache for PV '' @ meta_name (pv_meta p))), c')
             | ((Some _, Some err), c') \<Rightarrow> Some (Some err, c')
             | ((Some v, None), c') \<Rightarrow>
                 if un_kind v = PV_kind \<or> un_kind v = PVC_kind then restore_resolve cv ix b n v c'
                 else Some (Some (errorf ''PVC resolver not found''), c')))))"

fun restore_resolve_list ::
  "conv_env \<Rightarrow> 'c rindexer \<Rightarrow> 'c \<Rightarrow> nat \<Rightarrow> unstructured list \<Rightarrow> 'c \<Rightarrow> (goerr option \<times> 'c) option" where
  "restore_resolve_list cv ix b n [] c = Some (None, c)"
| "restore_resolve_list cv ix b n (u # us) c =
     (if un_kind u = PV_kind \<or> un_kind u = PVC_kind then
        (case restore_resolve cv ix b n u c of None \<Rightarrow> None
         | Some (Some err, c') \<Rightarrow> Some (Some (wrap err ''unable to resolve resource dependency''), c')
         | Some (None, c') \<Rightarrow> restore_resolve_list cv ix b n us c')
      else restore_resolve_list cv ix b n us c)"

definition restore_Resolve ::
  "conv_env \<Rightarrow> 'c rindexer \<Rightarrow> nat \<Rightarrow> 'c \<Rightarrow> 'c \<Rightarrow> (goerr option \<times> 'c) option" where
  "restore_Resolve cv ix n restoreObjects backupObjects =
     restore_resolve_list cv ix backupObjects n (ix_List ix restoreObjects) restoreObjects"

section \<open>What the filters keep\<close>

lemma rlaws:
  assumes "rindexer_laws ix its"
  shows "ix_Add ix uidKeyFunc u c = (None, snd (ix_Add ix uidKeyFunc u c))"
    and "its (snd (ix_Add ix uidKeyFunc u c)) = (its c)(un_uid u \<mapsto> u)"
    and "ix_Delete ix uidKeyFunc u c = (None, snd (ix_Delete ix uidKeyFunc u c))"
    and "its (snd (ix_Delete ix uidKeyFunc u c)) = (its c)(un_uid u := None)"
    and "set (ix_List ix c) = ran (its c)"
    and "set (ix_ByIndex ix f v c) = {u \<in> ran (its c). v \<in> set (f u)}"
  using assms unfolding rindexer_laws_def by (auto simp: uidKeyFunc_def prod_eq_iff)

lemma delete_all_eq:
  assumes "rindexer_laws ix its"
  shows "fst (delete_all ix us c) = None \<and> its (snd (delete_all ix us c)) = its c |` (- un_uid ` set us)"
proof (induction us arbitrary: c)
  case Nil
  have "its c |` UNIV = its c" by (rule ext) simp
  then show ?case by simp
next
  case (Cons u us)
  let ?c1 = "snd (ix_Delete ix uidKeyFunc u c)"
  have m: "(its c)(un_uid u := None) |` (- un_uid ` set us) = its c |` (- un_uid ` set (u # us))"
    unfolding restrict_map_def by (rule ext) simp
  have "delete_all ix (u # us) c = delete_all ix us ?c1"
    unfolding delete_all.simps by (subst rlaws(3) [OF assms]) simp
  then show ?case unfolding m [symmetric] using Cons.IH [of ?c1] by (simp only: rlaws(4) [OF assms])
qed

definition keeping :: "(unstructured \<Rightarrow> bool) \<Rightarrow> (string \<rightharpoonup> unstructured) \<Rightarrow> string \<rightharpoonup> unstructured" where
  "keeping P m = (\<lambda>k. case m k of None \<Rightarrow> None | Some u \<Rightarrow> if P u then Some u else None)"

lemma keeping_keeping: "keeping P (keeping Q m) = keeping (\<lambda>u. Q u \<and> P u) m"
  by (auto simp: keeping_def fun_eq_iff split: option.splits)

lemma delete_bad:
  assumes "rindexer_laws ix its" "keyed its c" "set us = {u \<in> ran (its c). \<not> P u}"
  shows "its (snd (delete_all ix us c)) = keeping P (its c)"
proof -
  have inj: "v = u" if "its c k = Some u" "v \<in> ran (its c)" "un_uid v = un_uid u" for k u v
    using assms(2) that unfolding keyed_def ran_def by fastforce
  have "(its c |` (- un_uid ` set us)) k = keeping P (its c) k" for k
  proof (cases "its c k")
    case (Some u)
    have "k \<in> un_uid ` set us \<longleftrightarrow> \<not> P u"
    proof
      assume "k \<in> un_uid ` set us"
      then obtain v where "v \<in> set us" "un_uid v = k" by blast
      then have "v = u" using inj [OF Some] assms(2,3) Some unfolding keyed_def by auto
      then show "\<not> P u" using \<open>v \<in> set us\<close> assms(3) by auto
    next
      assume "\<not> P u"
      then have "u \<in> set us" using Some assms(3) by (auto simp: ran_def)
      then show "k \<in> un_uid ` set us" using Some assms(2) unfolding keyed_def by force
    qed
    then show ?thesis using Some by (simp add: keeping_def restrict_map_def)
  qed (simp add: keeping_def restrict_map_def)
  then show ?thesis using delete_all_eq [OF assms(1), of us c] by auto
qed

lemma keyed_keeping: "keyed its c \<Longrightarrow> its c' = keeping P (its c) \<Longrightarrow> keyed its c'"
  unfolding keyed_def keeping_def by (auto split: option.splits if_splits)

lemma include_loop_True: "include_loop compile u True ss \<longleftrightarrow> \<not> list_ex (isMatch compile u) ss"
  by (induction ss) auto

lemma isResourceNeedExclude_iff:
  "isResourceNeedExclude compile u includes excludes \<longleftrightarrow>
     list_ex (isMatch compile u) excludes \<or> includes \<noteq> [] \<and> \<not> list_ex (isMatch compile u) includes"
  by (cases "includes") (auto simp: isResourceNeedExclude_def include_loop_True)

lemma excluded_namespaces_eq: "excluded_namespaces ix restore c = set (rp_excludeNamespaces (rs_spec restore))"
proof -
  have "fold (\<lambda>ns acc. if ns \<notin> S then acc \<union> set [] else acc) xs A = A" for S :: "string set" and xs and A :: "string set"
    by (induction xs arbitrary: A) auto
  then show ?thesis by (simp add: excluded_namespaces_def)
qed

lemma namespaceFilter_step:
  assumes "rindexer_laws ix its" "keyed its c"
  shows "\<exists>c'. namespaceFilter_handle nxt ix restore c = nxt restore c' \<and>
     its c' = keeping (\<lambda>u. meta_namespace (un_meta u) = [] \<or>
        meta_namespace (un_meta u) \<notin> set (rp_excludeNamespaces (rs_spec restore))) (its c)"
proof -
  let ?us = "concat (map (\<lambda>ns. ix_ByIndex ix restoreNamespaceIndex ns c)
            (sets_List (excluded_namespaces ix restore c)))"
  have "set ?us = {u \<in> ran (its c). \<not> (meta_namespace (un_meta u) = [] \<or>
        meta_namespace (un_meta u) \<notin> set (rp_excludeNamespaces (rs_spec restore)))}"
    using rlaws(6) [OF assms(1)] by (auto simp: excluded_namespaces_eq restoreNamespaceIndex_def)
  from delete_bad [OF assms this] delete_all_eq [OF assms(1), of ?us c]
  show ?thesis by (intro exI [of _ "snd (delete_all ix ?us c)"])
    (auto simp: namespaceFilter_handle_def split: prod.splits)
qed

lemma resourceFilter_step:
  assumes "rindexer_laws ix its" "keyed its c"
  shows "\<exists>c'. resourceFilter_handle nxt compile ix restore c = nxt restore c' \<and>
     its c' = keeping (\<lambda>u. \<not> isResourceNeedExclude compile u (rp_includeResources (rs_spec restore))
        (rp_excludeResources (rs_spec restore))) (its c)"
proof -
  let ?us = "filter (\<lambda>u. isResourceNeedExclude compile u
              (rp_includeResources (rs_spec restore)) (rp_excludeResources (rs_spec restore))) (ix_List ix c)"
  have "set ?us = {u \<in> ran (its c). \<not> \<not> isResourceNeedExclude compile u (rp_includeResources (rs_spec restore))
        (rp_excludeResources (rs_spec restore))}"
    using rlaws(5) [OF assms(1)] by auto
  from delete_bad [OF assms this] delete_all_eq [OF assms(1), of ?us c]
  show ?thesis by (intro exI [of _ "snd (delete_all ix ?us c)"])
    (auto simp: resourceFilter_handle_def split: prod.splits)
qed

lemma label_loop_eq:
  assumes "rindexer_laws ix its" "asSelector l = Inr sel"
  shows "label_loop asSelector l ix us c = delete_all ix (filter (\<lambda>u. \<not> sel (meta_labels (un_meta u))) us) c"
  using assms(2) by (induction us arbitrary: c) (auto split: prod.splits option.splits)

lemma in_ranI: "m k = Some u \<Longrightarrow> u \<in> ran m"
  by (auto simp: ran_def)

lemma ran_empty: "ran m = {} \<Longrightarrow> m = Map.empty"
  unfolding ran_def fun_eq_iff by (auto intro: option.exhaust)

lemma labelFilter_step:
  assumes "rindexer_laws ix its" "keyed its c" "labelSelectorFilter_handle asSelector ix restore c = (None, c')"
  shows "its c' = keeping (\<lambda>u. case rp_labelSelector (rs_spec restore) of None \<Rightarrow> True
     | Some l \<Rightarrow> \<exists>sel. asSelector l = Inr sel \<and> sel (meta_labels (un_meta u))) (its c)"
proof (cases "rp_labelSelector (rs_spec restore)")
  case None
  then have "c' = c" using assms(3) by (simp add: labelSelectorFilter_handle_def)
  then show ?thesis using None by (simp add: keeping_def fun_eq_iff split: option.splits)
next
  case (Some l)
  show ?thesis
  proof (cases "asSelector l")
    case (Inl err)
    then have "ix_List ix c = []"
      using assms(3) Some by (cases "ix_List ix c") (auto simp: labelSelectorFilter_handle_def)
    moreover from this have "c' = c" using assms(3) Some by (simp add: labelSelectorFilter_handle_def)
    ultimately have "ran (its c') = {}" using rlaws(5) [OF assms(1), of c] by simp
    then have "its c' = Map.empty" by (rule ran_empty)
    then show ?thesis using \<open>c' = c\<close> by (simp add: keeping_def fun_eq_iff)
  next
    case (Inr sel)
    have "set (filter (\<lambda>u. \<not> sel (meta_labels (un_meta u))) (ix_List ix c)) =
        {u \<in> ran (its c). \<not> sel (meta_labels (un_meta u))}" using rlaws(5) [OF assms(1)] by auto
    from delete_bad [OF assms(1,2) this] assms(3) Some Inr label_loop_eq [OF assms(1), of asSelector l sel, OF Inr]
    show ?thesis by (simp add: labelSelectorFilter_handle_def)
  qed
qed

text \<open>When a candidate passes the filters, as the code decides it.\<close>

definition restore_candidate ::
  "(string \<Rightarrow> (string \<Rightarrow> bool) option) \<Rightarrow> (string \<Rightarrow> goerr + ((string \<rightharpoonup> string) \<Rightarrow> bool)) \<Rightarrow> RestoreSpec \<Rightarrow>
   unstructured \<Rightarrow> bool" where
  "restore_candidate compile asSelector spec u \<longleftrightarrow>
     (meta_namespace (un_meta u) = [] \<or> meta_namespace (un_meta u) \<notin> set (rp_excludeNamespaces spec)) \<and>
     \<not> list_ex (isMatch compile u) (rp_excludeResources spec) \<and>
     (rp_includeResources spec = [] \<or> list_ex (isMatch compile u) (rp_includeResources spec)) \<and>
     (case rp_labelSelector spec of None \<Rightarrow> True
      | Some l \<Rightarrow> \<exists>sel. asSelector l = Inr sel \<and> sel (meta_labels (un_meta u)))"

text \<open>C39: a filter pass that succeeds leaves in the cache exactly the objects the code takes for candidates: those
  that lie in no excluded namespace, match no exclude entry, match an include entry if there are any, and satisfy
  the label selector; the others are removed and none is changed. This departs from the documentation of the
  restore in two points, both shown below: the list of included namespaces is not consulted, and an entry that is
  not a regular expression matches no object, so that it excludes nothing and, as the only include, keeps nothing.\<close>

theorem filters_keep_candidates:
  assumes "rindexer_laws ix its" "keyed its c"
    and "constructFilterHandler compile asSelector ix restore c = (None, c')"
  shows "its c' = keeping (restore_candidate compile asSelector (rs_spec restore)) (its c) \<and> keyed its c'"
proof -
  obtain c1 where c1: "constructFilterHandler compile asSelector ix restore c =
      resourceFilter_handle (labelSelectorFilter_handle asSelector ix) compile ix restore c1"
      "its c1 = keeping (\<lambda>u. meta_namespace (un_meta u) = [] \<or>
        meta_namespace (un_meta u) \<notin> set (rp_excludeNamespaces (rs_spec restore))) (its c)"
    using namespaceFilter_step [OF assms(1,2)] unfolding constructFilterHandler_def by blast
  have k1: "keyed its c1" by (rule keyed_keeping [OF assms(2) c1(2)])
  obtain c2 where c2: "resourceFilter_handle (labelSelectorFilter_handle asSelector ix) compile ix restore c1 =
      labelSelectorFilter_handle asSelector ix restore c2"
      "its c2 = keeping (\<lambda>u. \<not> isResourceNeedExclude compile u (rp_includeResources (rs_spec restore))
        (rp_excludeResources (rs_spec restore))) (its c1)"
    using resourceFilter_step [OF assms(1) k1] by blast
  have k2: "keyed its c2" by (rule keyed_keeping [OF k1 c2(2)])
  have c3: "labelSelectorFilter_handle asSelector ix restore c2 = (None, c')" using assms(3) c1(1) c2(1) by simp
  have eq: "restore_candidate compile asSelector (rs_spec restore) =
     (\<lambda>u. ((meta_namespace (un_meta u) = [] \<or> meta_namespace (un_meta u) \<notin> set (rp_excludeNamespaces (rs_spec restore))) \<and>
       \<not> isResourceNeedExclude compile u (rp_includeResources (rs_spec restore)) (rp_excludeResources (rs_spec restore))) \<and>
       (case rp_labelSelector (rs_spec restore) of None \<Rightarrow> True
        | Some l \<Rightarrow> \<exists>sel. asSelector l = Inr sel \<and> sel (meta_labels (un_meta u))))"
    by (rule ext) (auto simp: restore_candidate_def isResourceNeedExclude_iff)
  have "its c' = keeping (restore_candidate compile asSelector (rs_spec restore)) (its c)"
    unfolding labelFilter_step [OF assms(1) k2 c3] c2(2) c1(2) keeping_keeping eq ..
  then show ?thesis using keyed_keeping [OF assms(2)] by blast
qed

text \<open>The include list of namespaces has no effect, and an entry that is not a regular expression matches
  nothing.\<close>

lemma include_namespaces_ignored:
  "restore_candidate compile sel (spec\<lparr>rp_includeNamespaces := ns\<rparr>) u = restore_candidate compile sel spec u"
  by (simp add: restore_candidate_def)

lemma plain_name_never_matches: "\<not> isMatch compile u \<lparr>rs_name = meta_name (un_meta u), rs_kind = un_kind u, rs_isRegex = False\<rparr>"
  by (simp add: isMatch_def)

section \<open>What the resolver adds\<close>

lemma find_add_cases:
  assumes "rindexer_laws ix its" "find_add ix P us c = ((r, e), c')"
  shows "e = None \<and> (r = None \<and> c' = c \<and> (\<forall>u \<in> set us. \<not> P u) \<or>
     (\<exists>u. r = Some u \<and> u \<in> set us \<and> P u \<and> its c' = (its c)(un_uid u \<mapsto> u)))"
proof (cases "find P us")
  case None
  then have "r = None" "e = None" "c' = c" using assms(2) by (auto simp: find_add_def)
  then show ?thesis using None by (auto simp: find_None_iff)
next
  case (Some u)
  have "P u" "u \<in> set us" using Some by (auto simp: find_Some_iff)
  moreover have "r = Some u" "e = None" "its c' = (its c)(un_uid u \<mapsto> u)"
    using assms(2) Some rlaws(1,2) [OF assms(1), of u c] by (auto simp: find_add_def split: prod.splits)
  ultimately show ?thesis by blast
qed

text \<open>\<open>grows\<close>: the restore cache grows inside the backup cache.\<close>

definition grows :: "('c \<Rightarrow> string \<rightharpoonup> unstructured) \<Rightarrow> 'c \<Rightarrow> 'c \<Rightarrow> 'c \<Rightarrow> bool" where
  "grows its b c c' \<longleftrightarrow> its c \<subseteq>\<^sub>m its c' \<and> its c' \<subseteq>\<^sub>m its b"

lemma add_grows:
  assumes "keyed its b" "its c \<subseteq>\<^sub>m its b" "u \<in> ran (its b)" "its c' = (its c)(un_uid u \<mapsto> u)"
  shows "grows its b c c'"
proof -
  obtain k where k: "its b k = Some u" using assms(3) by (auto simp: ran_def)
  then have bu: "its b (un_uid u) = Some u" using assms(1) by (simp add: keyed_def)
  have le: "its c k = Some v \<Longrightarrow> its b k = Some v" for k v
    using assms(2) by (auto simp: map_le_def) (metis domI)
  have "its c \<subseteq>\<^sub>m its c'" unfolding map_le_def assms(4) using le bu by fastforce
  moreover have "((its c)(un_uid u \<mapsto> u)) a = its b a" if "a \<in> dom ((its c)(un_uid u \<mapsto> u))" for a
    using that le bu by (cases "a = un_uid u") auto
  then have "its c' \<subseteq>\<^sub>m its b" unfolding map_le_def assms(4) by blast
  ultimately show ?thesis by (simp add: grows_def)
qed

lemma grows_refl: "its c \<subseteq>\<^sub>m its b \<Longrightarrow> grows its b c c"
  by (simp add: grows_def)

lemma grows_trans: "grows its b c c1 \<Longrightarrow> grows its b c1 c2 \<Longrightarrow> grows its b c c2"
  unfolding grows_def using map_le_trans by blast

lemma grows_ran: "grows its b c c' \<Longrightarrow> ran (its c) \<subseteq> ran (its c')"
  unfolding grows_def map_le_def ran_def by (auto simp: dom_def) metis

text \<open>What it means that the dependencies of an object are in the cache.\<close>

definition satisfied_in :: "conv_env \<Rightarrow> unstructured set \<Rightarrow> unstructured \<Rightarrow> bool" where
  "satisfied_in cv S u \<longleftrightarrow>
     (un_kind u = PVC_kind \<longrightarrow> (\<forall>p sc. cv_toPVC cv u = Inr p \<longrightarrow> pvc_storageClassName p = Some sc \<longrightarrow>
        (\<exists>s \<in> S. un_kind s = SC_kind \<and> meta_name (un_meta s) = sc))) \<and>
     (un_kind u = PV_kind \<longrightarrow> (\<forall>p ref. cv_toPV cv u = Inr p \<longrightarrow> pv_claimRef p = Some ref \<longrightarrow>
        (\<exists>v \<in> S. un_kind v = cr_kind ref \<and> meta_namespace (un_meta v) = cr_namespace ref \<and>
           meta_name (un_meta v) = cr_name ref)))"

lemma satisfied_in_mono: "satisfied_in cv S u \<Longrightarrow> S \<subseteq> T \<Longrightarrow> satisfied_in cv T u"
  unfolding satisfied_in_def by (meson subsetD)

definition claims_only :: "conv_env \<Rightarrow> unstructured set \<Rightarrow> bool" where
  "claims_only cv S \<longleftrightarrow> (\<forall>u \<in> S. \<forall>p ref. un_kind u = PV_kind \<longrightarrow> cv_toPV cv u = Inr p \<longrightarrow>
     pv_claimRef p = Some ref \<longrightarrow> cr_kind ref = PVC_kind)"

definition resolved :: "('c \<Rightarrow> string \<rightharpoonup> unstructured) \<Rightarrow> conv_env \<Rightarrow> 'c \<Rightarrow> unstructured \<Rightarrow> 'c \<Rightarrow> 'c \<Rightarrow> bool" where
  "resolved its cv b u c c' \<longleftrightarrow> grows its b c c' \<and> satisfied_in cv (ran (its c')) u \<and>
     (\<forall>v \<in> ran (its c'). v \<in> ran (its c) \<or> satisfied_in cv (ran (its c')) v)"

lemma resolved_grows: "resolved its cv b u c c' \<Longrightarrow> grows its b c c'"
  by (simp add: resolved_def)

lemma ran_upd_cases: "v \<in> ran (m(k \<mapsto> u)) \<Longrightarrow> v = u \<or> v \<in> ran m"
  by (auto simp: ran_def split: if_splits)

lemma kinds_distinct [simp]:
  "PV_kind \<noteq> PVC_kind" "PVC_kind \<noteq> PV_kind" "SC_kind \<noteq> PV_kind" "SC_kind \<noteq> PVC_kind"
  by (simp_all add: kind_defs)

lemma pvcResolver_resolved:
  assumes laws: "rindexer_laws ix its" and b: "keyed its b" "its c \<subseteq>\<^sub>m its b" and u: "un_kind u = PVC_kind"
    and r: "restore_pvcResolver cv ix b u c = (None, c')"
  shows "resolved its cv b u c c'"
proof (cases "cv_toPVC cv u")
  case (Inl err)
  then show ?thesis using r by (simp add: restore_pvcResolver_def)
next
  case (Inr p)
  show ?thesis
  proof (cases "pvc_storageClassName p")
    case None
    then show ?thesis using r Inr b(2) u
      by (auto simp: restore_pvcResolver_def resolved_def grows_refl satisfied_in_def)
  next
    case (Some sc)
    let ?P = "\<lambda>s. meta_name (un_meta s) = sc"
    obtain x e c1 where f: "find_add ix ?P (ix_ByIndex ix resourceIndex SC_kind b) c = ((x, e), c1)" by (metis prod.exhaust)
    then obtain s where s: "x = Some s" "s \<in> ran (its b)" "un_kind s = SC_kind" "?P s"
        "its c' = (its c)(un_uid s \<mapsto> s)"
      using find_add_cases [OF laws f] r Inr Some rlaws(6) [OF laws, of resourceIndex SC_kind b]
      by (auto simp: restore_pvcResolver_def resourceIndex_def)
    have g: "grows its b c c'" by (rule add_grows [OF b s(2,5)])
    have "s \<in> ran (its c')" using s(5) by (auto intro: in_ranI)
    then have "satisfied_in cv (ran (its c')) u" using u Inr Some s(3,4) by (auto simp: satisfied_in_def)
    moreover have "v \<in> ran (its c) \<or> satisfied_in cv (ran (its c')) v" if "v \<in> ran (its c')" for v
      using ran_upd_cases that s(3,5) by (fastforce simp: satisfied_in_def)
    ultimately show ?thesis using g by (simp add: resolved_def)
  qed
qed

lemma resolve_resolved:
  assumes laws: "rindexer_laws ix its" and b: "keyed its b" "its c \<subseteq>\<^sub>m its b" "claims_only cv (ran (its b))"
    and u: "u \<in> ran (its b)" "un_kind u = PV_kind \<or> un_kind u = PVC_kind" and n: "2 \<le> n"
  shows "\<exists>e c'. restore_resolve cv ix b n u c = Some (e, c') \<and> (e = None \<longrightarrow> resolved its cv b u c c')"
proof -
  obtain m where m: "n = Suc (Suc m)" using n by (metis One_nat_def Suc_1 Suc_le_D Suc_le_mono)
  show ?thesis
  proof (cases "un_kind u = PVC_kind")
    case True
    obtain e c' where r: "restore_pvcResolver cv ix b u c = (e, c')" by fastforce
    then show ?thesis using True m pvcResolver_resolved [OF laws b(1,2) True] by auto
  next
    case False
    then have pv: "un_kind u = PV_kind" using u(2) by simp
    show ?thesis
    proof (cases "\<exists>p ref. cv_toPV cv u = Inr p \<and> pv_claimRef p = Some ref")
      case no: False
      then show ?thesis using pv m b(2)
        by (auto simp: resolved_def grows_refl satisfied_in_def split: sum.splits option.splits)
    next
      case True
      then obtain p ref where p: "cv_toPV cv u = Inr p" "pv_claimRef p = Some ref" by blast
      have ck: "cr_kind ref = PVC_kind" using b(3) u(1) pv p unfolding claims_only_def by blast
      let ?P = "\<lambda>v. meta_namespace (un_meta v) = cr_namespace ref \<and> meta_name (un_meta v) = cr_name ref"
      obtain x e c1 where f: "find_add ix ?P (ix_ByIndex ix resourceIndex (cr_kind ref) b) c = ((x, e), c1)"
        by (metis prod.exhaust)
      note fc = find_add_cases [OF laws f]
      show ?thesis
      proof (cases x)
        case None
        then show ?thesis using False m p f by auto
      next
        case (Some v)
        then have v: "v \<in> ran (its b)" "un_kind v = PVC_kind" "?P v" "its c1 = (its c)(un_uid v \<mapsto> v)" "e = None"
          using fc rlaws(6) [OF laws, of resourceIndex PVC_kind b] ck by (auto simp: resourceIndex_def)
        have g1: "grows its b c c1" by (rule add_grows [OF b(1,2) v(1,4)])
        then have b1: "its c1 \<subseteq>\<^sub>m its b" by (simp add: grows_def)
        obtain e2 c2 where r2: "restore_pvcResolver cv ix b v c1 = (e2, c2)" by fastforce
        have run: "restore_resolve cv ix b n u c = Some (e2, c2)"
          using False m p f Some v r2 by simp
        have "resolved its cv b u c c2" if no: "e2 = None"
        proof -
          have R: "resolved its cv b v c1 c2" using pvcResolver_resolved [OF laws b(1) b1 v(2)] r2 no by simp
          have sub: "ran (its c1) \<subseteq> ran (its c2)" by (rule grows_ran [OF resolved_grows [OF R]])
          have "v \<in> ran (its c1)" using v(4) by (auto intro: in_ranI)
          then have "satisfied_in cv (ran (its c2)) u" using sub v(2,3) ck p pv by (auto simp: satisfied_in_def)
          moreover have "z \<in> ran (its c) \<or> satisfied_in cv (ran (its c2)) z" if "z \<in> ran (its c2)" for z
          proof -
            have "z \<in> ran (its c1) \<or> satisfied_in cv (ran (its c2)) z" "satisfied_in cv (ran (its c2)) v"
              using R that by (simp_all add: resolved_def)
            moreover have "z \<in> ran (its c1) \<Longrightarrow> z = v \<or> z \<in> ran (its c)"
              unfolding v(4) by (rule ran_upd_cases)
            ultimately show ?thesis by blast
          qed
          moreover have "grows its b c c2" using R grows_trans [OF g1] by (simp add: resolved_def)
          ultimately show ?thesis by (simp add: resolved_def)
        qed
        then show ?thesis using run by blast
      qed
    qed
  qed
qed

lemma resolve_list_resolved:
  assumes laws: "rindexer_laws ix its" and b: "keyed its b" "claims_only cv (ran (its b))" and n: "2 \<le> n"
    and "its c \<subseteq>\<^sub>m its b" "set us \<subseteq> ran (its b)"
    and "\<forall>u \<in> ran (its c). u \<in> set us \<or> satisfied_in cv (ran (its c)) u"
  shows "\<exists>e c'. restore_resolve_list cv ix b n us c = Some (e, c') \<and>
     (e = None \<longrightarrow> grows its b c c' \<and> (\<forall>u \<in> ran (its c'). satisfied_in cv (ran (its c')) u))"
  using assms(5-)
proof (induction us arbitrary: c)
  case Nil
  then show ?case by (auto simp: grows_refl)
next
  case (Cons u us)
  show ?case
  proof (cases "un_kind u = PV_kind \<or> un_kind u = PVC_kind")
    case False
    then have "satisfied_in cv (ran (its c)) u" by (auto simp: satisfied_in_def)
    then have "\<forall>v \<in> ran (its c). v \<in> set us \<or> satisfied_in cv (ran (its c)) v" using Cons.prems(3) by auto
    then show ?thesis using Cons.IH Cons.prems(1,2) False by simp
  next
    case True
    have ub: "u \<in> ran (its b)" using Cons.prems(2) by simp
    obtain e c1 where r: "restore_resolve cv ix b n u c = Some (e, c1)" "e = None \<longrightarrow> resolved its cv b u c c1"
      using resolve_resolved [OF laws b(1) Cons.prems(1) b(2) ub True n] by blast
    show ?thesis
    proof (cases e)
      case (Some err)
      then show ?thesis using True r(1) by simp
    next
      case None
      then have R: "resolved its cv b u c c1" using r(2) by simp
      have sub: "ran (its c) \<subseteq> ran (its c1)" by (rule grows_ran [OF resolved_grows [OF R]])
      have "v \<in> set us \<or> satisfied_in cv (ran (its c1)) v" if "v \<in> ran (its c1)" for v
      proof -
        have "v \<in> ran (its c) \<or> satisfied_in cv (ran (its c1)) v" "satisfied_in cv (ran (its c1)) u"
          using R that by (simp_all add: resolved_def)
        moreover have "v \<in> ran (its c) \<Longrightarrow> v \<in> set (u # us) \<or> satisfied_in cv (ran (its c)) v"
          using Cons.prems(3) by blast
        ultimately show ?thesis using satisfied_in_mono [OF _ sub, of cv v] by auto
      qed
      moreover have "its c1 \<subseteq>\<^sub>m its b" using R by (simp add: resolved_def grows_def)
      ultimately obtain e2 c2 where "restore_resolve_list cv ix b n us c1 = Some (e2, c2)"
          "e2 = None \<longrightarrow> grows its b c1 c2 \<and> (\<forall>u \<in> ran (its c2). satisfied_in cv (ran (its c2)) u)"
        using Cons.IH [of c1] Cons.prems(2) by auto
      moreover have "grows its b c c1" using R by (simp add: resolved_def)
      ultimately show ?thesis using True r(1) None grows_trans [of its b c c1 c2] by simp
    qed
  qed
qed

text \<open>Resolution of the restore candidates ends when claim references of volumes name claims; if it
  reports no error, the cache has grown by objects of the backup only, and for every claim in it the
  storage class, and for every bound volume in it the claim, is in it too.\<close>

theorem restore_Resolve_closes:
  assumes "rindexer_laws ix its" "keyed its b" "claims_only cv (ran (its b))" "2 \<le> n" "its c \<subseteq>\<^sub>m its b"
  shows "\<exists>e c'. restore_Resolve cv ix n c b = Some (e, c') \<and>
     (e = None \<longrightarrow> grows its b c c' \<and> (\<forall>u \<in> ran (its c'). satisfied_in cv (ran (its c')) u))"
proof -
  have "ran (its c) \<subseteq> ran (its b)" using assms(5) unfolding map_le_def ran_def by (auto simp: dom_def) metis
  then show ?thesis
    unfolding restore_Resolve_def using rlaws(5) [OF assms(1), of c]
    by (intro resolve_list_resolved [OF assms(1-5)]) auto
qed

section \<open>Witnesses\<close>

text \<open>The cache as an association list; a volume with its claim and storage class, and config maps in two
  namespaces.\<close>

definition alist_rindexer :: "(string \<times> unstructured) list rindexer" where
  "alist_rindexer = indexer.extend alist_indexer
     (rindexer.fields (\<lambda>kf u c. case kf u of Inl e \<Rightarrow> (Some e, c) | Inr k \<Rightarrow> (None, filter (\<lambda>(k', _). k' \<noteq> k) c)))"

lemmas alist_rindexer_defs = alist_rindexer_def alist_indexer_def indexer.defs rindexer.defs

lemma alist_rindexer_laws: "rindexer_laws alist_rindexer map_of"
  unfolding rindexer_laws_def alist_rindexer_defs
  by (auto simp: map_of_filter_key ran_map_of split: sum.splits)

lemma demo_un_simps [simp]:
  "un_kind (demo_un k ns n) = k" "meta_name (un_meta (demo_un k ns n)) = n"
  "meta_namespace (un_meta (demo_un k ns n)) = ns" "un_uid (demo_un k ns n) = n"
  by (simp_all add: demo_un_def)

definition demo_candidates :: "(string \<times> unstructured) list" where
  "demo_candidates = [(''a'', demo_un Configmap_kind ''x'' ''a''), (''b'', demo_un Configmap_kind ''y'' ''b'')]"

theorem filters_keep_candidates_witness:
  "\<exists>c'. constructFilterHandler (\<lambda>_. None) (\<lambda>_. Inl (errorf ''x'')) alist_rindexer
       (zero_Restore\<lparr>rs_spec := zero_RestoreSpec\<lparr>rp_excludeNamespaces := [''y'']\<rparr>\<rparr>) demo_candidates = (None, c') \<and>
     map_of c' ''a'' = Some (demo_un Configmap_kind ''x'' ''a'') \<and> map_of c' ''b'' = None"
proof -
  let ?r = "zero_Restore\<lparr>rs_spec := zero_RestoreSpec\<lparr>rp_excludeNamespaces := [''y'']\<rparr>\<rparr>"
  obtain e c' where r: "constructFilterHandler (\<lambda>_. None) (\<lambda>_. Inl (errorf ''x'')) alist_rindexer ?r demo_candidates = (e, c')"
    by fastforce
  have k: "keyed map_of demo_candidates" by (auto simp: keyed_def demo_candidates_def)
  have "e = None"
    using r namespaceFilter_step [OF alist_rindexer_laws k] resourceFilter_step [OF alist_rindexer_laws]
    by (auto simp: constructFilterHandler_def namespaceFilter_handle_def resourceFilter_handle_def
        labelSelectorFilter_handle_def zero_Restore_def zero_RestoreSpec_def delete_all_eq [OF alist_rindexer_laws]
        prod_eq_iff split: prod.splits option.splits)
  then have "map_of c' = keeping (restore_candidate (\<lambda>_. None) (\<lambda>_. Inl (errorf ''x'')) (rs_spec ?r)) (map_of demo_candidates)"
    using filters_keep_candidates [OF alist_rindexer_laws k] r by blast
  then show ?thesis using r \<open>e = None\<close>
    by (simp add: keeping_def restore_candidate_def demo_candidates_def zero_Restore_def zero_RestoreSpec_def)
qed

definition demo_conv :: conv_env where
  "demo_conv = \<lparr>cv_toPV = (\<lambda>u. Inr \<lparr>pv_meta = un_meta u, pv_source =
         \<lparr>src_csi = Some ''csi'', src_aws = False, src_azureDisk = False, src_azureFile = False, src_cephFS = False\<rparr>,
       pv_claimRef = Some \<lparr>cr_apiVersion = ''v1'', cr_kind = PVC_kind, cr_name = ''claim'', cr_namespace = ''ns''\<rparr>\<rparr>),
     cv_toPVC = (\<lambda>u. Inr \<lparr>pvc_meta = un_meta u, pvc_volumeName = ''vol'', pvc_storageClassName = Some ''fast''\<rparr>)\<rparr>"

definition demo_backup_cache :: "(string \<times> unstructured) list" where
  "demo_backup_cache = [(''vol'', demo_un PV_kind [] ''vol''), (''claim'', demo_un PVC_kind ''ns'' ''claim''),
     (''fast'', demo_un SC_kind [] ''fast'')]"

theorem restore_Resolve_closes_witness:
  "\<exists>c'. restore_Resolve demo_conv alist_rindexer 2 [(''vol'', demo_un PV_kind [] ''vol'')] demo_backup_cache = Some (None, c') \<and>
     map_of c' ''fast'' = Some (demo_un SC_kind [] ''fast'')"
proof -
  let ?c = "[(''vol'', demo_un PV_kind [] ''vol'')]"
  have k: "keyed map_of demo_backup_cache" by (auto simp: keyed_def demo_backup_cache_def split: if_splits)
  have cl: "claims_only demo_conv (ran (map_of demo_backup_cache))" by (auto simp: claims_only_def demo_conv_def)
  have le: "map_of ?c \<subseteq>\<^sub>m map_of demo_backup_cache" by (auto simp: map_le_def demo_backup_cache_def)
  obtain e c' where r: "restore_Resolve demo_conv alist_rindexer 2 ?c demo_backup_cache = Some (e, c')"
      "e = None \<longrightarrow> grows map_of demo_backup_cache ?c c' \<and> (\<forall>u \<in> ran (map_of c'). satisfied_in demo_conv (ran (map_of c')) u)"
    using restore_Resolve_closes [OF alist_rindexer_laws k cl order_refl le] by blast
  have "fst (the (restore_Resolve demo_conv alist_rindexer 2 ?c demo_backup_cache)) = None"
    by (simp add: restore_Resolve_def alist_rindexer_defs demo_conv_def demo_backup_cache_def find_add_def kind_defs
        resourceIndex_def restore_pvcResolver_def uidKeyFunc_def numeral_2_eq_2)
  then have s: "grows map_of demo_backup_cache ?c c'" "\<forall>u \<in> ran (map_of c'). satisfied_in demo_conv (ran (map_of c')) u"
    using r by simp_all
  have "demo_un PV_kind [] ''vol'' \<in> ran (map_of c')" using grows_ran [OF s(1)] by (auto simp: ran_def)
  then obtain v where v: "v \<in> ran (map_of c')" "un_kind v = PVC_kind"
    using s(2) by (force simp: satisfied_in_def demo_conv_def)
  then obtain w where w: "w \<in> ran (map_of c')" "un_kind w = SC_kind" "meta_name (un_meta w) = ''fast''"
    using s(2) by (force simp: satisfied_in_def demo_conv_def)
  from w(1) obtain key where key: "map_of c' key = Some w" by (auto simp: ran_def)
  then have "map_of demo_backup_cache key = Some w" using s(1) unfolding grows_def map_le_def by (metis domI)
  then show ?thesis using r(1) s(1) w key \<open>fst _ = None\<close>
    by (auto simp: demo_backup_cache_def split: if_splits)
qed

end
