(* ===== verification/Restore_Mutators.thy ===== *)
theory Restore_Mutators
  imports Restore_Filters Traces
begin

text \<open>
  What a restore changes in its candidates, \<^verbatim>\<open>controllers/restore/mutators.go\<close> and
  \<^verbatim>\<open>restorehelper.go\<close>: the chain of handlers that maps namespaces, clears data sources of
  claims and addresses of services, rewrites role bindings, marks every object with the name of the
  restore and adds the name prefix.

  The conversions between unstructured and typed objects and the accessors
  \<^verbatim>\<open>unstructured.Nested...\<close> and \<^verbatim>\<open>SetNested...\<close> are library code: fields of \<open>mut_env\<close>.
  What the accessors return is a tree of JSON values (deep copies), on which the source works with
  Go's map and type assertion operators. \<open>mu_order\<close> is the order in which Go ranges over the
  namespace mapping.

  The cache holds pointers, so an assignment to a cached object changes the cached value; no handler
  assigns a UID, and the indices in use (kind, namespace) do not depend on the fields assigned
  through the pointer, so \<open>assign\<close> replaces the entry under the same key. The backup cache shares the
  pointers and is not read after the mutation.
\<close>

section \<open>Values and environment\<close>

datatype json = is_null: JNull | JBool bool | JNum int | JStr string | JList "json list" | JObj "string \<rightharpoonup> json"

record service_obj =
  so_kind :: string
  so_meta :: object_meta
  so_clusterIP :: string
  so_clusterIPs :: "string list"
  so_nodePorts :: "int list"
  so_rest :: string

record claim_obj =
  co_kind :: string
  co_meta :: object_meta
  co_dataSource :: "string option"
  co_dataSourceRef :: "string option"
  co_rest :: string

record binding_obj =
  bo_kind :: string
  bo_meta :: object_meta
  bo_subjects :: "subject list"
  bo_roleKind :: string
  bo_roleName :: string
  bo_rest :: string

record mut_env =
  mu_order :: "(string \<rightharpoonup> string) \<Rightarrow> (string \<times> string) list"
  mu_toService :: "unstructured \<Rightarrow> goerr + service_obj"
  mu_fromService :: "service_obj \<Rightarrow> goerr + unstructured"
  mu_toClaim :: "unstructured \<Rightarrow> goerr + claim_obj"
  mu_fromClaim :: "claim_obj \<Rightarrow> goerr + unstructured"
  mu_toBinding :: "unstructured \<Rightarrow> goerr + binding_obj"
  mu_fromBinding :: "binding_obj \<Rightarrow> goerr + unstructured"
  mu_NestedString :: "unstructured \<Rightarrow> string list \<Rightarrow> string \<times> bool \<times> goerr option"
  mu_NestedInt64 :: "unstructured \<Rightarrow> string list \<Rightarrow> int \<times> bool \<times> goerr option"
  mu_NestedSlice :: "unstructured \<Rightarrow> string list \<Rightarrow> json list option \<times> bool \<times> goerr option"
  mu_SetNestedField :: "unstructured \<Rightarrow> string \<Rightarrow> string list \<Rightarrow> unstructured \<times> goerr option"
  mu_SetNestedSlice :: "unstructured \<Rightarrow> json list \<Rightarrow> string list \<Rightarrow> unstructured \<times> goerr option"
  mj_NestedString :: "(string \<rightharpoonup> json) \<Rightarrow> string list \<Rightarrow> string \<times> bool \<times> goerr option"
  mj_NestedSlice :: "(string \<rightharpoonup> json) \<Rightarrow> string list \<Rightarrow> json list option \<times> bool \<times> goerr option"

definition get_opt :: "'a \<times> bool \<times> goerr option \<Rightarrow> 'a option" where
  "get_opt r = (case r of (x, found, err) \<Rightarrow> if \<not> found \<or> err \<noteq> None then None else Some x)"

section \<open>The cache\<close>

definition cadd :: "'c rindexer \<Rightarrow> string \<Rightarrow> unstructured \<Rightarrow> ('c, sres) state" where
  "cadd ix msg u = liftst (\<lambda>c. case ix_Add ix uidKeyFunc u c of
     (None, c') \<Rightarrow> (Ok, c') | (Some err, c') \<Rightarrow> (Fail (errorf (msg @ err_msg err)), c'))"

definition cdelete :: "'c rindexer \<Rightarrow> string \<Rightarrow> unstructured \<Rightarrow> ('c, sres) state" where
  "cdelete ix msg u = liftst (\<lambda>c. case ix_Delete ix uidKeyFunc u c of
     (None, c') \<Rightarrow> (Ok, c') | (Some err, c') \<Rightarrow> (Fail (errorf (msg @ err_msg err)), c'))"

definition replace :: "'c rindexer \<Rightarrow> string \<Rightarrow> unstructured \<Rightarrow> unstructured \<Rightarrow> ('c, sres) state" where
  "replace ix what u u' = seq (cdelete ix (''failed to delete resource from cache for '' @ what) u)
     (cadd ix (''failed to add resource in cache for '' @ what) u')"

definition assign :: "'c rindexer \<Rightarrow> unstructured \<Rightarrow> ('c, unit) state" where
  "assign ix u' = upd (\<lambda>c. snd (ix_Add ix uidKeyFunc u' c))"

type_synonym 'c mhandler = "Restore \<Rightarrow> ('c, sres) state"

section \<open>Namespaces\<close>

definition set_un_namespace :: "string \<Rightarrow> unstructured \<Rightarrow> unstructured" where
  "set_un_namespace ns u = u\<lparr>un_meta := (un_meta u)\<lparr>meta_namespace := ns\<rparr>\<rparr>"

definition map_namespace :: "'c rindexer \<Rightarrow> string \<times> string \<Rightarrow> ('c, sres) state" where
  "map_namespace ix nm = do {
     us \<leftarrow> look (ix_ByIndex ix restoreNamespaceIndex (fst nm));
     each (\<lambda>u. replace ix ''namespace resource mutation. '' u (set_un_namespace (snd nm) u)) us }"

definition namespaceMutation_handle :: "'c mhandler \<Rightarrow> mut_env \<Rightarrow> 'c rindexer \<Rightarrow> 'c mhandler" where
  "namespaceMutation_handle nxt env ix restore =
     seq (each (map_namespace ix) (mu_order env (rp_namespaceMapping (rs_spec restore)))) (nxt restore)"

section \<open>Services and claims\<close>

definition preserveNodePort :: "Restore \<Rightarrow> bool" where
  "preserveNodePort restore = (rp_preserveNodePort (rs_spec restore) = Some True)"

definition preserveClusterIpAddr :: "Restore \<Rightarrow> bool" where
  "preserveClusterIpAddr restore = (rp_preserveClusterIpAddr (rs_spec restore) = Some True)"

definition resetNodePort :: "service_obj \<Rightarrow> service_obj" where
  "resetNodePort service = service\<lparr>so_nodePorts := map (\<lambda>_. 0) (so_nodePorts service)\<rparr>"

definition mutate_service :: "Restore \<Rightarrow> service_obj \<Rightarrow> service_obj" where
  "mutate_service restore service0 =
     (let service = (if so_clusterIP service0 \<noteq> ''None'' \<and> \<not> preserveClusterIpAddr restore
            then service0\<lparr>so_clusterIP := [], so_clusterIPs := []\<rparr> else service0)
      in if \<not> preserveNodePort restore then resetNodePort service else service)"

definition mutate_claim :: "claim_obj \<Rightarrow> claim_obj" where
  "mutate_claim pvc = pvc\<lparr>co_dataSource := None, co_dataSourceRef := None\<rparr>"

text \<open>The service and claim handlers delete the entry before they convert back.\<close>

definition mutate_typed ::
  "(unstructured \<Rightarrow> goerr + 'o) \<Rightarrow> ('o \<Rightarrow> goerr + unstructured) \<Rightarrow> ('o \<Rightarrow> 'o) \<Rightarrow> 'c rindexer \<Rightarrow> string \<Rightarrow>
   unstructured \<Rightarrow> ('c, sres) state" where
  "mutate_typed to from f ix what u = (case to u of
     Inl err \<Rightarrow> State_Monad.return (Fail (errorf (''failed to translate for '' @ what @ err_msg err)))
   | Inr x \<Rightarrow> seq (cdelete ix (''failed to delete resource from cache for '' @ what) u)
       (case from (f x) of
          Inl err \<Rightarrow> State_Monad.return (Fail (errorf (''failed to translate to unstructure during '' @ what @ err_msg err)))
        | Inr u' \<Rightarrow> cadd ix (''failed to add resource in cache for '' @ what) u'))"

definition by_kind :: "'c rindexer \<Rightarrow> string \<Rightarrow> (unstructured \<Rightarrow> ('c, sres) state) \<Rightarrow> ('c, sres) state" where
  "by_kind ix kind f = do { us \<leftarrow> look (ix_ByIndex ix resourceIndex kind); each f us }"

definition serviceMutation_handle :: "'c mhandler \<Rightarrow> mut_env \<Rightarrow> 'c rindexer \<Rightarrow> 'c mhandler" where
  "serviceMutation_handle nxt env ix restore =
     seq (by_kind ix Service_kind (mutate_typed (mu_toService env) (mu_fromService env) (mutate_service restore) ix
            ''service mutation. '')) (nxt restore)"

definition pvcMutation_handle :: "'c mhandler \<Rightarrow> mut_env \<Rightarrow> 'c rindexer \<Rightarrow> 'c mhandler" where
  "pvcMutation_handle nxt env ix restore =
     seq (by_kind ix PVC_kind (mutate_typed (mu_toClaim env) (mu_fromClaim env) mutate_claim ix ''pvc mutation. ''))
       (nxt restore)"

section \<open>Role bindings\<close>

definition ServiceAccount_kind :: string where "ServiceAccount_kind = ''ServiceAccount''"
definition Role_kind :: string where "Role_kind = ''Role''"
definition ClusterRole_kind :: string where "ClusterRole_kind = ''ClusterRole''"
definition RoleBinding_kind :: string where "RoleBinding_kind = ''RoleBinding''"
definition ClusterRoleBinding_kind :: string where "ClusterRoleBinding_kind = ''ClusterRoleBinding''"

definition mutateSubjectNamespace :: "(string \<rightharpoonup> string) \<Rightarrow> subject \<Rightarrow> subject" where
  "mutateSubjectNamespace namespaceMap s =
     (if sj_kind s = ServiceAccount_kind \<and> sj_namespace s \<noteq> [] then
        (case namespaceMap (sj_namespace s) of None \<Rightarrow> s | Some newNS \<Rightarrow> s\<lparr>sj_namespace := newNS\<rparr>)
      else s)"

definition mutateSubjectName :: "string \<Rightarrow> subject \<Rightarrow> subject" where
  "mutateSubjectName prefix s =
     (if prefix = [] then s
      else if sj_kind s = ServiceAccount_kind \<and> sj_name s \<noteq> ''default'' then s\<lparr>sj_name := prefix @ sj_name s\<rparr> else s)"

definition mutate_binding :: "string \<Rightarrow> Restore \<Rightarrow> binding_obj \<Rightarrow> binding_obj" where
  "mutate_binding refKind restore b =
     (let spec = rs_spec restore;
          subjects = map (\<lambda>s. mutateSubjectName (rp_resourcePrefix spec) (mutateSubjectNamespace (rp_namespaceMapping spec) s))
            (bo_subjects b)
      in b\<lparr>bo_subjects := subjects,
           bo_roleName := (if rp_resourcePrefix spec \<noteq> [] \<and> bo_roleKind b = refKind
             then rp_resourcePrefix spec @ bo_roleName b else bo_roleName b)\<rparr>)"

text \<open>The binding handlers assign the converted object first and delete and add it afterwards.\<close>

definition mutate_role ::
  "mut_env \<Rightarrow> string \<Rightarrow> Restore \<Rightarrow> 'c rindexer \<Rightarrow> string \<Rightarrow> unstructured \<Rightarrow> ('c, sres) state" where
  "mutate_role env refKind restore ix what u = (case mu_toBinding env u of
     Inl err \<Rightarrow> State_Monad.return (Fail (errorf (''failed to translate to service for mutation. '' @ err_msg err)))
   | Inr b \<Rightarrow> (case mu_fromBinding env (mutate_binding refKind restore b) of
       Inl err \<Rightarrow> State_Monad.return (Fail (errorf (''failed to translate to unstructure during service mutation. '' @ err_msg err)))
     | Inr u' \<Rightarrow> do { assign ix u'; replace ix what u' u' }))"

definition roleBindingMutation_handle :: "'c mhandler \<Rightarrow> mut_env \<Rightarrow> 'c rindexer \<Rightarrow> 'c mhandler" where
  "roleBindingMutation_handle nxt env ix restore =
     seq (by_kind ix RoleBinding_kind (mutate_role env Role_kind restore ix ''role binding resource mutation. ''))
       (nxt restore)"

definition clusterRoleBindingMutation_handle :: "'c mhandler \<Rightarrow> mut_env \<Rightarrow> 'c rindexer \<Rightarrow> 'c mhandler" where
  "clusterRoleBindingMutation_handle nxt env ix restore =
     seq (by_kind ix ClusterRoleBinding_kind
           (mutate_role env ClusterRole_kind restore ix ''cluster role binding resource mutation. '')) (nxt restore)"

section \<open>The restore identifier\<close>

definition exempt :: "unstructured \<Rightarrow> bool" where
  "exempt u \<longleftrightarrow> un_kind u = crdName \<or> un_kind u = ServiceAccount_kind \<and> meta_name (un_meta u) = ''default''"

definition identified :: "string \<Rightarrow> unstructured \<Rightarrow> unstructured" where
  "identified name u = u\<lparr>un_meta := (un_meta u)\<lparr>meta_annotations :=
     (meta_annotations (un_meta u))(annRestoreIdentifier \<mapsto> name)\<rparr>\<rparr>"

definition restoreIdentificationMutation_handle :: "'c mhandler \<Rightarrow> 'c rindexer \<Rightarrow> 'c mhandler" where
  "restoreIdentificationMutation_handle nxt ix restore = seq (do {
     us \<leftarrow> look (ix_List ix);
     each (\<lambda>u. if exempt u then State_Monad.return Ok
       else let u' = identified (rs_nm restore) u in
         do { assign ix u'; replace ix ''restore identification mutation. '' u' u' }) us }) (nxt restore)"

section \<open>restorehelper.go\<close>

text \<open>Loops that may panic, or end with a nil object (\<open>Ret None\<close>).\<close>

fun ofold :: "('a \<Rightarrow> 's \<Rightarrow> 's option outcome) \<Rightarrow> 'a list \<Rightarrow> 's \<Rightarrow> 's option outcome" where
  "ofold f [] s = Ret (Some s)"
| "ofold f (x # xs) s = (case f x s of Panic \<Rightarrow> Panic | Ret None \<Rightarrow> Ret None | Ret (Some s') \<Rightarrow> ofold f xs s')"

definition spec_path :: "unstructured \<Rightarrow> string \<Rightarrow> string list" where
  "spec_path u field = (if un_kind u = Pod_kind then [''spec'', field] else [''spec'', ''template'', ''spec'', field])"

definition serviceAccountSectionUpdate :: "mut_env \<Rightarrow> string \<Rightarrow> unstructured \<Rightarrow> unstructured option" where
  "serviceAccountSectionUpdate env prefix u =
     (case get_opt (mu_NestedString env u (spec_path u ''serviceAccountName'')) of
        None \<Rightarrow> Some u
      | Some sa \<Rightarrow> if sa = ''default'' then Some u
         else (case mu_SetNestedField env u (prefix @ sa) (spec_path u ''serviceAccountName'') of
                 (u', None) \<Rightarrow> Some u' | (u', Some err) \<Rightarrow> None))"

definition as_map :: "json \<Rightarrow> (string \<rightharpoonup> json) outcome" where
  "as_map v = (case v of JObj m \<Rightarrow> Ret m | _ \<Rightarrow> Panic)"

text \<open>\<^verbatim>\<open>v[section][field] = prefix + v[section][field]\<close>, when the section is there.\<close>

definition prefix_ref :: "string \<Rightarrow> string \<Rightarrow> string \<Rightarrow> json \<Rightarrow> json option outcome" where
  "prefix_ref prefix section field v = (case as_map v of Panic \<Rightarrow> Panic
     | Ret m \<Rightarrow> (case m section of None \<Rightarrow> Ret None | Some x \<Rightarrow>
         if is_null x then Ret None
         else (case as_map x of Panic \<Rightarrow> Panic
           | Ret r \<Rightarrow> (case r field of
               Some (JStr n) \<Rightarrow> Ret (Some (JObj (m(section \<mapsto> JObj (r(field \<mapsto> JStr (prefix @ n)))))))
             | _ \<Rightarrow> Panic))))"

definition set_slice ::
  "mut_env \<Rightarrow> string list \<Rightarrow> json list \<Rightarrow> unstructured \<Rightarrow> (json list \<times> unstructured) option" where
  "set_slice env path vs u = (case mu_SetNestedSlice env u vs path of
     (u', None) \<Rightarrow> Some (vs, u') | (u', Some err) \<Rightarrow> None)"

definition volume_step ::
  "mut_env \<Rightarrow> string list \<Rightarrow> string \<Rightarrow> nat \<times> string \<times> string \<Rightarrow> json list \<times> unstructured \<Rightarrow>
   (json list \<times> unstructured) option outcome" where
  "volume_step env path prefix ref st = (case (ref, st) of ((i, section, field), (vs, u)) \<Rightarrow>
     (case prefix_ref prefix section field (vs ! i) of Panic \<Rightarrow> Panic
      | Ret None \<Rightarrow> Ret (Some (vs, u))
      | Ret (Some v') \<Rightarrow> Ret (set_slice env path (vs[i := v']) u)))"

definition volumesSectionUpdate ::
  "mut_env \<Rightarrow> string \<Rightarrow> json list option \<Rightarrow> unstructured \<Rightarrow> unstructured option outcome" where
  "volumesSectionUpdate env prefix volumes u = (case volumes of None \<Rightarrow> Ret None
     | Some vs \<Rightarrow> (case ofold (volume_step env (spec_path u ''volumes'') prefix)
           (concat (map (\<lambda>i. [(i, ''configMap'', ''name''), (i, ''secret'', ''secretName''),
              (i, ''persistentVolumeClaim'', ''claimName'')]) [0..<length vs])) (vs, u) of
          Panic \<Rightarrow> Panic | Ret None \<Rightarrow> Ret None | Ret (Some (_, u')) \<Rightarrow> Ret (Some u')))"

definition pod_content :: "mut_env \<Rightarrow> string \<Rightarrow> string list \<Rightarrow> unstructured \<Rightarrow> unstructured option outcome" where
  "pod_content env prefix path u0 = (case serviceAccountSectionUpdate env prefix u0 of None \<Rightarrow> Ret None
     | Some u \<Rightarrow> (case get_opt (mu_NestedSlice env u path) of
         None \<Rightarrow> Ret (Some u) | Some volumes \<Rightarrow> volumesSectionUpdate env prefix volumes u))"

definition updatePodContent :: "mut_env \<Rightarrow> string \<Rightarrow> unstructured \<Rightarrow> unstructured option outcome" where
  "updatePodContent env prefix u = pod_content env prefix [''spec'', ''volumes''] u"

definition updateDeploymentContent :: "mut_env \<Rightarrow> string \<Rightarrow> unstructured \<Rightarrow> unstructured option outcome" where
  "updateDeploymentContent env prefix u = pod_content env prefix [''spec'', ''template'', ''spec'', ''volumes''] u"

definition updatePVCContent :: "mut_env \<Rightarrow> string \<Rightarrow> unstructured \<Rightarrow> unstructured option" where
  "updatePVCContent env prefix u = (case get_opt (mu_NestedString env u [''spec'', ''storageClassName'']) of
     None \<Rightarrow> Some u
   | Some sc \<Rightarrow> if sc \<noteq> [] then
        (case mu_SetNestedField env u (prefix @ sc) [''spec'', ''storageClassName''] of
           (u', None) \<Rightarrow> Some u' | (u', Some err) \<Rightarrow> None)
      else Some u)"

text \<open>\<^verbatim>\<open>v[outer][inner] = s\<close> on a nested map.\<close>

definition put_in :: "string \<Rightarrow> string \<Rightarrow> string \<Rightarrow> (string \<rightharpoonup> json) \<Rightarrow> (string \<rightharpoonup> json) outcome" where
  "put_in outer inner s m = (case m outer of None \<Rightarrow> Panic | Some x \<Rightarrow> (case as_map x of Panic \<Rightarrow> Panic
     | Ret r \<Rightarrow> Ret (m(outer \<mapsto> JObj (r(inner \<mapsto> JStr s))))))"

text \<open>A template without a name or storage class ends the loop with the object as it is then.\<close>

fun volumeClaimTemplates_loop ::
  "mut_env \<Rightarrow> string \<Rightarrow> nat list \<Rightarrow> json list \<Rightarrow> unstructured \<Rightarrow> unstructured option outcome" where
  "volumeClaimTemplates_loop env prefix [] vs u = Ret (Some u)"
| "volumeClaimTemplates_loop env prefix (i # is) vs u = (case as_map (vs ! i) of Panic \<Rightarrow> Panic
     | Ret m \<Rightarrow> (case get_opt (mj_NestedString env m [''metadata'', ''name'']) of None \<Rightarrow> Ret (Some u)
     | Some pvcName \<Rightarrow> (case put_in ''metadata'' ''name'' (prefix @ pvcName) m of Panic \<Rightarrow> Panic
     | Ret m1 \<Rightarrow> (case set_slice env [''spec'', ''volumeClaimTemplates''] (vs[i := JObj m1]) u of None \<Rightarrow> Ret None
     | Some (vs1, u1) \<Rightarrow> (case get_opt (mj_NestedString env m1 [''spec'', ''storageClassName'']) of None \<Rightarrow> Ret (Some u1)
     | Some sc \<Rightarrow> (case put_in ''spec'' ''storageClassName'' (prefix @ sc) m1 of Panic \<Rightarrow> Panic
     | Ret m2 \<Rightarrow> (case set_slice env [''spec'', ''volumeClaimTemplates''] (vs1[i := JObj m2]) u1 of None \<Rightarrow> Ret None
     | Some (vs2, u2) \<Rightarrow> volumeClaimTemplates_loop env prefix is vs2 u2)))))))"

definition volumeClaimTemplatesUpdate ::
  "mut_env \<Rightarrow> string \<Rightarrow> json list option \<Rightarrow> unstructured \<Rightarrow> unstructured option outcome" where
  "volumeClaimTemplatesUpdate env prefix templates u = (case templates of None \<Rightarrow> Ret None
     | Some vs \<Rightarrow> volumeClaimTemplates_loop env prefix [0..<length vs] vs u)"

text \<open>The mounts of one container; \<open>Ret None\<close> when a mount has no name.\<close>

fun prefix_mounts :: "mut_env \<Rightarrow> string \<Rightarrow> json list \<Rightarrow> json list option outcome" where
  "prefix_mounts env prefix [] = Ret (Some [])"
| "prefix_mounts env prefix (x # xs) = (case as_map x of Panic \<Rightarrow> Panic
     | Ret m \<Rightarrow> (case get_opt (mj_NestedString env m [''name'']) of None \<Rightarrow> Ret None
     | Some vname \<Rightarrow> (case prefix_mounts env prefix xs of Panic \<Rightarrow> Panic | Ret None \<Rightarrow> Ret None
     | Ret (Some ys) \<Rightarrow> Ret (Some (JObj (m(''name'' \<mapsto> JStr (prefix @ vname))) # ys)))))"

text \<open>The object may be nil here; storing into it is a nil dereference.\<close>

fun containers_loop ::
  "mut_env \<Rightarrow> string \<Rightarrow> nat list \<Rightarrow> json list \<Rightarrow> unstructured option \<Rightarrow> unstructured option outcome" where
  "containers_loop env prefix [] cs u = Ret u"
| "containers_loop env prefix (i # is) cs u = (case as_map (cs ! i) of Panic \<Rightarrow> Panic
     | Ret m \<Rightarrow> (case get_opt (mj_NestedSlice env m [''volumeMounts'']) of None \<Rightarrow> Ret u
     | Some vmounts \<Rightarrow> (case prefix_mounts env prefix (case vmounts of None \<Rightarrow> [] | Some ms \<Rightarrow> ms) of Panic \<Rightarrow> Panic
     | Ret None \<Rightarrow> Ret u
     | Ret (Some ms) \<Rightarrow> (case u of None \<Rightarrow> Panic
     | Some o1 \<Rightarrow> (case set_slice env [''spec'', ''template'', ''spec'', ''containers'']
                    (cs[i := JObj (m(''volumeMounts'' \<mapsto> JList ms))]) o1 of None \<Rightarrow> Ret None
     | Some (cs', o2) \<Rightarrow> containers_loop env prefix is cs' (Some o2))))))"

definition containersSectionUpdate ::
  "mut_env \<Rightarrow> string \<Rightarrow> json list option \<Rightarrow> unstructured option \<Rightarrow> unstructured option outcome" where
  "containersSectionUpdate env prefix containers u = (case containers of None \<Rightarrow> Ret None
     | Some cs \<Rightarrow> containers_loop env prefix [0..<length cs] cs u)"

definition updateStatefulSetContent :: "mut_env \<Rightarrow> string \<Rightarrow> unstructured \<Rightarrow> unstructured option outcome" where
  "updateStatefulSetContent env prefix u0 = (case serviceAccountSectionUpdate env prefix u0 of None \<Rightarrow> Ret None
     | Some u \<Rightarrow> (case get_opt (mu_NestedSlice env u [''spec'', ''volumeClaimTemplates'']) of None \<Rightarrow> Ret (Some u)
     | Some templates \<Rightarrow> (case get_opt (mu_NestedSlice env u [''spec'', ''template'', ''spec'', ''containers'']) of
         None \<Rightarrow> Ret (Some u)
     | Some containers \<Rightarrow> (case volumeClaimTemplatesUpdate env prefix templates u of Panic \<Rightarrow> Panic
     | Ret u' \<Rightarrow> containersSectionUpdate env prefix containers u'))))"

section \<open>The name prefix\<close>

fun Itoa :: "nat \<Rightarrow> string" where
  "Itoa n = (if n < 10 then [char_of (48 + n)] else Itoa (n div 10) @ [char_of (48 + n mod 10)])"

declare Itoa.simps [simp del]

text \<open>The names of the claims a stateful set creates, with their names after the restore. The first
  component tells whether the loop ran to its end.\<close>

definition claim_names :: "string \<Rightarrow> string \<Rightarrow> string \<Rightarrow> nat \<Rightarrow> (string \<rightharpoonup> string) \<Rightarrow> string \<rightharpoonup> string" where
  "claim_names prefix claimName sts replicas m0 = fold (\<lambda>r m.
     let k = claimName @ ''-'' @ sts @ ''-'' @ Itoa r in
     if m k \<noteq> None then m else m(k \<mapsto> prefix @ claimName @ ''-'' @ prefix @ sts @ ''-'' @ Itoa r)) [0..<replicas] m0"

fun template_claims ::
  "mut_env \<Rightarrow> string \<Rightarrow> string \<Rightarrow> nat \<Rightarrow> json list \<Rightarrow> (string \<rightharpoonup> string) \<Rightarrow> (bool \<times> (string \<rightharpoonup> string)) outcome" where
  "template_claims env prefix sts replicas [] m = Ret (True, m)"
| "template_claims env prefix sts replicas (t # ts) m = (case as_map t of Panic \<Rightarrow> Panic
     | Ret v \<Rightarrow> (case get_opt (mj_NestedString env v [''metadata'', ''name'']) of None \<Rightarrow> Ret (False, m)
     | Some claimName \<Rightarrow> template_claims env prefix sts replicas ts (claim_names prefix claimName sts replicas m)))"

fun statefulSet_scan ::
  "mut_env \<Rightarrow> string \<Rightarrow> bool \<Rightarrow> (string \<rightharpoonup> string) \<Rightarrow> unstructured list \<Rightarrow> (bool \<times> (string \<rightharpoonup> string)) outcome" where
  "statefulSet_scan env prefix found m [] = Ret (found, m)"
| "statefulSet_scan env prefix found m (u # us) =
     (if un_kind u = StatefulSet_kind then
        (case get_opt (mu_NestedInt64 env u [''spec'', ''replicas'']) of None \<Rightarrow> Ret (False, m)
         | Some replicas \<Rightarrow> (case get_opt (mu_NestedSlice env u [''spec'', ''volumeClaimTemplates'']) of None \<Rightarrow> Ret (False, m)
         | Some ts \<Rightarrow> (case template_claims env prefix (meta_name (un_meta u)) (nat replicas)
                          (case ts of None \<Rightarrow> [] | Some l \<Rightarrow> l) m of
              Panic \<Rightarrow> Panic
            | Ret (complete, m') \<Rightarrow> if complete then statefulSet_scan env prefix True m' us else Ret (False, m'))))
      else statefulSet_scan env prefix found m us)"

definition isStatefulSetPresent :: "mut_env \<Rightarrow> string \<Rightarrow> unstructured list \<Rightarrow> (bool \<times> (string \<rightharpoonup> string)) outcome" where
  "isStatefulSetPresent env prefix us = statefulSet_scan env prefix False Map.empty us"

definition set_un_name :: "string \<Rightarrow> unstructured \<Rightarrow> unstructured" where
  "set_un_name n u = u\<lparr>un_meta := (un_meta u)\<lparr>meta_name := n\<rparr>\<rparr>"

definition new_name :: "string \<Rightarrow> bool \<Rightarrow> (string \<rightharpoonup> string) \<Rightarrow> unstructured \<Rightarrow> string" where
  "new_name prefix present claims u = (case claims (meta_name (un_meta u)) of
     Some n \<Rightarrow> if un_kind u = PVC_kind \<and> present then n else prefix @ meta_name (un_meta u)
   | None \<Rightarrow> prefix @ meta_name (un_meta u))"

text \<open>The switch on the kind; \<open>None\<close> is its default case.\<close>

definition update_content :: "mut_env \<Rightarrow> string \<Rightarrow> unstructured \<Rightarrow> unstructured option outcome option" where
  "update_content env prefix u =
     (if un_kind u = Pod_kind then Some (updatePodContent env prefix u)
      else if un_kind u = PVC_kind then Some (Ret (updatePVCContent env prefix u))
      else if un_kind u \<in> {Deployment_kind, DaemonSet_kind, Replicaset_kind} then Some (updateDeploymentContent env prefix u)
      else if un_kind u = StatefulSet_kind then Some (updateStatefulSetContent env prefix u)
      else None)"

text \<open>A nil object is deleted from the cache and its copy added: the key function dereferences it.\<close>

definition prefix_item ::
  "mut_env \<Rightarrow> 'c rindexer \<Rightarrow> string \<Rightarrow> bool \<Rightarrow> (string \<rightharpoonup> string) \<Rightarrow> unstructured \<Rightarrow> ('c, sres) state" where
  "prefix_item env ix prefix present claims u = (if exempt u then State_Monad.return Ok
     else let u1 = set_un_name (new_name prefix present claims u) u in do {
       assign ix u1;
       (case update_content env prefix u1 of
          None \<Rightarrow> State_Monad.return Ok
        | Some Panic \<Rightarrow> State_Monad.return Crash
        | Some (Ret None) \<Rightarrow> seq (cdelete ix ''failed to delete resource from cache for prefix mutation. '' u1)
            (State_Monad.return Crash)
        | Some (Ret (Some u2)) \<Rightarrow> do { assign ix u2; replace ix ''prefix mutation. '' u2 u2 }) })"

definition prefixMutation_handle :: "mut_env \<Rightarrow> 'c rindexer \<Rightarrow> 'c mhandler" where
  "prefixMutation_handle env ix restore = (let prefix = rp_resourcePrefix (rs_spec restore) in
     if prefix = [] then State_Monad.return Ok
     else do {
       us \<leftarrow> look (ix_List ix);
       (case isStatefulSetPresent env prefix us of Panic \<Rightarrow> State_Monad.return Crash
        | Ret (present, claims) \<Rightarrow> each (prefix_item env ix prefix present claims) us) })"

definition constructMutationHandler :: "mut_env \<Rightarrow> 'c rindexer \<Rightarrow> 'c mhandler" where
  "constructMutationHandler env ix =
     namespaceMutation_handle
       (pvcMutation_handle
         (serviceMutation_handle
           (clusterRoleBindingMutation_handle
             (roleBindingMutation_handle
               (restoreIdentificationMutation_handle
                 (prefixMutation_handle env ix) ix) env ix) env ix) env ix) env ix) env ix"

section \<open>What the libraries promise\<close>

definition keeps_identity :: "unstructured \<Rightarrow> unstructured \<Rightarrow> bool" where
  "keeps_identity u u' \<longleftrightarrow> un_meta u' = un_meta u \<and> un_kind u' = un_kind u"

text \<open>Converting keeps type and metadata, storing below \<^verbatim>\<open>spec\<close> does not touch them, and ranging over a
  map visits every key once.\<close>

definition mut_laws :: "mut_env \<Rightarrow> bool" where
  "mut_laws env \<longleftrightarrow>
     (\<forall>m. finite (dom m) \<longrightarrow> distinct (map fst (mu_order env m)) \<and> map_of (mu_order env m) = m) \<and>
     (\<forall>u x. mu_toService env u = Inr x \<longrightarrow> so_kind x = un_kind u \<and> so_meta x = un_meta u) \<and>
     (\<forall>u x. mu_fromService env x = Inr u \<longrightarrow> un_kind u = so_kind x \<and> un_meta u = so_meta x) \<and>
     (\<forall>u x. mu_toClaim env u = Inr x \<longrightarrow> co_kind x = un_kind u \<and> co_meta x = un_meta u) \<and>
     (\<forall>u x. mu_fromClaim env x = Inr u \<longrightarrow> un_kind u = co_kind x \<and> un_meta u = co_meta x) \<and>
     (\<forall>u x. mu_toBinding env u = Inr x \<longrightarrow> bo_kind x = un_kind u \<and> bo_meta x = un_meta u) \<and>
     (\<forall>u x. mu_fromBinding env x = Inr u \<longrightarrow> un_kind u = bo_kind x \<and> un_meta u = bo_meta x) \<and>
     (\<forall>u v p. keeps_identity u (fst (mu_SetNestedField env u v (''spec'' # p)))) \<and>
     (\<forall>u v p. keeps_identity u (fst (mu_SetNestedSlice env u v (''spec'' # p))))"

lemma keeps_identity_refl [simp]: "keeps_identity u u"
  by (simp add: keeps_identity_def)

lemma keeps_identity_trans: "keeps_identity u v \<Longrightarrow> keeps_identity v w \<Longrightarrow> keeps_identity u w"
  by (simp add: keeps_identity_def)

lemma mut_laws_set:
  assumes "mut_laws env"
  shows "mu_SetNestedField env u v (''spec'' # p) = (u', e) \<Longrightarrow> keeps_identity u u'"
    and "set_slice env (''spec'' # p) vs u = Some (vs', u') \<Longrightarrow> keeps_identity u u'"
proof -
  have l: "keeps_identity u (fst (mu_SetNestedField env u v (''spec'' # p)))"
      "keeps_identity u (fst (mu_SetNestedSlice env u vs (''spec'' # p)))"
    using assms unfolding mut_laws_def by blast+
  show "mu_SetNestedField env u v (''spec'' # p) = (u', e) \<Longrightarrow> keeps_identity u u'" using l(1) by simp
  show "set_slice env (''spec'' # p) vs u = Some (vs', u') \<Longrightarrow> keeps_identity u u'"
    using l(2) by (auto simp: set_slice_def split: prod.splits option.splits)
qed

section \<open>The helpers keep the identity of an object\<close>

lemma spec_path_spec: "\<exists>p. spec_path u f = ''spec'' # p"
  by (auto simp: spec_path_def)

lemma serviceAccount_keeps:
  assumes "mut_laws env" "serviceAccountSectionUpdate env prefix u = Some u'"
  shows "keeps_identity u u'"
  using assms mut_laws_set(1) [OF assms(1)] spec_path_spec [of u "''serviceAccountName''"]
  by (auto simp: serviceAccountSectionUpdate_def split: option.splits if_splits prod.splits)

lemma ofold_invariant:
  assumes "\<And>x s s'. f x s = Ret (Some s') \<Longrightarrow> I s \<Longrightarrow> I s'" "ofold f xs s = Ret (Some s')" "I s"
  shows "I s'"
  using assms(2,3) by (induction xs arbitrary: s) (auto split: outcome.splits option.splits dest: assms(1))

lemma volumes_keeps:
  assumes "mut_laws env" "volumesSectionUpdate env prefix volumes u = Ret (Some u')"
  shows "keeps_identity u u'"
proof -
  obtain p where p: "spec_path u ''volumes'' = ''spec'' # p" using spec_path_spec by blast
  obtain vs vs' xs where run: "ofold (volume_step env (''spec'' # p) prefix) xs (vs, u) = Ret (Some (vs', u'))"
    using assms(2) by (auto simp: volumesSectionUpdate_def p split: option.splits outcome.splits prod.splits)
  have "keeps_identity u (snd (vs', u'))"
    by (rule ofold_invariant [OF _ run, where I = "\<lambda>s. keeps_identity u (snd s)"])
       (auto simp: volume_step_def keeps_identity_def split: prod.splits outcome.splits option.splits
         dest!: mut_laws_set(2) [OF assms(1)])
  then show ?thesis by simp
qed

lemma pod_content_keeps:
  assumes "mut_laws env" "pod_content env prefix path u = Ret (Some u')"
  shows "keeps_identity u u'"
proof -
  obtain u1 where u1: "serviceAccountSectionUpdate env prefix u = Some u1"
    using assms(2) by (auto simp: pod_content_def split: option.splits)
  then have "u' = u1 \<or> (\<exists>v. volumesSectionUpdate env prefix v u1 = Ret (Some u'))"
    using assms(2) by (auto simp: pod_content_def split: option.splits)
  then have "keeps_identity u1 u'" using volumes_keeps [OF assms(1)] by auto
  then show ?thesis using serviceAccount_keeps [OF assms(1) u1] by (rule keeps_identity_trans [rotated])
qed

lemma updatePVC_keeps:
  assumes "mut_laws env" "updatePVCContent env prefix u = Some u'"
  shows "keeps_identity u u'"
  using assms mut_laws_set(1) [OF assms(1)]
  by (auto simp: updatePVCContent_def split: option.splits if_splits prod.splits)

lemma templates_keeps:
  assumes "mut_laws env" "volumeClaimTemplates_loop env prefix is vs u = Ret (Some u')"
  shows "keeps_identity u u'"
  using assms(2)
proof (induction "is" arbitrary: vs u)
  case (Cons i "is")
  show ?case
    using Cons.prems by (auto split: outcome.splits option.splits dest!: mut_laws_set(2) [OF assms(1)] Cons.IH
      simp: keeps_identity_def)
qed simp

lemma containers_keeps:
  assumes "mut_laws env" "containers_loop env prefix is cs u = Ret (Some u')"
  shows "\<exists>o1. u = Some o1 \<and> keeps_identity o1 u'"
  using assms(2)
proof (induction "is" arbitrary: cs u)
  case (Cons i "is")
  show ?case
    using Cons.prems by (auto split: outcome.splits option.splits dest!: mut_laws_set(2) [OF assms(1)] Cons.IH
      simp: keeps_identity_def)
qed simp

lemma statefulSet_keeps:
  assumes "mut_laws env" "updateStatefulSetContent env prefix u = Ret (Some u')"
  shows "keeps_identity u u'"
  using assms(2) unfolding updateStatefulSetContent_def
  by (auto simp: containersSectionUpdate_def volumeClaimTemplatesUpdate_def keeps_identity_def
      split: option.splits outcome.splits
      dest!: serviceAccount_keeps [OF assms(1)] containers_keeps [OF assms(1)] templates_keeps [OF assms(1)])

lemma update_content_keeps:
  assumes "mut_laws env" "update_content env prefix u = Some (Ret (Some u'))"
  shows "keeps_identity u u'"
  using assms(2) pod_content_keeps [OF assms(1)] updatePVC_keeps [OF assms(1)] statefulSet_keeps [OF assms(1)]
  by (auto simp: update_content_def updatePodContent_def updateDeploymentContent_def split: if_splits)

section \<open>Handlers change the cache entry by entry\<close>

definition pointwise ::
  "(unstructured \<Rightarrow> unstructured \<Rightarrow> bool) \<Rightarrow> (string \<rightharpoonup> unstructured) \<Rightarrow> (string \<rightharpoonup> unstructured) \<Rightarrow> bool" where
  "pointwise E m m' \<longleftrightarrow> (\<forall>k. rel_option E (m k) (m' k))"

definition mutates ::
  "('c \<Rightarrow> string \<rightharpoonup> unstructured) \<Rightarrow> (unstructured \<Rightarrow> unstructured \<Rightarrow> bool) \<Rightarrow> ('c, sres) state \<Rightarrow> bool" where
  "mutates its E m \<longleftrightarrow> (\<forall>c c'. keyed its c \<longrightarrow> run_state m c = (Ok, c') \<longrightarrow>
     keyed its c' \<and> pointwise E (its c) (its c'))"

lemma mutatesD:
  assumes "mutates its E m" "keyed its c" "run_state m c = (Ok, c')"
  shows "keyed its c'" "pointwise E (its c) (its c')"
  using assms by (simp_all add: mutates_def)

lemma mutates_seq:
  assumes "mutates its E m" "mutates its F n"
  shows "mutates its (E OO F) (seq m n)"
  unfolding mutates_def
proof (intro allI impI)
  fix c c' assume k: "keyed its c" and run: "run_state (seq m n) c = (Ok, c')"
  obtain r c1 where m: "run_state m c = (r, c1)" by fastforce
  then have r: "r = Ok" "run_state n c1 = (Ok, c')" using run by (auto simp: seq_def split: if_splits)
  have 1: "keyed its c1" "pointwise E (its c) (its c1)" using mutatesD [OF assms(1) k] m r(1) by simp_all
  have 2: "keyed its c'" "pointwise F (its c1) (its c')" by (rule mutatesD [OF assms(2) 1(1) r(2)])+
  have "rel_option (E OO F) (its c k) (its c' k)" for k
    using 1(2) 2(2) unfolding pointwise_def option.rel_compp by blast
  then show "keyed its c' \<and> pointwise (E OO F) (its c) (its c')" using 2(1) by (simp add: pointwise_def)
qed

lemma pointwise_mono: "pointwise E m m' \<Longrightarrow> (\<And>u u'. E u u' \<Longrightarrow> F u u') \<Longrightarrow> pointwise F m m'"
  unfolding pointwise_def by (meson option.rel_mono_strong)

lemma mutates_weaken:
  assumes "mutates its E m" "\<And>u u'. E u u' \<Longrightarrow> F u u'"
  shows "mutates its F m"
  unfolding mutates_def
proof (intro allI impI conjI)
  fix c c' assume c: "keyed its c" "run_state m c = (Ok, c')"
  show "keyed its c'" by (rule mutatesD(1) [OF assms(1) c])
  show "pointwise F (its c) (its c')" by (rule pointwise_mono [OF mutatesD(2) [OF assms(1) c] assms(2)])
qed

lemma mutates_nothing: "mutates its (=) (State_Monad.return Ok)"
  by (auto simp: mutates_def pointwise_def option.rel_eq)

text \<open>A step that, when it ends well, has stored \<open>g u\<close> under the key of \<open>u\<close> (\<open>None\<close>: nothing).\<close>

definition stores ::
  "('c \<Rightarrow> string \<rightharpoonup> unstructured) \<Rightarrow> (unstructured \<Rightarrow> unstructured option) \<Rightarrow> (unstructured \<Rightarrow> ('c, sres) state) \<Rightarrow> bool" where
  "stores its g f \<longleftrightarrow> (\<forall>u u'. g u = Some u' \<longrightarrow> un_uid u' = un_uid u) \<and>
     (\<forall>u c c'. run_state (f u) c = (Ok, c') \<longrightarrow> (case g u of None \<Rightarrow> its c' = its c
        | Some u' \<Rightarrow> its c' = (its c)(un_uid u \<mapsto> u')))"

definition overlay ::
  "(string \<rightharpoonup> unstructured) \<Rightarrow> (unstructured \<Rightarrow> unstructured option) \<Rightarrow> unstructured set \<Rightarrow> string \<rightharpoonup> unstructured" where
  "overlay m g S = (\<lambda>k. case m k of None \<Rightarrow> None
     | Some u \<Rightarrow> Some (if u \<in> S then (case g u of None \<Rightarrow> u | Some u' \<Rightarrow> u') else u))"

lemma overlay_step:
  assumes "keyed id m" "u \<in> ran m"
  shows "overlay m g (insert u S) = (case g u of None \<Rightarrow> overlay m g S | Some u' \<Rightarrow> (overlay m g S)(un_uid u \<mapsto> u'))"
proof -
  have u: "m (un_uid u) = Some u" using assms by (auto simp: keyed_def ran_def)
  have o: "v \<noteq> u" if "m k = Some v" "k \<noteq> un_uid u" for k v using that assms(1) by (auto simp: keyed_def)
  show ?thesis using u o by (fastforce simp: overlay_def fun_eq_iff split: option.splits)
qed

lemma each_overlay:
  assumes st: "stores its g f" and m: "keyed id m" "set us \<subseteq> ran m"
    and run: "run_state (each f us) c = (Ok, c')" and c: "its c = overlay m g S"
  shows "its c' = overlay m g (S \<union> set us)"
  using m(2) run c
proof (induction us arbitrary: c S)
  case (Cons u us)
  obtain r c1 where f: "run_state (f u) c = (r, c1)" by fastforce
  then have r: "r = Ok" "run_state (each f us) c1 = (Ok, c')" using Cons.prems(2) by (auto simp: seq_def split: if_splits)
  have "case g u of None \<Rightarrow> its c1 = its c | Some u' \<Rightarrow> its c1 = (its c)(un_uid u \<mapsto> u')"
    using st f r(1) unfolding stores_def by blast
  then have "its c1 = overlay m g (insert u S)"
    using overlay_step [OF m(1), of u g S] Cons.prems(1,3) by (auto split: option.splits)
  then show ?case using Cons.IH [OF _ r(2)] Cons.prems(1) by (simp add: insert_commute)
qed simp

definition chosen :: "(unstructured \<Rightarrow> bool) \<Rightarrow> (unstructured \<Rightarrow> unstructured option) \<Rightarrow> unstructured \<Rightarrow> unstructured" where
  "chosen P g u = (if P u then (case g u of None \<Rightarrow> u | Some u' \<Rightarrow> u') else u)"

lemma loop_mutates:
  assumes st: "stores its g f" and sel: "\<And>c. set (sel c) = {u \<in> ran (its c). P u}"
  shows "mutates its (\<lambda>u u'. u' = chosen P g u) (do { us \<leftarrow> look sel; each f us })"
  unfolding mutates_def
proof (intro allI impI)
  fix c c' assume k: "keyed its c" and run: "run_state (do { us \<leftarrow> look sel; each f us }) c = (Ok, c')"
  have k': "keyed id (its c)" using k by (simp add: keyed_def)
  have uid: "un_uid (chosen P g u) = un_uid u" for u
    using st by (auto simp: stores_def chosen_def split: option.splits)
  have "its c = overlay (its c) g {}" by (auto simp: overlay_def fun_eq_iff split: option.splits)
  then have "its c' = overlay (its c) g ({} \<union> set (sel c))"
    using run sel by (intro each_overlay [OF st k']) (auto simp: look_def)
  then have eq: "its c' k = map_option (chosen P g) (its c k)" for k
    using sel by (auto simp: overlay_def chosen_def ran_def split: option.splits)
  then show "keyed its c' \<and> pointwise (\<lambda>u u'. u' = chosen P g u) (its c) (its c')"
    using k uid by (auto simp: keyed_def pointwise_def option.rel_map intro: option.rel_refl)
qed

section \<open>The handlers\<close>

lemma run_cadd:
  assumes "rindexer_laws ix its" "run_state (cadd ix msg u) c = (r, c1)"
  shows "r = Ok" "its c1 = (its c)(un_uid u \<mapsto> u)"
  using assms rlaws(1,2) [OF assms(1), of u c] by (auto simp: cadd_def split: prod.splits)

lemma run_cdelete:
  assumes "rindexer_laws ix its" "run_state (cdelete ix msg u) c = (r, c1)"
  shows "r = Ok" "its c1 = (its c)(un_uid u := None)"
  using assms rlaws(3,4) [OF assms(1), of u c] by (auto simp: cdelete_def split: prod.splits)

lemma run_assign:
  assumes "rindexer_laws ix its" "run_state (assign ix u) c = (r, c1)"
  shows "its c1 = (its c)(un_uid u \<mapsto> u)"
  using assms rlaws(2) [OF assms(1), of u c] by (auto simp: assign_def upd_def)

lemma run_replace:
  assumes "rindexer_laws ix its" "un_uid u' = un_uid u" "run_state (replace ix what u u') c = (r, c1)"
  shows "r = Ok" "its c1 = (its c)(un_uid u \<mapsto> u')"
proof -
  let ?d = "''failed to delete resource from cache for '' @ what" and ?a = "''failed to add resource in cache for '' @ what"
  obtain r1 c2 where d: "run_state (cdelete ix ?d u) c = (r1, c2)" by fastforce
  note d' = run_cdelete [OF assms(1) d]
  obtain r2 c3 where a: "run_state (cadd ix ?a u') c2 = (r2, c3)" by fastforce
  note a' = run_cadd [OF assms(1) a]
  have "r = r2" "c1 = c3" using assms(3) d a d'(1) by (auto simp: replace_def seq_def)
  then show "r = Ok" "its c1 = (its c)(un_uid u \<mapsto> u')" using a' d'(2) assms(2) by simp_all
qed

lemma run_assign_replace:
  assumes "rindexer_laws ix its" "un_uid u' = un_uid u"
    and "run_state (do { assign ix u'; replace ix what u' u' }) c = (r, c1)"
  shows "its c1 = (its c)(un_uid u \<mapsto> u')"
proof -
  obtain x c2 where a: "run_state (assign ix u') c = (x, c2)" by (metis surj_pair)
  then have "run_state (replace ix what u' u') c2 = (r, c1)" using assms(3) by simp
  then show ?thesis using run_replace(2) [OF assms(1) refl] run_assign [OF assms(1) a] assms(2) by simp
qed

lemma un_uid_set [simp]:
  "un_uid (set_un_namespace ns u) = un_uid u" "un_uid (set_un_name n u) = un_uid u" "un_uid (identified n u) = un_uid u"
  by (simp_all add: set_un_namespace_def set_un_name_def identified_def)

lemma namespace_stores:
  assumes "rindexer_laws ix its"
  shows "stores its (\<lambda>u. Some (set_un_namespace ns u)) (\<lambda>u. replace ix what u (set_un_namespace ns u))"
  unfolding stores_def using run_replace(2) [OF assms un_uid_set(1)] by simp

definition conv_result ::
  "(unstructured \<Rightarrow> goerr + 'o) \<Rightarrow> ('o \<Rightarrow> goerr + unstructured) \<Rightarrow> ('o \<Rightarrow> 'o) \<Rightarrow> unstructured \<Rightarrow> unstructured option" where
  "conv_result to from f u = (case to u of Inl _ \<Rightarrow> None | Inr x \<Rightarrow> (case from (f x) of Inl _ \<Rightarrow> None | Inr u' \<Rightarrow> Some u'))"

lemma typed_stores:
  assumes laws: "rindexer_laws ix its"
    and uid: "\<And>u u'. conv_result to from f u = Some u' \<Longrightarrow> un_uid u' = un_uid u"
  shows "stores its (conv_result to from f) (mutate_typed to from f ix what)"
  unfolding stores_def
proof (intro conjI allI impI)
  fix u c c' assume run: "run_state (mutate_typed to from f ix what u) c = (Ok, c')"
  then obtain x where x: "to u = Inr x" by (auto simp: mutate_typed_def split: sum.splits)
  let ?d = "''failed to delete resource from cache for '' @ what" and ?a = "''failed to add resource in cache for '' @ what"
  obtain r1 c2 where d: "run_state (cdelete ix ?d u) c = (r1, c2)" by fastforce
  note d' = run_cdelete [OF laws d]
  obtain u' where u': "from (f x) = Inr u'" "run_state (cadd ix ?a u') c2 = (Ok, c')"
    using run x d d'(1) by (auto simp: mutate_typed_def seq_def split: sum.splits)
  have g: "conv_result to from f u = Some u'" using x u'(1) by (simp add: conv_result_def)
  then show "case conv_result to from f u of None \<Rightarrow> its c' = its c | Some u' \<Rightarrow> its c' = (its c)(un_uid u \<mapsto> u')"
    using run_cadd(2) [OF laws u'(2)] d'(2) uid [OF g] by simp
qed (rule uid)

lemma role_stores:
  assumes laws: "rindexer_laws ix its"
    and uid: "\<And>u u'. conv_result (mu_toBinding env) (mu_fromBinding env) (mutate_binding k restore) u = Some u' \<Longrightarrow> un_uid u' = un_uid u"
  shows "stores its (conv_result (mu_toBinding env) (mu_fromBinding env) (mutate_binding k restore)) (mutate_role env k restore ix what)"
  unfolding stores_def
proof (intro conjI allI impI)
  fix u c c' assume run: "run_state (mutate_role env k restore ix what u) c = (Ok, c')"
  then obtain b u' where b: "mu_toBinding env u = Inr b" "mu_fromBinding env (mutate_binding k restore b) = Inr u'"
    by (auto simp: mutate_role_def split: sum.splits)
  then have g: "conv_result (mu_toBinding env) (mu_fromBinding env) (mutate_binding k restore) u = Some u'"
    by (simp add: conv_result_def)
  have "run_state (do { assign ix u'; replace ix what u' u' }) c = (Ok, c')" using run b by (simp add: mutate_role_def)
  then show "case conv_result (mu_toBinding env) (mu_fromBinding env) (mutate_binding k restore) u of None \<Rightarrow> its c' = its c
      | Some u' \<Rightarrow> its c' = (its c)(un_uid u \<mapsto> u')"
    using run_assign_replace [OF laws uid [OF g]] g by simp
qed (rule uid)

lemma identified_stores:
  assumes "rindexer_laws ix its"
  shows "stores its (\<lambda>u. if exempt u then None else Some (identified name u))
     (\<lambda>u. if exempt u then State_Monad.return Ok
       else let u' = identified name u in do { assign ix u'; replace ix what u' u' })"
  unfolding stores_def using run_assign_replace [OF assms un_uid_set(3)] by (auto simp: Let_def)

definition prefix_result ::
  "mut_env \<Rightarrow> string \<Rightarrow> bool \<Rightarrow> (string \<rightharpoonup> string) \<Rightarrow> unstructured \<Rightarrow> unstructured option" where
  "prefix_result env prefix present claims u = (if exempt u then None
     else let u1 = set_un_name (new_name prefix present claims u) u in
       case update_content env prefix u1 of Some (Ret (Some u2)) \<Rightarrow> Some u2 | _ \<Rightarrow> Some u1)"

lemma prefix_result_keeps:
  assumes "mut_laws env" "prefix_result env prefix present claims u = Some u'"
  shows "keeps_identity (set_un_name (new_name prefix present claims u) u) u'"
  using assms update_content_keeps [OF assms(1)]
  by (auto simp: prefix_result_def Let_def split: if_splits option.splits outcome.splits)

lemma prefix_stores:
  assumes laws: "rindexer_laws ix its" and env: "mut_laws env"
  shows "stores its (prefix_result env prefix present claims) (prefix_item env ix prefix present claims)"
  unfolding stores_def
proof (intro conjI allI impI)
  fix u u' assume "prefix_result env prefix present claims u = Some u'"
  from prefix_result_keeps [OF env this] show "un_uid u' = un_uid u" by (simp add: keeps_identity_def set_un_name_def)
next
  fix u c c' assume run: "run_state (prefix_item env ix prefix present claims u) c = (Ok, c')"
  let ?u1 = "set_un_name (new_name prefix present claims u) u"
  show "case prefix_result env prefix present claims u of None \<Rightarrow> its c' = its c | Some u' \<Rightarrow> its c' = (its c)(un_uid u \<mapsto> u')"
  proof (cases "exempt u")
    case False
    obtain x c1 where a: "run_state (assign ix ?u1) c = (x, c1)" by (metis surj_pair)
    have i1: "its c1 = (its c)(un_uid u \<mapsto> ?u1)" using run_assign [OF laws a] by simp
    have "update_content env prefix ?u1 = None \<or> (\<exists>u2. update_content env prefix ?u1 = Some (Ret (Some u2)))"
      using run a False run_cdelete(1) [OF laws]
      by (auto simp: prefix_item_def Let_def seq_def split: option.splits outcome.splits if_splits prod.splits)
    then show ?thesis
    proof
      assume n: "update_content env prefix ?u1 = None"
      then have "c' = c1" using run a False by (simp add: prefix_item_def Let_def)
      then show ?thesis using n i1 False by (simp add: prefix_result_def Let_def)
    next
      assume "\<exists>u2. update_content env prefix ?u1 = Some (Ret (Some u2))"
      then obtain u2 where u2: "update_content env prefix ?u1 = Some (Ret (Some u2))" ..
      have uid: "un_uid u2 = un_uid u" using update_content_keeps [OF env u2] by (simp add: keeps_identity_def set_un_name_def)
      have "run_state (do { assign ix u2; replace ix ''prefix mutation. '' u2 u2 }) c1 = (Ok, c')"
        using run a False u2 by (simp add: prefix_item_def Let_def)
      then have "its c' = (its c1)(un_uid u \<mapsto> u2)" by (rule run_assign_replace [OF laws uid])
      then show ?thesis using u2 i1 False by (simp add: prefix_result_def Let_def)
    qed
  qed (use run in \<open>simp add: prefix_item_def prefix_result_def\<close>)
qed

text \<open>What each handler does to one object.\<close>

definition mapped_to :: "(string \<rightharpoonup> string) \<Rightarrow> unstructured \<Rightarrow> unstructured" where
  "mapped_to m u = (if meta_namespace (un_meta u) = [] then u
     else (case m (meta_namespace (un_meta u)) of None \<Rightarrow> u | Some ns \<Rightarrow> set_un_namespace ns u))"

definition chain_free :: "(string \<rightharpoonup> string) \<Rightarrow> bool" where
  "chain_free m \<longleftrightarrow> (\<forall>old new. m old = Some new \<longrightarrow> new = old \<or> m new = None)"

lemma map_namespace_mutates:
  assumes "rindexer_laws ix its"
  shows "mutates its (\<lambda>u u'. u' = mapped_to [old \<mapsto> new] u) (map_namespace ix (old, new))"
proof -
  have "mutates its (\<lambda>u u'. u' = chosen (\<lambda>u. meta_namespace (un_meta u) \<noteq> [] \<and> meta_namespace (un_meta u) = old)
      (\<lambda>u. Some (set_un_namespace new u)) u) (map_namespace ix (old, new))"
    unfolding map_namespace_def fst_conv snd_conv
    by (rule loop_mutates [OF namespace_stores [OF assms]])
       (auto simp: rlaws(6) [OF assms] restoreNamespaceIndex_def)
  then show ?thesis by (rule mutates_weaken) (auto simp: chosen_def mapped_to_def split: if_splits)
qed

lemma mapped_to_Cons:
  assumes "old \<notin> fst ` set kvs" "new = old \<or> new \<notin> fst ` set kvs"
  shows "mapped_to (map_of kvs) (mapped_to [old \<mapsto> new] u) = mapped_to (map_of ((old, new) # kvs)) u"
proof -
  have none: "map_of kvs old = None" "map_of kvs new = None" using assms by (auto simp: map_of_eq_None_iff)
  show ?thesis using none by (auto simp: mapped_to_def set_un_namespace_def split: option.splits)
qed

lemma namespaces_mutate:
  assumes "rindexer_laws ix its" "distinct (map fst kvs)"
    and "\<forall>(old, new) \<in> set kvs. new = old \<or> new \<notin> fst ` set kvs"
  shows "mutates its (\<lambda>u u'. u' = mapped_to (map_of kvs) u) (each (map_namespace ix) kvs)"
  using assms(2,3)
proof (induction kvs)
  case Nil
  have "mutates its (=) (State_Monad.return Ok)" by (rule mutates_nothing)
  then show ?case by (auto elim: mutates_weaken simp: mapped_to_def)
next
  case (Cons kv kvs)
  obtain old new where kv: "kv = (old, new)" by fastforce
  have d: "old \<notin> fst ` set kvs" "new = old \<or> new \<notin> fst ` set kvs" using Cons.prems kv by auto
  have IH: "mutates its (\<lambda>u u'. u' = mapped_to (map_of kvs) u) (each (map_namespace ix) kvs)"
    using Cons.prems by (intro Cons.IH) auto
  have "mutates its (\<lambda>u u'. u' = mapped_to (map_of (kv # kvs)) u) (seq (map_namespace ix kv) (each (map_namespace ix) kvs))"
    unfolding kv by (rule mutates_weaken [OF mutates_seq [OF map_namespace_mutates [OF assms(1)] IH]])
      (auto simp: OO_def mapped_to_Cons [OF d] simp del: map_of.simps)
  then show ?case by (simp only: each.simps)
qed

lemma conv_results_keep:
  assumes "mut_laws env"
  shows "conv_result (mu_toService env) (mu_fromService env) (mutate_service restore) u = Some u' \<Longrightarrow> keeps_identity u u'"
    and "conv_result (mu_toClaim env) (mu_fromClaim env) mutate_claim u = Some u' \<Longrightarrow> keeps_identity u u'"
    and "conv_result (mu_toBinding env) (mu_fromBinding env) (mutate_binding k restore) u = Some u' \<Longrightarrow> keeps_identity u u'"
  using assms unfolding mut_laws_def conv_result_def keeps_identity_def
  by (auto split: sum.splits simp: mutate_service_def mutate_claim_def mutate_binding_def Let_def resetNodePort_def)

lemma by_kind_mutates:
  assumes "rindexer_laws ix its" "stores its g f" "\<And>u u'. g u = Some u' \<Longrightarrow> keeps_identity u u'"
  shows "mutates its keeps_identity (by_kind ix kind f)"
proof -
  have "mutates its (\<lambda>u u'. u' = chosen (\<lambda>u. un_kind u = kind) g u) (by_kind ix kind f)"
    unfolding by_kind_def
    by (rule loop_mutates [OF assms(2)]) (auto simp: rlaws(6) [OF assms(1)] resourceIndex_def)
  then show ?thesis by (rule mutates_weaken) (auto simp: chosen_def assms(3) split: option.splits)
qed

lemma kept_uid: "keeps_identity u u' \<Longrightarrow> un_uid u' = un_uid u"
  by (simp add: keeps_identity_def)

lemma typed_mutates:
  assumes "rindexer_laws ix its" "mut_laws env"
  shows "mutates its keeps_identity (by_kind ix kind (mutate_typed (mu_toService env) (mu_fromService env) (mutate_service restore) ix what))"
    and "mutates its keeps_identity (by_kind ix kind (mutate_typed (mu_toClaim env) (mu_fromClaim env) mutate_claim ix what))"
    and "mutates its keeps_identity (by_kind ix kind (mutate_role env rk restore ix what))"
  by (rule by_kind_mutates [OF assms(1)] typed_stores [OF assms(1)] role_stores [OF assms(1)] kept_uid
      conv_results_keep [OF assms(2)] | assumption)+

lemma identification_mutates:
  assumes "rindexer_laws ix its"
  shows "mutates its (\<lambda>u u'. u' = (if exempt u then u else identified name u)) (do {
     us \<leftarrow> look (ix_List ix);
     each (\<lambda>u. if exempt u then State_Monad.return Ok
       else let u' = identified name u in do { assign ix u'; replace ix what u' u' }) us })"
proof -
  have "mutates its (\<lambda>u u'. u' = chosen (\<lambda>_. True) (\<lambda>u. if exempt u then None else Some (identified name u)) u) (do {
     us \<leftarrow> look (ix_List ix);
     each (\<lambda>u. if exempt u then State_Monad.return Ok
       else let u' = identified name u in do { assign ix u'; replace ix what u' u' }) us })"
    by (rule loop_mutates [OF identified_stores [OF assms]]) (simp add: rlaws(5) [OF assms])
  then show ?thesis by (rule mutates_weaken) (auto simp: chosen_def)
qed

text \<open>The name a prefix gives to an object: it is put before the name, or, for a claim that bears the name a
  stateful set \<open>s\<close> among \<open>sts\<close> gives to the claims of a template, before the name of the template and that
  of the set, so that the restored set finds it.\<close>

definition renamed :: "string \<Rightarrow> string set \<Rightarrow> unstructured \<Rightarrow> string \<Rightarrow> bool" where
  "renamed prefix sts u name \<longleftrightarrow> name = prefix @ meta_name (un_meta u) \<or>
     un_kind u = PVC_kind \<and> (\<exists>claim s. \<exists>r::nat. s \<in> sts \<and> meta_name (un_meta u) = claim @ ''-'' @ s @ ''-'' @ Itoa r \<and>
       name = prefix @ claim @ ''-'' @ prefix @ s @ ''-'' @ Itoa r)"

definition stateful_names :: "unstructured set \<Rightarrow> string set" where
  "stateful_names us = (\<lambda>u. meta_name (un_meta u)) ` {u \<in> us. un_kind u = StatefulSet_kind}"

definition claims_of :: "string \<Rightarrow> string set \<Rightarrow> (string \<rightharpoonup> string) \<Rightarrow> bool" where
  "claims_of prefix sts m \<longleftrightarrow> (\<forall>k n. m k = Some n \<longrightarrow> (\<exists>claim s. \<exists>r::nat. s \<in> sts \<and>
     k = claim @ ''-'' @ s @ ''-'' @ Itoa r \<and> n = prefix @ claim @ ''-'' @ prefix @ s @ ''-'' @ Itoa r))"

lemma claims_ofD: "claims_of prefix sts m \<Longrightarrow> m k = Some n \<Longrightarrow> \<exists>claim s. \<exists>r::nat. s \<in> sts \<and>
     k = claim @ ''-'' @ s @ ''-'' @ Itoa r \<and> n = prefix @ claim @ ''-'' @ prefix @ s @ ''-'' @ Itoa r"
  by (simp add: claims_of_def)

lemma claim_names_of:
  assumes "s \<in> sts" "claims_of prefix sts m"
  shows "claims_of prefix sts (claim_names prefix claim s replicas m)"
  unfolding claim_names_def
proof (induction replicas)
  case 0
  then show ?case using assms(2) by simp
next
  case (Suc r)
  let ?m = "fold (\<lambda>r m. let k = claim @ ''-'' @ s @ ''-'' @ Itoa r in
     if m k \<noteq> None then m else m(k \<mapsto> prefix @ claim @ ''-'' @ prefix @ s @ ''-'' @ Itoa r)) [0..<r] m"
  have "claims_of prefix sts (?m(claim @ ''-'' @ s @ ''-'' @ Itoa r \<mapsto> prefix @ claim @ ''-'' @ prefix @ s @ ''-'' @ Itoa r))"
    unfolding claims_of_def
  proof (intro allI impI)
    fix k n assume n: "(?m(claim @ ''-'' @ s @ ''-'' @ Itoa r \<mapsto> prefix @ claim @ ''-'' @ prefix @ s @ ''-'' @ Itoa r)) k = Some n"
    show "\<exists>claim s. \<exists>r::nat. s \<in> sts \<and>
      k = claim @ ''-'' @ s @ ''-'' @ Itoa r \<and> n = prefix @ claim @ ''-'' @ prefix @ s @ ''-'' @ Itoa r"
    proof (cases "k = claim @ ''-'' @ s @ ''-'' @ Itoa r")
      case True
      then have "n = prefix @ claim @ ''-'' @ prefix @ s @ ''-'' @ Itoa r" using n by simp
      then show ?thesis using True assms(1) by (intro exI [of _ claim] exI [of _ s] exI [of _ r]) simp
    next
      case False
      then show ?thesis using n claims_ofD [OF Suc.IH] by simp
    qed
  qed
  then show ?case using Suc.IH by (simp add: Let_def)
qed

lemma template_claims_of:
  "template_claims env prefix s replicas ts m = Ret (done, m') \<Longrightarrow> s \<in> sts \<Longrightarrow> claims_of prefix sts m \<Longrightarrow>
     claims_of prefix sts m'"
  by (induction env prefix s replicas ts m rule: template_claims.induct)
    (auto simp: claim_names_of split: outcome.splits option.splits)

lemma scan_claims_of:
  "statefulSet_scan env prefix found m us = Ret (present, m') \<Longrightarrow> stateful_names (set us) \<subseteq> sts \<Longrightarrow>
     claims_of prefix sts m \<Longrightarrow> claims_of prefix sts m'"
proof (induction us arbitrary: found m)
  case (Cons u us)
  have IH: "statefulSet_scan env prefix f m1 us = Ret (present, m') \<Longrightarrow> claims_of prefix sts m1 \<Longrightarrow> claims_of prefix sts m'" for f m1
    using Cons.IH Cons.prems(2) by (auto simp: stateful_names_def)
  have "un_kind u = StatefulSet_kind \<Longrightarrow> meta_name (un_meta u) \<in> sts" using Cons.prems(2) by (auto simp: stateful_names_def)
  note s = template_claims_of [OF _ this Cons.prems(3)]
  consider (end_) "m' = m" | (go) f where "statefulSet_scan env prefix f m us = Ret (present, m')"
    | (set_) ts r d m1 where "un_kind u = StatefulSet_kind"
        "template_claims env prefix (meta_name (un_meta u)) r ts m = Ret (d, m1)"
        "m' = m1 \<or> (\<exists>f. statefulSet_scan env prefix f m1 us = Ret (present, m'))"
    using Cons.prems(1) by (auto split: if_splits option.splits outcome.splits) blast+
  then show ?case
  proof cases
    case (go f)
    then show ?thesis by (rule IH) (rule Cons.prems(3))
  next
    case (set_ ts r d m1)
    then show ?thesis using s IH by blast
  qed (simp add: Cons.prems(3))
qed simp

lemma new_name_renamed:
  assumes "isStatefulSetPresent env prefix us = Ret (present, claims)"
  shows "renamed prefix (stateful_names (set us)) u (new_name prefix present claims u)"
proof -
  have "claims_of prefix (stateful_names (set us)) claims"
    by (rule scan_claims_of [OF assms [unfolded isStatefulSetPresent_def] order_refl]) (simp add: claims_of_def)
  from claims_ofD [OF this] show ?thesis by (auto simp: new_name_def renamed_def split: option.splits)
qed

definition prefixed :: "string \<Rightarrow> string set \<Rightarrow> unstructured \<Rightarrow> unstructured \<Rightarrow> bool" where
  "prefixed prefix sts u u' \<longleftrightarrow> un_kind u' = un_kind u \<and>
     (if exempt u then un_meta u' = un_meta u
      else \<exists>name. renamed prefix sts u name \<and> un_meta u' = (un_meta u)\<lparr>meta_name := name\<rparr>)"

lemma prefixed_id: "prefixed [] sts u u"
  by (auto simp: prefixed_def renamed_def intro!: exI [of _ "meta_name (un_meta u)"])

lemma prefix_mutates:
  assumes "rindexer_laws ix its" "mut_laws env" and k: "keyed its c"
    and run: "run_state (prefixMutation_handle env ix restore) c = (Ok, c')"
  shows "keyed its c' \<and> pointwise (prefixed (rp_resourcePrefix (rs_spec restore)) (stateful_names (ran (its c)))) (its c) (its c')"
proof -
  let ?p = "rp_resourcePrefix (rs_spec restore)" and ?S = "stateful_names (ran (its c))"
  show ?thesis
  proof (cases "?p = []")
    case True
    then show ?thesis using run k
      by (auto simp: prefixMutation_handle_def pointwise_def prefixed_id intro!: option.rel_refl)
  next
    case False
    obtain present claims where s: "isStatefulSetPresent env ?p (ix_List ix c) = Ret (present, claims)"
      using run False by (auto simp: prefixMutation_handle_def Let_def look_def split: outcome.splits)
    let ?g = "prefix_result env ?p present claims"
    have r: "run_state (do { us \<leftarrow> look (ix_List ix); each (prefix_item env ix ?p present claims) us }) c = (Ok, c')"
      using run False s by (simp add: prefixMutation_handle_def Let_def look_def)
    have m: "mutates its (\<lambda>u u'. u' = chosen (\<lambda>_. True) ?g u)
        (do { us \<leftarrow> look (ix_List ix); each (prefix_item env ix ?p present claims) us })"
      by (rule loop_mutates [OF prefix_stores [OF assms(1,2)]]) (simp add: rlaws(5) [OF assms(1)])
    have "set (ix_List ix c) = ran (its c)" by (simp add: rlaws(5) [OF assms(1)])
    then have n: "renamed ?p ?S u (new_name ?p present claims u)" for u using new_name_renamed [OF s] by simp
    have p: "prefixed ?p ?S u (chosen (\<lambda>_. True) ?g u)" for u
    proof (cases "?g u")
      case None
      then have "exempt u" by (auto simp: prefix_result_def Let_def split: option.splits if_splits outcome.splits)
      then show ?thesis using None by (simp add: chosen_def prefixed_def)
    next
      case (Some u')
      then show ?thesis using prefix_result_keeps [OF assms(2) Some] n [of u]
        by (auto simp: chosen_def prefixed_def keeps_identity_def set_un_name_def prefix_result_def)
    qed
    show ?thesis using mutatesD [OF m k r] pointwise_mono p by blast
  qed
qed

text \<open>How a candidate is restored: under its own key and with its kind, in the mapped namespace and, unless
  it is exempt, with the name prefix and marked with the name of the restore.\<close>

definition restored_as :: "Restore \<Rightarrow> string set \<Rightarrow> unstructured \<Rightarrow> unstructured \<Rightarrow> bool" where
  "restored_as restore sts u u' \<longleftrightarrow> un_kind u' = un_kind u \<and> un_uid u' = un_uid u \<and>
     meta_labels (un_meta u') = meta_labels (un_meta u) \<and>
     meta_namespace (un_meta u') = meta_namespace (un_meta (mapped_to (rp_namespaceMapping (rs_spec restore)) u)) \<and>
     (if exempt u then un_meta u' = un_meta (mapped_to (rp_namespaceMapping (rs_spec restore)) u)
      else meta_annotations (un_meta u') =
             (meta_annotations (un_meta u))(annRestoreIdentifier \<mapsto> rs_nm restore) \<and>
           renamed (rp_resourcePrefix (rs_spec restore)) sts u (meta_name (un_meta u')))"

lemma exempt_cong: "un_kind u' = un_kind u \<Longrightarrow> meta_name (un_meta u') = meta_name (un_meta u) \<Longrightarrow> exempt u' = exempt u"
  by (simp add: exempt_def)

lemma mapped_to_names: "un_kind (mapped_to m u) = un_kind u" "meta_name (un_meta (mapped_to m u)) = meta_name (un_meta u)"
  by (auto simp: mapped_to_def set_un_namespace_def split: option.splits)

lemma restored_as_steps:
  assumes "keeps_identity (mapped_to (rp_namespaceMapping (rs_spec restore)) u) u1"
    and "prefixed (rp_resourcePrefix (rs_spec restore)) sts (if exempt u1 then u1 else identified (rs_nm restore) u1) u'"
  shows "restored_as restore sts u u'"
proof -
  let ?m = "rp_namespaceMapping (rs_spec restore)" and ?p = "rp_resourcePrefix (rs_spec restore)"
  have m: "un_kind (mapped_to ?m u) = un_kind u" "un_uid (mapped_to ?m u) = un_uid u"
      "meta_name (un_meta (mapped_to ?m u)) = meta_name (un_meta u)"
      "meta_labels (un_meta (mapped_to ?m u)) = meta_labels (un_meta u)"
      "meta_annotations (un_meta (mapped_to ?m u)) = meta_annotations (un_meta u)"
    by (auto simp: mapped_to_def set_un_namespace_def split: option.splits)
  have u1: "un_kind u1 = un_kind u" "un_meta u1 = un_meta (mapped_to ?m u)"
    using assms(1) m(1) by (auto simp: keeps_identity_def)
  have ex: "exempt u1 = exempt u" using u1 m(3) by (intro exempt_cong) auto
  have ei: "exempt (identified (rs_nm restore) u1) = exempt u" using ex by (simp add: exempt_def identified_def)
  show ?thesis using assms(2) m u1 ex ei
    by (auto simp: restored_as_def prefixed_def identified_def renamed_def split: if_splits)
qed

lemma seq_assoc: "seq (seq m n) p = seq m (seq n p)"
  by (simp add: seq_def) (auto intro!: arg_cong [where f = "State_Monad.bind m"])

lemma pointwise_trans:
  assumes "pointwise E m m1" "pointwise F m1 m2"
  shows "pointwise (E OO F) m m2"
  using assms unfolding pointwise_def by (metis option.rel_compp relcomppI)

lemma stateful_names_keep:
  assumes "pointwise E m m'"
    and "\<And>u u'. E u u' \<Longrightarrow> un_kind u' = un_kind u \<and> meta_name (un_meta u') = meta_name (un_meta u)"
  shows "stateful_names (ran m') = stateful_names (ran m)"
proof -
  have "\<exists>u' \<in> ran m'. un_kind u' = un_kind u \<and> meta_name (un_meta u') = meta_name (un_meta u)" if "u \<in> ran m" for u
    using that assms by (auto simp: ran_def pointwise_def) (metis option_rel_Some1)
  moreover have "\<exists>u \<in> ran m. un_kind u' = un_kind u \<and> meta_name (un_meta u') = meta_name (un_meta u)" if "u' \<in> ran m'" for u'
    using that assms by (auto simp: ran_def pointwise_def) (metis option_rel_Some2)
  ultimately show ?thesis unfolding stateful_names_def by (fastforce simp: image_iff)
qed

text \<open>The state between two steps that both ended well.\<close>

lemma run_seq_Ok:
  assumes "run_state (seq m n) c = (Ok, c')"
  obtains c1 where "run_state m c = (Ok, c1)" "run_state n c1 = (Ok, c')"
  using assms by (cases "run_state m c") (auto simp: seq_def split: if_splits)

text \<open>C30: when the chain of mutations ends without an error and no namespace is both mapped and a target,
  the cache holds the same objects under the same keys, each in its mapped namespace. A resource definition
  or a default service account keeps its name and its annotations; every other object is annotated with the
  name of the restore, which is what the cleanup of a failed restore relies on, and has the prefix put before
  its name, or, if it is a claim with the name of a claim of a stateful set in the cache, before both the name
  of the template and the name of the set in it.\<close>

theorem mutation_result:
  assumes laws: "rindexer_laws ix its" and env: "mut_laws env" and k: "keyed its c"
    and "finite (dom (rp_namespaceMapping (rs_spec restore)))" "chain_free (rp_namespaceMapping (rs_spec restore))"
    and run: "run_state (constructMutationHandler env ix restore) c = (Ok, c')"
  shows "keyed its c' \<and> (\<forall>k. rel_option (restored_as restore (stateful_names (ran (its c)))) (its c k) (its c' k))"
proof -
  let ?m = "rp_namespaceMapping (rs_spec restore)"
  have o: "distinct (map fst (mu_order env ?m))" "map_of (mu_order env ?m) = ?m"
    using env assms(4) unfolding mut_laws_def by blast+
  have in_m: "?m old = Some new" if "(old, new) \<in> set (mu_order env ?m)" for old new
    using map_of_is_SomeI [OF o(1) that] o(2) by simp
  have "new = old \<or> new \<notin> fst ` set (mu_order env ?m)" if "(old, new) \<in> set (mu_order env ?m)" for old new
    using assms(5) in_m [OF that] in_m unfolding chain_free_def by fastforce
  then have ns: "mutates its (\<lambda>u u'. u' = mapped_to ?m u) (each (map_namespace ix) (mu_order env ?m))"
    using namespaces_mutate [OF laws o(1)] o(2) by auto
  note chain = mutates_seq [OF ns mutates_seq [OF typed_mutates(2) [OF laws env] mutates_seq [OF
      typed_mutates(1) [OF laws env] mutates_seq [OF typed_mutates(3) [OF laws env] mutates_seq [OF
      typed_mutates(3) [OF laws env] identification_mutates [OF laws]]]]]]
  let ?E = "\<lambda>u u'. \<exists>u1. keeps_identity (mapped_to ?m u) u1 \<and> u' = (if exempt u1 then u1 else identified (rs_nm restore) u1)"
  have "?E u u'" if e: "((\<lambda>u u'. u' = mapped_to ?m u) OO keeps_identity OO keeps_identity OO keeps_identity OO keeps_identity OO
      (\<lambda>u u'. u' = (if exempt u then u else identified (rs_nm restore) u))) u u'" for u u'
  proof -
    from e obtain v w x y where "keeps_identity (mapped_to ?m u) v" "keeps_identity v w" "keeps_identity w x" "keeps_identity x y"
        "u' = (if exempt y then y else identified (rs_nm restore) y)"
      by (elim relcomppE) blast
    then show ?thesis by (intro exI [of _ y]) (blast intro: keeps_identity_trans)
  qed
  note pre = mutates_weaken [OF chain this, unfolded seq_assoc [symmetric]]
  obtain c1 where c1: "keyed its c1" "pointwise ?E (its c) (its c1)"
      "run_state (prefixMutation_handle env ix restore) c1 = (Ok, c')"
    using run
    unfolding constructMutationHandler_def namespaceMutation_handle_def pvcMutation_handle_def serviceMutation_handle_def
      clusterRoleBindingMutation_handle_def roleBindingMutation_handle_def restoreIdentificationMutation_handle_def
      seq_assoc [symmetric]
  proof (rule run_seq_Ok, goal_cases)
    case (1 c1)
    show ?case by (rule 1(1) [OF mutatesD [OF pre k 1(2)] 1(3)])
  qed
  have same: "un_kind u' = un_kind u \<and> meta_name (un_meta u') = meta_name (un_meta u)" if "?E u u'" for u u'
  proof -
    from that obtain u1 where "keeps_identity (mapped_to ?m u) u1" "u' = (if exempt u1 then u1 else identified (rs_nm restore) u1)"
      by blast
    then show ?thesis using mapped_to_names [of ?m u]
      by (cases "exempt u1") (simp_all add: keeps_identity_def identified_def)
  qed
  have "stateful_names (ran (its c1)) = stateful_names (ran (its c))" by (rule stateful_names_keep [OF c1(2) same])
  then have c': "keyed its c'" "pointwise (prefixed (rp_resourcePrefix (rs_spec restore)) (stateful_names (ran (its c)))) (its c1) (its c')"
    using prefix_mutates [OF laws env c1(1,3)] by simp_all
  have "pointwise (restored_as restore (stateful_names (ran (its c)))) (its c) (its c')"
    by (rule pointwise_mono [OF pointwise_trans [OF c1(2) c'(2)]]) (auto intro: restored_as_steps)
  then show ?thesis using c'(1) by (simp add: pointwise_def)
qed

section \<open>Chained mappings\<close>

text \<open>With a mapping that has a namespace as target and as source, where an object ends depends on the
  order in which Go visits the map.\<close>

definition demo_mut :: "bool \<Rightarrow> mut_env" where
  "demo_mut ascending = \<lparr>
     mu_order = (\<lambda>m. map (\<lambda>k. (k, the (m k))) ((if ascending then id else rev) (sorted_list_of_set (dom m)))),
     mu_toService = (\<lambda>u. Inr \<lparr>so_kind = un_kind u, so_meta = un_meta u, so_clusterIP = [], so_clusterIPs = [],
        so_nodePorts = [], so_rest = un_object u\<rparr>),
     mu_fromService = (\<lambda>x. Inr \<lparr>un_apiVersion = ''v1'', un_kind = so_kind x, un_meta = so_meta x, un_object = so_rest x\<rparr>),
     mu_toClaim = (\<lambda>u. Inr \<lparr>co_kind = un_kind u, co_meta = un_meta u, co_dataSource = None, co_dataSourceRef = None,
        co_rest = un_object u\<rparr>),
     mu_fromClaim = (\<lambda>x. Inr \<lparr>un_apiVersion = ''v1'', un_kind = co_kind x, un_meta = co_meta x, un_object = co_rest x\<rparr>),
     mu_toBinding = (\<lambda>u. Inr \<lparr>bo_kind = un_kind u, bo_meta = un_meta u, bo_subjects = [], bo_roleKind = [], bo_roleName = [],
        bo_rest = un_object u\<rparr>),
     mu_fromBinding = (\<lambda>x. Inr \<lparr>un_apiVersion = ''v1'', un_kind = bo_kind x, un_meta = bo_meta x, un_object = bo_rest x\<rparr>),
     mu_NestedString = (\<lambda>_ _. ([], False, None)), mu_NestedInt64 = (\<lambda>_ _. (0, False, None)),
     mu_NestedSlice = (\<lambda>_ _. (None, False, None)), mu_SetNestedField = (\<lambda>u _ _. (u, None)),
     mu_SetNestedSlice = (\<lambda>u _ _. (u, None)), mj_NestedString = (\<lambda>_ _. ([], False, None)),
     mj_NestedSlice = (\<lambda>_ _. (None, False, None))\<rparr>"

lemma map_of_pairs:
  assumes "set ks = dom m" "distinct ks"
  shows "map_of (map (\<lambda>k. (k, the (m k))) ks) = m"
proof
  fix x show "map_of (map (\<lambda>k. (k, the (m k))) ks) x = m x"
    using assms by (cases "x \<in> dom m") (auto simp: map_of_map_restrict restrict_map_def domIff)
qed

lemma demo_mut_laws: "mut_laws (demo_mut b)"
proof -
  have "distinct (map fst (mu_order (demo_mut b) m)) \<and> map_of (mu_order (demo_mut b) m) = m" if "finite (dom m)" for m
    using that by (auto simp: demo_mut_def comp_def intro!: map_of_pairs)
  then show ?thesis unfolding mut_laws_def by (auto simp: demo_mut_def)
qed

definition demo_mapping :: "(string \<rightharpoonup> string) \<Rightarrow> string \<Rightarrow> Restore" where
  "demo_mapping m prefix = zero_Restore\<lparr>rs_meta := zero_meta\<lparr>meta_name := ''r''\<rparr>,
     rs_spec := zero_RestoreSpec\<lparr>rp_namespaceMapping := m, rp_resourcePrefix := prefix\<rparr>\<rparr>"

lemmas mutation_defs = constructMutationHandler_def namespaceMutation_handle_def pvcMutation_handle_def
  serviceMutation_handle_def clusterRoleBindingMutation_handle_def roleBindingMutation_handle_def
  restoreIdentificationMutation_handle_def prefixMutation_handle_def by_kind_def map_namespace_def look_def upd_def
  replace_def cadd_def cdelete_def assign_def seq_def Let_def

lemma chained_mapping_depends_on_order:
  "\<exists>c c'. run_state (namespaceMutation_handle (\<lambda>_. State_Monad.return Ok) (demo_mut True) alist_rindexer
        (demo_mapping [''a'' \<mapsto> ''b'', ''b'' \<mapsto> ''c''] [])) [(''x'', demo_un Configmap_kind ''a'' ''x'')] = (Ok, c) \<and>
     run_state (namespaceMutation_handle (\<lambda>_. State_Monad.return Ok) (demo_mut False) alist_rindexer
        (demo_mapping [''a'' \<mapsto> ''b'', ''b'' \<mapsto> ''c''] [])) [(''x'', demo_un Configmap_kind ''a'' ''x'')] = (Ok, c') \<and>
     meta_namespace (un_meta (the (map_of c ''x''))) = ''c'' \<and> meta_namespace (un_meta (the (map_of c' ''x''))) = ''b''"
proof -
  have d: "sorted_list_of_set {''a'', ''b''} = [''a'', ''b'']" by (simp add: sorted_list_of_set.fold_insort_key.insert)
  have m: "dom [''a'' \<mapsto> ''b'', ''b'' \<mapsto> ''c''] = {''a'', ''b''}" by auto
  show ?thesis
    by (simp add: mutation_defs demo_mapping_def demo_mut_def m d alist_rindexer_defs restoreNamespaceIndex_def
        uidKeyFunc_def set_un_namespace_def demo_un_def zero_Restore_def zero_RestoreSpec_def zero_meta_def)
qed

theorem mutation_result_witness:
  "\<exists>c' u'. run_state (constructMutationHandler (demo_mut True) alist_rindexer (demo_mapping [''a'' \<mapsto> ''b''] ''p-''))
       [(''x'', demo_un Configmap_kind ''a'' ''x'')] = (Ok, c') \<and> map_of c' ''x'' = Some u' \<and>
     meta_namespace (un_meta u') = ''b'' \<and> meta_name (un_meta u') = ''p-x'' \<and>
     meta_annotations (un_meta u') annRestoreIdentifier = Some ''r''"
proof -
  let ?c = "[(''x'', demo_un Configmap_kind ''a'' ''x'')]" and ?r = "demo_mapping [''a'' \<mapsto> ''b''] ''p-''"
  have k: "keyed map_of ?c" by (simp add: keyed_def)
  have m: "finite (dom (rp_namespaceMapping (rs_spec ?r)))" "chain_free (rp_namespaceMapping (rs_spec ?r))"
    by (auto simp: demo_mapping_def chain_free_def)
  have "fst (run_state (constructMutationHandler (demo_mut True) alist_rindexer ?r) ?c) = Ok"
    by (simp add: mutation_defs demo_mapping_def demo_mut_def alist_rindexer_defs restoreNamespaceIndex_def resourceIndex_def
        uidKeyFunc_def set_un_namespace_def demo_un_def zero_Restore_def zero_RestoreSpec_def zero_meta_def kind_defs
        RoleBinding_kind_def ClusterRoleBinding_kind_def ServiceAccount_kind_def exempt_def crdName_def identified_def
        isStatefulSetPresent_def prefix_item_def update_content_def set_un_name_def new_name_def)
  then obtain c' where run: "run_state (constructMutationHandler (demo_mut True) alist_rindexer ?r) ?c = (Ok, c')"
    by (metis prod.collapse)
  have "rel_option (restored_as ?r (stateful_names (ran (map_of ?c)))) (map_of ?c ''x'') (map_of c' ''x'')"
    using mutation_result [OF alist_rindexer_laws demo_mut_laws k m run] by blast
  then obtain u' where u': "map_of c' ''x'' = Some u'" "restored_as ?r (stateful_names (ran (map_of ?c))) (demo_un Configmap_kind ''a'' ''x'') u'"
    by (auto simp: option_rel_Some1)
  have "\<not> exempt (demo_un Configmap_kind ''a'' ''x'')"
    by (simp add: exempt_def crdName_def ServiceAccount_kind_def kind_defs)
  then show ?thesis using run u'
    by (auto simp: restored_as_def renamed_def mapped_to_def demo_mapping_def set_un_namespace_def kind_defs)
qed

end
