(* ===== verification/Restore_Updater.thy ===== *)
theory Restore_Updater
  imports Restore_Hooks Restore_Mutators Paths
begin

text \<open>
  The state and the environment of the restore controller, and how it changes \<^verbatim>\<open>Restore\<close> and
  \<^verbatim>\<open>VolumeRestoreContent\<close> objects on the API server: the update functions of
  \<^verbatim>\<open>controllers/restore/restorecontroller.go\<close> and the annotation functions of
  \<^verbatim>\<open>volumerestore.go\<close>.

  The API server, discovery, the listers, the converters and the metadata service are fields of
  \<open>renv\<close>, functions over an arbitrary world \<open>'w\<close>. Calls that change the cluster and the listings a
  deletion depends on are appended to a log. \<open>rx_pending\<close> holds the goroutines started by
  \<^verbatim>\<open>waitExec\<close> that have not been waited for.
\<close>

section \<open>State and environment\<close>

datatype rs_event =
    RvUpdateStatus Restore bool
  | RvPatch Restore Restore bool
  | RvListVRC string "string list option"
  | RvPatchVRC VolumeRestoreContent bool
  | RvDeleteVRC string bool
  | RvCreateVRC VolumeRestoreContent bool
  | RvGet api_resource string string "unstructured option"
  | RvCreate api_resource string unstructured bool
  | RvDelete api_resource string string bool
  | RvGetNamespace string bool
  | RvCreateNamespace string bool
  | RvHooksWaited "nat option"

record 'w rctrl =
  rx_processed :: "(Restore, dyn) threadSafeStore"
  rx_world :: 'w
  rx_log :: "rs_event list"
  rx_hookLog :: "(exec_request \<times> bool) list"
  rx_pending :: "(RestoreResourceHookSpec list \<times> unstructured) list"

text \<open>A workload as far as its application looks at it: the selector may be nil, and so may the number
  of replicas.\<close>

record workload_obj =
  wo_selector :: "string option"
  wo_replicas :: "int option"

record ('w, 'c) renv =
  rn_ix :: "'c rindexer"
  rn_newCache :: 'c
  rn_hook :: "'w hook_env"
  rn_mut :: mut_env
  rn_conv :: conv_env
  rn_compile :: "string \<Rightarrow> (string \<Rightarrow> bool) option"
  rn_asSelector :: "string \<Rightarrow> goerr + ((string \<rightharpoonup> string) \<Rightarrow> bool)"
  rn_resolveFuel :: nat
  rn_splitKey :: "string \<Rightarrow> goerr + string"
  rn_restoreGet :: "string \<Rightarrow> 'w \<Rightarrow> goerr + Restore"
  rn_restoreList :: "'w \<Rightarrow> goerr + Restore list"
  rn_backupGet :: "string \<Rightarrow> 'w \<Rightarrow> goerr + Backup"
  rn_locationGet :: "string \<Rightarrow> 'w \<Rightarrow> goerr + backup_location"
  rn_providerGet :: "string \<Rightarrow> 'w \<Rightarrow> goerr + provider"
  rn_objKey :: "Restore \<Rightarrow> goerr + string"
  rn_mergePatch :: "Restore \<Rightarrow> Restore \<Rightarrow> goerr + string"
  rn_Patch :: "string \<Rightarrow> string \<Rightarrow> 'w \<Rightarrow> (Restore \<times> goerr option) \<times> 'w"
  rn_UpdateStatus :: "Restore \<Rightarrow> 'w \<Rightarrow> (Restore \<times> goerr option) \<times> 'w"
  rn_Now :: "'w \<Rightarrow> int"
  rn_listVRC :: "string \<Rightarrow> 'w \<Rightarrow> (VolumeRestoreContent list \<times> goerr option) \<times> 'w"
  rn_mergePatchVRC :: "VolumeRestoreContent \<Rightarrow> VolumeRestoreContent \<Rightarrow> goerr + string"
  rn_PatchVRC :: "string \<Rightarrow> string \<Rightarrow> 'w \<Rightarrow> (VolumeRestoreContent \<times> goerr option) \<times> 'w"
  rn_deleteVRC :: "string \<Rightarrow> 'w \<Rightarrow> goerr option \<times> 'w"
  rn_createVRC :: "VolumeRestoreContent \<Rightarrow> 'w \<Rightarrow> goerr option \<times> 'w"
  rn_byGVK :: "string \<Rightarrow> string \<Rightarrow> goerr + api_resource"
  rn_Get :: "api_resource \<Rightarrow> string \<Rightarrow> string \<Rightarrow> 'w \<Rightarrow> (goerr + unstructured) \<times> 'w"
  rn_Create :: "api_resource \<Rightarrow> string \<Rightarrow> unstructured \<Rightarrow> 'w \<Rightarrow> goerr option \<times> 'w"
  rn_Delete :: "api_resource \<Rightarrow> string \<Rightarrow> string \<Rightarrow> 'w \<Rightarrow> goerr option \<times> 'w"
  rn_nsGet :: "string \<Rightarrow> 'w \<Rightarrow> goerr option \<times> 'w"
  rn_nsCreate :: "string \<Rightarrow> 'w \<Rightarrow> goerr option \<times> 'w"
  rn_pvcGet :: "string \<Rightarrow> string \<Rightarrow> 'w \<Rightarrow> (goerr + pvc) \<times> 'w"
  rn_toWorkload :: "unstructured \<Rightarrow> goerr + workload_obj"
  rn_toPod :: "unstructured \<Rightarrow> goerr + pod"
  rn_fromPod :: "pod \<Rightarrow> goerr + unstructured"
  rn_listPods :: "string \<Rightarrow> string \<Rightarrow> 'w \<Rightarrow> (goerr + pod list) \<times> 'w"
  rn_waitConv :: "string \<Rightarrow> unstructured \<Rightarrow> goerr option"
  rn_informer :: "string \<Rightarrow> string \<Rightarrow> string \<Rightarrow> 'w \<Rightarrow> 'w"
  rn_podEvents :: "pod \<Rightarrow> 'w \<Rightarrow> pod_event list"
  rn_order2 :: "string set \<Rightarrow> string list"
  rn_toVBC :: "unstructured \<Rightarrow> goerr + VolumeBackupContent"
  rn_toSC :: "unstructured \<Rightarrow> goerr option"
  rn_unmarshalParams :: "string \<Rightarrow> string \<rightharpoonup> string"
  rn_uuid :: "'w \<Rightarrow> string \<times> 'w"
  rn_connect :: "string \<Rightarrow> 'w \<Rightarrow> goerr option \<times> 'w"
  rn_metaRestore :: "backup_identifier \<Rightarrow> 'w \<Rightarrow> goerr option \<times> 'w"
  rn_received :: "'w \<Rightarrow> (goerr + string) list"
  rn_unmarshal :: "string \<Rightarrow> goerr + unstructured"
  rn_closeSend :: "'w \<Rightarrow> goerr option \<times> 'w"

definition rcall :: "('w \<Rightarrow> 'r \<times> 'w) \<Rightarrow> ('r \<Rightarrow> rs_event list) \<Rightarrow> ('w rctrl, 'r) state" where
  "rcall f ev = liftst (\<lambda>s. case f (rx_world s) of (r, w) \<Rightarrow>
     (r, s\<lparr>rx_world := w, rx_log := rx_log s @ ev r\<rparr>))"

definition rask :: "('w \<Rightarrow> 'r) \<Rightarrow> ('w rctrl, 'r) state" where
  "rask f = liftst (\<lambda>s. (f (rx_world s), s))"

text \<open>Hook code runs on the world and on the log of executed commands.\<close>

definition with_hooks :: "('w hstate \<Rightarrow> 'a \<times> 'w hstate) \<Rightarrow> ('w rctrl, 'a) state" where
  "with_hooks f = liftst (\<lambda>s. case f \<lparr>hs_world = rx_world s, hs_log = rx_hookLog s\<rparr> of (r, h) \<Rightarrow>
     (r, s\<lparr>rx_world := hs_world h, rx_hookLog := hs_log h\<rparr>))"

definition rcache_update :: "('w, 'c) renv \<Rightarrow> Restore \<Rightarrow> ('w rctrl, bool \<times> goerr option) state" where
  "rcache_update env r = liftst (\<lambda>s.
     case StoreRevisionUpdate (rn_objKey env) (\<lambda>x. Inr (rs_meta x)) ''Restore'' (rx_processed s) r of
       (x, store) \<Rightarrow> (x, s\<lparr>rx_processed := store\<rparr>))"

definition rcache_clean :: "('w, 'c) renv \<Rightarrow> Restore \<Rightarrow> ('w rctrl, goerr option) state" where
  "rcache_clean env r = liftst (\<lambda>s. case StoreClean (rn_objKey env) ''Restore'' (rx_processed s) r of
     (x, store) \<Rightarrow> (x, s\<lparr>rx_processed := store\<rparr>))"

section \<open>restorecontroller.go: updates\<close>

definition patchRestore ::
  "('w, 'c) renv \<Rightarrow> Restore \<Rightarrow> Restore \<Rightarrow> ('w rctrl, Restore option \<times> goerr option) state" where
  "patchRestore env oldRestore updatedRestore = (case rn_mergePatch env oldRestore updatedRestore of
     Inl err \<Rightarrow> State_Monad.return (None, Some (wrap err ''error creating json merge patch for backup''))
   | Inr patchBytes \<Rightarrow> do {
       (newRestore, err) \<leftarrow> rcall (rn_Patch env (rs_nm oldRestore) patchBytes)
          (\<lambda>(_, e). [RvPatch oldRestore updatedRestore (e = None)]);
       (case err of
          Some e \<Rightarrow> State_Monad.return (None, Some (wrap e ''error patching backup''))
        | None \<Rightarrow> do {
            (_, cerr) \<leftarrow> rcache_update env newRestore;
            State_Monad.return (Some newRestore,
              map_option (\<lambda>e. wrap e ''Failed to updated processed restore cache'') cerr) }) })"

definition patchVolRestoreContent ::
  "('w, 'c) renv \<Rightarrow> VolumeRestoreContent \<Rightarrow> VolumeRestoreContent \<Rightarrow>
   ('w rctrl, VolumeRestoreContent option \<times> goerr option) state" where
  "patchVolRestoreContent env oldVrc updatedVrc = (case rn_mergePatchVRC env oldVrc updatedVrc of
     Inl err \<Rightarrow> State_Monad.return (None, Some (wrap err ''error creating json merge patch for vrc''))
   | Inr patchBytes \<Rightarrow> do {
       (newVrc, err) \<leftarrow> rcall (rn_PatchVRC env (vr_name oldVrc) patchBytes) (\<lambda>(_, e). [RvPatchVRC updatedVrc (e = None)]);
       (case err of Some e \<Rightarrow> State_Monad.return (None, Some (wrap e ''error patching vrc''))
        | None \<Rightarrow> State_Monad.return (Some newVrc, None)) })"

definition updateRestoreStatus :: "('w, 'c) renv \<Rightarrow> Restore \<Rightarrow> ('w rctrl, Restore \<times> goerr option) state" where
  "updateRestoreStatus env restore = do {
     (updatedRestore, err) \<leftarrow> rcall (rn_UpdateStatus env restore) (\<lambda>(_, e). [RvUpdateStatus restore (e = None)]);
     if err \<noteq> None then State_Monad.return (restore, err)
     else do {
       (_, cerr) \<leftarrow> rcache_update env updatedRestore;
       State_Monad.return (updatedRestore,
         map_option (\<lambda>e. wrap e ''Failed to updated processed restore cache'') cerr) } }"

definition updateRestoreState ::
  "('w, 'c) renv \<Rightarrow> Restore \<Rightarrow> RestoreState \<Rightarrow> ('w rctrl, Restore \<times> goerr option) state" where
  "updateRestoreState env restore st = updateRestoreStatus env (set_rstate st restore)"

definition updateRestoreStage ::
  "('w, 'c) renv \<Rightarrow> Restore \<Rightarrow> RestoreStage \<Rightarrow> ('w rctrl, Restore \<times> goerr option) state" where
  "updateRestoreStage env restore stage = updateRestoreStatus env (set_rstage stage restore)"

section \<open>volumerestore.go: annotations\<close>

definition set_annotation :: "string \<Rightarrow> string \<Rightarrow> object_meta \<Rightarrow> object_meta" where
  "set_annotation a v m = m\<lparr>meta_annotations := (meta_annotations m)(a \<mapsto> v)\<rparr>"

definition annotateRestore ::
  "('w, 'c) renv \<Rightarrow> string \<Rightarrow> string \<Rightarrow> Restore \<Rightarrow> ('w rctrl, Restore option \<times> goerr option) state" where
  "annotateRestore env annotation value restore =
     (if meta_annotations (rs_meta restore) annotation \<noteq> None then State_Monad.return (Some restore, None)
      else patchRestore env restore (restore\<lparr>rs_meta := set_annotation annotation value (rs_meta restore)\<rparr>))"

definition annotateVolRestoreContent ::
  "('w, 'c) renv \<Rightarrow> string \<Rightarrow> VolumeRestoreContent \<Rightarrow> ('w rctrl, VolumeRestoreContent option \<times> goerr option) state" where
  "annotateVolRestoreContent env annotation vrc =
     (if meta_annotations (vr_meta vrc) annotation \<noteq> None then State_Monad.return (Some vrc, None)
      else patchVolRestoreContent env vrc (vrc\<lparr>vr_meta := set_annotation annotation ''true'' (vr_meta vrc)\<rparr>))"

section \<open>Rules\<close>

lemma tr_rcall: "(\<And>r. R r (ev r)) \<Longrightarrow> tr rx_log R (rcall f ev)"
  by (auto simp: tr_def rcall_def split: prod.splits)

lemma tr_rask [tr_rules]: "(\<And>r. R r []) \<Longrightarrow> tr rx_log R (rask f)"
  by (auto simp: tr_def rask_def)

lemma tr_silent:
  "(\<And>s. rx_log (snd (f s)) = rx_log s) \<Longrightarrow> (\<And>r. R r []) \<Longrightarrow> tr rx_log R (liftst f)"
  by (auto simp: tr_def) (metis append_Nil2 snd_conv)

lemma tr_rcache_update [tr_rules]: "(\<And>r. R r []) \<Longrightarrow> tr rx_log R (rcache_update env x)"
  unfolding rcache_update_def by (rule tr_silent) (auto split: prod.splits)

lemma tr_rcache_clean [tr_rules]: "(\<And>r. R r []) \<Longrightarrow> tr rx_log R (rcache_clean env x)"
  unfolding rcache_clean_def by (rule tr_silent) (auto split: prod.splits)

lemma tr_with_hooks [tr_rules]: "(\<And>r. R r []) \<Longrightarrow> tr rx_log R (with_hooks f)"
  unfolding with_hooks_def by (rule tr_silent) (auto split: prod.splits)

lemma every_patchRestore: "(\<And>ok. Q (RvPatch a b ok)) \<Longrightarrow> every rx_log Q (patchRestore env a b)"
  unfolding patchRestore_def by (intro tr_rules tr_rcall) auto

lemma every_patchVRC: "(\<And>ok. Q (RvPatchVRC b ok)) \<Longrightarrow> every rx_log Q (patchVolRestoreContent env a b)"
  unfolding patchVolRestoreContent_def by (intro tr_rules tr_rcall) auto

lemma every_updateRestoreStatus: "(\<And>ok. Q (RvUpdateStatus r ok)) \<Longrightarrow> every rx_log Q (updateRestoreStatus env r)"
  unfolding updateRestoreStatus_def by (intro tr_rules tr_rcall) auto

lemma every_annotateRestore: "(\<And>a b ok. Q (RvPatch a b ok)) \<Longrightarrow> every rx_log Q (annotateRestore env an v r)"
  unfolding annotateRestore_def by (intro tr_rules every_patchRestore) auto

lemma every_annotateVRC: "(\<And>b ok. Q (RvPatchVRC b ok)) \<Longrightarrow> every rx_log Q (annotateVolRestoreContent env an v)"
  unfolding annotateVolRestoreContent_def by (intro tr_rules every_patchVRC) auto

end
