(* ===== verification/Restore_Apply.thy ===== *)
theory Restore_Apply
  imports Restore_Updater
begin

text \<open>
  Restoring metadata, \<^verbatim>\<open>controllers/restore/metadatarestore.go\<close>: the order in which resources
  are created, how one resource is applied, the hooks after it, and the cleanup of what a failed
  restore has created.

  The goroutines started by \<^verbatim>\<open>waitExec\<close> run when the controller waits for them, one after the
  other in the order they were started. Ranging over a set has no fixed order, so the two loops over
  the namespaces of a hook take theirs from \<open>he_order\<close> and \<open>rn_order2\<close>.
\<close>

section \<open>Order of creation\<close>

definition defaultRestorePriorities :: "string list" where
  "defaultRestorePriorities = [''CustomResourceDefinition'', ''MutatingWebhookConfiguration'',
     ''ValidatingWebhookConfiguration'', ''ClusterRole'', ''ClusterRoleBinding'', ''Namespace'', ''Role'',
     ''RoleBinding'', ''StorageClass'', ''VolumeSnapshotClass'', ''VolumeSnapshotContent'', ''VolumeSnapshot'',
     ''PersistentVolume'', ''PersistentVolumeClaim'', ''Secret'', ''ConfigMap'', ''ServiceAccount'', ''LimitRange'',
     ''Pod'', ''ReplicaSet'', ''DaemonSet'', ''Deployment'', ''StatefulSet'', ''Job'', ''Cronjob'']"

definition canonicalName :: "unstructured \<Rightarrow> string" where
  "canonicalName u = meta_namespace (un_meta u) @ '':'' @ un_apiVersion u @ '':'' @ un_kind u @ '':'' @ meta_name (un_meta u)"

definition prioritiseResources :: "unstructured list \<Rightarrow> unstructured list" where
  "prioritiseResources resources =
     (let prioritised = concat (map (\<lambda>kind. filter (\<lambda>u. un_kind u = kind) resources) defaultRestorePriorities);
          sortedResources = canonicalName ` set prioritised
      in prioritised @ filter (\<lambda>u. canonicalName u \<notin> sortedResources) resources)"

section \<open>Applying one resource\<close>

definition ensureNamespace :: "('w, 'c) renv \<Rightarrow> string \<Rightarrow> ('w rctrl, goerr option) state" where
  "ensureNamespace env ns = (if ns = [] then State_Monad.return None
     else do {
       e \<leftarrow> rcall (rn_nsGet env ns) (\<lambda>e. [RvGetNamespace ns (e = None)]);
       if e = None then State_Monad.return None
       else rcall (rn_nsCreate env ns) (\<lambda>e. [RvCreateNamespace ns (e = None)]) })"

definition preProcessResource :: "('w, 'c) renv \<Rightarrow> unstructured \<Rightarrow> ('w rctrl, goerr + unstructured) state" where
  "preProcessResource env u = do {
     e \<leftarrow> ensureNamespace env (meta_namespace (un_meta u));
     State_Monad.return (case e of Some err \<Rightarrow> Inl err
       | None \<Rightarrow> Inr (u\<lparr>un_meta := (un_meta u)\<lparr>meta_resourceVersion := []\<rparr>\<rparr>)) }"

definition waitExec :: "RestoreResourceHookSpec list \<Rightarrow> unstructured \<Rightarrow> ('w rctrl, unit) state" where
  "waitExec specs u = upd (\<lambda>s. s\<lparr>rx_pending := rx_pending s @ [(specs, u)]\<rparr>)"

definition rcreate :: "('w, 'c) renv \<Rightarrow> api_resource \<Rightarrow> string \<Rightarrow> unstructured \<Rightarrow> ('w rctrl, goerr option) state" where
  "rcreate env gvr ns u = rcall (rn_Create env gvr ns u) (\<lambda>e. [RvCreate gvr ns u (e = None)])"

text \<open>\<open>hooks\<close> is \<^verbatim>\<open>restore.Spec.Hooks\<close>; \<open>None\<close> is a nil restore.\<close>

definition applyPodResources ::
  "('w, 'c) renv \<Rightarrow> RestoreResourceHookSpec list option \<Rightarrow> api_resource \<Rightarrow> unstructured \<Rightarrow> ('w rctrl, sres) state" where
  "applyPodResources env hooks gvr u = (case hooks of None \<Rightarrow> State_Monad.return Crash
     | Some specs \<Rightarrow> do {
         r \<leftarrow> rask (HandleInitHook (rn_hook env) True u specs);
         (case r of Panic \<Rightarrow> State_Monad.return Crash
          | Ret (_, Some err) \<Rightarrow> State_Monad.return (Fail err)
          | Ret (initRes, None) \<Rightarrow>
             let res = (case initRes of None \<Rightarrow> u | Some x \<Rightarrow> x) in do {
               e \<leftarrow> rcreate env gvr (meta_namespace (un_meta u)) res;
               if e \<noteq> None \<and> \<not> IsAlreadyExistsErr e then State_Monad.return (of_err e)
               else do { waitExec specs res; State_Monad.return Ok } }) })"

text \<open>Waiting for a workload has no effect but the time that passes.\<close>

definition WaitResource :: "('w, 'c) renv \<Rightarrow> unstructured \<Rightarrow> string \<Rightarrow> ('w rctrl, goerr option) state" where
  "WaitResource env u resourceType = (case rn_waitConv env resourceType u of
     Some err \<Rightarrow> State_Monad.return (Some err)
   | None \<Rightarrow> rcall (\<lambda>w. (None, rn_informer env resourceType (meta_namespace (un_meta u)) (meta_name (un_meta u)) w)) (\<lambda>_. []))"

definition wait_pods ::
  "('w, 'c) renv \<Rightarrow> RestoreResourceHookSpec list option \<Rightarrow> pod \<Rightarrow> ('w rctrl, sres) state" where
  "wait_pods env hooks p = (case rn_fromPod env p of Inl err \<Rightarrow> State_Monad.return (Fail err)
     | Inr u \<Rightarrow> (case hooks of None \<Rightarrow> State_Monad.return Crash
         | Some specs \<Rightarrow> do { waitExec specs u; State_Monad.return Ok }))"

definition applyWorkloadPodResources ::
  "('w, 'c) renv \<Rightarrow> RestoreResourceHookSpec list option \<Rightarrow> api_resource \<Rightarrow> unstructured \<Rightarrow> string \<Rightarrow> string \<Rightarrow> int \<Rightarrow>
   ('w rctrl, sres) state" where
  "applyWorkloadPodResources env hooks gvr u resourceType labelSelectors replicas =
     (let ns = meta_namespace (un_meta u); list = rcall (rn_listPods env ns labelSelectors) (\<lambda>_. []) in do {
       e \<leftarrow> rcreate env gvr ns u;
       if e \<noteq> None \<and> \<not> IsAlreadyExistsErr e then State_Monad.return (of_err e)
       else do {
         WaitResource env u resourceType;
         l \<leftarrow> list;
         (case l of Inl err \<Rightarrow> State_Monad.return (Fail err)
          | Inr pods \<Rightarrow> if int (length pods) < replicas then do {
                l2 \<leftarrow> list;
                (case l2 of Inl err \<Rightarrow> State_Monad.return (Fail err) | Inr pods2 \<Rightarrow> each (wait_pods env hooks) pods2) }
              else each (wait_pods env hooks) pods) } })"

fun workload_type :: "string \<Rightarrow> string" where
  "workload_type k = (if k = Deployment_kind then ''deployments'' else if k = DaemonSet_kind then ''daemonsets''
     else if k = StatefulSet_kind then ''statefulsets'' else ''replicasets'')"

definition applyWorkloadResources ::
  "('w, 'c) renv \<Rightarrow> RestoreResourceHookSpec list option \<Rightarrow> api_resource \<Rightarrow> unstructured \<Rightarrow> ('w rctrl, sres) state" where
  "applyWorkloadResources env hooks gvr u = (case rn_toWorkload env u of
     Inl err \<Rightarrow> State_Monad.return (Fail err)
   | Inr wo \<Rightarrow> (case wo_selector wo of None \<Rightarrow> State_Monad.return Crash
     | Some sel \<Rightarrow> (case (if un_kind u = DaemonSet_kind then Some 1 else wo_replicas wo) of
         None \<Rightarrow> State_Monad.return Crash
       | Some replicas \<Rightarrow> applyWorkloadPodResources env hooks gvr u (workload_type (un_kind u)) sel replicas)))"

definition applyResource ::
  "('w, 'c) renv \<Rightarrow> RestoreResourceHookSpec list option \<Rightarrow> unstructured \<Rightarrow> ('w rctrl, sres) state" where
  "applyResource env hooks u0 = (case rn_byGVK env (un_apiVersion u0) (un_kind u0) of
     Inl err \<Rightarrow> State_Monad.return (Fail err)
   | Inr gvr \<Rightarrow> do {
       p \<leftarrow> preProcessResource env u0;
       (case p of Inl err \<Rightarrow> State_Monad.return (Fail err)
        | Inr u \<Rightarrow> do {
            let ns = meta_namespace (un_meta u);
            let name = meta_name (un_meta u);
            g \<leftarrow> rcall (rn_Get env gvr ns name)
               (\<lambda>r. [RvGet gvr ns name (case r of Inl _ \<Rightarrow> None | Inr x \<Rightarrow> Some x)]);
            (case g of Inr existingResource \<Rightarrow> State_Monad.return Ok
             | Inl _ \<Rightarrow>
                if un_kind u \<in> {Deployment_kind, DaemonSet_kind, StatefulSet_kind, Replicaset_kind}
                then applyWorkloadResources env hooks gvr u
                else if un_kind u = Pod_kind then applyPodResources env hooks gvr u
                else do {
                  e \<leftarrow> rcreate env gvr ns u;
                  State_Monad.return (if e \<noteq> None \<and> \<not> IsAlreadyExistsErr e then of_err e else Ok) }) }) })"

section \<open>Cleanup\<close>

definition isCleanupNeeded ::
  "('w, 'c) renv \<Rightarrow> api_resource \<Rightarrow> RestoreResource \<Rightarrow> string \<Rightarrow> ('w rctrl, bool) state" where
  "isCleanupNeeded env gvr res restoreName = do {
     g \<leftarrow> rcall (rn_Get env gvr (rx_namespace res) (rx_name res))
        (\<lambda>r. [RvGet gvr (rx_namespace res) (rx_name res) (case r of Inl _ \<Rightarrow> None | Inr x \<Rightarrow> Some x)]);
     State_Monad.return (case g of Inl err \<Rightarrow> False
       | Inr existing \<Rightarrow>
          if meta_annotations (un_meta existing) = Map.empty \<or>
             ann_value (un_meta existing) annRestoreIdentifier \<noteq> restoreName then False
          else if un_kind existing = PVC_kind \<or> un_kind existing = PV_kind then False
          else True) }"

definition deleteRestoredResource ::
  "('w, 'c) renv \<Rightarrow> RestoreResource \<Rightarrow> Restore \<Rightarrow> ('w rctrl, goerr option) state" where
  "deleteRestoredResource env res restore = (case rn_byGVK env (rx_apiVersion res) (rx_kind res) of
     Inl err \<Rightarrow> State_Monad.return (Some err)
   | Inr gvr \<Rightarrow> do {
       need \<leftarrow> isCleanupNeeded env gvr res (rs_nm restore);
       if \<not> need then State_Monad.return None
       else rcall (rn_Delete env gvr (rx_namespace res) (rx_name res))
              (\<lambda>e. [RvDelete gvr (rx_namespace res) (rx_name res) (e = None)]) })"

section \<open>Hooks of a restore\<close>

text \<open>One entry per hook of the specification. Without includes the filter hands out the set of all
  namespaces itself, which later hooks may shrink; its entry is \<open>None\<close> then.\<close>

record hook_entry =
  hke_spec :: CommonHookSpec
  hke_namespaces :: "string set option"
  hke_pods :: "string set list"

definition skipped_entry :: hook_entry where
  "skipped_entry = \<lparr>hke_spec = \<lparr>ch_name = [], ch_includeNamespaces = [], ch_excludeNamespaces = [], ch_includeResources = [],
     ch_excludeResources = [], ch_labelSelector = None, ch_continueFlag = False, ch_hooks = []\<rparr>,
     hke_namespaces = Some {}, hke_pods = []\<rparr>"

definition exec_common :: "RestoreResourceHookSpec \<Rightarrow> CommonHookSpec" where
  "exec_common h = (restore_common h)\<lparr>ch_continueFlag := True,
     ch_hooks := map (\<lambda>r. map_option exec_of (rr_exec r)) (rk_postHooks h)\<rparr>"

fun ocollect :: "('a \<Rightarrow> 'b outcome) \<Rightarrow> 'a list \<Rightarrow> 'b list outcome" where
  "ocollect f [] = Ret []"
| "ocollect f (x # xs) = obind (f x) (\<lambda>y. obind (ocollect f xs) (\<lambda>ys. Ret (y # ys)))"

text \<open>A hook without an exec part is a nil dereference.\<close>

fun collect_hooks ::
  "'w hook_env \<Rightarrow> 'w \<Rightarrow> string set \<Rightarrow> RestoreResourceHookSpec list \<Rightarrow> (hook_entry list \<times> string set) outcome" where
  "collect_hooks env w allNs [] = Ret ([], allNs)"
| "collect_hooks env w allNs (h # hs) =
     (if rk_postHooks h = [] then
        obind (collect_hooks env w allNs hs) (\<lambda>(es, ns). Ret (skipped_entry # es, ns))
      else if list_ex (\<lambda>r. rr_exec r = None) (rk_postHooks h) then Panic
      else (case FilterHookNamespaces allNs (rk_includeNamespaces h) (rk_excludeNamespaces h) of (nss, allNs') \<Rightarrow>
        obind (ocollect (\<lambda>ns. GetAllPodsForNamespace env ns (rk_labelSelector h) (rk_includeResources h)
                 (rk_excludeResources h) w) (he_order env nss)) (\<lambda>pods.
        obind (collect_hooks env w allNs' hs) (\<lambda>(es, ns).
          Ret (\<lparr>hke_spec = exec_common h,
                hke_namespaces = (if set (rk_includeNamespaces h) = {} then None else Some nss),
                hke_pods = pods\<rparr> # es, ns)))))"

definition collectAllRestoreHooksPods ::
  "'w hook_env \<Rightarrow> Restore \<Rightarrow> 'w \<Rightarrow> (goerr + (hook_entry list \<times> string set)) outcome" where
  "collectAllRestoreHooksPods env restore w = (case he_namespaces env w of
     Inl err \<Rightarrow> Ret (Inl err)
   | Inr nss \<Rightarrow> obind (collect_hooks env w (set nss) (rp_hooks (rs_spec restore))) (\<lambda>r. Ret (Inr r)))"

text \<open>The goroutines of \<^verbatim>\<open>waitExec\<close>: the errors they send.\<close>

definition run_pending ::
  "('w, 'c) renv \<Rightarrow> RestoreResourceHookSpec list \<times> unstructured \<Rightarrow> 'w hstate \<Rightarrow> goerr list outcome \<times> 'w hstate" where
  "run_pending env task h = (case rn_toPod env (snd task) of
     Inl err \<Rightarrow> (Ret [err], h)
   | Inr p \<Rightarrow> (case GroupRestoreExecHooks (rn_hook env) (fst task) (Some p) (hs_world h) of
       Panic \<Rightarrow> (Panic, h)
     | Ret by \<Rightarrow> (case HandleHooks (rn_hook env) (rn_Now env) (Some p) by (rn_podEvents env p (hs_world h)) h of
         (errs, h') \<Rightarrow> (Ret errs, h'))))"

fun run_all_pending ::
  "('w, 'c) renv \<Rightarrow> (RestoreResourceHookSpec list \<times> unstructured) list \<Rightarrow> ('w rctrl, goerr list outcome) state" where
  "run_all_pending env [] = State_Monad.return (Ret [])"
| "run_all_pending env (t # ts) = do {
     r \<leftarrow> with_hooks (run_pending env t);
     (case r of Panic \<Rightarrow> State_Monad.return Panic
      | Ret es \<Rightarrow> do {
          rs \<leftarrow> run_all_pending env ts;
          State_Monad.return (case rs of Panic \<Rightarrow> Panic | Ret es' \<Rightarrow> Ret (es @ es')) }) }"

text \<open>The number of errors received is logged, \<open>None\<close> after a panic.\<close>

definition wait_hooks :: "('w, 'c) renv \<Rightarrow> ('w rctrl, goerr list outcome) state" where
  "wait_hooks env = do {
     ts \<leftarrow> look rx_pending;
     upd (\<lambda>s. s\<lparr>rx_pending := []\<rparr>);
     r \<leftarrow> run_all_pending env ts;
     upd (\<lambda>s. s\<lparr>rx_log := rx_log s @ [RvHooksWaited (case r of Panic \<Rightarrow> None | Ret es \<Rightarrow> Some (length es))]\<rparr>);
     State_Monad.return r }"

definition external_namespace ::
  "('w, 'c) renv \<Rightarrow> hook_entry \<Rightarrow> nat \<times> string \<Rightarrow> ('w rctrl, sres) state" where
  "external_namespace env e x = (case x of (i, ns) \<Rightarrow>
     if length (hke_pods e) \<le> i then State_Monad.return Crash
     else each (\<lambda>pod. if ch_hooks (hke_spec e) = [] then State_Monad.return Ok
            else with_hooks (run_state (CommonExecuteHook (rn_hook env) (hke_spec e) ns pod PostHookPhase)))
          (he_order (rn_hook env) (hke_pods e ! i)))"

definition external_hook :: "('w, 'c) renv \<Rightarrow> string set \<Rightarrow> hook_entry \<Rightarrow> ('w rctrl, sres) state" where
  "external_hook env allNs e = each (external_namespace env e)
     (let nss = rn_order2 env (case hke_namespaces e of None \<Rightarrow> allNs | Some s \<Rightarrow> s)
      in zip [0..<length nss] nss)"

section \<open>All resources\<close>

definition applyCRD :: "('w, 'c) renv \<Rightarrow> 'c \<Rightarrow> Restore \<Rightarrow> ('w rctrl, sres) state" where
  "applyCRD env c restore = each (applyResource env (Some (rp_hooks (rs_spec restore))))
     (ix_ByIndex (rn_ix env) resourceIndex crdName c)"

definition restorable :: "('w, 'c) renv \<Rightarrow> 'c \<Rightarrow> unstructured list" where
  "restorable env c = prioritiseResources
     (filter (\<lambda>u. un_kind u \<notin> excludeRestoreResources) (ix_List (rn_ix env) c))"

text \<open>Errors of the status updates in here are logged only.\<close>

definition after_resources ::
  "('w, 'c) renv \<Rightarrow> hook_entry list \<Rightarrow> string set \<Rightarrow> Restore \<Rightarrow> ('w rctrl, Restore \<times> sres) state" where
  "after_resources env entries allNs restore0 = do {
     (restore1, _) \<leftarrow> updateRestoreState env restore0 RestoreStateCompleted;
     (restore, _) \<leftarrow> updateRestoreStage env (set_rstate RestoreStateProcessing restore1) RestoreStagePostHook;
     errs \<leftarrow> wait_hooks env;
     (case errs of Panic \<Rightarrow> State_Monad.return (restore, Crash)
      | Ret es \<Rightarrow> if 0 < length es
          then State_Monad.return (restore, Fail (errorf ''failure while executing post exec hooks''))
          else do {
            r \<leftarrow> each (external_hook env allNs) entries;
            if r \<noteq> Ok then State_Monad.return (restore, r)
            else do {
              (restore2, _) \<leftarrow> updateRestoreState env restore RestoreStateCompleted;
              State_Monad.return (restore2, Ok) } }) }"

definition applyIndexedResource :: "('w, 'c) renv \<Rightarrow> 'c \<Rightarrow> Restore \<Rightarrow> ('w rctrl, Restore \<times> sres) state" where
  "applyIndexedResource env c restore = do {
     h \<leftarrow> rask (collectAllRestoreHooksPods (rn_hook env) restore);
     (case h of Panic \<Rightarrow> State_Monad.return (restore, Crash)
      | Ret (Inl err) \<Rightarrow> State_Monad.return (restore, Fail err)
      | Ret (Inr (entries, allNs)) \<Rightarrow> do {
          r \<leftarrow> each (applyResource env (Some (rp_hooks (rs_spec restore)))) (restorable env c);
          if r \<noteq> Ok then State_Monad.return (restore, r)
          else after_resources env entries allNs restore }) }"

definition fail_restore ::
  "('w, 'c) renv \<Rightarrow> string \<Rightarrow> Restore \<Rightarrow> ('w rctrl, Restore \<times> goerr option) state" where
  "fail_restore env reason restore =
     updateRestoreStatus env (set_reason reason (set_rstate RestoreStateFailed restore))"

definition syncMetadataRestore ::
  "('w, 'c) renv \<Rightarrow> Restore \<Rightarrow> 'c \<Rightarrow> ('w rctrl, (Restore \<times> goerr option) outcome) state" where
  "syncMetadataRestore env restore c =
     (if rs_stage restore = RestoreStageFinished \<and> rs_state restore = RestoreStateCompleted
      then State_Monad.return (Ret (restore, None))
      else do {
        r \<leftarrow> applyCRD env c restore;
        (case r of Crash \<Rightarrow> State_Monad.return Panic
         | Fail err \<Rightarrow> do {
             x \<leftarrow> fail_restore env (''Failed to apply CRD resources. '' @ err_msg err) restore;
             State_Monad.return (Ret x) }
         | Ok \<Rightarrow> do {
             (restore1, r1) \<leftarrow> applyIndexedResource env c restore;
             (case r1 of Crash \<Rightarrow> State_Monad.return Panic
              | Fail err \<Rightarrow> do {
                  x \<leftarrow> fail_restore env (''Failed to apply resources. '' @ err_msg err) restore1;
                  State_Monad.return (Ret x) }
              | Ok \<Rightarrow> do {
                  x \<leftarrow> updateRestoreState env restore1 RestoreStateCompleted;
                  State_Monad.return (Ret x) }) }) })"

section \<open>The order of creation is a stable sort\<close>

definition priority :: "unstructured \<Rightarrow> nat" where
  "priority u = length (takeWhile (\<lambda>k. k \<noteq> un_kind u) defaultRestorePriorities)"

definition plain_type :: "unstructured \<Rightarrow> bool" where
  "plain_type u \<longleftrightarrow> CHR '':'' \<notin> set (meta_namespace (un_meta u)) \<and> CHR '':'' \<notin> set (un_apiVersion u) \<and> CHR '':'' \<notin> set (un_kind u)"

lemma sort_key_first:
  fixes h :: "'a \<Rightarrow> nat"
  shows "sort_key (\<lambda>x. if Q x then 0 else Suc (h x)) xs = filter Q xs @ sort_key h (filter (\<lambda>x. \<not> Q x) xs)"
proof (rule properties_for_sort_key)
  let ?f = "\<lambda>x. if Q x then 0 else Suc (h x)"
  show "mset (filter Q xs @ sort_key h (filter (\<lambda>x. \<not> Q x) xs)) = mset xs"
    by (simp add: mset_sort flip: multiset_partition)
  show "filter (\<lambda>x. ?f k = ?f x) (filter Q xs @ sort_key h (filter (\<lambda>x. \<not> Q x) xs)) = filter (\<lambda>x. ?f k = ?f x) xs" for k
  proof (cases "Q k")
    case True
    have "filter Q (sort_key h (filter (\<lambda>x. \<not> Q x) xs)) = []" by (simp add: filter_empty_conv)
    then show ?thesis using True by (simp add: filter_filter if_distrib [of "(=) 0"] cong: if_cong)
  next
    case False
    have "filter (\<lambda>x. ?f k = ?f x) (sort_key h (filter (\<lambda>x. \<not> Q x) xs)) =
        filter (\<lambda>x. h x = h k) (sort_key h (filter (\<lambda>x. \<not> Q x) xs))"
      using False by (intro filter_cong) auto
    also have "\<dots> = filter (\<lambda>x. h x = h k) (filter (\<lambda>x. \<not> Q x) xs)" by (rule sort_key_stable)
    finally have 1: "filter (\<lambda>x. ?f k = ?f x) (sort_key h (filter (\<lambda>x. \<not> Q x) xs)) =
        filter (\<lambda>x. h x = h k) (filter (\<lambda>x. \<not> Q x) xs)" .
    have 2: "filter (\<lambda>x. ?f k = ?f x) (filter Q xs) = []" using False by (simp add: filter_empty_conv)
    have 3: "filter (\<lambda>x. h x = h k) (filter (\<lambda>x. \<not> Q x) xs) = filter (\<lambda>x. ?f k = ?f x) xs"
      unfolding filter_filter using False by (intro filter_cong) auto
    show ?thesis unfolding filter_append 1 2 3 by simp
  qed
  have 0: "map ?f (filter Q xs) = replicate (length (filter Q xs)) 0"
    by (rule replicate_eqI) auto
  have S: "map ?f (sort_key h (filter (\<lambda>x. \<not> Q x) xs)) = map Suc (map h (sort_key h (filter (\<lambda>x. \<not> Q x) xs)))" by auto
  have "sorted (map Suc ys)" if "sorted ys" for ys :: "nat list" using that by (induction ys) auto
  then show "sorted (map ?f (filter Q xs @ sort_key h (filter (\<lambda>x. \<not> Q x) xs)))"
    unfolding map_append 0 S by (auto simp: sorted_append simp del: map_map)
qed

lemma buckets_sort:
  assumes "distinct ks"
  shows "concat (map (\<lambda>k. filter (\<lambda>x. g x = k) xs) ks) @ filter (\<lambda>x. g x \<notin> set ks) xs =
     sort_key (\<lambda>x. length (takeWhile (\<lambda>k. k \<noteq> g x) ks)) xs"
  using assms
proof (induction ks arbitrary: xs)
  case Nil
  have "sort_key (\<lambda>x. 0 :: nat) xs = xs" by (induction xs) (auto simp: insort_is_Cons)
  then show ?case by simp
next
  case (Cons k ks)
  let ?zs = "filter (\<lambda>x. \<not> g x = k) xs"
  have b: "map (\<lambda>k'. filter (\<lambda>x. g x = k') xs) ks = map (\<lambda>k'. filter (\<lambda>x. g x = k') ?zs) ks"
    using Cons.prems by (intro map_cong refl) (auto simp: filter_filter intro!: filter_cong)
  have r: "filter (\<lambda>x. g x \<notin> set (k # ks)) xs = filter (\<lambda>x. g x \<notin> set ks) ?zs"
    by (simp add: filter_filter conj_commute)
  have f: "(\<lambda>x. length (takeWhile (\<lambda>k'. k' \<noteq> g x) (k # ks))) =
      (\<lambda>x. if g x = k then 0 else Suc (length (takeWhile (\<lambda>k'. k' \<noteq> g x) ks)))" by (auto simp: fun_eq_iff)
  have IH: "concat (map (\<lambda>k'. filter (\<lambda>x. g x = k') ?zs) ks) @ filter (\<lambda>x. g x \<notin> set ks) ?zs =
      sort_key (\<lambda>x. length (takeWhile (\<lambda>k'. k' \<noteq> g x) ks)) ?zs" using Cons.prems by (intro Cons.IH) simp
  show ?case unfolding f sort_key_first r list.map concat.simps b append_assoc IH ..
qed

lemma canonicalName_kind:
  assumes "plain_type u" "plain_type v" "canonicalName u = canonicalName v"
  shows "un_kind u = un_kind v"
proof -
  have "un_apiVersion u @ '':'' @ un_kind u @ '':'' @ meta_name (un_meta u) =
      un_apiVersion v @ '':'' @ un_kind v @ '':'' @ meta_name (un_meta v)"
    using assms append_sep_inj [of "meta_namespace (un_meta u)" "CHR '':''" _ "meta_namespace (un_meta v)"]
    by (auto simp: canonicalName_def plain_type_def)
  then have "un_kind u @ '':'' @ meta_name (un_meta u) = un_kind v @ '':'' @ meta_name (un_meta v)"
    using assms append_sep_inj [of "un_apiVersion u" "CHR '':''" _ "un_apiVersion v"] by (auto simp: plain_type_def)
  then show ?thesis using assms append_sep_inj [of "un_kind u" "CHR '':''" _ "un_kind v"] by (auto simp: plain_type_def)
qed

text \<open>C31: for resources whose namespace, version and kind have no colon, the order in which resources are
  created is the stable sort by the position of their kind in the priority list, kinds that are not in
  the list last; in particular no resource is lost or created twice.\<close>

theorem prioritiseResources_sorts:
  assumes "\<forall>u \<in> set rs. plain_type u"
  shows "prioritiseResources rs = sort_key priority rs"
proof -
  let ?p = "concat (map (\<lambda>k. filter (\<lambda>u. un_kind u = k) rs) defaultRestorePriorities)"
  have "canonicalName u \<notin> canonicalName ` set ?p \<longleftrightarrow> un_kind u \<notin> set defaultRestorePriorities" if "u \<in> set rs" for u
  proof -
    have "canonicalName u \<in> canonicalName ` set ?p" if "un_kind u \<in> set defaultRestorePriorities"
      using that \<open>u \<in> set rs\<close> by (intro imageI) simp
    moreover have "un_kind u \<in> set defaultRestorePriorities" if c: "canonicalName u = canonicalName v" and v: "v \<in> set ?p" for v
    proof -
      have "v \<in> set rs" "un_kind v \<in> set defaultRestorePriorities" using v by auto
      then show ?thesis using canonicalName_kind [OF _ _ c] assms \<open>u \<in> set rs\<close> by simp
    qed
    ultimately show ?thesis by blast
  qed
  then have "filter (\<lambda>u. canonicalName u \<notin> canonicalName ` set ?p) rs = filter (\<lambda>u. un_kind u \<notin> set defaultRestorePriorities) rs"
    by (rule filter_cong [OF refl])
  moreover have "distinct defaultRestorePriorities" by (simp add: defaultRestorePriorities_def)
  ultimately show ?thesis
    unfolding prioritiseResources_def Let_def priority_def by (simp only: buckets_sort)
qed

theorem prioritiseResources_sorts_witness:
  "prioritiseResources [demo_un Pod_kind ''n'' ''p'', demo_un ''Widget'' ''n'' ''w'', demo_un Secret_kind ''n'' ''s''] =
     [demo_un Secret_kind ''n'' ''s'', demo_un Pod_kind ''n'' ''p'', demo_un ''Widget'' ''n'' ''w'']"
proof -
  let ?rs = "[demo_un Pod_kind ''n'' ''p'', demo_un ''Widget'' ''n'' ''w'', demo_un Secret_kind ''n'' ''s'']"
  have "\<forall>u \<in> set ?rs. plain_type u" by (simp add: plain_type_def kind_defs) (simp add: demo_un_def)
  then have "prioritiseResources ?rs = sort_key priority ?rs" by (rule prioritiseResources_sorts)
  also have "\<dots> = [demo_un Secret_kind ''n'' ''s'', demo_un Pod_kind ''n'' ''p'', demo_un ''Widget'' ''n'' ''w'']"
    by (simp add: priority_def defaultRestorePriorities_def kind_defs)
  finally show ?thesis .
qed

end
