(* ===== verification/Restore_Volumes.thy ===== *)
theory Restore_Volumes
  imports Restore_Apply
begin

text \<open>
  The volume part of a restore, \<^verbatim>\<open>controllers/restore/volumerestore.go\<close>: the restore contents
  created from the volume backup contents of the backup, waiting for them, and their removal.

  A claim that is handed to a restore content is shared with the map it is taken from, and its volume
  name is cleared through the pointer; nothing reads that field again in the pass, so the map keeps
  its entries here.
\<close>

definition AnnBackupLocationParam :: string where "AnnBackupLocationParam = ''kahu.io/backup-location-parameter''"

definition getVRCName :: "string \<Rightarrow> string" where "getVRCName uuid = ''vrc-'' @ uuid"

definition volumeRestoreFinished :: "Restore \<Rightarrow> bool" where
  "volumeRestoreFinished restore = (rs_state restore = RestoreStateCompleted)"

definition volumeRestoreCompleted :: "VolumeRestoreState \<Rightarrow> bool" where
  "volumeRestoreCompleted st = (vt_progress st = 100)"

section \<open>Reading the cache\<close>

fun convert_all :: "(unstructured \<Rightarrow> goerr + 'a) \<Rightarrow> unstructured list \<Rightarrow> goerr + 'a list" where
  "convert_all f [] = Inr []"
| "convert_all f (u # us) = (case f u of
     Inl err \<Rightarrow> Inl (wrap err ''Failed to covert unstructured resource to PVC for resolution'')
   | Inr x \<Rightarrow> (case convert_all f us of Inl err \<Rightarrow> Inl err | Inr xs \<Rightarrow> Inr (x # xs)))"

definition parseRestorePVC :: "('w, 'c) renv \<Rightarrow> 'c \<Rightarrow> goerr + pvc list" where
  "parseRestorePVC env c = convert_all (cv_toPVC (rn_conv env)) (ix_ByIndex (rn_ix env) resourceIndex PVC_kind c)"

definition parseVBC :: "('w, 'c) renv \<Rightarrow> 'c \<Rightarrow> goerr + VolumeBackupContent list" where
  "parseVBC env c = convert_all (rn_toVBC env) (ix_ByIndex (rn_ix env) resourceIndex VBC_kind c)"

section \<open>Restore contents\<close>

definition pvc_map :: "pvc list \<Rightarrow> string \<rightharpoonup> pvc" where
  "pvc_map pvcs = fold (\<lambda>p m. if pvc_volumeName p = [] then m else m(pvc_volumeName p \<mapsto> p)) pvcs Map.empty"

definition restore_volumes :: "(string \<rightharpoonup> pvc) \<Rightarrow> VolumeBackupContent \<Rightarrow> RestoreVolumeSpec list" where
  "restore_volumes m vbc = List.map_filter (\<lambda>st. map_option (\<lambda>p.
     \<lparr>rv_backupHandle = vs_backupHandle st, rv_attributes = vs_attributes st, rv_claim = p\<lparr>pvc_volumeName := []\<rparr>\<rparr>)
     (m (vs_volumeName st))) (vb_states vbc)"

fun construct_contents ::
  "('w, 'c) renv \<Rightarrow> string \<Rightarrow> (string \<rightharpoonup> pvc) \<Rightarrow> VolumeBackupContent list \<Rightarrow> ('w rctrl, VolumeRestoreContent list) state" where
  "construct_contents env restoreName m [] = State_Monad.return []"
| "construct_contents env restoreName m (vbc # vbcs) = (let volumes = restore_volumes m vbc in
     if volumes = [] then construct_contents env restoreName m vbcs
     else do {
       now \<leftarrow> rask (rn_Now env);
       uuid \<leftarrow> rcall (rn_uuid env) (\<lambda>_. []);
       rest \<leftarrow> construct_contents env restoreName m vbcs;
       State_Monad.return (\<lparr>
          vr_meta = zero_meta\<lparr>meta_name := getVRCName uuid, meta_labels := [volumeContentRestoreLabel \<mapsto> restoreName]\<rparr>,
          vr_backupName = vb_backupName vbc, vr_restoreName = restoreName, vr_volumes = volumes,
          vr_provider = vb_provider vbc,
          vr_parameters = (case meta_annotations (vb_meta vbc) AnnBackupLocationParam of None \<Rightarrow> Map.empty
             | Some p \<Rightarrow> rn_unmarshalParams env p),
          vr_phase = VRCPhaseInit, vr_startTimestamp = Some now, vr_failureReason = [], vr_states = []\<rparr> # rest) })"

definition constructVolumeRestoreContent ::
  "('w, 'c) renv \<Rightarrow> string \<Rightarrow> 'c \<Rightarrow> pvc list \<Rightarrow> ('w rctrl, goerr + VolumeRestoreContent list) state" where
  "constructVolumeRestoreContent env restoreName c pvcs = (case parseVBC env c of
     Inl err \<Rightarrow> State_Monad.return (Inl (wrap err ''Unable to parse Volume backup content''))
   | Inr vbcs \<Rightarrow> do {
       vrcs \<leftarrow> construct_contents env restoreName (pvc_map pvcs) vbcs;
       State_Monad.return (Inr vrcs) })"

definition ensureVolumeRestoreContent :: "('w, 'c) renv \<Rightarrow> VolumeRestoreContent list \<Rightarrow> ('w rctrl, sres) state" where
  "ensureVolumeRestoreContent env vrcs = each (\<lambda>vrc. do {
     e \<leftarrow> rcall (rn_createVRC env vrc) (\<lambda>e. [RvCreateVRC vrc (e = None)]);
     State_Monad.return (of_err e) }) vrcs"

text \<open>Every storage class is entered twice in the list the loop searches; the second application finds the
  class created by the first. A claim without a storage class name is a nil dereference.\<close>

fun check_classes :: "('w, 'c) renv \<Rightarrow> unstructured list \<Rightarrow> goerr + unstructured list" where
  "check_classes env [] = Inr []"
| "check_classes env (u # us) = (case rn_toSC env u of
     Some err \<Rightarrow> Inl (wrap err ''Failed to covert unstructured resource to PVC for resolution'')
   | None \<Rightarrow> (case check_classes env us of Inl err \<Rightarrow> Inl err | Inr xs \<Rightarrow> Inr (u # u # xs)))"

definition apply_class :: "('w, 'c) renv \<Rightarrow> unstructured \<Rightarrow> ('w rctrl, sres) state" where
  "apply_class env u = do {
     r \<leftarrow> applyResource env None u;
     State_Monad.return (case r of Fail err \<Rightarrow> Fail (wrap err ''Unable to create storage class resource'') | _ \<Rightarrow> r) }"

definition ensure_class :: "('w, 'c) renv \<Rightarrow> unstructured list \<Rightarrow> pvc \<Rightarrow> ('w rctrl, sres) state" where
  "ensure_class env classes p = (case pvc_storageClassName p of
     None \<Rightarrow> State_Monad.return Crash
   | Some sc \<Rightarrow> (let found = filter (\<lambda>u. meta_name (un_meta u) = sc) classes in
       seq (each (apply_class env) found)
         (State_Monad.return (if found = [] then Fail (errorf (''restore cache donot have storage class ('' @ sc @ '').Check backup data'')) else Ok))))"

definition ensureStorageClass :: "('w, 'c) renv \<Rightarrow> 'c \<Rightarrow> pvc list \<Rightarrow> ('w rctrl, sres) state" where
  "ensureStorageClass env c pvcs = (case check_classes env (ix_ByIndex (rn_ix env) resourceIndex SC_kind c) of
     Inl err \<Rightarrow> State_Monad.return (Fail err)
   | Inr classes \<Rightarrow> each (ensure_class env classes) pvcs)"

definition ensurePVCNamespace :: "('w, 'c) renv \<Rightarrow> pvc list \<Rightarrow> ('w rctrl, sres) state" where
  "ensurePVCNamespace env pvcs = each (\<lambda>ns. do { e \<leftarrow> ensureNamespace env ns; State_Monad.return (of_err e) })
     (rn_order2 env ((\<lambda>p. meta_namespace (pvc_meta p)) ` set pvcs))"

definition volumeRestore ::
  "('w, 'c) renv \<Rightarrow> Restore \<Rightarrow> pvc list \<Rightarrow> VolumeRestoreContent list \<Rightarrow> 'c \<Rightarrow>
   ('w rctrl, (Restore \<times> goerr option) outcome) state" where
  "volumeRestore env restore pvcs vrcs c = do {
     r \<leftarrow> seq (ensurePVCNamespace env pvcs) (seq (ensureStorageClass env c pvcs) (ensureVolumeRestoreContent env vrcs));
     (case r of Crash \<Rightarrow> State_Monad.return Panic
      | Fail err \<Rightarrow> State_Monad.return (Ret (restore, Some err))
      | Ok \<Rightarrow> do {
          x \<leftarrow> updateRestoreState env restore RestoreStateProcessing;
          State_Monad.return (Ret x) }) }"

section \<open>Waiting for the volumes\<close>

text \<open>The restore is changed through its pointer when a claim is missing or not bound, so the changed
  object is part of the result.\<close>

fun check_claims ::
  "('w, 'c) renv \<Rightarrow> Restore \<Rightarrow> pvc list \<Rightarrow> ('w rctrl, Restore \<times> bool \<times> goerr option) state" where
  "check_claims env restore [] = State_Monad.return (restore, True, None)"
| "check_claims env restore (p # ps) = do {
     g \<leftarrow> rcall (rn_pvcGet env (meta_namespace (pvc_meta p)) (meta_name (pvc_meta p))) (\<lambda>_. []);
     (case g of
        Inl err \<Rightarrow>
          if IsNotFound (Some err) then do {
            let failed = set_reason (''Restore PVC ('' @ meta_name (pvc_meta p) @ '') not available'')
                           (set_rstate RestoreStateFailed restore);
            (_, e) \<leftarrow> updateRestoreStatus env failed;
            State_Monad.return (failed, False, e) }
          else State_Monad.return (restore, False, Some err)
      | Inr k8sPVC \<Rightarrow>
          if pvc_volumeName k8sPVC = [] then do {
            let failed = set_reason (''Restored PVC ('' @ meta_name (pvc_meta p) @ '') is not bound. Considering PVC restore failed'')
                           (set_rstate RestoreStateFailed restore);
            (_, e) \<leftarrow> updateRestoreStatus env failed;
            State_Monad.return (failed, False, e) }
          else check_claims env restore ps) }"

definition checkPVCRestored ::
  "('w, 'c) renv \<Rightarrow> Restore \<Rightarrow> 'c \<Rightarrow> ('w rctrl, Restore \<times> bool \<times> goerr option) state" where
  "checkPVCRestored env restore c = (case parseRestorePVC env c of
     Inl err \<Rightarrow> State_Monad.return (restore, False, Some err)
   | Inr pvcs \<Rightarrow> check_claims env restore pvcs)"

definition list_vrcs :: "('w, 'c) renv \<Rightarrow> Restore \<Rightarrow> ('w rctrl, VolumeRestoreContent list \<times> goerr option) state" where
  "list_vrcs env restore = rcall (rn_listVRC env (rs_nm restore))
     (\<lambda>(vs, e). [RvListVRC (rs_nm restore) (if e = None then Some (map vr_name vs) else None)])"

text \<open>Annotate, then record the volume stage as completed.\<close>

definition volumes_done :: "('w, 'c) renv \<Rightarrow> Restore \<Rightarrow> ('w rctrl, Restore option \<times> goerr option) state" where
  "volumes_done env restore = do {
     (a, err) \<leftarrow> annotateRestore env annVolumeRestoreCompleted ''true'' restore;
     if err \<noteq> None then State_Monad.return (a, err)
     else do {
       (r, e) \<leftarrow> updateRestoreState env (the a) RestoreStateCompleted;
       State_Monad.return (Some r, e) } }"

definition checkVolumeRestoreStatus ::
  "('w, 'c) renv \<Rightarrow> nat \<Rightarrow> Restore \<Rightarrow> ('w rctrl, Restore option \<times> goerr option) state" where
  "checkVolumeRestoreStatus env pvcCount restore = do {
     (vrcs, err) \<leftarrow> list_vrcs env restore;
     if err \<noteq> None \<or> length vrcs = 0 then State_Monad.return (Some restore, err)
     else if length (filter volumeRestoreCompleted (concat (map vr_states vrcs))) \<noteq> pvcCount
     then State_Monad.return (Some restore, None)
     else volumes_done env restore }"

definition syncVolumeRestore ::
  "('w, 'c) renv \<Rightarrow> Restore \<Rightarrow> 'c \<Rightarrow> ('w rctrl, (Restore option \<times> goerr option) outcome) state" where
  "syncVolumeRestore env restore c =
     (if volumeRestoreFinished restore then State_Monad.return (Ret (Some restore, None))
      else if meta_annotations (rs_meta restore) annVolumeRestoreCompleted \<noteq> None then do {
        (restore1, restored, err) \<leftarrow> checkPVCRestored env restore c;
        if err \<noteq> None then State_Monad.return (Ret (Some restore1, err))
        else if \<not> restored then State_Monad.return (Ret (Some restore1, None))
        else do {
          (r, e) \<leftarrow> updateRestoreState env restore1 RestoreStateCompleted;
          State_Monad.return (Ret (Some r, e)) } }
      else (case parseRestorePVC env c of
        Inl err \<Rightarrow> do {
          (r, e) \<leftarrow> fail_restore env ''Unable to parse PVC'' restore;
          State_Monad.return (Ret (Some r, e)) }
      | Inr pvcs \<Rightarrow>
          if length pvcs = 0 then do { x \<leftarrow> volumes_done env restore; State_Monad.return (Ret x) }
          else if rs_state restore = RestoreStateProcessing then do {
            x \<leftarrow> checkVolumeRestoreStatus env (length pvcs) restore;
            State_Monad.return (Ret x) }
          else do {
            v \<leftarrow> constructVolumeRestoreContent env (rs_nm restore) c pvcs;
            (case v of
               Inl err \<Rightarrow> State_Monad.return (Ret (Some restore,
                  Some (wrap err ''unable to construct volume restore content list'')))
             | Inr vrcs \<Rightarrow> do {
                 x \<leftarrow> volumeRestore env restore pvcs vrcs c;
                 State_Monad.return (case x of Panic \<Rightarrow> Panic | Ret (r, e) \<Rightarrow> Ret (Some r, e)) }) }))"

section \<open>Removal\<close>

definition fully_restored :: "Restore \<Rightarrow> bool" where
  "fully_restored restore \<longleftrightarrow> rs_state restore = RestoreStateCompleted \<and> rs_stage restore = RestoreStageFinished"

fun prepareVRCCleanup :: "('w, 'c) renv \<Rightarrow> VolumeRestoreContent list \<Rightarrow> ('w rctrl, goerr option) state" where
  "prepareVRCCleanup env [] = State_Monad.return None"
| "prepareVRCCleanup env (vrc # vrcs) =
     (if meta_deletionTimestamp (vr_meta vrc) \<noteq> None then prepareVRCCleanup env vrcs
      else do {
        (_, err) \<leftarrow> annotateVolRestoreContent env annVolumeResourceCleanup vrc;
        (case err of Some e \<Rightarrow> State_Monad.return (Some (wrap e ''Unable to annotate volume restore content''))
         | None \<Rightarrow> prepareVRCCleanup env vrcs) })"

fun delete_vrcs :: "('w, 'c) renv \<Rightarrow> VolumeRestoreContent list \<Rightarrow> ('w rctrl, goerr option) state" where
  "delete_vrcs env [] = State_Monad.return None"
| "delete_vrcs env (vrc # vrcs) =
     (if meta_deletionTimestamp (vr_meta vrc) \<noteq> None then delete_vrcs env vrcs
      else do {
        err \<leftarrow> rcall (rn_deleteVRC env (vr_name vrc)) (\<lambda>e. [RvDeleteVRC (vr_name vrc) (e = None)]);
        (case err of Some e \<Rightarrow> State_Monad.return (Some (wrap e ''Unable to delete volume backup content''))
         | None \<Rightarrow> delete_vrcs env vrcs) })"

definition removeVolumeRestore :: "('w, 'c) renv \<Rightarrow> Restore \<Rightarrow> ('w rctrl, goerr option) state" where
  "removeVolumeRestore env restore = do {
     (vrcs, err) \<leftarrow> list_vrcs env restore;
     (case err of Some e \<Rightarrow> State_Monad.return (Some (wrap e ''unable to get volume restore content list''))
      | None \<Rightarrow> do {
          (if \<not> fully_restored restore then prepareVRCCleanup env vrcs else State_Monad.return None);
          delete_vrcs env vrcs }) }"

fun cleanup_all :: "('w, 'c) renv \<Rightarrow> Restore \<Rightarrow> RestoreResource list \<Rightarrow> ('w rctrl, bool) state" where
  "cleanup_all env restore [] = State_Monad.return True"
| "cleanup_all env restore (res # rest) = do {
     err \<leftarrow> deleteRestoredResource env res restore;
     clean \<leftarrow> cleanup_all env restore rest;
     State_Monad.return (err = None \<and> clean) }"

definition cleanupRestoredMetadata :: "('w, 'c) renv \<Rightarrow> Restore \<Rightarrow> ('w rctrl, Restore option \<times> goerr option) state" where
  "cleanupRestoredMetadata env restore = do {
     clean \<leftarrow> cleanup_all env restore (rt_resources (rs_status restore));
     if clean then patchRestore env restore
       (restore\<lparr>rs_meta := the (SetAnnotation (Some (rs_meta restore)) annRestoreCleanupDone ''true'')\<rparr>)
     else State_Monad.return (Some restore, None) }"

end
