(* ===== verification/Restore_Controller.thy ===== *)
theory Restore_Controller
  imports Restore_Volumes
begin

text \<open>
  The restore controller, \<^verbatim>\<open>controllers/restore/restorecontroller.go\<close>: the queue handler, the
  stage machine of \<^verbatim>\<open>syncRestore\<close>, fetching the content of the backup, and deletion.

  A fresh context with an empty cache is made for every item of the queue, so the resolved objects
  are never set when they are populated. The stream of the metadata service is the list of what it
  delivers before it ends. A handler returns an optional error, or panics; dependency resolution with
  too little fuel counts as a panic here, and \<open>restore_Resolve_closes\<close> shows that fuel 2 is enough.
\<close>

section \<open>The backup and its content\<close>

record backupInfo =
  bf_backup :: Backup
  bf_location :: backup_location
  bf_provider :: provider

definition fetchBackup :: "('w, 'c) renv \<Rightarrow> Restore \<Rightarrow> 'w \<Rightarrow> goerr + Backup" where
  "fetchBackup env restore w = rn_backupGet env (rp_backupName (rs_spec restore)) w"

definition restore_fetchBackupLocation :: "('w, 'c) renv \<Rightarrow> string \<Rightarrow> 'w \<Rightarrow> goerr + backup_location" where
  "restore_fetchBackupLocation env name w = rn_locationGet env name w"

definition restore_fetchProvider :: "('w, 'c) renv \<Rightarrow> string \<Rightarrow> 'w \<Rightarrow> goerr + provider" where
  "restore_fetchProvider env name w = rn_providerGet env name w"

definition fetchBackupInfo :: "('w, 'c) renv \<Rightarrow> Restore \<Rightarrow> 'w \<Rightarrow> goerr + backupInfo" where
  "fetchBackupInfo env restore w = (case fetchBackup env restore w of
     Inl err \<Rightarrow> Inl (errorf (''backup('' @ rp_backupName (rs_spec restore) @ '') not available''))
   | Inr backup \<Rightarrow> (case restore_fetchBackupLocation env (sp_metadataLocation (bk_spec backup)) w of
       Inl err \<Rightarrow> Inl (errorf (''backup location('' @ sp_metadataLocation (bk_spec backup) @ '') not available''))
     | Inr loc \<Rightarrow> (case restore_fetchProvider env (bl_provider loc) w of
         Inl err \<Rightarrow> Inl (errorf (''backup provider('' @ bl_provider loc @ '') not available''))
       | Inr p \<Rightarrow> Inr \<lparr>bf_backup = backup, bf_location = loc, bf_provider = p\<rparr>)))"

definition restore_fetchMetaServiceClient :: "('w, 'c) renv \<Rightarrow> provider \<Rightarrow> ('w rctrl, goerr option) state" where
  "restore_fetchMetaServiceClient env p =
     (if pr_type p \<noteq> ''MetadataProvider''
      then State_Monad.return (Some (errorf (''invalid metadata provider type ('' @ pr_type p @ '')'')))
      else (case pr_annotations p ''kahu.io/provider-service'' of
          None \<Rightarrow> State_Monad.return (Some (errorf (''failed to get metadata provider('' @ pr_name p @ '') service info'')))
        | Some service \<Rightarrow> do {
            e \<leftarrow> rcall (rn_connect env service) (\<lambda>_. []);
            State_Monad.return (if e = None then None
              else Some (errorf (''failed to get metadata service client('' @ service @ '')''))) }))"

definition excludeResource :: "unstructured \<Rightarrow> bool" where
  "excludeResource u \<longleftrightarrow> un_kind u \<in> excludeResources \<or> un_kind u = Service_kind \<and> meta_name (un_meta u) = ''kubernetes''"

fun getContent :: "('w, 'c) renv \<Rightarrow> (goerr + string) list \<Rightarrow> 'c \<Rightarrow> goerr option \<times> 'c" where
  "getContent env [] c = (None, c)"
| "getContent env (x # xs) c = (case x of
     Inl err \<Rightarrow> (Some (wrap err ''unable to receive backup resource meta''), c)
   | Inr data \<Rightarrow> (case rn_unmarshal env data of
       Inl err \<Rightarrow> (Some (wrap err ''unable to unmarshal received resource meta''), c)
     | Inr obj \<Rightarrow> if excludeResource obj then getContent env xs c
         else (case ix_Add (rn_ix env) uidKeyFunc obj c of
                 (Some err, c') \<Rightarrow> (Some err, c') | (None, c') \<Rightarrow> getContent env xs c')))"

definition fetchBackupContent ::
  "('w, 'c) renv \<Rightarrow> provider \<Rightarrow> backup_identifier \<Rightarrow> 'c \<Rightarrow> ('w rctrl, goerr option \<times> 'c) state" where
  "fetchBackupContent env p ident c = do {
     e \<leftarrow> restore_fetchMetaServiceClient env p;
     if e \<noteq> None then State_Monad.return (e, c)
     else do {
       e1 \<leftarrow> rcall (rn_metaRestore env ident) (\<lambda>_. []);
       (case e1 of
          Some err \<Rightarrow> State_Monad.return (Some (errorf (''error fetching meta service restore client. '' @ err_msg err)), c)
        | None \<Rightarrow> do {
            msgs \<leftarrow> rask (rn_received env);
            let (returnError, c') = getContent env msgs c;
            e2 \<leftarrow> rcall (rn_closeSend env) (\<lambda>_. []);
            State_Monad.return (if e2 \<noteq> None then e2 else returnError, c') }) } }"

fun add_objects :: "('w, 'c) renv \<Rightarrow> unstructured list \<Rightarrow> 'c \<Rightarrow> goerr option \<times> 'c" where
  "add_objects env [] c = (None, c)"
| "add_objects env (u # us) c = (case ix_Add (rn_ix env) uidKeyFunc u c of
     (Some err, c') \<Rightarrow> (Some (wrap err ''unable to clone backup objects for restore''), c')
   | (None, c') \<Rightarrow> add_objects env us c')"

definition cloneIndexer :: "('w, 'c) renv \<Rightarrow> 'c \<Rightarrow> goerr option \<times> 'c" where
  "cloneIndexer env backupObjects = add_objects env (ix_List (rn_ix env) backupObjects) (rn_newCache env)"

section \<open>Populating the candidates\<close>

definition to_restore_resource :: "unstructured \<Rightarrow> RestoreResource" where
  "to_restore_resource u = \<lparr>rx_apiVersion = un_apiVersion u, rx_kind = un_kind u, rx_name = meta_name (un_meta u),
     rx_namespace = meta_namespace (un_meta u)\<rparr>"

definition patchRestoreObjects ::
  "('w, 'c) renv \<Rightarrow> Restore \<Rightarrow> 'c \<Rightarrow> ('w rctrl, Restore \<times> goerr option) state" where
  "patchRestoreObjects env restore c = updateRestoreStatus env
     (restore\<lparr>rs_status := (rs_status restore)\<lparr>rt_resources := map to_restore_resource (ix_List (rn_ix env) c)\<rparr>\<rparr>)"

text \<open>A failed step records the failure; a refused status update is reported instead of the reason.\<close>

definition populate_failed ::
  "('w, 'c) renv \<Rightarrow> Restore \<Rightarrow> string \<Rightarrow> string \<Rightarrow> ('w rctrl, Restore \<times> goerr option) state" where
  "populate_failed env restore reason msg = do {
     (r, e) \<leftarrow> fail_restore env reason restore;
     State_Monad.return (r, case e of Some err \<Rightarrow> Some err | None \<Rightarrow> Some (errorf msg)) }"

definition resolve_and_mutate ::
  "('w, 'c) renv \<Rightarrow> Restore \<Rightarrow> 'c \<Rightarrow> 'c \<Rightarrow> ('w rctrl, ((Restore \<times> goerr option) \<times> 'c option) outcome) state" where
  "resolve_and_mutate env restore backupObjects c0 = (case restore_Resolve (rn_conv env) (rn_ix env) (rn_resolveFuel env) c0 backupObjects of
     None \<Rightarrow> State_Monad.return Panic
   | Some (Some err, _) \<Rightarrow> do {
       x \<leftarrow> populate_failed env restore (''Failed to get dependency resources. '' @ err_msg err)
              ''Failed to resolve dependencies during restore validation'';
       State_Monad.return (Ret (x, None)) }
   | Some (None, c1) \<Rightarrow> (case run_state (constructMutationHandler (rn_mut env) (rn_ix env) restore) c1 of
       (Crash, _) \<Rightarrow> State_Monad.return Panic
     | (Fail err, _) \<Rightarrow> do {
         x \<leftarrow> populate_failed env restore (''Failed to mutate resources. '' @ err_msg err) ''Failed to add mutation'';
         State_Monad.return (Ret (x, None)) }
     | (Ok, c2) \<Rightarrow> do {
         (r, _) \<leftarrow> patchRestoreObjects env restore c2;
         State_Monad.return (Ret ((r, None), Some c2)) }))"

definition filter_and_resolve ::
  "('w, 'c) renv \<Rightarrow> Restore \<Rightarrow> 'c \<Rightarrow> ('w rctrl, ((Restore \<times> goerr option) \<times> 'c option) outcome) state" where
  "filter_and_resolve env restore backupObjects = (case cloneIndexer env backupObjects of
     (Some err, _) \<Rightarrow> do {
       x \<leftarrow> populate_failed env restore (err_msg err) ''Failed to create index'';
       State_Monad.return (Ret (x, None)) }
   | (None, c) \<Rightarrow> (case constructFilterHandler (rn_compile env) (rn_asSelector env) (rn_ix env) restore c of
       (Some err, _) \<Rightarrow> do {
         x \<leftarrow> populate_failed env restore (''Failed to filter resources. '' @ err_msg err) ''Failed to filter resources from cache'';
         State_Monad.return (Ret (x, None)) }
     | (None, c0) \<Rightarrow> resolve_and_mutate env restore backupObjects c0))"

definition populateRestoreResources ::
  "('w, 'c) renv \<Rightarrow> Restore \<Rightarrow> ('w rctrl, ((Restore \<times> goerr option) \<times> 'c option) outcome) state" where
  "populateRestoreResources env restore = do {
     i \<leftarrow> rask (fetchBackupInfo env restore);
     (case i of
        Inl err \<Rightarrow> do {
          x \<leftarrow> populate_failed env restore (''Failed to get backup content. '' @ err_msg err) ''Failed to fetch backup info'';
          State_Monad.return (Ret (x, None)) }
      | Inr info \<Rightarrow>
         (case GetBackupIdentifier (Some (bk_meta (bf_backup info))) (Some (bf_location info)) (Some (bf_provider info)) of
            Inl err \<Rightarrow> do {
              x \<leftarrow> populate_failed env restore (''Failed to get backup identifier. '' @ err_msg err) ''Failed to fetch backup identifier'';
              State_Monad.return (Ret (x, None)) }
          | Inr ident \<Rightarrow> do {
              (e, backupObjects) \<leftarrow> fetchBackupContent env (bf_provider info) ident (rn_newCache env);
              (case e of
                 Some err \<Rightarrow> do {
                   x \<leftarrow> populate_failed env restore (''Failed to get backup content. '' @ err_msg err) ''Failed to fetch backup content'';
                   State_Monad.return (Ret (x, None)) }
               | None \<Rightarrow> filter_and_resolve env restore backupObjects) })) }"

section \<open>Initialisation and validation\<close>

definition init_status :: "int \<Rightarrow> Restore \<Rightarrow> Restore" where
  "init_status now restore =
     (let r1 = (if rt_startTimestamp (rs_status restore) = None
                then restore\<lparr>rs_status := (rs_status restore)\<lparr>rt_startTimestamp := Some now\<rparr>\<rparr> else restore);
          r2 = (if rs_stage r1 = RestoreStageNone then set_rstage RestoreStageInitial r1 else r1)
      in if rs_state r2 = RestoreStateNone then set_rstate RestoreStateNew r2 else r2)"

definition initRestore :: "('w, 'c) renv \<Rightarrow> Restore \<Rightarrow> ('w rctrl, Restore \<times> goerr option) state" where
  "initRestore env restore = do {
     now \<leftarrow> rask (rn_Now env);
     updateRestoreStatus env (init_status now restore) }"

definition restore_validation_errors :: "('w, 'c) renv \<Rightarrow> Restore \<Rightarrow> 'w \<Rightarrow> string list" where
  "restore_validation_errors env restore w = (let spec = rs_spec restore;
       common = set (rp_includeNamespaces spec) \<inter> set (rp_excludeNamespaces spec)
     in (if common \<noteq> {} then [''common namespace name ('' @ strings_Join '','' (sets_List common) @
              '') in include and exclude namespace list''] else []) @
        map (\<lambda>r. ''invalid include resource specification name '' @ rs_name r)
          (filter (\<lambda>r. rn_compile env (rs_name r) = None) (rp_includeResources spec)) @
        map (\<lambda>r. ''invalid exclude resource specification name '' @ rs_name r)
          (filter (\<lambda>r. rn_compile env (rs_name r) = None) (rp_excludeResources spec)) @
        (case fetchBackupInfo env restore w of
           Inl err \<Rightarrow> [''backup information misconfigured. '' @ err_msg err] | Inr _ \<Rightarrow> []))"

definition validateRestore :: "('w, 'c) renv \<Rightarrow> Restore \<Rightarrow> ('w rctrl, goerr option) state" where
  "validateRestore env restore = do {
     errs \<leftarrow> rask (restore_validation_errors env restore);
     if 0 < length errs then do {
       (_, err) \<leftarrow> updateRestoreStatus env (set_rstate RestoreStateFailed
          (restore\<lparr>rs_status := (rs_status restore)\<lparr>rt_validationErrors := errs\<rparr>\<rparr>));
       State_Monad.return (case err of Some e \<Rightarrow> Some e | None \<Rightarrow> Some (errorf ''restore validation failed'')) }
     else State_Monad.return None }"

section \<open>The stage machine\<close>

definition restoreCompleted :: "Restore \<Rightarrow> bool" where
  "restoreCompleted restore \<longleftrightarrow> rs_stage restore = RestoreStageFinished \<and> rs_state restore = RestoreStateCompleted"

definition restoreFailed :: "Restore \<Rightarrow> bool" where
  "restoreFailed restore \<longleftrightarrow> rs_state restore = RestoreStateFailed"

text \<open>One definition per case of the switch; a case that falls through calls the next one.\<close>

definition rsync_finished :: "('w, 'c) renv \<Rightarrow> Restore \<Rightarrow> ('w rctrl, goerr option outcome) state" where
  "rsync_finished env restore =
     (if rs_state restore = RestoreStateCompleted then State_Monad.return (Ret None)
      else do {
        now \<leftarrow> rask (rn_Now env);
        (_, err) \<leftarrow> updateRestoreStatus env (set_rstate RestoreStateCompleted
           (restore\<lparr>rs_status := (rs_status restore)\<lparr>rt_completionTimestamp := Some now\<rparr>\<rparr>));
        State_Monad.return (Ret err) })"

definition rsync_posthook :: "('w, 'c) renv \<Rightarrow> Restore \<Rightarrow> ('w rctrl, goerr option outcome) state" where
  "rsync_posthook env restore0 =
     (if rs_state restore0 \<noteq> RestoreStateCompleted then State_Monad.return (Ret None)
      else do {
        (restore, err) \<leftarrow> updateRestoreStage env restore0 RestoreStageFinished;
        if err \<noteq> None then State_Monad.return (Ret err) else rsync_finished env restore })"

definition rsync_resources :: "('w, 'c) renv \<Rightarrow> 'c \<Rightarrow> Restore \<Rightarrow> ('w rctrl, goerr option outcome) state" where
  "rsync_resources env c restore0 = do {
     m \<leftarrow> syncMetadataRestore env restore0 c;
     (case m of Panic \<Rightarrow> State_Monad.return Panic
      | Ret (restore, err) \<Rightarrow>
          if err \<noteq> None then State_Monad.return (Ret err)
          else if rs_state restore \<noteq> RestoreStateCompleted then State_Monad.return (Ret None)
          else rsync_posthook env restore) }"

definition rsync_volumes :: "('w, 'c) renv \<Rightarrow> 'c \<Rightarrow> Restore \<Rightarrow> ('w rctrl, goerr option outcome) state" where
  "rsync_volumes env c restore0 = do {
     v \<leftarrow> syncVolumeRestore env restore0 c;
     (case v of Panic \<Rightarrow> State_Monad.return Panic
      | Ret (r, err) \<Rightarrow>
          if err \<noteq> None then State_Monad.return (Ret err)
          else (case r of None \<Rightarrow> State_Monad.return Panic
            | Some restore1 \<Rightarrow>
               if rs_state restore1 \<noteq> RestoreStateCompleted then State_Monad.return (Ret None)
               else do {
                 (restore, err2) \<leftarrow> updateRestoreStage env (set_rstate RestoreStateNew restore1) RestoreStageResources;
                 if err2 \<noteq> None then State_Monad.return (Ret err2) else rsync_resources env c restore })) }"

definition sync_stages :: "('w, 'c) renv \<Rightarrow> 'c \<Rightarrow> Restore \<Rightarrow> ('w rctrl, goerr option outcome) state" where
  "sync_stages env c restore = (case rs_stage restore of
     RestoreStageVolumes \<Rightarrow> rsync_volumes env c restore
   | RestoreStageResources \<Rightarrow> rsync_resources env c restore
   | RestoreStagePostHook \<Rightarrow> rsync_posthook env restore
   | RestoreStageFinished \<Rightarrow> rsync_finished env restore
   | _ \<Rightarrow> State_Monad.return (Ret None))"

definition after_initial :: "('w, 'c) renv \<Rightarrow> Restore \<Rightarrow> ('w rctrl, goerr option outcome) state" where
  "after_initial env restore0 = do {
     p \<leftarrow> populateRestoreResources env restore0;
     (case p of Panic \<Rightarrow> State_Monad.return Panic
      | Ret ((restore, Some err), _) \<Rightarrow> do {
          (_, e) \<leftarrow> updateRestoreState env (set_reason (''Failed to get restore content. '' @ err_msg err) restore) RestoreStateFailed;
          State_Monad.return (Ret e) }
      | Ret ((restore, None), c) \<Rightarrow> sync_stages env (case c of None \<Rightarrow> rn_newCache env | Some x \<Rightarrow> x) restore) }"

definition sync_from_initial :: "('w, 'c) renv \<Rightarrow> Restore \<Rightarrow> ('w rctrl, goerr option outcome) state" where
  "sync_from_initial env restore0 = do {
     (restore1, err) \<leftarrow> initRestore env restore0;
     if err \<noteq> None then State_Monad.return (Ret err)
     else do {
       verr \<leftarrow> validateRestore env restore1;
       if verr \<noteq> None then State_Monad.return (Ret verr)
       else do {
         (restore2, err2) \<leftarrow> updateRestoreStatus env (set_rstate RestoreStateNew (set_rstage RestoreStageVolumes restore1));
         if err2 \<noteq> None then State_Monad.return (Ret err2) else after_initial env restore2 } } }"

definition sync_with_finalizer :: "('w, 'c) renv \<Rightarrow> Restore \<Rightarrow> ('w rctrl, goerr option outcome) state" where
  "sync_with_finalizer env restore =
     (if rs_stage restore = RestoreStageNone \<or> rs_stage restore = RestoreStageInitial
      then sync_from_initial env restore else after_initial env restore)"

definition syncRestore :: "('w, 'c) renv \<Rightarrow> Restore \<Rightarrow> ('w rctrl, goerr option outcome) state" where
  "syncRestore env restore =
     (if restoreFailed restore \<or> restoreCompleted restore then State_Monad.return (Ret None)
      else if \<not> ContainsFinalizer (Some (rs_meta restore)) restoreFinalizer then do {
        (r, err) \<leftarrow> patchRestore env restore
           (restore\<lparr>rs_meta := the (SetFinalizer (Some (rs_meta restore)) restoreFinalizer)\<rparr>);
        if err \<noteq> None then State_Monad.return (Ret err) else sync_with_finalizer env (the r) }
      else sync_with_finalizer env restore)"

section \<open>Deletion and the queue handler\<close>

definition unprotected :: "Restore \<Rightarrow> Restore" where
  "unprotected restore = restore\<lparr>rs_meta := the (RemoveFinalizer (Some (rs_meta restore)) restoreFinalizer)\<rparr>"

text \<open>An error of the patch is only logged; the cache entry is cleaned regardless.\<close>

definition remove_protection :: "('w, 'c) renv \<Rightarrow> Restore \<Rightarrow> ('w rctrl, goerr option) state" where
  "remove_protection env restore = do {
     (vrcs, err) \<leftarrow> list_vrcs env restore;
     if err \<noteq> None then State_Monad.return err
     else if 0 < length vrcs then State_Monad.return None
     else do {
       patchRestore env restore (unprotected restore);
       rcache_clean env restore } }"

definition deleteRestore :: "('w, 'c) renv \<Rightarrow> Restore \<Rightarrow> ('w rctrl, goerr option) state" where
  "deleteRestore env restore = do {
     err \<leftarrow> removeVolumeRestore env restore;
     if err \<noteq> None then State_Monad.return err
     else if \<not> fully_restored restore then do {
       (_, cerr) \<leftarrow> cleanupRestoredMetadata env restore;
       (case cerr of Some e \<Rightarrow> State_Monad.return (Some (wrap e ''Unable to cleanup restored metadata''))
        | None \<Rightarrow> remove_protection env restore) }
     else remove_protection env restore }"

definition restore_processQueue :: "('w, 'c) renv \<Rightarrow> string \<Rightarrow> ('w rctrl, goerr option outcome) state" where
  "restore_processQueue env key = (case rn_splitKey env key of
     Inl err \<Rightarrow> State_Monad.return (Ret (Some err))
   | Inr name \<Rightarrow> do {
       g \<leftarrow> rask (rn_restoreGet env name);
       (case g of
          Inl err \<Rightarrow> State_Monad.return (Ret (if IsNotFound (Some err) then None else Some err))
        | Inr restore \<Rightarrow> do {
            (new, _) \<leftarrow> rcache_update env restore;
            if \<not> new then State_Monad.return (Ret None)
            else if meta_deletionTimestamp (rs_meta restore) \<noteq> None then do {
              e \<leftarrow> deleteRestore env restore;
              State_Monad.return (Ret e) }
            else do {
              r \<leftarrow> syncRestore env restore;
              State_Monad.return (case r of Ret e \<Rightarrow> if IsConflict e then Ret None else Ret e | Panic \<Rightarrow> Panic) } }) })"

end
