(* ===== verification/Restore_Safety.thy ===== *)
theory Restore_Safety
  imports Restore_Controller
begin

text \<open>
  What the restore controller guarantees about its effects, whatever the API server, the metadata
  service and the hooks answer. The statements are about the events a handler appends to the log.
\<close>

section \<open>Cleanup\<close>

definition marked :: "string \<Rightarrow> unstructured \<Rightarrow> bool" where
  "marked name u \<longleftrightarrow> ann_value (un_meta u) annRestoreIdentifier = name \<and> un_kind u \<noteq> PVC_kind \<and> un_kind u \<noteq> PV_kind"

fun is_delete :: "rs_event \<Rightarrow> bool" where
  "is_delete (RvDelete _ _ _ _) = True" | "is_delete _ = False"

fun looked_up :: "string \<Rightarrow> rs_event \<Rightarrow> rs_event \<Rightarrow> bool" where
  "looked_up name (RvGet gvr ns n (Some u)) (RvDelete gvr' ns' n' ok) = (gvr = gvr' \<and> ns = ns' \<and> n = n' \<and> marked name u)"
| "looked_up name _ _ = False"

abbreviation own_deletes :: "string \<Rightarrow> rs_event list \<Rightarrow> bool" where
  "own_deletes name \<equiv> led_by is_delete (looked_up name)"

lemma tr_isCleanupNeeded:
  "tr rx_log (\<lambda>need l. \<exists>u. l = [RvGet gvr (rx_namespace res) (rx_name res) u] \<and>
     (need \<longrightarrow> (\<exists>x. u = Some x \<and> marked name x))) (isCleanupNeeded env gvr res name)"
  unfolding isCleanupNeeded_def
  by (rule tr_bind [OF tr_rcall [where R = "\<lambda>r l. l = [RvGet gvr (rx_namespace res) (rx_name res)
        (case r of Inl _ \<Rightarrow> None | Inr x \<Rightarrow> Some x)]"]], simp, rule tr_return)
     (auto simp: marked_def split: sum.splits)

lemma tr_deleteRestoredResource:
  "tr rx_log (\<lambda>_ l. own_deletes (rs_nm restore) l \<and>
     (\<forall>gvr. rn_byGVK env (rx_apiVersion res) (rx_kind res) = Inr gvr \<longrightarrow>
        (\<exists>u. RvGet gvr (rx_namespace res) (rx_name res) u \<in> set l)) \<and> (\<forall>e \<in> set l. \<forall>a b ok. e \<noteq> RvPatch a b ok))
     (deleteRestoredResource env res restore)"
proof (cases "rn_byGVK env (rx_apiVersion res) (rx_kind res)")
  case (Inl err)
  then show ?thesis by (auto simp: deleteRestoredResource_def led_by_none intro!: tr_return)
next
  case (Inr gvr)
  have led: "own_deletes (rs_nm restore) [RvGet gvr ns n (Some x), RvDelete gvr ns n ok]" if "marked (rs_nm restore) x" for ns n x ok
    using that by (auto simp: led_by_def Cons_eq_append_conv)
  show ?thesis unfolding deleteRestoredResource_def Inr sum.case
    by (rule tr_bind [OF tr_isCleanupNeeded], rule tr_if)
       (auto simp: Inr led led_by_none intro!: tr_return tr_rcall)
qed


lemma tr_list_vrcs:
  "tr rx_log (\<lambda>r l. l = [RvListVRC (rs_nm restore) (if snd r = None then Some (map vr_name (fst r)) else None)])
     (list_vrcs env restore)"
  unfolding list_vrcs_def by (rule tr_rcall) (auto split: prod.splits)

lemma every_list_vrcs: "(\<And>n r. Q (RvListVRC n r)) \<Longrightarrow> every rx_log Q (list_vrcs env restore)"
  by (rule tr_weaken [OF tr_list_vrcs]) auto

lemma every_prepareVRCCleanup: "(\<And>v ok. Q (RvPatchVRC v ok)) \<Longrightarrow> every rx_log Q (prepareVRCCleanup env vrcs)"
  by (induction vrcs) (auto intro!: tr_rules every_annotateVRC)

lemma every_delete_vrcs: "(\<And>n ok. Q (RvDeleteVRC n ok)) \<Longrightarrow> every rx_log Q (delete_vrcs env vrcs)"
  by (induction vrcs) (auto intro!: tr_rules tr_rcall)

lemma every_removeVolumeRestore:
  assumes "\<And>n r. Q (RvListVRC n r)" "\<And>v ok. Q (RvPatchVRC v ok)" "\<And>n ok. Q (RvDeleteVRC n ok)"
  shows "every rx_log Q (removeVolumeRestore env restore)"
  unfolding removeVolumeRestore_def
  by (intro tr_rules every_list_vrcs every_prepareVRCCleanup every_delete_vrcs assms) auto

text \<open>A patch that takes the finalizer away, and the cleanup that has to come before it.\<close>

abbreviation protected :: "Restore \<Rightarrow> bool" where
  "protected r \<equiv> ContainsFinalizer (Some (rs_meta r)) restoreFinalizer"

fun lifts_protection :: "rs_event \<Rightarrow> bool" where
  "lifts_protection (RvPatch a b _) = (protected a \<and> \<not> protected b)" | "lifts_protection _ = False"

definition all_looked_up :: "('w, 'c) renv \<Rightarrow> RestoreResource list \<Rightarrow> rs_event list \<Rightarrow> bool" where
  "all_looked_up env resources l \<longleftrightarrow> (\<forall>res \<in> set resources. \<forall>gvr. rn_byGVK env (rx_apiVersion res) (rx_kind res) = Inr gvr \<longrightarrow>
     (\<exists>u. RvGet gvr (rx_namespace res) (rx_name res) u \<in> set l))"

lemma all_looked_up_simps:
  "all_looked_up env [] l"
  "all_looked_up env (res # rest) l \<longleftrightarrow> (\<forall>gvr. rn_byGVK env (rx_apiVersion res) (rx_kind res) = Inr gvr \<longrightarrow>
     (\<exists>u. RvGet gvr (rx_namespace res) (rx_name res) u \<in> set l)) \<and> all_looked_up env rest l"
  by (auto simp: all_looked_up_def)

lemma all_looked_up_mono: "all_looked_up env rs l \<Longrightarrow> set l \<subseteq> set l' \<Longrightarrow> all_looked_up env rs l'"
  unfolding all_looked_up_def by blast

definition no_lift :: "rs_event list \<Rightarrow> bool" where "no_lift l \<longleftrightarrow> (\<forall>e \<in> set l. \<not> lifts_protection e)"

lemma no_lift_append [simp]: "no_lift (l @ l') \<longleftrightarrow> no_lift l \<and> no_lift l'"
  by (auto simp: no_lift_def)

lemma tr_cleanup_all:
  "tr rx_log (\<lambda>_ l. own_deletes (rs_nm restore) l \<and> all_looked_up env rs l \<and> no_lift l) (cleanup_all env restore rs)"
proof (induction rs)
  case Nil
  show ?case by (auto simp: all_looked_up_simps led_by_none no_lift_def intro!: tr_return)
next
  case (Cons res rs)
  show ?case unfolding cleanup_all.simps
  proof (rule tr_bind [OF tr_deleteRestoredResource], rule tr_bind [OF Cons.IH], rule tr_return, elim conjE, intro conjI)
    fix l l' :: "rs_event list"
    assume d: "own_deletes (rs_nm restore) l" "own_deletes (rs_nm restore) l'"
      and g: "\<forall>gvr. rn_byGVK env (rx_apiVersion res) (rx_kind res) = Inr gvr \<longrightarrow> (\<exists>u. RvGet gvr (rx_namespace res) (rx_name res) u \<in> set l)"
      and a: "all_looked_up env rs l'" and p: "\<forall>e\<in>set l. \<forall>a b ok. e \<noteq> RvPatch a b ok" "no_lift l'"
    show "own_deletes (rs_nm restore) (l @ l' @ [])" using d by (simp add: led_by_append)
    show "all_looked_up env (res # rs) (l @ l' @ [])"
      using g all_looked_up_mono [OF a, of "l @ l'"] by (fastforce simp: all_looked_up_simps)
    have "\<not> lifts_protection e" if "e \<in> set l" for e using p(1) that by (cases e) auto
    then show "no_lift (l @ l' @ [])" using p by (auto simp: no_lift_def)
  qed
qed

lemma tr_cleanupRestoredMetadata:
  "tr rx_log (\<lambda>_ l. own_deletes (rs_nm restore) l \<and> all_looked_up env (rt_resources (rs_status restore)) l \<and> no_lift l)
     (cleanupRestoredMetadata env restore)"
  unfolding cleanupRestoredMetadata_def
proof (rule tr_bind [OF tr_cleanup_all])
  fix clean l assume "own_deletes (rs_nm restore) l \<and> all_looked_up env (rt_resources (rs_status restore)) l \<and> no_lift l"
  then show "tr rx_log (\<lambda>_ l'. own_deletes (rs_nm restore) (l @ l') \<and>
      all_looked_up env (rt_resources (rs_status restore)) (l @ l') \<and> no_lift (l @ l'))
     (if clean then patchRestore env restore (restore\<lparr>rs_meta := the (SetAnnotation (Some (rs_meta restore)) annRestoreCleanupDone ''true'')\<rparr>)
      else State_Monad.return (Some restore, None))"
    by (intro tr_if tr_return tr_weaken [OF every_patchRestore [where Q = "\<lambda>e. \<not> is_delete e \<and> \<not> lifts_protection e"]])
       (auto simp: SetAnnotation_def no_lift_def led_by_append led_by_none elim: all_looked_up_mono)
qed


definition may_lift :: "('w, 'c) renv \<Rightarrow> Restore \<Rightarrow> rs_event list \<Rightarrow> bool" where
  "may_lift env restore before \<longleftrightarrow> before \<noteq> [] \<and> last before = RvListVRC (rs_nm restore) (Some []) \<and>
     (fully_restored restore \<or> all_looked_up env (rt_resources (rs_status restore)) before)"

lemma tr_remove_protection:
  assumes "no_lift l0" "own_deletes (rs_nm restore) l0"
    "fully_restored restore \<or> all_looked_up env (rt_resources (rs_status restore)) l0"
  shows "tr rx_log (\<lambda>_ l. own_deletes (rs_nm restore) (l0 @ l) \<and> only_after lifts_protection (may_lift env restore) (l0 @ l))
     (remove_protection env restore)"
proof -
  let ?none = "RvListVRC (rs_nm restore) (Some [])"
  have one: "own_deletes (rs_nm restore) (l0 @ [RvListVRC n r])" "only_after lifts_protection (may_lift env restore) (l0 @ [RvListVRC n r])" for n r
    using assms(1,2) by (auto simp: led_by_append led_by_none only_after_none no_lift_def)
  have two: "own_deletes (rs_nm restore) ((l0 @ [?none]) @ [RvPatch a b ok])"
    "only_after lifts_protection (may_lift env restore) ((l0 @ [?none]) @ [RvPatch a b ok])" for a b ok
    using one [of "rs_nm restore" "Some []"] assms(3) all_looked_up_mono [of env _ l0 "l0 @ [?none]"]
    by (fastforce intro: led_by_append led_by_none, intro only_after_append [where l = "l0 @ _"]) (auto simp: only_after_single may_lift_def)
  have patch: "tr rx_log (\<lambda>_ l. \<exists>a b ok. l = [] \<or> l = [RvPatch a b ok]) (patchRestore env restore (unprotected restore))"
    unfolding patchRestore_def
    by (intro tr_sum tr_bind [OF tr_rcall, where R = "\<lambda>_ l. \<exists>a b ok. l = [RvPatch a b ok]"]
          tr_prod tr_option tr_return tr_skip [OF tr_rcache_update, where P = "\<lambda>_. True"]) auto
  show ?thesis unfolding remove_protection_def
  proof (rule tr_bind [OF tr_list_vrcs], rule tr_prod, rule tr_if)
    fix vl l vrcs err assume "l = [RvListVRC (rs_nm restore) (if snd vl = None then Some (map vr_name (fst vl)) else None)]" "vl = (vrcs, err)"
    then show "tr rx_log (\<lambda>_ l'. own_deletes (rs_nm restore) (l0 @ l @ l') \<and> only_after lifts_protection (may_lift env restore) (l0 @ l @ l'))
       (State_Monad.return err)" using one by (auto intro!: tr_return)
  next
    fix vl l vrcs err assume l: "l = [RvListVRC (rs_nm restore) (if snd vl = None then Some (map vr_name (fst vl)) else None)]" "vl = (vrcs, err)" "\<not> err \<noteq> None"
    show "tr rx_log (\<lambda>_ l'. own_deletes (rs_nm restore) (l0 @ l @ l') \<and> only_after lifts_protection (may_lift env restore) (l0 @ l @ l'))
       (if 0 < length vrcs then State_Monad.return None
        else do { patchRestore env restore (unprotected restore); rcache_clean env restore })"
      using l one two by (intro tr_if tr_bind [OF patch]) (auto intro!: tr_return tr_rules)
  qed
qed

lemma tr_deleteRestore:
  "tr rx_log (\<lambda>_ l. own_deletes (rs_nm restore) l \<and> only_after lifts_protection (may_lift env restore) l) (deleteRestore env restore)"
proof -
  let ?Q = "\<lambda>e. \<not> is_delete e \<and> \<not> lifts_protection e"
  let ?R = "\<lambda>l. own_deletes (rs_nm restore) l \<and> only_after lifts_protection (may_lift env restore) l"
  have q: "no_lift l" "own_deletes (rs_nm restore) l" "?R l" if "\<forall>e \<in> set l. ?Q e" for l
    using that by (auto simp: no_lift_def led_by_none only_after_none)
  have R: "?R l" if "own_deletes (rs_nm restore) l" "no_lift l" for l using that by (simp add: only_after_none no_lift_def)
  have rm: "every rx_log ?Q (removeVolumeRestore env restore)" by (rule every_removeVolumeRestore) simp_all
  show ?thesis unfolding deleteRestore_def
  proof (rule tr_bind [OF rm], intro tr_if)
    fix err :: "goerr option" and l :: "rs_event list" assume l: "\<forall>e \<in> set l. ?Q e"
    show "tr rx_log (\<lambda>_ l'. ?R (l @ l')) (State_Monad.return err)" using q [OF l] by (auto intro: tr_return)
    show "tr rx_log (\<lambda>_ l'. ?R (l @ l')) (remove_protection env restore)" if "\<not> \<not> fully_restored restore"
      using q [OF l] that by (intro tr_remove_protection) auto
    show "tr rx_log (\<lambda>_ l'. ?R (l @ l')) (do {
       (_, cerr) \<leftarrow> cleanupRestoredMetadata env restore;
       (case cerr of None \<Rightarrow> remove_protection env restore
        | Some e \<Rightarrow> State_Monad.return (Some (wrap e ''Unable to cleanup restored metadata''))) })"
    proof (rule tr_bind [OF tr_cleanupRestoredMetadata], rule tr_prod, rule tr_option, goal_cases)
      case (1 x l1 a b)
      then have "own_deletes (rs_nm restore) (l @ l1)" "no_lift (l @ l1)" "all_looked_up env (rt_resources (rs_status restore)) (l @ l1)"
        using q [OF l] all_looked_up_mono [of env _ l1 "l @ l1"] by (auto intro: led_by_append)
      then show ?case using tr_remove_protection [of "l @ l1" restore env] by (simp add: append_assoc)
    next
      case (2 x l1 a b e)
      then show ?case using q [OF l] R [of "l @ l1"] by (intro tr_return) (auto intro: led_by_append)
    qed
  qed
qed

lemma unknown_type_passed_over:
  "rn_byGVK env (rx_apiVersion res) (rx_kind res) = Inl err \<Longrightarrow>
     run_state (deleteRestoredResource env res restore) s = (Some err, s)"
  by (simp add: deleteRestoredResource_def)

text \<open>Volume restore contents are deleted by name, each after a listing of the contents of this restore that
  returned it.\<close>

definition listed_deletes :: "string \<Rightarrow> rs_event list \<Rightarrow> bool" where
  "listed_deletes name l \<longleftrightarrow> (\<forall>before n ok after. l = before @ RvDeleteVRC n ok # after \<longrightarrow>
     (\<exists>ns. RvListVRC name (Some ns) \<in> set before \<and> n \<in> set ns))"

abbreviation no_content_delete :: "rs_event \<Rightarrow> bool" where
  "no_content_delete e \<equiv> \<forall>n ok. e \<noteq> RvDeleteVRC n ok"

lemma listed_deletes_none: "\<forall>e \<in> set l. no_content_delete e \<Longrightarrow> listed_deletes name l"
  by (auto simp: listed_deletes_def)

lemma listed_deletes_append: "listed_deletes name l \<Longrightarrow> \<forall>e \<in> set l'. no_content_delete e \<Longrightarrow> listed_deletes name (l @ l')"
  unfolding listed_deletes_def
proof (intro allI impI)
  fix before n ok after
  assume old: "\<forall>before n ok after. l = before @ RvDeleteVRC n ok # after \<longrightarrow> (\<exists>ns. RvListVRC name (Some ns) \<in> set before \<and> n \<in> set ns)"
    and none: "\<forall>e \<in> set l'. no_content_delete e" and eq: "l @ l' = before @ RvDeleteVRC n ok # after"
  consider us where "l = before @ RvDeleteVRC n ok # us" | "RvDeleteVRC n ok \<in> set l'"
    by (rule append_mid_cases [OF eq]) auto
  then show "\<exists>ns. RvListVRC name (Some ns) \<in> set before \<and> n \<in> set ns" using old none by cases blast+
qed

lemma listed_deletes_after:
  "\<forall>e \<in> set l. \<forall>n ok. e = RvDeleteVRC n ok \<longrightarrow> n \<in> set ns \<Longrightarrow> listed_deletes name (RvListVRC name (Some ns) # l)"
  by (fastforce simp: listed_deletes_def Cons_eq_append_conv)

lemma tr_delete_vrcs:
  "every rx_log (\<lambda>e. \<forall>n ok. e = RvDeleteVRC n ok \<longrightarrow> n \<in> vr_name ` set vrcs) (delete_vrcs env vrcs)"
proof (induction vrcs)
  case (Cons v vs)
  have rest: "every rx_log (\<lambda>e. \<forall>n ok. e = RvDeleteVRC n ok \<longrightarrow> n \<in> vr_name ` set (v # vs)) (delete_vrcs env vs)"
    by (rule every_weaken [OF Cons]) auto
  show ?case unfolding delete_vrcs.simps by (intro tr_rules tr_rcall rest) auto
qed (simp add: tr_return)

lemma tr_removeVolumeRestore: "tr rx_log (\<lambda>_ l. listed_deletes (rs_nm restore) l) (removeVolumeRestore env restore)"
  unfolding removeVolumeRestore_def
proof (rule tr_bind [OF tr_list_vrcs], intro tr_prod tr_option, goal_cases)
  case (1 a l vrcs err)
  let ?Q = "\<lambda>e. \<forall>n ok. e = RvDeleteVRC n ok \<longrightarrow> n \<in> set (map vr_name vrcs)"
  have prep: "every rx_log ?Q (if \<not> fully_restored restore then prepareVRCCleanup env vrcs else State_Monad.return None)"
    by (intro tr_if tr_return every_prepareVRCCleanup) auto
  have "every rx_log ?Q (delete_vrcs env vrcs)" by (rule every_weaken [OF tr_delete_vrcs]) auto
  then have "every rx_log ?Q (do {
       (if \<not> fully_restored restore then prepareVRCCleanup env vrcs else State_Monad.return None);
       delete_vrcs env vrcs })" by (intro every_bind prep)
  then show ?case by (rule tr_weaken) (use 1 listed_deletes_after in simp)
qed (auto intro!: tr_return listed_deletes_none)

lemma every_cleanup_all: "every rx_log no_content_delete (cleanup_all env restore rs)"
  by (induction rs)
    (auto simp: deleteRestoredResource_def isCleanupNeeded_def intro!: tr_rules tr_rcall)

lemma tr_deleteRestore_contents: "tr rx_log (\<lambda>_ l. listed_deletes (rs_nm restore) l) (deleteRestore env restore)"
proof -
  have rm: "every rx_log no_content_delete (remove_protection env restore)"
    unfolding remove_protection_def by (intro tr_rules every_list_vrcs every_patchRestore) auto
  have meta: "every rx_log no_content_delete (cleanupRestoredMetadata env restore)"
    unfolding cleanupRestoredMetadata_def by (intro tr_rules every_cleanup_all every_patchRestore) auto
  show ?thesis unfolding deleteRestore_def
    by (rule tr_bind [OF tr_removeVolumeRestore], rule tr_weaken [where R = "\<lambda>_ l. \<forall>e \<in> set l. no_content_delete e"],
        intro tr_rules rm meta) (simp_all add: listed_deletes_append)
qed

text \<open>C8: deleting a restore deletes from the cluster only objects that were read directly before and carry the
  name of this restore in their annotation, and never volumes or claims; and it deletes only volume restore
  contents that a listing for this restore has returned before.\<close>

theorem cleanup_only_own:
  "\<exists>l. rx_log (snd (run_state (deleteRestore env restore) s)) = rx_log s @ l \<and> own_deletes (rs_nm restore) l \<and>
     listed_deletes (rs_nm restore) l"
  using tr_run [OF tr_deleteRestore, of env restore s] tr_run [OF tr_deleteRestore_contents, of env restore s] by auto

text \<open>C7: the finalizer of a restore is only taken away directly after a listing that shows no volume restore
  content left, and, unless the restore had finished, after every recorded resource whose type discovery knows
  was looked up for cleanup. A resource of a type that discovery does not know is passed over
  (\<open>unknown_type_passed_over\<close>), and the finalizer goes all the same.\<close>

theorem deleteRestore_safe:
  "\<exists>l. rx_log (snd (run_state (deleteRestore env restore) s)) = rx_log s @ l \<and>
     only_after lifts_protection (may_lift env restore) l"
  using tr_run [OF tr_deleteRestore] by blast

section \<open>Creation\<close>

fun is_create :: "rs_event \<Rightarrow> bool" where
  "is_create (RvCreate _ _ _ _) = True" | "is_create (RvCreateNamespace _ _) = True" | "is_create _ = False"

fun deletes :: "rs_event \<Rightarrow> bool" where
  "deletes (RvDelete _ _ _ _) = True" | "deletes (RvDeleteVRC _ _) = True" | "deletes _ = False"

text \<open>A pod is read into the typed object and written back after init containers were put into it; the
  converter of the API machinery keeps the name of an object on this way.\<close>

definition converter_laws :: "('w, 'c) renv \<Rightarrow> bool" where
  "converter_laws env \<longleftrightarrow> (\<forall>u ip cs v. he_toIpod (rn_hook env) u = Inr ip \<longrightarrow>
     he_fromIpod (rn_hook env) (ip\<lparr>ip_initContainers := cs\<rparr>) = Inr v \<longrightarrow> meta_name (un_meta v) = meta_name (un_meta u))"

fun absent :: "rs_event \<Rightarrow> rs_event \<Rightarrow> bool" where
  "absent (RvGet gvr ns n None) (RvCreate gvr' ns' u ok) = (gvr = gvr' \<and> ns = ns' \<and> meta_name (un_meta u) = n)"
| "absent (RvGetNamespace ns False) (RvCreateNamespace ns' ok) = (ns = ns')"
| "absent _ _ = False"

text \<open>Volume restore contents are not looked up: they get a generated name.\<close>

definition generated :: "VolumeRestoreContent \<Rightarrow> bool" where
  "generated vrc \<longleftrightarrow> (\<exists>uuid. vr_name vrc = getVRCName uuid)"

fun unwanted :: "rs_event \<Rightarrow> bool" where
  "unwanted (RvCreateVRC vrc ok) = (\<not> generated vrc)" | "unwanted e = deletes e"

definition creates_absent :: "rs_event list \<Rightarrow> bool" where
  "creates_absent l \<longleftrightarrow> led_by is_create absent l \<and> list_all (\<lambda>e. \<not> unwanted e) l"

lemma appendable_creates_absent: "appendable creates_absent"
  by (auto simp: appendable_def creates_absent_def led_by_append led_by_none)

lemma every_creates_absent: "every rx_log (\<lambda>e. \<not> is_create e \<and> \<not> unwanted e) m \<Longrightarrow> all_of rx_log creates_absent m"
  by (erule tr_weaken) (simp add: creates_absent_def led_by_none list_all_iff)

lemmas calm = all_of_bind [OF appendable_creates_absent] all_of_seq [OF appendable_creates_absent]
  all_of_each [OF appendable_creates_absent] tr_if tr_option tr_sum tr_prod tr_outcome tr_sres

lemma calm_return: "all_of rx_log creates_absent (State_Monad.return x)"
  by (rule tr_return) (simp add: creates_absent_def led_by_none)

lemma calm_rask: "all_of rx_log creates_absent (rask f)"
  by (rule tr_rask) (simp add: creates_absent_def led_by_none)

lemma calm_rcall: "(\<And>r. \<forall>e \<in> set (ev r). \<not> is_create e \<and> \<not> unwanted e) \<Longrightarrow> all_of rx_log creates_absent (rcall f ev)"
  by (rule every_creates_absent, rule tr_rcall)

lemma calm_ensureNamespace: "all_of rx_log creates_absent (ensureNamespace env ns)"
proof -
  have get: "tr rx_log (\<lambda>e l. l = [RvGetNamespace ns (e = None)]) (rcall (rn_nsGet env ns) (\<lambda>e. [RvGetNamespace ns (e = None)]))"
    by (rule tr_rcall) simp
  have two: "creates_absent [RvGetNamespace ns False, RvCreateNamespace ns ok]" for ok
    by (auto simp: creates_absent_def led_by_def Cons_eq_append_conv)
  have one: "creates_absent [RvGetNamespace ns ok]" for ok by (simp add: creates_absent_def led_by_none)
  show ?thesis unfolding ensureNamespace_def
    by (intro tr_if tr_bind [OF get] calm_return) (auto intro!: tr_return tr_rcall simp: one two)
qed

lemma calm_update: "all_of rx_log creates_absent (updateRestoreStatus env r)"
  by (rule every_creates_absent, rule every_updateRestoreStatus) simp

lemma calm_patch: "all_of rx_log creates_absent (patchRestore env a b)"
  by (rule every_creates_absent, rule every_patchRestore) simp

lemma calm_annotate: "all_of rx_log creates_absent (annotateRestore env a v r)"
  by (rule every_creates_absent, rule every_annotateRestore) simp

text \<open>Nothing is logged between looking an object up and creating it.\<close>

lemma every_waitExec: "every rx_log Q (waitExec specs u)"
  by (auto simp: tr_def waitExec_def upd_def)

lemma every_wait_pods: "every rx_log Q (wait_pods env hooks p)"
  unfolding wait_pods_def by (intro tr_rules every_waitExec) auto

lemma every_WaitResource: "every rx_log Q (WaitResource env u t)"
  unfolding WaitResource_def by (intro tr_rules tr_rcall) auto

definition creates_at :: "api_resource \<Rightarrow> object_meta \<Rightarrow> rs_event list \<Rightarrow> bool" where
  "creates_at gvr m l \<longleftrightarrow> l = [] \<or>
     (\<exists>u ok. l = [RvCreate gvr (meta_namespace m) u ok] \<and> meta_name (un_meta u) = meta_name m)"

lemma tr_create_then:
  assumes "\<And>e. every rx_log (\<lambda>_. False) (f e)" "meta_name (un_meta u) = meta_name m"
  shows "tr rx_log (\<lambda>_ l. creates_at gvr m l) (State_Monad.bind (rcreate env gvr (meta_namespace m) u) f)"
  unfolding rcreate_def
  by (rule tr_bind [OF tr_rcall, where R = "\<lambda>_ l. \<exists>ok. l = [RvCreate gvr (meta_namespace m) u ok]"], simp, rule tr_weaken [OF assms(1)])
     (use assms(2) in \<open>auto simp: creates_at_def\<close>)

lemma tr_rask_from: "(\<And>w. R (f w) []) \<Longrightarrow> tr rx_log R (rask f)"
  by (auto simp: tr_def rask_def)

lemma HandleInitHook_name:
  "converter_laws env \<Longrightarrow> HandleInitHook (rn_hook env) True u specs w = Ret (Some x, e) \<Longrightarrow>
     meta_name (un_meta x) = meta_name (un_meta u)"
  unfolding converter_laws_def
  by (auto simp: HandleInitHook_def obind_def split: sum.splits outcome.splits)

lemma tr_applyPodResources:
  assumes "converter_laws env"
  shows "tr rx_log (\<lambda>_ l. creates_at gvr (un_meta u) l) (applyPodResources env hooks gvr u)"
  unfolding applyPodResources_def Let_def
  by (intro tr_skip [OF tr_rask_from, where P = "\<lambda>r. \<forall>x e. r = Ret (Some x, e) \<longrightarrow> meta_name (un_meta x) = meta_name (un_meta u)"]
        tr_create_then tr_rules every_waitExec)
     (auto simp: creates_at_def HandleInitHook_name [OF assms] split: option.splits)

lemma tr_applyWorkloadResources:
  "tr rx_log (\<lambda>_ l. creates_at gvr (un_meta u) l) (applyWorkloadResources env hooks gvr u)"
  unfolding applyWorkloadResources_def applyWorkloadPodResources_def Let_def
  by (intro tr_create_then tr_rules every_WaitResource every_wait_pods tr_rcall) (simp_all add: creates_at_def)

lemma tr_after_get:
  assumes "tr rx_log (\<lambda>_ l. creates_at gvr um l) m"
  shows "tr rx_log (\<lambda>_ l. creates_absent (RvGet gvr (meta_namespace um) (meta_name um) None # l)) m"
  using assms by (rule tr_weaken) (auto simp: creates_at_def creates_absent_def led_by_def Cons_eq_append_conv)

lemma calm_applyResource:
  assumes "converter_laws env"
  shows "all_of rx_log creates_absent (applyResource env hooks u)"
proof -
  have get: "tr rx_log (\<lambda>g l. l = [RvGet gvr ns n (case g of Inl _ \<Rightarrow> None | Inr x \<Rightarrow> Some x)]) (rcall (rn_Get env gvr ns n)
      (\<lambda>r. [RvGet gvr ns n (case r of Inl _ \<Rightarrow> None | Inr x \<Rightarrow> Some x)]))" for gvr ns n
    by (rule tr_rcall) simp
  have one: "creates_absent [RvGet gvr ns n (Some x)]" for gvr ns n x by (simp add: creates_absent_def led_by_none)
  have plain: "tr rx_log (\<lambda>_ l. creates_at gvr (un_meta v) l)
      (do { e \<leftarrow> rcreate env gvr (meta_namespace (un_meta v)) v; State_Monad.return (h e) })" for gvr v and h :: "_ \<Rightarrow> sres"
    by (rule tr_create_then) (auto intro: tr_return)
  show ?thesis unfolding applyResource_def preProcessResource_def Let_def
    by (intro tr_bind [OF get] calm calm_ensureNamespace calm_return)
       (auto intro!: tr_if tr_after_get tr_applyWorkloadResources tr_applyPodResources [OF assms] plain tr_return one)
qed

lemma calm_class: "converter_laws env \<Longrightarrow> all_of rx_log creates_absent (ensureStorageClass env c pvcs)"
  unfolding ensureStorageClass_def ensure_class_def apply_class_def Let_def
  by (intro calm calm_return calm_applyResource)

lemma tr_construct:
  "tr rx_log (\<lambda>r l. l = [] \<and> list_all generated r) (construct_contents env name m vbcs)"
proof (induction vbcs)
  case (Cons v vs)
  show ?case unfolding construct_contents.simps Let_def
    by (intro tr_if Cons.IH tr_skip [OF tr_rask, where P = "\<lambda>_. True"] tr_skip [OF tr_rcall, where P = "\<lambda>_. True"]
          tr_skip [OF Cons.IH] tr_return) (auto simp: generated_def)
qed (simp add: tr_return)

lemma tr_constructVolumeRestoreContent:
  "tr rx_log (\<lambda>r l. l = [] \<and> (\<forall>vrcs. r = Inr vrcs \<longrightarrow> list_all generated vrcs)) (constructVolumeRestoreContent env name c pvcs)"
  unfolding constructVolumeRestoreContent_def
  by (intro tr_sum tr_return tr_skip [OF tr_construct]) auto

lemma calm_volumeRestore:
  assumes "converter_laws env" "list_all generated vrcs"
  shows "all_of rx_log creates_absent (volumeRestore env restore pvcs vrcs c)"
proof -
  have "all_of rx_log creates_absent (ensureVolumeRestoreContent env vrcs)"
    unfolding ensureVolumeRestoreContent_def
    by (intro calm calm_return calm_rcall) (use assms(2) in \<open>auto simp: list_all_iff\<close>)
  then show ?thesis unfolding volumeRestore_def ensurePVCNamespace_def updateRestoreState_def
    by (intro calm calm_return calm_ensureNamespace calm_class [OF assms(1)] calm_update)
qed

lemma calm_claims: "all_of rx_log creates_absent (check_claims env restore ps)"
proof (induction ps)
  case (Cons p ps)
  show ?case unfolding check_claims.simps Let_def
    by (intro calm calm_return calm_update calm_rcall Cons.IH) auto
qed (simp add: calm_return)

lemma calm_syncVolumeRestore:
  assumes "converter_laws env"
  shows "all_of rx_log creates_absent (syncVolumeRestore env restore c)"
proof -
  have contents: "all_of rx_log creates_absent (do {
      v \<leftarrow> constructVolumeRestoreContent env n c pvcs;
      (case v of Inl err \<Rightarrow> State_Monad.return (h err)
       | Inr vrcs \<Rightarrow> do { x \<leftarrow> volumeRestore env restore pvcs vrcs c; State_Monad.return (g x) }) })" for n pvcs h and g :: "_ \<Rightarrow> 'z"
    by (rule tr_skip [OF tr_constructVolumeRestoreContent])
       (auto intro!: tr_sum calm_return all_of_bind [OF appendable_creates_absent] calm_volumeRestore [OF assms])
  have waits: "all_of rx_log creates_absent (volumes_done env restore)"
    "all_of rx_log creates_absent (checkPVCRestored env restore c)"
    "all_of rx_log creates_absent (checkVolumeRestoreStatus env n restore)" for n
    unfolding volumes_done_def checkPVCRestored_def checkVolumeRestoreStatus_def list_vrcs_def fail_restore_def updateRestoreState_def
    by (intro calm calm_return calm_update calm_annotate calm_claims calm_rcall; auto split: prod.splits)+
  show ?thesis unfolding syncVolumeRestore_def fail_restore_def updateRestoreState_def
    by (rule tr_if, rule calm_return, rule tr_if) (intro contents tr_if tr_sum calm waits calm_return calm_update)+
qed

lemma calm_hooks: "all_of rx_log creates_absent (with_hooks f)"
  by (rule tr_with_hooks) (simp add: creates_absent_def led_by_none)

lemma tr_run_all_pending: "tr rx_log (\<lambda>_ l. l = []) (run_all_pending env ts)"
proof (induction ts)
  case (Cons t ts)
  show ?case unfolding run_all_pending.simps
    by (intro tr_skip [OF tr_with_hooks, where P = "\<lambda>_. True"] tr_outcome
        tr_skip [OF tr_weaken [OF Cons.IH], where P = "\<lambda>_. True"] tr_return) auto
qed (simp add: tr_return)

lemma tr_wait_hooks:
  "tr rx_log (\<lambda>r l. l = [RvHooksWaited (case r of Panic \<Rightarrow> None | Ret es \<Rightarrow> Some (length es))]) (wait_hooks env)"
proof -
  have "tr rx_log (\<lambda>_ l. l = [] \<and> True) (look f)" "tr rx_log (\<lambda>_ l. l = [] \<and> True) (upd (\<lambda>s. s\<lparr>rx_pending := p\<rparr>))"
    "tr rx_log (\<lambda>_ l. l = [e]) (upd (\<lambda>s. s\<lparr>rx_log := rx_log s @ [e]\<rparr>))" for f :: "_ \<Rightarrow> 'z" and p e
    by (auto simp: tr_def look_def upd_def)
  then show ?thesis unfolding wait_hooks_def
    by (intro tr_skip [OF _, where P = "\<lambda>_. True"] tr_bind [OF tr_run_all_pending] tr_bind [where R = "\<lambda>_ l. l = [e]" for e] tr_return) auto
qed

lemma calm_wait_hooks: "all_of rx_log creates_absent (wait_hooks env)"
  by (rule tr_weaken [OF tr_wait_hooks]) (simp add: creates_absent_def led_by_none)

lemma calm_syncMetadataRestore: "converter_laws env \<Longrightarrow> all_of rx_log creates_absent (syncMetadataRestore env restore c)"
  unfolding syncMetadataRestore_def applyCRD_def applyIndexedResource_def after_resources_def external_hook_def
    external_namespace_def fail_restore_def updateRestoreState_def updateRestoreStage_def Let_def
  by (intro calm calm_return calm_rask calm_applyResource calm_update calm_wait_hooks calm_hooks)

lemma calm_populate: "all_of rx_log creates_absent (populateRestoreResources env restore)"
  unfolding populateRestoreResources_def filter_and_resolve_def resolve_and_mutate_def patchRestoreObjects_def
    populate_failed_def fail_restore_def fetchBackupContent_def restore_fetchMetaServiceClient_def Let_def
  by (intro calm calm_return calm_rask calm_update calm_rcall) auto

lemma calm_stages: "converter_laws env \<Longrightarrow> all_of rx_log creates_absent (sync_stages env c restore)"
  unfolding sync_stages_def rsync_volumes_def rsync_resources_def rsync_posthook_def rsync_finished_def updateRestoreStage_def
  by (cases "rs_stage restore") (auto intro!: calm calm_return calm_rask calm_update calm_syncVolumeRestore calm_syncMetadataRestore)

lemma calm_with_finalizer: "converter_laws env \<Longrightarrow> all_of rx_log creates_absent (sync_with_finalizer env restore)"
  unfolding sync_with_finalizer_def sync_from_initial_def initRestore_def validateRestore_def after_initial_def updateRestoreState_def
  by (intro calm calm_return calm_rask calm_update calm_populate calm_stages)

lemma calm_syncRestore: "converter_laws env \<Longrightarrow> all_of rx_log creates_absent (syncRestore env restore)"
  unfolding syncRestore_def by (intro calm calm_return calm_patch calm_with_finalizer)

text \<open>C9: reconciling a restore never deletes anything, and creates an object only directly after the API
  server did not return an object of that type, namespace and name, and a namespace only directly after
  reading it failed, so that existing objects are not overwritten. Volume restore contents are created
  under a generated name, without a lookup. For pods, whose init containers are put in, the converter
  has to keep the name.\<close>

theorem restore_creates_absent:
  assumes "converter_laws env"
  shows "\<exists>l. rx_log (snd (run_state (syncRestore env restore) s)) = rx_log s @ l \<and> creates_absent l"
  using tr_run [OF calm_syncRestore [OF assms]] by blast

text \<open>Pods are read and written with their metadata.\<close>

definition pod_hooks :: "'w hook_env" where
  "pod_hooks = failing_hooks\<lparr>
     he_toIpod := (\<lambda>u. Inr \<lparr>ip_pod = hook_pod\<lparr>pod_meta := un_meta u\<rparr>, ip_initContainers = []\<rparr>),
     he_fromIpod := (\<lambda>ip. Inr \<lparr>un_apiVersion = ''v1'', un_kind = Pod_kind, un_meta = pod_meta (ip_pod ip), un_object = []\<rparr>)\<rparr>"

text \<open>A metadata service that delivers the given object, in a cluster where nothing of it exists; the world is
  the restores the API server stores, and it accepts every update.\<close>

definition demo_renv :: "unstructured \<Rightarrow> (string \<Rightarrow> Restore, (string \<times> unstructured) list) renv" where
  "demo_renv u = \<lparr>rn_ix = alist_rindexer, rn_newCache = [], rn_hook = pod_hooks, rn_mut = demo_mut True, rn_conv = demo_conv,
     rn_compile = (\<lambda>_. Some (\<lambda>_. True)), rn_asSelector = (\<lambda>_. Inr (\<lambda>_. True)), rn_resolveFuel = 2, rn_splitKey = Inr,
     rn_restoreGet = (\<lambda>_ _. Inl (GoErr NotFound [])), rn_restoreList = (\<lambda>_. Inr []),
     rn_backupGet = (\<lambda>_ _. Inr zero_Backup),
     rn_locationGet = (\<lambda>n _. Inr \<lparr>bl_name = n, bl_provider = ''nfs'', bl_config = Map.empty\<rparr>),
     rn_providerGet = (\<lambda>n _. Inr \<lparr>pr_name = n, pr_manifest = Map.empty, pr_type = ''MetadataProvider'',
        pr_annotations = [''kahu.io/provider-service'' \<mapsto> ''svc'']\<rparr>),
     rn_objKey = (\<lambda>r. Inr (rs_nm r)), rn_mergePatch = (\<lambda>_ _. Inr []),
     rn_Patch = (\<lambda>n _ w. let r = (w n)\<lparr>rs_meta := (rs_meta (w n))\<lparr>meta_name := n, meta_finalizers := [restoreFinalizer]\<rparr>\<rparr>
        in ((r, None), w(n := r))),
     rn_UpdateStatus = (\<lambda>r w. ((r, None), w(rs_nm r := r))), rn_Now = (\<lambda>_. 0),
     rn_listVRC = (\<lambda>_ w. (([], None), w)), rn_mergePatchVRC = (\<lambda>_ _. Inr []), rn_PatchVRC = (\<lambda>_ _ w. ((undefined, Some (errorf ''x'')), w)),
     rn_deleteVRC = (\<lambda>_ w. (None, w)), rn_createVRC = (\<lambda>_ w. (None, w)),
     rn_byGVK = (\<lambda>v k. Inr \<lparr>ar_name = k, ar_group = [], ar_version = v, ar_kind = k\<rparr>),
     rn_Get = (\<lambda>_ _ _ w. (Inl (GoErr NotFound []), w)), rn_Create = (\<lambda>_ _ _ w. (None, w)), rn_Delete = (\<lambda>_ _ _ w. (None, w)),
     rn_nsGet = (\<lambda>_ w. (None, w)), rn_nsCreate = (\<lambda>_ w. (None, w)), rn_pvcGet = (\<lambda>_ _ w. (Inl (GoErr NotFound []), w)),
     rn_toWorkload = (\<lambda>_. Inl (errorf ''x'')), rn_toPod = (\<lambda>_. Inr hook_pod), rn_fromPod = (\<lambda>_. Inl (errorf ''x'')),
     rn_listPods = (\<lambda>_ _ w. (Inr [], w)), rn_waitConv = (\<lambda>_ _. None), rn_informer = (\<lambda>_ _ _ w. w), rn_podEvents = (\<lambda>_ _. []),
     rn_order2 = sets_List, rn_toVBC = (\<lambda>_. Inl (errorf ''x'')), rn_toSC = (\<lambda>_. None), rn_unmarshalParams = (\<lambda>_. Map.empty),
     rn_uuid = (\<lambda>w. (''u'', w)), rn_connect = (\<lambda>_ w. (None, w)), rn_metaRestore = (\<lambda>_ w. (None, w)),
     rn_received = (\<lambda>_. [Inr []]), rn_unmarshal = (\<lambda>_. Inr u), rn_closeSend = (\<lambda>w. (None, w))\<rparr>"

definition demo_restore :: "RestoreStage \<Rightarrow> RestoreState \<Rightarrow> Restore" where
  "demo_restore g t = zero_Restore\<lparr>rs_meta := zero_meta\<lparr>meta_name := ''r'', meta_resourceVersion := ''2'',
     meta_finalizers := [restoreFinalizer]\<rparr>, rs_status := zero_RestoreStatus\<lparr>rt_stage := g, rt_state := t\<rparr>\<rparr>"

definition demo_rctrl :: "(string \<Rightarrow> Restore) rctrl" where
  "demo_rctrl = \<lparr>rx_processed = NewStore (\<lambda>r. Inr (rs_nm r)), rx_world = (\<lambda>_. demo_restore RestoreStageNone RestoreStateNone), rx_log = [], rx_hookLog = [], rx_pending = []\<rparr>"

lemma demo_converter_laws: "converter_laws (demo_renv u)"
  by (auto simp: converter_laws_def demo_renv_def pod_hooks_def)

theorem restore_creates_absent_witness:
  "\<exists>l. rx_log (snd (run_state (syncRestore (demo_renv (demo_un Pod_kind ''ns'' ''p''))
     (demo_restore RestoreStageNone RestoreStateNone)) demo_rctrl)) = l \<and> creates_absent l"
  using restore_creates_absent [OF demo_converter_laws, of "demo_un Pod_kind ''ns'' ''p''"
      "demo_restore RestoreStageNone RestoreStateNone" demo_rctrl]
  by (simp add: demo_rctrl_def)

section \<open>The finalizer comes first\<close>

fun creates :: "rs_event \<Rightarrow> bool" where
  "creates (RvCreate _ _ _ _) = True" | "creates (RvCreateVRC _ _) = True" | "creates (RvCreateNamespace _ _) = True"
| "creates _ = False"

fun adds_protection :: "rs_event \<Rightarrow> bool" where
  "adds_protection (RvPatch a b True) = protected b" | "adds_protection _ = False"

definition protected_before :: "Restore \<Rightarrow> rs_event list \<Rightarrow> bool" where
  "protected_before restore before \<longleftrightarrow> protected restore \<or> list_ex adds_protection before"

lemma tr_patchRestore:
  "tr rx_log (\<lambda>r l. (snd r = None \<longrightarrow> (\<exists>x. fst r = Some x) \<and> l = [RvPatch a b True]) \<and> (\<forall>e \<in> set l. \<exists>ok. e = RvPatch a b ok))
     (patchRestore env a b)"
  unfolding patchRestore_def
  by (intro tr_sum tr_bind [OF tr_rcall, where R = "\<lambda>r l. l = [RvPatch a b (snd r = None)]"]
        tr_prod tr_option tr_return tr_skip [OF tr_rcache_update, where P = "\<lambda>_. True"]) (auto split: prod.splits)

text \<open>Nothing is created for a restore that does not carry the finalizer yet before a patch that adds it
  has succeeded.\<close>

theorem restore_after_finalizer:
  assumes "converter_laws env"
  shows "\<exists>l. rx_log (snd (run_state (syncRestore env restore) s)) = rx_log s @ l \<and> only_after creates (protected_before restore) l"
proof -
  let ?new = "restore\<lparr>rs_meta := the (SetFinalizer (Some (rs_meta restore)) restoreFinalizer)\<rparr>"
  have any: "tr rx_log (\<lambda>_ _. True) (sync_with_finalizer env r)" for r
    by (rule every_any [OF calm_with_finalizer [OF assms]])
  have "tr rx_log (\<lambda>_ l. only_after creates (protected_before restore) l) (syncRestore env restore)"
    unfolding syncRestore_def
  proof (intro tr_if tr_return tr_bind [OF tr_patchRestore] tr_prod)
    show "only_after creates (protected_before restore) []" by (simp add: only_after_none)
    show "tr rx_log (\<lambda>_ l. only_after creates (protected_before restore) l) (sync_with_finalizer env restore)" if "\<not> \<not> protected restore"
      using that by (intro tr_weaken [OF any]) (simp add: only_after_def protected_before_def)
    fix a :: "Restore option \<times> goerr option" and l r err
    assume l: "(snd a = None \<longrightarrow> (\<exists>x. fst a = Some x) \<and> l = [RvPatch restore ?new True]) \<and> (\<forall>e\<in>set l. \<exists>ok. e = RvPatch restore ?new ok)"
    show "only_after creates (protected_before restore) (l @ [])" using l by (intro only_after_none) auto
    assume a: "a = (r, err)" and ok: "\<not> err \<noteq> None"
    have p: "l = [RvPatch restore ?new True]" using l a ok by simp
    have "only_after creates (protected_before restore) (l @ l')" for l'
      unfolding p by (rule only_after_behind) (simp_all add: SetFinalizer_def protected_before_def)
    then show "tr rx_log (\<lambda>_ l'. only_after creates (protected_before restore) (l @ l')) (sync_with_finalizer env (the r))"
      by (intro tr_weaken [OF any])
  qed
  from tr_run [OF this] show ?thesis .
qed

end
