(* ===== verification/Restore_Order.thy ===== *)
theory Restore_Order
  imports Restore_Safety
begin

text \<open>
  The order of the stages of a restore: resources are created after the volume stage, and a restore
  finishes after its hooks. The controller takes the stage of the restore from what the API server
  returns. What the API server documents is stated over an observer of the stages it stores: a status
  update stores and returns the status it was sent, and a merge patch between objects of one status
  leaves the stored status alone and returns it. The properties assume besides that the stored stage has
  not run ahead of the pass when it starts, and that the other calls of the pass (listing contents, the
  metadata service) do not write it.
\<close>

section \<open>The status the API server returns\<close>

definition early_stages :: "RestoreStage set" where
  "early_stages = {RestoreStageNone, RestoreStageInitial, RestoreStageVolumes}"

text \<open>\<open>stored w n\<close> is the stage of the restore \<open>n\<close> at the API server. An update that is reported as failed
  may have been stored all the same.\<close>

type_synonym 'w stage_observer = "'w \<Rightarrow> string \<Rightarrow> RestoreStage"

definition server_laws :: "('w, 'c) renv \<Rightarrow> 'w stage_observer \<Rightarrow> bool" where
  "server_laws env stored \<longleftrightarrow>
     (\<forall>r w r' e w'. rn_UpdateStatus env r w = ((r', e), w') \<longrightarrow>
        (e = None \<longrightarrow> rs_status r' = rs_status r \<and> rs_nm r' = rs_nm r) \<and>
        stored w' \<in> {(stored w)(rs_nm r := rs_stage r)} \<union> (if e = None then {} else {stored w})) \<and>
     (\<forall>a b p w r' e w'. rn_mergePatch env a b = Inr p \<longrightarrow> rs_status a = rs_status b \<longrightarrow>
        rn_Patch env (rs_nm a) p w = ((r', e), w') \<longrightarrow>
        stored w' = stored w \<and> (e = None \<longrightarrow> rs_nm r' = rs_nm a \<and> rs_stage r' = stored w (rs_nm a)))"

text \<open>The calls of a pass that do not concern restores at the API server.\<close>

definition others_quiet :: "('w, 'c) renv \<Rightarrow> 'w stage_observer \<Rightarrow> bool" where
  "others_quiet env stored \<longleftrightarrow> (\<forall>w.
     (\<forall>n. stored (snd (rn_listVRC env n w)) = stored w) \<and>
     (\<forall>service. stored (snd (rn_connect env service w)) = stored w) \<and>
     (\<forall>ident. stored (snd (rn_metaRestore env ident w)) = stored w) \<and>
     stored (snd (rn_closeSend env w)) = stored w)"

section \<open>Steps under an invariant of the world\<close>

text \<open>\<open>tri I J R m\<close>: from a world with \<open>I\<close>, \<open>m\<close> leads to one with \<open>J\<close> and appends as \<open>tr\<close> says.\<close>

definition tri ::
  "('w \<Rightarrow> bool) \<Rightarrow> ('w \<Rightarrow> bool) \<Rightarrow> ('a \<Rightarrow> rs_event list \<Rightarrow> bool) \<Rightarrow> ('w rctrl, 'a) state \<Rightarrow> bool" where
  "tri I J R m \<longleftrightarrow> (\<forall>s r s'. I (rx_world s) \<longrightarrow> run_state m s = (r, s') \<longrightarrow>
     J (rx_world s') \<and> (\<exists>l. rx_log s' = rx_log s @ l \<and> R r l))"

abbreviation anywhere :: "'w \<Rightarrow> bool" where "anywhere \<equiv> \<lambda>_. True"

lemma triI:
  assumes "\<And>s r s'. I (rx_world s) \<Longrightarrow> run_state m s = (r, s') \<Longrightarrow> J (rx_world s') \<and> (\<exists>l. rx_log s' = rx_log s @ l \<and> R r l)"
  shows "tri I J R m"
  using assms by (simp add: tri_def)

lemma tri_free: "tr rx_log R m \<Longrightarrow> tri I anywhere R m"
  by (auto simp: tri_def dest: trD)

lemma tri_weaken: "tri I J R m \<Longrightarrow> (\<And>r l. R r l \<Longrightarrow> T r l) \<Longrightarrow> tri I J T m"
  unfolding tri_def by blast

lemma tri_pre: "tri I J R m \<Longrightarrow> (\<And>w. I' w \<Longrightarrow> I w) \<Longrightarrow> tri I' J R m"
  unfolding tri_def by blast

lemma tri_end: "tri I J R m \<Longrightarrow> tri I anywhere R m"
  unfolding tri_def by blast

lemma tri_return: "R x [] \<Longrightarrow> tri I I R (State_Monad.return x)"
  by (simp add: tri_def)

lemma tri_bind:
  assumes "tri I J R m" "\<And>a l. R a l \<Longrightarrow> tri J K (\<lambda>r l'. T r (l @ l')) (f a)"
  shows "tri I K T (State_Monad.bind m f)"
proof (rule triI)
  fix s r s' assume s: "I (rx_world s)" and run: "run_state (State_Monad.bind m f) s = (r, s')"
  obtain a t where m: "run_state m s = (a, t)" by fastforce
  then have f: "run_state (f a) t = (r, s')" using run by simp
  obtain l where l: "J (rx_world t)" "rx_log t = rx_log s @ l" "R a l" using assms(1) m s unfolding tri_def by blast
  obtain l' where "K (rx_world s')" "rx_log s' = rx_log t @ l'" "T r (l @ l')"
    using assms(2) [OF l(3)] f l(1) unfolding tri_def by blast
  then show "K (rx_world s') \<and> (\<exists>l. rx_log s' = rx_log s @ l \<and> T r l)" using l(2) by auto
qed

lemma tri_skip:
  assumes "tri I J (\<lambda>a l. l = [] \<and> P a) m" "\<And>a. P a \<Longrightarrow> tri J K T (f a)"
  shows "tri I K T (State_Monad.bind m f)"
  by (rule tri_bind [OF assms(1)]) (use assms(2) in auto)

lemma tri_rask: "(\<And>r. R r []) \<Longrightarrow> tri I I R (rask f)"
  by (auto simp: tri_def rask_def)

lemma tri_rcall:
  "(\<And>w. I w \<Longrightarrow> J (snd (f w)) \<and> R (fst (f w)) (ev (fst (f w)))) \<Longrightarrow> tri I J R (rcall f ev)"
  by (auto simp: tri_def rcall_def split: prod.splits) (metis fst_conv snd_conv)+

lemma tri_rcache_update: "(\<And>r. R r []) \<Longrightarrow> tri I I R (rcache_update env x)"
  by (auto simp: tri_def rcache_update_def split: prod.splits)

lemma tri_cases:
  "(b \<Longrightarrow> tri I J R m) \<Longrightarrow> (\<not> b \<Longrightarrow> tri I J R n) \<Longrightarrow> tri I J R (if b then m else n)"
  "(x = None \<Longrightarrow> tri I J R m) \<Longrightarrow> (\<And>a. x = Some a \<Longrightarrow> tri I J R (f a)) \<Longrightarrow> tri I J R (case x of None \<Rightarrow> m | Some a \<Rightarrow> f a)"
  "(\<And>a. y = Inl a \<Longrightarrow> tri I J R (g a)) \<Longrightarrow> (\<And>b. y = Inr b \<Longrightarrow> tri I J R (h b)) \<Longrightarrow>
     tri I J R (case y of Inl a \<Rightarrow> g a | Inr b \<Rightarrow> h b)"
  "(\<And>a b. z = (a, b) \<Longrightarrow> tri I J R (k a b)) \<Longrightarrow> tri I J R (case z of (a, b) \<Rightarrow> k a b)"
  "(\<And>a. u = Ret a \<Longrightarrow> tri I J R (p a)) \<Longrightarrow> tri I J R q \<Longrightarrow> tri I J R (case u of Ret a \<Rightarrow> p a | Panic \<Rightarrow> q)"
  "(v = Ok \<Longrightarrow> tri I J R o1) \<Longrightarrow> (\<And>e. v = Fail e \<Longrightarrow> tri I J R (o2 e)) \<Longrightarrow> tri I J R o3 \<Longrightarrow>
     tri I J R (case v of Ok \<Rightarrow> o1 | Fail e \<Rightarrow> o2 e | Crash \<Rightarrow> o3)"
  by (cases x; cases y; cases z; cases u; cases v; auto)+

section \<open>Updates and patches\<close>

lemma tr_rcall_from: "(\<And>w. R (fst (f w)) (ev (fst (f w)))) \<Longrightarrow> tr rx_log R (rcall f ev)"
  by (auto simp: tr_def rcall_def split: prod.splits) (metis fst_conv)

lemma tr_update:
  assumes "server_laws env stored"
  shows "tr rx_log (\<lambda>x l. rs_stage (fst x) = rs_stage r \<and> rs_state (fst x) = rs_state r \<and> (\<exists>ok. l = [RvUpdateStatus r ok] \<and> (snd x = None \<longrightarrow> ok)))
     (updateRestoreStatus env r)"
proof -
  have echo: "rs_status r' = rs_status r" if "fst (rn_UpdateStatus env r w) = (r', None)" for r' w
    using assms that unfolding server_laws_def by (metis prod.collapse)
  show ?thesis unfolding updateRestoreStatus_def
    by (intro tr_bind [OF tr_rcall_from, where R = "\<lambda>x l. l = [RvUpdateStatus r (snd x = None)] \<and>
          (snd x = None \<longrightarrow> rs_status (fst x) = rs_status r)"] tr_prod tr_if tr_return
          tr_skip [OF tr_rcache_update, where P = "\<lambda>_. True"])
       (auto split: prod.splits intro: echo)
qed

text \<open>The restore has not been stored as finished. Updates to another stage keep that.\<close>

abbreviation open_at :: "'w stage_observer \<Rightarrow> string \<Rightarrow> 'w \<Rightarrow> bool" where
  "open_at stored n w \<equiv> stored w n \<noteq> RestoreStageFinished"

lemma tri_update:
  assumes "server_laws env stored" "rs_stage r \<noteq> RestoreStageFinished"
  shows "tri (open_at stored n) (open_at stored n)
     (\<lambda>x l. rs_stage (fst x) = rs_stage r \<and> rs_state (fst x) = rs_state r \<and> rs_nm (fst x) = rs_nm r \<and>
        (\<exists>ok. l = [RvUpdateStatus r ok] \<and> (snd x = None \<longrightarrow> ok)))
     (updateRestoreStatus env r)"
proof -
  have call: "open_at stored n (snd (rn_UpdateStatus env r w)) \<and>
      (snd (fst (rn_UpdateStatus env r w)) = None \<longrightarrow>
        rs_status (fst (fst (rn_UpdateStatus env r w))) = rs_status r \<and> rs_nm (fst (fst (rn_UpdateStatus env r w))) = rs_nm r)"
    if "open_at stored n w" for w
  proof -
    obtain r' e w' where run: "rn_UpdateStatus env r w = ((r', e), w')" by (metis prod.collapse)
    then have "(e = None \<longrightarrow> rs_status r' = rs_status r \<and> rs_nm r' = rs_nm r) \<and>
        stored w' \<in> {(stored w)(rs_nm r := rs_stage r)} \<union> (if e = None then {} else {stored w})"
      using assms(1) unfolding server_laws_def by blast
    then have "stored w' \<in> {(stored w)(rs_nm r := rs_stage r), stored w}" "e = None \<longrightarrow> rs_status r' = rs_status r \<and> rs_nm r' = rs_nm r"
      by (auto split: if_splits)
    then show ?thesis using run that assms(2) by (auto split: if_splits)
  qed
  show ?thesis unfolding updateRestoreStatus_def
    by (intro tri_bind [where J = "open_at stored n", OF tri_rcall, where R = "\<lambda>x l. l = [RvUpdateStatus r (snd x = None)] \<and>
          (snd x = None \<longrightarrow> rs_status (fst x) = rs_status r \<and> rs_nm (fst x) = rs_nm r)"] tri_cases tri_return
          tri_skip [OF tri_rcache_update, where P = "\<lambda>_. True"])
       (use call in \<open>auto split: prod.splits\<close>)
qed

text \<open>A patch that only changes the metadata returns the stored stage.\<close>

lemma tri_patch:
  assumes "server_laws env stored" "rs_status a = rs_status b" "\<And>w w'. stored w' = stored w \<Longrightarrow> I w \<Longrightarrow> I w'"
    "\<And>w. I w \<Longrightarrow> stored w (rs_nm a) \<in> S"
  shows "tri I I (\<lambda>x l. (snd x = None \<longrightarrow> (\<exists>r. fst x = Some r \<and> rs_stage r \<in> S \<and> rs_nm r = rs_nm a)) \<and>
     (\<forall>e \<in> set l. \<exists>ok. e = RvPatch a b ok)) (patchRestore env a b)"
proof (cases "rn_mergePatch env a b")
  case (Inr p)
  have call: "I (snd (rn_Patch env (rs_nm a) p w)) \<and> (snd (fst (rn_Patch env (rs_nm a) p w)) = None \<longrightarrow>
      rs_nm (fst (fst (rn_Patch env (rs_nm a) p w))) = rs_nm a \<and> rs_stage (fst (fst (rn_Patch env (rs_nm a) p w))) \<in> S)"
    if "I w" for w
  proof -
    obtain r' e w' where run: "rn_Patch env (rs_nm a) p w = ((r', e), w')" by (metis prod.collapse)
    then have "stored w' = stored w" "e = None \<longrightarrow> rs_nm r' = rs_nm a \<and> rs_stage r' = stored w (rs_nm a)"
      using assms(1,2) Inr unfolding server_laws_def by metis+
    then show ?thesis using run that assms(3,4) by auto
  qed
  show ?thesis unfolding patchRestore_def Inr sum.case
    by (intro tri_bind [where J = I, OF tri_rcall, where R = "\<lambda>x l. l = [RvPatch a b (snd x = None)] \<and>
          (snd x = None \<longrightarrow> rs_stage (fst x) \<in> S \<and> rs_nm (fst x) = rs_nm a)"] tri_cases tri_return
          tri_skip [OF tri_rcache_update, where P = "\<lambda>_. True"])
       (use call in \<open>auto split: prod.splits\<close>)
qed (auto simp: patchRestore_def intro!: tri_return)

lemma tri_annotate:
  assumes "server_laws env stored" "rs_stage restore \<noteq> RestoreStageFinished" "rs_nm restore = n"
  shows "tri (open_at stored n) (open_at stored n)
     (\<lambda>x l. (snd x = None \<longrightarrow> (\<exists>r. fst x = Some r \<and> rs_stage r \<noteq> RestoreStageFinished)) \<and>
        (\<forall>e \<in> set l. \<exists>a b ok. e = RvPatch a b ok)) (annotateRestore env an v restore)"
  unfolding annotateRestore_def
  by (intro tri_cases tri_return tri_weaken [OF tri_patch [OF assms(1), where S = "- {RestoreStageFinished}"]])
     (use assms(2,3) in auto)

section \<open>Before the resources\<close>

text \<open>Until the volumes are restored, only storage classes are created, and the restore does not finish.\<close>

fun early :: "rs_event \<Rightarrow> bool" where
  "early (RvUpdateStatus r _) = (rs_stage r \<noteq> RestoreStageFinished)"
| "early (RvCreate _ _ u _) = (un_kind u = SC_kind)"
| "early (RvHooksWaited _) = False"
| "early _ = True"

lemma every_update: "rs_stage r \<noteq> RestoreStageFinished \<Longrightarrow> every rx_log early (updateRestoreStatus env r)"
  by (rule every_updateRestoreStatus) simp

lemma every_ensureNamespace: "every rx_log early (ensureNamespace env ns)"
  unfolding ensureNamespace_def by (intro tr_rules tr_rcall) auto

lemma early_applyResource:
  assumes "un_kind u = SC_kind"
  shows "every rx_log early (applyResource env hooks u)"
proof -
  have k: "SC_kind \<notin> {Deployment_kind, DaemonSet_kind, StatefulSet_kind, Replicaset_kind}" "SC_kind \<noteq> Pod_kind"
    by (simp_all add: kind_defs)
  have "tr rx_log (\<lambda>r l. (\<forall>e \<in> set l. early e) \<and> (\<forall>x. r = Inr x \<longrightarrow> un_kind x = SC_kind)) (preProcessResource env u)"
    unfolding preProcessResource_def
    by (rule tr_bind [OF every_ensureNamespace], rule tr_return) (auto simp: assms split: option.splits)
  then show ?thesis unfolding applyResource_def Let_def rcreate_def
    by (intro tr_sum tr_return, simp, elim every_bind_with) (intro tr_rules tr_rcall, use k in auto)
qed

lemma early_class:
  assumes "rindexer_laws (rn_ix env) its"
  shows "every rx_log early (ensureStorageClass env c pvcs)"
proof (cases "check_classes env (ix_ByIndex (rn_ix env) resourceIndex SC_kind c)")
  case (Inr classes)
  have sub: "set cs \<subseteq> set us" if "check_classes env us = Inr cs" for us cs
    using that by (induction env us arbitrary: cs rule: check_classes.induct) (auto split: option.splits sum.splits)
  have "un_kind u = SC_kind" if "u \<in> set classes" for u
    using sub [OF Inr] that rlaws(6) [OF assms] by (auto simp: resourceIndex_def)
  then show ?thesis unfolding ensureStorageClass_def Inr sum.case ensure_class_def apply_class_def Let_def
    by (intro tr_rules early_applyResource) auto
qed (simp add: ensureStorageClass_def tr_return)

lemma early_construct: "every rx_log early (construct_contents env name m vbcs)"
proof (induction vbcs)
  case (Cons v vs)
  show ?case unfolding construct_contents.simps Let_def by (intro tr_rules tr_rcall Cons.IH) auto
qed (simp add: tr_return)

lemma early_volumeRestore:
  assumes "rindexer_laws (rn_ix env) its" "rs_stage restore \<noteq> RestoreStageFinished"
  shows "every rx_log early (volumeRestore env restore pvcs vrcs c)"
  unfolding volumeRestore_def ensurePVCNamespace_def ensureVolumeRestoreContent_def updateRestoreState_def
  by (intro tr_rules every_ensureNamespace early_class [OF assms(1)] tr_rcall every_update) (auto simp: assms(2))

lemma tr_claims:
  assumes "rs_stage restore \<noteq> RestoreStageFinished"
  shows "tr rx_log (\<lambda>x l. (\<forall>e \<in> set l. early e) \<and> rs_stage (fst x) \<noteq> RestoreStageFinished) (check_claims env restore ps)"
proof (induction ps)
  case Nil
  show ?case using assms by (simp add: tr_return)
next
  case (Cons p ps)
  show ?case unfolding check_claims.simps Let_def
    by (intro tr_bind [OF tr_rcall, where R = "\<lambda>_ l. l = []"] tr_sum tr_if tr_bind [OF every_update] tr_prod tr_return)
       (use Cons.IH assms in auto)
qed

text \<open>The stored stage is needed up to the annotation, which is the last patch of a pass.\<close>

abbreviation ends_early :: "('w, 'c) renv \<Rightarrow> 'w stage_observer \<Rightarrow> string \<Rightarrow> ('w rctrl, 'a) state \<Rightarrow> bool" where
  "ends_early env stored n m \<equiv> tri (open_at stored n) anywhere (\<lambda>_ l. \<forall>e \<in> set l. early e) m"

lemma early_volumes_done:
  assumes "server_laws env stored" "rs_stage restore \<noteq> RestoreStageFinished" "rs_nm restore = n"
  shows "ends_early env stored n (volumes_done env restore)"
  unfolding volumes_done_def updateRestoreState_def
proof (rule tri_bind [OF tri_annotate [OF assms]], rule tri_cases, rule tri_cases, goal_cases)
  case (1 a l r err)
  then show ?case by (intro tri_end [OF tri_return]) auto
next
  case (2 a l r err)
  then have "rs_stage (set_rstate RestoreStateCompleted (the r)) \<noteq> RestoreStageFinished" using assms(2) by auto
  moreover have "\<forall>e \<in> set l. early e" using 2 by auto
  ultimately show ?case by (intro tri_free tr_bind [OF every_update] tr_prod tr_return) auto
qed

lemma early_syncVolumeRestore:
  assumes "server_laws env stored" "others_quiet env stored" "rindexer_laws (rn_ix env) its"
    "rs_stage restore \<noteq> RestoreStageFinished" "rs_nm restore = n"
  shows "ends_early env stored n (syncVolumeRestore env restore c)"
proof -
  have "tr rx_log (\<lambda>x l. (\<forall>e \<in> set l. early e) \<and> rs_stage (fst x) \<noteq> RestoreStageFinished) (checkPVCRestored env restore c)"
    unfolding checkPVCRestored_def by (intro tr_sum tr_return tr_claims) (auto simp: assms(4))
  then have claims: "every rx_log early (do {
        (restore1, restored, err) \<leftarrow> checkPVCRestored env restore c;
        if err \<noteq> None then State_Monad.return (Ret (Some restore1, err))
        else if \<not> restored then State_Monad.return (Ret (Some restore1, None))
        else do {
          (r, e) \<leftarrow> updateRestoreState env restore1 RestoreStateCompleted;
          State_Monad.return (Ret (Some r, e)) } })"
    unfolding updateRestoreState_def by (rule every_bind_with) (intro tr_rules every_update, simp_all)
  have ret: "ends_early env stored n (State_Monad.return x)" for x by (rule tri_end [OF tri_return]) simp
  have vols: "ends_early env stored n (volumes_done env restore)" by (rule early_volumes_done [OF assms(1,4,5)])
  have list: "tri (open_at stored n) (open_at stored n) (\<lambda>_ l. \<forall>e \<in> set l. early e) (list_vrcs env restore)"
    unfolding list_vrcs_def by (rule tri_rcall) (use assms(2) in \<open>auto simp: others_quiet_def split: prod.splits\<close>)
  have after: "tri (open_at stored n) anywhere (\<lambda>_ l'. \<forall>e \<in> set (l @ l'). early e) m"
    if "\<forall>e \<in> set l. early e" "ends_early env stored n m" for l and m :: "(_ rctrl, 'z) state"
    using that(1) by (intro tri_weaken [OF that(2)]) auto
  have status: "ends_early env stored n (checkVolumeRestoreStatus env k restore)" for k
    unfolding checkVolumeRestoreStatus_def
    by (rule tri_bind [OF list], intro tri_cases) (auto simp del: set_append intro!: after ret vols)
  have construct: "every rx_log early (constructVolumeRestoreContent env name c pvcs)" for name pvcs
    unfolding constructVolumeRestoreContent_def by (intro tr_rules early_construct) auto
  have failed: "every rx_log early (fail_restore env m restore)" for m
    unfolding fail_restore_def by (rule every_update) (simp add: assms(4))
  have create: "every rx_log early (volumeRestore env restore pvcs vrcs c)" for pvcs vrcs
    by (rule early_volumeRestore [OF assms(3,4)])
  have wrapped: "ends_early env stored n (do { x \<leftarrow> m; State_Monad.return (Ret x) })" if "ends_early env stored n m"
    for m :: "(_ rctrl, 'z) state"
    by (rule tri_bind [OF that], rule tri_return) simp
  show ?thesis unfolding syncVolumeRestore_def
    by (intro tri_cases(1,3) wrapped vols status; (rule tri_free, intro claims construct failed create tr_rules; simp)?)
qed

lemma tr_failed:
  assumes "server_laws env stored"
  shows "tr rx_log (\<lambda>x l. rs_stage (fst x) = rs_stage restore \<and> rs_state (fst x) = RestoreStateFailed \<and>
     (rs_stage restore \<noteq> RestoreStageFinished \<longrightarrow> (\<forall>e \<in> set l. early e))) (fail_restore env reason restore)"
  unfolding fail_restore_def by (rule tr_weaken [OF tr_update [OF assms]]) auto

lemma tri_failed:
  assumes "server_laws env stored" "rs_stage restore \<noteq> RestoreStageFinished"
  shows "tri (open_at stored n) (open_at stored n) (\<lambda>x l. (\<forall>e \<in> set l. early e) \<and> rs_stage (fst x) = rs_stage restore \<and>
     rs_nm (fst x) = rs_nm restore) (fail_restore env reason restore)"
  unfolding fail_restore_def by (rule tri_weaken [OF tri_update [OF assms(1)]]) (use assms(2) in auto)

text \<open>Populating the candidates keeps the stage.\<close>

abbreviation keeps_stage :: "RestoreStage \<Rightarrow> string \<Rightarrow> ((Restore \<times> goerr option) \<times> 'c option) outcome \<Rightarrow> rs_event list \<Rightarrow> bool" where
  "keeps_stage g n x l \<equiv> (\<forall>e \<in> set l. early e) \<and> (\<forall>y c. x = Ret (y, c) \<longrightarrow> rs_stage (fst y) = g \<and> rs_nm (fst y) = n)"

lemma tri_content:
  assumes "others_quiet env stored"
  shows "tri (open_at stored n) (open_at stored n) (\<lambda>_ l. l = [] \<and> True) (fetchBackupContent env p i c)"
proof -
  have quiet: "stored (snd (rn_connect env service w)) = stored w" "stored (snd (rn_metaRestore env ident w)) = stored w"
    "stored (snd (rn_closeSend env w)) = stored w" for service ident w
    using assms by (simp_all add: others_quiet_def)
  have connect: "tri (open_at stored n) (open_at stored n) (\<lambda>_ l. l = [] \<and> True) (restore_fetchMetaServiceClient env p)"
    unfolding restore_fetchMetaServiceClient_def
    by (intro tri_cases tri_return tri_skip [where J = "open_at stored n", OF tri_rcall, where P = "\<lambda>_. True"]) (simp_all add: quiet)
  show ?thesis unfolding fetchBackupContent_def Let_def
    by (intro tri_skip [OF connect] tri_cases tri_return tri_skip [where J = "open_at stored n", OF tri_rcall, where P = "\<lambda>_. True"]
          tri_skip [OF tri_rask, where P = "\<lambda>_. True"]) (simp_all add: quiet)
qed

lemma tri_populate:
  assumes "server_laws env stored" "others_quiet env stored" "rs_stage restore = g" "g \<noteq> RestoreStageFinished" "rs_nm restore = n"
  shows "tri (open_at stored n) (open_at stored n) (keeps_stage g n) (populateRestoreResources env restore)"
proof -
  let ?J = "open_at stored n"
  have failed: "tri ?J ?J (keeps_stage g n) (do { x \<leftarrow> populate_failed env restore a b; State_Monad.return (Ret (x, None)) })" for a b
    unfolding populate_failed_def
    by (rule tri_bind [where R = "\<lambda>x l. (\<forall>e \<in> set l. early e) \<and> rs_stage (fst x) = g \<and> rs_nm (fst x) = n"],
        rule tri_bind [OF tri_failed [OF assms(1)]]) (use assms in \<open>auto intro!: tri_cases tri_return\<close>)
  have mutate: "tri ?J ?J (keeps_stage g n) (do { (r, _) \<leftarrow> patchRestoreObjects env restore c;
      State_Monad.return (Ret ((r, None), Some d)) })" for c d
    unfolding patchRestoreObjects_def by (rule tri_bind [OF tri_update [OF assms(1)]]) (use assms in \<open>auto intro!: tri_cases tri_return\<close>)
  have panic: "keeps_stage g n Panic []" by simp
  have rm: "tri ?J ?J (keeps_stage g n) (filter_and_resolve env restore b)" for b
    unfolding filter_and_resolve_def resolve_and_mutate_def
    by (intro tri_cases tri_return failed mutate panic)
  show ?thesis unfolding populateRestoreResources_def
    by (intro tri_skip [OF tri_rask, where P = "\<lambda>_. True"] tri_skip [OF tri_content [OF assms(2)]] tri_cases failed rm) auto
qed

lemma tri_init:
  assumes "server_laws env stored" "rs_stage restore \<in> {RestoreStageNone, RestoreStageInitial}"
  shows "tri (open_at stored n) (open_at stored n)
     (\<lambda>x l. (\<forall>e \<in> set l. early e) \<and> rs_stage (fst x) = RestoreStageInitial \<and> rs_nm (fst x) = rs_nm restore) (initRestore env restore)"
proof -
  have g: "rs_stage (init_status now restore) = RestoreStageInitial" "rs_nm (init_status now restore) = rs_nm restore" for now
    using assms(2) by (auto simp: init_status_def Let_def)
  show ?thesis unfolding initRestore_def
    by (rule tri_skip [OF tri_rask, where P = "\<lambda>_. True"], simp, rule tri_weaken [OF tri_update [OF assms(1)]]) (auto simp: g)
qed

lemma tri_validate:
  assumes "server_laws env stored" "rs_stage restore \<noteq> RestoreStageFinished"
  shows "tri (open_at stored n) (open_at stored n) (\<lambda>_ l. \<forall>e \<in> set l. early e) (validateRestore env restore)"
  unfolding validateRestore_def
  by (intro tri_skip [OF tri_rask, where P = "\<lambda>_. True"] tri_cases tri_bind [OF tri_update [OF assms(1)]] tri_return)
     (use assms(2) in auto)

section \<open>Creating the resources\<close>

fun finishing :: "rs_event \<Rightarrow> bool" where
  "finishing (RvUpdateStatus r _) = (rs_stage r = RestoreStageFinished)" | "finishing _ = False"

lemma early_not_finishing: "early e \<Longrightarrow> \<not> finishing e"
  by (cases e) auto

abbreviation unfinished :: "rs_event list \<Rightarrow> bool" where
  "unfinished l \<equiv> \<forall>e \<in> set l. \<not> finishing e"

lemma unfinished_applyResource: "all_of rx_log unfinished (applyResource env hooks u)"
  unfolding applyResource_def applyPodResources_def applyWorkloadResources_def applyWorkloadPodResources_def
    preProcessResource_def ensureNamespace_def rcreate_def Let_def
  by (intro tr_rules tr_rcall every_waitExec every_wait_pods every_WaitResource) simp_all

lemma tr_external_hook: "every rx_log Q (external_hook env allNs e)"
  unfolding external_hook_def external_namespace_def Let_def by (intro tr_rules) auto

lemma unfinished_wait_hooks: "all_of rx_log unfinished (wait_hooks env)"
  by (rule tr_weaken [OF tr_wait_hooks]) simp

lemma tr_stage_update:
  assumes "server_laws env stored" "rs_stage r \<noteq> RestoreStageFinished"
  shows "tr rx_log (\<lambda>x l. unfinished l \<and> rs_stage (fst x) \<noteq> RestoreStageFinished \<and> rs_state (fst x) = rs_state r) (updateRestoreStatus env r)"
  by (rule tr_weaken [OF tr_update [OF assms(1)]]) (use assms(2) in auto)

definition passed :: "rs_event list \<Rightarrow> bool" where "passed l \<longleftrightarrow> RvHooksWaited (Some 0) \<in> set l"

lemma passed_append [simp]: "passed (l @ l') \<longleftrightarrow> passed l \<or> passed l'"
  by (auto simp: passed_def)

abbreviation hooks_ran :: "Restore \<times> sres \<Rightarrow> rs_event list \<Rightarrow> bool" where
  "hooks_ran x l \<equiv> rs_stage (fst x) \<noteq> RestoreStageFinished \<and> unfinished l \<and> (snd x = Ok \<longrightarrow> passed l)"

lemma tr_after_resources:
  assumes "server_laws env stored" "rs_stage restore \<noteq> RestoreStageFinished"
  shows "tr rx_log hooks_ran (after_resources env entries allNs restore)"
proof -
  have wait: "tr rx_log hooks_ran (do {
     errs \<leftarrow> wait_hooks env;
     (case errs of Panic \<Rightarrow> State_Monad.return (r, Crash)
      | Ret es \<Rightarrow> if 0 < length es
          then State_Monad.return (r, Fail (errorf ''failure while executing post exec hooks''))
          else do {
            y \<leftarrow> each (external_hook env allNs) entries;
            if y \<noteq> Ok then State_Monad.return (r, y)
            else do {
              (restore2, _) \<leftarrow> updateRestoreState env r RestoreStateCompleted;
              State_Monad.return (restore2, Ok) } }) })"
    if r: "rs_stage r \<noteq> RestoreStageFinished" for r
  proof (rule tr_bind [OF tr_wait_hooks], rule tr_outcome, goal_cases)
    case (1 errs w es)
    have hooks: "every rx_log (\<lambda>e. \<not> finishing e) (each (external_hook env allNs) entries)"
      by (rule every_each, rule tr_external_hook)
    have up: "tr rx_log (\<lambda>x l. unfinished l \<and> rs_stage (fst x) \<noteq> RestoreStageFinished \<and> rs_state (fst x) = RestoreStateCompleted)
        (updateRestoreState env r RestoreStateCompleted)"
      unfolding updateRestoreState_def using tr_stage_update [OF assms(1), of "set_rstate RestoreStateCompleted r"] r by simp
    from 1 r show ?case
      by (intro tr_if tr_return tr_bind [OF hooks] tr_bind [OF up] tr_prod) (auto simp: passed_def)
  next
    case (2 errs w)
    then show ?case using r by (intro tr_return) (auto split: outcome.splits)
  qed
  show ?thesis unfolding after_resources_def updateRestoreState_def [of env restore] updateRestoreStage_def
    by (intro tr_bind [OF tr_stage_update [OF assms(1)]] tr_prod tr_weaken [OF wait]) (use assms(2) in auto)
qed

lemma tr_applyIndexedResource:
  assumes "server_laws env stored" "rs_stage restore \<noteq> RestoreStageFinished"
  shows "tr rx_log hooks_ran (applyIndexedResource env c restore)"
proof -
  have each: "all_of rx_log unfinished (each (applyResource env h) us)" for h us
    by (rule every_each, rule unfinished_applyResource)
  show ?thesis unfolding applyIndexedResource_def
    by (intro tr_skip [OF tr_rask, where P = "\<lambda>_. True"] tr_outcome tr_sum tr_prod tr_return tr_bind [OF each] tr_if
          tr_weaken [OF tr_after_resources [OF assms]]) (use assms(2) in auto)
qed

text \<open>If the metadata stage ends in the completed state, the hooks have passed.\<close>

lemma tr_syncMetadataRestore:
  assumes "server_laws env stored" "rs_stage restore \<noteq> RestoreStageFinished"
  shows "tr rx_log (\<lambda>x l. unfinished l \<and> (\<forall>r e. x = Ret (r, e) \<longrightarrow> rs_state r = RestoreStateCompleted \<longrightarrow> passed l))
     (syncMetadataRestore env restore c)"
proof -
  have crd: "all_of rx_log unfinished (applyCRD env c restore)"
    unfolding applyCRD_def by (rule every_each, rule unfinished_applyResource)
  have fail: "tr rx_log (\<lambda>x l. unfinished l \<and> rs_state (fst x) = RestoreStateFailed) (fail_restore env m r)"
    if "rs_stage r \<noteq> RestoreStageFinished" for m r
    by (rule tr_weaken [OF tr_failed [OF assms(1)]]) (use that early_not_finishing in auto)
  show ?thesis unfolding syncMetadataRestore_def updateRestoreState_def
    by (intro tr_if tr_return tr_bind [OF crd] tr_sres tr_bind [OF tr_applyIndexedResource [OF assms]] tr_prod
          tr_bind [OF fail] tr_bind [OF tr_stage_update [OF assms(1)]]) (use assms(2) in auto)
qed

section \<open>The stages\<close>

fun other_create :: "rs_event \<Rightarrow> bool" where
  "other_create (RvCreate _ _ u _) = (un_kind u \<noteq> SC_kind)" | "other_create _ = False"

fun starts_resources :: "rs_event \<Rightarrow> bool" where
  "starts_resources (RvUpdateStatus r True) = (rs_stage r = RestoreStageResources)" | "starts_resources _ = False"

lemma early_not_other: "early e \<Longrightarrow> \<not> other_create e"
  by (cases e) auto

lemma tr_rsync_resources:
  assumes "server_laws env stored" "rs_stage restore \<noteq> RestoreStageFinished"
  shows "tr rx_log (\<lambda>_ l. only_after finishing passed l) (rsync_resources env c restore)"
proof -
  have any: "tr rx_log (\<lambda>_ _. True) (rsync_posthook env r)" for r
    unfolding rsync_posthook_def rsync_finished_def updateRestoreStage_def
    by (intro every_any [where R = "\<lambda>_ l. creates_absent l"] calm calm_return calm_rask calm_update)
  show ?thesis unfolding rsync_resources_def
    by (intro tr_bind [OF tr_syncMetadataRestore [OF assms]] tr_outcome tr_prod tr_if tr_return tr_weaken [OF any])
       (auto intro: only_after_none only_after_behind)
qed

abbreviation in_order :: "rs_event list \<Rightarrow> bool" where
  "in_order l \<equiv> only_after other_create (list_ex starts_resources) l \<and> only_after finishing passed l"

definition early_closed :: "(rs_event list \<Rightarrow> bool) \<Rightarrow> bool" where
  "early_closed C \<longleftrightarrow> C [] \<and> (\<forall>l l'. (\<forall>e \<in> set l. early e) \<longrightarrow> C l' \<longrightarrow> C (l @ l'))"

lemma early_closed_only_after [simp]: "early_closed (only_after finishing passed)" "early_closed in_order"
  by (auto simp: early_closed_def only_after_none intro!: only_after_prefix dest: early_not_finishing early_not_other)

lemma early_closedD:
  assumes "early_closed C" "\<forall>e \<in> set l. early e"
  shows "C l" "C l' \<Longrightarrow> C (l @ l')"
  using assms unfolding early_closed_def by (metis append_Nil2)+

lemma tr_early_then:
  assumes "early_closed C" "\<forall>e \<in> set l. early e" "all_of rx_log C m"
  shows "tr rx_log (\<lambda>_ l'. C (l @ l')) m"
  by (rule tr_weaken [OF assms(3)]) (rule early_closedD(2) [OF assms(1,2)])

lemma tri_early_then:
  assumes "early_closed C" "\<forall>e \<in> set l. early e" "tri I J (\<lambda>_. C) m"
  shows "tri I J (\<lambda>_ l'. C (l @ l')) m"
  by (rule tri_weaken [OF assms(3)]) (rule early_closedD(2) [OF assms(1,2)])

lemma tr_rsync_volumes:
  assumes "server_laws env stored" "others_quiet env stored" "rindexer_laws (rn_ix env) its"
    "rs_stage restore \<noteq> RestoreStageFinished" "rs_nm restore = n"
  shows "tri (open_at stored n) anywhere (\<lambda>_. in_order) (rsync_volumes env c restore)"
proof -
  let ?P = "\<lambda>r. set_rstage RestoreStageResources (set_rstate RestoreStateNew r)"
  have res: "tr rx_log (\<lambda>_ l. in_order l) (do {
      (restore, err2) \<leftarrow> updateRestoreStage env (set_rstate RestoreStateNew r) RestoreStageResources;
      if err2 \<noteq> None then State_Monad.return (Ret err2) else rsync_resources env c restore })" for r
    unfolding updateRestoreStage_def
  proof (rule tr_bind [OF tr_update [OF assms(1)]], rule tr_prod, rule tr_if, goal_cases)
    case (1 x l a b)
    then obtain ok where "l = [RvUpdateStatus (?P r) ok]" by auto
    then show ?case by (intro tr_return) (simp add: only_after_single)
  next
    case (2 x l a b)
    then have l: "l = [RvUpdateStatus (?P r) True]" and a: "rs_stage a \<noteq> RestoreStageFinished" by auto
    have "in_order (l @ l')" if "only_after finishing passed l'" for l'
      unfolding l by (rule conjI [OF only_after_behind only_after_prefix [OF _ that]]) (auto simp: passed_def)
    then show ?case by (intro tr_weaken [OF tr_rsync_resources [OF assms(1) a]]) blast
  qed
  show ?thesis unfolding rsync_volumes_def
    by (rule tri_bind [OF early_syncVolumeRestore [OF assms]], rule tri_free,
        intro tr_outcome tr_prod tr_if tr_option tr_return res
          tr_early_then [OF early_closed_only_after(2)] early_closedD(1) [OF early_closed_only_after(2)]) auto
qed

lemma tr_after_initial_failed:
  assumes "rs_stage restore \<noteq> RestoreStageFinished"
  shows "every rx_log early (do { (_, e) \<leftarrow> updateRestoreState env (set_reason m restore) RestoreStateFailed;
     State_Monad.return (Ret e :: goerr option outcome) })"
  unfolding updateRestoreState_def by (intro tr_rules every_update) (auto simp: assms)

lemma tri_after_initial:
  assumes "early_closed C" "server_laws env stored" "others_quiet env stored" "rs_stage restore = g" "g \<noteq> RestoreStageFinished"
    "rs_nm restore = n" "\<And>c r. rs_stage r = g \<Longrightarrow> rs_nm r = n \<Longrightarrow> tri (open_at stored n) anywhere (\<lambda>_. C) (sync_stages env c r)"
  shows "tri (open_at stored n) anywhere (\<lambda>_. C) (after_initial env restore)"
  unfolding after_initial_def
proof (rule tri_bind [OF tri_populate [OF assms(2-6)]], rule tri_cases, rule tri_cases, rule tri_cases, rule tri_cases, goal_cases)
  case (1 x l a y c r e)
  then show ?case by (intro tri_early_then assms(1,7)) auto
next
  case (2 x l a y c r e err)
  then have "rs_stage r \<noteq> RestoreStageFinished" "\<forall>e \<in> set l. early e" using assms(5) by auto
  then show ?case
    by (intro tri_free tr_early_then assms(1) tr_weaken [OF tr_after_initial_failed] early_closedD(1) [OF assms(1)])
next
  case (3 x l)
  then show ?case by (intro tri_free tr_return early_closedD(1) [OF assms(1)]) auto
qed

lemma tri_with_finalizer:
  assumes "server_laws env stored" "others_quiet env stored" "rindexer_laws (rn_ix env) its"
    "rs_stage restore \<in> early_stages" "rs_nm restore = n"
  shows "tri (open_at stored n) anywhere (\<lambda>_. in_order) (sync_with_finalizer env restore)"
proof -
  let ?J = "open_at stored n"
  have after: "tri ?J anywhere (\<lambda>_. in_order) (after_initial env r)" if "rs_stage r = RestoreStageVolumes" "rs_nm r = n" for r
    using tr_rsync_volumes [OF assms(1-3)]
    by (intro tri_after_initial [OF _ assms(1,2) that(1) _ that(2)]) (auto simp: sync_stages_def)
  show ?thesis
  proof (cases "rs_stage restore = RestoreStageVolumes")
    case True
    then show ?thesis using after assms(5) by (simp add: sync_with_finalizer_def)
  next
    case False
    then have init: "rs_stage restore \<in> {RestoreStageNone, RestoreStageInitial}" using assms(4) by (auto simp: early_stages_def)
    have ret: "tri ?J anywhere (\<lambda>_. in_order) (State_Monad.return x)" for x
      by (intro tri_end [OF tri_return] early_closedD(1) [OF early_closed_only_after(2)]) simp
    have vol: "tri ?J ?J (\<lambda>x l. (\<forall>e \<in> set l. early e) \<and> rs_stage (fst x) = RestoreStageVolumes \<and> rs_nm (fst x) = rs_nm r)
        (updateRestoreStatus env (set_rstate RestoreStateNew (set_rstage RestoreStageVolumes r)))" for r
      by (rule tri_weaken [OF tri_update [OF assms(1)]]) auto
    have rest: "tri ?J anywhere (\<lambda>_. in_order) (do {
        verr \<leftarrow> validateRestore env r;
        if verr \<noteq> None then State_Monad.return (Ret verr)
        else do {
          (restore2, err2) \<leftarrow> updateRestoreStatus env (set_rstate RestoreStateNew (set_rstage RestoreStageVolumes r));
          if err2 \<noteq> None then State_Monad.return (Ret err2) else after_initial env restore2 } })"
      if "rs_stage r = RestoreStageInitial" "rs_nm r = n" for r
      by (rule tri_bind [OF tri_validate [OF assms(1)]], use that in simp, rule tri_early_then [OF early_closed_only_after(2)], assumption,
          rule tri_cases, rule ret, rule tri_bind [OF vol], rule tri_cases, rule tri_early_then [OF early_closed_only_after(2)], simp,
          rule tri_cases, rule ret, rule after) (use that in simp_all)
    have "sync_with_finalizer env restore = sync_from_initial env restore" using init by (auto simp: sync_with_finalizer_def)
    then show ?thesis unfolding sync_from_initial_def
      by (simp only:) (rule tri_bind [OF tri_init [OF assms(1) init]], rule tri_cases, rule tri_early_then [OF early_closed_only_after(2)],
          simp, rule tri_cases, rule ret, rule rest; use assms(5) in simp)
  qed
qed

text \<open>A whole pass: a restore without the finalizer is replaced by what the first patch returns.\<close>

lemma tri_syncRestore:
  assumes "early_closed C" "server_laws env stored" "RestoreStageFinished \<notin> S"
    "\<And>r. rs_stage r \<in> S \<Longrightarrow> rs_nm r = n \<Longrightarrow> tri (open_at stored n) anywhere (\<lambda>_. C) (sync_with_finalizer env r)"
    "rs_stage restore \<in> S" "rs_nm restore = n"
  shows "tri (\<lambda>w. stored w n \<in> S) anywhere (\<lambda>_. C) (syncRestore env restore)"
proof -
  let ?b = "restore\<lparr>rs_meta := the (SetFinalizer (Some (rs_meta restore)) restoreFinalizer)\<rparr>"
  let ?I = "\<lambda>w. stored w n \<in> S"
  have sync: "tri ?I anywhere (\<lambda>_. C) (sync_with_finalizer env r)" if "rs_stage r \<in> S" "rs_nm r = n" for r
    by (rule tri_pre [OF assms(4) [OF that]]) (use assms(3) in auto)
  have ret: "tri ?I anywhere (\<lambda>_. C) (State_Monad.return x)" for x
    by (intro tri_end [OF tri_return] early_closedD(1) [OF assms(1)]) simp
  have patch: "tri ?I ?I (\<lambda>x l. (snd x = None \<longrightarrow> (\<exists>r. fst x = Some r \<and> rs_stage r \<in> S \<and> rs_nm r = n)) \<and>
      (\<forall>e \<in> set l. \<exists>ok. e = RvPatch restore ?b ok)) (patchRestore env restore ?b)"
    by (rule tri_weaken [OF tri_patch [OF assms(2)]]) (use assms(6) in auto)
  show ?thesis unfolding syncRestore_def
    by (rule tri_cases, rule ret, rule tri_cases, rule tri_bind [OF patch], rule tri_cases, rule tri_early_then [OF assms(1)], force,
        rule tri_cases, rule ret, rule sync, force, force, rule sync) (use assms(5,6) in auto)
qed

lemma tri_run:
  assumes "tri I anywhere R m" "I (rx_world s)"
  shows "\<exists>l. rx_log (snd (run_state m s)) = rx_log s @ l \<and> R (fst (run_state m s)) l"
  using assms unfolding tri_def by (metis prod.collapse)


text \<open>C11: a restore that has not reached the hook stage, neither as the pass received it nor at the API server, is
  only recorded as finished after the controller has waited for all hooks of restored pods and received no error
  from them.\<close>

theorem finished_after_hooks:
  assumes "server_laws env stored" "others_quiet env stored" "rindexer_laws (rn_ix env) its"
    "rs_stage restore \<in> insert RestoreStageResources early_stages"
    "stored (rx_world s) (rs_nm restore) \<in> insert RestoreStageResources early_stages"
  shows "\<exists>l. rx_log (snd (run_state (syncRestore env restore) s)) = rx_log s @ l \<and> only_after finishing passed l"
proof -
  let ?C = "only_after finishing passed" and ?S = "insert RestoreStageResources early_stages" and ?n = "rs_nm restore"
  have s: "RestoreStageFinished \<notin> ?S" by (simp add: early_stages_def)
  have sync: "tri (open_at stored ?n) anywhere (\<lambda>_. ?C) (sync_with_finalizer env r)" if r: "rs_stage r \<in> ?S" "rs_nm r = ?n" for r
  proof (cases "rs_stage r = RestoreStageResources")
    case True
    have "tri (open_at stored ?n) anywhere (\<lambda>_. ?C) (after_initial env r)"
      by (intro tri_after_initial [OF early_closed_only_after(1) assms(1,2) True _ r(2)])
         (simp_all add: sync_stages_def tri_free tr_rsync_resources [OF assms(1)])
    then show ?thesis using True by (simp add: sync_with_finalizer_def)
  next
    case False
    then have g: "rs_stage r \<in> early_stages" using r(1) by simp
    show ?thesis by (rule tri_weaken [OF tri_with_finalizer [OF assms(1-3) g r(2)]]) simp
  qed
  have "tri (\<lambda>w. stored w ?n \<in> ?S) anywhere (\<lambda>_. ?C) (syncRestore env restore)"
    by (rule tri_syncRestore [OF early_closed_only_after(1) assms(1) s sync assms(4) refl])
  from tri_run [OF this assms(5)] show ?thesis .
qed

section \<open>Witnesses\<close>

definition demo_stored :: "(string \<Rightarrow> Restore) stage_observer" where
  "demo_stored w n = rs_stage (w n)"

lemma demo_renv_laws:
  "server_laws (demo_renv u) demo_stored" "others_quiet (demo_renv u) demo_stored" "rindexer_laws (rn_ix (demo_renv u)) map_of"
  by (auto simp: server_laws_def others_quiet_def demo_renv_def demo_stored_def alist_rindexer_laws Let_def fun_eq_iff)
    (metis (no_types, lifting) Restore.select_convs(3) Restore.surjective Restore.update_convs(1))

abbreviation demo_log :: "rs_event list" where
  "demo_log \<equiv> rx_log (snd (run_state (syncRestore (demo_renv (demo_un Secret_kind ''ns'' ''s''))
     (demo_restore RestoreStageNone RestoreStateNone)) demo_rctrl))"


theorem finished_after_hooks_witness: "only_after finishing passed demo_log"
  using finished_after_hooks [OF demo_renv_laws, of "demo_restore RestoreStageNone RestoreStateNone" demo_rctrl]
  by (simp add: demo_stored_def demo_restore_def demo_rctrl_def early_stages_def)

section \<open>Divergences\<close>

text \<open>The restore reaches the finished stage in the completed state, for which \<^verbatim>\<open>rsync_finished\<close> returns before
  it sets the completion time: no update of the last stages records one.\<close>

definition completed_at :: "rs_event \<Rightarrow> int option" where
  "completed_at e = (case e of RvUpdateStatus r _ \<Rightarrow> rt_completionTimestamp (rs_status r) | _ \<Rightarrow> None)"

lemma completion_time_unset:
  assumes "server_laws env stored" "rt_completionTimestamp (rs_status restore) = None"
  shows "every rx_log (\<lambda>e. completed_at e = None) (rsync_posthook env restore)"
  unfolding rsync_posthook_def updateRestoreStage_def
proof (intro tr_if tr_return tr_bind [OF tr_update [OF assms(1)]] tr_prod, goal_cases)
  case (3 x l r err)
  then have "rs_state r = RestoreStateCompleted" by simp
  then show ?case using 3 assms(2) by (auto simp: rsync_finished_def completed_at_def intro!: tr_return)
qed (use assms(2) in \<open>auto simp: completed_at_def\<close>)

text \<open>When resources of an unfinished restore could not be deleted, the cleanup reports success, and the
  deletion goes on to take the finalizer away.\<close>

lemma failed_cleanup_forgotten:
  assumes "run_state (removeVolumeRestore env restore) s = (None, s1)" "\<not> fully_restored restore"
    "run_state (cleanup_all env restore (rt_resources (rs_status restore))) s1 = (False, s2)"
  shows "run_state (deleteRestore env restore) s = run_state (remove_protection env restore) s2"
  using assms by (simp add: deleteRestore_def cleanupRestoredMetadata_def)

text \<open>A restore hook that only has init containers makes the controller panic before anything is created.\<close>

lemma init_only_hook_panics:
  assumes "h \<in> set (rp_hooks (rs_spec restore))" "rk_postHooks h \<noteq> []" "\<forall>r \<in> set (rk_postHooks h). rr_exec r = None"
    "he_namespaces env w = Inr nss"
  shows "collectAllRestoreHooksPods env restore w = Panic"
proof -
  have "collect_hooks env w allNs hs = Panic" if "h \<in> set hs" for allNs hs
    using that
  proof (induction hs arbitrary: allNs)
    case (Cons g hs)
    have ex: "list_ex (\<lambda>r. rr_exec r = None) (rk_postHooks h)" using assms(2,3) by (cases "rk_postHooks h") auto
    show ?case
    proof (cases "g = h")
      case False
      then have "collect_hooks env w ns hs = Panic" for ns using Cons by simp
      then show ?thesis by (auto simp: obind_def split: outcome.splits prod.splits)
    qed (use ex assms(2) in simp)
  qed simp
  then show ?thesis using assms(1,4) by (simp add: collectAllRestoreHooksPods_def obind_def)
qed

end
