(* ===== verification/Volume_Service.thy ===== *)
theory Volume_Service
  imports Traces Store Operation
begin

text \<open>
  What the two controllers of the volume provider's side car share
  (\<^verbatim>\<open>providerframework/volumeservice/backup/backupvolume.go\<close> and
  \<^verbatim>\<open>restore/restorevolume.go\<close>): their state, the calls to the API server, patching an object
  and recording the version that comes back, and the progress table of a content.

  The API server, the lister, the clock and the driver are functions over an arbitrary world \<open>'w\<close>.
  Calls that change the cluster or reach the driver are appended to a log. \<open>'o\<close> is the content
  the controller works on, \<open>'q\<close> the requests of its driver. Marshalling and
  \<^verbatim>\<open>jsonpatch.CreateMergePatch\<close> are library code and one parameter, \<open>va_mergePatch\<close>. All operations
  of a controller run the same handler, so the table of its operation manager only holds the names.
\<close>

section \<open>State and calls\<close>

datatype ('o, 'q) vol_event =
    VePatch 'o 'o bool
  | VePatchStatus 'o 'o bool
  | VeUpdateStatus 'o bool
  | VeRecord string string
  | VeDriver 'q bool
  | VeRun string
  | VeEnqueue string

record ('o, 'q, 'w) vsvc =
  vo_processed :: "('o, dyn) threadSafeStore"
  vo_running :: "unit op_table"
  vo_world :: 'w
  vo_log :: "('o, 'q) vol_event list"
  vo_crashed :: bool

record ('o, 'w) vol_api =
  va_objKey :: "'o \<Rightarrow> goerr + string"
  va_splitKey :: "string \<Rightarrow> goerr + string"
  va_Get :: "string \<Rightarrow> 'w \<Rightarrow> goerr + 'o"
  va_List :: "'w \<Rightarrow> goerr + 'o list"
  va_mergePatch :: "'o \<Rightarrow> 'o \<Rightarrow> goerr + string"
  va_Patch :: "string \<Rightarrow> string \<Rightarrow> string list \<Rightarrow> 'w \<Rightarrow> ('o \<times> goerr option) \<times> 'w"
  va_UpdateStatus :: "'o \<Rightarrow> 'w \<Rightarrow> ('o \<times> goerr option) \<times> 'w"
  va_Now :: "'w \<Rightarrow> int"

text \<open>The type of the content: its name and its metadata.\<close>

record 'o vkind =
  vk_class :: string
  vk_meta :: "'o \<Rightarrow> object_meta"

abbreviation vk_name :: "'o vkind \<Rightarrow> 'o \<Rightarrow> string" where
  "vk_name k x \<equiv> meta_name (vk_meta k x)"

definition vcall :: "('w \<Rightarrow> 'r \<times> 'w) \<Rightarrow> ('r \<Rightarrow> ('o, 'q) vol_event list) \<Rightarrow> (('o, 'q, 'w) vsvc, 'r) state" where
  "vcall f ev = liftst (\<lambda>s. case f (vo_world s) of (r, w) \<Rightarrow> (r, s\<lparr>vo_world := w, vo_log := vo_log s @ ev r\<rparr>))"

definition vask :: "('w \<Rightarrow> 'r) \<Rightarrow> (('o, 'q, 'w) vsvc, 'r) state" where
  "vask f = liftst (\<lambda>s. (f (vo_world s), s))"

definition vemit :: "('o, 'q) vol_event \<Rightarrow> (('o, 'q, 'w) vsvc, unit) state" where
  "vemit e = liftst (\<lambda>s. ((), s\<lparr>vo_log := vo_log s @ [e]\<rparr>))"

definition vcache_update :: "'o vkind \<Rightarrow> ('o, 'w) vol_api \<Rightarrow> 'o \<Rightarrow> (('o, 'q, 'w) vsvc, bool \<times> goerr option) state" where
  "vcache_update k api x = liftst (\<lambda>s.
     case StoreRevisionUpdate (va_objKey api) (\<lambda>y. Inr (vk_meta k y)) (vk_class k) (vo_processed s) x of
       (r, store) \<Rightarrow> (r, s\<lparr>vo_processed := store\<rparr>))"

definition vcache_clean :: "'o vkind \<Rightarrow> ('o, 'w) vol_api \<Rightarrow> 'o \<Rightarrow> (('o, 'q, 'w) vsvc, goerr option) state" where
  "vcache_clean k api x = liftst (\<lambda>s. case StoreClean (va_objKey api) (vk_class k) (vo_processed s) x of
     (r, store) \<Rightarrow> (r, s\<lparr>vo_processed := store\<rparr>))"

text \<open>The table of the operation manager: \<^verbatim>\<open>Run\<close> answers with an error when the name is taken, which the
  controllers treat like success.\<close>

definition vrun_operation :: "string \<Rightarrow> (('o, 'q, 'w) vsvc, goerr option) state" where
  "vrun_operation nm = liftst (\<lambda>s. if ops_get nm (vo_running s) \<noteq> None then (Some (alreadyExistsError nm), s)
     else (None, s\<lparr>vo_running := ops_add nm () (vo_running s), vo_log := vo_log s @ [VeRun nm]\<rparr>))"

text \<open>\<^verbatim>\<open>utils.go:CheckServerUnavailable\<close>.\<close>

definition CheckServerUnavailable :: "goerr \<Rightarrow> bool" where
  "CheckServerUnavailable err \<longleftrightarrow> err_reason err = Unavailable"

section \<open>Logs\<close>

lemma led_by_first: "(D e \<Longrightarrow> P g e) \<Longrightarrow> \<not> D g \<Longrightarrow> \<forall>x \<in> set l. \<not> D x \<Longrightarrow> led_by D P (g # e # l)"
  using led_by_append [of D P "[g, e]" l]
  by (auto simp: led_by_none led_by_def [of D P "[g, e]"] Cons_eq_append_conv)

lemma tr_any: "tr lg (\<lambda>_ _. True) (m :: ('s, 'a) state) \<Longrightarrow> (\<And>r l. T r l) \<Longrightarrow> tr lg T m"
  by (erule tr_weaken) simp

section \<open>Patching\<close>

text \<open>Marshal both versions, compute the merge patch, send it, remember the version that comes back. \<open>sub\<close>
  lists the sub resources the patch addresses, \<open>what\<close> and \<open>cache\<close> are words of the messages.\<close>

definition vpatch ::
  "'o vkind \<Rightarrow> ('o, 'w) vol_api \<Rightarrow> string \<Rightarrow> string \<Rightarrow> string list \<Rightarrow> 'o \<Rightarrow> 'o \<Rightarrow>
   (('o, 'q, 'w) vsvc, 'o option \<times> goerr option) state" where
  "vpatch k api what cache sub old new = (case va_mergePatch api old new of
     Inl err \<Rightarrow> State_Monad.return (None, Some (wrap err (''error creating json merge patch for '' @ what)))
   | Inr patchBytes \<Rightarrow> do {
       (updated, err) \<leftarrow> vcall (va_Patch api (vk_name k old) patchBytes sub)
          (\<lambda>(_, e). [if sub = [] then VePatch old new (e = None) else VePatchStatus old new (e = None)]);
       (case err of
          Some e \<Rightarrow> State_Monad.return (None, Some (wrap e (''error patching '' @ what)))
        | None \<Rightarrow> do {
            (_, cerr) \<leftarrow> vcache_update k api updated;
            State_Monad.return (Some updated,
              map_option (\<lambda>e. wrap e (''Failed to updated processed '' @ cache @ '' cache'')) cerr) }) })"

section \<open>Rules\<close>

lemma tr_vcall: "(\<And>r. R r (ev r)) \<Longrightarrow> tr vo_log R (vcall f ev)"
  by (auto simp: tr_def vcall_def split: prod.splits)

lemma tr_vask [tr_rules]: "(\<And>r. R r []) \<Longrightarrow> tr vo_log R (vask f)"
  by (auto simp: tr_def vask_def)

lemma tr_vemit: "R () [e] \<Longrightarrow> tr vo_log R (vemit e)"
  by (auto simp: tr_def vemit_def)

lemma tr_vcache_update [tr_rules]: "(\<And>r. R r []) \<Longrightarrow> tr vo_log R (vcache_update k api x)"
  by (auto simp: tr_def vcache_update_def split: prod.splits)

lemma tr_vcache_clean [tr_rules]: "(\<And>r. R r []) \<Longrightarrow> tr vo_log R (vcache_clean k api x)"
  by (auto simp: tr_def vcache_clean_def split: prod.splits)

text \<open>A look at the world in front of a handler.\<close>

lemma tr_asked: "(\<And>a. tr vo_log T (f a)) \<Longrightarrow> tr vo_log T (State_Monad.bind (vask g) f)"
  by (rule tr_skip [OF tr_vask, where P = "\<lambda>_. True"]) auto

lemma tr_cached: "(\<And>a. tr vo_log T (f a)) \<Longrightarrow> tr vo_log T (State_Monad.bind (vcache_update k api x) f)"
  by (rule tr_skip [OF tr_vcache_update, where P = "\<lambda>_. True"]) auto

lemma tr_vrun:
  "R (Some (alreadyExistsError nm)) [] \<Longrightarrow> R None [VeRun nm] \<Longrightarrow> tr vo_log R (vrun_operation nm)"
  by (auto simp: tr_def vrun_operation_def)

text \<open>A patch is at most one event, and an object only comes back from a patch that succeeded.\<close>

definition patched :: "string list \<Rightarrow> 'o \<Rightarrow> 'o \<Rightarrow> bool \<Rightarrow> ('o, 'q) vol_event" where
  "patched sub old new ok = (if sub = [] then VePatch old new ok else VePatchStatus old new ok)"

lemma tr_vpatch:
  assumes "\<And>e. R (None, Some e) []" "\<And>e. R (None, Some e) [patched sub old new False]"
    and "\<And>x e. R (Some x, e) [patched sub old new True]"
  shows "tr vo_log R (vpatch k api what cache sub old new)"
  unfolding vpatch_def
proof (rule tr_sum, goal_cases)
  case (2 b)
  show ?case
  proof (rule tr_bind [OF tr_vcall, where R = "\<lambda>r l. l = [patched sub old new (snd r = None)]"], goal_cases)
    case (2 a l)
    obtain x e where "a = (x, e)" by fastforce
    have skip: "tr vo_log (\<lambda>r l. l = [] \<and> True) (vcache_update k api x)" by (rule tr_rules) simp
    show ?case using 2 \<open>a = (x, e)\<close> assms(2,3) by (auto intro!: tr_option tr_return tr_skip [OF skip] tr_prod)
  qed (simp add: patched_def split: prod.splits)
qed (simp add: tr_return assms(1))

lemma every_vpatch: "(\<And>ok. Q (patched sub old new ok)) \<Longrightarrow> every vo_log Q (vpatch k api what cache sub old new)"
  by (rule tr_vpatch) auto

text \<open>The same rules for what comes from the server.\<close>

lemma tr_vcall_from: "(\<And>w r w'. f w = (r, w') \<Longrightarrow> R r (ev r)) \<Longrightarrow> tr vo_log R (vcall f ev)"
  by (auto simp: tr_def vcall_def split: prod.splits)

lemma tr_asked_from: "(\<And>w. tr vo_log T (f (g w))) \<Longrightarrow> tr vo_log T (State_Monad.bind (vask g) f)"
  by (auto simp: tr_def vask_def)

lemma every_vpatch_from:
  assumes "\<And>ok. Q (patched sub old new ok)"
    and "\<And>bytes w x e w'. va_Patch api (vk_name k old) bytes sub w = ((x, e), w') \<Longrightarrow> P x"
  shows "tr vo_log (\<lambda>r l. (\<forall>e \<in> set l. Q e) \<and> pred_option P (fst r)) (vpatch k api what cache sub old new)"
  unfolding vpatch_def
proof (rule tr_sum, goal_cases)
  case (2 b)
  show ?case
  proof (rule tr_bind [OF tr_vcall_from, where R = "\<lambda>r l. l = [patched sub old new (snd r = None)] \<and> P (fst r)"], goal_cases)
    case (1 w r w')
    then show ?case using assms(2) by (cases r) (auto simp: patched_def)
  next
    case (2 a l)
    obtain x e where a: "a = (x, e)" by fastforce
    show ?case using 2 a assms(1) by (auto intro!: tr_option tr_return tr_cached tr_prod)
  qed
qed (simp add: tr_return)

text \<open>The answer to a patch next to what it logs.\<close>

definition answer :: "string list \<Rightarrow> 'o \<Rightarrow> 'o \<Rightarrow> 'o option \<times> goerr option \<Rightarrow> ('o, 'q) vol_event list \<Rightarrow> bool" where
  "answer sub old new r l \<longleftrightarrow> (fst r = None \<and> snd r \<noteq> None \<and> (l = [] \<or> l = [patched sub old new False])) \<or>
     (fst r \<noteq> None \<and> l = [patched sub old new True])"

lemma answer_patch: "tr vo_log (answer sub old new) (vpatch k api what cache sub old new)"
  by (rule tr_vpatch) (auto simp: answer_def)

lemma run_vask [simp]: "run_state (vask f) s = (f (vo_world s), s)"
  by (simp add: vask_def)

lemma run_vcall [simp]: "run_state (vcall f ev) s = (case f (vo_world s) of (r, w) \<Rightarrow>
     (r, s\<lparr>vo_world := w, vo_log := vo_log s @ ev r\<rparr>))"
  by (simp add: vcall_def)

lemma run_vemit [simp]: "run_state (vemit e) s = ((), s\<lparr>vo_log := vo_log s @ [e]\<rparr>)"
  by (simp add: vemit_def)

text \<open>A patch the server takes.\<close>

lemma vcache_keeps: "run_state (vcache_update k api x) s = (r, t) \<Longrightarrow> vo_world t = vo_world s \<and> vo_crashed t = vo_crashed s"
  by (auto simp: vcache_update_def split: prod.splits)

lemma accepted_patch:
  assumes "va_mergePatch api old new = Inr bytes" "va_Patch api (vk_name k old) bytes sub (vo_world s) = ((x, None), w)"
  obtains c t where "run_state (vpatch k api what cache sub old new) s = ((Some x, c), t)"
    "vo_world t = w" "vo_crashed t = vo_crashed s"
proof -
  let ?s1 = "s\<lparr>vo_world := w, vo_log := vo_log s @ [if sub = [] then VePatch old new True else VePatchStatus old new True]\<rparr>"
  obtain b e t where t: "run_state (vcache_update k api x) ?s1 = ((b, e), t)" by (metis prod.collapse)
  then have "run_state (vpatch k api what cache sub old new) s =
      ((Some x, map_option (\<lambda>e. wrap e (''Failed to updated processed '' @ cache @ '' cache'')) e), t)"
    using assms by (cases "sub = []") (simp_all add: vpatch_def)
  then show thesis using vcache_keeps [OF t] that by simp
qed

section \<open>The progress table\<close>

text \<open>
  Both services keep one record per volume with a handle, a progress and the time of the last
  progress, and update it from the statistics of the driver in the same way. The contract: a step
  raises the progress of the records with the reported handle, and nothing else.
\<close>

locale progress_table =
  fixes handle :: "'s \<Rightarrow> string" and progress :: "'s \<Rightarrow> int" and seen :: "'s \<Rightarrow> int"
    and advance :: "int \<Rightarrow> string \<times> int \<Rightarrow> 's \<Rightarrow> 's"
  assumes advance_handle: "handle (advance now t s) = handle s"
    and advance_progress: "progress (advance now t s) = (if handle s = fst t then max (progress s) (snd t) else progress s)"
    and advance_seen: "seen (advance now t s) = (if handle s = fst t \<and> progress s < snd t then now else seen s)"
begin

lemma advances_handle: "handle (fold (advance now) ts s) = handle s"
  by (induction ts arbitrary: s) (auto simp: advance_handle)

lemma advances_progress:
  "progress (fold (advance now) ts s) = fold max (map snd (filter (\<lambda>t. fst t = handle s) ts)) (progress s)"
  by (induction ts arbitrary: s) (auto simp: advance_handle advance_progress max.commute)

lemma fold_max_ge: "a \<le> fold max xs (a :: int)"
  by (induction xs arbitrary: a) (auto intro: order_trans [OF max.cobounded2])

lemma fold_max_eq: "fold max xs (a :: int) = Max (insert a (set xs))"
proof (induction xs arbitrary: a)
  case (Cons x xs)
  have "Max (insert (max x a) (set xs)) = max x (Max (insert a (set xs)))"
    by (cases "set xs = {}") (simp_all add: max.assoc)
  also have "\<dots> = Max (insert a (set (x # xs)))" by (simp add: insert_commute [of a x])
  finally show ?case using Cons.IH [of "max x a"] by simp
qed simp

lemma progress_grows: "progress s \<le> progress (fold (advance now) ts s)"
  by (simp add: advances_progress fold_max_ge)

lemma progress_is_max:
  "progress (fold (advance now) ts s) = Max (set (progress s # map snd (filter (\<lambda>t. fst t = handle s) ts)))"
  by (simp only: advances_progress fold_max_eq list.set)

lemma seen_kept_or_now:
  "seen (fold (advance now) ts s) = (if progress s < progress (fold (advance now) ts s) then now else seen s)"
proof (induction ts arbitrary: s)
  case (Cons t ts)
  have "progress (advance now t s) \<le> progress (fold (advance now) ts (advance now t s))" by (rule progress_grows)
  then show ?case using Cons.IH [of "advance now t s"]
    by (auto simp: advance_progress advance_seen split: if_splits)
qed simp

end

text \<open>The loop over the statistics around the loop over the records treats every record by itself.\<close>

lemma fold_map_swap: "fold (\<lambda>t. map (f t)) ts xs = map (\<lambda>x. fold f ts x) xs"
  by (induction ts arbitrary: xs) (auto simp: comp_def)

section \<open>What a poll should do\<close>

text \<open>
  The contract of a progress check, for backups and restores alike. An entry is a handle, its progress and
  the second of its last progress. A poll raises the progress of every entry to the highest one reported
  for its handle; the content is then finished when all entries are at 100, broken when none has made
  progress for 30 minutes, and running otherwise.
\<close>

type_synonym entry = "string \<times> int \<times> int"

datatype content_phase = Starting | Running | Finished | Broken | Removing | Undefined

definition report :: "int \<Rightarrow> (string \<times> int) list \<Rightarrow> entry \<Rightarrow> entry" where
  "report sec stats e = (case e of (h, p, t) \<Rightarrow>
     let p' = Max (set (p # map snd (filter (\<lambda>x. fst x = h) stats))) in (h, p', if p < p' then sec else t))"

definition finished :: "entry list \<Rightarrow> bool" where "finished es \<longleftrightarrow> (\<forall>(h, p, t) \<in> set es. 100 \<le> p)"

definition stalled :: "int \<Rightarrow> entry list \<Rightarrow> bool" where
  "stalled now es \<longleftrightarrow> (\<forall>(h, p, t) \<in> set es. 30 * 60 * 10 ^ 9 \<le> now - t * 10 ^ 9)"

definition poll_spec :: "int \<Rightarrow> (string \<times> int) list \<Rightarrow> entry list \<Rightarrow> content_phase \<times> entry list" where
  "poll_spec now stats es = (let es' = map (report (now div 10 ^ 9) stats) es in
     (if finished es' then Finished else if stalled now es' then Broken else Running, es'))"

lemma fold_keep: "fold (\<lambda>x t. if P x then False else t) xs b \<longleftrightarrow> b \<and> list_all (\<lambda>x. \<not> P x) xs"
  by (induction xs arbitrary: b) auto

context progress_table begin

lemma steps_report:
  "(handle (fold (advance now) ts s), progress (fold (advance now) ts s), seen (fold (advance now) ts s)) =
     report now ts (handle s, progress s, seen s)"
  using progress_is_max [of now ts s] seen_kept_or_now [of now ts s] by (simp add: report_def advances_handle Let_def)

end

end
