(* ===== verification/Volume_Restore_Service.thy ===== *)
theory Volume_Restore_Service
  imports Volume_Service Restore_Types
begin

text \<open>
  The controller that drives the restore of volumes in the provider's side car,
  \<^verbatim>\<open>providerframework/volumeservice/restore/restorevolume.go\<close>: it starts the restore of a
  \<^verbatim>\<open>VolumeRestoreContent\<close> on the driver, polls the driver until the restore ends, and
  cancels it when the content is deleted.

  The driver is a gRPC client; its three calls are parameters. The clock counts nanoseconds. A claim
  is sent to the driver with its type; its status is not represented.
\<close>

section \<open>Requests and environment\<close>

record typed_pvc =
  tp_apiVersion :: string
  tp_kind :: string
  tp_pvc :: pvc

record restore_identity =
  ri_handle :: string
  ri_attributes :: "string \<rightharpoonup> string"

record restore_identifier =
  rf_pvc :: typed_pvc
  rf_backupHandle :: string
  rf_backupAttributes :: "string \<rightharpoonup> string"

datatype restore_call =
    CreateVolumeFromBackup string "restore_identifier list" "string \<rightharpoonup> string"
  | CancelRestore "restore_identity list" "string \<rightharpoonup> string"
  | GetRestoreStat "restore_identity list" "string \<rightharpoonup> string"

record volume_identifier =
  vi_pvcName :: string
  vi_handle :: string
  vi_attributes :: "string \<rightharpoonup> string"

record create_response =
  cp_errors :: "string list"
  cp_identifiers :: "volume_identifier list"

record 'w vr_env =
  vn_api :: "(VolumeRestoreContent, 'w) vol_api"
  vn_create :: "restore_call \<Rightarrow> 'w \<Rightarrow> (goerr + create_response) \<times> 'w"
  vn_cancel :: "restore_call \<Rightarrow> 'w \<Rightarrow> goerr option \<times> 'w"
  vn_stat :: "restore_call \<Rightarrow> 'w \<Rightarrow> (goerr + (string \<times> int) list) \<times> 'w"

type_synonym 'w vr_svc = "(VolumeRestoreContent, restore_call, 'w) vsvc"

definition volumeRestoreContentFinalizer :: string where
  "volumeRestoreContentFinalizer = ''kahu.io/volume-restore-content-protection''"

definition defaultRestoreProgressTimeout :: int where
  "defaultRestoreProgressTimeout = 30 * 60 * 10 ^ 9"

definition EventVolumeRestoreFailed :: string where "EventVolumeRestoreFailed = ''VolumeRestoreFailed''"
definition EventVolumeRestoreStarted :: string where "EventVolumeRestoreStarted = ''VolumeRestoreStarted''"
definition EventVolumeRestoreCompleted :: string where "EventVolumeRestoreCompleted = ''VolumeRestoreCompleted''"
definition EventVolumeRestoreCancelFailed :: string where
  "EventVolumeRestoreCancelFailed = ''VolumeRestoreCancelFailed''"

text \<open>\<^verbatim>\<open>metav1.Now().Unix()\<close>, and \<^verbatim>\<open>time.Since(time.Unix(t, 0))\<close>.\<close>

definition unix :: "int \<Rightarrow> int" where "unix now = now div 10 ^ 9"

definition since :: "int \<Rightarrow> int \<Rightarrow> int" where "since now t = now - t * 10 ^ 9"

definition vrc_kind :: "VolumeRestoreContent vkind" where
  "vrc_kind = \<lparr>vk_class = ''VolumeRestoreContent'', vk_meta = vr_meta\<rparr>"

section \<open>Updates\<close>

definition vrs_patchRestore ::
  "'w vr_env \<Rightarrow> VolumeRestoreContent \<Rightarrow> VolumeRestoreContent \<Rightarrow> ('w vr_svc, VolumeRestoreContent option \<times> goerr option) state" where
  "vrs_patchRestore env = vpatch vrc_kind (vn_api env) ''restore'' ''VBC'' []"

definition patchRestoreStatus ::
  "'w vr_env \<Rightarrow> VolumeRestoreContent \<Rightarrow> VolumeRestoreContent \<Rightarrow> ('w vr_svc, VolumeRestoreContent option \<times> goerr option) state" where
  "patchRestoreStatus env = vpatch vrc_kind (vn_api env) ''restore'' ''VBC'' [''status'']"

definition vrs_updateStatus ::
  "'w vr_env \<Rightarrow> VolumeRestoreContent \<Rightarrow> VolumeRestoreContent \<Rightarrow> ('w vr_svc, VolumeRestoreContent option \<times> goerr option) state" where
  "vrs_updateStatus env restore newRestore = patchRestoreStatus env restore newRestore"

definition vrs_updateStatusWithEvent ::
  "'w vr_env \<Rightarrow> VolumeRestoreContent \<Rightarrow> VolumeRestoreContent \<Rightarrow> string \<Rightarrow> string \<Rightarrow>
   ('w vr_svc, VolumeRestoreContent option \<times> goerr option) state" where
  "vrs_updateStatusWithEvent env restore newRestore reason message = do {
     (r, err) \<leftarrow> vrs_updateStatus env restore newRestore;
     if err \<noteq> None then State_Monad.return (r, err)
     else do { vemit (VeRecord reason message); State_Monad.return (r, None) } }"

definition vrs_updateStatusWithFailure ::
  "'w vr_env \<Rightarrow> VolumeRestoreContent \<Rightarrow> string \<Rightarrow> ('w vr_svc, VolumeRestoreContent option \<times> goerr option) state" where
  "vrs_updateStatusWithFailure env restore msg = do {
     (r, err) \<leftarrow> patchRestoreStatus env restore (restore\<lparr>vr_phase := VRCPhaseFailed, vr_failureReason := msg\<rparr>);
     if err \<noteq> None then State_Monad.return (r, err)
     else do { vemit (VeRecord EventVolumeRestoreFailed msg); State_Monad.return (r, None) } }"

definition vrs_updatePhase ::
  "'w vr_env \<Rightarrow> VolumeRestoreContent \<Rightarrow> VolumeRestoreContentPhase \<Rightarrow> ('w vr_svc, VolumeRestoreContent option \<times> goerr option) state" where
  "vrs_updatePhase env restore phase = patchRestoreStatus env restore (restore\<lparr>vr_phase := phase\<rparr>)"

definition vrs_updatePhaseWithEvent ::
  "'w vr_env \<Rightarrow> VolumeRestoreContent \<Rightarrow> VolumeRestoreContentPhase \<Rightarrow> string \<Rightarrow> string \<Rightarrow>
   ('w vr_svc, VolumeRestoreContent option \<times> goerr option) state" where
  "vrs_updatePhaseWithEvent env restore phase reason message = do {
     (r, err) \<leftarrow> vrs_updatePhase env restore phase;
     if err \<noteq> None then State_Monad.return (r, err)
     else do { vemit (VeRecord reason message); State_Monad.return (r, None) } }"

definition ctrl_patchVolRestoreContent ::
  "'w vr_env \<Rightarrow> VolumeRestoreContent \<Rightarrow> VolumeRestoreContent \<Rightarrow> ('w vr_svc, VolumeRestoreContent option \<times> goerr option) state" where
  "ctrl_patchVolRestoreContent env = vpatch vrc_kind (vn_api env) ''restore'' ''VRC'' []"

text \<open>The states of a status are nil or a list.\<close>

record VolumeRestoreContentStatus =
  vst_phase :: VolumeRestoreContentPhase
  vst_startTimestamp :: "int option"
  vst_failureReason :: string
  vst_states :: "VolumeRestoreState list option"

definition vrs_mergeStatusResources :: "VolumeRestoreState list \<Rightarrow> VolumeRestoreState list \<Rightarrow> VolumeRestoreState list" where
  "vrs_mergeStatusResources old states =
     old @ filter (\<lambda>st. \<not> list_ex (\<lambda>o'. vt_volumeName st = vt_volumeName o') old) states"

definition mergeVRCStatus :: "VolumeRestoreContent \<Rightarrow> VolumeRestoreContentStatus \<Rightarrow> VolumeRestoreContent" where
  "mergeVRCStatus restore status = restore\<lparr>
     vr_phase := (if vst_phase status \<noteq> VRCPhaseNone \<and> vst_phase status \<noteq> vr_phase restore then vst_phase status else vr_phase restore),
     vr_failureReason := (if vst_failureReason status \<noteq> [] then vst_failureReason status else vr_failureReason restore),
     vr_startTimestamp := (if vr_startTimestamp restore = None \<and> vst_startTimestamp status \<noteq> None
        then vst_startTimestamp status else vr_startTimestamp restore),
     vr_states := (case vst_states status of None \<Rightarrow> vr_states restore | Some sts \<Rightarrow> vrs_mergeStatusResources (vr_states restore) sts)\<rparr>"

definition ctrl_updateStatus ::
  "'w vr_env \<Rightarrow> VolumeRestoreContent \<Rightarrow> VolumeRestoreContentStatus \<Rightarrow> ('w vr_svc, VolumeRestoreContent \<times> goerr option) state" where
  "ctrl_updateStatus env restore status = (let merged = mergeVRCStatus restore status in do {
     (updated, err) \<leftarrow> vcall (va_UpdateStatus (vn_api env) merged) (\<lambda>(_, e). [VeUpdateStatus merged (e = None)]);
     (case err of
        Some e \<Rightarrow> State_Monad.return (updated, Some (wrap e ''error patching restore''))
      | None \<Rightarrow> do {
          (_, cerr) \<leftarrow> vcache_update vrc_kind (vn_api env) updated;
          State_Monad.return (updated,
            map_option (\<lambda>e. wrap e ''Failed to updated processed VRC cache'') cerr) }) })"

section \<open>Start and removal\<close>

definition isInitNeeded :: "VolumeRestoreContent \<Rightarrow> bool" where
  "isInitNeeded restore \<longleftrightarrow> vr_phase restore = VRCPhaseNone \<or> vr_phase restore = VRCPhaseInit"

definition restoreInitialize ::
  "'w vr_env \<Rightarrow> VolumeRestoreContent \<Rightarrow> ('w vr_svc, VolumeRestoreContent option \<times> goerr option) state" where
  "restoreInitialize env restore = do {
     (patched, err) \<leftarrow> ctrl_patchVolRestoreContent env restore
        (restore\<lparr>vr_meta := the (SetFinalizer (Some (vr_meta restore)) volumeRestoreContentFinalizer)\<rparr>);
     (case (patched, err) of
        (Some clone, None) \<Rightarrow> do {
          now \<leftarrow> vask (va_Now (vn_api env));
          (r, e) \<leftarrow> ctrl_updateStatus env clone \<lparr>
             vst_phase = (if vr_phase clone = VRCPhaseNone then VRCPhaseInit else VRCPhaseNone),
             vst_startTimestamp = (if vr_startTimestamp restore = None then Some now else None),
             vst_failureReason = [], vst_states = None\<rparr>;
          State_Monad.return (Some r, e) }
      | _ \<Rightarrow> State_Monad.return (patched, err)) }"

definition resetPVC :: "pvc \<Rightarrow> typed_pvc" where
  "resetPVC p = \<lparr>tp_apiVersion = ''v1'', tp_kind = PVC_kind,
     tp_pvc = p\<lparr>pvc_meta := (pvc_meta p)\<lparr>meta_annotations := Map.empty, meta_finalizers := []\<rparr>\<rparr>\<rparr>"

definition create_request :: "VolumeRestoreContent \<Rightarrow> restore_call" where
  "create_request volRestore = CreateVolumeFromBackup (vr_name volRestore)
     (map (\<lambda>v. \<lparr>rf_pvc = resetPVC (rv_claim v), rf_backupHandle = rv_backupHandle v,
        rf_backupAttributes = rv_attributes v\<rparr>) (vr_volumes volRestore)) (vr_parameters volRestore)"

definition handleVolumeRestore ::
  "'w vr_env \<Rightarrow> VolumeRestoreContent \<Rightarrow> ('w vr_svc, VolumeRestoreContent \<times> goerr option) state" where
  "handleVolumeRestore env volRestore = do {
     response \<leftarrow> vcall (vn_create env (create_request volRestore))
        (\<lambda>r. [VeDriver (create_request volRestore) (\<not> isl r)]);
     (case response of
        Inl err \<Rightarrow> State_Monad.return (volRestore, Some err)
      | Inr resp \<Rightarrow>
          if 0 < length (cp_errors resp) then State_Monad.return (volRestore,
             Some (errorf (''unable to create volume. '' @ strings_Join '', '' (cp_errors resp))))
          else do {
            now \<leftarrow> vask (va_Now (vn_api env));
            State_Monad.return (volRestore\<lparr>vr_phase := VRCPhaseInProgress,
               vr_states := map (\<lambda>i. \<lparr>vt_volumeName = vi_pvcName i, vt_volumeHandle = vi_handle i,
                  vt_attributes = vi_attributes i, vt_progress = 0, vt_lastProgressUpdate = unix now\<rparr>)
                 (cp_identifiers resp)\<rparr>, None) }) }"

text \<open>The progress check is started through the operation manager, whose refusal of a name that is already
  running is a success.\<close>

definition start_progress :: "VolumeRestoreContent \<Rightarrow> ('w vr_svc, goerr option) state" where
  "start_progress restore = do { _ \<leftarrow> vrun_operation (vr_name restore); State_Monad.return None }"

text \<open>After a failed start the error is overwritten by that of the status update.\<close>

definition processVolumeRestore :: "'w vr_env \<Rightarrow> VolumeRestoreContent \<Rightarrow> ('w vr_svc, goerr option) state" where
  "processVolumeRestore env restore = (case vr_phase restore of
     VRCPhaseInProgress \<Rightarrow> start_progress restore
   | _ \<Rightarrow> if vr_phase restore \<noteq> VRCPhaseNone \<and> vr_phase restore \<noteq> VRCPhaseInit then State_Monad.return None
       else do {
         (newRestore, err) \<leftarrow> handleVolumeRestore env restore;
         (case err of
            Some e \<Rightarrow> if CheckServerUnavailable e then State_Monad.return (Some e)
              else do {
                (_, err2) \<leftarrow> vrs_updateStatusWithFailure env newRestore (err_msg e);
                State_Monad.return err2 }
          | None \<Rightarrow> do {
              (r, err2) \<leftarrow> vrs_updateStatusWithEvent env restore newRestore EventVolumeRestoreStarted ''Started volume restore'';
              (case (r, err2) of
                 (Some started, None) \<Rightarrow> start_progress started
               | _ \<Rightarrow> State_Monad.return err2) }) })"

definition hasCleanupAnnotation :: "VolumeRestoreContent \<Rightarrow> bool" where
  "hasCleanupAnnotation restore \<longleftrightarrow> meta_annotations (vr_meta restore) annVolumeResourceCleanup \<noteq> None"

definition restore_handles :: "VolumeRestoreContent \<Rightarrow> restore_identity list" where
  "restore_handles restore = map (\<lambda>st. \<lparr>ri_handle = vt_volumeHandle st, ri_attributes = vt_attributes st\<rparr>) (vr_states restore)"

definition cancel_request :: "VolumeRestoreContent \<Rightarrow> restore_call" where
  "cancel_request restore = CancelRestore (restore_handles restore) (vr_parameters restore)"

definition without_restore_finalizer :: "VolumeRestoreContent \<Rightarrow> VolumeRestoreContent" where
  "without_restore_finalizer restore = restore\<lparr>vr_meta := the (RemoveFinalizer (Some (vr_meta restore)) volumeRestoreContentFinalizer)\<rparr>"

definition finish_delete :: "'w vr_env \<Rightarrow> VolumeRestoreContent \<Rightarrow> ('w vr_svc, goerr option) state" where
  "finish_delete env restore = do {
     (_, err) \<leftarrow> ctrl_patchVolRestoreContent env restore (without_restore_finalizer restore);
     if err \<noteq> None then State_Monad.return err
     else do { _ \<leftarrow> vcache_clean vrc_kind (vn_api env) restore; State_Monad.return None } }"

definition processDeleteVolumeRestore :: "'w vr_env \<Rightarrow> VolumeRestoreContent \<Rightarrow> ('w vr_svc, goerr option) state" where
  "processDeleteVolumeRestore env restore =
     (if vr_phase restore = VRCPhaseInProgress \<or> hasCleanupAnnotation restore then do {
        err \<leftarrow> vcall (vn_cancel env (cancel_request restore)) (\<lambda>e. [VeDriver (cancel_request restore) (e = None)]);
        (case err of
           Some e \<Rightarrow> if CheckServerUnavailable e then State_Monad.return (Some e)
             else do {
               vemit (VeRecord EventVolumeRestoreCancelFailed (''Unable to Cancel restore. '' @ err_msg e));
               State_Monad.return (Some e) }
         | None \<Rightarrow> finish_delete env restore) }
      else finish_delete env restore)"

section \<open>The queue handler\<close>

definition vrs_processQueue :: "'w vr_env \<Rightarrow> string \<Rightarrow> ('w vr_svc, goerr option) state" where
  "vrs_processQueue env index = (case va_splitKey (vn_api env) index of
     Inl err \<Rightarrow> State_Monad.return (Some err)
   | Inr name \<Rightarrow> do {
       got \<leftarrow> vask (va_Get (vn_api env) name);
       (case got of
          Inl err \<Rightarrow> State_Monad.return (Some err)
        | Inr volumeRestore \<Rightarrow> do {
            (newObj, _) \<leftarrow> vcache_update vrc_kind (vn_api env) volumeRestore;
            if \<not> newObj then State_Monad.return None
            else if meta_deletionTimestamp (vr_meta volumeRestore) \<noteq> None
            then processDeleteVolumeRestore env volumeRestore
            else if isInitNeeded volumeRestore then do {
              (r, err) \<leftarrow> restoreInitialize env volumeRestore;
              (case (r, err) of
                 (Some initialized, None) \<Rightarrow> processVolumeRestore env initialized
               | _ \<Rightarrow> State_Monad.return err) }
            else processVolumeRestore env volumeRestore }) })"

fun vrs_enqueue_all :: "VolumeRestoreContent list \<Rightarrow> ('w vr_svc, unit) state" where
  "vrs_enqueue_all [] = State_Monad.return ()"
| "vrs_enqueue_all (r # rs) =
     (if vr_phase r = VRCPhaseFailed \<or> vr_phase r = VRCPhaseCompleted then vrs_enqueue_all rs
      else do { vemit (VeEnqueue (vr_name r)); vrs_enqueue_all rs })"

definition vrs_reSync :: "'w vr_env \<Rightarrow> ('w vr_svc, unit) state" where
  "vrs_reSync env = do {
     got \<leftarrow> vask (va_List (vn_api env));
     (case got of Inl _ \<Rightarrow> State_Monad.return () | Inr rs \<Rightarrow> vrs_enqueue_all rs) }"

section \<open>Progress\<close>

definition getVolumeRestore :: "'w vr_env \<Rightarrow> string \<Rightarrow> 'w \<Rightarrow> goerr + VolumeRestoreContent" where
  "getVolumeRestore env index w = (case va_splitKey (vn_api env) index of
     Inl err \<Rightarrow> Inl err | Inr name \<Rightarrow> va_Get (vn_api env) name w)"

definition skipRestoreProgressProcessing :: "VolumeRestoreContent \<Rightarrow> bool" where
  "skipRestoreProgressProcessing r \<longleftrightarrow>
     (if meta_deletionTimestamp (vr_meta r) \<noteq> None then True else vr_phase r \<noteq> VRCPhaseInProgress)"

definition advance_restore :: "int \<Rightarrow> string \<times> int \<Rightarrow> VolumeRestoreState \<Rightarrow> VolumeRestoreState" where
  "advance_restore now stat st = (if vt_volumeHandle st = fst stat \<and> snd stat > vt_progress st
     then st\<lparr>vt_lastProgressUpdate := now, vt_progress := snd stat\<rparr> else st)"

definition apply_restore_stats :: "int \<Rightarrow> (string \<times> int) list \<Rightarrow> VolumeRestoreState list \<Rightarrow> VolumeRestoreState list" where
  "apply_restore_stats now stats sts = fold (\<lambda>stat. map (advance_restore now stat)) stats sts"

fun restore_states_done :: "VolumeRestoreState list \<Rightarrow> bool" where
  "restore_states_done [] = True"
| "restore_states_done (st # sts) = (if vt_progress st < 100 then False else restore_states_done sts)"

definition restore_timeout :: "int \<Rightarrow> VolumeRestoreState list \<Rightarrow> bool" where
  "restore_timeout now sts = fold (\<lambda>st t. if since now (vt_lastProgressUpdate st) < defaultRestoreProgressTimeout
     then False else t) sts True"

definition restore_timeout_reason :: string where
  "restore_timeout_reason = ''Volume restore timout. No progress update for max wait duration 30m0s''"

text \<open>What the statistics make of the content, and whether it is complete.\<close>

definition apply_stats :: "int \<Rightarrow> (string \<times> int) list \<Rightarrow> VolumeRestoreContent \<Rightarrow> VolumeRestoreContent \<times> bool" where
  "apply_stats now stats r = (let sts = apply_restore_stats (unix now) stats (vr_states r); r1 = r\<lparr>vr_states := sts\<rparr> in
     (if restore_timeout now sts then r1\<lparr>vr_failureReason := restore_timeout_reason, vr_phase := VRCPhaseFailed\<rparr> else r1,
      restore_states_done sts))"

definition stat_request :: "VolumeRestoreContent \<Rightarrow> restore_call" where
  "stat_request r = GetRestoreStat (restore_handles r) (vr_parameters r)"

definition syncRestoreStat ::
  "'w vr_env \<Rightarrow> VolumeRestoreContent \<Rightarrow> ('w vr_svc, VolumeRestoreContent \<times> bool \<times> goerr option) state" where
  "syncRestoreStat env r = do {
     stats \<leftarrow> vcall (vn_stat env (stat_request r)) (\<lambda>x. [VeDriver (stat_request r) (\<not> isl x)]);
     (case stats of
        Inl err \<Rightarrow> State_Monad.return (r, False, Some err)
      | Inr sts \<Rightarrow> do {
          now \<leftarrow> vask (va_Now (vn_api env));
          State_Monad.return (case apply_stats now sts r of (r1, completed) \<Rightarrow> (r1, completed, None)) }) }"

text \<open>A failed status update leaves a nil content, whose name the log line reads.\<close>

definition processRestoreProgress ::
  "'w vr_env \<Rightarrow> string \<Rightarrow> ('w vr_svc, (bool \<times> goerr option) outcome) state" where
  "processRestoreProgress env index = do {
     got \<leftarrow> vask (getVolumeRestore env index);
     (case got of
        Inl err \<Rightarrow> State_Monad.return (Ret (IsNotFound (Some err), None))
      | Inr volRestore \<Rightarrow>
          if skipRestoreProgressProcessing volRestore then State_Monad.return (Ret (True, None))
          else do {
            (synced, completed, err) \<leftarrow> syncRestoreStat env volRestore;
            (case err of
               Some e \<Rightarrow> State_Monad.return (Ret (False, if CheckServerUnavailable e then None else Some e))
             | None \<Rightarrow> do {
                 (r, err2) \<leftarrow> vrs_updateStatus env volRestore
                   (if completed then synced\<lparr>vr_phase := VRCPhaseCompleted\<rparr> else synced);
                 if err2 \<noteq> None then State_Monad.return (if r = None then Panic else Ret (False, None))
                 else if completed then do {
                   vemit (VeRecord EventVolumeRestoreCompleted ''Completed volume restore'');
                   State_Monad.return (Ret (True, None)) }
                 else State_Monad.return (Ret (False, None)) }) }) }"

definition handleRestoreProgressFailure :: "'w vr_env \<Rightarrow> string \<Rightarrow> goerr \<Rightarrow> ('w vr_svc, unit) state" where
  "handleRestoreProgressFailure env index progressErr = do {
     got \<leftarrow> vask (getVolumeRestore env index);
     (case got of
        Inl _ \<Rightarrow> State_Monad.return ()
      | Inr volRestore \<Rightarrow>
          if skipRestoreProgressProcessing volRestore then State_Monad.return ()
          else do { _ \<leftarrow> vrs_updateStatusWithFailure env volRestore (err_msg progressErr); State_Monad.return () }) }"

definition handleRestoreProgressSuccess :: "'w vr_env \<Rightarrow> string \<Rightarrow> ('w vr_svc, unit) state" where
  "handleRestoreProgressSuccess env index = do {
     got \<leftarrow> vask (getVolumeRestore env index);
     (case got of
        Inl _ \<Rightarrow> State_Monad.return ()
      | Inr volRestore \<Rightarrow>
          if skipRestoreProgressProcessing volRestore then State_Monad.return ()
          else do { _ \<leftarrow> vrs_updatePhase env volRestore VRCPhaseCompleted; State_Monad.return () }) }"

text \<open>The handler the operation manager runs. A panic in its goroutine ends the process, which \<open>vo_crashed\<close>
  records: nothing runs after it.\<close>

definition restore_handler :: "'w vr_env \<Rightarrow> 'w vr_svc handler" where
  "restore_handler env = \<lparr>
     h_Operation = (\<lambda>index s. case run_state (processRestoreProgress env index) s of
        (Ret r, s') \<Rightarrow> (r, s') | (Panic, s') \<Rightarrow> ((True, None), s'\<lparr>vo_crashed := True\<rparr>)),
     h_OnFailure = Some (\<lambda>index err s. snd (run_state (handleRestoreProgressFailure env index err) s)),
     h_OnSuccess = Some (\<lambda>index s. if vo_crashed s then s else snd (run_state (handleRestoreProgressSuccess env index) s))\<rparr>"

end
