(* ===== verification/Volume_Restore_Safety.thy ===== *)
theory Volume_Restore_Safety
  imports Volume_Restore_Service
begin

text \<open>
  Guarantees of the volume restore controller: its poll implements the contract of \<open>Volume_Service\<close>,
  the driver only works on contents that carry the finalizer and is told to cancel before the finalizer
  goes, and the phases follow the state machine of the API.
\<close>

section \<open>The poll refines its contract\<close>

interpretation restore_table: progress_table vt_volumeHandle vt_progress vt_lastProgressUpdate advance_restore
  by unfold_locales (auto simp: advance_restore_def)

fun abs_phase :: "VolumeRestoreContentPhase \<Rightarrow> content_phase" where
  "abs_phase VRCPhaseNone = Starting" | "abs_phase VRCPhaseInit = Starting"
| "abs_phase VRCPhaseInProgress = Running" | "abs_phase VRCPhaseCompleted = Finished"
| "abs_phase VRCPhaseFailed = Broken" | "abs_phase VRCPhaseDeleting = Removing"
| "abs_phase (VRCPhaseOther _) = Undefined"

definition abs_entry :: "VolumeRestoreState \<Rightarrow> entry" where
  "abs_entry st = (vt_volumeHandle st, vt_progress st, vt_lastProgressUpdate st)"

definition abs_restore :: "VolumeRestoreContent \<Rightarrow> content_phase \<times> entry list" where
  "abs_restore r = (abs_phase (vr_phase r), map abs_entry (vr_states r))"

lemma apply_restore_stats_map: "apply_restore_stats sec stats sts = map (\<lambda>st. fold (advance_restore sec) stats st) sts"
  by (simp add: apply_restore_stats_def fold_map_swap)

lemma abs_apply_stats: "map abs_entry (apply_restore_stats sec stats sts) = map (report sec stats) (map abs_entry sts)"
  by (simp add: apply_restore_stats_map abs_entry_def restore_table.steps_report)

lemma restore_states_done_iff: "restore_states_done sts \<longleftrightarrow> finished (map abs_entry sts)"
  by (induction sts) (auto simp: finished_def abs_entry_def)

lemma restore_timeout_iff: "restore_timeout now sts \<longleftrightarrow> stalled now (map abs_entry sts)"
  by (auto simp: restore_timeout_def fold_keep stalled_def abs_entry_def since_def defaultRestoreProgressTimeout_def
      list_all_iff not_less)

text \<open>The content a poll writes.\<close>

definition polled :: "int \<Rightarrow> (string \<times> int) list \<Rightarrow> VolumeRestoreContent \<Rightarrow> VolumeRestoreContent" where
  "polled now stats r = (case apply_stats now stats r of (r1, completed) \<Rightarrow>
     if completed then r1\<lparr>vr_phase := VRCPhaseCompleted\<rparr> else r1)"

lemma polled_refines:
  "vr_phase r = VRCPhaseInProgress \<Longrightarrow> abs_restore (polled now stats r) = poll_spec now stats (map abs_entry (vr_states r))"
  unfolding poll_spec_def abs_apply_stats [symmetric]
  by (simp add: polled_def apply_stats_def abs_restore_def restore_states_done_iff restore_timeout_iff
      Let_def unix_def)

text \<open>The cache of processed contents takes an object unless its key or a revision cannot be read.\<close>

definition cache_refuses :: "'w vr_env \<Rightarrow> 'w vr_svc \<Rightarrow> VolumeRestoreContent \<Rightarrow> bool" where
  "cache_refuses env s x \<longleftrightarrow> snd (fst (StoreRevisionUpdate (va_objKey (vn_api env)) (\<lambda>y. Inr (vr_meta y))
     ''VolumeRestoreContent'' (vo_processed s) x)) \<noteq> None"

lemma stored_but_refused:
  assumes "run_state (patchRestoreStatus env old new) s = ((Some x, Some e), t)"
  shows "\<exists>bytes w. va_mergePatch (vn_api env) old new = Inr bytes \<and>
     va_Patch (vn_api env) (vr_name old) bytes [''status''] (vo_world s) = ((x, None), w) \<and> cache_refuses env s x"
  using assms
  by (auto simp: patchRestoreStatus_def vpatch_def vcache_update_def vrc_kind_def cache_refuses_def
      split: sum.splits prod.splits option.splits)

text \<open>C12: a poll of a running volume restore implements the contract of the progress table: when the driver
  answers, the one status that is sent raises each volume to the highest progress reported for its handle
  and has the phase the contract gives for it; the poll ends with success when a status recording
  the finished phase was stored, goes on when another one was, and brings the process down when it was
  refused. The one exception: a stored finished status whose object the cache of processed contents does
  not take (because its key or revision cannot be read) makes the poll go on.\<close>

theorem restore_poll_refines:
  assumes "getVolumeRestore env index (vo_world s) = Inr r" "\<not> skipRestoreProgressProcessing r"
    and "vn_stat env (stat_request r) (vo_world s) = (Inr stats, w)"
    and "run_state (processRestoreProgress env index) s = (res, s')"
  shows "\<exists>new l. abs_restore new = poll_spec (va_Now (vn_api env) w) stats (snd (abs_restore r)) \<and>
      vr_meta new = vr_meta r \<and> vo_log s' = vo_log s @ VeDriver (stat_request r) True # l \<and>
      (res = Panic \<and> (l = [] \<or> l = [VePatchStatus r new False]) \<or>
       res = Ret (False, None) \<and> l = [VePatchStatus r new True] \<and>
         (vr_phase new = VRCPhaseCompleted \<longrightarrow> (\<exists>x bytes w'. va_mergePatch (vn_api env) r new = Inr bytes \<and>
            va_Patch (vn_api env) (vr_name r) bytes [''status''] w = ((x, None), w') \<and> cache_refuses env s x)) \<or>
       res = Ret (True, None) \<and> vr_phase new = VRCPhaseCompleted \<and>
         l = [VePatchStatus r new True, VeRecord EventVolumeRestoreCompleted ''Completed volume restore''])"
proof -
  let ?new = "polled (va_Now (vn_api env) w) stats r"
  let ?s1 = "s\<lparr>vo_world := w, vo_log := vo_log s @ [VeDriver (stat_request r) True]\<rparr>"
  obtain x e s2 where p: "run_state (patchRestoreStatus env r ?new) ?s1 = ((x, e), s2)" by (metis prod.collapse)
  obtain l where l: "vo_log s2 = vo_log ?s1 @ l" "answer [''status''] r ?new (x, e) l"
    using trD [OF answer_patch, of vrc_kind "vn_api env" "''restore''" "''VBC''" "[''status'']"] p
    unfolding patchRestoreStatus_def by blast
  have run: "(res, s') = (if e \<noteq> None then (if x = None then Panic else Ret (False, None), s2)
      else if snd (apply_stats (va_Now (vn_api env) w) stats r)
      then (Ret (True, None), s2\<lparr>vo_log := vo_log s2 @ [VeRecord EventVolumeRestoreCompleted ''Completed volume restore'']\<rparr>)
      else (Ret (False, None), s2))"
    using assms p
    by (auto simp: processRestoreProgress_def syncRestoreStat_def vrs_updateStatus_def polled_def split: prod.splits if_splits)
  have "abs_restore ?new = poll_spec (va_Now (vn_api env) w) stats (snd (abs_restore r))"
    using polled_refines [of r "va_Now (vn_api env) w" stats] assms(2)
    by (simp add: abs_restore_def [of r] skipRestoreProgressProcessing_def split: if_splits)
  moreover have "vr_meta ?new = vr_meta r"
    by (simp add: polled_def apply_stats_def Let_def split: prod.splits)
  moreover have completed: "snd (apply_stats (va_Now (vn_api env) w) stats r) \<longleftrightarrow> vr_phase ?new = VRCPhaseCompleted"
    using assms(2)
    by (auto simp: polled_def apply_stats_def Let_def skipRestoreProgressProcessing_def split: if_splits)
  moreover have "\<exists>x' bytes w'. va_mergePatch (vn_api env) r ?new = Inr bytes \<and>
      va_Patch (vn_api env) (vr_name r) bytes [''status''] w = ((x', None), w') \<and> cache_refuses env s x'"
    if "x \<noteq> None" "e \<noteq> None"
    using stored_but_refused [of env r ?new ?s1 "the x" "the e" s2] p that by (auto simp: cache_refuses_def)
  ultimately show ?thesis
    using run l by (intro exI [of _ ?new]) (auto simp: answer_def patched_def split: if_splits)
qed

section \<open>What the functions log\<close>

lemma every_patchRestoreStatus [tr_rules]:
  "(\<And>ok. Q (VePatchStatus old new ok)) \<Longrightarrow> every vo_log Q (patchRestoreStatus env old new)"
  unfolding patchRestoreStatus_def by (rule every_vpatch) (simp add: patched_def)

lemma every_patchContent: "(\<And>ok. Q (VePatch old new ok)) \<Longrightarrow> every vo_log Q (ctrl_patchVolRestoreContent env old new)"
  unfolding ctrl_patchVolRestoreContent_def by (rule every_vpatch) (simp add: patched_def)

lemma every_statusWithEvent:
  "(\<And>ok. Q (VePatchStatus old new ok)) \<Longrightarrow> Q (VeRecord rs msg) \<Longrightarrow> every vo_log Q (vrs_updateStatusWithEvent env old new rs msg)"
  unfolding vrs_updateStatusWithEvent_def vrs_updateStatus_def by (intro tr_rules tr_vemit) auto

lemma every_statusWithFailure:
  "(\<And>ok. Q (VePatchStatus r (r\<lparr>vr_phase := VRCPhaseFailed, vr_failureReason := msg\<rparr>) ok)) \<Longrightarrow>
   Q (VeRecord EventVolumeRestoreFailed msg) \<Longrightarrow> every vo_log Q (vrs_updateStatusWithFailure env r msg)"
  unfolding vrs_updateStatusWithFailure_def by (intro tr_rules tr_vemit) auto

lemma every_ctrl_updateStatus:
  "(\<And>ok. Q (VeUpdateStatus (mergeVRCStatus r st) ok)) \<Longrightarrow> every vo_log Q (ctrl_updateStatus env r st)"
  unfolding ctrl_updateStatus_def Let_def by (intro tr_rules tr_vcall) auto

lemma every_start_progress: "Q (VeRun (vr_name r)) \<Longrightarrow> every vo_log Q (start_progress r)"
  unfolding start_progress_def by (intro tr_rules tr_vrun) auto

text \<open>What comes back from the start on the driver.\<close>

lemma tr_handleVolumeRestore:
  assumes "\<And>ok. Q (VeDriver (create_request r) ok)"
  shows "tr vo_log (\<lambda>x l. (\<forall>e \<in> set l. Q e) \<and> vr_meta (fst x) = vr_meta r \<and>
     (if snd x = None then vr_phase (fst x) = VRCPhaseInProgress else fst x = r)) (handleVolumeRestore env r)"
  unfolding handleVolumeRestore_def
  by (rule tr_bind [OF tr_vcall, where R = "\<lambda>_ l. \<exists>ok. l = [VeDriver (create_request r) ok]"])
     (use assms in \<open>auto intro!: tr_sum tr_if tr_return tr_asked\<close>)

section \<open>The finalizer protects every restore on the driver\<close>

fun is_volume_create :: "(VolumeRestoreContent, restore_call) vol_event \<Rightarrow> bool" where
  "is_volume_create (VeDriver (CreateVolumeFromBackup _ _ _) _) = True" | "is_volume_create _ = False"

definition protecting :: "(VolumeRestoreContent, restore_call) vol_event list \<Rightarrow> bool" where
  "protecting l \<longleftrightarrow> (\<exists>old new. VePatch old new True \<in> set l \<and> volumeRestoreContentFinalizer \<in> set (meta_finalizers (vr_meta new)))"

lemma tr_restoreInitialize:
  "tr vo_log (\<lambda>x l. (\<forall>e \<in> set l. \<not> is_volume_create e) \<and> (fst x \<noteq> None \<longrightarrow> protecting l)) (restoreInitialize env r)"
proof -
  let ?new = "r\<lparr>vr_meta := the (SetFinalizer (Some (vr_meta r)) volumeRestoreContentFinalizer)\<rparr>"
  have fin: "volumeRestoreContentFinalizer \<in> set (meta_finalizers (vr_meta ?new))"
    by (simp add: SetFinalizer_def)
  have pro: "protecting (VePatch r ?new True # l')" for l'
    using fin unfolding protecting_def by fastforce
  show ?thesis unfolding restoreInitialize_def ctrl_patchVolRestoreContent_def
  proof (rule tr_bind [OF answer_patch], goal_cases)
    case (1 a l)
    obtain x e where a: "a = (x, e)" by fastforce
    show ?case
    proof (cases "x \<noteq> None \<and> e = None")
      case True
      then obtain c where c: "x = Some c" by blast
      then have l: "l = [VePatch r ?new True]" using 1 a by (simp add: answer_def patched_def)
      show ?thesis unfolding a c l prod.case option.case
      proof (rule tr_weaken [where R = "\<lambda>_ l. \<forall>e \<in> set l. \<not> is_volume_create e"], goal_cases)
        case 1
        show ?case by (intro tr_rules every_ctrl_updateStatus) auto
      qed (auto simp: pro)
    next
      case False
      then have l: "(\<forall>e \<in> set l. \<not> is_volume_create e) \<and> (x \<noteq> None \<longrightarrow> l = [VePatch r ?new True])"
        using 1 a by (auto simp: answer_def patched_def)
      then show ?thesis using False pro [of "[]"] unfolding a
        by (cases x; cases e) (auto intro!: tr_return)
    qed
  qed
qed

lemma not_init_no_create: "\<not> isInitNeeded r \<Longrightarrow> every vo_log (\<lambda>e. \<not> is_volume_create e) (processVolumeRestore env r)"
  by (cases "vr_phase r")
     (auto simp: processVolumeRestore_def isInitNeeded_def intro!: tr_rules every_start_progress)

lemma delete_no_create: "every vo_log (\<lambda>e. \<not> is_volume_create e) (processDeleteVolumeRestore env r)"
  unfolding processDeleteVolumeRestore_def finish_delete_def
  by (intro tr_rules tr_vcall tr_vemit every_patchContent) (auto simp: cancel_request_def)

lemma any_processVolumeRestore: "tr vo_log (\<lambda>_ _. True) (processVolumeRestore env r)"
proof -
  have "every vo_log (\<lambda>e. \<forall>x. e \<noteq> VeEnqueue x) (processVolumeRestore env r)"
    unfolding processVolumeRestore_def
    by (cases "vr_phase r")
       (auto intro!: tr_rules every_start_progress every_statusWithEvent every_statusWithFailure
          every_bind_with [OF tr_handleVolumeRestore])
  then show ?thesis by (rule tr_weaken) simp
qed

text \<open>The queue handler asks the driver to create volumes only after a patch that puts the finalizer on the
  content has succeeded in the same pass.\<close>

theorem restore_start_after_finalizer:
  "\<exists>l. vo_log (snd (run_state (vrs_processQueue env index) s)) = vo_log s @ l \<and> only_after is_volume_create protecting l"
proof -
  have none: "tr vo_log (\<lambda>_ l. only_after is_volume_create protecting l) m" if "every vo_log (\<lambda>e. \<not> is_volume_create e) m" for m :: "('w vr_svc, goerr option) state"
    by (rule tr_weaken [OF that]) (simp add: only_after_none)
  have init: "tr vo_log (\<lambda>_ l. only_after is_volume_create protecting l)
      (restoreInitialize env r \<bind> (\<lambda>(x, err). case (x, err) of
         (Some initialized, None) \<Rightarrow> processVolumeRestore env initialized | _ \<Rightarrow> State_Monad.return err))" for r
  proof (rule tr_bind [OF tr_restoreInitialize], goal_cases)
    case (1 a l)
    obtain x e where a: "a = (x, e)" by fastforce
    have quiet: "tr vo_log (\<lambda>_ l'. only_after is_volume_create protecting (l @ l')) (State_Monad.return y)" for y
      using 1 by (auto intro!: tr_return only_after_none)
    have go: "tr vo_log (\<lambda>_ l'. only_after is_volume_create protecting (l @ l')) (processVolumeRestore env c)" if "x = Some c" for c
    proof (rule tr_any [OF any_processVolumeRestore], rule only_after_behind)
      show "protecting (l @ xs)" for xs using 1 a that by (auto simp: protecting_def)
    qed (use 1 in auto)
    show ?case unfolding a prod.case using quiet go by (auto split: option.split)
  qed
  have "tr vo_log (\<lambda>_ l. only_after is_volume_create protecting l) (vrs_processQueue env index)"
    unfolding vrs_processQueue_def
    by (intro tr_sum tr_if tr_prod tr_return tr_asked tr_cached
        none init not_init_no_create delete_no_create) (auto simp: only_after_none)
  from tr_run [OF this] show ?thesis .
qed

section \<open>A running restore is cancelled before it is released\<close>

definition must_cancel :: "VolumeRestoreContent \<Rightarrow> bool" where
  "must_cancel r \<longleftrightarrow> vr_phase r = VRCPhaseInProgress \<or> hasCleanupAnnotation r"

fun releases :: "(VolumeRestoreContent, restore_call) vol_event \<Rightarrow> bool" where
  "releases (VePatch old new _) = (must_cancel old \<and> volumeRestoreContentFinalizer \<notin> set (meta_finalizers (vr_meta new)))"
| "releases _ = False"

fun cancelled :: "(VolumeRestoreContent, restore_call) vol_event \<Rightarrow> (VolumeRestoreContent, restore_call) vol_event \<Rightarrow> bool" where
  "cancelled g (VePatch old _ _) = (g = VeDriver (cancel_request old) True)" | "cancelled g _ = False"

lemma processVolumeRestore_keeps: "every vo_log (\<lambda>e. \<not> releases e) (processVolumeRestore env r)"
  unfolding processVolumeRestore_def
  by (cases "vr_phase r")
     (auto intro!: tr_rules every_start_progress every_statusWithEvent every_statusWithFailure
        every_bind_with [OF tr_handleVolumeRestore])

lemma restoreInitialize_keeps: "every vo_log (\<lambda>e. \<not> releases e) (restoreInitialize env r)"
  unfolding restoreInitialize_def
  by (auto intro!: tr_rules every_ctrl_updateStatus every_patchContent simp: SetFinalizer_def)

lemma tr_finish_delete:
  "tr vo_log (\<lambda>_ l. l = [] \<or> (\<exists>ok. l = [VePatch r (without_restore_finalizer r) ok])) (finish_delete env r)"
  unfolding finish_delete_def ctrl_patchVolRestoreContent_def
proof (rule tr_bind [OF answer_patch], goal_cases)
  case (1 a l)
  then have "l = [] \<or> (\<exists>ok. l = [VePatch r (without_restore_finalizer r) ok])"
    by (auto simp: answer_def patched_def)
  then have "tr vo_log (\<lambda>_ l'. l' = [] \<and> (l = [] \<or> (\<exists>ok. l = [VePatch r (without_restore_finalizer r) ok])))
      (case a of (_, err) \<Rightarrow> if err \<noteq> None then State_Monad.return err
        else do { _ \<leftarrow> vcache_clean vrc_kind (vn_api env) r; State_Monad.return None })"
    by (cases a) (auto intro!: tr_return tr_skip [OF tr_vcache_clean, where P = "\<lambda>_. True"])
  then show ?case by (rule tr_weaken) auto
qed

lemma delete_cancels: "all_of vo_log (led_by releases cancelled) (processDeleteVolumeRestore env r)"
proof -
  let ?go = "finish_delete env r"
  have direct: "all_of vo_log (led_by releases cancelled) ?go" if "\<not> must_cancel r"
    by (rule tr_weaken [OF tr_finish_delete]) (use that in \<open>auto intro!: led_by_none\<close>)
  have quiet: "tr vo_log (\<lambda>_ l'. led_by releases cancelled ([VeDriver (cancel_request r) ok] @ l')) m"
    if "every vo_log (\<lambda>e. \<not> releases e) m" for m :: "('w vr_svc, goerr option) state" and ok
    by (rule tr_weaken [OF that]) (auto intro!: led_by_none)
  have after: "tr vo_log (\<lambda>_ l'. led_by releases cancelled ([VeDriver (cancel_request r) True] @ l')) ?go"
    by (rule tr_weaken [OF tr_finish_delete]) (auto intro!: led_by_first simp: led_by_none)
  have report: "every vo_log (\<lambda>e. \<not> releases e)
      (if CheckServerUnavailable e then State_Monad.return (Some e)
       else do { vemit (VeRecord EventVolumeRestoreCancelFailed (''Unable to Cancel restore. '' @ err_msg e)); State_Monad.return (Some e) })" for e
    by (intro tr_rules tr_vemit) auto
  show ?thesis
  proof (cases "must_cancel r")
    case True
    then have "processDeleteVolumeRestore env r = vcall (vn_cancel env (cancel_request r)) (\<lambda>e. [VeDriver (cancel_request r) (e = None)]) \<bind>
        (\<lambda>err. case err of None \<Rightarrow> ?go | Some e \<Rightarrow> if CheckServerUnavailable e then State_Monad.return (Some e)
           else do { vemit (VeRecord EventVolumeRestoreCancelFailed (''Unable to Cancel restore. '' @ err_msg e)); State_Monad.return (Some e) })"
      unfolding processDeleteVolumeRestore_def must_cancel_def by simp
    also have "all_of vo_log (led_by releases cancelled) \<dots>"
    proof (rule tr_bind [OF tr_vcall, where R = "\<lambda>x l. l = [VeDriver (cancel_request r) (x = None)]"], goal_cases)
      case (2 a l)
      show ?case unfolding 2 by (cases a) (simp_all only: option.case after quiet [OF report] simp_thms option.distinct)
    qed simp
    finally show ?thesis .
  next
    case False
    then show ?thesis using direct by (simp add: processDeleteVolumeRestore_def must_cancel_def)
  qed
qed

text \<open>C18: the finalizer of a restore that is in progress, or that is marked for cleanup, is only taken away
  directly after the driver has confirmed that this restore, with all volumes recorded for it, is cancelled.\<close>

theorem restore_cancelled_before_release:
  "\<exists>l. vo_log (snd (run_state (vrs_processQueue env index) s)) = vo_log s @ l \<and> led_by releases cancelled l"
proof -
  have "all_of vo_log (led_by releases cancelled) (vrs_processQueue env index)"
    unfolding vrs_processQueue_def
    by (intro tr_sum tr_if tr_prod tr_return tr_asked tr_cached leads delete_cancels every_led_by [OF processVolumeRestore_keeps]
        every_led_by [OF restoreInitialize_keeps] tr_option) (auto simp: led_by_none)
  from tr_run [OF this] show ?thesis .
qed

section \<open>Two flaws of the poll\<close>

text \<open>A refused status update leaves a nil content, whose name the log line reads: the goroutine panics and takes
  the process with it.\<close>

lemma refused_progress_update_panics:
  assumes "getVolumeRestore env index (vo_world s) = Inr r" "\<not> skipRestoreProgressProcessing r"
    and "vn_stat env (stat_request r) (vo_world s) = (Inr stats, w)"
    and "va_mergePatch (vn_api env) r (polled (va_Now (vn_api env) w) stats r) = Inr bytes"
    and "va_Patch (vn_api env) (vr_name r) bytes [''status''] w = ((x, Some err), w')"
  shows "fst (run_state (processRestoreProgress env index) s) = Panic"
  using assms
  by (auto simp: processRestoreProgress_def syncRestoreStat_def vrs_updateStatus_def patchRestoreStatus_def vpatch_def
      vrc_kind_def polled_def split: prod.splits if_splits)

text \<open>A content for which the driver returned no volume is completed and carries the reason of a timeout.\<close>

lemma empty_restore_completes_with_timeout:
  "vr_states r = [] \<Longrightarrow> vr_phase (polled now stats r) = VRCPhaseCompleted \<and> vr_failureReason (polled now stats r) = restore_timeout_reason"
  by (simp add: polled_def apply_stats_def apply_restore_stats_map restore_timeout_def)

end
