(* ===== verification/Volume_Restore_Progress.thy ===== *)
theory Volume_Restore_Progress
  imports Volume_Restore_Safety
begin

text \<open>
  The runs of the volume restore controller: its queue handler, its polls and changes from outside in any
  order. The phases of a content follow the state machine of the API in every run, and a poll that finds all
  volumes restored is the last one.
\<close>

section \<open>Runs\<close>

inductive vr_step :: "'w vr_env \<Rightarrow> 'w vr_svc \<Rightarrow> 'w vr_svc \<Rightarrow> bool" for env where
  queue: "vr_step env s (snd (run_state (vrs_processQueue env index) s))"
| poll: "vr_step env s (snd (operationHandler index (restore_handler env) s))"
| resync: "vr_step env s (snd (run_state (vrs_reSync env) s))"
| poll_ends: "vr_step env s (s\<lparr>vo_running := ops_delete index (vo_running s)\<rparr>)"
| outside: "vr_step env s (s\<lparr>vo_world := w\<rparr>)"


inductive_cases vr_stepE: "vr_step env s t"




section \<open>The phases follow the state machine\<close>




lemma advance_names [simp]: "vt_volumeName (fold (advance_restore sec) stats st) = vt_volumeName st"
  by (induction stats arbitrary: st) (auto simp: advance_restore_def)








lemma not_skipped: "\<not> skipRestoreProgressProcessing r \<Longrightarrow> vr_phase r = VRCPhaseInProgress"
  by (auto simp: skipRestoreProgressProcessing_def split: if_splits)






section \<open>A finished restore ends the polling\<close>

lemma skipped_poll:
  assumes "getVolumeRestore env nm (vo_world s) = Inr x" "skipRestoreProgressProcessing x"
  shows "operationHandler nm (restore_handler env) s = (False, s)"
  using assms by (simp add: operationHandler_def restore_handler_def processRestoreProgress_def handleRestoreProgressSuccess_def)

lemma operate_once: "operationHandler nm h w = (False, w') \<Longrightarrow> operate nm h w = Some w'"
  by (subst operate.simps) simp

text \<open>A poll that sees a content which is not in progress any more, or none, is the last one.\<close>

lemma skipped_poll_ends:
  "getVolumeRestore env nm (vo_world s) = Inr x \<Longrightarrow> skipRestoreProgressProcessing x \<Longrightarrow>
     operate nm (restore_handler env) s = Some s"
  by (rule operate_once [OF skipped_poll])

text \<open>After its success the operation manager reads the content again; if the lister still shows it in progress,
  the completed phase is sent once more, and nothing is made of the answer.\<close>

definition repeats_completion :: "(VolumeRestoreContent, restore_call) vol_event list \<Rightarrow> bool" where
  "repeats_completion l \<longleftrightarrow> l = [] \<or>
     (\<exists>shown ok. vr_phase shown = VRCPhaseInProgress \<and> l = [VePatchStatus shown (shown\<lparr>vr_phase := VRCPhaseCompleted\<rparr>) ok])"

lemma tr_success: "tr vo_log (\<lambda>_ l. repeats_completion l) (handleRestoreProgressSuccess env index)"
proof -
  have "tr vo_log (\<lambda>_ l. repeats_completion l) (vrs_updatePhase env r VRCPhaseCompleted)" if "vr_phase r = VRCPhaseInProgress" for r
    unfolding vrs_updatePhase_def patchRestoreStatus_def
    by (rule tr_vpatch) (use that in \<open>auto simp: repeats_completion_def patched_def\<close>)
  then have "tr vo_log (\<lambda>_ l. repeats_completion l) (do { _ \<leftarrow> vrs_updatePhase env r VRCPhaseCompleted; State_Monad.return () })"
    if "\<not> skipRestoreProgressProcessing r" for r
    using not_skipped [OF that] by (auto intro!: tr_bind [where R = "\<lambda>_ l. repeats_completion l"] tr_return)
  then show ?thesis unfolding handleRestoreProgressSuccess_def
    by (intro tr_asked tr_sum tr_if tr_return) (auto simp: repeats_completion_def)
qed

text \<open>C22: the polling of a restore ends with it: when a poll finds all volumes restored, and the API server and
  the cache of processed contents take the status, the loop of the operation manager returns after this poll,
  whatever the lister shows by then. It has asked the driver once, stored the completed phase and recorded the
  completion, and it sends at most the completed phase a second time.\<close>

theorem restored_volumes_stop_polling:
  assumes "getVolumeRestore env index (vo_world s) = Inr r" "\<not> skipRestoreProgressProcessing r"
    and "vn_stat env (stat_request r) (vo_world s) = (Inr stats, w)"
    and "fst (poll_spec (va_Now (vn_api env) w) stats (snd (abs_restore r))) = Finished"
    and "va_mergePatch (vn_api env) r (polled (va_Now (vn_api env) w) stats r) = Inr bytes"
    and "va_Patch (vn_api env) (vr_name r) bytes [''status''] w = ((x, None), w')"
    and "\<not> cache_refuses env s x" "\<not> vo_crashed s"
  shows "\<exists>s' new l. operate index (restore_handler env) s = Some s' \<and>
     vo_log s' = vo_log s @ [VeDriver (stat_request r) True, VePatchStatus r new True,
       VeRecord EventVolumeRestoreCompleted ''Completed volume restore''] @ l \<and>
     vr_phase new = VRCPhaseCompleted \<and> vr_meta new = vr_meta r \<and> repeats_completion l"
proof -
  let ?now = "va_Now (vn_api env) w" and ?h = "restore_handler env"
  let ?new = "polled ?now stats r"
  let ?s1 = "s\<lparr>vo_world := w, vo_log := vo_log s @ [VeDriver (stat_request r) True]\<rparr>"
  let ?ev = "VeRecord EventVolumeRestoreCompleted ''Completed volume restore''"
  have run: "vr_phase r = VRCPhaseInProgress" by (rule not_skipped [OF assms(2)])
  have "abs_phase (vr_phase ?new) = Finished"
    using polled_refines [OF run, of ?now stats] assms(4) by (metis abs_restore_def fst_conv snd_conv)
  then have phase: "vr_phase ?new = VRCPhaseCompleted" by (cases "vr_phase ?new") auto
  have meta: "vr_meta ?new = vr_meta r" by (simp add: polled_def apply_stats_def Let_def split: prod.splits)
  have completed: "snd (apply_stats ?now stats r)"
    using phase run by (auto simp: polled_def apply_stats_def Let_def split: if_splits)
  obtain b store where c: "StoreRevisionUpdate (va_objKey (vn_api env)) (\<lambda>y. Inr (vr_meta y)) ''VolumeRestoreContent''
      (vo_processed s) x = ((b, None), store)"
    using assms(7) unfolding cache_refuses_def by (metis prod.collapse)
  obtain s2 where p: "run_state (patchRestoreStatus env r ?new) ?s1 = ((Some x, None), s2)"
      and s2: "vo_log s2 = vo_log s @ [VeDriver (stat_request r) True, VePatchStatus r ?new True]" "vo_crashed s2 = vo_crashed s"
    using assms(5,6)
    by (simp add: patchRestoreStatus_def vpatch_def vcache_update_def vrc_kind_def c)
  let ?s3 = "s2\<lparr>vo_log := vo_log s2 @ [?ev]\<rparr>"
  have poll: "run_state (processRestoreProgress env index) s = (Ret (True, None), ?s3)"
    using assms(1-3) p completed
    by (auto simp: processRestoreProgress_def syncRestoreStat_def vrs_updateStatus_def polled_def split: prod.splits if_splits)
  obtain u s4 where s4: "run_state (handleRestoreProgressSuccess env index) ?s3 = (u, s4)" by (metis prod.collapse)
  obtain l where l: "vo_log s4 = vo_log ?s3 @ l" "repeats_completion l" using trD [OF tr_success s4] by blast
  have "operationHandler index ?h s = (False, s4)"
    using poll s4 s2(2) assms(8) by (simp add: operationHandler_def restore_handler_def)
  then have "operate index ?h s = Some s4" by (rule operate_once)
  then show ?thesis using l s2(1) phase meta by (intro exI [of _ s4] exI [of _ ?new] exI [of _ l]) simp
qed

section \<open>Witnesses\<close>

text \<open>A server with one content, which stores the phase it is sent, and a driver that reports a restore at half
  of its volume.\<close>

definition phase_code :: "VolumeRestoreContentPhase \<Rightarrow> string" where
  "phase_code p = (case p of VRCPhaseNone \<Rightarrow> ''n'' | VRCPhaseInit \<Rightarrow> ''i'' | VRCPhaseInProgress \<Rightarrow> ''p''
     | VRCPhaseCompleted \<Rightarrow> ''c'' | VRCPhaseFailed \<Rightarrow> ''f'' | VRCPhaseDeleting \<Rightarrow> ''d'' | VRCPhaseOther x \<Rightarrow> CHR ''o'' # x)"

definition phase_of_code :: "string \<Rightarrow> VolumeRestoreContentPhase" where
  "phase_of_code x = (if x = ''n'' then VRCPhaseNone else if x = ''i'' then VRCPhaseInit else if x = ''p'' then VRCPhaseInProgress
     else if x = ''c'' then VRCPhaseCompleted else if x = ''f'' then VRCPhaseFailed else if x = ''d'' then VRCPhaseDeleting
     else VRCPhaseOther (tl x))"

lemma phase_of_code [simp]: "phase_of_code (phase_code p) = p"
  by (cases p) (simp_all add: phase_code_def phase_of_code_def)

definition demo_content :: VolumeRestoreContent where
  "demo_content = \<lparr>vr_meta = zero_meta\<lparr>meta_name := ''v''\<rparr>, vr_backupName = ''b'', vr_restoreName = ''r'', vr_volumes = [],
     vr_provider = None, vr_parameters = Map.empty, vr_phase = VRCPhaseInProgress, vr_startTimestamp = Some 0,
     vr_failureReason = [], vr_states = [\<lparr>vt_volumeName = ''a'', vt_volumeHandle = ''h'', vt_attributes = Map.empty,
       vt_progress = 40, vt_lastProgressUpdate = 0\<rparr>, \<lparr>vt_volumeName = ''b'', vt_volumeHandle = ''k'', vt_attributes = Map.empty,
       vt_progress = 100, vt_lastProgressUpdate = 0\<rparr>]\<rparr>"

definition demo_vr :: "int \<Rightarrow> VolumeRestoreContent vr_env" where
  "demo_vr now = \<lparr>vn_api = \<lparr>va_objKey = \<lambda>r. Inr (vr_name r), va_splitKey = Inr, va_Get = \<lambda>_ w. Inr w, va_List = \<lambda>w. Inr [w],
       va_mergePatch = \<lambda>_ new. Inr (phase_code (vr_phase new)),
       va_Patch = \<lambda>_ bytes _ w. ((w\<lparr>vr_phase := phase_of_code bytes\<rparr>, None), w\<lparr>vr_phase := phase_of_code bytes\<rparr>),
       va_UpdateStatus = \<lambda>r w. ((r, None), r), va_Now = \<lambda>_. now\<rparr>,
     vn_create = \<lambda>_ w. (Inr \<lparr>cp_errors = [], cp_identifiers = []\<rparr>, w), vn_cancel = \<lambda>_ w. (None, w),
     vn_stat = \<lambda>_ w. (Inr [(''h'', 50)], w)\<rparr>"

definition demo_vs :: "VolumeRestoreContent vr_svc" where
  "demo_vs = \<lparr>vo_processed = \<lparr>items = Map.empty, keyFunc = \<lambda>r. Inr (vr_name r)\<rparr>, vo_running = Map.empty,
     vo_world = demo_content, vo_log = [], vo_crashed = False\<rparr>"

lemmas demo_vr_defs = demo_vr_def demo_vs_def demo_content_def zero_meta_def

lemma demo_get: "getVolumeRestore (demo_vr now) nm w = Inr w"
  by (simp add: getVolumeRestore_def demo_vr_def)

lemma demo_runs: "\<not> skipRestoreProgressProcessing demo_content"
  by (simp add: skipRestoreProgressProcessing_def demo_content_def zero_meta_def)

lemma demo_spec:
  "poll_spec 100000000000 [(''h'', 50)] (snd (abs_restore demo_content)) = (Running, [(''h'', 50, 100), (''k'', 100, 0)])"
  by (auto simp: abs_restore_def abs_entry_def demo_content_def poll_spec_def report_def finished_def stalled_def)

theorem restore_poll_refines_witness:
  "\<exists>new l. abs_restore new = (Running, [(''h'', 50, 100), (''k'', 100, 0)]) \<and> vr_meta new = vr_meta demo_content \<and>
     vo_log (snd (run_state (processRestoreProgress (demo_vr 100000000000) ''v'') demo_vs)) =
       VeDriver (stat_request demo_content) True # l"
proof -
  let ?env = "demo_vr 100000000000"
  obtain res s' where run: "run_state (processRestoreProgress ?env ''v'') demo_vs = (res, s')" by fastforce
  have "getVolumeRestore ?env ''v'' (vo_world demo_vs) = Inr demo_content" by (simp add: demo_get demo_vs_def)
  moreover have "vn_stat ?env (stat_request demo_content) (vo_world demo_vs) = (Inr [(''h'', 50)], demo_content)"
    by (simp add: demo_vr_def demo_vs_def)
  moreover have "va_Now (vn_api ?env) demo_content = 100000000000" "vo_log demo_vs = []" by (simp_all add: demo_vr_def demo_vs_def)
  ultimately show ?thesis using restore_poll_refines [OF _ demo_runs _ run] demo_spec run by fastforce
qed


theorem restored_volumes_stop_polling_witness:
  "\<exists>s' new l. operate ''v'' (restore_handler ((demo_vr 0)\<lparr>vn_stat := \<lambda>_ w. (Inr [(''h'', 100)], w)\<rparr>)) demo_vs = Some s' \<and>
     vo_log s' = [VeDriver (stat_request demo_content) True, VePatchStatus demo_content new True,
       VeRecord EventVolumeRestoreCompleted ''Completed volume restore''] @ l \<and>
     vr_phase new = VRCPhaseCompleted \<and> repeats_completion l"
proof -
  let ?env = "(demo_vr 0)\<lparr>vn_stat := \<lambda>_ w. (Inr [(''h'', 100)], w)\<rparr>"
  let ?p = "polled 0 [(''h'', 100)] demo_content"
  let ?x = "\<lambda>new. demo_content\<lparr>vr_phase := vr_phase new\<rparr>"
  have get: "getVolumeRestore ?env nm w = Inr w" for nm w by (simp add: getVolumeRestore_def demo_vr_def)
  have api: "va_Now (vn_api ?env) demo_content = 0"
    "va_mergePatch (vn_api ?env) demo_content new = Inr (phase_code (vr_phase new))"
    "va_Patch (vn_api ?env) (vr_name demo_content) (phase_code (vr_phase new)) [''status''] demo_content = ((?x new, None), ?x new)"
    for new by (simp_all add: demo_vr_def)
  have spec: "fst (poll_spec 0 [(''h'', 100)] (snd (abs_restore demo_content))) = Finished"
    by (simp add: abs_restore_def abs_entry_def demo_content_def poll_spec_def report_def finished_def Let_def)
  have cache: "\<not> cache_refuses ?env demo_vs x" for x
    by (simp add: cache_refuses_def StoreRevisionUpdate_def store_Get_def store_Add_def demo_vr_def demo_vs_def)
  have start: "vo_world demo_vs = demo_content" "\<not> vo_crashed demo_vs" "vo_log demo_vs = []" by (simp_all add: demo_vs_def)
  show ?thesis
    using restored_volumes_stop_polling [of ?env "''v''" demo_vs demo_content "[(''h'', 100)]" demo_content
        "phase_code (vr_phase ?p)" "?x ?p" "?x ?p"] get demo_runs api spec cache start
    by simp metis
qed

end
