(* ===== verification/Snapshot_Types.thy ===== *)
theory Snapshot_Types
  imports Traces ObjectMeta
begin

text \<open>
  The API objects of \<^verbatim>\<open>apis/kahu/v1beta1/volumesnapshot.go\<close> and \<^verbatim>\<open>volumegroup.go\<close>, and the loop
  both snapshotters wait in (\<^verbatim>\<open>volume/snapshot/snapshot.go\<close> and
  \<^verbatim>\<open>controllers/snapshot/csi/handler.go\<close>, \<^verbatim>\<open>waitForSnapshotStatus\<close>).

  Left out of the objects is what no code reads or writes: the API version of a reference, the selector of
  a volume source, the parameters and the phase of a snapshot, the data and the progress of a snapshot
  state. The reference of a group to its backup, a pointer that is always set where groups are made, is
  represented by the name of the backup.
\<close>

section \<open>Objects\<close>

record ResourceReference =
  rf_kind :: string
  rf_namespace :: string
  rf_name :: string

record VolumeGroup =
  vg_meta :: object_meta
  vg_backup :: string
  vg_list :: "ResourceReference list"

record VolumeSnapshotState =
  sst_pvc :: ResourceReference
  sst_csi :: "ResourceReference option"

record VolumeSnapshot =
  sh_meta :: object_meta
  sh_backupName :: "string option"
  sh_provider :: "string option"
  sh_list :: "ResourceReference list"
  sh_readyToUse :: "bool option"
  sh_failureReason :: string
  sh_states :: "VolumeSnapshotState list"

abbreviation sh_name :: "VolumeSnapshot \<Rightarrow> string" where "sh_name s \<equiv> meta_name (sh_meta s)"

section \<open>Waiting\<close>

text \<open>
  The loop waits for the next tick of the backoff manager or the deadline, whichever comes first. The clock
  counts milliseconds. A tick comes at least the initial backoff after the last one; how much later, which
  is up to the manager, the jitter and the time the check itself takes, comes from the environment. The
  remaining time shrinks with every tick, so the loop returns.
\<close>

definition initBackoff :: nat where "initBackoff = 500"

function waitForSnapshotStatus ::
  "('s \<Rightarrow> nat \<times> 's) \<Rightarrow> ('s, bool \<times> goerr option) state \<Rightarrow> goerr \<Rightarrow> nat \<Rightarrow> 's \<Rightarrow> goerr option \<times> 's" where
  "waitForSnapshotStatus tick verifyStatus timedOut remaining s = (case tick s of (extra, s1) \<Rightarrow>
     if remaining < initBackoff + extra then (Some timedOut, s1)
     else (case run_state verifyStatus s1 of
       ((successful, err), s2) \<Rightarrow>
         if err \<noteq> None then (err, s2)
         else if successful then (None, s2)
         else waitForSnapshotStatus tick verifyStatus timedOut (remaining - (initBackoff + extra)) s2))"
  by pat_completeness auto
termination by (relation "measure (\<lambda>(tick, verifyStatus, timedOut, remaining, s). remaining)") (auto simp: initBackoff_def)

declare waitForSnapshotStatus.simps [simp del]

lemma wait_step:
  assumes "tick s = (extra, s1)" "run_state verifyStatus s1 = ((successful, err), s2)"
  shows "waitForSnapshotStatus tick verifyStatus timedOut remaining s =
     (if remaining < initBackoff + extra then (Some timedOut, s1) else if err \<noteq> None then (err, s2)
      else if successful then (None, s2)
      else waitForSnapshotStatus tick verifyStatus timedOut (remaining - (initBackoff + extra)) s2)"
  using assms by (subst waitForSnapshotStatus.simps) simp

text \<open>A round of the loop: it ends, or the remaining time has shrunk.\<close>

lemma wait_round:
  assumes "waitForSnapshotStatus tick verifyStatus timedOut remaining s = (r, t)"
  obtains (late) extra where "tick s = (extra, t)" "r = Some timedOut"
  | (failed) extra s1 b e where "tick s = (extra, s1)" "run_state verifyStatus s1 = ((b, Some e), t)" "r = Some e"
      "initBackoff + extra \<le> remaining"
  | (verified) extra s1 where "tick s = (extra, s1)" "run_state verifyStatus s1 = ((True, None), t)" "r = None"
      "initBackoff + extra \<le> remaining"
  | (again) extra s1 s2 where "tick s = (extra, s1)" "run_state verifyStatus s1 = ((False, None), s2)"
      "initBackoff + extra \<le> remaining"
      "waitForSnapshotStatus tick verifyStatus timedOut (remaining - (initBackoff + extra)) s2 = (r, t)"
proof -
  obtain extra s1 where tk: "tick s = (extra, s1)" by fastforce
  obtain ok err s2 where v: "run_state verifyStatus s1 = ((ok, err), s2)" by (metis prod.collapse)
  have "waitForSnapshotStatus tick verifyStatus timedOut remaining s =
     (if remaining < initBackoff + extra then (Some timedOut, s1) else if err \<noteq> None then (err, s2)
      else if ok then (None, s2)
      else waitForSnapshotStatus tick verifyStatus timedOut (remaining - (initBackoff + extra)) s2)"
    using tk v by (rule wait_step)
  then show thesis
    using assms tk v by (cases "remaining < initBackoff + extra"; cases err; cases ok) (auto intro: late failed verified again)
qed

lemma less_remaining: "initBackoff + extra \<le> remaining \<Longrightarrow> remaining - (initBackoff + extra) < remaining"
  by (auto simp: initBackoff_def)

text \<open>The loop ends well only with a check that succeeds.\<close>

lemma wait_ends_verified:
  assumes "waitForSnapshotStatus tick verifyStatus timedOut remaining s = (None, t)"
  shows "\<exists>s1. run_state verifyStatus s1 = ((True, None), t)"
  using assms
proof (induction remaining arbitrary: s rule: less_induct)
  case (less remaining)
  from less.prems show ?case
    by (cases rule: wait_round) (use less.IH [OF less_remaining] in \<open>auto\<close>)
qed

text \<open>What the loop appends to a log.\<close>

lemma tr_wait:
  assumes "\<And>s. lg (snd (tick s)) = lg s" "tr lg R verifyStatus"
    and "\<And>a l l'. R (False, None) l \<Longrightarrow> T a l' \<Longrightarrow> T a (l @ l')"
    and "T (Some timedOut) []" "\<And>b e l. R (b, Some e) l \<Longrightarrow> T (Some e) l" "\<And>l. R (True, None) l \<Longrightarrow> T None l"
  shows "tr lg T (liftst (waitForSnapshotStatus tick verifyStatus timedOut remaining))"
proof (rule trI)
  fix s r s' assume "run_state (liftst (waitForSnapshotStatus tick verifyStatus timedOut remaining)) s = (r, s')"
  then have "waitForSnapshotStatus tick verifyStatus timedOut remaining s = (r, s')" by simp
  then show "\<exists>l. lg s' = lg s @ l \<and> T r l"
  proof (induction remaining arbitrary: s rule: less_induct)
    case (less remaining)
    have lg1: "lg s1 = lg s" if "tick s = (extra, s1)" for extra s1 using assms(1) [of s] that by simp
    from less.prems show ?case
    proof (cases rule: wait_round)
      case (again extra s1 s2)
      obtain l where l: "lg s2 = lg s @ l" "R (False, None) l" using trD [OF assms(2) again(2)] lg1 [OF again(1)] by auto
      obtain l' where "lg s' = lg s2 @ l'" "T r l'" using less.IH [OF less_remaining [OF again(3)] again(4)] by blast
      then show ?thesis using l assms(3) by auto
    qed (use assms(4-6) trD [OF assms(2)] lg1 in fastforce)+
  qed
qed

text \<open>The number of checks is bounded by the timeout.\<close>

lemma wait_bounded:
  assumes "\<And>s. n (snd (tick s)) = (n s :: nat)" "\<And>s. n (snd (run_state verifyStatus s)) \<le> n s + 1"
    and "waitForSnapshotStatus tick verifyStatus timedOut remaining s = (r, t)"
  shows "n t \<le> n s + remaining div initBackoff"
  using assms(3)
proof (induction remaining arbitrary: s rule: less_induct)
  case (less remaining)
  have n1: "n s1 = n s" if "tick s = (extra, s1)" for extra s1 using assms(1) [of s] that by simp
  have n2: "n s2 \<le> n s + 1" if "tick s = (extra, s1)" "run_state verifyStatus s1 = (a, s2)" for extra s1 a s2
    using assms(2) [of s1] n1 [OF that(1)] that(2) by simp
  have step: "(remaining - (initBackoff + extra)) div initBackoff + 1 \<le> remaining div initBackoff"
    if "initBackoff + extra \<le> remaining" for extra
    using that by (simp add: initBackoff_def)
  from less.prems show ?case
  proof (cases rule: wait_round)
    case (again extra s1 s2)
    have "n t \<le> n s2 + (remaining - (initBackoff + extra)) div initBackoff"
      using less.IH [OF less_remaining [OF again(3)] again(4)] .
    then show ?thesis using n2 [OF again(1,2)] step [OF again(3)] by linarith
  next
    case (late extra)
    then show ?thesis using n1 [OF late(1)] by simp
  next
    case (failed extra s1 b e)
    then show ?thesis using n2 [OF failed(1,2)] step [OF failed(4)] by linarith
  next
    case (verified extra s1)
    then show ?thesis using n2 [OF verified(1,2)] step [OF verified(4)] by linarith
  qed
qed

end
