(* ===== verification/Volume_Backup_Service.thy ===== *)
theory Volume_Backup_Service
  imports Volume_Service VBC_Types Backup_Types Kube_Types Snapshot_Types
begin

text \<open>
  The controller that drives the backup of volumes in the provider's side car,
  \<^verbatim>\<open>providerframework/volumeservice/backup/backupvolume.go\<close>: it starts the backup of a
  \<^verbatim>\<open>VolumeBackupContent\<close> on the driver, polls the driver until the backup ends, and has the
  driver delete the backup when the content is deleted.

  The driver's four calls, the Kubernetes and the CSI snapshot clients are parameters. The clock counts
  nanoseconds. The type of a persistent volume, which the request takes from the content, is not
  represented.
\<close>

section \<open>Requests and environment\<close>

record backup_identity =
  bi_handle :: string
  bi_attributes :: "string \<rightharpoonup> string"

record backup_response_entry =
  be_pvName :: string
  be_handle :: string
  be_attributes :: "string \<rightharpoonup> string"

record start_request =
  sq_content :: string
  sq_pvs :: "pv list"
  sq_info :: "(string \<times> pv) list"
  sq_parameters :: "string \<rightharpoonup> string"

record start_response =
  sr_errors :: "string list"
  sr_info :: "backup_response_entry list"

datatype backup_call =
    StartBackup start_request
  | DeleteBackup string "backup_identity list" "string \<rightharpoonup> string"
  | CancelBackup "backup_identity list" "string \<rightharpoonup> string"
  | GetBackupStat "backup_identity list" "string \<rightharpoonup> string"

text \<open>The status of a CSI snapshot, as far as it is read: both the status and the name of the bound content are
  pointers.\<close>

record 'w vb_env =
  bn_api :: "(VolumeBackupContent, 'w) vol_api"
  bn_provider :: string
  bn_backupGet :: "string \<Rightarrow> 'w \<Rightarrow> goerr + Backup"
  bn_pvGet :: "string \<Rightarrow> 'w \<Rightarrow> goerr + pv"
  bn_pvcGet :: "string \<Rightarrow> string \<Rightarrow> 'w \<Rightarrow> goerr + pvc"
  bn_snapshotGet :: "string \<Rightarrow> 'w \<Rightarrow> goerr + VolumeSnapshotState list"
  bn_csiSnapshotGet :: "string \<Rightarrow> string \<Rightarrow> 'w \<Rightarrow> goerr + string option"
  bn_csiContentGet :: "string \<Rightarrow> 'w \<Rightarrow> goerr + string"
  bn_start :: "backup_call \<Rightarrow> 'w \<Rightarrow> (goerr + start_response) \<times> 'w"
  bn_delete :: "backup_call \<Rightarrow> 'w \<Rightarrow> goerr option \<times> 'w"
  bn_cancel :: "backup_call \<Rightarrow> 'w \<Rightarrow> goerr option \<times> 'w"
  bn_stat :: "backup_call \<Rightarrow> 'w \<Rightarrow> (goerr + (string \<times> int) list) \<times> 'w"

type_synonym 'w vb_svc = "(VolumeBackupContent, backup_call, 'w) vsvc"

definition volumeBackupFinalizer :: string where "volumeBackupFinalizer = ''kahu.io/volume-backup-protection''"

definition defaultBackupProgressTimeout :: int where "defaultBackupProgressTimeout = 30 * 60 * 10 ^ 9"

definition vbs_EventVolumeBackupFailed :: string where "vbs_EventVolumeBackupFailed = ''VolumeBackupFailed''"
definition EventVolumeBackupStarted :: string where "EventVolumeBackupStarted = ''VolumeBackupStarted''"
definition EventVolumeBackupCompleted :: string where "EventVolumeBackupCompleted = ''VolumeBackupCompleted''"
definition EventVolumeBackupDeleteFailed :: string where "EventVolumeBackupDeleteFailed = ''VolumeBackupDeleteFailed''"
definition EventVolumeBackupCancelFailed :: string where "EventVolumeBackupCancelFailed = ''VolumeBackupCancelFailed''"
definition EventOwnerNotDeleted :: string where "EventOwnerNotDeleted = ''OwnerNotDeleted''"
definition Backup_kind :: string where "Backup_kind = ''Backup''"

definition vbc_kind :: "VolumeBackupContent vkind" where
  "vbc_kind = \<lparr>vk_class = ''VolumeBackupContent'', vk_meta = vb_meta\<rparr>"

section \<open>Updates\<close>

definition vbs_patchBackup ::
  "'w vb_env \<Rightarrow> VolumeBackupContent \<Rightarrow> VolumeBackupContent \<Rightarrow> ('w vb_svc, VolumeBackupContent option \<times> goerr option) state" where
  "vbs_patchBackup env = vpatch vbc_kind (bn_api env) ''backup'' ''VBC'' []"

definition patchBackupStatus ::
  "'w vb_env \<Rightarrow> VolumeBackupContent \<Rightarrow> VolumeBackupContent \<Rightarrow> ('w vb_svc, VolumeBackupContent option \<times> goerr option) state" where
  "patchBackupStatus env = vpatch vbc_kind (bn_api env) ''backup'' ''VBC'' [''status'']"

definition vbs_updateStatus ::
  "'w vb_env \<Rightarrow> VolumeBackupContent \<Rightarrow> VolumeBackupContent \<Rightarrow> ('w vb_svc, VolumeBackupContent option \<times> goerr option) state" where
  "vbs_updateStatus env backup newBackup = patchBackupStatus env backup newBackup"

definition vbs_updateStatusWithEvent ::
  "'w vb_env \<Rightarrow> VolumeBackupContent \<Rightarrow> VolumeBackupContent \<Rightarrow> string \<Rightarrow> string \<Rightarrow>
   ('w vb_svc, VolumeBackupContent option \<times> goerr option) state" where
  "vbs_updateStatusWithEvent env backup newBackup reason message = do {
     (b, err) \<leftarrow> vbs_updateStatus env backup newBackup;
     if err \<noteq> None then State_Monad.return (b, err)
     else do { vemit (VeRecord reason message); State_Monad.return (b, None) } }"

definition vbs_updateStatusWithFailure ::
  "'w vb_env \<Rightarrow> VolumeBackupContent \<Rightarrow> string \<Rightarrow> ('w vb_svc, VolumeBackupContent option \<times> goerr option) state" where
  "vbs_updateStatusWithFailure env backup msg = do {
     (b, err) \<leftarrow> patchBackupStatus env backup (backup\<lparr>vb_phase := VBCPhaseFailed, vb_failureReason := msg\<rparr>);
     if err \<noteq> None then State_Monad.return (b, err)
     else do { vemit (VeRecord vbs_EventVolumeBackupFailed msg); State_Monad.return (b, None) } }"

definition vbs_updatePhase ::
  "'w vb_env \<Rightarrow> VolumeBackupContent \<Rightarrow> VolumeBackupContentPhase \<Rightarrow> ('w vb_svc, VolumeBackupContent option \<times> goerr option) state" where
  "vbs_updatePhase env backup phase = patchBackupStatus env backup (backup\<lparr>vb_phase := phase\<rparr>)"

definition vbs_updatePhaseWithEvent ::
  "'w vb_env \<Rightarrow> VolumeBackupContent \<Rightarrow> VolumeBackupContentPhase \<Rightarrow> string \<Rightarrow> string \<Rightarrow>
   ('w vb_svc, VolumeBackupContent option \<times> goerr option) state" where
  "vbs_updatePhaseWithEvent env backup phase reason message = do {
     (b, err) \<leftarrow> vbs_updatePhase env backup phase;
     if err \<noteq> None then State_Monad.return (b, err)
     else do { vemit (VeRecord reason message); State_Monad.return (b, None) } }"

definition with_backup_finalizer :: "VolumeBackupContent \<Rightarrow> VolumeBackupContent" where
  "with_backup_finalizer b = b\<lparr>vb_meta := the (SetFinalizer (Some (vb_meta b)) volumeBackupFinalizer)\<rparr>"

definition ensureFinalizer ::
  "'w vb_env \<Rightarrow> VolumeBackupContent \<Rightarrow> ('w vb_svc, VolumeBackupContent option \<times> goerr option) state" where
  "ensureFinalizer env volBackup =
     (if \<not> ContainsFinalizer (Some (vb_meta volBackup)) volumeBackupFinalizer
      then vbs_patchBackup env volBackup (with_backup_finalizer volBackup)
      else State_Monad.return (Some volBackup, None))"

definition without_backup_finalizer :: "VolumeBackupContent \<Rightarrow> VolumeBackupContent" where
  "without_backup_finalizer b = b\<lparr>vb_meta := the (RemoveFinalizer (Some (vb_meta b)) volumeBackupFinalizer)\<rparr>"

definition ensureFinalizerRemove :: "'w vb_env \<Rightarrow> VolumeBackupContent \<Rightarrow> ('w vb_svc, goerr option) state" where
  "ensureFinalizerRemove env volBackup =
     (if ContainsFinalizer (Some (vb_meta volBackup)) volumeBackupFinalizer then do {
        (_, err) \<leftarrow> vbs_patchBackup env volBackup (without_backup_finalizer volBackup);
        State_Monad.return err }
      else State_Monad.return None)"

definition ensureVolBackupInit ::
  "'w vb_env \<Rightarrow> VolumeBackupContent \<Rightarrow> ('w vb_svc, VolumeBackupContent option \<times> goerr option) state" where
  "ensureVolBackupInit env volBackup = do {
     now \<leftarrow> vask (va_Now (bn_api env));
     let clone1 = (if vb_phase volBackup = VBCPhaseNone then volBackup\<lparr>vb_phase := VBCPhaseInit\<rparr> else volBackup);
     let clone = (if vb_startTimestamp volBackup = None then clone1\<lparr>vb_startTimestamp := Some now\<rparr> else clone1);
     if vb_phase volBackup = VBCPhaseNone \<or> vb_startTimestamp volBackup = None
     then patchBackupStatus env volBackup clone
     else State_Monad.return (Some volBackup, None) }"

section \<open>Start of a backup\<close>

definition checkVolumeBackupDriver :: "VolumeBackupContent \<Rightarrow> string \<times> bool" where
  "checkVolumeBackupDriver volBackup = (case vb_backupProvider volBackup of None \<Rightarrow> ([], False) | Some p \<Rightarrow> (p, True))"

definition validateBackupResponse :: "string set \<Rightarrow> backup_response_entry list \<Rightarrow> goerr option" where
  "validateBackupResponse volNames ids =
     (if card volNames \<noteq> length ids then Some (errorf ''driver do not return all volume backup handler'')
      else let backupVols = set (map be_pvName ids) in
        if \<not> backupVols \<subseteq> volNames
        then Some (errorf (''driver do not return volume '' @ strings_Join '', '' (sets_List (volNames - backupVols))))
        else None)"

text \<open>Getting the volumes one by one; an error stops. The names are those of the volumes that came back.\<close>

fun getPersistentVols :: "'w vb_env \<Rightarrow> string list \<Rightarrow> 'w \<Rightarrow> goerr + pv list \<times> string set" where
  "getPersistentVols env [] w = Inr ([], {})"
| "getPersistentVols env (v # vs) w = (case bn_pvGet env v w of
     Inl err \<Rightarrow> if IsNotFound (Some err) then Inl (errorf (''request PV ('' @ v @ '') backup not found'')) else Inl err
   | Inr p \<Rightarrow> (case getPersistentVols env vs w of
       Inl err \<Rightarrow> Inl err
     | Inr (volumes, volNames) \<Rightarrow> Inr (p # volumes, insert (meta_name (pv_meta p)) volNames)))"

text \<open>The handle sent for a snapshot is the name of its content. A snapshot that is not bound yet is a nil
  dereference.\<close>

definition getSnapshotBySnapshotState :: "'w vb_env \<Rightarrow> VolumeSnapshotState \<Rightarrow> 'w \<Rightarrow> (goerr + string) outcome" where
  "getSnapshotBySnapshotState env st w = (case sst_csi st of
     None \<Rightarrow> Ret (Inl (errorf ''csi Snapshot info not populated''))
   | Some ref \<Rightarrow> (case bn_csiSnapshotGet env (rf_namespace ref) (rf_name ref) w of
       Inl err \<Rightarrow> Ret (Inl err)
     | Inr None \<Rightarrow> Panic
     | Inr (Some content) \<Rightarrow> Ret (bn_csiContentGet env content w)))"

definition getPVBySnapshotState :: "'w vb_env \<Rightarrow> VolumeSnapshotState \<Rightarrow> 'w \<Rightarrow> goerr + pv" where
  "getPVBySnapshotState env st w = (case bn_pvcGet env (rf_namespace (sst_pvc st)) (rf_name (sst_pvc st)) w of
     Inl err \<Rightarrow> Inl err | Inr p \<Rightarrow> bn_pvGet env (pvc_volumeName p) w)"

fun snapshot_infos :: "'w vb_env \<Rightarrow> VolumeSnapshotState list \<Rightarrow> 'w \<Rightarrow> (goerr + (string \<times> pv) list \<times> string set) outcome" where
  "snapshot_infos env [] w = Ret (Inr ([], {}))"
| "snapshot_infos env (st # sts) w = (case getSnapshotBySnapshotState env st w of
     Panic \<Rightarrow> Panic
   | Ret (Inl err) \<Rightarrow> Ret (Inl err)
   | Ret (Inr handle) \<Rightarrow> (case getPVBySnapshotState env st w of
       Inl err \<Rightarrow> Ret (Inl err)
     | Inr p \<Rightarrow> (case snapshot_infos env sts w of
         Panic \<Rightarrow> Panic
       | Ret (Inl err) \<Rightarrow> Ret (Inl err)
       | Ret (Inr (infos, volNames)) \<Rightarrow> Ret (Inr ((handle, p) # infos, insert (meta_name (pv_meta p)) volNames)))))"

definition getVolBackupReqByRef ::
  "'w vb_env \<Rightarrow> VolumeBackupContent \<Rightarrow> string \<Rightarrow> 'w \<Rightarrow> (goerr + start_request \<times> string set) outcome" where
  "getVolBackupReqByRef env volBackup ref w = (case bn_snapshotGet env ref w of
     Inl err \<Rightarrow> Ret (Inl err)
   | Inr sts \<Rightarrow> (case snapshot_infos env sts w of
       Panic \<Rightarrow> Panic
     | Ret (Inl err) \<Rightarrow> Ret (Inl err)
     | Ret (Inr (infos, volNames)) \<Rightarrow> Ret (Inr (\<lparr>sq_content = vb_name volBackup, sq_pvs = [], sq_info = infos,
          sq_parameters = vb_parameters volBackup\<rparr>, volNames))))"

definition constructBackupRequest ::
  "'w vb_env \<Rightarrow> VolumeBackupContent \<Rightarrow> 'w \<Rightarrow> (goerr + start_request \<times> string set) outcome" where
  "constructBackupRequest env volBackup w = (case vb_sourceRef volBackup of
     Some ref \<Rightarrow> getVolBackupReqByRef env volBackup ref w
   | None \<Rightarrow> Ret (case getPersistentVols env (vb_volumes volBackup) w of
       Inl err \<Rightarrow> Inl err
     | Inr (volumes, volNames) \<Rightarrow> Inr (\<lparr>sq_content = vb_name volBackup, sq_pvs = volumes, sq_info = [],
          sq_parameters = vb_parameters volBackup\<rparr>, volNames)))"

definition started_states :: "int \<Rightarrow> backup_response_entry list \<Rightarrow> VolumeBackupState list" where
  "started_states now ids = map (\<lambda>i. \<lparr>vs_volumeName = be_pvName i, vs_backupHandle = be_handle i,
     vs_attributes = be_attributes i, vs_progress = 0, vs_lastProgressUpdate = now\<rparr>) ids"

definition handleVolumeBackup ::
  "'w vb_env \<Rightarrow> VolumeBackupContent \<Rightarrow> ('w vb_svc, (VolumeBackupContent \<times> goerr option) outcome) state" where
  "handleVolumeBackup env volBackup = do {
     req \<leftarrow> vask (constructBackupRequest env volBackup);
     (case req of
        Panic \<Rightarrow> State_Monad.return Panic
      | Ret (Inl err) \<Rightarrow> State_Monad.return (Ret (volBackup, Some err))
      | Ret (Inr (backupReq, volNames)) \<Rightarrow> do {
          response \<leftarrow> vcall (bn_start env (StartBackup backupReq)) (\<lambda>r. [VeDriver (StartBackup backupReq) (\<not> isl r)]);
          (case response of
             Inl err \<Rightarrow> State_Monad.return (Ret (volBackup, Some err))
           | Inr resp \<Rightarrow>
               if 0 < length (sr_errors resp) then State_Monad.return (Ret (volBackup,
                  Some (errorf (''Unable to start backup. err: ('' @ strings_Join '' ,'' (sr_errors resp) @ '')''))))
               else (case validateBackupResponse volNames (sr_info resp) of
                   Some err \<Rightarrow> State_Monad.return (Ret (volBackup, Some err))
                 | None \<Rightarrow> do {
                     now \<leftarrow> vask (va_Now (bn_api env));
                     State_Monad.return (Ret (volBackup\<lparr>vb_phase := VBCPhaseInProgress,
                        vb_states := started_states (now div 10 ^ 9) (sr_info resp)\<rparr>, None)) })) }) }"

text \<open>The result of \<^verbatim>\<open>Run\<close> is dropped either way.\<close>

definition vbs_start_progress :: "VolumeBackupContent \<Rightarrow> ('w vb_svc, goerr option) state" where
  "vbs_start_progress backup = do { _ \<leftarrow> vrun_operation (vb_name backup); State_Monad.return None }"

definition vbs_processVolumeBackup :: "'w vb_env \<Rightarrow> VolumeBackupContent \<Rightarrow> ('w vb_svc, goerr option outcome) state" where
  "vbs_processVolumeBackup env backup = (case vb_phase backup of
     VBCPhaseInProgress \<Rightarrow> do { e \<leftarrow> vbs_start_progress backup; State_Monad.return (Ret e) }
   | _ \<Rightarrow> if vb_phase backup \<noteq> VBCPhaseNone \<and> vb_phase backup \<noteq> VBCPhaseInit then State_Monad.return (Ret None)
       else do {
         h \<leftarrow> handleVolumeBackup env backup;
         (case h of
            Panic \<Rightarrow> State_Monad.return Panic
          | Ret (newBackup, Some e) \<Rightarrow> if CheckServerUnavailable e then State_Monad.return (Ret None)
              else do {
                (_, err2) \<leftarrow> vbs_updateStatusWithFailure env newBackup (err_msg e);
                State_Monad.return (Ret err2) }
          | Ret (newBackup, None) \<Rightarrow> do {
              (_, err2) \<leftarrow> vbs_updateStatusWithEvent env backup newBackup EventVolumeBackupStarted ''Started volume backup'';
              if err2 \<noteq> None then State_Monad.return (Ret err2)
              else do { e \<leftarrow> vbs_start_progress backup; State_Monad.return (Ret e) } }) })"

section \<open>Removal\<close>

definition isValidDeleteWithBackup ::
  "'w vb_env \<Rightarrow> owner_ref \<Rightarrow> ('w vb_svc, bool \<times> goerr option) state" where
  "isValidDeleteWithBackup env owner = do {
     got \<leftarrow> vask (bn_backupGet env (owner_name owner));
     (case got of
        Inl err \<Rightarrow> State_Monad.return (if IsNotFound (Some err) then (True, None) else (False, Some err))
      | Inr backup \<Rightarrow>
          if meta_uid (bk_meta backup) \<noteq> owner_uid owner then State_Monad.return (True, None)
          else if meta_deletionTimestamp (bk_meta backup) = None then do {
            vemit (VeRecord EventOwnerNotDeleted ''Owner backup not deleted'');
            State_Monad.return (False, None) }
          else State_Monad.return (True, None)) }"

fun isValidDelete_refs :: "'w vb_env \<Rightarrow> owner_ref list \<Rightarrow> ('w vb_svc, bool \<times> goerr option) state" where
  "isValidDelete_refs env [] = State_Monad.return (True, None)"
| "isValidDelete_refs env (owner # owners) =
     (if owner_kind owner = Backup_kind then do {
        (valid, err) \<leftarrow> isValidDeleteWithBackup env owner;
        if err \<noteq> None then State_Monad.return (False, err)
        else if \<not> valid then State_Monad.return (False, None)
        else isValidDelete_refs env owners }
      else isValidDelete_refs env owners)"

definition isValidDelete :: "'w vb_env \<Rightarrow> VolumeBackupContent \<Rightarrow> ('w vb_svc, bool \<times> goerr option) state" where
  "isValidDelete env volBackup = isValidDelete_refs env
     (case meta_ownerReferences (vb_meta volBackup) of None \<Rightarrow> [] | Some owners \<Rightarrow> owners)"

definition getVolIdentifiers :: "VolumeBackupContent \<Rightarrow> backup_identity list" where
  "getVolIdentifiers volBackup = map (\<lambda>st. \<lparr>bi_handle = vs_backupHandle st, bi_attributes = vs_attributes st\<rparr>) (vb_states volBackup)"

definition cancelVolBackup :: "'w vb_env \<Rightarrow> backup_identity list \<Rightarrow> (string \<rightharpoonup> string) \<Rightarrow> ('w vb_svc, goerr option) state" where
  "cancelVolBackup env ids params = do {
     err \<leftarrow> vcall (bn_cancel env (CancelBackup ids params)) (\<lambda>e. [VeDriver (CancelBackup ids params) (e = None)]);
     (case err of
        None \<Rightarrow> State_Monad.return None
      | Some e \<Rightarrow> if CheckServerUnavailable e then State_Monad.return (Some e)
          else do {
            vemit (VeRecord EventVolumeBackupCancelFailed (''Unable to Cancel backup. '' @ err_msg e));
            State_Monad.return (Some e) }) }"

definition delete_request :: "VolumeBackupContent \<Rightarrow> backup_call" where
  "delete_request volBackup = DeleteBackup (vb_name volBackup) (getVolIdentifiers volBackup) (vb_parameters volBackup)"

definition delete_on_driver :: "'w vb_env \<Rightarrow> VolumeBackupContent \<Rightarrow> ('w vb_svc, goerr option) state" where
  "delete_on_driver env volBackup = do {
     err \<leftarrow> vcall (bn_delete env (delete_request volBackup)) (\<lambda>e. [VeDriver (delete_request volBackup) (e = None)]);
     (case err of
        Some e \<Rightarrow> if CheckServerUnavailable e then State_Monad.return None
          else do {
            vemit (VeRecord EventVolumeBackupDeleteFailed (''Unable to delete backup. '' @ err_msg e));
            State_Monad.return (Some e) }
      | None \<Rightarrow> do {
          ferr \<leftarrow> ensureFinalizerRemove env volBackup;
          if ferr \<noteq> None then State_Monad.return ferr
          else do { _ \<leftarrow> vcache_clean vbc_kind (bn_api env) volBackup; State_Monad.return None } }) }"

definition processDeleteVolumeBackup :: "'w vb_env \<Rightarrow> VolumeBackupContent \<Rightarrow> ('w vb_svc, goerr option) state" where
  "processDeleteVolumeBackup env volBackup = do {
     (valid, err) \<leftarrow> isValidDelete env volBackup;
     if err \<noteq> None then State_Monad.return err
     else if \<not> valid then State_Monad.return None
     else do {
       (r, err2) \<leftarrow> vbs_updatePhase env volBackup VBCPhaseDeleting;
       (case (r, err2) of
          (Some deleting, None) \<Rightarrow>
            if vb_phase deleting = VBCPhaseInProgress then do {
              cerr \<leftarrow> cancelVolBackup env (getVolIdentifiers deleting) (vb_parameters deleting);
              if cerr \<noteq> None then State_Monad.return cerr else delete_on_driver env deleting }
            else delete_on_driver env deleting
        | _ \<Rightarrow> State_Monad.return (if IsNotFound err2 then None else err2)) } }"

section \<open>The queue handler\<close>

definition getVolumeBackup :: "'w vb_env \<Rightarrow> string \<Rightarrow> 'w \<Rightarrow> goerr + VolumeBackupContent" where
  "getVolumeBackup env index w = (case va_splitKey (bn_api env) index of
     Inl err \<Rightarrow> Inl err | Inr name \<Rightarrow> va_Get (bn_api env) name w)"

text \<open>The part of the handler for a content that has its start time and finalizer.\<close>

definition process_assigned :: "'w vb_env \<Rightarrow> VolumeBackupContent \<Rightarrow> ('w vb_svc, goerr option outcome) state" where
  "process_assigned env volBackup = (case checkVolumeBackupDriver volBackup of (driver, ok) \<Rightarrow>
     if \<not> ok then State_Monad.return (Ret None)
     else if driver \<noteq> bn_provider env then State_Monad.return (Ret None)
     else vbs_processVolumeBackup env volBackup)"

definition vbs_processQueue :: "'w vb_env \<Rightarrow> string \<Rightarrow> ('w vb_svc, goerr option outcome) state" where
  "vbs_processQueue env index = do {
     got \<leftarrow> vask (getVolumeBackup env index);
     (case got of
        Inl err \<Rightarrow> State_Monad.return (Ret (if IsNotFound (Some err) then None
          else Some (errorf (''error getting volume backup content '' @ index @ '' from informer''))))
      | Inr volBackup \<Rightarrow> do {
          (newObj, _) \<leftarrow> vcache_update vbc_kind (bn_api env) volBackup;
          if \<not> newObj then State_Monad.return (Ret None)
          else if meta_deletionTimestamp (vb_meta volBackup) \<noteq> None then do {
            e \<leftarrow> processDeleteVolumeBackup env volBackup;
            State_Monad.return (Ret e) }
          else do {
            (r1, err1) \<leftarrow> ensureVolBackupInit env volBackup;
            (case (r1, err1) of
               (Some initialized, None) \<Rightarrow> do {
                 (r2, err2) \<leftarrow> ensureFinalizer env initialized;
                 (case (r2, err2) of
                    (Some protected, None) \<Rightarrow> process_assigned env protected
                  | _ \<Rightarrow> State_Monad.return (Ret err2)) }
             | _ \<Rightarrow> State_Monad.return (Ret err1)) } }) }"

fun vbs_enqueue_all :: "VolumeBackupContent list \<Rightarrow> ('w vb_svc, unit) state" where
  "vbs_enqueue_all [] = State_Monad.return ()"
| "vbs_enqueue_all (b # bs) =
     (if vb_phase b = VBCPhaseFailed \<or> vb_phase b = VBCPhaseCompleted then vbs_enqueue_all bs
      else do { vemit (VeEnqueue (vb_name b)); vbs_enqueue_all bs })"

definition vbs_reSync :: "'w vb_env \<Rightarrow> ('w vb_svc, unit) state" where
  "vbs_reSync env = do {
     got \<leftarrow> vask (va_List (bn_api env));
     (case got of Inl _ \<Rightarrow> State_Monad.return () | Inr bs \<Rightarrow> vbs_enqueue_all bs) }"

section \<open>Progress\<close>

definition skipBackupProgressProcessing :: "VolumeBackupContent \<Rightarrow> bool" where
  "skipBackupProgressProcessing b \<longleftrightarrow>
     (if meta_deletionTimestamp (vb_meta b) \<noteq> None then True else vb_phase b \<noteq> VBCPhaseInProgress)"

definition advance_backup :: "int \<Rightarrow> string \<times> int \<Rightarrow> VolumeBackupState \<Rightarrow> VolumeBackupState" where
  "advance_backup now stat st = (if vs_backupHandle st = fst stat \<and> snd stat > vs_progress st
     then st\<lparr>vs_lastProgressUpdate := now, vs_progress := snd stat\<rparr> else st)"

definition apply_backup_stats :: "int \<Rightarrow> (string \<times> int) list \<Rightarrow> VolumeBackupState list \<Rightarrow> VolumeBackupState list" where
  "apply_backup_stats now stats sts = fold (\<lambda>stat. map (advance_backup now stat)) stats sts"

fun backup_states_done :: "VolumeBackupState list \<Rightarrow> bool" where
  "backup_states_done [] = True"
| "backup_states_done (st # sts) = (if vs_progress st < 100 then False else backup_states_done sts)"

definition backup_timeout :: "int \<Rightarrow> VolumeBackupState list \<Rightarrow> bool" where
  "backup_timeout now sts = fold (\<lambda>st t. if now - vs_lastProgressUpdate st * 10 ^ 9 < defaultBackupProgressTimeout
     then False else t) sts True"

definition backup_timeout_reason :: string where
  "backup_timeout_reason = ''Volume backup timout. No progress update for max wait duration 30m0s''"

definition sync_backup_states :: "int \<Rightarrow> (string \<times> int) list \<Rightarrow> VolumeBackupContent \<Rightarrow> VolumeBackupContent \<times> bool" where
  "sync_backup_states now stats b = (let sts = apply_backup_stats (now div 10 ^ 9) stats (vb_states b); b1 = b\<lparr>vb_states := sts\<rparr> in
     (if backup_timeout now sts then b1\<lparr>vb_failureReason := backup_timeout_reason, vb_phase := VBCPhaseFailed\<rparr> else b1,
      backup_states_done sts))"

definition backup_stat_request :: "VolumeBackupContent \<Rightarrow> backup_call" where
  "backup_stat_request b = GetBackupStat (getVolIdentifiers b) (vb_parameters b)"

definition syncBackupStat ::
  "'w vb_env \<Rightarrow> VolumeBackupContent \<Rightarrow> ('w vb_svc, VolumeBackupContent \<times> bool \<times> goerr option) state" where
  "syncBackupStat env b = do {
     stats \<leftarrow> vcall (bn_stat env (backup_stat_request b)) (\<lambda>x. [VeDriver (backup_stat_request b) (\<not> isl x)]);
     (case stats of
        Inl err \<Rightarrow> State_Monad.return (b, False, Some err)
      | Inr sts \<Rightarrow> do {
          now \<leftarrow> vask (va_Now (bn_api env));
          State_Monad.return (case sync_backup_states now sts b of (b1, completed) \<Rightarrow> (b1, completed, None)) }) }"

definition processBackupProgress :: "'w vb_env \<Rightarrow> string \<Rightarrow> ('w vb_svc, bool \<times> goerr option) state" where
  "processBackupProgress env index = do {
     got \<leftarrow> vask (getVolumeBackup env index);
     (case got of
        Inl err \<Rightarrow> State_Monad.return (IsNotFound (Some err), None)
      | Inr volBackup \<Rightarrow>
          if skipBackupProgressProcessing volBackup then State_Monad.return (True, None)
          else do {
            (synced, completed, err) \<leftarrow> syncBackupStat env volBackup;
            (case err of
               Some e \<Rightarrow> State_Monad.return (False, if CheckServerUnavailable e then None else Some e)
             | None \<Rightarrow> do {
                 (_, err2) \<leftarrow> vbs_updateStatus env volBackup
                   (if completed then synced\<lparr>vb_phase := VBCPhaseCompleted\<rparr> else synced);
                 if err2 \<noteq> None then State_Monad.return (False, None)
                 else if completed then do {
                   vemit (VeRecord EventVolumeBackupCompleted ''Completed volume backup'');
                   State_Monad.return (True, None) }
                 else State_Monad.return (False, None) }) }) }"

definition handleBackupProgressFailure :: "'w vb_env \<Rightarrow> string \<Rightarrow> goerr \<Rightarrow> ('w vb_svc, unit) state" where
  "handleBackupProgressFailure env index progressErr = do {
     got \<leftarrow> vask (getVolumeBackup env index);
     (case got of
        Inl _ \<Rightarrow> State_Monad.return ()
      | Inr volBackup \<Rightarrow>
          if skipBackupProgressProcessing volBackup then State_Monad.return ()
          else do { _ \<leftarrow> vbs_updateStatusWithFailure env volBackup (err_msg progressErr); State_Monad.return () }) }"

definition handleBackupProgressSuccess :: "'w vb_env \<Rightarrow> string \<Rightarrow> ('w vb_svc, unit) state" where
  "handleBackupProgressSuccess env index = do {
     got \<leftarrow> vask (getVolumeBackup env index);
     (case got of
        Inl _ \<Rightarrow> State_Monad.return ()
      | Inr volBackup \<Rightarrow>
          if skipBackupProgressProcessing volBackup then State_Monad.return ()
          else do { _ \<leftarrow> vbs_updatePhase env volBackup VBCPhaseCompleted; State_Monad.return () }) }"

definition backup_handler :: "'w vb_env \<Rightarrow> 'w vb_svc handler" where
  "backup_handler env = \<lparr>
     h_Operation = (\<lambda>index s. run_state (processBackupProgress env index) s),
     h_OnFailure = Some (\<lambda>index err s. snd (run_state (handleBackupProgressFailure env index err) s)),
     h_OnSuccess = Some (\<lambda>index s. snd (run_state (handleBackupProgressSuccess env index) s))\<rparr>"

end
