(* ===== verification/Volume_Backup_Safety.thy ===== *)
theory Volume_Backup_Safety
  imports Volume_Backup_Service
begin

text \<open>
  Guarantees of the volume backup controller: its poll implements the contract of \<open>Volume_Service\<close>, the
  answer of the driver to a start is checked, and the finalizer only goes after the driver has deleted the
  backup of a content whose owner is being deleted.
\<close>

section \<open>The poll refines its contract\<close>

interpretation backup_table: progress_table vs_backupHandle vs_progress vs_lastProgressUpdate advance_backup
  by unfold_locales (auto simp: advance_backup_def)

fun abs_backup_phase :: "VolumeBackupContentPhase \<Rightarrow> content_phase" where
  "abs_backup_phase VBCPhaseNone = Starting" | "abs_backup_phase VBCPhaseInit = Starting"
| "abs_backup_phase VBCPhaseInProgress = Running" | "abs_backup_phase VBCPhaseCompleted = Finished"
| "abs_backup_phase VBCPhaseFailed = Broken" | "abs_backup_phase VBCPhaseDeleting = Removing"
| "abs_backup_phase (VBCPhaseOther _) = Undefined"

definition abs_backup_entry :: "VolumeBackupState \<Rightarrow> entry" where
  "abs_backup_entry st = (vs_backupHandle st, vs_progress st, vs_lastProgressUpdate st)"

definition abs_backup :: "VolumeBackupContent \<Rightarrow> content_phase \<times> entry list" where
  "abs_backup b = (abs_backup_phase (vb_phase b), map abs_backup_entry (vb_states b))"

lemma abs_backup_stats:
  "map abs_backup_entry (apply_backup_stats sec stats sts) = map (report sec stats) (map abs_backup_entry sts)"
  by (simp add: apply_backup_stats_def fold_map_swap abs_backup_entry_def backup_table.steps_report)

lemma backup_states_done_iff: "backup_states_done sts \<longleftrightarrow> finished (map abs_backup_entry sts)"
  by (induction sts) (auto simp: finished_def abs_backup_entry_def)

lemma backup_timeout_iff: "backup_timeout now sts \<longleftrightarrow> stalled now (map abs_backup_entry sts)"
  by (auto simp: backup_timeout_def fold_keep stalled_def abs_backup_entry_def defaultBackupProgressTimeout_def
      list_all_iff not_less)

definition polled_backup :: "int \<Rightarrow> (string \<times> int) list \<Rightarrow> VolumeBackupContent \<Rightarrow> VolumeBackupContent" where
  "polled_backup now stats b = (case sync_backup_states now stats b of (b1, completed) \<Rightarrow>
     if completed then b1\<lparr>vb_phase := VBCPhaseCompleted\<rparr> else b1)"

lemma polled_backup_refines:
  "vb_phase b = VBCPhaseInProgress \<Longrightarrow> abs_backup (polled_backup now stats b) = poll_spec now stats (map abs_backup_entry (vb_states b))"
  unfolding poll_spec_def abs_backup_stats [symmetric]
  by (simp add: polled_backup_def sync_backup_states_def abs_backup_def backup_states_done_iff backup_timeout_iff Let_def)

text \<open>C13: a poll of a running volume backup implements the contract of the progress table, like that of a
  restore, and unlike it goes on when the status is refused.\<close>

theorem backup_poll_refines:
  assumes "getVolumeBackup env index (vo_world s) = Inr b" "\<not> skipBackupProgressProcessing b"
    and "bn_stat env (backup_stat_request b) (vo_world s) = (Inr stats, w)"
    and "run_state (processBackupProgress env index) s = (res, s')"
  shows "\<exists>new l. abs_backup new = poll_spec (va_Now (bn_api env) w) stats (snd (abs_backup b)) \<and>
      vb_meta new = vb_meta b \<and> vo_log s' = vo_log s @ VeDriver (backup_stat_request b) True # l \<and>
      (res = (False, None) \<and> (l = [] \<or> l = [VePatchStatus b new False] \<or> l = [VePatchStatus b new True]) \<or>
       res = (True, None) \<and> vb_phase new = VBCPhaseCompleted \<and>
         l = [VePatchStatus b new True, VeRecord EventVolumeBackupCompleted ''Completed volume backup''])"
proof -
  let ?new = "polled_backup (va_Now (bn_api env) w) stats b"
  let ?s1 = "s\<lparr>vo_world := w, vo_log := vo_log s @ [VeDriver (backup_stat_request b) True]\<rparr>"
  obtain x e s2 where p: "run_state (patchBackupStatus env b ?new) ?s1 = ((x, e), s2)" by (metis prod.collapse)
  obtain l where l: "vo_log s2 = vo_log ?s1 @ l" "answer [''status''] b ?new (x, e) l"
    using trD [OF answer_patch, of vbc_kind "bn_api env" "''backup''" "''VBC''" "[''status'']"] p
    unfolding patchBackupStatus_def by blast
  have run: "(res, s') = (if e \<noteq> None then ((False, None), s2)
      else if snd (sync_backup_states (va_Now (bn_api env) w) stats b)
      then ((True, None), s2\<lparr>vo_log := vo_log s2 @ [VeRecord EventVolumeBackupCompleted ''Completed volume backup'']\<rparr>)
      else ((False, None), s2))"
    using assms p
    by (auto simp: processBackupProgress_def syncBackupStat_def vbs_updateStatus_def polled_backup_def split: prod.splits if_splits)
  have "abs_backup ?new = poll_spec (va_Now (bn_api env) w) stats (snd (abs_backup b))"
    using polled_backup_refines [of b "va_Now (bn_api env) w" stats] assms(2)
    by (simp add: abs_backup_def [of b] skipBackupProgressProcessing_def split: if_splits)
  moreover have "vb_meta ?new = vb_meta b"
    by (simp add: polled_backup_def sync_backup_states_def Let_def split: prod.splits)
  moreover have "snd (sync_backup_states (va_Now (bn_api env) w) stats b) \<Longrightarrow> vb_phase ?new = VBCPhaseCompleted"
    by (cases "sync_backup_states (va_Now (bn_api env) w) stats b") (simp add: polled_backup_def)
  ultimately show ?thesis
    using run l by (intro exI [of _ ?new]) (auto simp: answer_def patched_def split: if_splits)
qed

section \<open>Checking the answer of the driver\<close>

text \<open>For an answer that names no volume twice, the check accepts exactly the answers that cover the
  requested volumes and nothing else.\<close>

theorem validateBackupResponse_exact:
  assumes "finite volNames" "distinct (map be_pvName ids)"
  shows "validateBackupResponse volNames ids = None \<longleftrightarrow> set (map be_pvName ids) = volNames"
proof -
  have card: "card (set (map be_pvName ids)) = length ids" using distinct_card [OF assms(2)] by simp
  show ?thesis
    using card_subset_eq [OF assms(1), of "set (map be_pvName ids)"] card
    by (auto simp: validateBackupResponse_def Let_def)
qed

theorem validateBackupResponse_exact_witness:
  "validateBackupResponse {''a'', ''b''} [\<lparr>be_pvName = ''b'', be_handle = ''x'', be_attributes = Map.empty\<rparr>,
     \<lparr>be_pvName = ''a'', be_handle = ''y'', be_attributes = Map.empty\<rparr>] = None"
  by (subst validateBackupResponse_exact) auto

text \<open>An answer that repeats a volume passes although another volume is missing.\<close>

lemma repeated_volume_accepted:
  "validateBackupResponse {''a'', ''b''} [\<lparr>be_pvName = ''a'', be_handle = ''x'', be_attributes = Map.empty\<rparr>,
     \<lparr>be_pvName = ''a'', be_handle = ''y'', be_attributes = Map.empty\<rparr>] = None"
  by (simp add: validateBackupResponse_def Let_def)

section \<open>What the functions log\<close>

lemma every_patchBackupStatus [tr_rules]:
  "(\<And>ok. Q (VePatchStatus old new ok)) \<Longrightarrow> every vo_log Q (patchBackupStatus env old new)"
  unfolding patchBackupStatus_def by (rule every_vpatch) (simp add: patched_def)

lemma every_vbs_patchBackup: "(\<And>ok. Q (VePatch old new ok)) \<Longrightarrow> every vo_log Q (vbs_patchBackup env old new)"
  unfolding vbs_patchBackup_def by (rule every_vpatch) (simp add: patched_def)

lemma every_vbs_withEvent:
  "(\<And>ok. Q (VePatchStatus old new ok)) \<Longrightarrow> Q (VeRecord rs msg) \<Longrightarrow> every vo_log Q (vbs_updateStatusWithEvent env old new rs msg)"
  unfolding vbs_updateStatusWithEvent_def vbs_updateStatus_def by (intro tr_rules tr_vemit) auto

lemma every_vbs_withFailure:
  "(\<And>ok. Q (VePatchStatus b (b\<lparr>vb_phase := VBCPhaseFailed, vb_failureReason := msg\<rparr>) ok)) \<Longrightarrow>
   Q (VeRecord vbs_EventVolumeBackupFailed msg) \<Longrightarrow> every vo_log Q (vbs_updateStatusWithFailure env b msg)"
  unfolding vbs_updateStatusWithFailure_def by (intro tr_rules tr_vemit) auto

lemma every_vbs_start: "Q (VeRun (vb_name b)) \<Longrightarrow> every vo_log Q (vbs_start_progress b)"
  unfolding vbs_start_progress_def by (intro tr_rules tr_vrun) auto

lemma every_init: "(\<And>new ok. Q (VePatchStatus b new ok)) \<Longrightarrow> every vo_log Q (ensureVolBackupInit env b)"
  unfolding ensureVolBackupInit_def Let_def by (intro tr_rules) auto

lemma every_handleVolumeBackup: "(\<And>q ok. Q (VeDriver (StartBackup q) ok)) \<Longrightarrow> every vo_log Q (handleVolumeBackup env b)"
  unfolding handleVolumeBackup_def by (intro tr_rules tr_vcall) auto

lemma every_processVolumeBackup:
  assumes "\<And>q ok. Q (VeDriver (StartBackup q) ok)" "\<And>old new ok. Q (VePatchStatus old new ok)" "\<And>a m. Q (VeRecord a m)" "\<And>n. Q (VeRun n)"
  shows "every vo_log Q (vbs_processVolumeBackup env b)"
  unfolding vbs_processVolumeBackup_def
  by (cases "vb_phase b") (auto intro!: tr_rules every_vbs_start every_vbs_withEvent every_vbs_withFailure every_handleVolumeBackup assms)

section \<open>The driver deletes a backup before its content is released\<close>

fun releases_backup :: "(VolumeBackupContent, backup_call) vol_event \<Rightarrow> bool" where
  "releases_backup (VePatch old new _) = (volumeBackupFinalizer \<notin> set (meta_finalizers (vb_meta new)))"
| "releases_backup _ = False"

fun deleted_on_driver :: "(VolumeBackupContent, backup_call) vol_event \<Rightarrow> (VolumeBackupContent, backup_call) vol_event \<Rightarrow> bool" where
  "deleted_on_driver g (VePatch old _ _) = (g = VeDriver (delete_request old) True)" | "deleted_on_driver g _ = False"

lemma tr_finalizerRemove:
  "tr vo_log (\<lambda>_ l. l = [] \<or> (\<exists>ok. l = [VePatch b (without_backup_finalizer b) ok])) (ensureFinalizerRemove env b)"
  unfolding ensureFinalizerRemove_def vbs_patchBackup_def
  by (intro tr_if tr_return tr_bind [OF answer_patch]) (auto simp: answer_def patched_def intro!: tr_prod tr_return)

lemma release_after_delete: "all_of vo_log (led_by releases_backup deleted_on_driver) (delete_on_driver env b)"
  unfolding delete_on_driver_def
proof (rule tr_bind [OF tr_vcall, where R = "\<lambda>x l. l = [VeDriver (delete_request b) (x = None)]"], goal_cases)
  case (2 a l)
  let ?C = "\<lambda>l'. led_by releases_backup deleted_on_driver (l @ l')"
  have quiet: "tr vo_log (\<lambda>_ l'. ?C l') m" if "every vo_log (\<lambda>e. \<not> releases_backup e) m" for m :: "('w vb_svc, goerr option) state"
    by (rule tr_weaken [OF that]) (auto simp: 2 led_by_none)
  have fin: "tr vo_log (\<lambda>_ l'. ?C l') (do { ferr \<leftarrow> ensureFinalizerRemove env b;
      if ferr \<noteq> None then State_Monad.return ferr else do { _ \<leftarrow> vcache_clean vbc_kind (bn_api env) b; State_Monad.return None } })"
    if "a = None"
  proof (rule tr_bind [OF tr_finalizerRemove], goal_cases)
    case (1 ferr l1)
    then have C: "?C l1" using 2 that by (auto intro!: led_by_first simp: led_by_none)
    have "tr vo_log (\<lambda>_ l'. l' = []) (if ferr \<noteq> None then State_Monad.return ferr
        else do { _ \<leftarrow> vcache_clean vbc_kind (bn_api env) b; State_Monad.return None })"
      by (intro tr_if tr_return tr_skip [OF tr_vcache_clean, where P = "\<lambda>_. True"]) auto
    then show ?case by (rule tr_weaken) (use C in simp)
  qed
  have report: "every vo_log (\<lambda>e. \<not> releases_backup e) (if CheckServerUnavailable e then State_Monad.return None
      else do { vemit (VeRecord EventVolumeBackupDeleteFailed (''Unable to delete backup. '' @ err_msg e)); State_Monad.return (Some e) })" for e
    by (intro tr_rules tr_vemit) auto
  show ?case using fin by (cases a) (simp_all only: option.case quiet [OF report] simp_thms)
qed simp

lemma every_validDelete:
  assumes "\<And>a m. Q (VeRecord a m)"
  shows "every vo_log Q (isValidDelete env b)"
proof -
  have "every vo_log Q (isValidDelete_refs env owners)" for owners
    by (induction owners) (auto intro!: tr_rules tr_vemit simp: isValidDeleteWithBackup_def assms)
  then show ?thesis by (simp add: isValidDelete_def)
qed

lemma every_cancel: "(\<And>ok. Q (VeDriver (CancelBackup ids params) ok)) \<Longrightarrow> (\<And>a m. Q (VeRecord a m)) \<Longrightarrow> every vo_log Q (cancelVolBackup env ids params)"
  unfolding cancelVolBackup_def by (intro tr_rules tr_vcall tr_vemit) auto

lemma every_ensureFinalizer: "(\<And>ok. Q (VePatch b (with_backup_finalizer b) ok)) \<Longrightarrow> every vo_log Q (ensureFinalizer env b)"
  unfolding ensureFinalizer_def by (intro tr_rules every_vbs_patchBackup) auto

lemma with_finalizer: "volumeBackupFinalizer \<in> set (meta_finalizers (vb_meta (with_backup_finalizer b)))"
  by (simp add: with_backup_finalizer_def SetFinalizer_def)

text \<open>C19: the queue handler only takes the finalizer from a content directly after the driver has confirmed that
  it deleted the backup of this content, with all handles recorded for it.\<close>

theorem backup_released_after_delete:
  "\<exists>l. vo_log (snd (run_state (vbs_processQueue env index) s)) = vo_log s @ l \<and> led_by releases_backup deleted_on_driver l"
proof -
  let ?lead = "led_by releases_backup deleted_on_driver"
  have del: "all_of vo_log ?lead (processDeleteVolumeBackup env b)" for b
    unfolding processDeleteVolumeBackup_def vbs_updatePhase_def
    by (intro leads tr_prod tr_if tr_return tr_option release_after_delete every_led_by [OF every_validDelete]
        every_led_by [OF every_patchBackupStatus] every_led_by [OF every_cancel]) (auto simp: led_by_none)
  have assigned: "all_of vo_log ?lead (process_assigned env b)" for b
    unfolding process_assigned_def
    by (intro tr_prod tr_if tr_return every_led_by [OF every_processVolumeBackup]) (auto simp: led_by_none)
  have "all_of vo_log ?lead (vbs_processQueue env index)"
    unfolding vbs_processQueue_def
    by (intro tr_asked tr_cached tr_sum tr_if tr_prod tr_return tr_option leads del assigned every_led_by [OF every_init]
        every_led_by [OF every_ensureFinalizer]) (auto simp: led_by_none with_finalizer)
  from tr_run [OF this] show ?thesis .
qed

section \<open>An owned content is kept\<close>

lemma refs_stop:
  assumes "owner \<in> set owners" "owner_kind owner = Backup_kind" "bn_backupGet env (owner_name owner) (vo_world s) = Inr bk"
    and "meta_uid (bk_meta bk) = owner_uid owner" "meta_deletionTimestamp (bk_meta bk) = None"
    and "run_state (isValidDelete_refs env owners) s = ((valid, err), t)"
  shows "valid = False \<and> (\<exists>l. vo_log t = vo_log s @ l \<and> list_all (\<lambda>e. \<exists>a m. e = VeRecord a m) l)"
  using assms(1,6)
proof (induction owners)
  case (Cons x xs)
  then show ?case using assms(2-5)
    by (auto simp: isValidDeleteWithBackup_def split: if_splits sum.splits prod.splits)
qed simp

text \<open>C20: a volume backup content is not touched while a backup that owns it exists and is not being deleted:
  the queue handler sends nothing to the server or the driver and only records an event.\<close>

theorem owned_content_kept:
  assumes "getVolumeBackup env index (vo_world s) = Inr b" "meta_deletionTimestamp (vb_meta b) \<noteq> None"
    and "meta_ownerReferences (vb_meta b) = Some owners" "owner \<in> set owners" "owner_kind owner = Backup_kind"
    and "bn_backupGet env (owner_name owner) (vo_world s) = Inr bk"
    and "meta_uid (bk_meta bk) = owner_uid owner" "meta_deletionTimestamp (bk_meta bk) = None"
  shows "\<exists>l. vo_log (snd (run_state (vbs_processQueue env index) s)) = vo_log s @ l \<and>
     list_all (\<lambda>e. \<exists>a m. e = VeRecord a m) l"
proof -
  obtain new e s1 where c: "run_state (vcache_update vbc_kind (bn_api env) b) s = ((new, e), s1)" by (metis prod.collapse)
  have s1: "vo_world s1 = vo_world s" "vo_log s1 = vo_log s"
    using c by (auto simp: vcache_update_def split: prod.splits)
  obtain valid err s2 where v: "run_state (isValidDelete_refs env owners) s1 = ((valid, err), s2)" by (metis prod.collapse)
  then have stop: "valid = False" "\<exists>l. vo_log s2 = vo_log s @ l \<and> list_all (\<lambda>e. \<exists>a m. e = VeRecord a m) l"
    using refs_stop [OF assms(4,5) _ assms(7,8) v] assms(6) s1 by auto
  have "run_state (processDeleteVolumeBackup env b) s1 = (err, s2)"
    using v stop(1) assms(3) by (cases err) (simp_all add: processDeleteVolumeBackup_def isValidDelete_def)
  then have "snd (run_state (vbs_processQueue env index) s) = (if new then s2 else s1)"
    using assms(1,2) c by (simp add: vbs_processQueue_def)
  then show ?thesis using stop(2) s1 by auto
qed

section \<open>Only the assigned provider starts a backup\<close>

fun is_start :: "(VolumeBackupContent, backup_call) vol_event \<Rightarrow> bool" where
  "is_start (VeDriver (StartBackup _) _) = True" | "is_start _ = False"

text \<open>The server never shows this service as the provider of the content.\<close>

definition foreign :: "'w vb_env \<Rightarrow> string \<Rightarrow> bool" where
  "foreign env index \<longleftrightarrow>
     (\<forall>w b. getVolumeBackup env index w = Inr b \<longrightarrow> vb_backupProvider b \<noteq> Some (bn_provider env)) \<and>
     (\<forall>name bytes sub w. vb_backupProvider (fst (fst (va_Patch (bn_api env) name bytes sub w))) \<noteq> Some (bn_provider env))"

abbreviation elsewhere :: "'w vb_env \<Rightarrow> VolumeBackupContent \<Rightarrow> bool" where
  "elsewhere env b \<equiv> vb_backupProvider b \<noteq> Some (bn_provider env)"

lemma assigned_elsewhere: "elsewhere env b \<Longrightarrow> every vo_log (\<lambda>e. \<not> is_start e) (process_assigned env b)"
  by (auto simp: process_assigned_def checkVolumeBackupDriver_def intro!: tr_rules split: option.splits)

text \<open>The service does not ask its driver to start the backup of a content that the server shows without a
  provider or with another one.\<close>

theorem foreign_backup_not_started:
  assumes "foreign env index"
  shows "\<exists>l. vo_log (snd (run_state (vbs_processQueue env index) s)) = vo_log s @ l \<and> list_all (\<lambda>e. \<not> is_start e) l"
proof -
  have patch: "elsewhere env x" if "va_Patch (bn_api env) name bytes sub w = ((x, e), w')" for name bytes sub w x e w'
    using assms that unfolding foreign_def by (metis fst_conv)
  have init: "tr vo_log (\<lambda>x l. (\<forall>e \<in> set l. \<not> is_start e) \<and> pred_option (elsewhere env) (fst x)) (ensureVolBackupInit env b)"
    if "elsewhere env b" for b
    unfolding ensureVolBackupInit_def Let_def patchBackupStatus_def
    by (intro tr_asked tr_if tr_return every_vpatch_from) (use that patch in \<open>auto simp: patched_def\<close>)
  have fin: "tr vo_log (\<lambda>x l. (\<forall>e \<in> set l. \<not> is_start e) \<and> pred_option (elsewhere env) (fst x)) (ensureFinalizer env b)"
    if "elsewhere env b" for b
    unfolding ensureFinalizer_def vbs_patchBackup_def
    by (intro tr_if tr_return every_vpatch_from) (use that patch in \<open>auto simp: patched_def\<close>)
  have del: "every vo_log (\<lambda>e. \<not> is_start e) (processDeleteVolumeBackup env b)" for b
    unfolding processDeleteVolumeBackup_def vbs_updatePhase_def delete_on_driver_def ensureFinalizerRemove_def
    by (intro tr_rules tr_vcall tr_vemit every_validDelete every_cancel every_vbs_patchBackup) (auto simp: delete_request_def)
  have later: "every vo_log (\<lambda>e. \<not> is_start e) (case (x, err) of
      (Some initialized, None) \<Rightarrow> do {
         (r2, err2) \<leftarrow> ensureFinalizer env initialized;
         (case (r2, err2) of (Some protected, None) \<Rightarrow> process_assigned env protected | _ \<Rightarrow> State_Monad.return (Ret err2)) }
    | _ \<Rightarrow> State_Monad.return (Ret err))" if "pred_option (elsewhere env) x" for x err
    using that by (auto intro!: tr_option tr_return every_bind_with [OF fin] tr_prod assigned_elsewhere)
  have "every vo_log (\<lambda>e. \<not> is_start e) (vbs_processQueue env index)"
    unfolding vbs_processQueue_def
  proof (intro tr_asked_from tr_sum tr_cached tr_prod tr_if tr_return every_bind_with [OF init], goal_cases)
    case (4 w b a new err)
    then show ?case using assms by (auto simp: foreign_def)
  next
    case (5 w b a new err aa r1 err1)
    then show ?case using later [of r1 err1] by simp
  qed (auto intro!: tr_rules del)
  from tr_run [OF this, of s] show ?thesis by (simp add: list_all_iff)
qed

section \<open>A running backup is not cancelled\<close>

text \<open>The deletion first records the phase \<^verbatim>\<open>Deleting\<close> and then looks for \<^verbatim>\<open>InProgress\<close> in what comes back: with a
  server that stores what it is sent, the driver is never asked to cancel.\<close>

definition phase_echoed :: "'w vb_env \<Rightarrow> bool" where
  "phase_echoed env \<longleftrightarrow> (\<forall>old new bytes sub w x w'. va_mergePatch (bn_api env) old new = Inr bytes \<longrightarrow>
     va_Patch (bn_api env) (vb_name old) bytes sub w = ((x, None), w') \<longrightarrow> vb_phase x = vb_phase new)"

fun is_cancel :: "(VolumeBackupContent, backup_call) vol_event \<Rightarrow> bool" where
  "is_cancel (VeDriver (CancelBackup _ _) _) = True" | "is_cancel _ = False"

lemma tr_deleting_patch:
  assumes "phase_echoed env"
  shows "tr vo_log (\<lambda>x l. (\<forall>e \<in> set l. \<not> is_cancel e) \<and> pred_option (\<lambda>d. vb_phase d = VBCPhaseDeleting) (fst x))
    (vbs_updatePhase env b VBCPhaseDeleting)"
  unfolding vbs_updatePhase_def patchBackupStatus_def vpatch_def
proof (rule tr_sum, goal_cases)
  case (2 bytes)
  show ?case
  proof (rule tr_bind [OF tr_vcall_from, where R = "\<lambda>r l. (\<forall>e \<in> set l. \<not> is_cancel e) \<and> (snd r = None \<longrightarrow> vb_phase (fst r) = VBCPhaseDeleting)"], goal_cases)
    case (1 w r w')
    then show ?case using assms 2 unfolding phase_echoed_def by (cases r) (fastforce simp: vbc_kind_def)
  next
    case (2 a l)
    obtain x e where a: "a = (x, e)" by fastforce
    show ?case using 2 a by (auto intro!: tr_option tr_return tr_cached tr_prod)
  qed
qed (simp add: tr_return)

lemma running_backup_not_cancelled:
  assumes "phase_echoed env"
  shows "every vo_log (\<lambda>e. \<not> is_cancel e) (vbs_processQueue env index)"
proof -
  have driver: "every vo_log (\<lambda>e. \<not> is_cancel e) (delete_on_driver env b)" for b
    unfolding delete_on_driver_def ensureFinalizerRemove_def
    by (intro tr_rules tr_vcall tr_vemit every_vbs_patchBackup) (auto simp: delete_request_def)
  have del: "every vo_log (\<lambda>e. \<not> is_cancel e) (processDeleteVolumeBackup env b)" for b
    unfolding processDeleteVolumeBackup_def
    by (intro every_bind [OF every_validDelete] tr_prod tr_if tr_return every_bind_with [OF tr_deleting_patch [OF assms]])
       (auto intro!: tr_rules driver)
  have assigned: "every vo_log (\<lambda>e. \<not> is_cancel e) (process_assigned env b)" for b
    unfolding process_assigned_def by (intro tr_rules every_processVolumeBackup) auto
  show ?thesis unfolding vbs_processQueue_def
    by (intro tr_rules del assigned every_init every_ensureFinalizer) auto
qed

section \<open>Witnesses\<close>

definition demo_vbc :: VolumeBackupContent where
  "demo_vbc = zero_VBC\<lparr>vb_meta := zero_meta\<lparr>meta_name := ''v'', meta_ownerReferences := Some [\<lparr>owner_apiVersion = ''v1beta1'',
       owner_kind = ''Backup'', owner_name = ''b'', owner_uid = ''u''\<rparr>]\<rparr>, vb_phase := VBCPhaseInProgress,
     vb_backupProvider := Some ''other'', vb_states := [\<lparr>vs_volumeName = ''a'', vs_backupHandle = ''h'', vs_attributes = Map.empty,
       vs_progress = 90, vs_lastProgressUpdate = 0\<rparr>]\<rparr>"

definition demo_vb :: "VolumeBackupContent \<Rightarrow> VolumeBackupContent vb_env" where
  "demo_vb c = \<lparr>bn_api = \<lparr>va_objKey = \<lambda>r. Inr (vb_name r), va_splitKey = Inr, va_Get = \<lambda>_ _. Inr c, va_List = \<lambda>w. Inr [w],
       va_mergePatch = \<lambda>_ _. Inr [], va_Patch = \<lambda>_ _ _ w. ((c, None), w), va_UpdateStatus = \<lambda>r w. ((r, None), r), va_Now = \<lambda>_. 100000000000\<rparr>,
     bn_provider = ''mine'', bn_backupGet = \<lambda>_ _. Inr (zero_Backup\<lparr>bk_meta := zero_meta\<lparr>meta_uid := ''u''\<rparr>\<rparr>),
     bn_pvGet = \<lambda>_ _. Inl (errorf []), bn_pvcGet = \<lambda>_ _ _. Inl (errorf []), bn_snapshotGet = \<lambda>_ _. Inr [],
     bn_csiSnapshotGet = \<lambda>_ _ _. Inr None, bn_csiContentGet = \<lambda>_ _. Inr [], bn_start = \<lambda>_ w. (Inr \<lparr>sr_errors = [], sr_info = []\<rparr>, w),
     bn_delete = \<lambda>_ w. (None, w), bn_cancel = \<lambda>_ w. (None, w), bn_stat = \<lambda>_ w. (Inr [(''h'', 100)], w)\<rparr>"

definition demo_vbs :: "VolumeBackupContent vb_svc" where
  "demo_vbs = \<lparr>vo_processed = \<lparr>items = Map.empty, keyFunc = \<lambda>r. Inr (vb_name r)\<rparr>, vo_running = Map.empty,
     vo_world = demo_vbc, vo_log = [], vo_crashed = False\<rparr>"

lemma demo_getVolumeBackup: "getVolumeBackup (demo_vb c) nm w = Inr c"
  by (simp add: getVolumeBackup_def demo_vb_def)

theorem backup_poll_refines_witness:
  "\<exists>new l. abs_backup new = (Finished, [(''h'', 100, 100)]) \<and>
     vo_log (snd (run_state (processBackupProgress (demo_vb demo_vbc) ''v'') demo_vbs)) =
       VeDriver (backup_stat_request demo_vbc) True # l"
proof -
  let ?env = "demo_vb demo_vbc"
  obtain res s' where run: "run_state (processBackupProgress ?env ''v'') demo_vbs = (res, s')" by fastforce
  have "\<not> skipBackupProgressProcessing demo_vbc"
    by (simp add: skipBackupProgressProcessing_def demo_vbc_def zero_meta_def)
  moreover have "bn_stat ?env (backup_stat_request demo_vbc) (vo_world demo_vbs) = (Inr [(''h'', 100)], demo_vbc)"
    by (simp add: demo_vb_def demo_vbs_def)
  moreover have "va_Now (bn_api ?env) demo_vbc = 100000000000" "vo_log demo_vbs = []" by (simp_all add: demo_vb_def demo_vbs_def)
  moreover have "poll_spec 100000000000 [(''h'', 100)] (snd (abs_backup demo_vbc)) = (Finished, [(''h'', 100, 100)])"
    by (simp add: abs_backup_def abs_backup_entry_def demo_vbc_def poll_spec_def report_def finished_def)
  ultimately show ?thesis
    using backup_poll_refines [OF demo_getVolumeBackup _ _ run] run by fastforce
qed

definition demo_deleted :: VolumeBackupContent where
  "demo_deleted = demo_vbc\<lparr>vb_meta := (vb_meta demo_vbc)\<lparr>meta_deletionTimestamp := Some 7\<rparr>\<rparr>"

theorem owned_content_kept_witness:
  "list_all (\<lambda>e. \<exists>a m. e = VeRecord a m) (vo_log (snd (run_state (vbs_processQueue (demo_vb demo_deleted) ''v'') demo_vbs)))"
proof -
  let ?o = "\<lparr>owner_apiVersion = ''v1beta1'', owner_kind = ''Backup'', owner_name = ''b'', owner_uid = ''u''\<rparr>"
  have "\<exists>l. vo_log (snd (run_state (vbs_processQueue (demo_vb demo_deleted) ''v'') demo_vbs)) = vo_log demo_vbs @ l \<and>
      list_all (\<lambda>e. \<exists>a m. e = VeRecord a m) l"
    by (rule owned_content_kept [OF demo_getVolumeBackup, where owners = "[?o]" and owner = ?o and
          bk = "zero_Backup\<lparr>bk_meta := zero_meta\<lparr>meta_uid := ''u''\<rparr>\<rparr>"])
       (simp_all add: demo_deleted_def demo_vbc_def demo_vb_def Backup_kind_def zero_meta_def)
  then show ?thesis by (auto simp: demo_vbs_def)
qed

theorem foreign_backup_not_started_witness:
  "list_all (\<lambda>e. \<not> is_start e) (vo_log (snd (run_state (vbs_processQueue (demo_vb demo_vbc) ''v'') demo_vbs)))"
proof -
  have "foreign (demo_vb demo_vbc) ''v''"
    by (simp add: foreign_def demo_getVolumeBackup) (simp add: demo_vb_def demo_vbc_def)
  from foreign_backup_not_started [OF this, of demo_vbs] show ?thesis by (auto simp: demo_vbs_def)
qed

text \<open>A deletion does not look at the provider: this driver is told to delete a backup another one made.\<close>

lemma foreign_backup_deleted:
  "VeDriver (DeleteBackup ''v'' (getVolIdentifiers demo_vbc) Map.empty) True \<in>
     set (vo_log (snd (run_state (processDeleteVolumeBackup ((demo_vb demo_vbc)\<lparr>bn_backupGet := \<lambda>_ _. Inl (GoErr NotFound [])\<rparr>) demo_vbc) demo_vbs)))"
  by (simp add: processDeleteVolumeBackup_def isValidDelete_def isValidDeleteWithBackup_def vbs_updatePhase_def
      patchBackupStatus_def vpatch_def delete_on_driver_def delete_request_def ensureFinalizerRemove_def cancelVolBackup_def
      demo_vb_def demo_vbc_def demo_vbs_def zero_VBC_def Backup_kind_def vcache_update_def vcache_clean_def vbc_kind_def
      zero_meta_def StoreRevisionUpdate_def StoreClean_def store_Get_def store_Add_def split: prod.splits)

end
