(* ===== verification/Reconcilers.thy ===== *)
theory Reconcilers
  imports Traces Backup_Types Restore_Types VBC_Types
begin

text \<open>
  The periodic loops that carry the progress of volume contents over to their backup or restore:
  \<^verbatim>\<open>controllers/backup/volumebackupreconciler.go\<close> and
  \<^verbatim>\<open>controllers/restore/volumerestorereconciler.go\<close>.

  The two files have the same code over different types. It is written once here, over a record of what
  differs, and instantiated twice. \<open>'o\<close> is the backup or restore, \<open>'c\<close> the content. Calls that change
  the cluster and the listings of contents are appended to a log; a listing that failed is \<open>None\<close> there.
\<close>

section \<open>State and environment\<close>

datatype ('o, 'c) rec_event =
    ReList string "'c list option"
  | RePatch string 'o 'o bool
  | ReStatus 'o bool

record ('o, 'c, 'w) rec_state =
  rc_world :: 'w
  rc_log :: "('o, 'c) rec_event list"

text \<open>What differs between the two files.\<close>

record ('o, 'c) rec_kind =
  kd_meta :: "'o \<Rightarrow> object_meta"
  kd_setMeta :: "object_meta \<Rightarrow> 'o \<Rightarrow> 'o"
  kd_inVolumes :: "'o \<Rightarrow> bool"
  kd_setFailed :: "'o \<Rightarrow> 'o"
  kd_annCompleted :: string
  kd_annDeleteCompleted :: string
  kd_contentFailed :: "'c \<Rightarrow> bool"
  kd_contentCompleted :: "'c \<Rightarrow> bool"

abbreviation kd_name :: "('o, 'c) rec_kind \<Rightarrow> 'o \<Rightarrow> string" where "kd_name k x \<equiv> meta_name (kd_meta k x)"

record ('o, 'c, 'w) rec_api =
  ra_List :: "'w \<Rightarrow> goerr + 'o list"
  ra_Get :: "string \<Rightarrow> 'w \<Rightarrow> goerr + 'o"
  ra_listContents :: "string \<Rightarrow> 'w \<Rightarrow> ('c list \<times> goerr option) \<times> 'w"
  ra_mergePatch :: "'o \<Rightarrow> 'o \<Rightarrow> goerr + string"
  ra_Patch :: "string \<Rightarrow> string \<Rightarrow> 'w \<Rightarrow> goerr option \<times> 'w"
  ra_UpdateStatus :: "'o \<Rightarrow> 'w \<Rightarrow> goerr option \<times> 'w"

definition ccall :: "('w \<Rightarrow> 'r \<times> 'w) \<Rightarrow> ('r \<Rightarrow> ('o, 'c) rec_event) \<Rightarrow> (('o, 'c, 'w) rec_state, 'r) state" where
  "ccall f ev = liftst (\<lambda>s. case f (rc_world s) of (r, w) \<Rightarrow> (r, s\<lparr>rc_world := w, rc_log := rc_log s @ [ev r]\<rparr>))"

definition cask :: "('w \<Rightarrow> 'r) \<Rightarrow> (('o, 'c, 'w) rec_state, 'r) state" where
  "cask f = liftst (\<lambda>s. (f (rc_world s), s))"

section \<open>The loop\<close>

definition list_contents ::
  "('o, 'c, 'w) rec_api \<Rightarrow> string \<Rightarrow> (('o, 'c, 'w) rec_state, 'c list \<times> goerr option) state" where
  "list_contents api name = ccall (ra_listContents api name) (\<lambda>(cs, e). ReList name (if e = None then Some cs else None))"

text \<open>The list next to an error is empty, so every failed listing counts as deleted.\<close>

definition contents_deleted ::
  "('o, 'c, 'w) rec_api \<Rightarrow> string \<Rightarrow> (('o, 'c, 'w) rec_state, bool \<times> goerr option) state" where
  "contents_deleted api name = do {
     (cs, err) \<leftarrow> list_contents api name;
     State_Monad.return (if err = None \<and> 0 < length cs then (False, None)
       else if IsNotFound err \<or> length cs = 0 then (True, None)
       else (False, err)) }"

definition mark_annotation :: "('o, 'c) rec_kind \<Rightarrow> string \<Rightarrow> 'o \<Rightarrow> 'o" where
  "mark_annotation k a x = kd_setMeta k ((kd_meta k x)\<lparr>meta_annotations := (meta_annotations (kd_meta k x))(a \<mapsto> ''true'')\<rparr>) x"

text \<open>The error of the patch is wrapped and dropped.\<close>

definition annotate ::
  "('o, 'c) rec_kind \<Rightarrow> ('o, 'c, 'w) rec_api \<Rightarrow> string \<Rightarrow> string \<Rightarrow> (('o, 'c, 'w) rec_state, goerr option) state" where
  "annotate k api annotation name = do {
     got \<leftarrow> cask (ra_Get api name);
     (case got of
        Inl err \<Rightarrow> State_Monad.return (Some (wrap err ''Unable to update''))
      | Inr x \<Rightarrow>
          if meta_annotations (kd_meta k x) annotation \<noteq> None then State_Monad.return None
          else (case ra_mergePatch api x (mark_annotation k annotation x) of
              Inl err \<Rightarrow> State_Monad.return (Some (wrap err ''error creating json merge patch''))
            | Inr patchBytes \<Rightarrow> do {
                _ \<leftarrow> ccall (ra_Patch api name patchBytes) (\<lambda>e. RePatch name x (mark_annotation k annotation x) (e = None));
                State_Monad.return None })) }"

definition reconcile_required :: "('o, 'c) rec_kind \<Rightarrow> 'o \<Rightarrow> bool" where
  "reconcile_required k x \<longleftrightarrow>
     (if \<not> kd_inVolumes k x \<or> meta_annotations (kd_meta k x) (kd_annCompleted k) \<noteq> None then False else True)"

text \<open>The loop over the contents: whether one failed, and whether all are done. It stops at the first that is not
  completed.\<close>

fun scan_contents :: "('o, 'c) rec_kind \<Rightarrow> 'c list \<Rightarrow> bool \<times> bool" where
  "scan_contents k [] = (False, True)"
| "scan_contents k (c # cs) =
     (if kd_contentFailed k c then (True, True)
      else if \<not> kd_contentCompleted k c then (False, False)
      else scan_contents k cs)"

definition update_failure :: "('o, 'c) rec_kind \<Rightarrow> ('o, 'c, 'w) rec_api \<Rightarrow> 'o \<Rightarrow> (('o, 'c, 'w) rec_state, goerr option) state" where
  "update_failure k api x = ccall (ra_UpdateStatus api (kd_setFailed k x)) (\<lambda>e. ReStatus (kd_setFailed k x) (e = None))"

definition reconcile_progress ::
  "('o, 'c) rec_kind \<Rightarrow> ('o, 'c, 'w) rec_api \<Rightarrow> 'o \<Rightarrow> (('o, 'c, 'w) rec_state, unit) state" where
  "reconcile_progress k api x =
     (if \<not> reconcile_required k x then State_Monad.return ()
      else do {
        (cs, err) \<leftarrow> list_contents api (kd_name k x);
        if err \<noteq> None then State_Monad.return ()
        else if length cs = 0 then State_Monad.return ()
        else (case scan_contents k cs of (failed, completed) \<Rightarrow>
          if failed then do { _ \<leftarrow> update_failure k api x; State_Monad.return () }
          else if \<not> completed then State_Monad.return ()
          else do { _ \<leftarrow> annotate k api (kd_annCompleted k) (kd_name k x); State_Monad.return () }) })"

definition reconcile_one ::
  "('o, 'c) rec_kind \<Rightarrow> ('o, 'c, 'w) rec_api \<Rightarrow> 'o \<Rightarrow> (('o, 'c, 'w) rec_state, unit) state" where
  "reconcile_one k api x =
     (if meta_deletionTimestamp (kd_meta k x) \<noteq> None then do {
        (deleted, err) \<leftarrow> contents_deleted api (kd_name k x);
        if err \<noteq> None then State_Monad.return ()
        else if deleted then do { _ \<leftarrow> annotate k api (kd_annDeleteCompleted k) (kd_name k x); State_Monad.return () }
        else reconcile_progress k api x }
      else reconcile_progress k api x)"

fun reconcile_all ::
  "('o, 'c) rec_kind \<Rightarrow> ('o, 'c, 'w) rec_api \<Rightarrow> 'o list \<Rightarrow> (('o, 'c, 'w) rec_state, unit) state" where
  "reconcile_all k api [] = State_Monad.return ()"
| "reconcile_all k api (x # xs) = do { reconcile_one k api x; reconcile_all k api xs }"

text \<open>An error of the lister is logged; the list next to it is nil.\<close>

definition reconcile :: "('o, 'c) rec_kind \<Rightarrow> ('o, 'c, 'w) rec_api \<Rightarrow> (('o, 'c, 'w) rec_state, unit) state" where
  "reconcile k api = do {
     got \<leftarrow> cask (ra_List api);
     reconcile_all k api (case got of Inl _ \<Rightarrow> [] | Inr xs \<Rightarrow> xs) }"

section \<open>The two reconcilers\<close>

definition restore_kind :: "(Restore, VolumeRestoreContent) rec_kind" where
  "restore_kind = \<lparr>kd_meta = rs_meta, kd_setMeta = (\<lambda>m r. r\<lparr>rs_meta := m\<rparr>),
     kd_inVolumes = (\<lambda>r. rs_stage r = RestoreStageVolumes), kd_setFailed = set_rstate RestoreStateFailed,
     kd_annCompleted = annVolumeRestoreCompleted, kd_annDeleteCompleted = annVolumeRestoreDeleteCompleted,
     kd_contentFailed = (\<lambda>c. vr_phase c = VRCPhaseFailed), kd_contentCompleted = (\<lambda>c. vr_phase c = VRCPhaseCompleted)\<rparr>"

definition backup_kind :: "(Backup, VolumeBackupContent) rec_kind" where
  "backup_kind = \<lparr>kd_meta = bk_meta, kd_setMeta = (\<lambda>m b. b\<lparr>bk_meta := m\<rparr>),
     kd_inVolumes = (\<lambda>b. st_stage (bk_status b) = BackupStageVolumes),
     kd_setFailed = (\<lambda>b. b\<lparr>bk_status := (bk_status b)\<lparr>st_state := BackupStateFailed\<rparr>\<rparr>),
     kd_annCompleted = annVolumeBackupCompleted, kd_annDeleteCompleted = annVolumeBackupDeleteCompleted,
     kd_contentFailed = (\<lambda>c. vb_phase c = VBCPhaseFailed), kd_contentCompleted = (\<lambda>c. vb_phase c = VBCPhaseCompleted)\<rparr>"

type_synonym 'w restore_rec = "(Restore, VolumeRestoreContent, 'w) rec_api"
type_synonym 'w backup_rec = "(Backup, VolumeBackupContent, 'w) rec_api"

definition isVolumeRestoreContentDeleted ::
  "'w restore_rec \<Rightarrow> Restore \<Rightarrow> ((Restore, VolumeRestoreContent, 'w) rec_state, bool \<times> goerr option) state" where
  "isVolumeRestoreContentDeleted api r = contents_deleted api (rs_nm r)"

definition restore_isReconcileRequired :: "Restore \<Rightarrow> bool" where
  "restore_isReconcileRequired = reconcile_required restore_kind"

definition rec_annotateRestore ::
  "'w restore_rec \<Rightarrow> string \<Rightarrow> string \<Rightarrow> ((Restore, VolumeRestoreContent, 'w) rec_state, goerr option) state" where
  "rec_annotateRestore = annotate restore_kind"

definition updateRestoreFailure ::
  "'w restore_rec \<Rightarrow> Restore \<Rightarrow> ((Restore, VolumeRestoreContent, 'w) rec_state, goerr option) state" where
  "updateRestoreFailure = update_failure restore_kind"

definition restore_reconcile :: "'w restore_rec \<Rightarrow> ((Restore, VolumeRestoreContent, 'w) rec_state, unit) state" where
  "restore_reconcile = reconcile restore_kind"

definition backup_reconcile :: "'w backup_rec \<Rightarrow> ((Backup, VolumeBackupContent, 'w) rec_state, unit) state" where
  "backup_reconcile = reconcile backup_kind"

section \<open>Marks are justified by a listing\<close>

lemma tr_ccall: "(\<And>r. R r [ev r]) \<Longrightarrow> tr rc_log R (ccall f ev)"
  by (auto simp: tr_def ccall_def split: prod.splits)

lemma tr_cask: "(\<And>a. tr rc_log T (f a)) \<Longrightarrow> tr rc_log T (State_Monad.bind (cask g) f)"
  by (rule tr_skip [where P = "\<lambda>_. True"]) (auto simp: tr_def cask_def)

fun is_listing :: "('o, 'c) rec_event \<Rightarrow> bool" where
  "is_listing (ReList _ _) = True" | "is_listing _ = False"

text \<open>The completion mark comes directly after a listing of contents that are all completed, the deletion mark
  after one without contents or that failed, and the failure after one with a failed content.\<close>

fun justified :: "('o, 'c) rec_kind \<Rightarrow> ('o, 'c) rec_event \<Rightarrow> ('o, 'c) rec_event \<Rightarrow> bool" where
  "justified k (ReList n cs) (RePatch n' old new _) = (n = n' \<and>
     (new = mark_annotation k (kd_annCompleted k) old \<and> (case cs of None \<Rightarrow> False | Some xs \<Rightarrow> xs \<noteq> [] \<and> list_all (kd_contentCompleted k) xs) \<or>
      new = mark_annotation k (kd_annDeleteCompleted k) old \<and> (case cs of None \<Rightarrow> True | Some xs \<Rightarrow> xs = [])))"
| "justified k (ReList n cs) (ReStatus x _) = (case cs of None \<Rightarrow> False
     | Some xs \<Rightarrow> list_ex (kd_contentFailed k) xs \<and> (\<exists>x0. x = kd_setFailed k x0 \<and> n = kd_name k x0))"
| "justified k _ _ = False"

lemma scan_failed: "fst (scan_contents k cs) \<Longrightarrow> list_ex (kd_contentFailed k) cs"
  by (induction cs) (auto split: if_splits)

lemma scan_done: "scan_contents k cs = (False, True) \<Longrightarrow> list_all (kd_contentCompleted k) cs"
  by (induction cs) (auto split: if_splits)

lemma tr_mark:
  "tr rc_log (\<lambda>_ l. l = [] \<or> (\<exists>x ok. l = [RePatch n x (mark_annotation k a x) ok])) (annotate k api a n)"
  unfolding annotate_def
  by (intro tr_cask tr_sum tr_return tr_if tr_bind [OF tr_ccall, where R = "\<lambda>_ l. \<exists>x ok. l = [RePatch n x (mark_annotation k a x) ok]"]) auto

lemma led_pair: "P g e \<Longrightarrow> \<not> D g \<Longrightarrow> led_by D P [g, e]"
  by (auto simp: led_by_def Cons_eq_append_conv)

abbreviation justify :: "('o, 'c) rec_kind \<Rightarrow> ('o, 'c) rec_event list \<Rightarrow> bool" where
  "justify k \<equiv> led_by (\<lambda>e. \<not> is_listing e) (justified k)"

lemma justify_listing: "justify k [ReList n cs]"
  by (rule led_by_none) simp

lemma tr_after_listing:
  assumes "\<And>x ok. justified k (ReList n cs) (RePatch n x (mark_annotation k a x) ok)"
  shows "tr rc_log (\<lambda>_ l. justify k ([ReList n cs] @ l)) (do { _ \<leftarrow> annotate k api a n; State_Monad.return () })"
  by (rule tr_bind [OF tr_mark]) (auto intro!: tr_return led_pair assms simp: justify_listing)

lemma justify_progress: "all_of rc_log (justify k) (reconcile_progress k api x)"
  unfolding reconcile_progress_def list_contents_def
proof (intro tr_if tr_return, goal_cases)
  case 2
  show ?case
  proof (rule tr_bind [OF tr_ccall, where R = "\<lambda>r l. l = [ReList (kd_name k x) (if snd r = None then Some (fst r) else None)]"], goal_cases)
    case (2 a l)
    obtain cs err where a: "a = (cs, err)" by fastforce
    let ?n = "kd_name k x"
    have status: "tr rc_log (\<lambda>_ l. justify k ([ReList ?n (Some cs)] @ l)) (do { _ \<leftarrow> update_failure k api x; State_Monad.return () })"
      if "fst (scan_contents k cs)"
      unfolding update_failure_def
      by (rule tr_bind [OF tr_ccall, where R = "\<lambda>_ l. \<exists>ok. l = [ReStatus (kd_setFailed k x) ok]"])
         (use scan_failed [OF that] in \<open>auto intro!: tr_return led_pair, blast\<close>)
    have mark: "tr rc_log (\<lambda>_ l. justify k ([ReList ?n (Some cs)] @ l)) (do { _ \<leftarrow> annotate k api (kd_annCompleted k) ?n; State_Monad.return () })"
      if "scan_contents k cs = (False, True)" "cs \<noteq> []"
      by (rule tr_after_listing) (use that scan_done [OF that(1)] in simp)
    have quiet: "tr rc_log (\<lambda>_ l. justify k ([ReList ?n z] @ l)) (State_Monad.return ())" for z
      by (rule tr_return) (simp add: justify_listing)
    show ?case unfolding 2 a prod.case
      using status mark quiet by (cases "scan_contents k cs") (auto simp del: append_Cons append_Nil split: if_splits)
  qed (auto split: prod.splits)
qed (auto simp: led_by_none)

lemma justify_one: "all_of rc_log (justify k) (reconcile_one k api x)"
proof -
  let ?n = "kd_name k x"
  have go: "tr rc_log (\<lambda>_ l'. justify k (l @ l')) (reconcile_progress k api x)" if "justify k l" for l
    using that by (intro tr_weaken [OF justify_progress]) (rule led_by_append)
  have listed: "tr rc_log (\<lambda>r l. \<exists>cs. l = [ReList ?n cs] \<and> (snd r = None \<and> fst r \<longrightarrow> cs = None \<or> cs = Some [])) (contents_deleted api ?n)"
    unfolding contents_deleted_def list_contents_def
    by (rule tr_bind [OF tr_ccall, where R = "\<lambda>r l. l = [ReList ?n (if snd r = None then Some (fst r) else None)]"])
       (auto intro!: tr_return split: prod.splits)
  have deleting: "all_of rc_log (justify k) (do {
        (deleted, err) \<leftarrow> contents_deleted api ?n;
        if err \<noteq> None then State_Monad.return ()
        else if deleted then do { _ \<leftarrow> annotate k api (kd_annDeleteCompleted k) ?n; State_Monad.return () }
        else reconcile_progress k api x })"
  proof (rule tr_bind [OF listed], goal_cases)
    case (1 a l)
    then obtain cs where l: "l = [ReList ?n cs]" "snd a = None \<and> fst a \<longrightarrow> cs = None \<or> cs = Some []" by blast
    have mark: "tr rc_log (\<lambda>_ l'. justify k ([ReList ?n cs] @ l')) (do { _ \<leftarrow> annotate k api (kd_annDeleteCompleted k) ?n; State_Monad.return () })"
      if "snd a = None" "fst a"
      by (rule tr_after_listing) (use l(2) that in auto)
    have quiet: "tr rc_log (\<lambda>_ l'. justify k ([ReList ?n cs] @ l')) (State_Monad.return ())"
      by (rule tr_return) (simp add: justify_listing)
    show ?case unfolding l(1)
      using mark quiet go [OF justify_listing] by (cases a) (auto simp del: append_Cons append_Nil split: if_splits)
  qed
  show ?thesis unfolding reconcile_one_def using deleting justify_progress by (intro tr_if) auto
qed

lemma justify_reconcile: "all_of rc_log (justify k) (reconcile k api)"
proof -
  have "all_of rc_log (justify k) (reconcile_all k api xs)" for xs
    by (induction xs) (auto intro!: leads justify_one tr_return simp: led_by_none)
  then show ?thesis unfolding reconcile_def by (intro tr_cask)
qed

text \<open>C23: the reconcilers only mark a backup or restore on evidence: the mark that its volumes are completed is
  patched directly after a listing of its contents that shows at least one and all of them completed, its
  failure is recorded directly after a listing with a failed content, and the mark that its contents are
  deleted directly after a listing that is empty or failed.\<close>

theorem reconcilers_mark_on_evidence:
  "(\<exists>l. rc_log (snd (run_state (backup_reconcile api) s)) = rc_log s @ l \<and> justify backup_kind l) \<and>
   (\<exists>l. rc_log (snd (run_state (restore_reconcile api') s')) = rc_log s' @ l \<and> justify restore_kind l)"
  unfolding backup_reconcile_def restore_reconcile_def
  by (intro conjI tr_run justify_reconcile)

section \<open>Flaws\<close>

text \<open>A listing that fails for any reason counts as no contents left.\<close>

lemma failed_listing_counts_as_deleted:
  "ra_listContents api name (rc_world s) = (([], Some err), w) \<Longrightarrow>
     fst (run_state (contents_deleted api name) s) = (True, None)"
  by (simp add: contents_deleted_def list_contents_def ccall_def)

text \<open>A refused annotation is not reported.\<close>

lemma refused_mark_unreported:
  assumes "ra_Get api name (rc_world s) = Inr x" "meta_annotations (kd_meta k x) a = None"
    and "ra_mergePatch api x (mark_annotation k a x) = Inr bytes"
    and "ra_Patch api name bytes (rc_world s) = (Some err, w)"
  shows "fst (run_state (annotate k api a name) s) = None"
  using assms by (simp add: annotate_def cask_def ccall_def)

text \<open>A failed content behind one that is still in progress is not seen.\<close>

lemma failed_content_hidden:
  "\<not> kd_contentFailed k c \<Longrightarrow> \<not> kd_contentCompleted k c \<Longrightarrow> scan_contents k (c # cs) = (False, False)"
  by simp

end
