(* ===== verification/Volumes.thy ===== *)
theory Volumes
  imports Snapshot_Types VBC_Types Backup_Types Kube_Types Selection
begin

text \<open>
  The volume package, \<^verbatim>\<open>volume/\<close>: groups of volumes, the snapshots taken of a group, and the backup
  contents created for the snapshots. The clients are functions over an arbitrary world \<open>'w\<close>; what is
  created in the cluster and what is read while waiting is logged. Generated names come from the world.
  A set of strings is visited in order; the order in which Go visits the map of provisioners is
  \<open>ve_visit\<close>.
\<close>

section \<open>Environment\<close>

record 'w volume_env =
  ve_uuid :: "'w \<Rightarrow> string \<times> 'w"
  ve_now :: "'w \<Rightarrow> int"
  ve_createGroup :: "VolumeGroup \<Rightarrow> 'w \<Rightarrow> (goerr + VolumeGroup) \<times> 'w"
  ve_pvcGet :: "string \<Rightarrow> string \<Rightarrow> 'w \<Rightarrow> goerr + pvc"
  ve_pvGet :: "string \<Rightarrow> 'w \<Rightarrow> goerr + pv"
  ve_createSnapshot :: "VolumeSnapshot \<Rightarrow> 'w \<Rightarrow> (goerr + VolumeSnapshot) \<times> 'w"
  ve_snapshotGet :: "string \<Rightarrow> 'w \<Rightarrow> goerr + VolumeSnapshot"
  ve_createContent :: "VolumeBackupContent \<Rightarrow> 'w \<Rightarrow> goerr option \<times> 'w"
  ve_visit :: "(string \<times> ResourceReference list) list \<Rightarrow> (string \<times> ResourceReference list) list"
  ve_tick :: "'w \<Rightarrow> nat \<times> 'w"

datatype volume_event =
    VlGroup VolumeGroup "goerr + VolumeGroup"
  | VlSnapshot VolumeSnapshot "goerr + VolumeSnapshot"
  | VlRead string "goerr + VolumeSnapshot"
  | VlContent VolumeBackupContent bool

record 'w vols =
  vl_world :: 'w
  vl_log :: "volume_event list"

definition volcall :: "('w \<Rightarrow> 'r \<times> 'w) \<Rightarrow> ('r \<Rightarrow> volume_event list) \<Rightarrow> ('w vols, 'r) state" where
  "volcall f ev = liftst (\<lambda>s. case f (vl_world s) of (r, w) \<Rightarrow> (r, s\<lparr>vl_world := w, vl_log := vl_log s @ ev r\<rparr>))"

definition volask :: "('w \<Rightarrow> 'r) \<Rightarrow> ('w vols, 'r) state" where
  "volask f = liftst (\<lambda>s. (f (vl_world s), s))"

section \<open>Volume groups\<close>

definition volumegroup_LabelBackupName :: string where "volumegroup_LabelBackupName = ''kahu.backup.vol.group''"

definition volGroupName :: "string \<Rightarrow> string \<Rightarrow> string" where
  "volGroupName backupName uuid = backupName @ ''-'' @ uuid"

definition newGroup :: "'w volume_env \<Rightarrow> string \<Rightarrow> ResourceReference list \<Rightarrow> ('w vols, goerr + VolumeGroup) state" where
  "newGroup env backupName vols = do {
     uuid \<leftarrow> volcall (ve_uuid env) (\<lambda>_. []);
     let volGroupReq = \<lparr>vg_meta = zero_meta\<lparr>meta_name := volGroupName backupName uuid,
           meta_labels := [volumegroup_LabelBackupName \<mapsto> backupName]\<rparr>, vg_backup = backupName, vg_list = vols\<rparr>;
     volcall (ve_createGroup env volGroupReq) (\<lambda>r. [VlGroup volGroupReq r]) }"

definition volGroupSpecByPVCs :: "pvc list \<Rightarrow> ResourceReference list" where
  "volGroupSpecByPVCs pvcs = map (\<lambda>p. \<lparr>rf_kind = PVC_kind, rf_namespace = meta_namespace (pvc_meta p),
     rf_name = meta_name (pvc_meta p)\<rparr>) pvcs"

definition group_ByPVCs :: "'w volume_env \<Rightarrow> string \<Rightarrow> pvc list \<Rightarrow> ('w vols, goerr + VolumeGroup) state" where
  "group_ByPVCs env backupName pvcs = newGroup env backupName (volGroupSpecByPVCs pvcs)"

definition group_ByVolumeGroup :: "'w volume_env \<Rightarrow> VolumeGroup \<Rightarrow> ('w vols, goerr + VolumeGroup) state" where
  "group_ByVolumeGroup env g = newGroup env (vg_backup g) (vg_list g)"

definition GetVolumes :: "VolumeGroup \<Rightarrow> ResourceReference list \<times> bool" where
  "GetVolumes g = (vg_list g, True)"

definition GetBackupName :: "VolumeGroup \<Rightarrow> string" where "GetBackupName g = vg_backup g"

definition GetGroupName :: "VolumeGroup \<Rightarrow> string" where "GetGroupName g = meta_name (vg_meta g)"

section \<open>Snapshots of a group\<close>

record snapshoter =
  sn_group :: VolumeGroup
  sn_ids :: "string set"

definition newSnapshot :: "VolumeGroup \<Rightarrow> snapshoter" where
  "newSnapshot g = \<lparr>sn_group = g, sn_ids = {}\<rparr>"

definition LabelBackupName :: string where "LabelBackupName = ''kahu.backup.name''"
definition LabelProvisionerName :: string where "LabelProvisionerName = ''kahu.provisioner.name''"

definition pvByPV :: "'w volume_env \<Rightarrow> string \<Rightarrow> 'w \<Rightarrow> goerr + pv" where
  "pvByPV env name w = ve_pvGet env name w"

definition pvByPVC :: "'w volume_env \<Rightarrow> string \<Rightarrow> string \<Rightarrow> 'w \<Rightarrow> goerr + pv" where
  "pvByPVC env name namespace w = (case ve_pvcGet env namespace name w of
     Inl err \<Rightarrow> Inl err
   | Inr c \<Rightarrow> if pvc_volumeName c = [] then Inl (errorf (''pvc('' @ namespace @ ''/'' @ name @ '') is not bound''))
       else ve_pvGet env (pvc_volumeName c) w)"

definition getPV :: "'w volume_env \<Rightarrow> ResourceReference \<Rightarrow> 'w \<Rightarrow> goerr + pv" where
  "getPV env volume w = (if rf_kind volume = PVC_kind then pvByPVC env (rf_name volume) (rf_namespace volume) w
     else if rf_kind volume = PV_kind then pvByPV env (rf_name volume) w
     else Inl (errorf (''invalid volume kind ('' @ rf_kind volume @ '')'')))"

fun add_volume :: "string \<Rightarrow> ResourceReference \<Rightarrow> (string \<times> ResourceReference list) list \<Rightarrow>
    (string \<times> ResourceReference list) list" where
  "add_volume p v [] = [(p, [v])]"
| "add_volume p v ((q, vs) # m) = (if q = p then (q, vs @ [v]) # m else (q, vs) # add_volume p v m)"

fun by_provisioner :: "'w volume_env \<Rightarrow> 'w \<Rightarrow> ResourceReference list \<Rightarrow> (string \<times> ResourceReference list) list \<Rightarrow>
    goerr + (string \<times> ResourceReference list) list" where
  "by_provisioner env w [] m = Inr m"
| "by_provisioner env w (volume # volumes) m = (case getPV env volume w of
     Inl err \<Rightarrow> Inl err
   | Inr p \<Rightarrow> (let provisioner = VolumeProvider (pv_source p) in
       if provisioner = [] then Inl (errorf (''not able to identify provisioner for PV '' @ meta_name (pv_meta p)))
       else by_provisioner env w volumes (add_volume provisioner volume m)))"

definition volGroupToSnapshot :: "string \<Rightarrow> string \<Rightarrow> ResourceReference list \<Rightarrow> string \<Rightarrow> VolumeSnapshot" where
  "volGroupToSnapshot backup provisioner vols uuid = \<lparr>
     sh_meta = zero_meta\<lparr>meta_name := ''snapshot-'' @ uuid,
       meta_labels := [LabelBackupName \<mapsto> backup, LabelProvisionerName \<mapsto> provisioner]\<rparr>,
     sh_backupName = Some backup, sh_provider = Some provisioner, sh_list = vols,
     sh_readyToUse = None, sh_failureReason = [], sh_states = []\<rparr>"

definition kahuSnapshot ::
  "'w volume_env \<Rightarrow> string \<Rightarrow> string \<Rightarrow> ResourceReference list \<Rightarrow> ('w vols, goerr + VolumeSnapshot) state" where
  "kahuSnapshot env backup provisioner volumes = do {
     uuid \<leftarrow> volcall (ve_uuid env) (\<lambda>_. []);
     let req = volGroupToSnapshot backup provisioner volumes uuid;
     volcall (ve_createSnapshot env req) (\<lambda>r. [VlSnapshot req r]) }"

fun create_snapshots ::
  "'w volume_env \<Rightarrow> snapshoter \<Rightarrow> (string \<times> ResourceReference list) list \<Rightarrow> ('w vols, snapshoter \<times> goerr option) state" where
  "create_snapshots env s [] = State_Monad.return (s, None)"
| "create_snapshots env s ((provider, resources) # rest) = do {
     snapshot \<leftarrow> kahuSnapshot env (GetBackupName (sn_group s)) provider resources;
     (case snapshot of
        Inl err \<Rightarrow> State_Monad.return (s, Some err)
      | Inr snap \<Rightarrow> create_snapshots env (s\<lparr>sn_ids := insert (sh_name snap) (sn_ids s)\<rparr>) rest) }"

definition snapshot_Apply :: "'w volume_env \<Rightarrow> snapshoter \<Rightarrow> ('w vols, snapshoter \<times> goerr option) state" where
  "snapshot_Apply env s = (case GetVolumes (sn_group s) of (volumes, readyToUse) \<Rightarrow>
     if \<not> readyToUse then State_Monad.return (s, Some (errorf (''volume group not ready to use '' @ GetGroupName (sn_group s))))
     else do {
       grouped \<leftarrow> volask (\<lambda>w. by_provisioner env w volumes []);
       (case grouped of
          Inl err \<Rightarrow> State_Monad.return (s, Some err)
        | Inr byProvisioner \<Rightarrow> create_snapshots env s (ve_visit env byProvisioner)) })"

definition snapshotReadyToUse :: "VolumeSnapshot \<Rightarrow> bool" where
  "snapshotReadyToUse s \<longleftrightarrow> sh_readyToUse s \<noteq> None \<and> sh_readyToUse s = Some True"

definition verifySnapshotStatus :: "VolumeSnapshot \<Rightarrow> bool \<times> goerr option" where
  "verifySnapshotStatus s =
     (if meta_deletionTimestamp (sh_meta s) \<noteq> None then (False, Some (errorf ''snapshot is being deleted''))
      else if snapshotReadyToUse s then (True, None)
      else if length (sh_failureReason s) \<noteq> 0 then (False, Some (errorf (sh_failureReason s)))
      else (False, None))"

definition verify_snapshot :: "'w volume_env \<Rightarrow> string \<Rightarrow> ('w vols, bool \<times> goerr option) state" where
  "verify_snapshot env snapshotID = do {
     got \<leftarrow> volcall (\<lambda>w. (ve_snapshotGet env snapshotID w, w)) (\<lambda>r. [VlRead snapshotID r]);
     State_Monad.return (case got of
        Inl err \<Rightarrow> if \<not> IsNotFound (Some err) then (False, Some err) else (False, None)
      | Inr snapshot \<Rightarrow> (case verifySnapshotStatus snapshot of
          (_, Some err) \<Rightarrow> (False, Some err) | (successful, None) \<Rightarrow> (successful, None))) }"

definition tick :: "'w volume_env \<Rightarrow> 'w vols \<Rightarrow> nat \<times> 'w vols" where
  "tick env s = (case ve_tick env (vl_world s) of (extra, w) \<Rightarrow> (extra, s\<lparr>vl_world := w\<rparr>))"

definition waitForSnapshotToReady :: "'w volume_env \<Rightarrow> string \<Rightarrow> string \<Rightarrow> nat \<Rightarrow> ('w vols, goerr option) state" where
  "waitForSnapshotToReady env refName snapshotID timeout = liftst (waitForSnapshotStatus (tick env) (verify_snapshot env snapshotID)
     (errorf (''timed out waiting for external-snapshotting of '' @ refName @ '' backup '')) timeout)"

fun wait_all :: "'w volume_env \<Rightarrow> string \<Rightarrow> nat \<Rightarrow> string list \<Rightarrow> ('w vols, goerr option) state" where
  "wait_all env refName timeout [] = State_Monad.return None"
| "wait_all env refName timeout (snapshotId # ids) = do {
     err \<leftarrow> waitForSnapshotToReady env refName snapshotId timeout;
     if err \<noteq> None then State_Monad.return err else wait_all env refName timeout ids }"

definition WaitForSnapshotToReady :: "'w volume_env \<Rightarrow> snapshoter \<Rightarrow> string \<Rightarrow> nat \<Rightarrow> ('w vols, goerr option) state" where
  "WaitForSnapshotToReady env s refName timeout = wait_all env refName timeout (sets_List (sn_ids s))"

fun get_snapshots :: "'w volume_env \<Rightarrow> string list \<Rightarrow> 'w \<Rightarrow> goerr + VolumeSnapshot list" where
  "get_snapshots env [] w = Inr []"
| "get_snapshots env (i # is) w = (case ve_snapshotGet env i w of
     Inl err \<Rightarrow> Inl err
   | Inr s \<Rightarrow> (case get_snapshots env is w of Inl err \<Rightarrow> Inl err | Inr ss \<Rightarrow> Inr (s # ss)))"

definition GetSnapshots :: "'w volume_env \<Rightarrow> snapshoter \<Rightarrow> 'w \<Rightarrow> goerr + VolumeSnapshot list" where
  "GetSnapshots env s w = get_snapshots env (sets_List (sn_ids s)) w"

definition snapshot_Delete :: "snapshoter \<Rightarrow> VolumeSnapshot option \<times> goerr option" where
  "snapshot_Delete s = (None, None)"

section \<open>Backup of the snapshots\<close>

definition KahuSnapshot_kind :: string where "KahuSnapshot_kind = ''VolumeSnapshot''"

definition BySnapshot :: "'w volume_env \<Rightarrow> snapshoter \<Rightarrow> 'w \<Rightarrow> goerr + ResourceReference list" where
  "BySnapshot env s w = (case GetSnapshots env s w of
     Inl err \<Rightarrow> Inl err
   | Inr snaps \<Rightarrow> Inr (map (\<lambda>x. \<lparr>rf_kind = KahuSnapshot_kind, rf_namespace = meta_namespace (sh_meta x), rf_name = sh_name x\<rparr>) snaps))"

definition ByVolumes :: "VolumeGroup \<Rightarrow> ResourceReference list" where
  "ByVolumes vg = (case GetVolumes vg of (volumes, _) \<Rightarrow>
     map (\<lambda>v. \<lparr>rf_kind = PVC_kind, rf_namespace = rf_namespace v, rf_name = rf_name v\<rparr>) volumes)"

definition snapshot_content :: "string \<Rightarrow> string \<Rightarrow> ResourceReference \<Rightarrow> string \<Rightarrow> int \<Rightarrow> VolumeBackupContent" where
  "snapshot_content backupName provider ref uuid now = zero_VBC\<lparr>
     vb_meta := zero_meta\<lparr>meta_name := ''vbc-'' @ uuid,
        meta_labels := [volumeContentBackupLabel \<mapsto> backupName, volumeContentVolumeProvider \<mapsto> provider]\<rparr>,
     vb_backupName := backupName, vb_provider := Some provider, vb_parameters := Map.empty,
     vb_sourceRef := Some (rf_name ref), vb_phase := VBCPhaseInit, vb_startTimestamp := Some now\<rparr>"

text \<open>The provider of a snapshot is dereferenced without a check.\<close>

definition ensureVBCWithBackupSourceRef ::
  "'w volume_env \<Rightarrow> string \<Rightarrow> ResourceReference \<Rightarrow> ('w vols, sres) state" where
  "ensureVBCWithBackupSourceRef env backupName snapshotRef = do {
     got \<leftarrow> volask (ve_snapshotGet env (rf_name snapshotRef));
     (case got of
        Inl err \<Rightarrow> State_Monad.return (Fail (wrap err ''unable to get volume snapshot''))
      | Inr snap \<Rightarrow> (case sh_provider snap of
          None \<Rightarrow> State_Monad.return Crash
        | Some snapshotProvider \<Rightarrow> do {
            now \<leftarrow> volask (ve_now env);
            uuid \<leftarrow> volcall (ve_uuid env) (\<lambda>_. []);
            let content = snapshot_content backupName snapshotProvider snapshotRef uuid now;
            err \<leftarrow> volcall (ve_createContent env content) (\<lambda>e. [VlContent content (e = None)]);
            State_Monad.return (case err of None \<Rightarrow> Ok
              | Some e \<Rightarrow> Fail (wrap e ''unable to create volume backup content'')) })) }"

definition backup_Apply :: "'w volume_env \<Rightarrow> ResourceReference list \<Rightarrow> string \<Rightarrow> ('w vols, sres) state" where
  "backup_Apply env backupSourceRef backupName = each (\<lambda>sourceRef.
     if rf_kind sourceRef = KahuSnapshot_kind then ensureVBCWithBackupSourceRef env backupName sourceRef
     else State_Monad.return Ok) backupSourceRef"

definition backup_Delete :: "ResourceReference list \<Rightarrow> goerr option" where "backup_Delete b = None"

section \<open>Restore of volumes\<close>

text \<open>The restore side of the package is not implemented: its factory hands out nil, and its operations do
  nothing.\<close>

definition restore_ByVolumeGroup :: "VolumeGroup \<Rightarrow> unit option \<times> goerr option" where "restore_ByVolumeGroup g = (None, None)"
definition restore_Apply :: "VolumeGroup \<Rightarrow> goerr option" where "restore_Apply g = None"
definition restore_Delete :: "VolumeGroup \<Rightarrow> goerr option" where "restore_Delete g = None"

end
