(* ===== verification/Volume_Pipeline.thy ===== *)
theory Volume_Pipeline
  imports Volumes Backup_Safety
begin

text \<open>
  The volume package behind the backup controller: what grouping does, and what a volume backup of the
  controller that ends well has done in the cluster.
\<close>

section \<open>Volumes by provisioner\<close>

definition provisioner_of :: "'w volume_env \<Rightarrow> 'w \<Rightarrow> ResourceReference \<Rightarrow> string option" where
  "provisioner_of env w v = (case getPV env v w of
     Inl _ \<Rightarrow> None
   | Inr p \<Rightarrow> if VolumeProvider (pv_source p) = [] then None else Some (VolumeProvider (pv_source p)))"

text \<open>The reference: the provisioners in the order of their first volume, each with its volumes in order.\<close>

definition groups :: "(ResourceReference \<Rightarrow> string) \<Rightarrow> ResourceReference list \<Rightarrow> (string \<times> ResourceReference list) list" where
  "groups f vs = map (\<lambda>p. (p, filter (\<lambda>v. f v = p) vs)) (rev (remdups (rev (map f vs))))"

lemma add_volume_map:
  "distinct ps \<Longrightarrow> add_volume p v (map (\<lambda>q. (q, g q)) ps) =
     (if p \<in> set ps then map (\<lambda>q. (q, if q = p then g q @ [v] else g q)) ps
      else map (\<lambda>q. (q, g q)) ps @ [(p, [v])])"
  by (induction ps) auto

lemma groups_snoc: "groups f (vs @ [v]) = add_volume (f v) v (groups f vs)"
proof (cases "f v \<in> f ` set vs")
  case True
  then show ?thesis by (auto simp: groups_def add_volume_map intro!: map_cong)
next
  case False
  then have "filter (\<lambda>x. f x = f v) vs = []" by (metis (mono_tags, lifting) filter_False image_eqI)
  then show ?thesis using False by (auto simp: groups_def add_volume_map intro!: map_cong)
qed

lemma by_provisioner_exact:
  assumes "f = (\<lambda>v. the (provisioner_of env w v))"
  shows "(\<forall>v \<in> set vs. provisioner_of env w v \<noteq> None) \<Longrightarrow>
      by_provisioner env w vs (groups f us) = Inr (groups f (us @ vs))"
    and "(\<exists>v \<in> set vs. provisioner_of env w v = None) \<Longrightarrow> isl (by_provisioner env w vs m)"
proof (induction vs arbitrary: us m)
  case (Cons v vs)
  {
    case 1
    then obtain p where "getPV env v w = Inr p" "VolumeProvider (pv_source p) \<noteq> []" "f v = VolumeProvider (pv_source p)"
      by (auto simp: provisioner_of_def assms split: sum.splits if_splits)
    then show ?case using Cons.IH(1) [of "us @ [v]"] 1 by (simp add: groups_snoc)
  next
    case 2
    then show ?case using Cons.IH(2)
      by (auto simp: provisioner_of_def Let_def split: sum.splits if_splits)
  }
qed auto

text \<open>Grouping loses and doubles nothing.\<close>

lemma mset_groups: "mset (concat (map snd (groups f vs))) = mset vs"
proof (induction vs rule: rev_induct)
  case (snoc v vs)
  have "mset (concat (map snd (add_volume p v m))) = add_mset v (mset (concat (map snd m)))" for p m
    by (induction m) auto
  then show ?case using snoc by (simp add: groups_snoc)
qed (simp add: groups_def)

lemma distinct_groups: "distinct (map fst (groups f vs))"
  by (simp add: groups_def comp_def)

section \<open>What the log shows\<close>

fun ev_requested :: "volume_event \<Rightarrow> VolumeSnapshot list" where
  "ev_requested (VlSnapshot q _) = [q]" | "ev_requested _ = []"

fun ev_created :: "volume_event \<Rightarrow> VolumeSnapshot list" where
  "ev_created (VlSnapshot _ (Inr x)) = [x]" | "ev_created _ = []"

fun ev_content :: "volume_event \<Rightarrow> VolumeBackupContent list" where
  "ev_content (VlContent c True) = [c]" | "ev_content _ = []"

definition requested :: "volume_event list \<Rightarrow> VolumeSnapshot list" where "requested l = concat (map ev_requested l)"
definition created :: "volume_event list \<Rightarrow> VolumeSnapshot list" where "created l = concat (map ev_created l)"
definition contents :: "volume_event list \<Rightarrow> VolumeBackupContent list" where "contents l = concat (map ev_content l)"

lemma log_simps [simp]:
  "requested [] = []" "created [] = []" "contents [] = []"
  "requested (e # l) = ev_requested e @ requested l" "created (e # l) = ev_created e @ created l"
  "contents (e # l) = ev_content e @ contents l"
  "requested (l @ l') = requested l @ requested l'" "created (l @ l') = created l @ created l'"
  "contents (l @ l') = contents l @ contents l'"
  by (simp_all add: requested_def created_def contents_def)

definition seen_ready :: "string \<Rightarrow> volume_event list \<Rightarrow> bool" where
  "seen_ready i l \<longleftrightarrow> (\<exists>x. VlRead i (Inr x) \<in> set l \<and> verifySnapshotStatus x = (True, None))"

lemma run_volcall [simp]: "run_state (volcall f ev) s = (case f (vl_world s) of (r, w) \<Rightarrow>
     (r, s\<lparr>vl_world := w, vl_log := vl_log s @ ev r\<rparr>))"
  by (simp add: volcall_def)

lemma run_volask [simp]: "run_state (volask f) s = (f (vl_world s), s)"
  by (simp add: volask_def)

lemma create_snapshots_run:
  assumes "run_state (create_snapshots env sn grp) v = ((sn', None), v')"
  shows "\<exists>l. vl_log v' = vl_log v @ l \<and> map (\<lambda>q. (the (sh_provider q), sh_list q)) (requested l) = grp \<and>
     length (created l) = length grp \<and> sn_ids sn' = sn_ids sn \<union> sh_name ` set (created l) \<and> contents l = [] \<and>
     sn_group sn' = sn_group sn"
  using assms
proof (induction grp arbitrary: sn v)
  case (Cons g grp)
  obtain p vs where g: "g = (p, vs)" by fastforce
  obtain uuid w1 where u: "ve_uuid env (vl_world v) = (uuid, w1)" by fastforce
  let ?req = "volGroupToSnapshot (GetBackupName (sn_group sn)) p vs uuid"
  obtain r w2 where c: "ve_createSnapshot env ?req w1 = (r, w2)" by fastforce
  from Cons.prems obtain x where r: "r = Inr x"
    by (cases r) (auto simp: g kahuSnapshot_def u c Let_def)
  let ?v = "v\<lparr>vl_world := w2, vl_log := vl_log v @ [VlSnapshot ?req (Inr x)]\<rparr>"
  have "run_state (create_snapshots env (sn\<lparr>sn_ids := insert (sh_name x) (sn_ids sn)\<rparr>) grp) ?v = ((sn', None), v')"
    using Cons.prems by (simp add: g kahuSnapshot_def u c r Let_def)
  from Cons.IH [OF this] obtain l where "vl_log v' = vl_log ?v @ l"
      "map (\<lambda>q. (the (sh_provider q), sh_list q)) (requested l) = grp" "length (created l) = length grp"
      "sn_ids sn' = insert (sh_name x) (sn_ids sn) \<union> sh_name ` set (created l)" "contents l = []" "sn_group sn' = sn_group sn"
    by auto
  then show ?case
    by (intro exI [of _ "VlSnapshot ?req (Inr x) # l"]) (auto simp: g volGroupToSnapshot_def)
qed simp

lemma verify_snapshot_tr:
  "tr vl_log (\<lambda>r l. requested l = [] \<and> created l = [] \<and> contents l = [] \<and> (r = (True, None) \<longrightarrow> seen_ready i l))
     (verify_snapshot env i)"
  by (rule trI) (auto simp: verify_snapshot_def seen_ready_def split: sum.splits prod.splits option.splits if_splits)

lemma wait_tr:
  "tr vl_log (\<lambda>r l. requested l = [] \<and> created l = [] \<and> contents l = [] \<and> (r = None \<longrightarrow> seen_ready i l))
     (waitForSnapshotToReady env refName i timeout)"
  unfolding waitForSnapshotToReady_def
  by (rule tr_wait [OF _ verify_snapshot_tr [of i env]]) (auto simp: tick_def seen_ready_def split: prod.splits)

lemma wait_all_tr:
  "tr vl_log (\<lambda>r l. requested l = [] \<and> created l = [] \<and> contents l = [] \<and> (r = None \<longrightarrow> list_all (\<lambda>i. seen_ready i l) is))
     (wait_all env refName timeout is)"
proof (induction "is")
  case (Cons i "is")
  have more: "seen_ready j l \<or> seen_ready j l' \<Longrightarrow> seen_ready j (l @ l')" for j l l' by (auto simp: seen_ready_def)
  show ?case unfolding wait_all.simps
    by (rule tr_bind [OF wait_tr [of i]], rule tr_if)
       (auto intro!: tr_return tr_weaken [OF Cons.IH] simp: more list_all_iff)
qed (simp add: tr_return)

lemma content_run:
  assumes "run_state (ensureVBCWithBackupSourceRef env name ref) v = (Ok, v')"
  shows "\<exists>c. vl_log v' = vl_log v @ [VlContent c True] \<and> vb_backupName c = name \<and> vb_sourceRef c = Some (rf_name ref)"
  using assms by (auto simp: ensureVBCWithBackupSourceRef_def Let_def snapshot_content_def
      split: sum.splits option.splits prod.splits)

lemma backup_Apply_run:
  assumes "run_state (backup_Apply env refs name) v = (Ok, v')"
  shows "\<exists>l. vl_log v' = vl_log v @ l \<and> requested l = [] \<and> created l = [] \<and>
     map (\<lambda>c. (vb_backupName c, vb_sourceRef c)) (contents l) =
     map (\<lambda>r. (name, Some (rf_name r))) (filter (\<lambda>r. rf_kind r = KahuSnapshot_kind) refs)"
  using assms
proof (induction refs arbitrary: v)
  case (Cons r refs)
  let ?m = "if rf_kind r = KahuSnapshot_kind then ensureVBCWithBackupSourceRef env name r else State_Monad.return Ok"
  obtain a v1 where one: "run_state ?m v = (a, v1)" by fastforce
  then have "a = Ok" "run_state (backup_Apply env refs name) v1 = (Ok, v')"
    using Cons.prems by (auto simp: backup_Apply_def seq_def split: if_splits)
  moreover obtain l where l: "vl_log v' = vl_log v1 @ l" "requested l = []" "created l = []"
      "map (\<lambda>c. (vb_backupName c, vb_sourceRef c)) (contents l) =
       map (\<lambda>r. (name, Some (rf_name r))) (filter (\<lambda>r. rf_kind r = KahuSnapshot_kind) refs)"
    using Cons.IH [OF calculation(2)] by blast
  ultimately show ?case
  proof (cases "rf_kind r = KahuSnapshot_kind")
    case True
    then obtain c where "vl_log v1 = vl_log v @ [VlContent c True]" "vb_backupName c = name" "vb_sourceRef c = Some (rf_name r)"
      using content_run [of env name r v v1] one \<open>a = Ok\<close> by auto
    then show ?thesis using l True by (intro exI [of _ "VlContent c True # l"]) simp
  next
    case False
    then show ?thesis using l one by (intro exI [of _ l]) simp
  qed
qed (simp add: backup_Apply_def)

lemma get_snapshots_named:
  assumes "\<And>n w x. ve_snapshotGet env n w = Inr x \<Longrightarrow> sh_name x = n"
  shows "get_snapshots env is w = Inr ss \<Longrightarrow> map sh_name ss = is"
  by (induction "is" arbitrary: ss) (auto split: sum.splits dest: assms)

section \<open>The package as the backup controller calls it\<close>

text \<open>
  The objects of the package are pointers. They live in a heap, one list for each type, and the address
  of an object is its position in unary. A panic, which ends the process, is reported as an error here.
\<close>

record 'w vheap =
  vp_vols :: "'w vols"
  vp_groups :: "VolumeGroup list"
  vp_snaps :: "snapshoter list"
  vp_backups :: "ResourceReference list list"

definition address :: "'a list \<Rightarrow> string" where "address xs = replicate (length xs) CHR ''*''"

definition on_vols :: "('w vols, 'a) state \<Rightarrow> 'w vheap \<Rightarrow> 'a \<times> 'w vheap" where
  "on_vols m h = (case run_state m (vp_vols h) of (r, v) \<Rightarrow> (r, h\<lparr>vp_vols := v\<rparr>))"

definition waitForSnapshotTimeout :: nat where "waitForSnapshotTimeout = 10 * 60 * 1000"

definition kahu_volumes :: "'w volume_env \<Rightarrow> 'w vheap volume_ops" where
  "kahu_volumes env = \<lparr>
     vo_groupByPVCs = (\<lambda>name pvcs h. case on_vols (group_ByPVCs env name pvcs) h of
        (Inl err, h1) \<Rightarrow> (Inl err, h1)
      | (Inr g, h1) \<Rightarrow> (Inr (address (vp_groups h1)), h1\<lparr>vp_groups := vp_groups h1 @ [g]\<rparr>)),
     vo_snapshotByGroup = (\<lambda>g h. (Inr (address (vp_snaps h)),
        h\<lparr>vp_snaps := vp_snaps h @ [newSnapshot (vp_groups h ! length g)]\<rparr>)),
     vo_snapshotApply = (\<lambda>sn h. case on_vols (snapshot_Apply env (vp_snaps h ! length sn)) h of
        ((sn', err), h1) \<Rightarrow> (err, h1\<lparr>vp_snaps := (vp_snaps h1)[length sn := sn']\<rparr>)),
     vo_waitForSnapshot = (\<lambda>sn refName h.
        on_vols (WaitForSnapshotToReady env (vp_snaps h ! length sn) refName waitForSnapshotTimeout) h),
     vo_backupBySnapshot = (\<lambda>sn h. case BySnapshot env (vp_snaps h ! length sn) (vl_world (vp_vols h)) of
        Inl err \<Rightarrow> (Inl err, h)
      | Inr refs \<Rightarrow> (Inr (address (vp_backups h)), h\<lparr>vp_backups := vp_backups h @ [refs]\<rparr>)),
     vo_backupApply = (\<lambda>b name h. case on_vols (backup_Apply env (vp_backups h ! length b) name) h of
        (r, h1) \<Rightarrow> (case r of Ok \<Rightarrow> None | Fail e \<Rightarrow> Some e | Crash \<Rightarrow> Some (errorf ''panic''), h1))\<rparr>"

lemma length_address [simp]: "length (address xs) = length xs"
  by (simp add: address_def)

section \<open>A volume backup\<close>

lemma snapshot_Apply_run:
  assumes "run_state (snapshot_Apply env sn) v = ((sn', None), v')" "\<And>m. mset (ve_visit env m) = mset m"
  shows "\<exists>l w. vl_log v' = vl_log v @ l \<and> sn_ids sn' = sn_ids sn \<union> sh_name ` set (created l) \<and> contents l = [] \<and>
     length (created l) = length (requested l) \<and>
     mset (map (\<lambda>q. (the (sh_provider q), sh_list q)) (requested l)) =
     mset (groups (\<lambda>v. the (provisioner_of env w v)) (vg_list (sn_group sn)))"
proof -
  let ?w = "vl_world v" and ?vs = "vg_list (sn_group sn)"
  let ?f = "\<lambda>v. the (provisioner_of env ?w v)"
  have start: "groups ?f [] = []" by (simp add: groups_def)
  obtain m where m: "by_provisioner env ?w ?vs [] = Inr m"
      and run: "run_state (create_snapshots env sn (ve_visit env m)) v = ((sn', None), v')"
    using assms(1) by (auto simp: snapshot_Apply_def GetVolumes_def split: sum.splits)
  have "\<forall>v \<in> set ?vs. provisioner_of env ?w v \<noteq> None"
    using by_provisioner_exact(2) [OF refl, of ?vs env ?w "[]"] m by fastforce
  then have "m = groups ?f ?vs" using by_provisioner_exact(1) [OF refl, of ?vs env ?w "[]"] m by (simp add: start)
  moreover obtain l where "vl_log v' = vl_log v @ l"
      "map (\<lambda>q. (the (sh_provider q), sh_list q)) (requested l) = ve_visit env m"
      "length (created l) = length (ve_visit env m)" "sn_ids sn' = sn_ids sn \<union> sh_name ` set (created l)" "contents l = []"
    using create_snapshots_run [OF run] by blast
  ultimately show ?thesis using assms(2) length_map [of "\<lambda>q. (the (sh_provider q), sh_list q)" "requested l"]
    by (intro exI [of _ l] exI [of _ ?w]) (simp only: simp_thms)
qed

text \<open>The run of a volume backup that ends well, call by call.\<close>

lemma on_vols_run: "on_vols m h = (r, h') \<Longrightarrow> \<exists>v. run_state m (vp_vols h) = (r, v) \<and> h' = h\<lparr>vp_vols := v\<rparr>"
  by (auto simp: on_vols_def split: prod.splits)

lemma processVolumeBackup_run:
  assumes "ce_volume env = kahu_volumes venv" "getVolumes env resources = Inr pvcs" "pvcs \<noteq> []"
    and "run_state (processVolumeBackup env backup resources) s = ((backup', None), s')"
  obtains g sn refs v1 v2 v3 where
    "run_state (group_ByPVCs venv (bk_name backup) pvcs) (vp_vols (bc_world s)) = (Inr g, v1)"
    "run_state (snapshot_Apply venv (newSnapshot g)) v1 = ((sn, None), v2)"
    "run_state (WaitForSnapshotToReady venv sn (bk_name backup) waitForSnapshotTimeout) v2 = (None, v3)"
    "BySnapshot venv sn (vl_world v3) = Inr refs"
    "run_state (backup_Apply venv refs (bk_name backup)) v3 = (Ok, vp_vols (bc_world s'))"
proof -
  let ?vo = "kahu_volumes venv" and ?n = "bk_name backup"
  note run = assms(4) [unfolded processVolumeBackup_def assms(1) Let_def]
  obtain gr h1 where 1: "vo_groupByPVCs ?vo ?n pvcs (bc_world s) = (gr, h1)" by fastforce
  then obtain ga where gr: "gr = Inr ga" using run assms(2,3) by (cases gr) simp_all
  obtain sna h2 where 2: "vo_snapshotByGroup ?vo ga h1 = (Inr sna, h2)" by (simp add: kahu_volumes_def)
  obtain e3 h3 where 3: "vo_snapshotApply ?vo sna h2 = (e3, h3)" by fastforce
  have e3: "e3 = None" using run assms(2,3) 1 gr 2 3 by (cases e3) simp_all
  obtain e4 h4 where 4: "vo_waitForSnapshot ?vo sna ?n h3 = (e4, h4)" by fastforce
  have e4: "e4 = None" using run assms(2,3) 1 gr 2 3 e3 4 by (cases e4) simp_all
  obtain br h5 where 5: "vo_backupBySnapshot ?vo sna h4 = (br, h5)" by fastforce
  then obtain ba where br: "br = Inr ba" using run assms(2,3) 1 gr 2 3 e3 4 e4 by (cases br) simp_all
  have 6: "vo_backupApply ?vo ba ?n h5 = (None, bc_world s')"
    using run assms(2,3) 1 gr 2 3 e3 4 e4 5 br by (auto split: prod.splits)
  obtain g v1 where g: "run_state (group_ByPVCs venv ?n pvcs) (vp_vols (bc_world s)) = (Inr g, v1)"
      and h1: "h1 = (bc_world s)\<lparr>vp_vols := v1, vp_groups := vp_groups (bc_world s) @ [g]\<rparr>" "ga = address (vp_groups (bc_world s))"
    using 1 gr by (auto simp: kahu_volumes_def on_vols_def split: prod.splits sum.splits)
  have h2: "h2 = h1\<lparr>vp_snaps := vp_snaps h1 @ [newSnapshot g]\<rparr>" "sna = address (vp_snaps h1)"
    using 2 h1 by (auto simp: kahu_volumes_def)
  obtain sn v2 where sn: "run_state (snapshot_Apply venv (newSnapshot g)) v1 = ((sn, None), v2)"
      and h3: "h3 = h2\<lparr>vp_vols := v2, vp_snaps := vp_snaps h1 @ [sn]\<rparr>"
    using 3 e3 h2 h1 by (auto simp: kahu_volumes_def on_vols_def list_update_append split: prod.splits)
  obtain v3 where wait: "run_state (WaitForSnapshotToReady venv sn ?n waitForSnapshotTimeout) v2 = (None, v3)"
      and h4: "h4 = h3\<lparr>vp_vols := v3\<rparr>"
    using 4 e4 h3 h2 h1 by (auto simp: kahu_volumes_def on_vols_def split: prod.splits)
  obtain refs where refs: "BySnapshot venv sn (vl_world v3) = Inr refs"
      and h5: "h5 = h4\<lparr>vp_backups := vp_backups h4 @ [refs]\<rparr>" "ba = address (vp_backups h4)"
    using 5 br h4 h3 h2 h1 by (auto simp: kahu_volumes_def split: sum.splits)
  have "run_state (backup_Apply venv refs ?n) v3 = (Ok, vp_vols (bc_world s'))"
    using 6 h5 h4 by (auto simp: kahu_volumes_def on_vols_def split: prod.splits sres.splits dest!: sym [of _ "bc_world s'"])
  then show thesis using that g sn wait refs by blast
qed

lemma group_ByPVCs_run:
  assumes "run_state (group_ByPVCs env n pvcs) v = (Inr g, v1)"
  shows "\<exists>q. vl_log v1 = vl_log v @ [VlGroup q (Inr g)] \<and> vg_list q = volGroupSpecByPVCs pvcs \<and> vg_backup q = n"
  using assms by (auto simp: group_ByPVCs_def newGroup_def Let_def split: prod.splits)

text \<open>Go visits every entry of a map once, and the server answers with the object that was asked for.\<close>

definition volume_laws :: "'w volume_env \<Rightarrow> bool" where
  "volume_laws env \<longleftrightarrow> (\<forall>m. mset (ve_visit env m) = mset m) \<and>
     (\<forall>n w x. ve_snapshotGet env n w = Inr x \<longrightarrow> sh_name x = n)"

text \<open>C24: a volume backup of one or more claims that ends without an error has made one group of the claims;
  one snapshot per provisioner of the group's volumes, each with exactly the volumes of its provisioner; has
  read every snapshot as ready; and has made one backup content per snapshot, which refers to it.\<close>

theorem volume_backup_complete:
  assumes "ce_volume env = kahu_volumes venv" "getVolumes env resources = Inr pvcs" "pvcs \<noteq> []"
    and run: "run_state (processVolumeBackup env backup resources) s = ((backup', None), s')"
    and laws: "volume_laws venv"
  shows "\<exists>q g l w. vl_log (vp_vols (bc_world s')) = vl_log (vp_vols (bc_world s)) @ VlGroup q (Inr g) # l \<and>
     vg_list q = volGroupSpecByPVCs pvcs \<and>
     mset (map (\<lambda>x. (the (sh_provider x), sh_list x)) (requested l)) =
       mset (groups (\<lambda>v. the (provisioner_of venv w v)) (vg_list g)) \<and>
     length (created l) = length (requested l) \<and>
     list_all (\<lambda>x. seen_ready (sh_name x) l) (created l) \<and>
     map (\<lambda>c. (vb_backupName c, vb_sourceRef c)) (contents l) =
       map (\<lambda>i. (bk_name backup, Some i)) (sorted_list_of_set (sh_name ` set (created l)))"
proof -
  obtain g sn refs v1 v2 v3 where
    1: "run_state (group_ByPVCs venv (bk_name backup) pvcs) (vp_vols (bc_world s)) = (Inr g, v1)" and
    2: "run_state (snapshot_Apply venv (newSnapshot g)) v1 = ((sn, None), v2)" and
    3: "run_state (WaitForSnapshotToReady venv sn (bk_name backup) waitForSnapshotTimeout) v2 = (None, v3)" and
    4: "BySnapshot venv sn (vl_world v3) = Inr refs" and
    5: "run_state (backup_Apply venv refs (bk_name backup)) v3 = (Ok, vp_vols (bc_world s'))"
    by (rule processVolumeBackup_run [OF assms(1-4)])
  obtain q where q: "vl_log v1 = vl_log (vp_vols (bc_world s)) @ [VlGroup q (Inr g)]" "vg_list q = volGroupSpecByPVCs pvcs"
    using group_ByPVCs_run [OF 1] by blast
  obtain l1 w where l1: "vl_log v2 = vl_log v1 @ l1" "sn_ids sn = sh_name ` set (created l1)" "contents l1 = []"
      "length (created l1) = length (requested l1)"
      "mset (map (\<lambda>x. (the (sh_provider x), sh_list x)) (requested l1)) =
       mset (groups (\<lambda>v. the (provisioner_of venv w v)) (vg_list g))"
    using snapshot_Apply_run [OF 2] laws unfolding volume_laws_def newSnapshot_def by (simp only: snapshoter.simps Un_empty_left) blast
  obtain l2 where l2: "vl_log v3 = vl_log v2 @ l2" "requested l2 = []" "created l2 = []" "contents l2 = []"
      "list_all (\<lambda>i. seen_ready i l2) (sets_List (sn_ids sn))"
    using trD [OF wait_all_tr 3 [unfolded WaitForSnapshotToReady_def]] by auto
  obtain ss where ss: "get_snapshots venv (sets_List (sn_ids sn)) (vl_world v3) = Inr ss"
      and refs: "refs = map (\<lambda>x. \<lparr>rf_kind = KahuSnapshot_kind, rf_namespace = meta_namespace (sh_meta x), rf_name = sh_name x\<rparr>) ss"
    using 4 by (auto simp: BySnapshot_def GetSnapshots_def split: sum.splits)
  have names: "map sh_name ss = sets_List (sn_ids sn)" using laws by (intro get_snapshots_named [OF _ ss]) (auto simp: volume_laws_def)
  obtain l3 where l3: "vl_log (vp_vols (bc_world s')) = vl_log v3 @ l3" "requested l3 = []" "created l3 = []"
      "map (\<lambda>c. (vb_backupName c, vb_sourceRef c)) (contents l3) = map (\<lambda>r. (bk_name backup, Some (rf_name r))) refs"
    using backup_Apply_run [OF 5] by (auto simp: refs comp_def)
  have "map (\<lambda>r. (bk_name backup, Some (rf_name r))) refs = map (\<lambda>i. (bk_name backup, Some i)) (map sh_name ss)"
    by (simp add: refs)
  moreover have "seen_ready i l2 \<Longrightarrow> seen_ready i (l1 @ l2 @ l3)" for i by (auto simp: seen_ready_def)
  then have "list_all (\<lambda>x. seen_ready (sh_name x) (l1 @ l2 @ l3)) (created l1)"
    using l2(5) l1(2) by (auto simp: list_all_iff)
  ultimately show ?thesis using q l1 l2 l3 names
    by (intro exI [of _ q] exI [of _ g] exI [of _ "l1 @ l2 @ l3"] exI [of _ w]) (simp add: sets_List_def)
qed

definition demo_venv :: "nat volume_env" where
  "demo_venv = \<lparr>ve_uuid = (\<lambda>w. (replicate w CHR ''u'', w + 1)), ve_now = int,
     ve_createGroup = (\<lambda>g w. (Inr g, w)),
     ve_pvcGet = (\<lambda>ns n w. Inr \<lparr>pvc_meta = zero_meta\<lparr>meta_name := n\<rparr>, pvc_volumeName = ''pv-'' @ n, pvc_storageClassName = None\<rparr>),
     ve_pvGet = (\<lambda>n w. Inr \<lparr>pv_meta = zero_meta\<lparr>meta_name := n\<rparr>, pv_source = \<lparr>src_csi = (if n = ''pv-a'' then Some ''csi'' else None),
        src_aws = True, src_azureDisk = False, src_azureFile = False, src_cephFS = False\<rparr>, pv_claimRef = None\<rparr>),
     ve_createSnapshot = (\<lambda>x w. (Inr x, w)),
     ve_snapshotGet = (\<lambda>n w. Inr \<lparr>sh_meta = zero_meta\<lparr>meta_name := n\<rparr>, sh_backupName = None, sh_provider = Some ''csi'',
        sh_list = [], sh_readyToUse = Some True, sh_failureReason = [], sh_states = []\<rparr>),
     ve_createContent = (\<lambda>c w. (None, w)), ve_visit = rev, ve_tick = (\<lambda>w. (7, w + 1))\<rparr>"

definition demo_volume_ctrl :: "(nat vheap, (string \<times> unstructured) list) ctrl_env" where
  "demo_volume_ctrl = (demo_ctrl None)\<lparr>ce_volume := kahu_volumes demo_venv,
     ce_res := demo_res\<lparr>re_dep := demo_dep\<lparr>de_toPVC := (\<lambda>u. Inr \<lparr>pvc_meta = un_meta u, pvc_volumeName = [],
       pvc_storageClassName = None\<rparr>)\<rparr>\<rparr>\<rparr>"

definition demo_claims :: "(string \<times> unstructured) list" where
  "demo_claims = map (\<lambda>n. (n, demo_un PVC_kind ''ns'' n)) [''a'', ''b'', ''c'']"

definition demo_heap :: "nat vheap bctrl" where
  "demo_heap = \<lparr>bc_processed = NewStore (\<lambda>b. Inr (bk_name b)),
     bc_world = \<lparr>vp_vols = \<lparr>vl_world = 0, vl_log = []\<rparr>, vp_groups = [], vp_snaps = [], vp_backups = []\<rparr>,
     bc_log = [], bc_supported = SupportedResourceList\<rparr>"

lemma demo_volumes: "getVolumes demo_volume_ctrl demo_claims = Inr (map (\<lambda>n. \<lparr>pvc_meta = un_meta (demo_un PVC_kind ''ns'' n),
     pvc_volumeName = [], pvc_storageClassName = None\<rparr>) [''a'', ''b'', ''c''])"
  by (simp add: getVolumes_def demo_volume_ctrl_def demo_ctrl_def alist_indexer_def GetResourcesByKind_def demo_claims_def
      demo_res_def demo_dep_def demo_un_def resourceIndex_def)

lemmas demo_volume_defs = kahu_volumes_def demo_venv_def on_vols_def group_ByPVCs_def newGroup_def volGroupSpecByPVCs_def
  newSnapshot_def snapshot_Apply_def GetVolumes_def GetBackupName_def getPV_def pvByPVC_def VolumeProvider_def kahuSnapshot_def
  volGroupToSnapshot_def

lemma demo_wait: "\<exists>v'. run_state (waitForSnapshotToReady demo_venv n i waitForSnapshotTimeout) v = (None, v')"
  unfolding waitForSnapshotToReady_def run_liftst
  by (subst waitForSnapshotStatus.simps)
     (simp add: tick_def demo_venv_def verify_snapshot_def verifySnapshotStatus_def snapshotReadyToUse_def
       waitForSnapshotTimeout_def initBackoff_def zero_meta_def)

lemma demo_wait_all: "\<exists>v'. run_state (wait_all demo_venv n waitForSnapshotTimeout is) v = (None, v')"
proof (induction "is" arbitrary: v)
  case (Cons i "is")
  obtain v1 where "run_state (waitForSnapshotToReady demo_venv n i waitForSnapshotTimeout) v = (None, v1)"
    using demo_wait by blast
  then show ?case using Cons.IH by simp
qed simp

lemma demo_get_snapshots: "\<exists>ss. get_snapshots demo_venv is w = Inr ss"
  by (induction "is") (auto simp: demo_venv_def)

lemma demo_backup_Apply: "\<exists>v'. run_state (backup_Apply demo_venv refs n) v = (Ok, v')"
proof (induction refs arbitrary: v)
  case (Cons r refs)
  have "\<exists>v1. run_state (if rf_kind r = KahuSnapshot_kind then ensureVBCWithBackupSourceRef demo_venv n r else State_Monad.return Ok) v = (Ok, v1)"
    by (simp add: ensureVBCWithBackupSourceRef_def demo_venv_def Let_def)
  then show ?case using Cons.IH by (auto simp: backup_Apply_def seq_def)
qed (simp add: backup_Apply_def)

lemma demo_create: "\<exists>sn' v'. run_state (create_snapshots demo_venv sn m) v = ((sn', None), v')"
  by (induction m arbitrary: sn v) (auto simp: kahuSnapshot_def demo_venv_def Let_def)

lemma demo_by_provisioner: "list_all (\<lambda>v. rf_kind v = PVC_kind) vs \<Longrightarrow> \<exists>m'. by_provisioner demo_venv w vs m = Inr m'"
  by (induction vs arbitrary: m) (auto simp: getPV_def pvByPVC_def demo_venv_def VolumeProvider_def Let_def)

lemma demo_snapshot_Apply:
  "list_all (\<lambda>v. rf_kind v = PVC_kind) (vg_list (sn_group sn)) \<Longrightarrow>
     \<exists>sn' v'. run_state (snapshot_Apply demo_venv sn) v = ((sn', None), v')"
  using demo_by_provisioner [of "vg_list (sn_group sn)" "vl_world v" "[]"] demo_create
  by (auto simp: snapshot_Apply_def GetVolumes_def)

lemma demo_group_ByPVCs: "\<exists>g v'. run_state (group_ByPVCs demo_venv n pvcs) v = (Inr g, v') \<and> list_all (\<lambda>v. rf_kind v = PVC_kind) (vg_list g)"
  by (simp add: group_ByPVCs_def newGroup_def demo_venv_def volGroupSpecByPVCs_def Let_def list_all_iff)

lemma demo_volume_backup:
  "\<exists>s'. run_state (processVolumeBackup demo_volume_ctrl zero_Backup demo_claims) demo_heap = ((zero_Backup, None), s')"
proof -
  let ?vo = "kahu_volumes demo_venv" and ?n = "bk_name zero_Backup" and ?h = "bc_world demo_heap"
  obtain pvcs where pvcs: "getVolumes demo_volume_ctrl demo_claims = Inr pvcs" "pvcs \<noteq> []" using demo_volumes by simp
  obtain g v1 where g: "run_state (group_ByPVCs demo_venv ?n pvcs) (vp_vols ?h) = (Inr g, v1)"
      "list_all (\<lambda>v. rf_kind v = PVC_kind) (vg_list g)" using demo_group_ByPVCs by blast
  obtain sn v2 where sn: "run_state (snapshot_Apply demo_venv (newSnapshot g)) v1 = ((sn, None), v2)"
    using demo_snapshot_Apply [of "newSnapshot g" v1] g(2) by (auto simp: newSnapshot_def)
  obtain v3 where v3: "run_state (WaitForSnapshotToReady demo_venv sn ?n waitForSnapshotTimeout) v2 = (None, v3)"
    using demo_wait_all unfolding WaitForSnapshotToReady_def by blast
  obtain refs where refs: "BySnapshot demo_venv sn (vl_world v3) = Inr refs"
    using demo_get_snapshots [of "sets_List (sn_ids sn)" "vl_world v3"] by (auto simp: BySnapshot_def GetSnapshots_def)
  obtain v4 where v4: "run_state (backup_Apply demo_venv refs ?n) v3 = (Ok, v4)" using demo_backup_Apply by blast
  have "ce_volume demo_volume_ctrl = ?vo" by (simp add: demo_volume_ctrl_def)
  then show ?thesis
    using pvcs g(1) sn v3 refs v4
    by (simp add: processVolumeBackup_def Let_def kahu_volumes_def on_vols_def demo_heap_def address_def)
qed

lemma demo_laws: "volume_laws demo_venv"
  by (auto simp: volume_laws_def demo_venv_def)

theorem volume_backup_complete_witness:
  "\<exists>s' q g l. run_state (processVolumeBackup demo_volume_ctrl zero_Backup demo_claims) demo_heap = ((zero_Backup, None), s') \<and>
     vl_log (vp_vols (bc_world s')) = VlGroup q (Inr g) # l \<and> map rf_name (vg_list q) = [''a'', ''b'', ''c''] \<and>
     length (created l) = length (requested l) \<and> list_all (\<lambda>x. seen_ready (sh_name x) l) (created l) \<and>
     map (\<lambda>c. (vb_backupName c, vb_sourceRef c)) (contents l) =
       map (\<lambda>i. ([], Some i)) (sorted_list_of_set (sh_name ` set (created l)))"
proof -
  obtain s' where run: "run_state (processVolumeBackup demo_volume_ctrl zero_Backup demo_claims) demo_heap = ((zero_Backup, None), s')"
    using demo_volume_backup by blast
  have vo: "ce_volume demo_volume_ctrl = kahu_volumes demo_venv" by (simp add: demo_volume_ctrl_def)
  obtain q g l where "vl_log (vp_vols (bc_world s')) = vl_log (vp_vols (bc_world demo_heap)) @ VlGroup q (Inr g) # l"
      "vg_list q = volGroupSpecByPVCs (map (\<lambda>n. \<lparr>pvc_meta = un_meta (demo_un PVC_kind ''ns'' n),
         pvc_volumeName = [], pvc_storageClassName = None\<rparr>) [''a'', ''b'', ''c''])"
      "length (created l) = length (requested l)" "list_all (\<lambda>x. seen_ready (sh_name x) l) (created l)"
      "map (\<lambda>c. (vb_backupName c, vb_sourceRef c)) (contents l) =
         map (\<lambda>i. (bk_name zero_Backup, Some i)) (sorted_list_of_set (sh_name ` set (created l)))"
    using volume_backup_complete [OF vo demo_volumes _ run demo_laws] by auto
  then show ?thesis using run
    by (intro exI [of _ s'] exI [of _ q] exI [of _ g] exI [of _ l])
      (simp add: demo_heap_def zero_Backup_def zero_meta_def volGroupSpecByPVCs_def demo_un_def)
qed

section \<open>Bounds\<close>

lemma wait_reads:
  assumes "run_state (waitForSnapshotToReady env refName i timeout) v = (r, v')"
  shows "length (vl_log v') \<le> length (vl_log v) + timeout div initBackoff"
  using assms unfolding waitForSnapshotToReady_def run_liftst
  by (rule wait_bounded [where n = "\<lambda>v. length (vl_log v)", rotated 2])
     (auto simp: tick_def verify_snapshot_def split: prod.splits)

lemma wait_all_reads:
  "run_state (wait_all env refName timeout is) v = (r, v') \<Longrightarrow>
     length (vl_log v') \<le> length (vl_log v) + length is * (timeout div initBackoff)"
proof (induction "is" arbitrary: v)
  case (Cons i "is")
  obtain e v1 where w: "run_state (waitForSnapshotToReady env refName i timeout) v = (e, v1)" by fastforce
  have "length (vl_log v') \<le> length (vl_log v1) + length is * (timeout div initBackoff)"
    using Cons w by (cases e) auto
  then show ?case using wait_reads [OF w] by simp
qed simp

text \<open>Waiting for the snapshots of a group reads each of them at most 1200 times.\<close>

theorem snapshot_wait_bounded:
  assumes "run_state (WaitForSnapshotToReady env sn refName waitForSnapshotTimeout) v = (r, v')"
  shows "length (vl_log v') \<le> length (vl_log v) + 1200 * card (sn_ids sn)"
proof -
  have "length (sets_List (sn_ids sn)) = card (sn_ids sn)" by (simp add: sets_List_def)
  moreover have "waitForSnapshotTimeout div initBackoff = 1200" by (simp add: waitForSnapshotTimeout_def initBackoff_def)
  ultimately show ?thesis using wait_all_reads [OF assms [unfolded WaitForSnapshotToReady_def]] by (simp add: mult.commute)
qed

definition demo_snapshoter :: snapshoter where
  "demo_snapshoter = \<lparr>sn_group = \<lparr>vg_meta = zero_meta, vg_backup = ''b'', vg_list = []\<rparr>, sn_ids = {''s1'', ''s2''}\<rparr>"

theorem snapshot_wait_bounded_witness:
  "\<exists>r v. run_state (WaitForSnapshotToReady demo_venv demo_snapshoter ''b'' waitForSnapshotTimeout)
      \<lparr>vl_world = 0, vl_log = []\<rparr> = (r, v) \<and> length (vl_log v) \<le> 2400"
proof -
  obtain r v where run: "run_state (WaitForSnapshotToReady demo_venv demo_snapshoter ''b'' waitForSnapshotTimeout)
      \<lparr>vl_world = 0, vl_log = []\<rparr> = (r, v)" by fastforce
  show ?thesis using snapshot_wait_bounded [OF run] run by (auto simp: demo_snapshoter_def)
qed

text \<open>A backup by volumes refers to claims, and the loop over the references only knows snapshots.\<close>

lemma backup_by_volumes_does_nothing:
  "run_state (backup_Apply env (ByVolumes vg) name) v = (Ok, v)"
proof -
  have "list_all (\<lambda>r. rf_kind r \<noteq> KahuSnapshot_kind) refs \<Longrightarrow> run_state (backup_Apply env refs name) v = (Ok, v)" for refs
    by (induction refs) (auto simp: backup_Apply_def seq_def)
  then show ?thesis by (simp add: ByVolumes_def GetVolumes_def list_all_iff KahuSnapshot_kind_def PVC_kind_def)
qed

end
