(* ===== verification/Snapshot_Classes.thy ===== *)
theory Snapshot_Classes
  imports Snapshot_Types Kube_Types Selection
begin

text \<open>
  The table of snapshot classes, \<^verbatim>\<open>controllers/snapshot/classsyncer/snapshotclassync.go\<close>: it follows the
  events of an informer and answers which class to use for a provider or a volume. The state is the map
  \<^verbatim>\<open>defaultSCByProvider\<close>; the event handlers run one after another under the lock. Time stamps are integers.
\<close>

section \<open>The table\<close>

record VolumeSnapshotClass =
  vc_meta :: object_meta
  vc_driver :: string
  vc_created :: int

abbreviation vc_name :: "VolumeSnapshotClass \<Rightarrow> string" where "vc_name c \<equiv> meta_name (vc_meta c)"

type_synonym class_table = "string \<rightharpoonup> VolumeSnapshotClass"

datatype eventType = eventAdd | eventUpdate | eventDelete

definition AnnSnapshotClassDefault :: string where
  "AnnSnapshotClassDefault = ''snapshot.storage.kubernetes.io/is-default-class''"

definition decideDefaultSC :: "VolumeSnapshotClass \<Rightarrow> VolumeSnapshotClass \<Rightarrow> VolumeSnapshotClass" where
  "decideDefaultSC defaultSC sc =
     (if ContainsAnnotation (Some (vc_meta defaultSC)) AnnSnapshotClassDefault then defaultSC
      else if ContainsAnnotation (Some (vc_meta sc)) AnnSnapshotClassDefault then defaultSC
      else if vc_created defaultSC > vc_created sc then sc else defaultSC)"

text \<open>The decision is stored, and then overwritten in any case.\<close>

definition processAdd :: "VolumeSnapshotClass \<Rightarrow> class_table \<Rightarrow> class_table" where
  "processAdd sc m = (let provider = vc_driver sc;
     m1 = (case m provider of Some defaultSC \<Rightarrow> m(provider \<mapsto> decideDefaultSC defaultSC sc) | None \<Rightarrow> m)
   in m1(provider \<mapsto> sc))"

definition processDelete :: "VolumeSnapshotClass \<Rightarrow> class_table \<Rightarrow> class_table" where
  "processDelete sc m = (case m (vc_driver sc) of
     Some defaultSC \<Rightarrow> if vc_name defaultSC = vc_name sc then m(vc_driver sc := None) else m
   | None \<Rightarrow> m)"

text \<open>An object that is not a snapshot class is \<open>None\<close> here.\<close>

definition processSnapshotClass :: "eventType \<times> VolumeSnapshotClass option \<Rightarrow> class_table \<Rightarrow> class_table" where
  "processSnapshotClass ev m = (case ev of (eType, obj) \<Rightarrow> (case obj of
     None \<Rightarrow> m
   | Some sc \<Rightarrow> (case eType of eventAdd \<Rightarrow> processAdd sc m | eventDelete \<Rightarrow> processDelete sc m | eventUpdate \<Rightarrow> m)))"

definition SnapshotClassByProvider :: "class_table \<Rightarrow> string \<Rightarrow> goerr + VolumeSnapshotClass" where
  "SnapshotClassByProvider m provider = (case m provider of
     Some defaultSC \<Rightarrow> Inr defaultSC
   | None \<Rightarrow> Inl (errorf (''default Snapshot class not available for '' @ provider)))"

definition snapshotClassByPV :: "'w kube \<Rightarrow> 'w \<Rightarrow> class_table \<Rightarrow> string \<Rightarrow> goerr + VolumeSnapshotClass" where
  "snapshotClassByPV kube w m name = (case kc_getPV kube name w of
     Inl err \<Rightarrow> Inl err
   | Inr p \<Rightarrow> SnapshotClassByProvider m (VolumeProvider (pv_source p)))"

definition snapshotClassByPVC :: "'w kube \<Rightarrow> 'w \<Rightarrow> class_table \<Rightarrow> string \<Rightarrow> string \<Rightarrow> goerr + VolumeSnapshotClass" where
  "snapshotClassByPVC kube w m name namespace = (case kc_getPVC kube namespace name w of
     Inl err \<Rightarrow> Inl err
   | Inr c \<Rightarrow> if pvc_volumeName c = [] then Inl (errorf (''pvc('' @ namespace @ ''/'' @ name @ '') is not bound''))
       else snapshotClassByPV kube w m (pvc_volumeName c))"

definition SnapshotClassByVolume :: "'w kube \<Rightarrow> 'w \<Rightarrow> class_table \<Rightarrow> ResourceReference \<Rightarrow> goerr + VolumeSnapshotClass" where
  "SnapshotClassByVolume kube w m volume =
     (if rf_kind volume = PVC_kind then snapshotClassByPVC kube w m (rf_name volume) (rf_namespace volume)
      else if rf_kind volume = PV_kind then snapshotClassByPV kube w m (rf_name volume)
      else Inl (errorf (''invalid volume kind ('' @ rf_kind volume @ '')'')))"

definition class_run :: "(eventType \<times> VolumeSnapshotClass option) list \<Rightarrow> class_table" where
  "class_run es = fold processSnapshotClass es Map.empty"

section \<open>Which class is found\<close>

text \<open>An event replaces or removes the class \<open>c\<close> of provider \<open>p\<close>.\<close>

definition displaces :: "string \<Rightarrow> VolumeSnapshotClass \<Rightarrow> eventType \<times> VolumeSnapshotClass option \<Rightarrow> bool" where
  "displaces p c ev = (case ev of
     (eventAdd, Some d) \<Rightarrow> vc_driver d = p
   | (eventDelete, Some d) \<Rightarrow> vc_driver d = p \<and> vc_name d = vc_name c
   | _ \<Rightarrow> False)"

lemma processAdd_simp: "processAdd sc m = m(vc_driver sc \<mapsto> sc)"
  by (auto simp: processAdd_def Let_def split: option.splits)

lemma process_lookup:
  "processSnapshotClass ev m p = Some c \<longleftrightarrow>
     ev = (eventAdd, Some c) \<and> vc_driver c = p \<or> m p = Some c \<and> \<not> displaces p c ev"
  by (cases ev; cases "fst ev"; cases "snd ev")
     (auto simp: processSnapshotClass_def processAdd_simp processDelete_def displaces_def split: option.splits if_splits)

text \<open>The class of a provider is the one added last and not deleted since: neither the default annotation nor
  the age of a class plays a role.\<close>

theorem class_lookup_exact:
  "SnapshotClassByProvider (class_run es) p = Inr c \<longleftrightarrow>
     (\<exists>xs ys. es = xs @ (eventAdd, Some c) # ys \<and> vc_driver c = p \<and> list_all (\<lambda>ev. \<not> displaces p c ev) ys)"
proof -
  have "class_run es p = Some c \<longleftrightarrow>
     (\<exists>xs ys. es = xs @ (eventAdd, Some c) # ys \<and> vc_driver c = p \<and> list_all (\<lambda>ev. \<not> displaces p c ev) ys)"
  proof (induction es rule: rev_induct)
    case (snoc ev es)
    have "class_run (es @ [ev]) p = Some c \<longleftrightarrow>
        ev = (eventAdd, Some c) \<and> vc_driver c = p \<or> class_run es p = Some c \<and> \<not> displaces p c ev"
      by (simp add: class_run_def process_lookup)
    also have "\<dots> \<longleftrightarrow> (\<exists>xs ys. es @ [ev] = xs @ (eventAdd, Some c) # ys \<and> vc_driver c = p \<and> list_all (\<lambda>ev. \<not> displaces p c ev) ys)"
      (is "_ \<longleftrightarrow> (\<exists>xs ys. ?P xs ys)")
    proof
      assume "ev = (eventAdd, Some c) \<and> vc_driver c = p \<or> class_run es p = Some c \<and> \<not> displaces p c ev"
      then show "\<exists>xs ys. ?P xs ys"
      proof
        assume "ev = (eventAdd, Some c) \<and> vc_driver c = p"
        then have "?P es []" by simp
        then show ?thesis by blast
      next
        assume "class_run es p = Some c \<and> \<not> displaces p c ev"
        then obtain xs ys where "es = xs @ (eventAdd, Some c) # ys" "vc_driver c = p" "list_all (\<lambda>ev. \<not> displaces p c ev) ys"
            "\<not> displaces p c ev"
          using snoc.IH by blast
        then have "?P xs (ys @ [ev])" by simp
        then show ?thesis by blast
      qed
    next
      assume "\<exists>xs ys. ?P xs ys"
      then obtain xs ys where xy: "?P xs ys" by blast
      then show "ev = (eventAdd, Some c) \<and> vc_driver c = p \<or> class_run es p = Some c \<and> \<not> displaces p c ev"
        using snoc.IH by (cases ys rule: rev_exhaust) auto
    qed
    finally show ?case .
  qed (simp add: class_run_def)
  then show ?thesis by (auto simp: SnapshotClassByProvider_def split: option.splits)
qed

text \<open>In particular a class annotated as default gives way to one without the annotation that arrives later.\<close>

lemma annotated_default_displaced:
  "vc_driver d = vc_driver c \<Longrightarrow>
     SnapshotClassByProvider (class_run [(eventAdd, Some d), (eventAdd, Some c)]) (vc_driver d) = Inr c"
  by (simp add: class_run_def SnapshotClassByProvider_def processSnapshotClass_def processAdd_simp)

text \<open>The class of a bound claim is that of its volume.\<close>

lemma class_of_claim:
  assumes "kc_getPVC kube ns n w = Inr cl" "pvc_volumeName cl \<noteq> []"
  shows "SnapshotClassByVolume kube w m \<lparr>rf_kind = PVC_kind, rf_namespace = ns, rf_name = n\<rparr> =
     SnapshotClassByVolume kube w m \<lparr>rf_kind = PV_kind, rf_namespace = [], rf_name = pvc_volumeName cl\<rparr>"
  using assms by (simp add: SnapshotClassByVolume_def snapshotClassByPVC_def PVC_kind_def PV_kind_def)

end
