(* ===== verification/Snapshot_CSI.thy ===== *)
theory Snapshot_CSI
  imports Snapshot_Classes "HOL-Library.Sublist"
begin

text \<open>
  Taking CSI snapshots, \<^verbatim>\<open>controllers/snapshot/csi/handler.go\<close>: \<^verbatim>\<open>Handle\<close> creates one CSI snapshot for
  every volume that has none, waits until all of them can be used, and records the outcome.

  The API servers, the clock and the generator of names are functions over a world \<open>'w\<close>, which also
  holds the table of snapshot classes. Of a CSI snapshot the code reads \<^verbatim>\<open>Status.ReadyToUse\<close>: \<open>None\<close> when
  the status or the flag is nil. Reads of the wait and all changes of the cluster are logged.
\<close>

section \<open>Environment\<close>

record csi_snapshot =
  cq_namespace :: string
  cq_name :: string
  cq_claim :: string
  cq_class :: string

record 'w csi_env =
  cn_classes :: "'w \<Rightarrow> class_table"
  cn_uuid :: "'w \<Rightarrow> string \<times> 'w"
  cn_csiCreate :: "csi_snapshot \<Rightarrow> 'w \<Rightarrow> (goerr + csi_snapshot) \<times> 'w"
  cn_csiGet :: "string \<Rightarrow> string \<Rightarrow> 'w \<Rightarrow> goerr + bool option"
  cn_snapshotGet :: "string \<Rightarrow> 'w \<Rightarrow> goerr + VolumeSnapshot"
  cn_updateStatus :: "VolumeSnapshot \<Rightarrow> 'w \<Rightarrow> goerr option \<times> 'w"
  cn_tick :: "'w \<Rightarrow> nat \<times> 'w"

datatype csi_event =
    CsCreate csi_snapshot ResourceReference "goerr + csi_snapshot"
  | CsStatus VolumeSnapshot VolumeSnapshot bool
  | CsRead string "goerr + VolumeSnapshot"
  | CsReadCSI ResourceReference "goerr + bool option"

record 'w csis =
  cs_world :: 'w
  cs_log :: "csi_event list"

definition cscall :: "('w \<Rightarrow> 'r \<times> 'w) \<Rightarrow> ('r \<Rightarrow> csi_event list) \<Rightarrow> ('w csis, 'r) state" where
  "cscall f ev = liftst (\<lambda>s. case f (cs_world s) of (r, w) \<Rightarrow> (r, s\<lparr>cs_world := w, cs_log := cs_log s @ ev r\<rparr>))"

definition csask :: "('w \<Rightarrow> 'r) \<Rightarrow> ('w csis, 'r) state" where
  "csask f = liftst (\<lambda>s. (f (cs_world s), s))"

definition csread :: "('w \<Rightarrow> 'r) \<Rightarrow> ('r \<Rightarrow> csi_event list) \<Rightarrow> ('w csis, 'r) state" where
  "csread f ev = cscall (\<lambda>w. (f w, w)) ev"

definition csiSnapshotTimeout :: nat where "csiSnapshotTimeout = 5 * 60 * 1000"

section \<open>Creating the CSI snapshots\<close>

definition set_csi_ref :: "ResourceReference \<Rightarrow> ResourceReference \<Rightarrow> VolumeSnapshotState list \<Rightarrow> VolumeSnapshotState list" where
  "set_csi_ref pvc ref states = map (\<lambda>st. if rf_name (sst_pvc st) = rf_name pvc \<and> rf_namespace (sst_pvc st) = rf_namespace pvc
     then st\<lparr>sst_csi := Some ref\<rparr> else st) states"

definition applySnapshot :: "'w csi_env \<Rightarrow> string \<Rightarrow> string \<Rightarrow> ResourceReference \<Rightarrow> ('w csis, goerr option) state" where
  "applySnapshot env kahuVolSnapshotName snapshotClassName pvc = do {
     uuid \<leftarrow> cscall (cn_uuid env) (\<lambda>_. []);
     let req = \<lparr>cq_namespace = rf_namespace pvc, cq_name = ''snapshot-'' @ uuid, cq_claim = rf_name pvc, cq_class = snapshotClassName\<rparr>;
     created \<leftarrow> cscall (cn_csiCreate env req) (\<lambda>r. [CsCreate req pvc r]);
     (case created of
        Inl err \<Rightarrow> State_Monad.return (Some err)
      | Inr csiSnapshot \<Rightarrow> do {
          got \<leftarrow> csask (cn_snapshotGet env kahuVolSnapshotName);
          (case got of
             Inl err \<Rightarrow> State_Monad.return (Some err)
           | Inr kahuVolSnapshot \<Rightarrow> do {
               let upd = kahuVolSnapshot\<lparr>sh_states := set_csi_ref pvc
                 \<lparr>rf_kind = [], rf_namespace = cq_namespace csiSnapshot, rf_name = cq_name csiSnapshot\<rparr> (sh_states kahuVolSnapshot)\<rparr>;
               cscall (cn_updateStatus env upd) (\<lambda>e. [CsStatus kahuVolSnapshot upd (e = None)]) }) }) }"

fun apply_snapshots :: "'w csi_env \<Rightarrow> string \<Rightarrow> string \<Rightarrow> VolumeSnapshotState list \<Rightarrow> ('w csis, goerr option) state" where
  "apply_snapshots env name cls [] = State_Monad.return None"
| "apply_snapshots env name cls (snapshotState # sts) =
     (if sst_csi snapshotState \<noteq> None then apply_snapshots env name cls sts
      else do {
        err \<leftarrow> applySnapshot env name cls (sst_pvc snapshotState);
        if err \<noteq> None then State_Monad.return err else apply_snapshots env name cls sts })"

section \<open>Waiting for them\<close>

definition readyToUse :: "bool option \<Rightarrow> bool" where
  "readyToUse status \<longleftrightarrow> status \<noteq> None \<and> status = Some True"

definition checkCSISnapshotStatus :: "'w csi_env \<Rightarrow> ResourceReference \<Rightarrow> ('w csis, bool \<times> goerr option) state" where
  "checkCSISnapshotStatus env csiSnapshot = do {
     got \<leftarrow> csread (cn_csiGet env (rf_namespace csiSnapshot) (rf_name csiSnapshot)) (\<lambda>r. [CsReadCSI csiSnapshot r]);
     State_Monad.return (case got of
        Inl err \<Rightarrow> (False, Some err)
      | Inr None \<Rightarrow> (False, Some (errorf (''CSI snapshot ('' @ rf_name csiSnapshot @ '') status not updated'')))
      | Inr (Some ready) \<Rightarrow> (ready, None)) }"

fun check_states :: "'w csi_env \<Rightarrow> VolumeSnapshotState list \<Rightarrow> ('w csis, bool \<times> goerr option) state" where
  "check_states env [] = State_Monad.return (True, None)"
| "check_states env (snapshotState # sts) = (case sst_csi snapshotState of
     None \<Rightarrow> State_Monad.return (False, Some (errorf ''waiting to populate csi info''))
   | Some ref \<Rightarrow> do {
       (ready, err) \<leftarrow> checkCSISnapshotStatus env ref;
       if err \<noteq> None then State_Monad.return (False, err)
       else if \<not> ready then State_Monad.return (False, None)
       else check_states env sts })"

definition csi_verifySnapshotStatus :: "'w csi_env \<Rightarrow> VolumeSnapshot \<Rightarrow> ('w csis, bool \<times> goerr option) state" where
  "csi_verifySnapshotStatus env snapshot =
     (if readyToUse (sh_readyToUse snapshot) then State_Monad.return (True, None)
      else check_states env (sh_states snapshot))"

definition csi_verifyStatus :: "'w csi_env \<Rightarrow> string \<Rightarrow> ('w csis, bool \<times> goerr option) state" where
  "csi_verifyStatus env snapshotID = do {
     got \<leftarrow> csread (cn_snapshotGet env snapshotID) (\<lambda>r. [CsRead snapshotID r]);
     (case got of
        Inl err \<Rightarrow> State_Monad.return (if \<not> IsNotFound (Some err) then (False, Some err) else (False, None))
      | Inr snapshot \<Rightarrow>
          if meta_deletionTimestamp (sh_meta snapshot) \<noteq> None
          then State_Monad.return (False, Some (errorf (''snapshot('' @ sh_name snapshot @ '') is being deleted'')))
          else if length (sh_failureReason snapshot) \<noteq> 0
          then State_Monad.return (False, Some (errorf (''snapshot('' @ sh_name snapshot @ '') failed already'')))
          else do {
            (ready, err) \<leftarrow> csi_verifySnapshotStatus env snapshot;
            State_Monad.return (if err \<noteq> None then (False, None) else (ready, None)) }) }"

definition csi_tick :: "'w csi_env \<Rightarrow> 'w csis \<Rightarrow> nat \<times> 'w csis" where
  "csi_tick env s = (case cn_tick env (cs_world s) of (extra, w) \<Rightarrow> (extra, s\<lparr>cs_world := w\<rparr>))"

definition csi_waitForSnapshotToReady :: "'w csi_env \<Rightarrow> string \<Rightarrow> nat \<Rightarrow> ('w csis, goerr option) state" where
  "csi_waitForSnapshotToReady env snapshotID timeout = liftst (waitForSnapshotStatus (csi_tick env) (csi_verifyStatus env snapshotID)
     (errorf ''timed out waiting for external-snapshotting'') timeout)"

section \<open>Handling a snapshot\<close>

text \<open>The provider is dereferenced without a check. A wait that fails is recorded as not ready to use, and
  is not an error of the handler.\<close>

definition csi_finish :: "'w csi_env \<Rightarrow> VolumeSnapshot \<Rightarrow> ('w csis, goerr option) state" where
  "csi_finish env snapshot = do {
     werr \<leftarrow> csi_waitForSnapshotToReady env (sh_name snapshot) csiSnapshotTimeout;
     got \<leftarrow> csask (cn_snapshotGet env (sh_name snapshot));
     (case got of
        Inl err \<Rightarrow> State_Monad.return (Some err)
      | Inr kahuVolSnapshot \<Rightarrow> do {
          let upd = kahuVolSnapshot\<lparr>sh_readyToUse := Some (werr = None)\<rparr>;
          cscall (cn_updateStatus env upd) (\<lambda>e. [CsStatus kahuVolSnapshot upd (e = None)]) }) }"

definition Handle :: "'w csi_env \<Rightarrow> VolumeSnapshot \<Rightarrow> ('w csis, sres) state" where
  "Handle env snapshot = (case sh_provider snapshot of
     None \<Rightarrow> State_Monad.return Crash
   | Some provider \<Rightarrow> do {
       cls \<leftarrow> csask (\<lambda>w. SnapshotClassByProvider (cn_classes env w) provider);
       (case cls of
          Inl err \<Rightarrow> State_Monad.return (Fail err)
        | Inr csiSnapshotClass \<Rightarrow> do {
            err \<leftarrow> apply_snapshots env (sh_name snapshot) (vc_name csiSnapshotClass) (sh_states snapshot);
            if err \<noteq> None then State_Monad.return (of_err err)
            else do { err2 \<leftarrow> csi_finish env snapshot; State_Monad.return (of_err err2) } }) })"

section \<open>One CSI snapshot per volume\<close>

lemma run_cscall [simp]: "run_state (cscall f ev) s = (case f (cs_world s) of (r, w) \<Rightarrow>
     (r, s\<lparr>cs_world := w, cs_log := cs_log s @ ev r\<rparr>))"
  by (simp add: cscall_def)

lemma run_csask [simp]: "run_state (csask f) s = (f (cs_world s), s)"
  by (simp add: csask_def)

lemma run_csread [simp]: "run_state (csread f ev) s = (f (cs_world s), s\<lparr>cs_log := cs_log s @ ev (f (cs_world s))\<rparr>)"
  by (simp add: csread_def)

fun ev_create :: "csi_event \<Rightarrow> (csi_snapshot \<times> ResourceReference) list" where
  "ev_create (CsCreate q v _) = [(q, v)]" | "ev_create _ = []"

definition csi_creates :: "csi_event list \<Rightarrow> (csi_snapshot \<times> ResourceReference) list" where
  "csi_creates l = concat (map ev_create l)"

lemma csi_creates_simps [simp]:
  "csi_creates [] = []" "csi_creates (e # l) = ev_create e @ csi_creates l" "csi_creates (l @ l') = csi_creates l @ csi_creates l'"
  by (simp_all add: csi_creates_def)

definition pending_volumes :: "VolumeSnapshotState list \<Rightarrow> ResourceReference list" where
  "pending_volumes sts = map sst_pvc (filter (\<lambda>st. sst_csi st = None) sts)"

definition for_claim :: "string \<Rightarrow> csi_snapshot \<times> ResourceReference \<Rightarrow> bool" where
  "for_claim cls x \<longleftrightarrow> cq_namespace (fst x) = rf_namespace (snd x) \<and> cq_claim (fst x) = rf_name (snd x) \<and> cq_class (fst x) = cls"

lemma applySnapshot_tr:
  "tr cs_log (\<lambda>r l. map snd (csi_creates l) = [pvc] \<and> list_all (for_claim cls) (csi_creates l)) (applySnapshot env name cls pvc)"
  by (rule trI) (auto simp: applySnapshot_def for_claim_def Let_def split: prod.splits sum.splits)

lemma apply_snapshots_tr:
  "tr cs_log (\<lambda>r l. prefix (map snd (csi_creates l)) (pending_volumes sts) \<and> (r = None \<longrightarrow> map snd (csi_creates l) = pending_volumes sts) \<and>
      list_all (for_claim cls) (csi_creates l)) (apply_snapshots env name cls sts)"
proof (induction sts)
  case (Cons st sts)
  show ?case
  proof (cases "sst_csi st = None")
    case True
    then have p: "pending_volumes (st # sts) = sst_pvc st # pending_volumes sts" by (simp add: pending_volumes_def)
    show ?thesis unfolding apply_snapshots.simps p
      by (rule tr_if, simp add: True, rule tr_bind [OF applySnapshot_tr], rule tr_if)
         (auto intro!: tr_return tr_weaken [OF Cons.IH])
  next
    case False
    then obtain ref where "sst_csi st = Some ref" by blast
    then show ?thesis using Cons.IH by (simp add: pending_volumes_def)
  qed
qed (simp add: tr_return pending_volumes_def)

section \<open>Ready only when verified\<close>

text \<open>A snapshot has been seen to be usable: it is not being deleted, has not failed, and is ready or all its CSI
  snapshots are.\<close>

definition usable :: "csi_event list \<Rightarrow> VolumeSnapshot \<Rightarrow> bool" where
  "usable l x \<longleftrightarrow> meta_deletionTimestamp (sh_meta x) = None \<and> sh_failureReason x = [] \<and>
     (sh_readyToUse x = Some True \<or>
      list_all (\<lambda>st. \<exists>ref. sst_csi st = Some ref \<and> CsReadCSI ref (Inr (Some True)) \<in> set l) (sh_states x))"

definition verified :: "string \<Rightarrow> csi_event list \<Rightarrow> bool" where
  "verified i l \<longleftrightarrow> (\<exists>x. CsRead i (Inr x) \<in> set l \<and> usable l x)"

lemma verified_append: "verified i l \<or> verified i l' \<Longrightarrow> verified i (l @ l')"
  by (fastforce simp: verified_def usable_def list_all_iff)

fun makes_ready :: "csi_event \<Rightarrow> bool" where
  "makes_ready (CsStatus old new ok) \<longleftrightarrow> sh_readyToUse old \<noteq> Some True \<and> sh_readyToUse new = Some True"
| "makes_ready _ \<longleftrightarrow> False"

lemma quiet_apply: "every cs_log (\<lambda>e. \<not> makes_ready e) (apply_snapshots env name cls sts)"
proof (induction sts)
  case (Cons st sts)
  have "every cs_log (\<lambda>e. \<not> makes_ready e) (applySnapshot env name cls pvc)" for pvc
    by (rule trI) (auto simp: applySnapshot_def Let_def split: prod.splits sum.splits)
  then show ?case unfolding apply_snapshots.simps by (intro tr_rules Cons.IH) auto
qed (simp add: tr_return)

lemma check_states_tr:
  "tr cs_log (\<lambda>r l. csi_creates l = [] \<and> (\<forall>e \<in> set l. \<not> makes_ready e) \<and>
     (r = (True, None) \<longrightarrow> list_all (\<lambda>st. \<exists>ref. sst_csi st = Some ref \<and> CsReadCSI ref (Inr (Some True)) \<in> set l) sts))
     (check_states env sts)"
proof (induction sts)
  case (Cons st sts)
  have one: "tr cs_log (\<lambda>r l. csi_creates l = [] \<and> (\<forall>e \<in> set l. \<not> makes_ready e) \<and>
      (r = (True, None) \<longrightarrow> CsReadCSI ref (Inr (Some True)) \<in> set l)) (checkCSISnapshotStatus env ref)" for ref
    by (rule trI) (auto simp: checkCSISnapshotStatus_def split: sum.splits option.splits)
  show ?case unfolding check_states.simps
    by (rule tr_option, simp add: tr_return, rule tr_bind [OF one], rule tr_prod, rule tr_if, force intro: tr_return,
        rule tr_if, force intro: tr_return, rule tr_weaken [OF Cons.IH]) (clarsimp simp: list_all_iff, blast)
qed (simp add: tr_return)

lemma verify_tr:
  "tr cs_log (\<lambda>r l. csi_creates l = [] \<and> (\<forall>e \<in> set l. \<not> makes_ready e) \<and> (r = (True, None) \<longrightarrow> verified i l)) (csi_verifyStatus env i)"
proof (rule trI)
  fix s r s' assume run: "run_state (csi_verifyStatus env i) s = (r, s')"
  let ?got = "cn_snapshotGet env i (cs_world s)" and ?s = "s\<lparr>cs_log := cs_log s @ [CsRead i (cn_snapshotGet env i (cs_world s))]\<rparr>"
  show "\<exists>l. cs_log s' = cs_log s @ l \<and> csi_creates l = [] \<and> (\<forall>e \<in> set l. \<not> makes_ready e) \<and> (r = (True, None) \<longrightarrow> verified i l)"
  proof (cases "\<exists>x. ?got = Inr x \<and> meta_deletionTimestamp (sh_meta x) = None \<and> sh_failureReason x = [] \<and> \<not> readyToUse (sh_readyToUse x)")
    case True
    then obtain x where x: "?got = Inr x" "meta_deletionTimestamp (sh_meta x) = None" "sh_failureReason x = []"
        "\<not> readyToUse (sh_readyToUse x)" by blast
    obtain ready err where c: "run_state (check_states env (sh_states x)) ?s = ((ready, err), s')"
        and r: "r = (if err \<noteq> None then (False, None) else (ready, None))"
      using run x by (auto simp: csi_verifyStatus_def csi_verifySnapshotStatus_def split: prod.splits)
    obtain l where "cs_log s' = cs_log ?s @ l" "csi_creates l = []" "\<forall>e \<in> set l. \<not> makes_ready e"
        "(ready, err) = (True, None) \<longrightarrow> list_all (\<lambda>st. \<exists>ref. sst_csi st = Some ref \<and> CsReadCSI ref (Inr (Some True)) \<in> set l) (sh_states x)"
      using trD [OF check_states_tr c] by blast
    then show ?thesis using x r
      by (intro exI [of _ "CsRead i (Inr x) # l"]) (auto simp: verified_def usable_def list_all_iff split: if_splits)
  next
    case False
    then show ?thesis using run
      by (auto simp: csi_verifyStatus_def csi_verifySnapshotStatus_def verified_def usable_def readyToUse_def
          split: sum.splits if_splits)
  qed
qed

lemma csi_wait_tr:
  "tr cs_log (\<lambda>r l. csi_creates l = [] \<and> (\<forall>e \<in> set l. \<not> makes_ready e) \<and> (r = None \<longrightarrow> verified i l)) (csi_waitForSnapshotToReady env i timeout)"
  unfolding csi_waitForSnapshotToReady_def
  by (rule tr_wait [OF _ verify_tr]) (auto simp: csi_tick_def verified_append split: prod.splits)

lemma finish_tr:
  "tr cs_log (\<lambda>r l. csi_creates l = [] \<and> only_after makes_ready (verified (sh_name x)) l) (csi_finish env x)"
  unfolding csi_finish_def
proof (rule tr_bind [OF csi_wait_tr], goal_cases)
  case (1 werr l)
  let ?upd = "\<lambda>k. k\<lparr>sh_readyToUse := Some (werr = None)\<rparr>"
  have upd: "tr cs_log (\<lambda>r l'. \<exists>b. l' = [CsStatus k (?upd k) b]) (cscall (cn_updateStatus env (?upd k)) (\<lambda>e. [CsStatus k (?upd k) (e = None)]))" for k
    by (rule trI) (auto split: prod.splits)
  have after: "only_after makes_ready (verified (sh_name x)) (l @ [CsStatus k (?upd k) b])" for k b
    by (rule only_after_append [OF only_after_none]) (use 1 in \<open>auto simp: only_after_single\<close>)
  have got: "tr cs_log (\<lambda>_ l. l = [] \<and> True) (csask f)" for f :: "'a \<Rightarrow> 'b"
    by (rule trI) auto
  show ?case
    using 1 after only_after_none [of l makes_ready "verified (sh_name x)"]
    by (auto intro!: tr_skip [OF got] tr_sum tr_return tr_weaken [OF upd] simp: Let_def)
qed

text \<open>C25: a run of the handler creates CSI snapshots for the volumes that have none, in order, one each, in the
  namespace of the claim and with the class that the class table holds for the provider of the snapshot, and for
  all of them if it ends well. It marks a snapshot that was not ready as ready only after it has read it, not
  deleted and not failed, and either found all its CSI snapshots ready or found it marked as ready by then.\<close>

theorem Handle_creates_and_verifies:
  assumes "run_state (Handle env x) s = (r, s')"
  shows "\<exists>l. cs_log s' = cs_log s @ l \<and> prefix (map snd (csi_creates l)) (pending_volumes (sh_states x)) \<and>
     (r = Ok \<longrightarrow> map snd (csi_creates l) = pending_volumes (sh_states x)) \<and>
     (csi_creates l = [] \<or> (\<exists>p c. sh_provider x = Some p \<and> SnapshotClassByProvider (cn_classes env (cs_world s)) p = Inr c \<and>
        list_all (for_claim (vc_name c)) (csi_creates l))) \<and>
     only_after makes_ready (verified (sh_name x)) l"
proof (cases "sh_provider x")
  case None
  then show ?thesis using assms by (auto simp: Handle_def only_after_def)
next
  case (Some p)
  show ?thesis
  proof (cases "SnapshotClassByProvider (cn_classes env (cs_world s)) p")
    case (Inl e)
    then show ?thesis using assms Some by (auto simp: Handle_def only_after_def)
  next
    case (Inr c)
    obtain err t where a: "run_state (apply_snapshots env (sh_name x) (vc_name c) (sh_states x)) s = (err, t)" by fastforce
    obtain l1 where l1: "cs_log t = cs_log s @ l1" "prefix (map snd (csi_creates l1)) (pending_volumes (sh_states x))"
        "err = None \<longrightarrow> map snd (csi_creates l1) = pending_volumes (sh_states x)" "list_all (for_claim (vc_name c)) (csi_creates l1)"
      using trD [OF apply_snapshots_tr a] by blast
    obtain l0 where "cs_log t = cs_log s @ l0" "\<forall>e \<in> set l0. \<not> makes_ready e" using trD [OF quiet_apply a] by blast
    then have quiet: "\<forall>e \<in> set l1. \<not> makes_ready e" using l1(1) by simp
    show ?thesis
    proof (cases err)
      case (Some e)
      then show ?thesis using assms \<open>sh_provider x = Some p\<close> Inr a l1 quiet
        by (intro exI [of _ l1]) (auto simp: Handle_def only_after_none)
    next
      case None
      obtain err2 where f: "run_state (csi_finish env x) t = (err2, s')"
        using assms \<open>sh_provider x = Some p\<close> Inr a None by (auto simp: Handle_def split: prod.splits)
      obtain l2 where l2: "cs_log s' = cs_log t @ l2" "csi_creates l2 = []" "only_after makes_ready (verified (sh_name x)) l2"
        using trD [OF finish_tr f] by blast
      have "only_after makes_ready (verified (sh_name x)) (l1 @ l2)"
        using quiet l2(3) by (rule only_after_prefix) (simp add: verified_append)
      then show ?thesis using l1 l2 None \<open>sh_provider x = Some p\<close> Inr by (intro exI [of _ "l1 @ l2"]) simp
    qed
  qed
qed

section \<open>A run\<close>

text \<open>The world is the snapshot in the API server. Every CSI snapshot is ready at once.\<close>

definition demo_class :: VolumeSnapshotClass where
  "demo_class = \<lparr>vc_meta = zero_meta\<lparr>meta_name := ''fast''\<rparr>, vc_driver = ''csi'', vc_created = 0\<rparr>"

definition demo_csi :: "VolumeSnapshot csi_env" where
  "demo_csi = \<lparr>cn_classes = (\<lambda>_. [''csi'' \<mapsto> demo_class]), cn_uuid = (\<lambda>w. (''u'', w)), cn_csiCreate = (\<lambda>q w. (Inr q, w)),
     cn_csiGet = (\<lambda>ns n w. Inr (Some True)), cn_snapshotGet = (\<lambda>n w. Inr w), cn_updateStatus = (\<lambda>x w. (None, x)),
     cn_tick = (\<lambda>w. (3, w))\<rparr>"

definition demo_pvc :: "string \<Rightarrow> ResourceReference" where
  "demo_pvc n = \<lparr>rf_kind = PVC_kind, rf_namespace = ''ns'', rf_name = n\<rparr>"

definition demo_kahu_snapshot :: VolumeSnapshot where
  "demo_kahu_snapshot = \<lparr>sh_meta = zero_meta\<lparr>meta_name := ''s''\<rparr>, sh_backupName = Some ''b'', sh_provider = Some ''csi'',
     sh_list = [], sh_readyToUse = None, sh_failureReason = [],
     sh_states = [\<lparr>sst_pvc = demo_pvc ''a'', sst_csi = None\<rparr>, \<lparr>sst_pvc = demo_pvc ''b'', sst_csi = Some (demo_pvc ''x'')\<rparr>,
       \<lparr>sst_pvc = demo_pvc ''c'', sst_csi = None\<rparr>]\<rparr>"

lemma demo_csi_simps [simp]:
  "cn_classes demo_csi w = [''csi'' \<mapsto> demo_class]" "cn_uuid demo_csi w = (''u'', w)" "cn_csiCreate demo_csi q w = (Inr q, w)"
  "cn_csiGet demo_csi ns n w = Inr (Some True)" "cn_snapshotGet demo_csi n w = Inr w"
  "cn_updateStatus demo_csi x w = (None, x)" "cn_tick demo_csi w = (3, w)"
  by (simp_all add: demo_csi_def)

lemma demo_check:
  "list_all (\<lambda>st. sst_csi st \<noteq> None) sts \<Longrightarrow> \<exists>s'. run_state (check_states demo_csi sts) s = ((True, None), s') \<and> cs_world s' = cs_world s"
proof (induction sts arbitrary: s)
  case (Cons st sts)
  then obtain ref where ref: "sst_csi st = Some ref" by auto
  let ?s = "s\<lparr>cs_log := cs_log s @ [CsReadCSI ref (Inr (Some True))]\<rparr>"
  obtain s' where "run_state (check_states demo_csi sts) ?s = ((True, None), s')" "cs_world s' = cs_world ?s"
    using Cons.IH [of ?s] Cons.prems by auto
  then show ?case using ref by (simp add: checkCSISnapshotStatus_def)
qed simp

lemma demo_wait_ready:
  assumes "list_all (\<lambda>st. sst_csi st \<noteq> None) (sh_states (cs_world s))" "sh_failureReason (cs_world s) = []"
    "meta_deletionTimestamp (sh_meta (cs_world s)) = None"
  shows "\<exists>s'. run_state (csi_waitForSnapshotToReady demo_csi i csiSnapshotTimeout) s = (None, s') \<and> cs_world s' = cs_world s"
  using demo_check [OF assms(1), of "s\<lparr>cs_log := cs_log s @ [CsRead i (Inr (cs_world s))]\<rparr>"] assms(2,3)
  unfolding csi_waitForSnapshotToReady_def run_liftst
  by (subst waitForSnapshotStatus.simps)
     (auto simp: csi_tick_def csi_verifyStatus_def csi_verifySnapshotStatus_def csiSnapshotTimeout_def initBackoff_def)

theorem Handle_creates_and_verifies_witness:
  "\<exists>s' l. run_state (Handle demo_csi demo_kahu_snapshot) \<lparr>cs_world = demo_kahu_snapshot, cs_log = []\<rparr> = (Ok, s') \<and>
     cs_log s' = l \<and> map snd (csi_creates l) = [demo_pvc ''a'', demo_pvc ''c''] \<and>
     only_after makes_ready (verified ''s'') l \<and> sh_readyToUse (cs_world s') = Some True"
proof -
  let ?s = "\<lparr>cs_world = demo_kahu_snapshot, cs_log = []\<rparr>"
  let ?ref = "\<lparr>rf_kind = [], rf_namespace = ''ns'', rf_name = ''snapshot-u''\<rparr>"
  let ?w = "demo_kahu_snapshot\<lparr>sh_states := set_csi_ref (demo_pvc ''c'') ?ref (set_csi_ref (demo_pvc ''a'') ?ref (sh_states demo_kahu_snapshot))\<rparr>"
  obtain l where a: "run_state (apply_snapshots demo_csi ''s'' ''fast'' (sh_states demo_kahu_snapshot)) ?s = (None, \<lparr>cs_world = ?w, cs_log = l\<rparr>)"
    by (simp add: demo_kahu_snapshot_def applySnapshot_def Let_def demo_pvc_def)
  obtain t where w: "run_state (csi_waitForSnapshotToReady demo_csi ''s'' csiSnapshotTimeout) \<lparr>cs_world = ?w, cs_log = l\<rparr> = (None, t)" "cs_world t = ?w"
    using demo_wait_ready [of "\<lparr>cs_world = ?w, cs_log = l\<rparr>" "''s''"]
    by (auto simp: demo_kahu_snapshot_def set_csi_ref_def demo_pvc_def zero_meta_def)
  have names: "sh_name demo_kahu_snapshot = ''s''" "sh_provider demo_kahu_snapshot = Some ''csi''" "vc_name demo_class = ''fast''"
    by (simp_all add: demo_kahu_snapshot_def demo_class_def zero_meta_def)
  then obtain s' where run: "run_state (Handle demo_csi demo_kahu_snapshot) ?s = (Ok, s')" "sh_readyToUse (cs_world s') = Some True"
    using a w by (simp add: Handle_def csi_finish_def SnapshotClassByProvider_def Let_def)
  show ?thesis using Handle_creates_and_verifies [OF run(1)] run names
    by (auto simp: pending_volumes_def) (simp_all add: demo_kahu_snapshot_def)
qed

end
