(* ===== verification/Snapshot_Controller.thy ===== *)
theory Snapshot_Controller
  imports Snapshot_CSI Store Operation
begin

text \<open>
  The snapshot controller, \<^verbatim>\<open>controllers/snapshot/controller.go\<close>: it lists the volumes of a snapshot in
  its status and starts a job that takes CSI snapshots when the provider is a CSI driver.

  The lister hands out pointers into the informer's cache, and the handler writes through them before it
  calls the API server; the cache is therefore part of the state. The table of running jobs keeps the
  snapshot each job works on. Clients are functions over a world \<open>'w\<close>; the generated client returns an
  object along with an error, which is not used then.
\<close>

section \<open>State\<close>

datatype snap_event =
    SnStatus VolumeSnapshot bool
  | SnUpdate VolumeSnapshot bool
  | SnRun string
  | SnExternal string
  | SnEnqueue string

record 'w snapc =
  sk_cache :: "string \<rightharpoonup> VolumeSnapshot"
  sk_processed :: "(VolumeSnapshot, dyn) threadSafeStore"
  sk_running :: "VolumeSnapshot op_table"
  sk_world :: 'w
  sk_log :: "snap_event list"

record 'w snapc_env =
  sx_objKey :: "VolumeSnapshot \<Rightarrow> goerr + string"
  sx_splitKey :: "string \<Rightarrow> goerr + string"
  sx_listerErr :: "string \<Rightarrow> 'w \<Rightarrow> goerr option"
  sx_List :: "(string \<rightharpoonup> VolumeSnapshot) \<Rightarrow> goerr + VolumeSnapshot list"
  sx_UpdateStatus :: "VolumeSnapshot \<Rightarrow> 'w \<Rightarrow> (VolumeSnapshot \<times> goerr option) \<times> 'w"
  sx_Update :: "VolumeSnapshot \<Rightarrow> 'w \<Rightarrow> (VolumeSnapshot \<times> goerr option) \<times> 'w"
  sx_drivers :: "'w \<Rightarrow> goerr + string list"

definition scall :: "('w \<Rightarrow> 'r \<times> 'w) \<Rightarrow> ('r \<Rightarrow> snap_event list) \<Rightarrow> ('w snapc, 'r) state" where
  "scall f ev = liftst (\<lambda>s. case f (sk_world s) of (r, w) \<Rightarrow> (r, s\<lparr>sk_world := w, sk_log := sk_log s @ ev r\<rparr>))"

definition sget :: "('w snapc \<Rightarrow> 'r) \<Rightarrow> ('w snapc, 'r) state" where "sget f = liftst (\<lambda>s. (f s, s))"

definition sput :: "('w snapc \<Rightarrow> 'w snapc) \<Rightarrow> ('w snapc, unit) state" where "sput f = liftst (\<lambda>s. ((), f s))"

definition semit :: "snap_event \<Rightarrow> ('w snapc, unit) state" where
  "semit e = sput (\<lambda>s. s\<lparr>sk_log := sk_log s @ [e]\<rparr>)"

definition snap_revision :: "'w snapc_env \<Rightarrow> VolumeSnapshot \<Rightarrow> ('w snapc, bool \<times> goerr option) state" where
  "snap_revision env x = liftst (\<lambda>s.
     case StoreRevisionUpdate (sx_objKey env) (\<lambda>y. Inr (sh_meta y)) ''Snapshot'' (sk_processed s) x of
       (r, store) \<Rightarrow> (r, s\<lparr>sk_processed := store\<rparr>))"

definition annSnapshotVolumeSync :: string where "annSnapshotVolumeSync = ''kahu.io/snapshot-volume-sync''"

section \<open>The handler\<close>

definition snapshotHandled :: "VolumeSnapshot \<Rightarrow> bool" where
  "snapshotHandled s \<longleftrightarrow> length (sh_failureReason s) \<noteq> 0 \<or> sh_readyToUse s \<noteq> None"

definition listed :: "VolumeSnapshot \<Rightarrow> VolumeSnapshotState list" where
  "listed s = map (\<lambda>pvc. \<lparr>sst_pvc = pvc, sst_csi = None\<rparr>) (sh_list s)"

definition with_sync_annotation :: "VolumeSnapshot \<Rightarrow> VolumeSnapshot" where
  "with_sync_annotation s = s\<lparr>sh_meta := the (SetAnnotation (Some (sh_meta s)) annSnapshotVolumeSync ''true'')\<rparr>"

text \<open>The states are appended to the cached object itself.\<close>

definition syncSnapshotVolumes ::
  "'w snapc_env \<Rightarrow> VolumeSnapshot \<Rightarrow> ('w snapc, VolumeSnapshot \<times> goerr option) state" where
  "syncSnapshotVolumes env snapshot =
     (if ContainsAnnotation (Some (sh_meta snapshot)) annSnapshotVolumeSync then State_Monad.return (snapshot, None)
      else do {
        let filled = snapshot\<lparr>sh_states := sh_states snapshot @ listed snapshot\<rparr>;
        sput (\<lambda>s. s\<lparr>sk_cache := (sk_cache s)(sh_name snapshot \<mapsto> filled)\<rparr>);
        (updated, err) \<leftarrow> scall (sx_UpdateStatus env filled) (\<lambda>(_, e). [SnStatus filled (e = None)]);
        (case err of
           Some e \<Rightarrow> State_Monad.return (updated, Some e)
         | None \<Rightarrow> do {
             let annotated = with_sync_annotation updated;
             scall (sx_Update env annotated) (\<lambda>(_, e). [SnUpdate annotated (e = None)]) }) })"

fun driver_listed :: "string \<Rightarrow> string list \<Rightarrow> bool" where
  "driver_listed d [] = False"
| "driver_listed d (x # xs) = (if x = d then True else driver_listed d xs)"

definition checkCSIDriver :: "'w snapc_env \<Rightarrow> string \<Rightarrow> 'w \<Rightarrow> goerr + bool" where
  "checkCSIDriver env d w = (case sx_drivers env w of Inl err \<Rightarrow> Inl err | Inr ds \<Rightarrow> Inr (driver_listed d ds))"

definition supportCSISnapshot :: "'w snapc_env \<Rightarrow> VolumeSnapshot \<Rightarrow> 'w \<Rightarrow> goerr + bool" where
  "supportCSISnapshot env s w = (case sh_provider s of None \<Rightarrow> Inr False | Some d \<Rightarrow> checkCSIDriver env d w)"

text \<open>\<^verbatim>\<open>Run\<close> refuses a name that is running, which is not an error of the controller.\<close>

definition handleCSISnapshot :: "VolumeSnapshot \<Rightarrow> ('w snapc, goerr option) state" where
  "handleCSISnapshot snapshot = do {
     err \<leftarrow> liftst (\<lambda>s. if ops_get (sh_name snapshot) (sk_running s) \<noteq> None
       then (Some (alreadyExistsError (sh_name snapshot)), s)
       else (None, s\<lparr>sk_running := ops_add (sh_name snapshot) snapshot (sk_running s), sk_log := sk_log s @ [SnRun (sh_name snapshot)]\<rparr>));
     State_Monad.return (case err of None \<Rightarrow> None | Some e \<Rightarrow> if IsAlreadyExists e then None else Some e) }"

definition handleSnapshot :: "VolumeSnapshot \<Rightarrow> ('w snapc, goerr option) state" where
  "handleSnapshot snapshot = do { semit (SnExternal (sh_name snapshot)); State_Monad.return None }"

definition snap_handle_synced :: "'w snapc_env \<Rightarrow> VolumeSnapshot \<Rightarrow> ('w snapc, goerr option) state" where
  "snap_handle_synced env snapshot = do {
     support \<leftarrow> sget (\<lambda>s. supportCSISnapshot env snapshot (sk_world s));
     (case support of
        Inl err \<Rightarrow> State_Monad.return (Some err)
      | Inr yes \<Rightarrow> if yes then handleCSISnapshot snapshot else handleSnapshot snapshot) }"

definition snap_processQueue :: "'w snapc_env \<Rightarrow> string \<Rightarrow> ('w snapc, goerr option) state" where
  "snap_processQueue env key = (case sx_splitKey env key of
     Inl err \<Rightarrow> State_Monad.return (Some err)
   | Inr name \<Rightarrow> do {
       lerr \<leftarrow> sget (\<lambda>s. sx_listerErr env name (sk_world s));
       cached \<leftarrow> sget (\<lambda>s. sk_cache s name);
       (case (lerr, cached) of
          (Some e, _) \<Rightarrow> State_Monad.return (Some (wrap e (''error getting snapshot '' @ name @ '' from lister'')))
        | (None, None) \<Rightarrow> State_Monad.return None
        | (None, Some snapshot) \<Rightarrow>
            if meta_deletionTimestamp (sh_meta snapshot) \<noteq> None then State_Monad.return None
            else if snapshotHandled snapshot then State_Monad.return None
            else do {
              (newObj, _) \<leftarrow> snap_revision env snapshot;
              if \<not> newObj then State_Monad.return None
              else do {
                (synced, err) \<leftarrow> syncSnapshotVolumes env snapshot;
                if err \<noteq> None then State_Monad.return err else snap_handle_synced env synced } }) })"

fun snap_enqueue_all :: "VolumeSnapshot list \<Rightarrow> ('w snapc, unit) state" where
  "snap_enqueue_all [] = State_Monad.return ()"
| "snap_enqueue_all (x # xs) = do { semit (SnEnqueue (sh_name x)); snap_enqueue_all xs }"

definition snap_reSync :: "'w snapc_env \<Rightarrow> ('w snapc, unit) state" where
  "snap_reSync env = do {
     got \<leftarrow> sget (\<lambda>s. sx_List env (sk_cache s));
     (case got of Inl _ \<Rightarrow> State_Monad.return () | Inr xs \<Rightarrow> snap_enqueue_all xs) }"

text \<open>A job runs the CSI handler on its snapshot and leaves the table.\<close>

definition run_job :: "'w csi_env \<Rightarrow> string \<Rightarrow> 'w snapc \<Rightarrow> (sres \<times> csi_event list) option \<times> 'w snapc" where
  "run_job csi name s = (case ops_get name (sk_running s) of
     None \<Rightarrow> (None, s)
   | Some x \<Rightarrow> (case run_state (Handle csi x) \<lparr>cs_world = sk_world s, cs_log = []\<rparr> of
       (r, c) \<Rightarrow> (Some (r, cs_log c), s\<lparr>sk_world := cs_world c, sk_running := ops_delete name (sk_running s)\<rparr>)))"

section \<open>Rules\<close>

lemma run_sget [simp]: "run_state (sget f) s = (f s, s)"
  by (simp add: sget_def)

lemma run_sput [simp]: "run_state (sput f) s = ((), f s)"
  by (simp add: sput_def)

lemma run_scall [simp]: "run_state (scall f ev) s = (case f (sk_world s) of (r, w) \<Rightarrow>
     (r, s\<lparr>sk_world := w, sk_log := sk_log s @ ev r\<rparr>))"
  by (simp add: scall_def)

lemma driver_listed_iff [simp]: "driver_listed d ds \<longleftrightarrow> d \<in> set ds"
  by (induction ds) auto

lemma snap_revision_keeps:
  "run_state (snap_revision env x) s = (r, t) \<Longrightarrow>
     sk_running t = sk_running s \<and> sk_cache t = sk_cache s \<and> sk_world t = sk_world s \<and> sk_log t = sk_log s"
  by (auto simp: snap_revision_def split: prod.splits)

section \<open>Listing the volumes\<close>

text \<open>The first listing sends one state per volume and marks the snapshot.\<close>

lemma sync_lists_volumes:
  assumes "\<not> ContainsAnnotation (Some (sh_meta x)) annSnapshotVolumeSync"
    and "run_state (syncSnapshotVolumes env x) s = ((y, None), t)"
  shows "\<exists>u. sk_log t = sk_log s @ [SnStatus (x\<lparr>sh_states := sh_states x @ listed x\<rparr>) True, SnUpdate (with_sync_annotation u) True]"
  using assms by (auto simp: syncSnapshotVolumes_def Let_def split: prod.splits option.splits)

lemma sync_once:
  "ContainsAnnotation (Some (sh_meta x)) annSnapshotVolumeSync \<Longrightarrow> run_state (syncSnapshotVolumes env x) s = ((x, None), s)"
  by (simp add: syncSnapshotVolumes_def)

text \<open>
  A listing that fails has already changed the cached object: the retry, which works on what the lister
  returns, sends every volume twice.
\<close>

theorem failed_sync_doubles_volumes:
  assumes "\<not> ContainsAnnotation (Some (sh_meta x)) annSnapshotVolumeSync"
    and "run_state (syncSnapshotVolumes env x) s = ((y, Some e), s1)" "sk_log s1 = sk_log s @ [SnStatus z False]"
    and "sk_cache s1 (sh_name x) = Some x'" "run_state (syncSnapshotVolumes env x') s1 = (r, s2)"
  shows "\<exists>q ok l. sk_log s2 = sk_log s1 @ SnStatus q ok # l \<and> sh_states q = sh_states x @ listed x @ listed x"
proof -
  let ?f = "x\<lparr>sh_states := sh_states x @ listed x\<rparr>"
  have x': "x' = ?f"
    using assms(1-4) by (auto simp: syncSnapshotVolumes_def Let_def split: prod.splits option.splits)
  have "listed ?f = listed x" by (simp add: listed_def)
  then show ?thesis
    using assms(1,5) unfolding x'
    by (auto simp: syncSnapshotVolumes_def Let_def split: prod.splits option.splits)
qed

definition demo_failing :: "nat snapc_env" where
  "demo_failing = \<lparr>sx_objKey = (\<lambda>x. Inr (sh_name x)), sx_splitKey = Inr, sx_listerErr = (\<lambda>_ _. None),
     sx_List = (\<lambda>_. Inr []), sx_UpdateStatus = (\<lambda>x w. ((x, if w = 0 then Some (errorf ''busy'') else None), w + 1)),
     sx_Update = (\<lambda>x w. ((x, None), w)), sx_drivers = (\<lambda>_. Inr [''csi''])\<rparr>"

definition demo_unsynced :: VolumeSnapshot where
  "demo_unsynced = demo_kahu_snapshot\<lparr>sh_states := [], sh_list := [demo_pvc ''a'']\<rparr>"

definition demo_snapc :: "nat snapc" where
  "demo_snapc = \<lparr>sk_cache = [''s'' \<mapsto> demo_unsynced], sk_processed = NewStore (\<lambda>x. Inr (sh_name x)),
     sk_running = Map.empty, sk_world = 0, sk_log = []\<rparr>"

theorem failed_sync_doubles_volumes_witness:
  "\<exists>s1 s2 r q ok l. run_state (syncSnapshotVolumes demo_failing demo_unsynced) demo_snapc =
      ((demo_unsynced\<lparr>sh_states := listed demo_unsynced\<rparr>, Some (errorf ''busy'')), s1) \<and>
     run_state (syncSnapshotVolumes demo_failing (the (sk_cache s1 ''s''))) s1 = (r, s2) \<and>
     sk_log s2 = sk_log s1 @ SnStatus q ok # l \<and> map sst_pvc (sh_states q) = [demo_pvc ''a'', demo_pvc ''a'']"
proof -
  have plain: "\<not> ContainsAnnotation (Some (sh_meta demo_unsynced)) annSnapshotVolumeSync"
    by (simp add: demo_unsynced_def demo_kahu_snapshot_def zero_meta_def ContainsAnnotation_def)
  obtain s1 x' where 1: "run_state (syncSnapshotVolumes demo_failing demo_unsynced) demo_snapc =
        ((demo_unsynced\<lparr>sh_states := listed demo_unsynced\<rparr>, Some (errorf ''busy'')), s1)"
      "sk_log s1 = sk_log demo_snapc @ [SnStatus (demo_unsynced\<lparr>sh_states := listed demo_unsynced\<rparr>) False]"
      "sk_cache s1 (sh_name demo_unsynced) = Some x'"
    using plain by (simp add: syncSnapshotVolumes_def Let_def demo_failing_def demo_snapc_def demo_unsynced_def demo_kahu_snapshot_def zero_meta_def)
  obtain r s2 where 2: "run_state (syncSnapshotVolumes demo_failing x') s1 = (r, s2)" by fastforce
  have "sh_name demo_unsynced = ''s''" by (simp add: demo_unsynced_def demo_kahu_snapshot_def zero_meta_def)
  then show ?thesis
    using failed_sync_doubles_volumes [OF plain 1 2] 1 2 by (auto simp: demo_unsynced_def listed_def demo_kahu_snapshot_def)
qed

section \<open>Jobs\<close>

text \<open>What can happen: the informer changes the cache, the queue is worked on, a job runs to its end.\<close>

inductive snap_step :: "'w snapc_env \<Rightarrow> 'w csi_env \<Rightarrow> 'w snapc \<Rightarrow> 'w snapc \<Rightarrow> bool" for env csi where
  informed: "snap_step env csi s (s\<lparr>sk_cache := (sk_cache s)(n := x), sk_world := w\<rparr>)"
| queued: "run_state (snap_processQueue env key) s = (r, t) \<Longrightarrow> snap_step env csi s t"
| worked: "run_job csi n s = (Some r, t) \<Longrightarrow> snap_step env csi s t"

abbreviation snap_steps :: "'w snapc_env \<Rightarrow> 'w csi_env \<Rightarrow> 'w snapc \<Rightarrow> 'w snapc \<Rightarrow> bool" where
  "snap_steps env csi \<equiv> (snap_step env csi)\<^sup>*\<^sup>*"

definition jobs_ok :: "'w snapc \<Rightarrow> bool" where
  "jobs_ok s \<longleftrightarrow> (\<forall>n x. sk_running s n = Some x \<longrightarrow> sh_name x = n \<and> sh_provider x \<noteq> None)"

lemma handle_synced_jobs:
  assumes "jobs_ok s" "run_state (snap_handle_synced env x) s = (r, t)"
  shows "jobs_ok t"
  using assms
  by (auto simp: snap_handle_synced_def supportCSISnapshot_def handleCSISnapshot_def handleSnapshot_def semit_def jobs_ok_def
      ops_add_def split: sum.splits option.splits if_splits)

lemma sync_keeps_jobs:
  "run_state (syncSnapshotVolumes env x) s = (r, t) \<Longrightarrow> sk_running t = sk_running s"
  by (auto simp: syncSnapshotVolumes_def Let_def split: prod.splits option.splits if_splits)

lemma jobs_ok_running: "sk_running t = sk_running s \<Longrightarrow> jobs_ok t = jobs_ok s"
  by (simp add: jobs_ok_def)

lemma queue_keeps_jobs_ok: "triple jobs_ok (snap_processQueue env key) (\<lambda>_. jobs_ok)"
proof -
  have get: "triple jobs_ok (sget f) (\<lambda>_. jobs_ok)" for f :: "'w snapc \<Rightarrow> 'r" by (auto simp: triple_def)
  have rev: "triple jobs_ok (snap_revision env x) (\<lambda>_. jobs_ok)" for x :: VolumeSnapshot and env :: "'w snapc_env"
    by (rule tripleI) (metis snap_revision_keeps jobs_ok_running)
  have sync: "triple jobs_ok (syncSnapshotVolumes env x) (\<lambda>_. jobs_ok)" for x env
    by (rule tripleI) (metis sync_keeps_jobs jobs_ok_running)
  have handle: "triple jobs_ok (snap_handle_synced env x) (\<lambda>_. jobs_ok)" for x env
    by (rule tripleI) (rule handle_synced_jobs)
  have case_sum: "(\<And>e. triple jobs_ok (f e) (\<lambda>_. jobs_ok)) \<Longrightarrow> (\<And>v. triple jobs_ok (g v) (\<lambda>_. jobs_ok)) \<Longrightarrow>
      triple jobs_ok (case x of Inl e \<Rightarrow> f e | Inr v \<Rightarrow> g v) (\<lambda>_. jobs_ok)" for x and f g :: "_ \<Rightarrow> ('w snapc, goerr option) state"
    by (cases x) auto
  show ?thesis unfolding snap_processQueue_def
    by (intro case_sum go_rules triple_bind [OF get] triple_bind [OF rev] triple_bind [OF sync] handle) auto
qed

lemma step_keeps_jobs_ok: "snap_step env csi s t \<Longrightarrow> jobs_ok s \<Longrightarrow> jobs_ok t"
proof (induction rule: snap_step.induct)
  case (queued key s r t)
  then show ?case using tripleD [OF queue_keeps_jobs_ok] by metis
next
  case (worked n s r t)
  then show ?case by (auto simp: run_job_def jobs_ok_def ops_delete_def split: option.splits prod.splits if_splits)
qed (simp add: jobs_ok_def)

lemma reachable_jobs_ok: "snap_steps env csi s t \<Longrightarrow> jobs_ok s \<Longrightarrow> jobs_ok t"
  by (induction rule: rtranclp_induct) (auto dest: step_keeps_jobs_ok)

lemma Handle_no_crash: "sh_provider x \<noteq> None \<Longrightarrow> fst (run_state (Handle env x) s) \<noteq> Crash"
  by (auto simp: Handle_def of_err_def split: sum.splits prod.splits option.splits)

text \<open>C26: Whatever happens, the handler of a running job does not meet a nil provider, and every job works on the
  snapshot it is listed under.\<close>

theorem jobs_do_not_panic:
  assumes "snap_steps env csi s t" "sk_running s = Map.empty"
  shows "(case run_job csi n t of (Some (r, l), _) \<Rightarrow> r \<noteq> Crash | _ \<Rightarrow> True) \<and>
     (case sk_running t n of Some x \<Rightarrow> sh_name x = n | None \<Rightarrow> True)"
proof -
  have "jobs_ok t" using reachable_jobs_ok [OF assms(1)] assms(2) by (simp add: jobs_ok_def)
  then show ?thesis using Handle_no_crash [of _ csi]
    by (auto simp: run_job_def jobs_ok_def ops_get_def split: option.splits prod.splits) (metis fst_conv option.distinct(1))
qed

definition demo_sx :: "VolumeSnapshot snapc_env" where
  "demo_sx = \<lparr>sx_objKey = (\<lambda>x. Inr (sh_name x)), sx_splitKey = Inr, sx_listerErr = (\<lambda>_ _. None),
     sx_List = (\<lambda>_. Inr []), sx_UpdateStatus = (\<lambda>x w. ((x, None), x)),
     sx_Update = (\<lambda>x w. ((x, None), x)), sx_drivers = (\<lambda>_. Inr [''nfs'', ''csi''])\<rparr>"

definition demo_start :: "VolumeSnapshot snapc" where
  "demo_start = \<lparr>sk_cache = [''s'' \<mapsto> demo_unsynced], sk_processed = NewStore (\<lambda>x. Inr (sh_name x)),
     sk_running = Map.empty, sk_world = demo_unsynced, sk_log = []\<rparr>"

lemma demo_job_started:
  "\<exists>t x. run_state (snap_processQueue demo_sx ''s'') demo_start = (None, t) \<and> sk_running t ''s'' = Some x"
  by (simp add: snap_processQueue_def demo_sx_def demo_start_def demo_unsynced_def demo_kahu_snapshot_def zero_meta_def
      snapshotHandled_def snap_revision_def StoreRevisionUpdate_def store_Get_def store_Add_def NewStore_def
      syncSnapshotVolumes_def with_sync_annotation_def SetAnnotation_def ContainsAnnotation_def Let_def
      snap_handle_synced_def supportCSISnapshot_def checkCSIDriver_def handleCSISnapshot_def ops_get_def ops_add_def)

theorem jobs_do_not_panic_witness:
  "\<exists>t r l u. snap_steps demo_sx demo_csi demo_start t \<and> run_job demo_csi ''s'' t = (Some (r, l), u) \<and> r \<noteq> Crash"
proof -
  obtain t x where t: "run_state (snap_processQueue demo_sx ''s'') demo_start = (None, t)" "sk_running t ''s'' = Some x"
    using demo_job_started by blast
  have steps: "snap_steps demo_sx demo_csi demo_start t" using snap_step.queued [OF t(1)] by (rule r_into_rtranclp)
  obtain r l u where "run_job demo_csi ''s'' t = (Some (r, l), u)"
    using t(2) by (cases "run_state (Handle demo_csi x) \<lparr>cs_world = sk_world t, cs_log = []\<rparr>") (simp add: run_job_def ops_get_def)
  then show ?thesis using jobs_do_not_panic [OF steps, of "''s''"] steps by (auto simp: demo_start_def)
qed

end
