(* ===== verification/Driver_Assignment.thy ===== *)
theory Driver_Assignment
  imports VBC_Types Store Traces
begin

text \<open>
  The controller that picks the driver for a volume backup,
  \<^verbatim>\<open>controllers/volumebackup/controller.go\<close>: a content without a backup provider gets the one the table
  \<^verbatim>\<open>volBackupSupport\<close> names for its volume provider.

  The lister hands out pointers into the informer's cache, and the handler writes the provider into the
  cached object before it calls the API server; the cache is therefore part of the state. Clients are
  functions over a world \<open>'w\<close>.
\<close>

section \<open>State\<close>

datatype assign_event = DaStatus VolumeBackupContent bool | DaEnqueue string

record 'w assignc =
  da_cache :: "string \<rightharpoonup> VolumeBackupContent"
  da_processed :: "(VolumeBackupContent, dyn) threadSafeStore"
  da_world :: 'w
  da_log :: "assign_event list"

record 'w assign_env =
  dx_objKey :: "VolumeBackupContent \<Rightarrow> goerr + string"
  dx_splitKey :: "string \<Rightarrow> goerr + string"
  dx_listerErr :: "string \<Rightarrow> 'w \<Rightarrow> goerr option"
  dx_List :: "(string \<rightharpoonup> VolumeBackupContent) \<Rightarrow> goerr + VolumeBackupContent list"
  dx_UpdateStatus :: "VolumeBackupContent \<Rightarrow> 'w \<Rightarrow> goerr option \<times> 'w"

definition csi_snapshotter :: string where "csi_snapshotter = ''snapshotter.backup.csi.io''"

definition volBackupSupport :: "string \<rightharpoonup> string" where
  "volBackupSupport = map_of [
     (''zfs.csi.openebs.io'', csi_snapshotter),
     (''linstor.csi.linbit.com'', csi_snapshotter),
     (''cephfs.csi.ceph.com'', csi_snapshotter),
     (''hostpath.csi.k8s.io'', csi_snapshotter),
     (''csi-powerstore.dellemc.com'', csi_snapshotter),
     (''csi.trident.netapp.io'', csi_snapshotter)]"

section \<open>The handler\<close>

definition needVolumeBackupDriver :: "VolumeBackupContent \<Rightarrow> bool" where
  "needVolumeBackupDriver content \<longleftrightarrow> vb_backupProvider content = None"

definition pickVolumeBackupDriver :: "string option \<Rightarrow> goerr + string" where
  "pickVolumeBackupDriver volProvider = (case volProvider of
     None \<Rightarrow> Inl (errorf ''volume provider not available'')
   | Some p \<Rightarrow> (case volBackupSupport p of
       None \<Rightarrow> Inl (errorf ''volume driver not supported'')
     | Some backupDriver \<Rightarrow> Inr backupDriver))"

definition assign_driver :: "'w assign_env \<Rightarrow> VolumeBackupContent \<Rightarrow> 'w assignc \<Rightarrow> goerr option \<times> 'w assignc" where
  "assign_driver env volBackup s =
     (if needVolumeBackupDriver volBackup then (case pickVolumeBackupDriver (vb_provider volBackup) of
        Inl err \<Rightarrow> (Some err, s)
      | Inr driver \<Rightarrow> (let upd = volBackup\<lparr>vb_backupProvider := Some driver\<rparr> in
          case dx_UpdateStatus env upd (da_world s) of
            (err, w) \<Rightarrow> (err, s\<lparr>da_cache := (da_cache s)(vb_name volBackup \<mapsto> upd), da_world := w,
               da_log := da_log s @ [DaStatus upd (err = None)]\<rparr>)))
      else (None, s))"

definition assign_processQueue :: "'w assign_env \<Rightarrow> string \<Rightarrow> 'w assignc \<Rightarrow> goerr option \<times> 'w assignc" where
  "assign_processQueue env key s = (case dx_splitKey env key of
     Inl err \<Rightarrow> (Some err, s)
   | Inr name \<Rightarrow> (case dx_listerErr env name (da_world s) of
       Some e \<Rightarrow> (Some (wrap e (''error getting backup '' @ name @ '' from lister'')), s)
     | None \<Rightarrow> (case da_cache s name of
         None \<Rightarrow> (None, s)
       | Some volBackup \<Rightarrow>
           (case StoreRevisionUpdate (dx_objKey env) (\<lambda>x. Inr (vb_meta x)) ''VolumeBackup'' (da_processed s) volBackup of
             ((newObj, _), store) \<Rightarrow> (let s1 = s\<lparr>da_processed := store\<rparr> in
                if \<not> newObj then (None, s1)
                else if meta_deletionTimestamp (vb_meta volBackup) \<noteq> None then (None, s1)
                else assign_driver env volBackup s1)))))"

definition assign_reSync :: "'w assign_env \<Rightarrow> 'w assignc \<Rightarrow> 'w assignc" where
  "assign_reSync env s = (case dx_List env (da_cache s) of
     Inl _ \<Rightarrow> s
   | Inr bs \<Rightarrow> s\<lparr>da_log := da_log s @ map (\<lambda>b. DaEnqueue (vb_name b)) bs\<rparr>)"

section \<open>What is assigned\<close>

text \<open>The status sent is that of the cached content with the driver of its volume provider; nothing is sent for
  a content that has a driver, is being deleted or has no supported provider.\<close>

definition assignable :: "'w assignc \<Rightarrow> string \<Rightarrow> VolumeBackupContent option" where
  "assignable s name = (case da_cache s name of
     None \<Rightarrow> None
   | Some b \<Rightarrow> if vb_backupProvider b = None \<and> meta_deletionTimestamp (vb_meta b) = None
       then (case vb_provider b of None \<Rightarrow> None | Some p \<Rightarrow> map_option (\<lambda>d. b\<lparr>vb_backupProvider := Some d\<rparr>) (volBackupSupport p))
       else None)"

lemma assign_driver_cases:
  assumes "assign_driver env b s = (r, t)"
  obtains (same) "da_cache t = da_cache s" "da_log t = da_log s"
  | (sent) p d where "vb_backupProvider b = None" "vb_provider b = Some p" "volBackupSupport p = Some d"
      "da_cache t = (da_cache s)(vb_name b \<mapsto> b\<lparr>vb_backupProvider := Some d\<rparr>)"
      "da_log t = da_log s @ [DaStatus (b\<lparr>vb_backupProvider := Some d\<rparr>) (r = None)]"
proof (cases "needVolumeBackupDriver b")
  case True
  show thesis
  proof (cases "pickVolumeBackupDriver (vb_provider b)")
    case (Inl e)
    then show thesis using assms True same by (simp add: assign_driver_def)
  next
    case (Inr d)
    then obtain p where "vb_provider b = Some p" "volBackupSupport p = Some d"
      by (auto simp: pickVolumeBackupDriver_def split: option.splits)
    then show thesis using assms True Inr sent [of p d]
      by (auto simp: assign_driver_def needVolumeBackupDriver_def Let_def split: prod.splits)
  qed
next
  case False
  then show thesis using assms same by (simp add: assign_driver_def)
qed

lemma assign_cases:
  assumes "assign_processQueue env key s = (r, t)"
  obtains (same) "da_cache t = da_cache s" "da_log t = da_log s"
  | (sent) n b p d where "dx_splitKey env key = Inr n" "da_cache s n = Some b" "meta_deletionTimestamp (vb_meta b) = None"
      "vb_backupProvider b = None" "vb_provider b = Some p" "volBackupSupport p = Some d"
      "da_cache t = (da_cache s)(vb_name b \<mapsto> b\<lparr>vb_backupProvider := Some d\<rparr>)"
      "da_log t = da_log s @ [DaStatus (b\<lparr>vb_backupProvider := Some d\<rparr>) (r = None)]"
proof (cases "\<exists>n b. dx_splitKey env key = Inr n \<and> dx_listerErr env n (da_world s) = None \<and> da_cache s n = Some b")
  case False
  then show thesis using assms same by (auto simp: assign_processQueue_def split: sum.splits option.splits)
next
  case True
  then obtain n b where n: "dx_splitKey env key = Inr n" "dx_listerErr env n (da_world s) = None" "da_cache s n = Some b" by blast
  obtain newObj e store where u: "StoreRevisionUpdate (dx_objKey env) (\<lambda>x. Inr (vb_meta x)) ''VolumeBackup'' (da_processed s) b = ((newObj, e), store)"
    by (metis prod.collapse)
  show thesis
  proof (cases "newObj \<and> meta_deletionTimestamp (vb_meta b) = None")
    case True
    then have "assign_driver env b (s\<lparr>da_processed := store\<rparr>) = (r, t)"
      using assms n u by (simp add: assign_processQueue_def Let_def)
    then show thesis by (cases rule: assign_driver_cases; use n True same sent in \<open>auto\<close>)
  next
    case False
    then show thesis using assms n u same by (auto simp: assign_processQueue_def Let_def split: if_splits)
  qed
qed

theorem assign_sends_table_driver:
  assumes "assign_processQueue env key s = (r, t)"
  shows "da_log t = da_log s \<or>
     (\<exists>name b. dx_splitKey env key = Inr name \<and> assignable s name = Some b \<and> da_log t = da_log s @ [DaStatus b (r = None)])"
  using assms by (cases rule: assign_cases) (auto simp: assignable_def)

text \<open>
  When the update fails the cached content already has its driver: as long as the informer does not replace
  it, the content does not need one any more.
\<close>

definition cache_named :: "'w assignc \<Rightarrow> bool" where
  "cache_named s \<longleftrightarrow> (\<forall>n b. da_cache s n = Some b \<longrightarrow> vb_name b = n)"

lemma driver_kept:
  assumes run: "assign_processQueue env key s = (r, t)" and s: "da_cache s n = Some b" "vb_backupProvider b \<noteq> None" "cache_named s"
  shows "da_cache t n = Some b" "cache_named t"
    and "DaStatus c ok \<in> set (da_log t) \<Longrightarrow> DaStatus c ok \<in> set (da_log s) \<or> vb_name c \<noteq> n"
  using run by (cases rule: assign_cases; use s in \<open>auto simp: cache_named_def\<close>)+

definition queue_run :: "'w assign_env \<Rightarrow> string list \<Rightarrow> 'w assignc \<Rightarrow> 'w assignc" where
  "queue_run env keys s = fold (\<lambda>key t. snd (assign_processQueue env key t)) keys s"

lemma queue_run_keeps:
  assumes "da_cache s n = Some b" "vb_backupProvider b \<noteq> None" "cache_named s"
    and "DaStatus c ok \<in> set (da_log (queue_run env keys s))"
  shows "DaStatus c ok \<in> set (da_log s) \<or> vb_name c \<noteq> n"
  using assms
proof (induction keys arbitrary: s)
  case (Cons key keys)
  obtain r t where t: "assign_processQueue env key s = (r, t)" by fastforce
  have "DaStatus c ok \<in> set (da_log (queue_run env keys t))" using Cons.prems(4) t by (simp add: queue_run_def)
  then show ?case
    using Cons.IH [OF driver_kept(1) [OF t Cons.prems(1-3)] Cons.prems(2) driver_kept(2) [OF t Cons.prems(1-3)]]
      driver_kept(3) [OF t Cons.prems(1-3)] by blast
qed (simp add: queue_run_def)

text \<open>After an update that failed, no sequence of queue entries makes the controller send the content again.\<close>

theorem failed_assignment_not_retried:
  assumes "cache_named s" "assign_processQueue env key s = (Some e, t)" "da_log t = da_log s @ [DaStatus b False]"
    and "DaStatus c ok \<in> set (da_log (queue_run env keys t))"
  shows "DaStatus c ok \<in> set (da_log t) \<or> vb_name c \<noteq> vb_name b"
proof -
  have "da_cache t (vb_name b) = Some b \<and> vb_backupProvider b \<noteq> None \<and> cache_named t"
    using assms(2) by (cases rule: assign_cases; use assms(1,3) in \<open>auto simp: cache_named_def\<close>)
  then show ?thesis using queue_run_keeps assms(4) by blast
qed

text \<open>The world counts the updates; the first one fails.\<close>

definition demo_assign :: "nat assign_env" where
  "demo_assign = \<lparr>dx_objKey = (\<lambda>b. Inr (vb_name b)), dx_splitKey = Inr, dx_listerErr = (\<lambda>_ _. None), dx_List = (\<lambda>_. Inr []),
     dx_UpdateStatus = (\<lambda>b w. (if w = 0 then Some (errorf ''busy'') else None, w + 1))\<rparr>"

definition demo_unassigned :: VolumeBackupContent where
  "demo_unassigned = zero_VBC\<lparr>vb_meta := zero_meta\<lparr>meta_name := ''v'', meta_resourceVersion := ''2''\<rparr>, vb_provider := Some ''zfs.csi.openebs.io''\<rparr>"

definition demo_assignc :: "nat assignc" where
  "demo_assignc = \<lparr>da_cache = [''v'' \<mapsto> demo_unassigned], da_processed = NewStore (\<lambda>b. Inr (vb_name b)), da_world = 0, da_log = []\<rparr>"

abbreviation demo_assigned :: VolumeBackupContent where
  "demo_assigned \<equiv> demo_unassigned\<lparr>vb_backupProvider := Some csi_snapshotter\<rparr>"

lemma demo_assign_fails:
  "\<exists>t. assign_processQueue demo_assign ''v'' demo_assignc = (Some (errorf ''busy''), t) \<and> da_log t = [DaStatus demo_assigned False]"
  by (simp add: assign_processQueue_def demo_assign_def demo_assignc_def demo_unassigned_def zero_VBC_def zero_meta_def
      StoreRevisionUpdate_def store_Get_def store_Add_def NewStore_def assign_driver_def needVolumeBackupDriver_def
      pickVolumeBackupDriver_def volBackupSupport_def Let_def)

theorem assign_sends_table_driver_witness:
  "\<exists>t. assign_processQueue demo_assign ''v'' demo_assignc = (Some (errorf ''busy''), t) \<and>
     assignable demo_assignc ''v'' = Some demo_assigned \<and> da_log t = [DaStatus demo_assigned False]"
proof -
  obtain t where t: "assign_processQueue demo_assign ''v'' demo_assignc = (Some (errorf ''busy''), t)" "da_log t = [DaStatus demo_assigned False]"
    using demo_assign_fails by blast
  have "dx_splitKey demo_assign = Inr" "da_log demo_assignc = []" by (simp_all add: demo_assign_def demo_assignc_def)
  then show ?thesis using assign_sends_table_driver [OF t(1)] t by auto
qed

theorem failed_assignment_not_retried_witness:
  "\<exists>t. assign_processQueue demo_assign ''v'' demo_assignc = (Some (errorf ''busy''), t) \<and>
     filter (\<lambda>e. e = DaStatus demo_assigned True) (da_log (queue_run demo_assign [''v'', ''v'', ''v''] t)) = []"
proof -
  obtain t where t: "assign_processQueue demo_assign ''v'' demo_assignc = (Some (errorf ''busy''), t)" "da_log t = [DaStatus demo_assigned False]"
    using demo_assign_fails by blast
  have named: "cache_named demo_assignc"
    by (simp add: cache_named_def demo_assignc_def demo_unassigned_def zero_meta_def)
  have "da_log demo_assignc = []" by (simp add: demo_assignc_def)
  then have "DaStatus demo_assigned True \<notin> set (da_log (queue_run demo_assign [''v'', ''v'', ''v''] t))"
    using failed_assignment_not_retried [OF named t(1), of demo_assigned demo_assigned True] t(2) by auto
  then show ?thesis using t(1) by (auto simp: filter_empty_conv)
qed

end
