(* ===== verification/Files.thy ===== *)
theory Files
  imports Paths Traces
begin

text \<open>
  Files and streams for the metadata service and the NFS provider: what the sources use of \<^verbatim>\<open>os\<close>,
  \<^verbatim>\<open>path\<close> and of gRPC streams.

  There are two file systems, that of the side car (\<open>Local\<close>) and that of the provider (\<open>Store\<close>). Each maps
  clean paths to contents; there are no symbolic links. Bytes are characters. Every operation may fail: an
  oracle over the world \<open>'w\<close> decides, and otherwise the operation has its effect on the map. A write that
  fails may have written a part, \<open>fe_partial\<close>.
\<close>

section \<open>State and operations\<close>

datatype side = Local | Store

datatype io_op = OpStat | OpCreate | OpOpen | OpRead | OpWrite | OpHeader | OpClose | OpRemove
  | OpStream | OpSend | OpRecv | OpCall

record 'w files =
  fl_local :: "string \<rightharpoonup> string"
  fl_store :: "string \<rightharpoonup> string"
  fl_world :: 'w

record 'w file_env =
  fe_io :: "io_op \<Rightarrow> 'w \<Rightarrow> goerr option \<times> 'w"
  fe_partial :: "'w \<Rightarrow> nat"

fun fs_of :: "side \<Rightarrow> 'w files \<Rightarrow> (string \<rightharpoonup> string)" where
  "fs_of Local s = fl_local s" | "fs_of Store s = fl_store s"

fun fs_set :: "side \<Rightarrow> (string \<rightharpoonup> string) \<Rightarrow> 'w files \<Rightarrow> 'w files" where
  "fs_set Local m s = s\<lparr>fl_local := m\<rparr>" | "fs_set Store m s = s\<lparr>fl_store := m\<rparr>"

definition io :: "'w file_env \<Rightarrow> io_op \<Rightarrow> ('w files, goerr option) state" where
  "io env op = liftst (\<lambda>s. case fe_io env op (fl_world s) of (e, w) \<Rightarrow> (e, s\<lparr>fl_world := w\<rparr>))"

definition effect :: "('w files \<Rightarrow> 'w files) \<Rightarrow> ('w files, unit) state" where
  "effect f = liftst (\<lambda>s. ((), f s))"

definition notFoundFile :: "string \<Rightarrow> goerr" where
  "notFoundFile path = GoErr NotFound (''open '' @ path @ '': no such file or directory'')"

definition os_Stat :: "'w file_env \<Rightarrow> side \<Rightarrow> string \<Rightarrow> ('w files, goerr option) state" where
  "os_Stat env sd path = do {
     e \<leftarrow> io env OpStat;
     liftst (\<lambda>s. (if e \<noteq> None then e
       else if fs_of sd s (filepath_Clean path) = None then Some (notFoundFile path) else None, s)) }"

definition os_Create :: "'w file_env \<Rightarrow> side \<Rightarrow> string \<Rightarrow> ('w files, goerr option) state" where
  "os_Create env sd path = do {
     e \<leftarrow> io env OpCreate;
     if e \<noteq> None then State_Monad.return e
     else do {
       effect (\<lambda>s. fs_set sd ((fs_of sd s)(filepath_Clean path \<mapsto> [])) s);
       State_Monad.return None } }"

definition os_Open :: "'w file_env \<Rightarrow> side \<Rightarrow> string \<Rightarrow> ('w files, goerr option) state" where
  "os_Open env sd path = do {
     e \<leftarrow> io env OpOpen;
     liftst (\<lambda>s. (if e \<noteq> None then e
       else if fs_of sd s (filepath_Clean path) = None then Some (notFoundFile path) else None, s)) }"

definition os_Write :: "'w file_env \<Rightarrow> side \<Rightarrow> string \<Rightarrow> string \<Rightarrow> ('w files, goerr option) state" where
  "os_Write env sd path data = do {
     e \<leftarrow> io env OpWrite;
     liftst (\<lambda>s. let written = (if e = None then data else take (fe_partial env (fl_world s)) data) in
       (e, fs_set sd ((fs_of sd s)(filepath_Clean path := map_option (\<lambda>c. c @ written) (fs_of sd s (filepath_Clean path)))) s)) }"

definition os_Remove :: "'w file_env \<Rightarrow> side \<Rightarrow> string \<Rightarrow> ('w files, goerr option) state" where
  "os_Remove env sd path = do {
     e \<leftarrow> io env OpRemove;
     if e \<noteq> None then State_Monad.return e
     else liftst (\<lambda>s. if fs_of sd s (filepath_Clean path) = None then (Some (notFoundFile path), s)
       else (None, fs_set sd ((fs_of sd s)(filepath_Clean path := None)) s)) }"

text \<open>The content of an open file.\<close>

definition content :: "side \<Rightarrow> string \<Rightarrow> 'w files \<Rightarrow> string" where
  "content sd path s = (case fs_of sd s (filepath_Clean path) of None \<Rightarrow> [] | Some c \<Rightarrow> c)"

text \<open>Reading with a buffer of \<open>n\<close> bytes. A regular file fills the buffer except at its end.\<close>

function read_chunks :: "nat \<Rightarrow> 'a list \<Rightarrow> 'a list list" where
  "read_chunks n xs = (if xs = [] \<or> n = 0 then [] else take n xs # read_chunks n (drop n xs))"
  by pat_completeness auto
termination by (relation "measure (\<lambda>(n, xs). length xs)") auto

declare read_chunks.simps [simp del]

text \<open>\<^verbatim>\<open>path.Base\<close>: the last component.\<close>

definition path_Base :: "string \<Rightarrow> string" where
  "path_Base p = (if p = [] then ''.'' else
     let q = rev (dropWhile (\<lambda>c. c = CHR ''/'') (rev p));
         base = rev (takeWhile (\<lambda>c. c \<noteq> CHR ''/'') (rev q))
     in if base = [] then ''/'' else base)"

section \<open>Rules\<close>

lemma run_io [simp]: "run_state (io env op) s = (case fe_io env op (fl_world s) of (e, w) \<Rightarrow> (e, s\<lparr>fl_world := w\<rparr>))"
  by (simp add: io_def)

lemma run_effect [simp]: "run_state (effect f) s = ((), f s)"
  by (simp add: effect_def)

lemma fs_of_set [simp]: "fs_of sd (fs_set sd' m s) = (if sd = sd' then m else fs_of sd s)"
  by (cases sd; cases sd') auto

lemma fs_of_world [simp]: "fs_of sd (s\<lparr>fl_world := w\<rparr>) = fs_of sd s"
  by (cases sd) auto

lemma concat_read_chunks [simp]: "0 < n \<Longrightarrow> concat (read_chunks n xs) = xs"
  by (induction n xs rule: read_chunks.induct) (subst read_chunks.simps, auto)

lemma read_chunks_Nil [simp]: "read_chunks n [] = []"
  by (simp add: read_chunks.simps)

text \<open>What an operation does to the file systems when it reports no error.\<close>

lemma os_Create_run: "run_state (os_Create env sd path) s = (None, t) \<Longrightarrow>
    fs_of sd' t = (if sd' = sd then (fs_of sd s)(filepath_Clean path \<mapsto> []) else fs_of sd' s)"
  by (auto simp: os_Create_def split: prod.splits if_splits)

lemma os_Open_run: "run_state (os_Open env sd path) s = (r, t) \<Longrightarrow>
    fs_of sd' t = fs_of sd' s \<and> (r = None \<longrightarrow> fs_of sd s (filepath_Clean path) \<noteq> None)"
  by (auto simp: os_Open_def split: prod.splits if_splits)

lemma os_Stat_run: "run_state (os_Stat env sd path) s = (r, t) \<Longrightarrow>
    fs_of sd' t = fs_of sd' s \<and> (r = None \<longrightarrow> fs_of sd s (filepath_Clean path) \<noteq> None)"
  by (auto simp: os_Stat_def split: prod.splits if_splits)

lemma os_Write_run: "run_state (os_Write env sd path data) s = (None, t) \<Longrightarrow>
    fs_of sd' t = (if sd' = sd then (fs_of sd s)(filepath_Clean path := map_option (\<lambda>c. c @ data) (fs_of sd s (filepath_Clean path)))
      else fs_of sd' s)"
  by (auto simp: os_Write_def Let_def split: prod.splits if_splits)

lemma io_run: "run_state (io env op) s = (r, t) \<Longrightarrow> fs_of sd t = fs_of sd s"
  by (auto split: prod.splits)

lemma os_Create_other: "run_state (os_Create env sd path) s = (r, t) \<Longrightarrow> sd' \<noteq> sd \<Longrightarrow> fs_of sd' t = fs_of sd' s"
  by (auto simp: os_Create_def split: prod.splits if_splits)

lemma os_Write_other: "run_state (os_Write env sd path data) s = (r, t) \<Longrightarrow> sd' \<noteq> sd \<Longrightarrow> fs_of sd' t = fs_of sd' s"
  by (auto simp: os_Write_def Let_def split: prod.splits if_splits)

lemma os_Remove_other: "run_state (os_Remove env sd path) s = (r, t) \<Longrightarrow> sd' \<noteq> sd \<Longrightarrow> fs_of sd' t = fs_of sd' s"
  by (auto simp: os_Remove_def split: prod.splits if_splits)

section \<open>Clean paths\<close>

text \<open>Cleaned components: leading double dots of a relative path, then plain ones.\<close>

definition dots :: "nat \<Rightarrow> string list" where "dots k = replicate k ''..''"

definition cleaned_path :: "bool \<Rightarrow> string list \<Rightarrow> bool" where
  "cleaned_path r cs \<longleftrightarrow> (\<exists>k ps. cs = dots k @ ps \<and> (\<forall>c \<in> set ps. plain c) \<and> (r \<longrightarrow> k = 0))"

lemma cleaned_snoc:
  assumes "cleaned_path r cs" "plain c"
  shows "cleaned_path r (cs @ [c])"
proof -
  obtain k ps where "cs = dots k @ ps" "\<forall>c \<in> set ps. plain c" "r \<longrightarrow> k = 0" using assms(1) by (auto simp: cleaned_path_def)
  then show ?thesis using assms(2) unfolding cleaned_path_def by (intro exI [of _ k] exI [of _ "ps @ [c]"]) simp
qed

lemma clean_comps_cleaned:
  "cleaned_path r (rev out) \<Longrightarrow> \<forall>c \<in> set cs. CHR ''/'' \<notin> set c \<Longrightarrow> cleaned_path r (clean_comps r out cs)"
proof (induction r out cs rule: clean_comps.induct)
  case (2 rooted out c cs)
  show ?case
  proof (cases "c = ''..''")
    case False
    then show ?thesis using 2 cleaned_snoc [of rooted "rev out" c] by (auto simp: plain_def)
  next
    case c: True
    obtain k ps where o: "rev out = dots k @ ps" "\<forall>c \<in> set ps. plain c" "rooted \<longrightarrow> k = 0"
      using "2.prems"(1) by (auto simp: cleaned_path_def)
    show ?thesis
    proof (cases ps rule: rev_exhaust)
      case Nil
      then have out: "out = dots k" using o(1) by (metis append_Nil2 dots_def rev_replicate rev_rev_ident)
      have snoc: "cleaned_path False (dots j)" for j
        unfolding cleaned_path_def by (intro exI [of _ j] exI [of _ "[]"]) simp
      have eq: "rev (dots j) @ [''..''] = dots (Suc j)" for j by (simp add: dots_def replicate_append_same)
      show ?thesis
      proof (cases k)
        case 0
        then have "out = []" using out by (simp add: dots_def)
        moreover have "cleaned_path rooted (rev (if rooted then [] else [''..'']))"
          using snoc [of 1] by (auto simp: cleaned_path_def dots_def)
        ultimately show ?thesis using 2 c by auto
      next
        case (Suc j)
        then have "\<not> rooted" "out = ''..'' # dots j" using o(3) out by (auto simp: dots_def)
        moreover have "cleaned_path rooted (rev (''..'' # out))"
          using snoc [of "Suc k"] eq [of k] out calculation(1) by simp
        ultimately show ?thesis using 2 c by auto
      qed
    next
      case (snoc qs p)
      then have out: "out = p # rev (dots k @ qs)" using o(1) by (metis append.assoc rev_append rev_rev_ident rev_singleton_conv append_Cons append_Nil)
      have "p \<noteq> ''..''" using o(2) snoc by (auto simp: plain_def)
      moreover have "cleaned_path rooted (rev (rev (dots k @ qs)))" using o(2,3) snoc by (auto simp: cleaned_path_def)
      ultimately show ?thesis using 2 c out by auto
    qed
  qed
qed auto

lemma clean_comps_dots: "clean_comps False (dots j) (dots k @ cs) = clean_comps False (dots (j + k)) cs"
proof (induction k arbitrary: j)
  case (Suc k)
  then show ?case using Suc.IH [of "Suc j"] by (cases j) (auto simp: dots_def)
qed (simp add: dots_def)

lemma clean_comps_id: "cleaned_path r cs \<Longrightarrow> clean_comps r [] cs = cs"
proof -
  assume "cleaned_path r cs"
  then obtain k ps where cs: "cs = dots k @ ps" "\<forall>c \<in> set ps. plain c" "r \<longrightarrow> k = 0" by (auto simp: cleaned_path_def)
  show ?thesis
  proof (cases r)
    case True
    then show ?thesis using cs clean_comps_plain [of ps r "[]"] by (simp add: dots_def)
  next
    case False
    then show ?thesis using cs clean_comps_dots [of 0 k ps] clean_comps_plain [of ps r "dots k"] by (simp add: dots_def)
  qed
qed

lemma split_acc_no_sep: "sep \<notin> set acc \<Longrightarrow> c \<in> set (split_acc sep acc p) \<Longrightarrow> sep \<notin> set c"
proof (induction p arbitrary: acc)
  case (Cons a p)
  then show ?case using Cons.IH [of "[]"] Cons.IH [of "a # acc"] by (auto split: if_splits)
qed simp

lemma no_slash_Split: "\<forall>c \<in> set (strings_Split (CHR ''/'') p). CHR ''/'' \<notin> set c"
  by (auto simp: strings_Split_def dest: split_acc_no_sep [rotated])

lemma cleaned_no_slash:
  assumes "cleaned_path r cs" "c \<in> set cs"
  shows "CHR ''/'' \<notin> set c \<and> c \<noteq> []"
proof -
  obtain k ps where "cs = dots k @ ps" "\<forall>c \<in> set ps. plain c" using assms(1) by (auto simp: cleaned_path_def)
  then have "c = ''..'' \<or> plain c" using assms(2) by (auto simp: dots_def)
  then show ?thesis by (auto simp: plain_def)
qed

lemma Split_Cons_sep: "strings_Split c (c # p) = [] # strings_Split c p"
  by (simp add: strings_Split_def)

lemma filepath_Clean_idem [simp]: "filepath_Clean (filepath_Clean p) = filepath_Clean p"
proof (cases "p = []")
  case True
  then show ?thesis by (simp add: filepath_Clean_def strings_Split_def)
next
  case False
  let ?r = "hd p = CHR ''/''" and ?cs = "clean_comps (hd p = CHR ''/'') [] (strings_Split (CHR ''/'') p)"
  have cl: "cleaned_path ?r ?cs" by (rule clean_comps_cleaned [OF _ no_slash_Split]) (auto simp: cleaned_path_def dots_def)
  have ids: "clean_comps ?r [] ?cs = ?cs" by (rule clean_comps_id [OF cl])
  have p: "filepath_Clean p = (if ?r then CHR ''/'' # strings_Join ''/'' ?cs else if strings_Join ''/'' ?cs = [] then ''.'' else strings_Join ''/'' ?cs)"
    using False by (simp add: filepath_Clean_def Let_def)
  show ?thesis
  proof (cases "?cs = []")
    case True
    then show ?thesis unfolding p by (auto simp: filepath_Clean_def strings_Split_def)
  next
    case ne: False
    then have sp: "strings_Split (CHR ''/'') (strings_Join ''/'' ?cs) = ?cs"
      using cleaned_no_slash [OF cl] by (intro Split_Join) auto
    obtain x xs where cs: "?cs = x # xs" using ne by (cases ?cs) auto
    then have x: "x \<noteq> []" "hd x \<noteq> CHR ''/''" using cleaned_no_slash [OF cl, of x] hd_in_set [of x] by (simp, metis list.set_intros(1))
    have j: "strings_Join ''/'' ?cs \<noteq> []" "hd (strings_Join ''/'' ?cs) \<noteq> CHR ''/''"
      unfolding cs using x Join_Nil_iff [of x "''/''" xs] hd_Join [of x "''/''" xs] by auto
    show ?thesis
    proof (cases ?r)
      case True
      then show ?thesis using p sp ids by (simp add: filepath_Clean_def Split_Cons_sep)
    next
      case False
      then show ?thesis using p sp ids j by (simp add: filepath_Clean_def)
    qed
  qed
qed

lemma clean_Join2:
  assumes "d \<noteq> []"
  shows "filepath_Join [d, n] = filepath_Clean (d @ CHR ''/'' # n)"
  using assms by (simp add: filepath_Join_def)

end
