(* ===== verification/Archive.thy ===== *)
theory Archive
  imports Files
begin

text \<open>
  Archives of the metadata service, \<^verbatim>\<open>providerframework/metaservice/archiver/\<close>: the table of compression
  plugins and the opening of archives (\<^verbatim>\<open>manager/manager.go\<close>), the tar writer and reader (\<^verbatim>\<open>tar/tar.go\<close>)
  and the gzip plugin (\<^verbatim>\<open>compressors/gzip.go\<close>).

  The formats are library code and parameters: a \<open>compressor\<close> encodes a byte stream and decodes one up to an
  error, a \<open>tar_format\<close> does so for a list of entries. An open archive holds the entries written so far; its
  bytes reach the file when it is closed, which is when the code flushes both writers. What a file holds
  before that is not looked at by anyone: a failed archive is deleted.
\<close>

section \<open>Formats and plugins\<close>

record compressor =
  cp_newWriter :: "goerr option"
  cp_encode :: "string \<Rightarrow> string"
  cp_newReader :: "string \<Rightarrow> goerr option"
  cp_decode :: "string \<Rightarrow> string \<times> goerr option"

record tar_format =
  tf_write :: "(string \<times> string) list \<Rightarrow> string"
  tf_read :: "string \<times> goerr option \<Rightarrow> (string \<times> string) list \<times> goerr option"

record plugins =
  pl_writers :: "string \<rightharpoonup> compressor"
  pl_readers :: "string \<rightharpoonup> compressor"

definition no_plugins :: plugins where "no_plugins = \<lparr>pl_writers = Map.empty, pl_readers = Map.empty\<rparr>"

definition RegisterCompressionWriterPlugins :: "string \<Rightarrow> compressor \<Rightarrow> plugins \<Rightarrow> plugins" where
  "RegisterCompressionWriterPlugins name invoke p = p\<lparr>pl_writers := (pl_writers p)(name \<mapsto> invoke)\<rparr>"

definition RegisterCompressionReaderPlugins :: "string \<Rightarrow> compressor \<Rightarrow> plugins \<Rightarrow> plugins" where
  "RegisterCompressionReaderPlugins name invoke p = p\<lparr>pl_readers := (pl_readers p)(name \<mapsto> invoke)\<rparr>"

definition GetCompressionPluginsNames :: "plugins \<Rightarrow> string set" where
  "GetCompressionPluginsNames p = dom (pl_writers p)"

definition CheckWriterCompressor :: "plugins \<Rightarrow> string \<Rightarrow> bool" where
  "CheckWriterCompressor p name \<longleftrightarrow> pl_writers p name \<noteq> None"

definition CheckReaderCompressor :: "plugins \<Rightarrow> string \<Rightarrow> bool" where
  "CheckReaderCompressor p name \<longleftrightarrow> pl_readers p name \<noteq> None"

definition GZipType :: string where "GZipType = ''gzip''"

text \<open>The plugin of \<^verbatim>\<open>compress/gzip\<close>, registered for both directions when the service starts.\<close>

definition register_gzip :: "compressor \<Rightarrow> plugins \<Rightarrow> plugins" where
  "register_gzip gzip p = RegisterCompressionReaderPlugins GZipType gzip (RegisterCompressionWriterPlugins GZipType gzip p)"

section \<open>Writing\<close>

record tarArchiver =
  ta_file :: string
  ta_comp :: compressor
  ta_entries :: "(string \<times> string) list"

definition GetArchiver ::
  "'w file_env \<Rightarrow> plugins \<Rightarrow> string \<Rightarrow> string \<Rightarrow> string \<Rightarrow> ('w files, goerr + tarArchiver \<times> string) state" where
  "GetArchiver env p archiveYard typ archiveFileName = (case pl_writers p typ of
     None \<Rightarrow> State_Monad.return (Inl (errorf (''archival plugin['' @ typ @ ''] not available'')))
   | Some cp \<Rightarrow> do {
       let archiveFile = filepath_Join [archiveYard, archiveFileName];
       serr \<leftarrow> os_Stat env Local archiveFile;
       if \<not> IsNotFound serr then State_Monad.return (Inl (errorf (''archival file('' @ archiveFile @ '') already exist'')))
       else do {
         cerr \<leftarrow> os_Create env Local archiveFile;
         (case cerr of
            Some e \<Rightarrow> State_Monad.return (Inl e)
          | None \<Rightarrow> State_Monad.return (case cp_newWriter cp of
              Some e \<Rightarrow> Inl e
            | None \<Rightarrow> Inr (\<lparr>ta_file = archiveFile, ta_comp = cp, ta_entries = []\<rparr>, archiveFile))) } })"

definition WriteFile :: "'w file_env \<Rightarrow> string \<Rightarrow> string \<Rightarrow> tarArchiver \<Rightarrow> ('w files, goerr + tarArchiver) state" where
  "WriteFile env file data ar = do {
     e \<leftarrow> io env OpHeader;
     (case e of
        Some err \<Rightarrow> State_Monad.return (Inl err)
      | None \<Rightarrow> do {
          e2 \<leftarrow> io env OpWrite;
          State_Monad.return (case e2 of Some err \<Rightarrow> Inl err | None \<Rightarrow> Inr (ar\<lparr>ta_entries := ta_entries ar @ [(file, data)]\<rparr>)) }) }"

text \<open>Closing the tar writer, then the plugin's writer, then the file.\<close>

definition archiver_Close :: "'w file_env \<Rightarrow> tar_format \<Rightarrow> tarArchiver \<Rightarrow> ('w files, goerr option) state" where
  "archiver_Close env tf ar = do {
     e1 \<leftarrow> io env OpClose;
     if e1 \<noteq> None then State_Monad.return e1
     else do {
       e2 \<leftarrow> os_Write env Local (ta_file ar) (cp_encode (ta_comp ar) (tf_write tf (ta_entries ar)));
       if e2 \<noteq> None then State_Monad.return e2 else io env OpClose } }"

section \<open>Reading\<close>

text \<open>What a reader will deliver: the entries up to the end of the archive or an error.\<close>

definition GetArchiveReader ::
  "'w file_env \<Rightarrow> plugins \<Rightarrow> tar_format \<Rightarrow> string \<Rightarrow> string \<Rightarrow>
   ('w files, goerr + ((string \<times> string) list \<times> goerr option)) state" where
  "GetArchiveReader env p tf typ archiveFilePath = (case pl_readers p typ of
     None \<Rightarrow> State_Monad.return (Inl (errorf (''archival plugin['' @ typ @ ''] not available'')))
   | Some cp \<Rightarrow> do {
       serr \<leftarrow> os_Stat env Local archiveFilePath;
       if IsNotFound serr then State_Monad.return (Inl (errorf (''archival file('' @ archiveFilePath @ '') do not exist'')))
       else do {
         oerr \<leftarrow> os_Open env Local archiveFilePath;
         (case oerr of
            Some e \<Rightarrow> State_Monad.return (Inl e)
          | None \<Rightarrow> do {
              bytes \<leftarrow> liftst (\<lambda>s. (content Local archiveFilePath s, s));
              State_Monad.return (case cp_newReader cp bytes of
                Some e \<Rightarrow> Inl e
              | None \<Rightarrow> Inr (tf_read tf (cp_decode cp bytes))) }) } })"

text \<open>The next entry, its end (\<^verbatim>\<open>io.EOF\<close>, an empty left side) or an error.\<close>

definition ReadNext :: "(string \<times> string) list \<times> goerr option \<Rightarrow>
    goerr option + (string \<times> string) \<times> ((string \<times> string) list \<times> goerr option)" where
  "ReadNext rd = (case rd of
     ([], err) \<Rightarrow> Inl err
   | (e # es, err) \<Rightarrow> Inr (e, (es, err)))"

section \<open>What is written can be read\<close>

text \<open>The documented behaviour of the libraries: a writer opens, and decoding inverts encoding.\<close>

definition format_laws :: "compressor \<Rightarrow> tar_format \<Rightarrow> bool" where
  "format_laws cp tf \<longleftrightarrow> cp_newWriter cp = None \<and>
     (\<forall>x. cp_newReader cp (cp_encode cp x) = None \<and> cp_decode cp (cp_encode cp x) = (x, None)) \<and>
     (\<forall>es. tf_read tf (tf_write tf es, None) = (es, None))"

lemma GetArchiver_run:
  assumes "run_state (GetArchiver env p yard typ name) s = (Inr (ar, file), t)"
  shows "pl_writers p typ = Some (ta_comp ar)" "file = filepath_Join [yard, name]" "ta_file ar = file" "ta_entries ar = []"
    "fl_local t = (fl_local s)(filepath_Clean file \<mapsto> [])" "fl_store t = fl_store s"
proof -
  let ?f = "filepath_Join [yard, name]"
  obtain cp where c: "pl_writers p typ = Some cp" using assms by (auto simp: GetArchiver_def split: option.splits)
  obtain serr s1 where st: "run_state (os_Stat env Local ?f) s = (serr, s1)" by fastforce
  have nf: "IsNotFound serr" using assms c st by (auto simp: GetArchiver_def Let_def split: if_splits)
  obtain cerr s2 where cr: "run_state (os_Create env Local ?f) s1 = (cerr, s2)" by fastforce
  have ce: "cerr = None" using assms c st nf cr by (auto simp: GetArchiver_def Let_def split: option.splits)
  have r: "ar = \<lparr>ta_file = ?f, ta_comp = cp, ta_entries = []\<rparr>" "file = ?f" "t = s2"
    using assms c st nf cr ce by (auto simp: GetArchiver_def Let_def split: option.splits)
  have fs: "fs_of sd s2 = (if sd = Local then (fs_of Local s1)(filepath_Clean ?f \<mapsto> []) else fs_of sd s1)" for sd
    using os_Create_run [OF cr [unfolded ce], of sd] by auto
  have same: "fs_of sd s1 = fs_of sd s" for sd using os_Stat_run [OF st, of sd] by simp
  show "pl_writers p typ = Some (ta_comp ar)" "file = ?f" "ta_file ar = file" "ta_entries ar = []" using c r by auto
  show "fl_local t = (fl_local s)(filepath_Clean file \<mapsto> [])" "fl_store t = fl_store s"
    using fs [of Local] fs [of Store] same [of Local] same [of Store] r by auto
qed

end
