(* ===== verification/Nfs_Provider.thy ===== *)
theory Nfs_Provider
  imports Files
begin

text \<open>
  The NFS provider, \<^verbatim>\<open>providers/nfs/server/server.go\<close>: it keeps uploaded files in a directory. A stream
  from the client is the list of its messages, and each receive may fail; a stream to the client is the
  list of the messages sent before the handler returned.
\<close>

datatype upload_msg = UpInfo string | UpChunk string

datatype download_msg = DnInfo string | DnChunk string

definition ReadBufferSize :: nat where "ReadBufferSize = 4096"

definition defaultProviderName :: string where "defaultProviderName = ''nfs-provider''"
definition defaultProviderVersion :: string where "defaultProviderVersion = ''v1''"

datatype capability = META_BACKUP_SERVICE | VOLUME_BACKUP_SERVICE

definition nfs_GetProviderInfo :: "string \<times> string" where
  "nfs_GetProviderInfo = (defaultProviderName, defaultProviderVersion)"

definition nfs_GetProviderCapabilities :: "capability list" where
  "nfs_GetProviderCapabilities = [META_BACKUP_SERVICE]"

definition nfs_Probe :: "goerr option" where "nfs_Probe = None"

section \<open>Upload\<close>

fun chunk_data :: "upload_msg \<Rightarrow> string" where
  "chunk_data (UpChunk d) = d" | "chunk_data (UpInfo i) = []"

text \<open>A client either closes its stream (\<^verbatim>\<open>io.EOF\<close>, \<open>closed\<close>) or is lost.\<close>

fun nfs_receive :: "'w file_env \<Rightarrow> string \<Rightarrow> bool \<Rightarrow> upload_msg list \<Rightarrow> ('w files, goerr option) state" where
  "nfs_receive env fileName closed [] = do {
     e \<leftarrow> io env OpRecv;
     State_Monad.return (if e \<noteq> None \<or> \<not> closed then Some (errorf ''error receiving request'') else None) }"
| "nfs_receive env fileName closed (m # ms) = do {
     e \<leftarrow> io env OpRecv;
     if e \<noteq> None then State_Monad.return (Some (errorf ''error receiving request''))
     else do {
       w \<leftarrow> os_Write env Store fileName (chunk_data m);
       if w \<noteq> None then State_Monad.return (Some (errorf ''failed to write to file'')) else nfs_receive env fileName closed ms } }"

definition nfs_file :: "string \<Rightarrow> string \<Rightarrow> string" where
  "nfs_file dataPath fileId = dataPath @ ''/'' @ fileId"

definition nfs_Upload :: "'w file_env \<Rightarrow> string \<Rightarrow> bool \<Rightarrow> upload_msg list \<Rightarrow> ('w files, goerr option) state" where
  "nfs_Upload env dataPath closed msgs = do {
     e \<leftarrow> io env OpRecv;
     (case (e, msgs) of
        (None, UpInfo fileId # ms) \<Rightarrow>
          if fileId = [] then State_Monad.return (Some (errorf ''upload failed, invalid file identifier''))
          else do {
            c \<leftarrow> os_Create env Store (nfs_file dataPath fileId);
            if c \<noteq> None then State_Monad.return (Some (errorf ''upload create file failed''))
            else do {
              r \<leftarrow> nfs_receive env (nfs_file dataPath fileId) closed ms;
              if r \<noteq> None then State_Monad.return r
              else do {
                s \<leftarrow> io env OpSend;
                State_Monad.return (if s \<noteq> None then Some (errorf ''failed to close and flush file.'') else None) } } }
      | (None, UpChunk _ # _) \<Rightarrow> State_Monad.return (Some (errorf ''first request is not upload file info''))
      | _ \<Rightarrow> State_Monad.return (Some (errorf ''upload request failed''))) }"

section \<open>Download\<close>

fun nfs_send :: "'w file_env \<Rightarrow> string list \<Rightarrow> ('w files, download_msg list \<times> goerr option) state" where
  "nfs_send env [] = do {
     e \<leftarrow> io env OpRead;
     State_Monad.return ([], if e \<noteq> None then Some (errorf ''error sending response'') else None) }"
| "nfs_send env (b # bs) = do {
     e \<leftarrow> io env OpRead;
     if e \<noteq> None then State_Monad.return ([], Some (errorf ''error sending response''))
     else do {
       s \<leftarrow> io env OpSend;
       if s \<noteq> None then State_Monad.return ([], Some (errorf ''error sending response''))
       else do {
         (ms, err) \<leftarrow> nfs_send env bs;
         State_Monad.return (DnChunk b # ms, err) } } }"

definition nfs_Download :: "'w file_env \<Rightarrow> string \<Rightarrow> string \<Rightarrow> ('w files, download_msg list \<times> goerr option) state" where
  "nfs_Download env dataPath fileId =
     (if fileId = [] then State_Monad.return ([], Some (errorf ''download file id is empty''))
      else do {
        let fileName = filepath_Join [dataPath, fileId];
        o' \<leftarrow> os_Open env Store fileName;
        if o' \<noteq> None then State_Monad.return ([], Some (errorf ''file not found''))
        else do {
          s \<leftarrow> io env OpSend;
          if s \<noteq> None then State_Monad.return ([], Some (errorf ''error sending response''))
          else do {
            bytes \<leftarrow> liftst (\<lambda>s. (content Store fileName s, s));
            (ms, err) \<leftarrow> nfs_send env (read_chunks ReadBufferSize bytes);
            State_Monad.return (DnInfo fileId # ms, err) } } })"

section \<open>Delete and lookup\<close>

text \<open>An error of closing the file is only logged.\<close>

definition nfs_Delete :: "'w file_env \<Rightarrow> string \<Rightarrow> string \<Rightarrow> ('w files, goerr option) state" where
  "nfs_Delete env dataPath fileId = do {
     o' \<leftarrow> os_Open env Store (nfs_file dataPath fileId);
     if o' \<noteq> None then State_Monad.return (Some (errorf ''open, backup file not found''))
     else do {
       _ \<leftarrow> io env OpClose;
       r \<leftarrow> os_Remove env Store (nfs_file dataPath fileId);
       State_Monad.return (if r \<noteq> None then Some (errorf ''remove, backup file not found'') else None) } }"

definition nfs_ObjectExists :: "'w file_env \<Rightarrow> string \<Rightarrow> string \<Rightarrow> ('w files, bool) state" where
  "nfs_ObjectExists env dataPath fileId = do {
     o' \<leftarrow> os_Open env Store (nfs_file dataPath fileId);
     if o' \<noteq> None then State_Monad.return False
     else do { _ \<leftarrow> io env OpClose; State_Monad.return True } }"

section \<open>What is stored and delivered\<close>

lemma nfs_receive_run:
  "run_state (nfs_receive env f True ms) s = (None, t) \<Longrightarrow> fl_local t = fl_local s \<and>
     fl_store t = (if ms = [] then fl_store s else
       (fl_store s)(filepath_Clean f := map_option (\<lambda>c. c @ concat (map chunk_data ms)) (fl_store s (filepath_Clean f))))"
proof (induction ms arbitrary: s)
  case Nil
  then show ?case by (auto split: prod.splits if_splits)
next
  case (Cons m ms)
  obtain e s1 where r: "run_state (io env OpRecv) s = (e, s1)" by fastforce
  obtain w s2 where w: "run_state (os_Write env Store f (chunk_data m)) s1 = (w, s2)" by fastforce
  have ok: "e = None" "w = None" "run_state (nfs_receive env f True ms) s2 = (None, t)"
    using Cons.prems r w by (auto simp del: run_io split: if_splits)
  have s1: "fl_local s1 = fl_local s" "fl_store s1 = fl_store s"
    using io_run [OF r, of Local] io_run [OF r, of Store] by auto
  have s2: "fl_local s2 = fl_local s"
      "fl_store s2 = (fl_store s)(filepath_Clean f := map_option (\<lambda>c. c @ chunk_data m) (fl_store s (filepath_Clean f)))"
    using os_Write_run [OF w [unfolded ok(2)], of Local] os_Write_run [OF w [unfolded ok(2)], of Store] s1 by auto
  show ?case using Cons.IH [OF ok(3)] s2 by (auto simp: option.map_comp comp_def)
qed

lemma nfs_Upload_run:
  assumes "run_state (nfs_Upload env dp True (UpInfo i # map UpChunk ds)) s = (None, t)"
  shows "fl_local t = fl_local s" "fl_store t = (fl_store s)(filepath_Clean (nfs_file dp i) \<mapsto> concat ds)"
proof -
  let ?f = "nfs_file dp i"
  obtain e s1 where r: "run_state (io env OpRecv) s = (e, s1)" by fastforce
  have i: "e = None" "i \<noteq> []" using assms r by (auto simp: nfs_Upload_def simp del: run_io split: option.splits if_splits)
  obtain c s2 where c: "run_state (os_Create env Store ?f) s1 = (c, s2)" by fastforce
  have cn: "c = None" using assms r i c by (auto simp: nfs_Upload_def simp del: run_io split: if_splits)
  obtain q s3 where q: "run_state (nfs_receive env ?f True (map UpChunk ds)) s2 = (q, s3)" by fastforce
  have qn: "q = None" using assms r i c cn q by (auto simp: nfs_Upload_def simp del: run_io split: if_splits)
  have "\<exists>x. run_state (io env OpSend) s3 = (x, t)"
    using assms r i c cn q qn by (auto simp: nfs_Upload_def simp del: run_io split: prod.splits)
  then have t: "fs_of sd t = fs_of sd s3" for sd using io_run by blast
  have s2: "fs_of sd s2 = (if sd = Store then (fl_store s)(filepath_Clean ?f \<mapsto> []) else fs_of sd s)" for sd
    using os_Create_run [OF c [unfolded cn], of sd] io_run [OF r, of sd] io_run [OF r, of Store] by auto
  have s3: "fl_local s3 = fl_local s2" "fl_store s3 = (fl_store s2)(filepath_Clean ?f \<mapsto> concat ds)"
    using nfs_receive_run [OF q [unfolded qn]] s2 [of Store] by (auto simp: comp_def)
  show "fl_local t = fl_local s" using t [of Local] s3 s2 [of Local] by simp
  show "fl_store t = (fl_store s)(filepath_Clean ?f \<mapsto> concat ds)" using t [of Store] s3 s2 [of Store] by simp
qed

lemma nfs_send_run:
  "run_state (nfs_send env bs) s = ((ms, None), t) \<Longrightarrow> ms = map DnChunk bs \<and> fs_of sd t = fs_of sd s"
  by (induction bs arbitrary: s ms) (auto split: prod.splits if_splits)

lemma nfs_send_keeps: "run_state (nfs_send env bs) s = (r, t) \<Longrightarrow> fs_of sd t = fs_of sd s"
  by (induction bs arbitrary: s r) (auto split: prod.splits if_splits)

lemma nfs_Download_keeps: "run_state (nfs_Download env dp i) s = (r, t) \<Longrightarrow> fs_of sd t = fs_of sd s"
  by (auto simp: nfs_Download_def Let_def split: prod.splits if_splits dest!: nfs_send_keeps [of _ _ _ _ _ sd] os_Open_run [of _ _ _ _ _ _ sd])

lemma nfs_Download_run:
  assumes "run_state (nfs_Download env dp i) s = ((ms, None), t)" "dp \<noteq> []"
  shows "ms = DnInfo i # map DnChunk (read_chunks ReadBufferSize (the (fl_store s (filepath_Clean (nfs_file dp i)))))"
    "fl_store s (filepath_Clean (nfs_file dp i)) \<noteq> None"
proof -
  let ?f = "filepath_Join [dp, i]"
  have f: "filepath_Clean ?f = filepath_Clean (nfs_file dp i)" using assms(2) by (simp add: clean_Join2 nfs_file_def)
  have i: "i \<noteq> []" using assms by (auto simp: nfs_Download_def)
  obtain o' s1 where o: "run_state (os_Open env Store ?f) s = (o', s1)" by fastforce
  have on: "o' = None" using assms i o by (auto simp: nfs_Download_def Let_def split: if_splits)
  obtain x s2 where x: "run_state (io env OpSend) s1 = (x, s2)" by fastforce
  have xn: "x = None" using assms i o on x by (auto simp: nfs_Download_def Let_def simp del: run_io split: if_splits)
  obtain ms' e s3 where d: "run_state (nfs_send env (read_chunks ReadBufferSize (content Store ?f s2))) s2 = ((ms', e), s3)"
    by (metis prod.collapse)
  have "e = None" "ms = DnInfo i # ms'"
    using assms i o on x xn d by (auto simp: nfs_Download_def Let_def simp del: run_io)
  moreover have "fs_of Store s2 = fs_of Store s" using os_Open_run [OF o, of Store] io_run [OF x, of Store] by simp
  moreover have "fs_of Store s (filepath_Clean ?f) \<noteq> None" using os_Open_run [OF o, of Store] on by simp
  ultimately show "ms = DnInfo i # map DnChunk (read_chunks ReadBufferSize (the (fl_store s (filepath_Clean (nfs_file dp i)))))"
      "fl_store s (filepath_Clean (nfs_file dp i)) \<noteq> None"
    using nfs_send_run [OF d [unfolded \<open>e = None\<close>]] f by (auto simp: content_def split: option.splits)
qed

text \<open>An uploaded file is found, and a deleted one is gone.\<close>

lemma nfs_Delete_run:
  assumes "run_state (nfs_Delete env dp i) s = (None, t)"
  shows "fl_store t = (fl_store s)(filepath_Clean (nfs_file dp i) := None)"
  using assms
  by (auto simp: nfs_Delete_def os_Open_def os_Remove_def split: prod.splits if_splits)

end
