(* ===== verification/Meta_Service.thy ===== *)
theory Meta_Service
  imports Archive Nfs_Provider
begin

text \<open>
  The metadata service, \<^verbatim>\<open>providerframework/metaservice/server/server.go\<close>, and its client of the provider,
  \<^verbatim>\<open>backuprespository/client.go\<close>. The provider at the other end is the NFS provider: a call runs its
  handler on the messages the client has sent, and the client then reads what the handler sent back and the
  handler's error. Opening a stream, sending and receiving may fail on their own.

  A file's writes through a buffer are modelled as direct ones: they reach the file in the same order.

  The request stream of a backup is a list of received messages or errors, closed by \<^verbatim>\<open>io.EOF\<close>.
\<close>

section \<open>Environment\<close>

datatype meta_msg = RqIdentifier string | RqResource pb_resource string

record 'w ms_env =
  ms_file :: "'w file_env"
  ms_plugins :: plugins
  ms_tar :: tar_format
  ms_yard :: string
  ms_format :: string
  ms_dataPath :: string

definition archiveFileFormat :: string where "archiveFileFormat = ''.tar''"

section \<open>The client of the provider\<close>

text \<open>
  A chunk that cannot be sent ends the process (\<^verbatim>\<open>log.Fatal\<close>). The provider then has the chunks sent
  before it, and so it has when reading the file fails: that return leaves the stream open.
\<close>

fun send_chunks :: "'w file_env \<Rightarrow> string list \<Rightarrow> ('w files, sres \<times> string list) state" where
  "send_chunks env [] = do { e \<leftarrow> io env OpRead; State_Monad.return (of_err e, []) }"
| "send_chunks env (b # bs) = do {
     e \<leftarrow> io env OpRead;
     if e \<noteq> None then State_Monad.return (of_err e, [])
     else do {
       s \<leftarrow> io env OpSend;
       if s \<noteq> None then State_Monad.return (Crash, [])
       else do {
         (r, sent) \<leftarrow> send_chunks env bs;
         State_Monad.return (r, b # sent) } } }"

definition repo_Upload :: "'w ms_env \<Rightarrow> string \<Rightarrow> ('w files, sres) state" where
  "repo_Upload env filePath = (let fe = ms_file env in do {
     o' \<leftarrow> os_Open fe Local filePath;
     if o' \<noteq> None then State_Monad.return (of_err o') else do {
     c \<leftarrow> io fe OpStream;
     if c \<noteq> None then State_Monad.return (of_err c) else do {
     i \<leftarrow> io fe OpSend;
     if i \<noteq> None then State_Monad.return (of_err i) else do {
     bytes \<leftarrow> liftst (\<lambda>s. (content Local filePath s, s));
     (done, sent) \<leftarrow> send_chunks fe (read_chunks 1024 bytes);
     served \<leftarrow> nfs_Upload fe (ms_dataPath env) (done = Ok) (UpInfo (path_Base filePath) # map UpChunk sent);
     if done \<noteq> Ok then State_Monad.return done
     else do {
       r \<leftarrow> io fe OpRecv;
       State_Monad.return (of_err (if served \<noteq> None then served else r)) } } } } })"

fun dn_data :: "download_msg \<Rightarrow> string" where
  "dn_data (DnChunk d) = d" | "dn_data (DnInfo i) = []"

fun dn_info :: "download_msg \<Rightarrow> string" where
  "dn_info (DnInfo i) = i" | "dn_info (DnChunk d) = []"

fun repo_receive :: "'w file_env \<Rightarrow> string \<Rightarrow> download_msg list \<Rightarrow> goerr option \<Rightarrow> ('w files, goerr option) state" where
  "repo_receive env fileLocation [] served = do {
     e \<leftarrow> io env OpRecv;
     State_Monad.return (if e \<noteq> None then e else served) }"
| "repo_receive env fileLocation (m # ms) served = do {
     e \<leftarrow> io env OpRecv;
     if e \<noteq> None then State_Monad.return e
     else do {
       w \<leftarrow> os_Write env Local fileLocation (dn_data m);
       if w \<noteq> None then State_Monad.return w else repo_receive env fileLocation ms served } }"

definition repo_Download :: "'w ms_env \<Rightarrow> string \<Rightarrow> ('w files, goerr + string) state" where
  "repo_Download env fileID = (let fe = ms_file env in do {
     c \<leftarrow> io fe OpStream;
     (case c of Some e \<Rightarrow> State_Monad.return (Inl e) | None \<Rightarrow> do {
     (msgs, served) \<leftarrow> nfs_Download fe (ms_dataPath env) fileID;
     r \<leftarrow> io fe OpRecv;
     (case (r, msgs) of
        (Some e, _) \<Rightarrow> State_Monad.return (Inl e)
      | (None, []) \<Rightarrow> State_Monad.return (Inl (case served of Some e \<Rightarrow> e | None \<Rightarrow> errorf ''EOF''))
      | (None, m # ms) \<Rightarrow> do {
          let fileLocation = filepath_Join [''/tmp'', dn_info m];
          cr \<leftarrow> os_Create fe Local fileLocation;
          (case cr of Some e \<Rightarrow> State_Monad.return (Inl e) | None \<Rightarrow> do {
          got \<leftarrow> repo_receive fe fileLocation ms served;
          (case got of Some e \<Rightarrow> State_Monad.return (Inl e) | None \<Rightarrow> do {
          f \<leftarrow> io fe OpWrite;
          State_Monad.return (case f of Some e \<Rightarrow> Inl e | None \<Rightarrow> Inr fileLocation) }) }) }) }) })"

text \<open>The error of the provider's deletion is not looked at.\<close>

definition repo_Delete :: "'w ms_env \<Rightarrow> string \<Rightarrow> ('w files, goerr option) state" where
  "repo_Delete env fileID = (let fe = ms_file env in do {
     c \<leftarrow> io fe OpCall;
     if c \<noteq> None then State_Monad.return c
     else do {
       found \<leftarrow> nfs_ObjectExists fe (ms_dataPath env) fileID;
       if \<not> found then State_Monad.return None
       else do {
         _ \<leftarrow> io fe OpCall;
         _ \<leftarrow> nfs_Delete fe (ms_dataPath env) fileID;
         State_Monad.return None } } })"

section \<open>Backup\<close>

definition getBackupHandle :: "(goerr + meta_msg) list \<Rightarrow> goerr + string \<times> (goerr + meta_msg) list" where
  "getBackupHandle reqs = (case reqs of
     Inr (RqIdentifier h) # rest \<Rightarrow> Inr (h, rest)
   | Inr (RqResource _ _) # _ \<Rightarrow> Inl (errorf ''first request is not backup identifier'')
   | Inl err # _ \<Rightarrow> Inl (errorf (''failed with error '' @ err_msg err))
   | [] \<Rightarrow> Inl (errorf ''failed with error EOF''))"

text \<open>A message without a resource in the middle of the stream is a nil dereference.\<close>

fun write_resources ::
  "'w file_env \<Rightarrow> string \<Rightarrow> (goerr + meta_msg) list \<Rightarrow> tarArchiver \<Rightarrow> ('w files, sres \<times> tarArchiver) state" where
  "write_resources env h [] ar = State_Monad.return (Ok, ar)"
| "write_resources env h (Inl err # rs) ar = State_Monad.return (Fail (errorf ''error receiving request''), ar)"
| "write_resources env h (Inr (RqIdentifier i) # rs) ar = State_Monad.return (Crash, ar)"
| "write_resources env h (Inr (RqResource r data) # rs) ar = do {
     w \<leftarrow> WriteFile env (ResourceToFile h r) data ar;
     (case w of
        Inl err \<Rightarrow> State_Monad.return (Fail (errorf (''failed to write file. '' @ err_msg err)), ar)
      | Inr ar' \<Rightarrow> write_resources env h rs ar') }"

definition deleteFile :: "'w file_env \<Rightarrow> string \<Rightarrow> ('w files, unit) state" where
  "deleteFile env filePath = do { _ \<leftarrow> os_Remove env Local filePath; State_Monad.return () }"

text \<open>The archive file is deleted when the call returns or panics, but not when the process ends inside it.\<close>

definition finish_backup :: "'w ms_env \<Rightarrow> string \<Rightarrow> tarArchiver \<Rightarrow> ('w files, sres) state" where
  "finish_backup env archiveFile ar = (let fe = ms_file env in do {
     c \<leftarrow> archiver_Close fe (ms_tar env) ar;
     (case c of
        Some err \<Rightarrow> do {
          deleteFile fe archiveFile;
          State_Monad.return (Fail (errorf (''failed to close and flush file. '' @ err_msg err))) }
      | None \<Rightarrow> do {
          u \<leftarrow> repo_Upload env archiveFile;
          (case u of
             Crash \<Rightarrow> State_Monad.return Crash
           | Fail err \<Rightarrow> do {
               deleteFile fe archiveFile;
               State_Monad.return (Fail (errorf (''failed to upload backup. '' @ err_msg err))) }
           | Ok \<Rightarrow> do {
               s \<leftarrow> io fe OpSend;
               deleteFile fe archiveFile;
               State_Monad.return (if s \<noteq> None then Fail (errorf ''failed to close and flush file.'') else Ok) }) }) })"

definition metaBackup :: "'w ms_env \<Rightarrow> (goerr + meta_msg) list \<Rightarrow> ('w files, sres) state" where
  "metaBackup env reqs = (let fe = ms_file env in
     case getBackupHandle reqs of
       Inl _ \<Rightarrow> State_Monad.return (Fail (errorf ''failed to get backup handle during backup''))
     | Inr (backupHandle, rest) \<Rightarrow> do {
         a \<leftarrow> GetArchiver fe (ms_plugins env) (ms_yard env) (ms_format env) (backupHandle @ archiveFileFormat);
         (case a of
            Inl err \<Rightarrow> State_Monad.return (Fail (errorf (''failed to create archiver '' @ err_msg err)))
          | Inr (ar, archiveFile) \<Rightarrow> do {
              (written, ar') \<leftarrow> write_resources fe backupHandle rest ar;
              if written \<noteq> Ok then do { deleteFile fe archiveFile; State_Monad.return written }
              else finish_backup env archiveFile ar' }) })"

section \<open>Restore\<close>

text \<open>
  An entry is copied through a buffered writer that is never flushed. Nothing is lost: its \<^verbatim>\<open>ReadFrom\<close>, which
  \<^verbatim>\<open>io.CopyN\<close> uses, hands the reader on to the empty \<^verbatim>\<open>bytes.Buffer\<close> below.
\<close>

function restore_entries ::
  "'w file_env \<Rightarrow> (string \<times> string) list \<times> goerr option \<Rightarrow> ('w files, (pb_resource \<times> string) list \<times> goerr option) state" where
  "restore_entries env rd = (case ReadNext rd of
     Inl None \<Rightarrow> State_Monad.return ([], None)
   | Inl (Some err) \<Rightarrow> State_Monad.return ([], Some (errorf (''failed to reader from archived file. '' @ err_msg err)))
   | Inr ((name, data), rd') \<Rightarrow> do {
       c \<leftarrow> io env OpRead;
       (case c of
          Some err \<Rightarrow> State_Monad.return ([], Some (errorf (''failed to form archived file. '' @ err_msg err)))
        | None \<Rightarrow> do {
            s \<leftarrow> io env OpSend;
            (case s of
               Some err \<Rightarrow> State_Monad.return ([], Some (errorf (''failed to send back info from archived file. '' @ err_msg err)))
             | None \<Rightarrow> do {
                 (sent, err) \<leftarrow> restore_entries env rd';
                 State_Monad.return ((FileToResource name, data) # sent, err) }) }) })"
  by pat_completeness auto
termination
  by (relation "measure (\<lambda>(env, rd). length (fst rd))") (auto simp: ReadNext_def split: prod.splits list.splits)

declare restore_entries.simps [simp del]

definition metaRestore :: "'w ms_env \<Rightarrow> string \<Rightarrow> ('w files, (pb_resource \<times> string) list \<times> goerr option) state" where
  "metaRestore env handle = (let fe = ms_file env in do {
     d \<leftarrow> repo_Download env (handle @ archiveFileFormat);
     (case d of
        Inl err \<Rightarrow> State_Monad.return ([], Some (errorf (''failed to upload backup. '' @ err_msg err)))
      | Inr filePath \<Rightarrow> do {
          a \<leftarrow> GetArchiveReader fe (ms_plugins env) (ms_tar env) (ms_format env) filePath;
          (case a of
             Inl err \<Rightarrow> do {
               deleteFile fe filePath;
               State_Monad.return ([], Some (errorf (''failed to create archive reader. '' @ err_msg err))) }
           | Inr rd \<Rightarrow> do {
               r \<leftarrow> restore_entries fe rd;
               deleteFile fe filePath;
               State_Monad.return r }) }) })"

section \<open>Delete\<close>

definition metaDelete :: "'w ms_env \<Rightarrow> string \<Rightarrow> ('w files, goerr option) state" where
  "metaDelete env backupHandle = do {
     e \<leftarrow> repo_Delete env (backupHandle @ archiveFileFormat);
     State_Monad.return (map_option (\<lambda>err. errorf (''failed to delete backup. '' @ err_msg err)) e) }"

section \<open>A concrete service\<close>

text \<open>Formats with the required laws: no compression, and an archive that ends each string with a dot.\<close>

definition plain_copy :: compressor where
  "plain_copy = \<lparr>cp_newWriter = None, cp_encode = (\<lambda>x. x), cp_newReader = (\<lambda>x. None), cp_decode = (\<lambda>x. (x, None))\<rparr>"

definition mark :: "string \<Rightarrow> string" where "mark x = concat (map (\<lambda>c. [CHR ''x'', c]) x) @ ''.''"

fun unmark :: "string \<Rightarrow> string \<Rightarrow> string list" where
  "unmark acc [] = []"
| "unmark acc [a] = (if a = CHR ''.'' then [rev acc] else [])"
| "unmark acc (a # c # cs) = (if a = CHR ''.'' then rev acc # unmark [] (c # cs) else unmark (c # acc) cs)"

fun pairs :: "string list \<Rightarrow> (string \<times> string) list" where
  "pairs (a # b # cs) = (a, b) # pairs cs"
| "pairs _ = []"

definition plain_tar :: tar_format where
  "plain_tar = \<lparr>tf_write = (\<lambda>es. concat (map (\<lambda>(n, d). mark n @ mark d) es)), tf_read = (\<lambda>(x, e). (pairs (unmark [] x), e))\<rparr>"

lemma unmark_mark: "unmark acc (mark x @ y) = (rev acc @ x) # unmark [] y"
  by (induction x arbitrary: acc; cases y) (auto simp: mark_def)

lemma unmark_entries: "pairs (unmark [] (concat (map (\<lambda>(n, d). mark n @ mark d) es))) = es"
  by (induction es) (auto simp: unmark_mark)

lemma plain_laws: "format_laws plain_copy plain_tar"
  by (simp add: format_laws_def plain_copy_def plain_tar_def unmark_entries)

definition demo_io :: "unit file_env" where
  "demo_io = \<lparr>fe_io = (\<lambda>op w. (None, w)), fe_partial = (\<lambda>w. 0)\<rparr>"

definition demo_ms :: "unit ms_env" where
  "demo_ms = \<lparr>ms_file = demo_io, ms_plugins = register_gzip plain_copy no_plugins, ms_tar = plain_tar, ms_yard = ''/yard'',
     ms_format = GZipType, ms_dataPath = ''/data''\<rparr>"

definition empty_files :: "unit files" where
  "empty_files = \<lparr>fl_local = Map.empty, fl_store = Map.empty, fl_world = ()\<rparr>"

definition demo_web :: pb_resource where
  "demo_web = \<lparr>pb_name = ''web'', pb_group = ''apps'', pb_version = ''v1'', pb_kind = ''Deployment''\<rparr>"

end
