(* ===== verification/Meta_Roundtrip.thy ===== *)
theory Meta_Roundtrip
  imports Meta_Service
begin

text \<open>
  Properties of the metadata service: what it has backed up it restores, and a backup leaves the archival
  yard as it was. The library's formats enter through \<open>format_laws\<close>.
\<close>

section \<open>File names of archives\<close>

lemma split_acc_snoc: "sep \<notin> set n \<Longrightarrow> split_acc sep acc (d @ sep # n) = split_acc sep acc d @ [n]"
  by (induction d arbitrary: acc) (auto simp: split_acc_none)

lemma clean_comps_snoc: "plain n \<Longrightarrow> clean_comps r out (cs @ [n]) = clean_comps r out cs @ [n]"
  by (induction r out cs rule: clean_comps.induct) (auto simp: plain_def split: list.splits)

lemma Join_snoc: "strings_Join ''/'' (xs @ [n]) = (if xs = [] then n else strings_Join ''/'' xs @ CHR ''/'' # n)"
  by (induction "''/''" xs rule: strings_Join.induct) auto

lemma path_Base_last:
  assumes "plain n" "p = n \<or> (\<exists>d. p = d @ CHR ''/'' # n)"
  shows "path_Base p = n"
proof -
  have ne: "n \<noteq> []" and ns: "CHR ''/'' \<notin> set n" using assms(1) by (auto simp: plain_def)
  have "last n \<noteq> CHR ''/''" using ne ns last_in_set [of n] by metis
  then have dw: "dropWhile (\<lambda>c. c = CHR ''/'') (rev n @ x) = rev n @ x" for x
    using ne by (cases n rule: rev_cases) auto
  have tw: "takeWhile (\<lambda>c. c \<noteq> CHR ''/'') (rev n @ CHR ''/'' # x) = rev n" for x
    using ns by (subst takeWhile_append2) auto
  have tw0: "takeWhile (\<lambda>c. c \<noteq> CHR ''/'') (rev n) = rev n" using ns by auto
  from assms(2) show ?thesis
  proof (elim disjE exE)
    assume "p = n"
    then show ?thesis using ne dw [of "[]"] by (simp add: path_Base_def Let_def tw0)
  next
    fix d assume p: "p = d @ CHR ''/'' # n"
    then have "rev p = rev n @ CHR ''/'' # rev d" by simp
    then show ?thesis using p ne dw [of "CHR ''/'' # rev d"] tw [of "rev d"] by (simp add: path_Base_def Let_def)
  qed
qed

lemma Clean_snoc:
  assumes "plain n"
  shows "\<exists>d. filepath_Clean (e @ CHR ''/'' # n) = n \<or> filepath_Clean (e @ CHR ''/'' # n) = d @ CHR ''/'' # n"
proof -
  let ?p = "e @ CHR ''/'' # n" and ?xs = "clean_comps (hd (e @ ''/'') = CHR ''/'') [] (strings_Split (CHR ''/'') e)"
  have h: "hd ?p = hd (e @ ''/'')" by (cases e) auto
  have sp: "strings_Split (CHR ''/'') ?p = strings_Split (CHR ''/'') e @ [n]"
    using assms by (simp add: strings_Split_def split_acc_snoc plain_def)
  have body: "strings_Join ''/'' (clean_comps (hd ?p = CHR ''/'') [] (strings_Split (CHR ''/'') ?p))
      = (if ?xs = [] then n else strings_Join ''/'' ?xs @ CHR ''/'' # n)"
    unfolding sp h clean_comps_snoc [OF assms] Join_snoc by simp
  have ne: "n \<noteq> []" using assms by (simp add: plain_def)
  show ?thesis unfolding filepath_Clean_def Let_def body using ne
    by (cases "?xs = []") (auto intro: exI [of _ "[]"] exI [of _ "CHR ''/'' # strings_Join ''/'' ?xs"])
qed

lemma filepath_Clean_plain: "plain n \<Longrightarrow> filepath_Clean n = n"
  using filepath_Join_plain [of n "[]"] by (auto simp: filepath_Join_def plain_def)

lemma path_Base_Join:
  assumes "plain n"
  shows "path_Base (filepath_Join [d, n]) = n"
proof (cases "d = []")
  case True
  then show ?thesis
    using assms filepath_Clean_plain [OF assms] path_Base_last [OF assms, of n] by (auto simp: filepath_Join_def plain_def)
next
  case False
  then show ?thesis using Clean_snoc [OF assms, of d] by (auto simp: clean_Join2 intro: path_Base_last [OF assms])
qed

definition archive_name :: "string \<Rightarrow> string" where "archive_name h = h @ archiveFileFormat"

lemma plain_archive_name: "CHR ''/'' \<notin> set h \<Longrightarrow> plain (archive_name h)"
proof -
  assume "CHR ''/'' \<notin> set h"
  moreover have "h @ ''.tar'' \<noteq> ''.''" "h @ ''.tar'' \<noteq> ''..''"
    by (auto dest: arg_cong [where f = length])
  ultimately show ?thesis by (auto simp: plain_def archive_name_def archiveFileFormat_def)
qed

section \<open>Writing an archive\<close>

definition same_files :: "'w files \<Rightarrow> 'w files \<Rightarrow> bool" where
  "same_files s t \<longleftrightarrow> fl_local t = fl_local s \<and> fl_store t = fl_store s"

lemma same_files_trans: "same_files s t \<Longrightarrow> same_files t u \<Longrightarrow> same_files s u"
  by (simp add: same_files_def)

lemma io_same: "run_state (io env op) s = (r, t) \<Longrightarrow> same_files s t"
  using io_run [of env op s r t Local] io_run [of env op s r t Store] by (simp add: same_files_def)

lemma WriteFile_run:
  "run_state (WriteFile env file data ar) s = (r, t) \<Longrightarrow> same_files s t \<and>
     (\<forall>ar'. r = Inr ar' \<longrightarrow> ar' = ar\<lparr>ta_entries := ta_entries ar @ [(file, data)]\<rparr>)"
  by (auto simp: WriteFile_def same_files_def split: prod.splits option.splits)

definition entries :: "string \<Rightarrow> (pb_resource \<times> string) list \<Rightarrow> (string \<times> string) list" where
  "entries h = map (\<lambda>(r, data). (ResourceToFile h r, data))"

definition resources :: "(pb_resource \<times> string) list \<Rightarrow> (goerr + meta_msg) list" where
  "resources = map (\<lambda>(r, data). Inr (RqResource r data))"

lemma write_resources_same:
  "run_state (write_resources env h reqs ar) s = ((r, ar'), t) \<Longrightarrow>
     same_files s t \<and> ta_file ar' = ta_file ar \<and> ta_comp ar' = ta_comp ar"
proof (induction env h reqs ar arbitrary: s rule: write_resources.induct)
  case (4 env h rs d rest ar)
  obtain w u where w: "run_state (WriteFile env (ResourceToFile h rs) d ar) s = (w, u)" by fastforce
  show ?case
  proof (cases w)
    case (Inl e)
    then show ?thesis using 4 w WriteFile_run [OF w] by auto
  next
    case (Inr ar2)
    then show ?thesis using 4 w WriteFile_run [OF w] by (auto intro: same_files_trans)
  qed
qed (auto simp: same_files_def)

lemma write_resources_Ok:
  "run_state (write_resources env h (resources rds) ar) s = ((Ok, ar'), t) \<Longrightarrow>
     ar' = ar\<lparr>ta_entries := ta_entries ar @ entries h rds\<rparr>"
proof (induction rds arbitrary: ar s)
  case (Cons rd rds)
  obtain r d where rd: "rd = (r, d)" by fastforce
  obtain w u where w: "run_state (WriteFile env (ResourceToFile h r) d ar) s = (w, u)" by fastforce
  then obtain ar2 where ar2: "w = Inr ar2" using Cons.prems rd by (cases w) (auto simp: resources_def)
  then have "run_state (write_resources env h (resources rds) ar2) u = ((Ok, ar'), t)"
    using Cons.prems rd w by (simp add: resources_def)
  from Cons.IH [OF this] show ?case using WriteFile_run [OF w] ar2 rd by (auto simp: entries_def)
qed (simp add: resources_def entries_def)

lemma archiver_Close_run:
  assumes "run_state (archiver_Close env tf ar) s = (None, t)"
  shows "fl_store t = fl_store s" "fl_local t = (fl_local s)(filepath_Clean (ta_file ar) :=
      map_option (\<lambda>c. c @ cp_encode (ta_comp ar) (tf_write tf (ta_entries ar))) (fl_local s (filepath_Clean (ta_file ar))))"
proof -
  obtain e s1 where c: "run_state (io env OpClose) s = (e, s1)" by fastforce
  have e: "e = None" using assms c by (auto simp: archiver_Close_def simp del: run_io split: if_splits)
  let ?b = "cp_encode (ta_comp ar) (tf_write tf (ta_entries ar))"
  obtain w s2 where w: "run_state (os_Write env Local (ta_file ar) ?b) s1 = (w, s2)" by fastforce
  have wn: "w = None" using assms c e w by (auto simp: archiver_Close_def simp del: run_io split: if_splits)
  have t: "run_state (io env OpClose) s2 = (None, t)" using assms c e w wn by (simp add: archiver_Close_def del: run_io)
  show "fl_store t = fl_store s" "fl_local t = (fl_local s)(filepath_Clean (ta_file ar) :=
      map_option (\<lambda>c. c @ ?b) (fl_local s (filepath_Clean (ta_file ar))))"
    using os_Write_run [OF w [unfolded wn], of Local] os_Write_run [OF w [unfolded wn], of Store] io_same [OF c] io_same [OF t]
    by (auto simp: same_files_def)
qed

lemma archiver_Close_store: "run_state (archiver_Close env tf ar) s = (r, t) \<Longrightarrow> fl_store t = fl_store s"
  by (auto simp: archiver_Close_def os_Write_def Let_def split: prod.splits if_splits)

lemma archiver_Close_local:
  "run_state (archiver_Close env tf ar) s = (r, t) \<Longrightarrow> k \<noteq> filepath_Clean (ta_file ar) \<Longrightarrow> fl_local t k = fl_local s k"
  by (auto simp: archiver_Close_def os_Write_def Let_def split: prod.splits if_splits)

section \<open>Uploading it\<close>

lemma send_chunks_run: "run_state (send_chunks env bs) s = ((r, sent), t) \<Longrightarrow> same_files s t \<and> (r = Ok \<longrightarrow> sent = bs)"
proof (induction env bs arbitrary: s r sent t rule: send_chunks.induct)
  case (1 env)
  then show ?case using io_same by (auto simp: same_files_def split: prod.splits)
next
  case (2 env b bs)
  obtain e s1 where e: "run_state (io env OpRead) s = (e, s1)" by fastforce
  obtain x s2 where x: "run_state (io env OpSend) s1 = (x, s2)" by fastforce
  obtain r2 sent2 s3 where q: "run_state (send_chunks env bs) s2 = ((r2, sent2), s3)" by (metis prod.collapse)
  have same: "same_files s s1" "same_files s1 s2" using io_same e x by blast+
  show ?case
  proof (cases "e = None \<and> x = None")
    case True
    then have "r = r2" "sent = b # sent2" "t = s3" using "2.prems" e x q by (auto simp del: run_io)
    then show ?thesis using "2.IH" [OF _ _ q] True same by (auto intro: same_files_trans)
  next
    case False
    then show ?thesis using "2.prems" e x same by (auto simp del: run_io split: if_splits intro: same_files_trans)
  qed
qed

lemma os_Open_same: "run_state (os_Open env sd p) s = (r, t) \<Longrightarrow> same_files s t"
  using os_Open_run [of env sd p s r t Local] os_Open_run [of env sd p s r t Store] by (simp add: same_files_def)

lemma os_Stat_same: "run_state (os_Stat env sd p) s = (r, t) \<Longrightarrow> same_files s t"
  using os_Stat_run [of env sd p s r t Local] os_Stat_run [of env sd p s r t Store] by (simp add: same_files_def)

definition only_at :: "string \<Rightarrow> (string \<rightharpoonup> string) \<Rightarrow> (string \<rightharpoonup> string) \<Rightarrow> bool" where
  "only_at f m m' \<longleftrightarrow> (\<forall>k. k \<noteq> filepath_Clean f \<longrightarrow> m' k = m k)"

lemma only_at_refl [simp]: "only_at f m m" by (simp add: only_at_def)

lemma only_at_trans: "only_at f m m' \<Longrightarrow> only_at f m' m'' \<Longrightarrow> only_at f m m''" by (simp add: only_at_def)

lemma os_Write_only: "run_state (os_Write env sd p d) s = (r, t) \<Longrightarrow> only_at p (fs_of sd s) (fs_of sd t)"
  by (auto simp: os_Write_def Let_def only_at_def split: prod.splits)

lemma os_Create_only: "run_state (os_Create env sd p) s = (r, t) \<Longrightarrow> only_at p (fs_of sd s) (fs_of sd t)"
  by (auto simp: os_Create_def only_at_def split: prod.splits if_splits)

lemma nfs_receive_frame:
  "run_state (nfs_receive env f cl ms) s = (r, t) \<Longrightarrow> fl_local t = fl_local s \<and> only_at f (fl_store s) (fl_store t)"
proof (induction ms arbitrary: s)
  case Nil
  then show ?case by (auto split: prod.splits)
next
  case (Cons m ms)
  obtain e s1 where e: "run_state (io env OpRecv) s = (e, s1)" by fastforce
  obtain w s2 where w: "run_state (os_Write env Store f (chunk_data m)) s1 = (w, s2)" by fastforce
  have s1: "same_files s s1" by (rule io_same [OF e])
  have s2: "fl_local s2 = fl_local s1" "only_at f (fl_store s1) (fl_store s2)"
    using os_Write_other [OF w, of Local] os_Write_only [OF w] by auto
  show ?case
  proof (cases "e = None \<and> w = None")
    case True
    then have "run_state (nfs_receive env f cl ms) s2 = (r, t)" using Cons.prems e w by (simp del: run_io)
    from Cons.IH [OF this] show ?thesis using s1 s2 by (auto simp: same_files_def intro: only_at_trans)
  next
    case False
    then show ?thesis using Cons.prems e w s1 s2 by (auto simp: same_files_def simp del: run_io split: if_splits)
  qed
qed

lemma nfs_Upload_frame:
  assumes "run_state (nfs_Upload env dp cl (UpInfo i # ms)) s = (r, t)"
  shows "fl_local t = fl_local s" "only_at (nfs_file dp i) (fl_store s) (fl_store t)"
proof -
  obtain e s1 where e: "run_state (io env OpRecv) s = (e, s1)" by fastforce
  obtain c s2 where c: "run_state (os_Create env Store (nfs_file dp i)) s1 = (c, s2)" by fastforce
  obtain q s3 where q: "run_state (nfs_receive env (nfs_file dp i) cl ms) s2 = (q, s3)" by fastforce
  obtain x s4 where x: "run_state (io env OpSend) s3 = (x, s4)" by fastforce
  have "t = s1 \<or> t = s2 \<or> t = s3 \<or> t = s4"
    using assms e c q x by (auto simp: nfs_Upload_def simp del: run_io split: option.splits if_splits)
  moreover have "fl_local s1 = fl_local s" "fl_store s1 = fl_store s" using io_same [OF e] by (auto simp: same_files_def)
  moreover have "fl_local s2 = fl_local s1" "only_at (nfs_file dp i) (fl_store s1) (fl_store s2)"
    using os_Create_other [OF c, of Local] os_Create_only [OF c] by auto
  moreover note nfs_receive_frame [OF q]
  moreover have "fl_local s4 = fl_local s3" "fl_store s4 = fl_store s3" using io_same [OF x] by (auto simp: same_files_def)
  ultimately show "fl_local t = fl_local s" "only_at (nfs_file dp i) (fl_store s) (fl_store t)"
    by (auto intro: only_at_trans)
qed

lemma repo_Upload_frame:
  assumes "run_state (repo_Upload env fp) s = (r, t)"
  shows "fl_local t = fl_local s" "only_at (nfs_file (ms_dataPath env) (path_Base fp)) (fl_store s) (fl_store t)"
proof -
  let ?fe = "ms_file env" and ?f = "nfs_file (ms_dataPath env) (path_Base fp)"
  obtain o' s1 where o: "run_state (os_Open ?fe Local fp) s = (o', s1)" by fastforce
  obtain c s2 where c: "run_state (io ?fe OpStream) s1 = (c, s2)" by fastforce
  obtain i s3 where i: "run_state (io ?fe OpSend) s2 = (i, s3)" by fastforce
  obtain d sent s4 where d: "run_state (send_chunks ?fe (read_chunks 1024 (content Local fp s3))) s3 = ((d, sent), s4)"
    by (metis prod.collapse)
  obtain q s5 where q: "run_state (nfs_Upload ?fe (ms_dataPath env) (d = Ok) (UpInfo (path_Base fp) # map UpChunk sent)) s4 = (q, s5)"
    by fastforce
  obtain x s6 where x: "run_state (io ?fe OpRecv) s5 = (x, s6)" by fastforce
  have "same_files s s1" "same_files s1 s2" "same_files s2 s3" "same_files s3 s4" "same_files s5 s6"
    using os_Open_same [OF o] io_same [OF c] io_same [OF i] send_chunks_run [OF d] io_same [OF x] by auto
  moreover have "t \<in> {s1, s2, s3, s5, s6}"
    using assms o c i d q x by (auto simp: repo_Upload_def Let_def simp del: run_io split: if_splits)
  ultimately show "fl_local t = fl_local s" "only_at ?f (fl_store s) (fl_store t)"
    using nfs_Upload_frame [OF q] by (auto simp: same_files_def)
qed

lemma repo_Upload_Ok:
  assumes "run_state (repo_Upload env fp) s = (Ok, t)"
  shows "fl_store t = (fl_store s)(filepath_Clean (nfs_file (ms_dataPath env) (path_Base fp)) \<mapsto> content Local fp s)"
proof -
  let ?fe = "ms_file env"
  obtain o' s1 where o: "run_state (os_Open ?fe Local fp) s = (o', s1)" by fastforce
  obtain c s2 where c: "run_state (io ?fe OpStream) s1 = (c, s2)" by fastforce
  obtain i s3 where i: "run_state (io ?fe OpSend) s2 = (i, s3)" by fastforce
  obtain d sent s4 where d: "run_state (send_chunks ?fe (read_chunks 1024 (content Local fp s3))) s3 = ((d, sent), s4)"
    by (metis prod.collapse)
  obtain q s5 where q: "run_state (nfs_Upload ?fe (ms_dataPath env) (d = Ok) (UpInfo (path_Base fp) # map UpChunk sent)) s4 = (q, s5)"
    by fastforce
  obtain x s6 where x: "run_state (io ?fe OpRecv) s5 = (x, s6)" by fastforce
  have ok: "o' = None" "c = None" "i = None" "d = Ok" "q = None" "t = s6"
    using assms o c i d q x by (auto simp: repo_Upload_def Let_def of_err_def simp del: run_io split: if_splits option.splits)
  have sent: "concat sent = content Local fp s3" using send_chunks_run [OF d] ok(4) by simp
  have same: "same_files s s3" "same_files s3 s4" "same_files s5 s6"
    using os_Open_same [OF o] io_same [OF c] io_same [OF i] send_chunks_run [OF d] io_same [OF x]
    by (auto intro: same_files_trans)
  have q': "run_state (nfs_Upload ?fe (ms_dataPath env) True (UpInfo (path_Base fp) # map UpChunk sent)) s4 = (None, s5)"
    using q ok by simp
  show ?thesis using nfs_Upload_run(2) [OF q'] same sent ok(6) by (simp add: same_files_def content_def)
qed

section \<open>A backup\<close>

definition removes :: "'w file_env \<Rightarrow> bool" where
  "removes env \<longleftrightarrow> (\<forall>w. fst (fe_io env OpRemove w) = None)"

lemma deleteFile_run:
  assumes "run_state (deleteFile env f) s = (u, t)"
  shows "fl_store t = fl_store s" "removes env \<Longrightarrow> fl_local t = (fl_local s)(filepath_Clean f := None)"
  using assms
  by (auto simp: deleteFile_def os_Remove_def removes_def fun_upd_idem split: prod.splits if_splits)
     (metis fst_conv option.distinct(1))

lemma deleteFile_only: "run_state (deleteFile env f) s = (u, t) \<Longrightarrow> only_at f (fl_local s) (fl_local t)"
  by (auto simp: deleteFile_def os_Remove_def only_at_def split: prod.splits if_splits)

lemma finish_backup_cases:
  assumes "run_state (finish_backup env f ar) s = (r, t)"
  obtains c s1 where "run_state (archiver_Close (ms_file env) (ms_tar env) ar) s = (Some c, s1)"
      "\<exists>e. r = Fail e" "run_state (deleteFile (ms_file env) f) s1 = ((), t)"
    | s1 where "run_state (archiver_Close (ms_file env) (ms_tar env) ar) s = (None, s1)"
      "run_state (repo_Upload env f) s1 = (Crash, t)" "r = Crash"
    | s1 e s2 where "run_state (archiver_Close (ms_file env) (ms_tar env) ar) s = (None, s1)"
      "run_state (repo_Upload env f) s1 = (Fail e, s2)" "\<exists>e. r = Fail e" "run_state (deleteFile (ms_file env) f) s2 = ((), t)"
    | s1 s2 s3 where "run_state (archiver_Close (ms_file env) (ms_tar env) ar) s = (None, s1)"
      "run_state (repo_Upload env f) s1 = (Ok, s2)" "same_files s2 s3" "r \<noteq> Crash"
      "run_state (deleteFile (ms_file env) f) s3 = ((), t)"
proof -
  let ?fe = "ms_file env"
  obtain c s1 where c: "run_state (archiver_Close ?fe (ms_tar env) ar) s = (c, s1)" by fastforce
  show thesis
  proof (cases c)
    case (Some e)
    obtain s2 where d: "run_state (deleteFile ?fe f) s1 = ((), s2)" by (metis old.unit.exhaust surj_pair)
    then show thesis using assms c Some that(1) [of e s1] by (auto simp: finish_backup_def Let_def)
  next
    case None
    obtain u s2 where u: "run_state (repo_Upload env f) s1 = (u, s2)" by fastforce
    obtain s3 where d: "run_state (deleteFile ?fe f) s2 = ((), s3)" by (metis old.unit.exhaust surj_pair)
    obtain x s4 where x: "run_state (io ?fe OpSend) s2 = (x, s4)" by fastforce
    obtain s5 where d2: "run_state (deleteFile ?fe f) s4 = ((), s5)" by (metis old.unit.exhaust surj_pair)
    show thesis
    proof (cases u)
      case Ok
      then show thesis using assms c None u x d2 io_same [OF x] that(4) [of s1 s2 s4]
        by (auto simp: finish_backup_def Let_def simp del: run_io split: if_splits)
    next
      case (Fail e)
      then show thesis using assms c None u d that(3) [of s1 e s2] by (auto simp: finish_backup_def Let_def)
    next
      case Crash
      then show thesis using assms c None u that(2) [of s1] by (auto simp: finish_backup_def Let_def)
    qed
  qed
qed

lemma finish_backup_frame:
  assumes "run_state (finish_backup env f ar) s = (r, t)"
  shows "only_at (nfs_file (ms_dataPath env) (path_Base f)) (fl_store s) (fl_store t)"
  using assms
  by (cases rule: finish_backup_cases)
     (auto simp: same_files_def dest!: deleteFile_run(1) repo_Upload_frame(2) archiver_Close_store)

lemma archiver_Close_delete:
  assumes "run_state (archiver_Close env tf ar) s = (c, u)"
  shows "(fl_local u)(filepath_Clean (ta_file ar) := None) = (fl_local s)(filepath_Clean (ta_file ar) := None)"
  using archiver_Close_local [OF assms] by auto

lemma archiver_Close_only: "run_state (archiver_Close env tf ar) s = (c, t) \<Longrightarrow> only_at (ta_file ar) (fl_local s) (fl_local t)"
  unfolding only_at_def by (blast dest: archiver_Close_local)

lemma finish_backup_only:
  assumes "run_state (finish_backup env (ta_file ar) ar) s = (r, t)"
  shows "only_at (ta_file ar) (fl_local s) (fl_local t)"
  using assms
proof (cases rule: finish_backup_cases)
  case (1 c s1)
  show ?thesis by (rule only_at_trans [OF archiver_Close_only [OF 1(1)] deleteFile_only [OF 1(3)]])
next
  case (2 s1)
  then show ?thesis using archiver_Close_only [OF 2(1)] repo_Upload_frame(1) [OF 2(2)] by simp
next
  case (3 s1 e s2)
  show ?thesis using only_at_trans [OF archiver_Close_only [OF 3(1)]] deleteFile_only [OF 3(4)] repo_Upload_frame(1) [OF 3(2)]
    by simp
next
  case (4 s1 s2 s3)
  show ?thesis using only_at_trans [OF archiver_Close_only [OF 4(1)]] deleteFile_only [OF 4(5)] repo_Upload_frame(1) [OF 4(2)] 4(3)
    by (simp add: same_files_def)
qed

lemma finish_backup_clean:
  assumes "run_state (finish_backup env (ta_file ar) ar) s = (r, t)" "removes (ms_file env)" "r \<noteq> Crash"
  shows "fl_local t = (fl_local s)(filepath_Clean (ta_file ar) := None)"
  using assms(1)
proof (cases rule: finish_backup_cases)
  case (1 c s1)
  then show ?thesis using deleteFile_run(2) [OF 1(3) assms(2)] archiver_Close_delete [OF 1(1)] by simp
next
  case (2 s1)
  then show ?thesis using assms(3) by simp
next
  case (3 s1 e s2)
  then show ?thesis using deleteFile_run(2) [OF 3(4) assms(2)] archiver_Close_delete [OF 3(1)] repo_Upload_frame(1) [OF 3(2)] by simp
next
  case (4 s1 s2 s3)
  then show ?thesis using deleteFile_run(2) [OF 4(5) assms(2)] archiver_Close_delete [OF 4(1)] repo_Upload_frame(1) [OF 4(2)]
    by (simp add: same_files_def)
qed

lemma finish_backup_Ok:
  assumes "run_state (finish_backup env (ta_file ar) ar) s = (Ok, t)" "fl_local s (filepath_Clean (ta_file ar)) = Some []"
  shows "fl_store t = (fl_store s)(filepath_Clean (nfs_file (ms_dataPath env) (path_Base (ta_file ar))) \<mapsto>
    cp_encode (ta_comp ar) (tf_write (ms_tar env) (ta_entries ar)))"
  using assms(1)
proof (cases rule: finish_backup_cases)
  case (4 s1 s2 s3)
  have "content Local (ta_file ar) s1 = cp_encode (ta_comp ar) (tf_write (ms_tar env) (ta_entries ar))"
    using archiver_Close_run(2) [OF 4(1)] assms(2) by (simp add: content_def)
  then show ?thesis
    using repo_Upload_Ok [OF 4(2)] archiver_Close_run(1) [OF 4(1)] deleteFile_run(1) [OF 4(5)] 4(3) by (simp add: same_files_def)
qed auto

lemma metaBackup_cases:
  assumes "run_state (metaBackup env reqs) s = (r, t)"
  obtains "r \<noteq> Ok" "r \<noteq> Crash" "t = s"
    | h e where "run_state (GetArchiver (ms_file env) (ms_plugins env) (ms_yard env) (ms_format env) (h @ archiveFileFormat)) s = (Inl e, t)"
      "\<exists>rest. getBackupHandle reqs = Inr (h, rest)" "r \<noteq> Ok" "r \<noteq> Crash"
    | h rest ar f s1 w ar' s2 where "getBackupHandle reqs = Inr (h, rest)"
      "run_state (GetArchiver (ms_file env) (ms_plugins env) (ms_yard env) (ms_format env) (h @ archiveFileFormat)) s = (Inr (ar, f), s1)"
      "run_state (write_resources (ms_file env) h rest ar) s1 = ((w, ar'), s2)" "w \<noteq> Ok" "r = w"
      "run_state (deleteFile (ms_file env) f) s2 = ((), t)"
    | h rest ar f s1 ar' s2 where "getBackupHandle reqs = Inr (h, rest)"
      "run_state (GetArchiver (ms_file env) (ms_plugins env) (ms_yard env) (ms_format env) (h @ archiveFileFormat)) s = (Inr (ar, f), s1)"
      "run_state (write_resources (ms_file env) h rest ar) s1 = ((Ok, ar'), s2)" "run_state (finish_backup env f ar') s2 = (r, t)"
proof (cases "getBackupHandle reqs")
  case (Inl e)
  then show thesis using assms that(1) by (auto simp: metaBackup_def Let_def)
next
  case (Inr q)
  obtain h rest where q: "q = (h, rest)" by fastforce
  let ?fe = "ms_file env"
  obtain a s1 where a: "run_state (GetArchiver ?fe (ms_plugins env) (ms_yard env) (ms_format env) (h @ archiveFileFormat)) s = (a, s1)"
    by fastforce
  show thesis
  proof (cases a)
    case (Inl e)
    then show thesis using assms Inr q a that(2) by (auto simp: metaBackup_def Let_def)
  next
    case a2: (Inr p)
    obtain ar f where p: "p = (ar, f)" by fastforce
    obtain w ar' s2 where w: "run_state (write_resources ?fe h rest ar) s1 = ((w, ar'), s2)" by (metis prod.collapse)
    obtain s3 where d: "run_state (deleteFile ?fe f) s2 = ((), s3)" by (metis old.unit.exhaust surj_pair)
    show thesis
    proof (cases "w = Ok")
      case True
      then show thesis using assms Inr q a a2 p w that(4) [of h rest ar f s1 ar' s2] by (simp add: metaBackup_def Let_def)
    next
      case False
      have "run_state (metaBackup env reqs) s = (w, s3)" unfolding metaBackup_def Let_def using Inr q a a2 p w d False by simp
      then have "r = w" "t = s3" using assms by simp_all
      then show thesis using Inr q a a2 p w d False that(3) by blast
    qed
  qed
qed

definition writers_open :: "plugins \<Rightarrow> bool" where
  "writers_open p \<longleftrightarrow> (\<forall>cp \<in> ran (pl_writers p). cp_newWriter cp = None)"

definition stat_honest :: "'w file_env \<Rightarrow> bool" where
  "stat_honest env \<longleftrightarrow> (\<forall>w. \<not> IsNotFound (fst (fe_io env OpStat w)))"

lemma GetArchiver_Inl:
  assumes "run_state (GetArchiver env p yard typ name) s = (Inl e, t)"
  shows "fl_store t = fl_store s" "writers_open p \<Longrightarrow> fl_local t = fl_local s"
  using assms
  by (auto simp: GetArchiver_def Let_def os_Stat_def os_Create_def writers_open_def ran_def split: option.splits prod.splits if_splits)

lemma GetArchiver_only: "run_state (GetArchiver env p yard typ name) s = (r, t) \<Longrightarrow>
    only_at (filepath_Join [yard, name]) (fl_local s) (fl_local t)"
  by (auto simp: GetArchiver_def Let_def os_Stat_def os_Create_def only_at_def split: option.splits prod.splits if_splits)

lemma GetArchiver_absent:
  assumes "run_state (GetArchiver env p yard typ name) s = (Inr (ar, f), t)" "stat_honest env"
  shows "fl_local s (filepath_Clean f) = None"
proof -
  obtain serr s1 where st: "run_state (os_Stat env Local (filepath_Join [yard, name])) s = (serr, s1)" by fastforce
  have "IsNotFound serr" using assms(1) st by (auto simp: GetArchiver_def Let_def split: option.splits if_splits)
  then show ?thesis using st assms(2) GetArchiver_run(2) [OF assms(1)]
    by (auto simp: os_Stat_def stat_honest_def split: prod.splits if_splits) (metis IsNotFound_def fst_conv option.simps(5))
qed

text \<open>Whatever happens, a backup changes no file of the yard but the archive of its handle.\<close>

lemma metaBackup_only:
  assumes "run_state (metaBackup env reqs) s = (r, t)"
  shows "fl_local t = fl_local s \<or> (\<exists>h rest. getBackupHandle reqs = Inr (h, rest) \<and>
     only_at (filepath_Join [ms_yard env, h @ archiveFileFormat]) (fl_local s) (fl_local t))"
  using assms
proof (cases rule: metaBackup_cases)
  case 1
  then show ?thesis by simp
next
  case (2 h e)
  then show ?thesis using GetArchiver_only [OF 2(1)] by blast
next
  case (3 h rest ar f s1 w ar' s2)
  have "only_at f (fl_local s) (fl_local t)"
    using only_at_trans [OF GetArchiver_only [OF 3(2)]] deleteFile_only [OF 3(6)] write_resources_same [OF 3(3)]
      GetArchiver_run(2) [OF 3(2)] by (simp add: same_files_def)
  then show ?thesis using 3(1) GetArchiver_run(2) [OF 3(2)] by blast
next
  case (4 h rest ar f s1 ar' s2)
  have f: "f = ta_file ar'" "fl_local s2 = fl_local s1"
    using write_resources_same [OF 4(3)] GetArchiver_run(3) [OF 4(2)] by (simp_all add: same_files_def)
  have "only_at f (fl_local s) (fl_local t)"
    using only_at_trans [OF GetArchiver_only [OF 4(2)]] finish_backup_only [OF 4(4) [unfolded f(1)]] f GetArchiver_run(2) [OF 4(2)]
    by simp
  then show ?thesis using 4(1) GetArchiver_run(2) [OF 4(2)] by blast
qed

lemma metaBackup_Ok:
  assumes "run_state (metaBackup env (Inr (RqIdentifier h) # resources rds)) s = (Ok, t)" "CHR ''/'' \<notin> set h"
  shows "\<exists>cp. pl_writers (ms_plugins env) (ms_format env) = Some cp \<and>
    fl_store t = (fl_store s)(filepath_Clean (nfs_file (ms_dataPath env) (h @ archiveFileFormat)) \<mapsto>
      cp_encode cp (tf_write (ms_tar env) (entries h rds)))"
  using assms(1)
proof (cases rule: metaBackup_cases)
  case (4 h' rest ar f s1 ar' s2)
  have hr: "h' = h" "rest = resources rds" using 4(1) by (auto simp: getBackupHandle_def)
  note g = GetArchiver_run [OF 4(2)] and w = write_resources_Ok [OF 4(3) [unfolded hr(2)]] and ws = write_resources_same [OF 4(3)]
  have f: "f = ta_file ar'" using ws g by simp
  have "fl_local s2 (filepath_Clean (ta_file ar')) = Some []" using ws g by (simp add: same_files_def)
  from finish_backup_Ok [OF 4(4) [unfolded f] this]
  have "fl_store t = (fl_store s2)(filepath_Clean (nfs_file (ms_dataPath env) (path_Base (ta_file ar'))) \<mapsto>
      cp_encode (ta_comp ar') (tf_write (ms_tar env) (ta_entries ar')))" .
  moreover have "path_Base (ta_file ar') = h @ archiveFileFormat"
    using path_Base_Join [OF plain_archive_name [OF assms(2)]] g ws hr by (simp add: archive_name_def)
  ultimately show ?thesis using g ws w hr by (simp add: same_files_def)
qed auto

section \<open>A restore\<close>

lemma restore_entries_Ok:
  "run_state (restore_entries env rd) s = ((sent, None), t) \<Longrightarrow>
     sent = map (\<lambda>(n, data). (FileToResource n, data)) (fst rd) \<and> snd rd = None"
proof (induction env rd arbitrary: s sent t rule: restore_entries.induct)
  case (1 env rd)
  obtain es err where rd: "rd = (es, err)" by fastforce
  show ?case
  proof (cases es)
    case Nil
    then show ?thesis using "1.prems" rd
      by (cases err) (auto simp: restore_entries.simps [of env "([], q)" for q] ReadNext_def)
  next
    case (Cons x es')
    obtain n d where x: "x = (n, d)" by fastforce
    obtain c s1 where c: "run_state (io env OpRead) s = (c, s1)" by fastforce
    obtain q s2 where q: "run_state (io env OpSend) s1 = (q, s2)" by fastforce
    obtain sent' e' s3 where r: "run_state (restore_entries env (es', err)) s2 = ((sent', e'), s3)" by (metis prod.collapse)
    have nx: "ReadNext rd = Inr ((n, d), (es', err))" using rd Cons x by (simp add: ReadNext_def)
    have ok: "c = None" "q = None" "sent = (FileToResource n, d) # sent'" "e' = None"
      using "1.prems" nx c q r by (auto simp: restore_entries.simps [of env rd] simp del: run_io split: option.splits)
    have "sent' = map (\<lambda>(n, data). (FileToResource n, data)) es' \<and> err = None"
      using "1.IH" [OF nx refl refl r [unfolded ok(4)]] by simp
    then show ?thesis using ok rd Cons x by simp
  qed
qed

lemma repo_receive_run:
  "run_state (repo_receive env f ms served) s = (None, t) \<Longrightarrow> fl_store t = fl_store s \<and> served = None \<and>
     fl_local t = (if ms = [] then fl_local s else
       (fl_local s)(filepath_Clean f := map_option (\<lambda>c. c @ concat (map dn_data ms)) (fl_local s (filepath_Clean f))))"
proof (induction ms arbitrary: s)
  case Nil
  then show ?case by (auto split: prod.splits if_splits)
next
  case (Cons m ms)
  obtain e s1 where r: "run_state (io env OpRecv) s = (e, s1)" by fastforce
  obtain w s2 where w: "run_state (os_Write env Local f (dn_data m)) s1 = (w, s2)" by fastforce
  have ok: "e = None" "w = None" "run_state (repo_receive env f ms served) s2 = (None, t)"
    using Cons.prems r w by (auto simp del: run_io split: if_splits)
  have s1: "same_files s s1" by (rule io_same [OF r])
  have s2: "fl_store s2 = fl_store s"
      "fl_local s2 = (fl_local s)(filepath_Clean f := map_option (\<lambda>c. c @ dn_data m) (fl_local s (filepath_Clean f)))"
    using os_Write_run [OF w [unfolded ok(2)], of Local] os_Write_run [OF w [unfolded ok(2)], of Store] s1
    by (auto simp: same_files_def)
  show ?case using Cons.IH [OF ok(3)] s2 by (auto simp: option.map_comp comp_def)
qed

lemma nfs_Download_same: "run_state (nfs_Download env dp i) s = (r, t) \<Longrightarrow> same_files s t"
  using nfs_Download_keeps [of env dp i s r t Local] nfs_Download_keeps [of env dp i s r t Store] by (simp add: same_files_def)

lemma repo_Download_Inr:
  assumes "run_state (repo_Download env i) s = (Inr f, t)" "ms_dataPath env \<noteq> []"
  shows "fl_store s (filepath_Clean (nfs_file (ms_dataPath env) i)) = Some (content Local f t)"
    "fl_store t = fl_store s" "f = filepath_Join [''/tmp'', i]"
proof -
  let ?fe = "ms_file env" and ?k = "filepath_Clean (nfs_file (ms_dataPath env) i)"
  obtain c s1 where c: "run_state (io ?fe OpStream) s = (c, s1)" by fastforce
  have cn: "c = None" using assms c by (auto simp: repo_Download_def Let_def simp del: run_io split: option.splits)
  obtain msgs served s2 where d: "run_state (nfs_Download ?fe (ms_dataPath env) i) s1 = ((msgs, served), s2)" by (metis prod.collapse)
  obtain r s3 where r: "run_state (io ?fe OpRecv) s2 = (r, s3)" by fastforce
  have "\<exists>m ms. r = None \<and> msgs = m # ms"
    using assms c cn d r by (auto simp: repo_Download_def Let_def simp del: run_io split: option.splits list.splits)
  then obtain m ms where rn: "r = None" and ms: "msgs = m # ms" by blast
  let ?f = "filepath_Join [''/tmp'', dn_info m]"
  obtain cr s4 where cr: "run_state (os_Create ?fe Local ?f) s3 = (cr, s4)" by fastforce
  have crn: "cr = None"
    using assms c cn d r rn ms cr by (auto simp: repo_Download_def Let_def simp del: run_io split: option.splits)
  obtain g s5 where g: "run_state (repo_receive ?fe ?f ms served) s4 = (g, s5)" by fastforce
  have gn: "g = None"
    using assms c cn d r rn ms cr crn g by (auto simp: repo_Download_def Let_def simp del: run_io split: option.splits)
  obtain w s6 where w: "run_state (io ?fe OpWrite) s5 = (w, s6)" by fastforce
  have f: "f = ?f" "t = s6"
    using assms c cn d r rn ms cr crn g gn w by (auto simp: repo_Download_def Let_def simp del: run_io split: option.splits)
  note rcv = repo_receive_run [OF g [unfolded gn]]
  have dn: "run_state (nfs_Download ?fe (ms_dataPath env) i) s1 = ((m # ms, None), s2)" using d ms rcv by simp
  note nd = nfs_Download_run [OF dn assms(2)]
  have m: "m = DnInfo i" "concat (map dn_data ms) = the (fl_store s1 ?k)" using nd(1) by (auto simp: ReadBufferSize_def comp_def)
  have s13: "same_files s s1" "same_files s1 s2" "same_files s2 s3" "same_files s5 s6"
    using io_same [OF c] nfs_Download_same [OF d] io_same [OF r] io_same [OF w] by auto
  have s4: "fl_store s4 = fl_store s3" "fl_local s4 (filepath_Clean ?f) = Some []"
    using os_Create_run [OF cr [unfolded crn], of Local] os_Create_run [OF cr [unfolded crn], of Store] by auto
  have "fl_local s5 (filepath_Clean ?f) = Some (concat (map dn_data ms))" using rcv s4 by (auto split: if_splits)
  then show "fl_store s ?k = Some (content Local f t)" "fl_store t = fl_store s" "f = filepath_Join [''/tmp'', i]"
    using f m s13 s4 rcv nd(2) by (auto simp: content_def same_files_def)
qed

lemma GetArchiveReader_Inr:
  assumes "run_state (GetArchiveReader env p tf typ f) s = (Inr rd, t)"
  shows "\<exists>cp. pl_readers p typ = Some cp \<and> rd = tf_read tf (cp_decode cp (content Local f s))"
  using assms
  by (auto simp: GetArchiveReader_def os_Stat_def os_Open_def content_def split: option.splits prod.splits if_splits)

lemma metaRestore_Ok:
  assumes "run_state (metaRestore env h) s = ((sent, None), t)" "ms_dataPath env \<noteq> []"
  shows "\<exists>cp bytes es. pl_readers (ms_plugins env) (ms_format env) = Some cp \<and>
    fl_store s (filepath_Clean (nfs_file (ms_dataPath env) (h @ archiveFileFormat))) = Some bytes \<and>
    tf_read (ms_tar env) (cp_decode cp bytes) = (es, None) \<and> sent = map (\<lambda>(n, data). (FileToResource n, data)) es"
proof -
  let ?fe = "ms_file env"
  obtain d s1 where d: "run_state (repo_Download env (h @ archiveFileFormat)) s = (d, s1)" by fastforce
  obtain f where f: "d = Inr f" using assms(1) d by (cases d) (auto simp: metaRestore_def Let_def)
  obtain a s2 where a: "run_state (GetArchiveReader ?fe (ms_plugins env) (ms_tar env) (ms_format env) f) s1 = (a, s2)" by fastforce
  obtain rd where rd: "a = Inr rd"
    using assms(1) d f a by (cases a) (auto simp: metaRestore_def Let_def split: prod.splits)
  obtain sent' e s3 where r: "run_state (restore_entries ?fe rd) s2 = ((sent', e), s3)" by (metis prod.collapse)
  have ok: "sent' = sent" "e = None"
    using assms(1) d f a rd r by (auto simp: metaRestore_def Let_def split: prod.splits)
  show ?thesis
    using repo_Download_Inr(1) [OF d [unfolded f] assms(2)] GetArchiveReader_Inr [OF a [unfolded rd]]
      restore_entries_Ok [OF r [unfolded ok]] by (metis prod.collapse)
qed

lemma FileToResource_ResourceToFile:
  assumes "plain h" "wf_resource r"
  shows "FileToResource (ResourceToFile h r) = \<lparr>pb_name = pb_name r, pb_group = [], pb_version = [], pb_kind = []\<rparr>"
proof -
  note j = ResourceToFile_Join [OF assms]
  have ns: "CHR ''/'' \<notin> set (pb_name r)" using assms(2) by (simp add: wf_resource_def plain_def)
  obtain d where p: "ResourceToFile h r = d @ CHR ''/'' # pb_name r" using j by auto
  have tw: "takeWhile (\<lambda>c. c \<noteq> CHR ''/'') (rev (pb_name r) @ CHR ''/'' # rev d) = rev (pb_name r)"
    using ns by (subst takeWhile_append2) auto
  have "filepath_Split (ResourceToFile h r) = (d @ ''/'', pb_name r)"
    unfolding p by (simp add: filepath_Split_def Let_def tw)
  then have "pb_name (FileToResource (ResourceToFile h r)) = pb_name r"
    by (simp add: FileToResource_def split: prod.splits)
  then show ?thesis using FileToResource_only_name [of "ResourceToFile h r"] by (cases "FileToResource (ResourceToFile h r)") simp
qed

end
