(* ===== verification/Meta_Liveness.thy ===== *)
theory Meta_Liveness
  imports Meta_Roundtrip
begin

text \<open>
  When no operation fails, a backup of any objects under a fresh handle succeeds and a restore after it does too;
  with \<open>metadata_roundtrip\<close> it delivers what was backed up.
\<close>

section \<open>Without failures both succeed\<close>

definition quiet :: "'w file_env \<Rightarrow> bool" where
  "quiet env \<longleftrightarrow> (\<forall>op w. fst (fe_io env op w) = None)"

lemma quietD: "quiet env \<Longrightarrow> fe_io env op w = (e, w') \<Longrightarrow> e = None"
  by (metis fst_conv quiet_def)

lemma io_quiet: "quiet env \<Longrightarrow> run_state (io env op) s = (r, t) \<Longrightarrow> r = None"
  by (auto dest: quietD split: prod.splits)

lemma os_Create_quiet: "quiet env \<Longrightarrow> run_state (os_Create env sd p) s = (r, t) \<Longrightarrow> r = None"
  by (auto simp: os_Create_def dest: quietD split: prod.splits if_splits)

lemma os_Write_quiet: "quiet env \<Longrightarrow> run_state (os_Write env sd p d) s = (r, t) \<Longrightarrow> r = None"
  by (auto simp: os_Write_def Let_def dest: quietD split: prod.splits)

lemma os_Open_quiet:
  "quiet env \<Longrightarrow> run_state (os_Open env sd p) s = (r, t) \<Longrightarrow> fs_of sd s (filepath_Clean p) \<noteq> None \<Longrightarrow> r = None"
  by (auto simp: os_Open_def dest: quietD split: prod.splits if_splits)

lemma GetArchiver_quiet:
  assumes "quiet env" "pl_writers p typ = Some cp" "cp_newWriter cp = None" "fl_local s (filepath_Clean (filepath_Join [yard, name])) = None"
    and "run_state (GetArchiver env p yard typ name) s = (r, t)"
  shows "\<exists>q. r = Inr q"
proof -
  obtain serr s1 where st: "run_state (os_Stat env Local (filepath_Join [yard, name])) s = (serr, s1)" by fastforce
  have "IsNotFound serr" using st assms(1,4) by (auto simp: os_Stat_def notFoundFile_def dest: quietD split: prod.splits if_splits)
  moreover obtain c s2 where c: "run_state (os_Create env Local (filepath_Join [yard, name])) s1 = (c, s2)" by fastforce
  moreover have "c = None" by (rule os_Create_quiet [OF assms(1) c])
  ultimately show ?thesis using assms(2,3,5) st by (auto simp: GetArchiver_def Let_def)
qed

lemma WriteFile_quiet: "quiet env \<Longrightarrow> run_state (WriteFile env f d ar) s = (r, t) \<Longrightarrow> \<exists>q. r = Inr q"
  by (auto simp: WriteFile_def dest: quietD split: prod.splits option.splits)

lemma write_resources_quiet:
  "quiet env \<Longrightarrow> run_state (write_resources env h (resources rds) ar) s = ((r, ar'), t) \<Longrightarrow> r = Ok"
proof (induction rds arbitrary: ar s)
  case (Cons rd rds)
  obtain rr d where rd: "rd = (rr, d)" by fastforce
  obtain w u where w: "run_state (WriteFile env (ResourceToFile h rr) d ar) s = (w, u)" by fastforce
  then obtain ar2 where ar2: "w = Inr ar2" using WriteFile_quiet [OF Cons.prems(1) w] by blast
  show ?case using Cons.IH [OF Cons.prems(1), of ar2 u] Cons.prems(2) rd w ar2 by (simp add: resources_def)
qed (simp add: resources_def)

lemma archiver_Close_quiet: "quiet env \<Longrightarrow> run_state (archiver_Close env tf ar) s = (r, t) \<Longrightarrow> r = None"
  by (auto simp: archiver_Close_def os_Write_def Let_def dest: quietD split: prod.splits if_splits)

lemma nfs_receive_quiet: "quiet env \<Longrightarrow> run_state (nfs_receive env f True ms) s = (r, t) \<Longrightarrow> r = None"
proof (induction ms arbitrary: s)
  case (Cons m ms)
  obtain e s1 where e: "run_state (io env OpRecv) s = (e, s1)" by fastforce
  obtain w s2 where w: "run_state (os_Write env Store f (chunk_data m)) s1 = (w, s2)" by fastforce
  show ?case using Cons.IH [of s2] Cons.prems e w io_quiet [OF Cons.prems(1) e] os_Write_quiet [OF Cons.prems(1) w] by (simp del: run_io)
qed (auto dest: quietD split: prod.splits)

lemma nfs_Upload_quiet:
  assumes "quiet env" "i \<noteq> []" "run_state (nfs_Upload env dp True (UpInfo i # ms)) s = (r, t)"
  shows "r = None"
proof -
  obtain e s1 where e: "run_state (io env OpRecv) s = (e, s1)" by fastforce
  obtain c s2 where c: "run_state (os_Create env Store (nfs_file dp i)) s1 = (c, s2)" by fastforce
  obtain q s3 where q: "run_state (nfs_receive env (nfs_file dp i) True ms) s2 = (q, s3)" by fastforce
  obtain x s4 where x: "run_state (io env OpSend) s3 = (x, s4)" by fastforce
  have "e = None" "c = None" "q = None" "x = None"
    using assms(1) io_quiet e os_Create_quiet c nfs_receive_quiet q x by metis+
  then show ?thesis using assms(2,3) e c q x by (simp add: nfs_Upload_def del: run_io)
qed

lemma send_chunks_quiet: "quiet env \<Longrightarrow> run_state (send_chunks env bs) s = ((r, sent), t) \<Longrightarrow> r = Ok"
proof (induction bs arbitrary: s r sent t)
  case (Cons b bs)
  obtain e s1 where e: "run_state (io env OpRead) s = (e, s1)" by fastforce
  obtain x s2 where x: "run_state (io env OpSend) s1 = (x, s2)" by fastforce
  obtain r2 sent2 s3 where q: "run_state (send_chunks env bs) s2 = ((r2, sent2), s3)" by (metis prod.collapse)
  show ?case
    using Cons.IH [OF Cons.prems(1) q] Cons.prems e x q io_quiet [OF Cons.prems(1) e] io_quiet [OF Cons.prems(1) x]
    by (simp del: run_io)
qed (auto dest: quietD split: prod.splits)

lemma repo_Upload_quiet:
  assumes "quiet (ms_file env)" "fl_local s (filepath_Clean fp) \<noteq> None" "path_Base fp \<noteq> []"
    and "run_state (repo_Upload env fp) s = (r, t)"
  shows "r = Ok"
proof -
  let ?fe = "ms_file env"
  obtain o' s1 where o: "run_state (os_Open ?fe Local fp) s = (o', s1)" by fastforce
  obtain c s2 where c: "run_state (io ?fe OpStream) s1 = (c, s2)" by fastforce
  obtain i s3 where i: "run_state (io ?fe OpSend) s2 = (i, s3)" by fastforce
  obtain d sent s4 where d: "run_state (send_chunks ?fe (read_chunks 1024 (content Local fp s3))) s3 = ((d, sent), s4)"
    by (metis prod.collapse)
  have dn: "d = Ok" by (rule send_chunks_quiet [OF assms(1) d])
  obtain q s5 where q: "run_state (nfs_Upload ?fe (ms_dataPath env) True (UpInfo (path_Base fp) # map UpChunk sent)) s4 = (q, s5)"
    by fastforce
  obtain x s6 where x: "run_state (io ?fe OpRecv) s5 = (x, s6)" by fastforce
  have ok: "o' = None" "c = None" "i = None" "q = None" "x = None"
    using os_Open_quiet [OF assms(1) o] assms(2) io_quiet [OF assms(1)] c i x nfs_Upload_quiet [OF assms(1,3) q] by auto
  show ?thesis using assms(4) o c i d dn q x ok by (simp add: repo_Upload_def Let_def del: run_io)
qed

lemma metaBackup_quiet:
  assumes "quiet (ms_file env)" "pl_writers (ms_plugins env) (ms_format env) = Some cp" "cp_newWriter cp = None"
    and "CHR ''/'' \<notin> set h" "fl_local s (filepath_Clean (filepath_Join [ms_yard env, h @ archiveFileFormat])) = None"
    and "run_state (metaBackup env (Inr (RqIdentifier h) # resources rds)) s = (r, t)"
  shows "r = Ok"
proof -
  let ?fe = "ms_file env" and ?f = "filepath_Join [ms_yard env, h @ archiveFileFormat]"
  obtain a s1 where a: "run_state (GetArchiver ?fe (ms_plugins env) (ms_yard env) (ms_format env) (h @ archiveFileFormat)) s = (a, s1)"
    by fastforce
  obtain ar f where ar: "a = Inr (ar, f)" using GetArchiver_quiet [OF assms(1,2,3,5) a] by auto
  note g = GetArchiver_run [OF a [unfolded ar]]
  obtain w ar' s2 where w: "run_state (write_resources ?fe h (resources rds) ar) s1 = ((w, ar'), s2)" by (metis prod.collapse)
  have wn: "w = Ok" by (rule write_resources_quiet [OF assms(1) w])
  note ws = write_resources_same [OF w]
  obtain c s3 where c: "run_state (archiver_Close ?fe (ms_tar env) ar') s2 = (c, s3)" by fastforce
  have cn: "c = None" by (rule archiver_Close_quiet [OF assms(1) c])
  obtain u s4 where u: "run_state (repo_Upload env f) s3 = (u, s4)" by fastforce
  have "path_Base f = h @ archiveFileFormat"
    using path_Base_Join [OF plain_archive_name [OF assms(4)]] g(2) by (simp add: archive_name_def)
  moreover have "fl_local s3 (filepath_Clean f) \<noteq> None"
    using archiver_Close_run(2) [OF c [unfolded cn]] ws g by (simp add: same_files_def)
  ultimately have un: "u = Ok" by (intro repo_Upload_quiet [OF assms(1) _ _ u]) (auto simp: archiveFileFormat_def)
  obtain x s5 where x: "run_state (io ?fe OpSend) s4 = (x, s5)" by fastforce
  have xn: "x = None" by (rule io_quiet [OF assms(1) x])
  obtain s6 where d: "run_state (deleteFile ?fe f) s5 = ((), s6)" by (metis old.unit.exhaust surj_pair)
  have "run_state (finish_backup env f ar') s2 = (Ok, s6)"
    using c cn u un x xn d by (simp add: finish_backup_def Let_def del: run_io)
  then have "run_state (metaBackup env (Inr (RqIdentifier h) # resources rds)) s = (Ok, s6)"
    using a ar w wn by (simp add: metaBackup_def getBackupHandle_def Let_def)
  then show ?thesis using assms(6) by simp
qed

lemma nfs_send_quiet: "quiet env \<Longrightarrow> run_state (nfs_send env bs) s = ((ms, e), t) \<Longrightarrow> e = None"
proof (induction bs arbitrary: s ms e t)
  case (Cons b bs)
  obtain e1 s1 where e: "run_state (io env OpRead) s = (e1, s1)" by fastforce
  obtain x s2 where x: "run_state (io env OpSend) s1 = (x, s2)" by fastforce
  obtain ms2 e2 s3 where q: "run_state (nfs_send env bs) s2 = ((ms2, e2), s3)" by (metis prod.collapse)
  show ?case
    using Cons.IH [OF Cons.prems(1) q] Cons.prems e x q io_quiet [OF Cons.prems(1) e] io_quiet [OF Cons.prems(1) x]
    by (simp del: run_io)
qed (auto dest: quietD split: prod.splits)

lemma nfs_Download_quiet:
  assumes "quiet env" "i \<noteq> []" "dp \<noteq> []" "fl_store s (filepath_Clean (nfs_file dp i)) \<noteq> None"
    and "run_state (nfs_Download env dp i) s = ((ms, e), t)"
  shows "e = None"
proof -
  let ?f = "filepath_Join [dp, i]"
  have f: "filepath_Clean ?f = filepath_Clean (nfs_file dp i)" using assms(3) by (simp add: clean_Join2 nfs_file_def)
  obtain o' s1 where o: "run_state (os_Open env Store ?f) s = (o', s1)" by fastforce
  have on: "o' = None" using os_Open_quiet [OF assms(1) o] f assms(4) by simp
  obtain x s2 where x: "run_state (io env OpSend) s1 = (x, s2)" by fastforce
  obtain ms' e' s3 where d: "run_state (nfs_send env (read_chunks ReadBufferSize (content Store ?f s2))) s2 = ((ms', e'), s3)"
    by (metis prod.collapse)
  show ?thesis
    using assms(2,5) o on x d io_quiet [OF assms(1) x] nfs_send_quiet [OF assms(1) d] by (simp add: nfs_Download_def Let_def del: run_io)
qed

lemma repo_receive_quiet: "quiet env \<Longrightarrow> run_state (repo_receive env f ms None) s = (r, t) \<Longrightarrow> r = None"
proof (induction ms arbitrary: s)
  case (Cons m ms)
  obtain e s1 where e: "run_state (io env OpRecv) s = (e, s1)" by fastforce
  obtain w s2 where w: "run_state (os_Write env Local f (dn_data m)) s1 = (w, s2)" by fastforce
  show ?case using Cons.IH [of s2] Cons.prems e w io_quiet [OF Cons.prems(1) e] os_Write_quiet [OF Cons.prems(1) w] by (simp del: run_io)
qed (auto dest: quietD split: prod.splits)

lemma repo_Download_quiet:
  assumes "quiet (ms_file env)" "i \<noteq> []" "ms_dataPath env \<noteq> []" "fl_store s (filepath_Clean (nfs_file (ms_dataPath env) i)) \<noteq> None"
    and "run_state (repo_Download env i) s = (r, t)"
  shows "\<exists>f. r = Inr f \<and> fl_local t (filepath_Clean f) \<noteq> None"
proof -
  let ?fe = "ms_file env"
  obtain c s1 where c: "run_state (io ?fe OpStream) s = (c, s1)" by fastforce
  have cn: "c = None" by (rule io_quiet [OF assms(1) c])
  obtain msgs served s2 where d: "run_state (nfs_Download ?fe (ms_dataPath env) i) s1 = ((msgs, served), s2)" by (metis prod.collapse)
  have served: "served = None"
    using nfs_Download_quiet [OF assms(1,2,3) _ d] assms(4) io_same [OF c] by (simp add: same_files_def)
  obtain ms where ms: "msgs = DnInfo i # ms" using nfs_Download_run(1) [OF d [unfolded served] assms(3)] by blast
  obtain q s3 where q: "run_state (io ?fe OpRecv) s2 = (q, s3)" by fastforce
  have qn: "q = None" by (rule io_quiet [OF assms(1) q])
  let ?f = "filepath_Join [''/tmp'', i]"
  obtain cr s4 where cr: "run_state (os_Create ?fe Local ?f) s3 = (cr, s4)" by fastforce
  have crn: "cr = None" by (rule os_Create_quiet [OF assms(1) cr])
  obtain g s5 where g: "run_state (repo_receive ?fe ?f ms None) s4 = (g, s5)" by fastforce
  have gn: "g = None" by (rule repo_receive_quiet [OF assms(1) g])
  obtain w s6 where w: "run_state (io ?fe OpWrite) s5 = (w, s6)" by fastforce
  have wn: "w = None" by (rule io_quiet [OF assms(1) w])
  have "r = Inr ?f" "t = s6"
    using assms(5) c cn d served ms q qn cr crn g gn w wn by (simp_all add: repo_Download_def Let_def del: run_io)
  then show ?thesis
    using os_Create_run [OF cr [unfolded crn], of Local] repo_receive_run [OF g [unfolded gn]] io_same [OF w]
    by (simp add: same_files_def)
qed

lemma restore_entries_quiet:
  "quiet env \<Longrightarrow> run_state (restore_entries env (es, None)) s = ((sent, e), t) \<Longrightarrow> e = None"
proof (induction es arbitrary: s sent e t)
  case Nil
  then show ?case by (simp add: restore_entries.simps [of env "([], q)" for q] ReadNext_def)
next
  case (Cons x es)
  obtain n d where x: "x = (n, d)" by fastforce
  obtain c s1 where c: "run_state (io env OpRead) s = (c, s1)" by fastforce
  obtain q s2 where q: "run_state (io env OpSend) s1 = (q, s2)" by fastforce
  obtain sent' e' s3 where r: "run_state (restore_entries env (es, None)) s2 = ((sent', e'), s3)" by (metis prod.collapse)
  show ?case
    using Cons.IH [OF Cons.prems(1) r] Cons.prems x c q r io_quiet [OF Cons.prems(1) c] io_quiet [OF Cons.prems(1) q]
    by (simp add: restore_entries.simps [of env "(y # es, q)" for y q] ReadNext_def del: run_io)
qed

lemma GetArchiveReader_quiet:
  assumes "quiet env" "pl_readers p typ = Some cp" "fl_local s (filepath_Clean f) \<noteq> None" "cp_newReader cp (content Local f s) = None"
    and "run_state (GetArchiveReader env p tf typ f) s = (r, t)"
  shows "r = Inr (tf_read tf (cp_decode cp (content Local f s)))"
  using assms
  by (auto simp: GetArchiveReader_def os_Stat_def os_Open_def content_def dest: quietD split: option.splits prod.splits if_splits)

lemma metaRestore_quiet:
  assumes "quiet (ms_file env)" "pl_readers (ms_plugins env) (ms_format env) = Some cp" "ms_dataPath env \<noteq> []"
    and "fl_store s (filepath_Clean (nfs_file (ms_dataPath env) (h @ archiveFileFormat))) = Some bytes"
    and "cp_newReader cp bytes = None" "snd (tf_read (ms_tar env) (cp_decode cp bytes)) = None"
    and "run_state (metaRestore env h) s = ((sent, e), t)"
  shows "e = None"
proof -
  let ?fe = "ms_file env"
  obtain d s1 where d: "run_state (repo_Download env (h @ archiveFileFormat)) s = (d, s1)" by fastforce
  obtain f where f: "d = Inr f" "fl_local s1 (filepath_Clean f) \<noteq> None"
    using repo_Download_quiet [OF assms(1) _ assms(3) _ d] assms(4) by (auto simp: archiveFileFormat_def)
  have bytes: "content Local f s1 = bytes" using repo_Download_Inr(1) [OF d [unfolded f(1)] assms(3)] assms(4) by simp
  obtain a s2 where a: "run_state (GetArchiveReader ?fe (ms_plugins env) (ms_tar env) (ms_format env) f) s1 = (a, s2)" by fastforce
  have an: "a = Inr (tf_read (ms_tar env) (cp_decode cp bytes))"
    by (rule GetArchiveReader_quiet [OF assms(1,2) f(2) _ a, unfolded bytes]) (rule assms(5))
  obtain es where es: "tf_read (ms_tar env) (cp_decode cp bytes) = (es, None)" using assms(6) by (metis prod.collapse)
  obtain sent' e' s3 where r: "run_state (restore_entries ?fe (es, None)) s2 = ((sent', e'), s3)" by (metis prod.collapse)
  show ?thesis
    using assms(7) d f a an es r restore_entries_quiet [OF assms(1) r] by (auto simp: metaRestore_def Let_def split: prod.splits)
qed

end
