(* ===== verification/Meta_Properties.thy ===== *)
theory Meta_Properties
  imports Meta_Liveness
begin

text \<open>
  What the metadata service promises: what it has backed up it restores, a backup leaves the archival yard and every
  other stored backup as they were, and nothing but a failing operation can make it fail. The formats of the
  library enter through \<open>format_laws\<close>.
\<close>

section \<open>What was backed up is restored\<close>

definition gzip_service :: "'w ms_env \<Rightarrow> compressor \<Rightarrow> bool" where
  "gzip_service env gzip \<longleftrightarrow> format_laws gzip (ms_tar env) \<and> ms_plugins env = register_gzip gzip no_plugins \<and>
     ms_format env = GZipType \<and> ms_dataPath env \<noteq> []"

lemma register_gzip_gets: "pl_writers (register_gzip gzip p) GZipType = Some gzip" "pl_readers (register_gzip gzip p) GZipType = Some gzip"
  by (simp_all add: register_gzip_def RegisterCompressionReaderPlugins_def RegisterCompressionWriterPlugins_def)

text \<open>C14: what a backup has accepted a restore delivers. If a backup of the named objects reported success and
  the provider still holds its file, then a restore of that handle that ends without an error, on this or another
  replica of the service, has sent every object's data, unchanged, in the order of the backup and under its name.
  Of its identity only the name is left: kind, group and version come back empty.\<close>

theorem metadata_roundtrip:
  assumes "gzip_service env gzip" "plain h" "list_all (\<lambda>(r, data). wf_resource r) rds"
    and "run_state (metaBackup env (Inr (RqIdentifier h) # resources rds)) s = (Ok, s1)"
    and "fl_store s2 = fl_store s1"
    and "run_state (metaRestore env h) s2 = ((sent, None), s3)"
  shows "sent = map (\<lambda>(r, data). (\<lparr>pb_name = pb_name r, pb_group = [], pb_version = [], pb_kind = []\<rparr>, data)) rds"
proof -
  have laws: "cp_decode gzip (cp_encode gzip x) = (x, None)" "tf_read (ms_tar env) (tf_write (ms_tar env) es, None) = (es, None)" for x es
    using assms(1) by (auto simp: gzip_service_def format_laws_def)
  have gz: "pl_writers (ms_plugins env) (ms_format env) = Some gzip" "pl_readers (ms_plugins env) (ms_format env) = Some gzip"
    "ms_dataPath env \<noteq> []" using assms(1) by (auto simp: gzip_service_def register_gzip_gets)
  have "CHR ''/'' \<notin> set h" using assms(2) by (simp add: plain_def)
  then have "fl_store s2 (filepath_Clean (nfs_file (ms_dataPath env) (h @ archiveFileFormat))) =
      Some (cp_encode gzip (tf_write (ms_tar env) (entries h rds)))"
    using metaBackup_Ok [OF assms(4)] assms(5) gz(1) by auto
  then have "sent = map (\<lambda>(n, data). (FileToResource n, data)) (entries h rds)"
    using metaRestore_Ok [OF assms(6) gz(3)] gz(2) laws by auto
  then show ?thesis using assms(3) FileToResource_ResourceToFile [OF assms(2)]
    by (auto simp: entries_def list_all_iff)
qed

text \<open>C17: a backup changes no file of the archival yard but the archive of its handle, whatever the client
  sends, whatever fails and also when the process dies. Where the process lives, a file that exists is not
  reported as missing, no removal of a file fails and the writers of the plugins open, as the one for gzip does,
  the archive it has created is gone when the call ends, with or without an error, and the yard is as it was
  found. A removal that fails is only logged by the code: the archive then stays.\<close>

theorem metaBackup_leaves_yard:
  assumes "run_state (metaBackup env reqs) s = (r, t)"
  shows "(fl_local t = fl_local s \<or> (\<exists>h rest. getBackupHandle reqs = Inr (h, rest) \<and>
        (\<forall>k. k \<noteq> filepath_Clean (filepath_Join [ms_yard env, h @ ''.tar'']) \<longrightarrow> fl_local t k = fl_local s k))) \<and>
    (r \<noteq> Crash \<and> removes (ms_file env) \<and> stat_honest (ms_file env) \<and> writers_open (ms_plugins env) \<longrightarrow>
      fl_local t = fl_local s)"
proof (rule conjI; (rule impI, elim conjE)?)
  show "fl_local t = fl_local s \<or> (\<exists>h rest. getBackupHandle reqs = Inr (h, rest) \<and>
      (\<forall>k. k \<noteq> filepath_Clean (filepath_Join [ms_yard env, h @ ''.tar'']) \<longrightarrow> fl_local t k = fl_local s k))"
    using metaBackup_only [OF assms] by (simp add: only_at_def archiveFileFormat_def)
next
  assume c: "r \<noteq> Crash" and rm: "removes (ms_file env)" and st: "stat_honest (ms_file env)" and op: "writers_open (ms_plugins env)"
  have undo: "(fl_local u)(filepath_Clean f := None) = fl_local s"
    if "run_state (GetArchiver (ms_file env) (ms_plugins env) (ms_yard env) (ms_format env) n) s = (Inr (ar, f), s1)"
      "fl_local u = fl_local s1" for n ar f s1 u
    using that GetArchiver_run(5) [OF that(1)] GetArchiver_absent [OF that(1) st] by (auto simp: fun_upd_idem)
  from assms show "fl_local t = fl_local s"
  proof (cases rule: metaBackup_cases)
    case 1
    then show ?thesis by simp
  next
    case (2 h e)
    then show ?thesis using GetArchiver_Inl(2) op by blast
  next
    case (3 h rest ar f s1 w ar' s2)
    then show ?thesis
      using undo [OF 3(2), of s2] write_resources_same [OF 3(3)] deleteFile_run(2) [OF 3(6) rm] by (simp add: same_files_def)
  next
    case (4 h rest ar f s1 ar' s2)
    then have f: "f = ta_file ar'" using write_resources_same [OF 4(3)] GetArchiver_run(3) [OF 4(2)] by simp
    show ?thesis
      using undo [OF 4(2), of s2] write_resources_same [OF 4(3)] finish_backup_clean [OF 4(4) [unfolded f] rm c] f
      by (simp add: same_files_def)
  qed
qed

text \<open>C16: a backup touches one file of the provider, that of its own handle: whatever it is sent and however
  it ends, also when the process dies in the upload, every other stored backup is as before.\<close>

theorem metaBackup_own_archive:
  assumes "run_state (metaBackup env (Inr (RqIdentifier h) # reqs)) s = (r, t)" "CHR ''/'' \<notin> set h"
    and "k \<noteq> filepath_Clean (ms_dataPath env @ ''/'' @ h @ ''.tar'')"
  shows "fl_store t k = fl_store s k"
  using assms(1)
proof (cases rule: metaBackup_cases)
  case (2 h e)
  then show ?thesis using GetArchiver_Inl(1) by metis
next
  case (3 h' rest ar f s1 w ar' s2)
  then show ?thesis using GetArchiver_run(6) [OF 3(2)] write_resources_same [OF 3(3)] deleteFile_run(1) [OF 3(6)]
    by (simp add: same_files_def)
next
  case (4 h' rest ar f s1 ar' s2)
  have "path_Base f = h @ archiveFileFormat"
    using path_Base_Join [OF plain_archive_name [OF assms(2)]] GetArchiver_run(2) [OF 4(2)] 4(1)
    by (simp add: archive_name_def getBackupHandle_def)
  then show ?thesis
    using finish_backup_frame [OF 4(4)] GetArchiver_run(6) [OF 4(2)] write_resources_same [OF 4(3)] assms(3)
    by (simp add: same_files_def only_at_def nfs_file_def archiveFileFormat_def)
qed simp

text \<open>C15: only a failing operation makes the service fail: when none does, a backup of any objects under a handle
  whose archive is not in the yard reports success, and a restore after it ends without an error.\<close>

theorem metadata_service_serves:
  assumes "gzip_service env gzip" "quiet (ms_file env)" "CHR ''/'' \<notin> set h"
    and "fl_local s (filepath_Clean (filepath_Join [ms_yard env, h @ archiveFileFormat])) = None"
    and "run_state (metaBackup env (Inr (RqIdentifier h) # resources rds)) s = (r, s1)"
    and "run_state (metaRestore env h) s1 = ((sent, e), s2)"
  shows "r = Ok \<and> e = None"
proof
  have gz: "pl_writers (ms_plugins env) (ms_format env) = Some gzip" "pl_readers (ms_plugins env) (ms_format env) = Some gzip"
    "ms_dataPath env \<noteq> []" "format_laws gzip (ms_tar env)"
    using assms(1) by (auto simp: gzip_service_def register_gzip_gets)
  show r: "r = Ok" using metaBackup_quiet [OF assms(2) gz(1) _ assms(3,4,5)] gz(4) by (simp add: format_laws_def)
  have "fl_store s1 (filepath_Clean (nfs_file (ms_dataPath env) (h @ archiveFileFormat))) =
      Some (cp_encode gzip (tf_write (ms_tar env) (entries h rds)))"
    using metaBackup_Ok [OF assms(5) [unfolded r] assms(3)] gz(1) by auto
  from metaRestore_quiet [OF assms(2) gz(2,3) this _ _ assms(6)] show "e = None"
    using gz(4) by (simp add: format_laws_def)
qed

text \<open>A deletion that the provider refuses is reported as done: the client of the provider drops its error.\<close>

theorem failed_delete_is_silent:
  assumes "\<And>w. fst (fe_io (ms_file env) OpCall w) = None" "\<And>w. fst (fe_io (ms_file env) OpRemove w) \<noteq> None"
    and "run_state (metaDelete env h) s = (r, t)"
  shows "r = None \<and> fl_store t = fl_store s"
  using assms
  by (auto simp: metaDelete_def repo_Delete_def nfs_ObjectExists_def nfs_Delete_def os_Open_def os_Remove_def Let_def
      split: prod.splits if_splits) (metis fst_conv option.distinct(1))+

section \<open>A concrete service\<close>

definition demo_reqs :: "(goerr + meta_msg) list" where
  "demo_reqs = Inr (RqIdentifier ''b1'') # resources [(demo_web, ''{}'')]"

lemma demo_service: "gzip_service demo_ms plain_copy" "quiet (ms_file demo_ms)" "removes (ms_file demo_ms)" "stat_honest (ms_file demo_ms)"
  "writers_open (ms_plugins demo_ms)"
  using plain_laws
  by (auto simp: gzip_service_def demo_ms_def demo_io_def quiet_def removes_def stat_honest_def writers_open_def register_gzip_def
      RegisterCompressionReaderPlugins_def RegisterCompressionWriterPlugins_def no_plugins_def plain_copy_def)

lemma demo_ms_runs:
  "\<exists>s1 sent s2. run_state (metaBackup demo_ms demo_reqs) empty_files = (Ok, s1) \<and>
     run_state (metaRestore demo_ms ''b1'') s1 = ((sent, None), s2)"
proof -
  obtain r s1 where b: "run_state (metaBackup demo_ms demo_reqs) empty_files = (r, s1)" by fastforce
  have gz: "pl_writers (ms_plugins demo_ms) (ms_format demo_ms) = Some plain_copy" "ms_dataPath demo_ms \<noteq> []"
    "pl_readers (ms_plugins demo_ms) (ms_format demo_ms) = Some plain_copy"
    using demo_service(1) by (auto simp: gzip_service_def register_gzip_gets)
  have r: "r = Ok" by (rule metaBackup_quiet [OF demo_service(2) gz(1) _ _ _ b [unfolded demo_reqs_def]])
      (auto simp: plain_copy_def empty_files_def)
  obtain sent e s2 where q: "run_state (metaRestore demo_ms ''b1'') s1 = ((sent, e), s2)" by (metis prod.collapse)
  have "fl_store s1 (filepath_Clean (nfs_file (ms_dataPath demo_ms) (''b1'' @ archiveFileFormat))) =
      Some (cp_encode plain_copy (tf_write (ms_tar demo_ms) (entries ''b1'' [(demo_web, ''{}'')])))"
    using metaBackup_Ok [OF b [unfolded r demo_reqs_def]] gz(1) by auto
  from metaRestore_quiet [OF demo_service(2) gz(3,2) this _ _ q] have "e = None"
    using plain_laws by (simp add: format_laws_def demo_ms_def)
  then show ?thesis using b q r by blast
qed

theorem metadata_roundtrip_witness:
  "\<exists>s1 s2. run_state (metaBackup demo_ms demo_reqs) empty_files = (Ok, s1) \<and>
     run_state (metaRestore demo_ms ''b1'') s1 =
       (([(\<lparr>pb_name = ''web'', pb_group = [], pb_version = [], pb_kind = []\<rparr>, ''{}'')], None), s2)"
proof -
  obtain s1 sent s2 where b: "run_state (metaBackup demo_ms demo_reqs) empty_files = (Ok, s1)"
    and q: "run_state (metaRestore demo_ms ''b1'') s1 = ((sent, None), s2)" using demo_ms_runs by blast
  have "plain ''b1''" "list_all (\<lambda>(r, data). wf_resource r) [(demo_web, ''{}'')]"
    by (auto simp: plain_def wf_resource_def demo_web_def)
  from metadata_roundtrip [OF demo_service(1) this b [unfolded demo_reqs_def] refl q]
  have "sent = [(\<lparr>pb_name = ''web'', pb_group = [], pb_version = [], pb_kind = []\<rparr>, ''{}'')]"
    by (simp add: demo_web_def)
  then show ?thesis using b q by blast
qed

theorem metaBackup_leaves_yard_witness:
  "fl_local (snd (run_state (metaBackup demo_ms demo_reqs) empty_files)) = Map.empty"
proof -
  obtain s1 where b: "run_state (metaBackup demo_ms demo_reqs) empty_files = (Ok, s1)" using demo_ms_runs by blast
  from metaBackup_leaves_yard [OF b] show ?thesis using b demo_service(3,4,5) by (simp add: empty_files_def)
qed

theorem metaBackup_own_archive_witness:
  "fl_store (snd (run_state (metaBackup demo_ms demo_reqs) (empty_files\<lparr>fl_store := [''/data/b0.tar'' \<mapsto> ''old'']\<rparr>))) ''/data/b0.tar''
     = Some ''old''"
proof -
  let ?s = "empty_files\<lparr>fl_store := [''/data/b0.tar'' \<mapsto> ''old'']\<rparr>"
  obtain r t where b: "run_state (metaBackup demo_ms (Inr (RqIdentifier ''b1'') # resources [(demo_web, ''{}'')])) ?s = (r, t)"
    by fastforce
  have "''/data/b0.tar'' \<noteq> filepath_Clean (ms_dataPath demo_ms @ ''/'' @ ''b1'' @ ''.tar'')"
    by (simp add: demo_ms_def) code_simp
  from metaBackup_own_archive [OF b _ this] show ?thesis using b by (simp add: demo_reqs_def)
qed

theorem metadata_service_serves_witness:
  "fst (run_state (metaBackup demo_ms demo_reqs) empty_files) = Ok \<and>
     snd (fst (run_state (metaRestore demo_ms ''b1'') (snd (run_state (metaBackup demo_ms demo_reqs) empty_files)))) = None"
proof -
  obtain r s1 where b: "run_state (metaBackup demo_ms demo_reqs) empty_files = (r, s1)" by fastforce
  obtain sent e s2 where q: "run_state (metaRestore demo_ms ''b1'') s1 = ((sent, e), s2)" by (metis prod.collapse)
  have "r = Ok \<and> e = None"
    by (rule metadata_service_serves [OF demo_service(1,2) _ _ b [unfolded demo_reqs_def] q]) (auto simp: empty_files_def)
  then show ?thesis using b q by simp
qed

end
