(* ===== verification/Csi_Provider.thy ===== *)
theory Csi_Provider
  imports Volume_Backup_Safety Volume_Restore_Safety
begin

text \<open>
  The CSI snapshotter provider, \<^verbatim>\<open>providers/csi-snapshotter/server/server.go\<close>, as the driver that the volume
  backup and restore services call: its operations have the types of the services' driver parameters. A backup is
  the CSI snapshot the backup controller has made; a restore creates a claim from it.

  Access modes and requested resources of a claim are copied and not represented.
\<close>

section \<open>Identity\<close>

record csi_options =
  co_ProviderName :: string
  co_ProviderVersion :: string

datatype csi_capability = CSI_VOLUME_BACKUP_SERVICE

definition csi_GetProviderInfo :: "csi_options \<Rightarrow> string \<times> string" where
  "csi_GetProviderInfo opts = (co_ProviderName opts, co_ProviderVersion opts)"

definition csi_GetProviderCapabilities :: "csi_capability list" where
  "csi_GetProviderCapabilities = [CSI_VOLUME_BACKUP_SERVICE]"

definition csi_Probe :: "goerr option" where "csi_Probe = None"

section \<open>Backup\<close>

fun csi_StartBackup :: "backup_call \<Rightarrow> 'w \<Rightarrow> (goerr + start_response) \<times> 'w" where
  "csi_StartBackup (StartBackup req) w = (Inr \<lparr>sr_errors = [],
     sr_info = map (\<lambda>(handle, p). \<lparr>be_pvName = meta_name (pv_meta p), be_handle = handle, be_attributes = Map.empty\<rparr>) (sq_info req)\<rparr>, w)"
| "csi_StartBackup _ w = (Inr \<lparr>sr_errors = [], sr_info = []\<rparr>, w)"

text \<open>Nothing is deleted. Cancelling is deleting.\<close>

definition csi_DeleteBackup :: "backup_call \<Rightarrow> 'w \<Rightarrow> goerr option \<times> 'w" where
  "csi_DeleteBackup req w = (None, w)"

fun csi_CancelBackup :: "backup_call \<Rightarrow> 'w \<Rightarrow> goerr option \<times> 'w" where
  "csi_CancelBackup (CancelBackup ids params) w = csi_DeleteBackup (DeleteBackup [] ids params) w"
| "csi_CancelBackup _ w = csi_DeleteBackup (DeleteBackup [] [] Map.empty) w"

fun csi_GetBackupStat :: "backup_call \<Rightarrow> 'w \<Rightarrow> (goerr + (string \<times> int) list) \<times> 'w" where
  "csi_GetBackupStat (GetBackupStat infos params) w = (Inr (map (\<lambda>i. (bi_handle i, 100)) infos), w)"
| "csi_GetBackupStat _ w = (Inr [], w)"

section \<open>Restore\<close>

record csi_claim =
  cl_name :: string
  cl_namespace :: string
  cl_dataSource :: "string \<times> string \<times> string"
  cl_storageClassName :: "string option"

text \<open>The snapshot a content refers to (namespace and name), and the creation of a claim, which returns its name.\<close>

record 'w csi_cluster =
  cc_contentGet :: "string \<Rightarrow> 'w \<Rightarrow> goerr + string \<times> string"
  cc_createClaim :: "string \<Rightarrow> csi_claim \<Rightarrow> 'w \<Rightarrow> (goerr + string) \<times> 'w"

definition claim_of :: "restore_identifier \<Rightarrow> string \<Rightarrow> csi_claim" where
  "claim_of info snapshotName = (let p = tp_pvc (rf_pvc info) in
     \<lparr>cl_name = meta_name (pvc_meta p), cl_namespace = meta_namespace (pvc_meta p),
      cl_dataSource = (''snapshot.storage.k8s.io'', ''VolumeSnapshot'', snapshotName),
      cl_storageClassName = pvc_storageClassName p\<rparr>)"

fun create_claims :: "'w csi_cluster \<Rightarrow> restore_identifier list \<Rightarrow> 'w \<Rightarrow> (goerr + volume_identifier list) \<times> 'w" where
  "create_claims env [] w = (Inr [], w)"
| "create_claims env (info # infos) w = (case cc_contentGet env (rf_backupHandle info) w of
     Inl err \<Rightarrow> (Inl err, w)
   | Inr (ns, name) \<Rightarrow> (case cc_createClaim env ns (claim_of info name) w of
       (Inl err, w1) \<Rightarrow> (Inl err, w1)
     | (Inr created, w1) \<Rightarrow> (case create_claims env infos w1 of
         (Inl err, w2) \<Rightarrow> (Inl err, w2)
       | (Inr ids, w2) \<Rightarrow> (Inr (\<lparr>vi_pvcName = created, vi_handle = created, vi_attributes = Map.empty\<rparr> # ids), w2))))"

fun csi_CreateVolumeFromBackup :: "'w csi_cluster \<Rightarrow> restore_call \<Rightarrow> 'w \<Rightarrow> (goerr + create_response) \<times> 'w" where
  "csi_CreateVolumeFromBackup env (CreateVolumeFromBackup name infos params) w = (case create_claims env infos w of
     (Inl err, w1) \<Rightarrow> (Inl err, w1) | (Inr ids, w1) \<Rightarrow> (Inr \<lparr>cp_errors = [], cp_identifiers = ids\<rparr>, w1))"
| "csi_CreateVolumeFromBackup env _ w = (Inr \<lparr>cp_errors = [], cp_identifiers = []\<rparr>, w)"

definition csi_CancelRestore :: "restore_call \<Rightarrow> 'w \<Rightarrow> goerr option \<times> 'w" where
  "csi_CancelRestore req w = (None, w)"

fun csi_GetRestoreStat :: "restore_call \<Rightarrow> 'w \<Rightarrow> (goerr + (string \<times> int) list) \<times> 'w" where
  "csi_GetRestoreStat (GetRestoreStat ids params) w = (Inr (map (\<lambda>i. (ri_handle i, 100)) ids), w)"
| "csi_GetRestoreStat _ w = (Inr [], w)"

section \<open>The driver under the services\<close>

text \<open>The services with this provider as their driver. An error reaches them as one of the gRPC code \<^verbatim>\<open>Unknown\<close>.\<close>

definition rpc_error :: "goerr \<Rightarrow> goerr" where
  "rpc_error err = errorf (''rpc error: code = Unknown desc = '' @ err_msg err)"

definition with_csi_backup :: "'w vb_env \<Rightarrow> 'w vb_env" where
  "with_csi_backup env = env\<lparr>bn_start := csi_StartBackup, bn_delete := csi_DeleteBackup, bn_cancel := csi_CancelBackup,
     bn_stat := csi_GetBackupStat\<rparr>"

definition with_csi_restore :: "'w csi_cluster \<Rightarrow> 'w vr_env \<Rightarrow> 'w vr_env" where
  "with_csi_restore cl env = env\<lparr>
     vn_create := (\<lambda>req w. case csi_CreateVolumeFromBackup cl req w of (Inl err, w1) \<Rightarrow> (Inl (rpc_error err), w1) | (Inr resp, w1) \<Rightarrow> (Inr resp, w1)),
     vn_cancel := csi_CancelRestore, vn_stat := csi_GetRestoreStat\<rparr>"

lemma snapshot_infos_names:
  "snapshot_infos env sts w = Ret (Inr (infos, volNames)) \<Longrightarrow> volNames = set (map (\<lambda>(h, p). meta_name (pv_meta p)) infos)"
  by (induction sts arbitrary: infos volNames) (auto split: outcome.splits sum.splits prod.splits)

lemma csi_answer_accepted:
  assumes "distinct (map (\<lambda>(h, p). meta_name (pv_meta p)) (sq_info req))"
    and "csi_StartBackup (StartBackup req) w = (Inr resp, w')"
  shows "validateBackupResponse (set (map (\<lambda>(h, p). meta_name (pv_meta p)) (sq_info req))) (sr_info resp) = None"
proof -
  have "map be_pvName (sr_info resp) = map (\<lambda>(h, p). meta_name (pv_meta p)) (sq_info req)" using assms(2) by auto
  moreover have "length (sr_info resp) = length (sq_info req)" using assms(2) by auto
  ultimately show ?thesis using distinct_card [OF assms(1)] by (simp add: validateBackupResponse_def Let_def)
qed

lemma constructBackupRequest_names:
  assumes "constructBackupRequest env b w = Ret (Inr (req, volNames))" "vb_sourceRef b \<noteq> None"
  shows "volNames = set (map (\<lambda>(h, p). meta_name (pv_meta p)) (sq_info req))"
  using assms
  by (auto simp: constructBackupRequest_def getVolBackupReqByRef_def dest!: snapshot_infos_names split: outcome.splits sum.splits)

lemma constructBackupRequest_csi [simp]: "constructBackupRequest (with_csi_backup env) = constructBackupRequest env"
proof -
  have "getPersistentVols (with_csi_backup env) vs w = getPersistentVols env vs w" for vs w
    by (induction vs) (auto simp: with_csi_backup_def split: sum.splits)
  moreover have "snapshot_infos (with_csi_backup env) sts w = snapshot_infos env sts w" for sts w
    by (induction sts) (auto simp: with_csi_backup_def getSnapshotBySnapshotState_def getPVBySnapshotState_def
        split: sum.splits outcome.splits option.splits)
  ultimately show ?thesis
    by (intro ext) (simp add: constructBackupRequest_def getVolBackupReqByRef_def with_csi_backup_def [of env] split: option.split sum.split)
qed

text \<open>C28: the CSI provider starts every backup of snapshots: when the request can be put together and names no volume
  twice, the volume backup service takes the provider's answer and records the content as in progress, with one
  state per snapshot whose handle is that of the snapshot content.\<close>

theorem csi_backup_starts:
  assumes "constructBackupRequest env b (vo_world s) = Ret (Inr (req, volNames))" "vb_sourceRef b \<noteq> None"
    and "distinct (map (\<lambda>(h, p). meta_name (pv_meta p)) (sq_info req))"
    and "run_state (handleVolumeBackup (with_csi_backup env) b) s = (r, s')"
  shows "\<exists>b'. r = Ret (b', None) \<and> vb_phase b' = VBCPhaseInProgress \<and>
    map (\<lambda>st. (vs_backupHandle st, vs_volumeName st)) (vb_states b') = map (\<lambda>(h, p). (h, meta_name (pv_meta p))) (sq_info req)"
proof -
  let ?resp = "\<lparr>sr_errors = [], sr_info = map (\<lambda>(handle, p). \<lparr>be_pvName = meta_name (pv_meta p), be_handle = handle,
      be_attributes = Map.empty\<rparr>) (sq_info req)\<rparr>"
  have start: "bn_start (with_csi_backup env) (StartBackup req) w = (Inr ?resp, w)" for w by (simp add: with_csi_backup_def)
  have valid: "validateBackupResponse volNames (sr_info ?resp) = None"
    using csi_answer_accepted [OF assms(3), of "vo_world s" ?resp] constructBackupRequest_names [OF assms(1,2)] by simp
  show ?thesis
    using assms(1,4) valid
    by (auto simp: handleVolumeBackup_def vask_def vcall_def start started_states_def split: prod.splits)
qed

text \<open>The provider reports every handle as complete, so the first poll of a running backup ends it.\<close>

lemma finished_full_report:
  assumes "\<forall>e \<in> set es. (fst e, 100) \<in> set stats"
  shows "finished (map (report sec stats) es)"
proof -
  have "100 \<le> Max (set (p # map snd (filter (\<lambda>x. fst x = h) stats)))" if "(h, p, t) \<in> set es" for h p t
    using that assms by (intro Max_ge) force+
  then show ?thesis by (auto simp: finished_def report_def Let_def)
qed

lemma csi_first_poll:
  assumes "vb_phase b = VBCPhaseInProgress" "csi_GetBackupStat (backup_stat_request b) w = (Inr stats, w')"
  shows "fst (abs_backup (polled_backup now stats b)) = Finished"
proof -
  have "\<forall>e \<in> set (map abs_backup_entry (vb_states b)). (fst e, 100) \<in> set stats"
    using assms(2) by (auto simp: backup_stat_request_def getVolIdentifiers_def abs_backup_entry_def)
  from finished_full_report [OF this] show ?thesis
    using polled_backup_refines [OF assms(1)] by (simp add: poll_spec_def Let_def)
qed

text \<open>
  A claim is sent to the namespace of the snapshot with the namespace of the restore in its metadata. The API server
  refuses an object whose namespace is not that of the request, so a restore succeeds only where the snapshots are.
\<close>

definition rejects_other_namespace :: "'w csi_cluster \<Rightarrow> bool" where
  "rejects_other_namespace cl \<longleftrightarrow> (\<forall>ns c w. cl_namespace c \<noteq> [] \<and> cl_namespace c \<noteq> ns \<longrightarrow> isl (fst (cc_createClaim cl ns c w)))"

theorem csi_restore_same_namespace:
  assumes "rejects_other_namespace cl" "create_claims cl infos w = (Inr ids, w')" "info \<in> set infos"
  shows "\<exists>v ns name. cc_contentGet cl (rf_backupHandle info) v = Inr (ns, name) \<and>
    meta_namespace (pvc_meta (tp_pvc (rf_pvc info))) \<in> {[], ns}"
  using assms(2,3)
proof (induction infos arbitrary: w ids w')
  case (Cons i infos)
  obtain ns name where g: "cc_contentGet cl (rf_backupHandle i) w = Inr (ns, name)"
    using Cons.prems(1) by (auto split: sum.splits)
  obtain created w1 where c: "cc_createClaim cl ns (claim_of i name) w = (Inr created, w1)"
    using Cons.prems(1) g by (auto split: sum.splits prod.splits)
  obtain ids' w2 where r: "create_claims cl infos w1 = (Inr ids', w2)"
    using Cons.prems(1) g c by (auto split: sum.splits prod.splits)
  have "cl_namespace (claim_of i name) \<in> {[], ns}"
    using assms(1) c by (auto simp: rejects_other_namespace_def) (metis fst_conv sum.disc(2))
  then show ?case using Cons.IH [OF r] Cons.prems(2) g by (auto simp: claim_of_def Let_def)
qed simp

section \<open>Witnesses\<close>

definition csi_demo_vbc :: VolumeBackupContent where
  "csi_demo_vbc = demo_vbc\<lparr>vb_sourceRef := Some ''snap''\<rparr>"

definition csi_demo_source :: pv_source where
  "csi_demo_source = \<lparr>src_csi = Some ''disk.csi'', src_aws = False, src_azureDisk = False, src_azureFile = False, src_cephFS = False\<rparr>"

definition csi_demo_env :: "VolumeBackupContent vb_env" where
  "csi_demo_env = (demo_vb csi_demo_vbc)\<lparr>
     bn_snapshotGet := (\<lambda>nm w. Inr [\<lparr>sst_pvc = \<lparr>rf_kind = [], rf_namespace = ''ns'', rf_name = ''data''\<rparr>,
       sst_csi = Some \<lparr>rf_kind = [], rf_namespace = ''ns'', rf_name = ''s1''\<rparr>\<rparr>]),
     bn_csiSnapshotGet := (\<lambda>ns nm w. Inr (Some ''content1'')), bn_csiContentGet := (\<lambda>nm w. Inr nm),
     bn_pvcGet := (\<lambda>ns nm w. Inr \<lparr>pvc_meta = zero_meta, pvc_volumeName = ''pv1'', pvc_storageClassName = None\<rparr>),
     bn_pvGet := (\<lambda>nm w. Inr \<lparr>pv_meta = zero_meta\<lparr>meta_name := nm\<rparr>, pv_source = csi_demo_source, pv_claimRef = None\<rparr>)\<rparr>"

theorem csi_backup_starts_witness:
  "\<exists>b'. fst (run_state (handleVolumeBackup (with_csi_backup csi_demo_env) csi_demo_vbc) demo_vbs) = Ret (b', None) \<and>
     map (\<lambda>st. (vs_backupHandle st, vs_volumeName st)) (vb_states b') = [(''content1'', ''pv1'')]"
proof -
  let ?p = "\<lparr>pv_meta = zero_meta\<lparr>meta_name := ''pv1''\<rparr>, pv_source = csi_demo_source, pv_claimRef = None\<rparr>"
  let ?req = "\<lparr>sq_content = vb_name csi_demo_vbc, sq_pvs = [], sq_info = [(''content1'', ?p)], sq_parameters = vb_parameters csi_demo_vbc\<rparr>"
  obtain r s' where run: "run_state (handleVolumeBackup (with_csi_backup csi_demo_env) csi_demo_vbc) demo_vbs = (r, s')" by fastforce
  have "constructBackupRequest csi_demo_env csi_demo_vbc (vo_world demo_vbs) = Ret (Inr (?req, {''pv1''}))"
    by (simp add: constructBackupRequest_def csi_demo_vbc_def getVolBackupReqByRef_def csi_demo_env_def getSnapshotBySnapshotState_def
        getPVBySnapshotState_def)
  from csi_backup_starts [OF this _ _ run] show ?thesis using run by (auto simp: csi_demo_vbc_def)
qed

end
