(* ===== verification/Discovery.thy ===== *)
theory Discovery
  imports Dependency
begin

text \<open>
  The table of API resources, \<^verbatim>\<open>discovery/discovery.go\<close>: it is filled from the server, indexed, and asked by the
  collectors, the dependency resolver and the restore.

  The index (\<^verbatim>\<open>client-go/tools/cache\<close>), the discovery client and its helpers are library code and parameters;
  what the code relies on is \<open>table_laws\<close> and \<open>helper_laws\<close>. The lock makes every operation a single step.
\<close>

section \<open>State and parameters\<close>

record api_entry = api_resource +
  ae_namespaced :: bool
  ae_verbs :: "string list"

text \<open>What the index holds are values of an interface type.\<close>

datatype iface = IResource api_entry | IOther string

record 'c table =
  tb_NewIndexer :: 'c
  tb_Add :: "(iface \<Rightarrow> goerr + string) \<Rightarrow> iface \<Rightarrow> 'c \<Rightarrow> goerr option \<times> 'c"
  tb_GetByKey :: "string \<Rightarrow> 'c \<Rightarrow> goerr + iface option"
  tb_ByIndex :: "(iface \<Rightarrow> string list) \<Rightarrow> string \<Rightarrow> 'c \<Rightarrow> goerr + iface list"
  tb_ListIndexFuncValues :: "(iface \<Rightarrow> string list) \<Rightarrow> 'c \<Rightarrow> string list"

record APIResourceList =
  rl_GroupVersion :: string
  rl_APIResources :: "api_entry list"

record 'w discovery_env =
  dc_ServerPreferredResources :: "'w \<Rightarrow> goerr + APIResourceList list"
  dc_ServerGroups :: "'w \<Rightarrow> goerr + string list"
  dc_ServerVersion :: "'w \<Rightarrow> goerr + string"
  dc_FilteredBy :: "(string \<Rightarrow> api_entry \<Rightarrow> bool) \<Rightarrow> APIResourceList list \<Rightarrow> APIResourceList list"
  dc_SupportsAllVerbs :: "string list \<Rightarrow> string \<Rightarrow> api_entry \<Rightarrow> bool"
  dc_ParseGroupVersion :: "string \<Rightarrow> goerr + string \<times> string"

record 'c discoverHelper =
  dh_resources :: "APIResourceList list"
  dh_k8sAPIGroups :: "string list"
  dh_k8sVersion :: "string option"
  dh_apiIndexedResources :: 'c

section \<open>Keys and indexes\<close>

fun getAPIResource :: "iface \<Rightarrow> goerr + api_entry" where
  "getAPIResource (IResource r) = Inr r"
| "getAPIResource (IOther t) = Inl (errorf (''invalid api resource format '' @ t))"

text \<open>\<^verbatim>\<open>GroupVersionKind.String\<close>, which both the key function and the lookup use.\<close>

definition gvkKey :: "string \<Rightarrow> string \<Rightarrow> string \<Rightarrow> string" where
  "gvkKey grp version kind = grp @ ''/'' @ version @ '', Kind='' @ kind"

definition gvkKeyFunc :: "iface \<Rightarrow> goerr + string" where
  "gvkKeyFunc obj = (case getAPIResource obj of Inl err \<Rightarrow> Inl err
     | Inr r \<Rightarrow> Inr (gvkKey (ar_group r) (ar_version r) (ar_kind r)))"

definition namespaceScopeIndex :: "iface \<Rightarrow> string list" where
  "namespaceScopeIndex obj = (case getAPIResource obj of Inl err \<Rightarrow> []
     | Inr r \<Rightarrow> if ae_namespaced r then [ar_kind r] else [])"

definition clusterScopeIndex :: "iface \<Rightarrow> string list" where
  "clusterScopeIndex obj = (case getAPIResource obj of Inl err \<Rightarrow> []
     | Inr r \<Rightarrow> if \<not> ae_namespaced r then [ar_kind r] else [])"

definition apiResourceByKindIndex :: "iface \<Rightarrow> string list" where
  "apiResourceByKindIndex obj = (case getAPIResource obj of Inl err \<Rightarrow> [] | Inr r \<Rightarrow> [ar_kind r])"

section \<open>Refreshing\<close>

definition filterByVerbs :: "'w discovery_env \<Rightarrow> string \<Rightarrow> api_entry \<Rightarrow> bool" where
  "filterByVerbs env groupVersion r = dc_SupportsAllVerbs env [''list'', ''create'', ''get'', ''delete''] groupVersion r"

definition with_gvk :: "string \<times> string \<Rightarrow> api_entry \<Rightarrow> api_entry" where
  "with_gvk gv r = r\<lparr>ar_group := fst gv, ar_version := snd gv\<rparr>"

text \<open>An entry that cannot be added is logged and skipped.\<close>

definition add_resources :: "'c table \<Rightarrow> string \<times> string \<Rightarrow> api_entry list \<Rightarrow> 'c \<Rightarrow> 'c" where
  "add_resources tb gv rs c = fold (\<lambda>r c. snd (tb_Add tb gvkKeyFunc (IResource (with_gvk gv r)) c)) rs c"

fun add_groups :: "'w discovery_env \<Rightarrow> 'c table \<Rightarrow> APIResourceList list \<Rightarrow> 'c \<Rightarrow> goerr option \<times> 'c" where
  "add_groups env tb [] c = (None, c)"
| "add_groups env tb (g # gs) c = (case dc_ParseGroupVersion env (rl_GroupVersion g) of
     Inl err \<Rightarrow> (Some (wrap err (''unable to parse GroupVersion '' @ rl_GroupVersion g)), c)
   | Inr gv \<Rightarrow> add_groups env tb gs (add_resources tb gv (rl_APIResources g) c))"

definition Refresh :: "'w discovery_env \<Rightarrow> 'c table \<Rightarrow> 'w \<Rightarrow> 'c discoverHelper \<Rightarrow> goerr option \<times> 'c discoverHelper" where
  "Refresh env tb w helper = (case dc_ServerPreferredResources env w of
     Inl err \<Rightarrow> (Some err, helper)
   | Inr apiResourcesList \<Rightarrow>
       let resources = dc_FilteredBy env (filterByVerbs env) apiResourcesList;
           (err, c) = add_groups env tb resources (tb_NewIndexer tb);
           h1 = helper\<lparr>dh_resources := resources, dh_apiIndexedResources := c\<rparr>
       in if err \<noteq> None then (err, h1)
          else (case dc_ServerGroups env w of
            Inl e \<Rightarrow> (Some e, h1)
          | Inr groups \<Rightarrow> (let h2 = h1\<lparr>dh_k8sAPIGroups := groups\<rparr> in
              case dc_ServerVersion env w of
                Inl e \<Rightarrow> (Some e, h2)
              | Inr v \<Rightarrow> (None, h2\<lparr>dh_k8sVersion := Some v\<rparr>))))"

definition NewDiscoveryHelper :: "'w discovery_env \<Rightarrow> 'c table \<Rightarrow> 'w \<Rightarrow> goerr + 'c discoverHelper" where
  "NewDiscoveryHelper env tb w =
     (case Refresh env tb w \<lparr>dh_resources = [], dh_k8sAPIGroups = [], dh_k8sVersion = None, dh_apiIndexedResources = tb_NewIndexer tb\<rparr> of
        (Some err, h) \<Rightarrow> Inl err | (None, h) \<Rightarrow> Inr h)"

section \<open>Asking\<close>

definition ByGroupVersionKind ::
  "'c table \<Rightarrow> 'c discoverHelper \<Rightarrow> string \<Rightarrow> string \<Rightarrow> string \<Rightarrow> goerr + (string \<times> string \<times> string) \<times> api_entry" where
  "ByGroupVersionKind tb helper grp version kind =
     (case tb_GetByKey tb (gvkKey grp version kind) (dh_apiIndexedResources helper) of
        Inr (Some obj) \<Rightarrow> (case getAPIResource obj of Inl err \<Rightarrow> Inl err
          | Inr r \<Rightarrow> Inr ((grp, version, ar_name r), r))
      | _ \<Rightarrow> Inl (errorf (''APIResource not found for GroupVersionKind '' @ gvkKey grp version kind)))"

fun get_resources :: "iface list \<Rightarrow> goerr + api_entry list" where
  "get_resources [] = Inr []"
| "get_resources (obj # objs) = (case getAPIResource obj of
     Inl err \<Rightarrow> Inl err
   | Inr r \<Rightarrow> (case get_resources objs of Inl err \<Rightarrow> Inl err | Inr rs \<Rightarrow> Inr (r # rs)))"

definition ByKind :: "'c table \<Rightarrow> 'c discoverHelper \<Rightarrow> string \<Rightarrow> goerr + api_entry \<times> api_entry list" where
  "ByKind tb helper kind = (case tb_ByIndex tb apiResourceByKindIndex kind (dh_apiIndexedResources helper) of
     Inl err \<Rightarrow> Inl (errorf (''APIResource not found for Kind '' @ kind))
   | Inr objs \<Rightarrow> (case get_resources objs of
       Inl err \<Rightarrow> Inl (wrap err ''invalid API resource in cache'')
     | Inr [] \<Rightarrow> Inl (errorf (''API resource not available for '' @ kind))
     | Inr (r # rs) \<Rightarrow> Inr (r, r # rs)))"

fun scoped :: "'c table \<Rightarrow> (iface \<Rightarrow> string list) \<Rightarrow> string \<Rightarrow> string list \<Rightarrow> 'c \<Rightarrow> goerr + api_entry list" where
  "scoped tb ix msg [] c = Inr []"
| "scoped tb ix msg (v # vs) c = (case tb_ByIndex tb ix v c of
     Inl err \<Rightarrow> Inl (wrap err msg)
   | Inr objs \<Rightarrow> (case get_resources objs of
       Inl err \<Rightarrow> Inl (wrap err msg)
     | Inr rs \<Rightarrow> (case scoped tb ix msg vs c of Inl err \<Rightarrow> Inl err | Inr rs' \<Rightarrow> Inr (rs @ rs'))))"

definition GetNamespaceScopedAPIResources :: "'c table \<Rightarrow> 'c discoverHelper \<Rightarrow> goerr + api_entry list" where
  "GetNamespaceScopedAPIResources tb helper = (let c = dh_apiIndexedResources helper in
     scoped tb namespaceScopeIndex ''unable to get namespace scoped index'' (tb_ListIndexFuncValues tb namespaceScopeIndex c) c)"

definition GetClusterScopedAPIResources :: "'c table \<Rightarrow> 'c discoverHelper \<Rightarrow> goerr + api_entry list" where
  "GetClusterScopedAPIResources tb helper = (let c = dh_apiIndexedResources helper in
     scoped tb clusterScopeIndex ''unable to get cluster scoped index'' (tb_ListIndexFuncValues tb clusterScopeIndex c) c)"

section \<open>What the code relies on\<close>

text \<open>The documented behaviour of the index. \<open>its\<close> reads its content as a map.\<close>

definition table_laws :: "'c table \<Rightarrow> ('c \<Rightarrow> string \<rightharpoonup> iface) \<Rightarrow> bool" where
  "table_laws tb its \<longleftrightarrow> its (tb_NewIndexer tb) = Map.empty \<and>
     (\<forall>kf obj k c. kf obj = Inr k \<longrightarrow> its (snd (tb_Add tb kf obj c)) = (its c)(k \<mapsto> obj)) \<and>
     (\<forall>k c. tb_GetByKey tb k c = Inr (its c k)) \<and>
     (\<forall>f v c. \<exists>l. tb_ByIndex tb f v c = Inr l \<and> distinct l \<and> set l = {obj \<in> ran (its c). v \<in> set (f obj)}) \<and>
     (\<forall>f c. distinct (tb_ListIndexFuncValues tb f c) \<and> (\<Union>obj \<in> ran (its c). set (f obj)) \<subseteq> set (tb_ListIndexFuncValues tb f c))"

definition flat :: "APIResourceList list \<Rightarrow> (string \<times> api_entry) list" where
  "flat ls = concat (map (\<lambda>g. map (Pair (rl_GroupVersion g)) (rl_APIResources g)) ls)"

text \<open>\<^verbatim>\<open>discovery.FilteredBy\<close> keeps the resources that satisfy a predicate.\<close>

definition helper_laws :: "'w discovery_env \<Rightarrow> bool" where
  "helper_laws env \<longleftrightarrow> (\<forall>P ls. flat (dc_FilteredBy env P ls) = filter (\<lambda>(g, r). P g r) (flat ls)) \<and>
     (\<forall>vs g r. dc_SupportsAllVerbs env vs g r \<longleftrightarrow> set vs \<subseteq> set (ae_verbs r))"

section \<open>The table after a refresh\<close>

definition gv_of :: "'w discovery_env \<Rightarrow> string \<Rightarrow> string \<times> string" where
  "gv_of env g = (case dc_ParseGroupVersion env g of Inl _ \<Rightarrow> ([], []) | Inr gv \<Rightarrow> gv)"

text \<open>The resources the server offers with all four verbs, under their group and version.\<close>

definition served :: "'w discovery_env \<Rightarrow> APIResourceList list \<Rightarrow> api_entry list" where
  "served env ls = map (\<lambda>(g, r). with_gvk (gv_of env g) r)
     (filter (\<lambda>(g, r). {''list'', ''create'', ''get'', ''delete''} \<subseteq> set (ae_verbs r)) (flat ls))"

definition entry_key :: "api_entry \<Rightarrow> string" where
  "entry_key r = gvkKey (ar_group r) (ar_version r) (ar_kind r)"

lemma add_resources_its:
  assumes "table_laws tb its"
  shows "its (add_resources tb gv rs c) = its c ++ map_of (rev (map (\<lambda>r. (entry_key (with_gvk gv r), IResource (with_gvk gv r))) rs))"
proof (induction rs arbitrary: c)
  case (Cons r rs)
  let ?r = "with_gvk gv r" and ?m = "map_of (rev (map (\<lambda>r. (entry_key (with_gvk gv r), IResource (with_gvk gv r))) rs))"
  have upd: "its (snd (tb_Add tb gvkKeyFunc (IResource ?r) c)) = (its c)(entry_key ?r \<mapsto> IResource ?r)"
    using assms by (simp add: table_laws_def gvkKeyFunc_def entry_key_def)
  have "its (add_resources tb gv (r # rs) c) = its (add_resources tb gv rs (snd (tb_Add tb gvkKeyFunc (IResource ?r) c)))"
    by (simp add: add_resources_def)
  also have "\<dots> = (its c)(entry_key ?r \<mapsto> IResource ?r) ++ ?m" by (simp only: Cons.IH upd)
  also have "\<dots> = its c ++ ([entry_key ?r \<mapsto> IResource ?r] ++ ?m)" by (simp add: map_add_assoc)
  finally show ?case by simp
qed (simp add: add_resources_def)

lemma add_groups_its:
  assumes "table_laws tb its" "add_groups env tb gs c = (None, c')"
  shows "its c' = its c ++ map_of (rev (map (\<lambda>(g, r). (entry_key (with_gvk (gv_of env g) r), IResource (with_gvk (gv_of env g) r))) (flat gs)))"
  using assms(2)
proof (induction gs arbitrary: c)
  case (Cons g gs)
  then obtain gv where gv: "dc_ParseGroupVersion env (rl_GroupVersion g) = Inr gv" by (auto split: sum.splits)
  then have r: "add_groups env tb gs (add_resources tb gv (rl_APIResources g) c) = (None, c')" using Cons.prems by simp
  have "gv_of env (rl_GroupVersion g) = gv" using gv by (simp add: gv_of_def)
  then show ?case using Cons.IH [OF r] add_resources_its [OF assms(1), of gv "rl_APIResources g" c]
    by (simp add: flat_def comp_def)
qed (simp add: flat_def)

lemma Refresh_its:
  assumes "table_laws tb its" "helper_laws env" "dc_ServerPreferredResources env w = Inr ls"
    and "Refresh env tb w h = (None, h')" "distinct (map entry_key (served env ls))"
  shows "its (dh_apiIndexedResources h') = map_of (map (\<lambda>r. (entry_key r, IResource r)) (served env ls))"
proof -
  let ?gs = "dc_FilteredBy env (filterByVerbs env) ls"
  obtain e c where ac: "add_groups env tb ?gs (tb_NewIndexer tb) = (e, c)" by fastforce
  then have e: "e = None" "dh_apiIndexedResources h' = c"
    using assms(3,4) by (auto simp: Refresh_def Let_def split: sum.splits if_splits)
  have flat: "flat ?gs = filter (\<lambda>(g, r). {''list'', ''create'', ''get'', ''delete''} \<subseteq> set (ae_verbs r)) (flat ls)"
    using assms(2) by (simp add: helper_laws_def filterByVerbs_def)
  have "its c = map_of (rev (map (\<lambda>r. (entry_key r, IResource r)) (served env ls)))"
    using add_groups_its [OF assms(1) ac [unfolded e(1)]] assms(1)
    by (simp add: table_laws_def flat served_def comp_def case_prod_unfold)
  moreover have "distinct (map fst (map (\<lambda>r. (entry_key r, IResource r)) (served env ls)))"
    using assms(5) by (simp add: comp_def)
  ultimately show ?thesis using e(2) map_of_inject_set [of "rev (map (\<lambda>r. (entry_key r, IResource r)) (served env ls))"]
    by (metis distinct_rev map_of_inject_set rev_map set_rev)
qed

text \<open>What the getters return for any content of the index.\<close>

definition valid_items :: "(string \<rightharpoonup> iface) \<Rightarrow> bool" where
  "valid_items m \<longleftrightarrow> (\<forall>obj \<in> ran m. \<exists>r. obj = IResource r)"

lemma get_resources_valid: "\<forall>obj \<in> set objs. \<exists>r. obj = IResource r \<Longrightarrow>
    \<exists>rs. get_resources objs = Inr rs \<and> objs = map IResource rs"
proof (induction objs)
  case (Cons obj objs)
  then obtain r rs where "obj = IResource r" "get_resources objs = Inr rs" "objs = map IResource rs" by auto
  then show ?case by (intro exI [of _ "r # rs"]) simp
qed simp

lemma ByIndex_law:
  "table_laws tb its \<Longrightarrow> \<exists>l. tb_ByIndex tb f v c = Inr l \<and> distinct l \<and> set l = {obj \<in> ran (its c). v \<in> set (f obj)}"
  by (simp add: table_laws_def)

lemma scoped_run:
  assumes "table_laws tb its" "valid_items (its c)" "distinct vs" "\<And>obj. length (ix obj) \<le> 1"
  shows "\<exists>rs. scoped tb ix msg vs c = Inr rs \<and> distinct rs \<and> set rs = {r. IResource r \<in> ran (its c) \<and> (\<exists>v \<in> set vs. v \<in> set (ix (IResource r)))}"
  using assms(3)
proof (induction vs)
  case (Cons v vs)
  obtain l where l: "tb_ByIndex tb ix v c = Inr l" "distinct l" "set l = {obj \<in> ran (its c). v \<in> set (ix obj)}"
    using ByIndex_law [OF assms(1), of ix v c] by blast
  obtain rs where rs: "get_resources l = Inr rs" "l = map IResource rs"
    using get_resources_valid [of l] assms(2) l(3) by (auto simp: valid_items_def)
  obtain rs' where r: "scoped tb ix msg vs c = Inr rs'" "distinct rs'"
      "set rs' = {r. IResource r \<in> ran (its c) \<and> (\<exists>v \<in> set vs. v \<in> set (ix (IResource r)))}"
    using Cons by auto
  have here: "r \<in> set rs \<longleftrightarrow> IResource r \<in> ran (its c) \<and> v \<in> set (ix (IResource r))" for r
  proof -
    have "r \<in> set rs \<longleftrightarrow> IResource r \<in> set l" using rs(2) by auto
    then show ?thesis using l(3) by simp
  qed
  have one: "a = b" if "a \<in> set (ix obj)" "b \<in> set (ix obj)" for a b obj
    using that assms(4) [of obj] by (cases "ix obj") auto
  have "distinct rs" using l(2) rs(2) by (simp add: distinct_map)
  moreover have "x \<notin> set rs'" if "x \<in> set rs" for x
  proof
    assume "x \<in> set rs'"
    then obtain u where "u \<in> set vs" "u \<in> set (ix (IResource x))" using r(3) by auto
    moreover have "v \<in> set (ix (IResource x))" using here that by simp
    ultimately show False using one [of u "IResource x" v] Cons.prems by auto
  qed
  ultimately show ?case using l(1) rs(1) r here by auto
qed simp

lemma in_ran_table:
  assumes "m = map_of (map (\<lambda>r. (entry_key r, IResource r)) rs)" "distinct (map entry_key rs)"
  shows "ran m = IResource ` set rs"
proof -
  have "distinct (map fst (map (\<lambda>r. (entry_key r, IResource r)) rs))" using assms(2) by (simp add: comp_def)
  from ran_distinct [OF this] show ?thesis unfolding assms(1) by force
qed

lemma scoped_after_refresh:
  assumes "table_laws tb its" "its (dh_apiIndexedResources h) = map_of (map (\<lambda>r. (entry_key r, IResource r)) rs)"
    and "distinct (map entry_key rs)" "\<And>obj. length (ix obj) \<le> 1" "\<And>r. ix (IResource r) \<noteq> [] \<longleftrightarrow> P r"
  shows "\<exists>l. scoped tb ix msg (tb_ListIndexFuncValues tb ix (dh_apiIndexedResources h)) (dh_apiIndexedResources h) = Inr l \<and>
    distinct l \<and> set l = {r \<in> set rs. P r}"
proof -
  let ?c = "dh_apiIndexedResources h" and ?vs = "tb_ListIndexFuncValues tb ix (dh_apiIndexedResources h)"
  have ran: "ran (its ?c) = IResource ` set rs" by (rule in_ran_table [OF assms(2,3)])
  have vs: "distinct ?vs" "(\<Union>obj \<in> ran (its ?c). set (ix obj)) \<subseteq> set ?vs" using assms(1) by (auto simp: table_laws_def)
  have "valid_items (its ?c)" by (auto simp: valid_items_def ran)
  from scoped_run [where ix = ix and msg = msg, OF assms(1) this vs(1) assms(4)] obtain l where
    l: "scoped tb ix msg ?vs ?c = Inr l" "distinct l"
      "set l = {r. IResource r \<in> ran (its ?c) \<and> (\<exists>v \<in> set ?vs. v \<in> set (ix (IResource r)))}" by blast
  have "set l = {r \<in> set rs. P r}"
  proof (intro set_eqI)
    fix r
    have "(\<exists>v \<in> set ?vs. v \<in> set (ix (IResource r))) \<longleftrightarrow> ix (IResource r) \<noteq> []" if "IResource r \<in> ran (its ?c)"
    proof -
      have "set (ix (IResource r)) \<subseteq> set ?vs" using that vs(2) by blast
      then show ?thesis by (cases "ix (IResource r)") auto
    qed
    then show "r \<in> set l \<longleftrightarrow> r \<in> {r \<in> set rs. P r}"
      using l(3) ran assms(5) [of r] by auto
  qed
  then show ?thesis using l by blast
qed

text \<open>C29: after a refresh that reports no error the table is exact: the namespaced resources and the cluster scoped ones
  are, each once, those the server offers with the four verbs a backup needs, and a lookup by group, version and kind
  finds the resource with its name. The server names a kind once in a group version, which is the hypothesis on the keys.\<close>

theorem refreshed_table_exact:
  assumes "table_laws tb its" "helper_laws env" "dc_ServerPreferredResources env w = Inr ls"
    and "distinct (map entry_key (served env ls))" "Refresh env tb w h = (None, h')"
  shows "(\<exists>l. GetNamespaceScopedAPIResources tb h' = Inr l \<and> distinct l \<and> set l = {r \<in> set (served env ls). ae_namespaced r}) \<and>
    (\<exists>l. GetClusterScopedAPIResources tb h' = Inr l \<and> distinct l \<and> set l = {r \<in> set (served env ls). \<not> ae_namespaced r}) \<and>
    list_all (\<lambda>r. ByGroupVersionKind tb h' (ar_group r) (ar_version r) (ar_kind r) = Inr ((ar_group r, ar_version r, ar_name r), r)) (served env ls)"
proof (intro conjI)
  note its = Refresh_its [OF assms(1,2,3,5,4)]
  show "\<exists>l. GetNamespaceScopedAPIResources tb h' = Inr l \<and> distinct l \<and> set l = {r \<in> set (served env ls). ae_namespaced r}"
    unfolding GetNamespaceScopedAPIResources_def Let_def
    by (rule scoped_after_refresh [OF assms(1) its assms(4)]) (auto simp: namespaceScopeIndex_def split: sum.split)
  show "\<exists>l. GetClusterScopedAPIResources tb h' = Inr l \<and> distinct l \<and> set l = {r \<in> set (served env ls). \<not> ae_namespaced r}"
    unfolding GetClusterScopedAPIResources_def Let_def
    by (rule scoped_after_refresh [OF assms(1) its assms(4)]) (auto simp: clusterScopeIndex_def split: sum.split)
  have "map_of (map (\<lambda>r. (entry_key r, IResource r)) (served env ls)) (entry_key r) = Some (IResource r)" if "r \<in> set (served env ls)" for r
    using that assms(4) by (intro map_of_is_SomeI) (auto simp: comp_def)
  then have "ByGroupVersionKind tb h' (ar_group r) (ar_version r) (ar_kind r) = Inr ((ar_group r, ar_version r, ar_name r), r)"
    if "r \<in> set (served env ls)" for r
    using that assms(1) its by (simp add: ByGroupVersionKind_def table_laws_def entry_key_def)
  then show "list_all (\<lambda>r. ByGroupVersionKind tb h' (ar_group r) (ar_version r) (ar_kind r) = Inr ((ar_group r, ar_version r, ar_name r), r)) (served env ls)"
    by (simp add: list_all_iff)
qed

text \<open>
  A group version that cannot be parsed leaves a table of the groups before it, together with the full list of
  resources: until the next refresh the kinds of the other groups are not found.
\<close>

theorem failed_refresh_truncates:
  assumes "dc_ServerPreferredResources env w = Inr ls" "dc_FilteredBy env (filterByVerbs env) ls = gs @ g # gs'"
    and "add_groups env tb gs (tb_NewIndexer tb) = (None, c)" "dc_ParseGroupVersion env (rl_GroupVersion g) = Inl err"
  shows "\<exists>e. fst (Refresh env tb w h) = Some e \<and> dh_apiIndexedResources (snd (Refresh env tb w h)) = c \<and>
    dh_resources (snd (Refresh env tb w h)) = gs @ g # gs'"
proof -
  have "add_groups env tb (gs @ xs) c0 = (case add_groups env tb gs c0 of (None, c) \<Rightarrow> add_groups env tb xs c | (Some e, c) \<Rightarrow> (Some e, c))" for xs c0
    by (induction gs arbitrary: c0) (auto split: sum.splits)
  then show ?thesis using assms by (simp add: Refresh_def Let_def)
qed

section \<open>A concrete table\<close>

definition table_vals :: "(string \<times> iface) list \<Rightarrow> iface list" where
  "table_vals c = remdups (map (\<lambda>k. the (map_of c k)) (map fst c))"

lemma set_table_vals: "set (table_vals c) = ran (map_of c)"
proof -
  have "set (table_vals c) = (\<lambda>k. the (map_of c k)) ` dom (map_of c)" by (simp add: table_vals_def dom_map_of_conv_image_fst image_image)
  then show ?thesis by (force simp: ran_def)
qed

definition alist_table :: "(string \<times> iface) list table" where
  "alist_table = \<lparr>tb_NewIndexer = [], tb_Add = (\<lambda>kf obj c. case kf obj of Inl e \<Rightarrow> (Some e, c) | Inr k \<Rightarrow> (None, (k, obj) # c)),
     tb_GetByKey = (\<lambda>k c. Inr (map_of c k)), tb_ByIndex = (\<lambda>f v c. Inr (filter (\<lambda>obj. v \<in> set (f obj)) (table_vals c))),
     tb_ListIndexFuncValues = (\<lambda>f c. remdups (concat (map f (table_vals c))))\<rparr>"

lemma alist_table_laws: "table_laws alist_table map_of"
  by (auto simp: table_laws_def alist_table_def set_table_vals [symmetric]) (simp_all add: table_vals_def)

definition keep_supported :: "(string \<Rightarrow> api_entry \<Rightarrow> bool) \<Rightarrow> APIResourceList list \<Rightarrow> APIResourceList list" where
  "keep_supported P = map (\<lambda>g. g\<lparr>rl_APIResources := filter (P (rl_GroupVersion g)) (rl_APIResources g)\<rparr>)"

definition demo_lists :: "APIResourceList list" where
  "demo_lists = [\<lparr>rl_GroupVersion = ''v1'', rl_APIResources = [\<lparr>ar_name = ''pods'', ar_group = [], ar_version = [], ar_kind = ''Pod'',
     ae_namespaced = True, ae_verbs = [''get'', ''list'', ''create'', ''delete'']\<rparr>, \<lparr>ar_name = ''bindings'', ar_group = [], ar_version = [],
     ar_kind = ''Binding'', ae_namespaced = True, ae_verbs = [''create'']\<rparr>]\<rparr>]"

definition demo_discovery :: "unit discovery_env" where
  "demo_discovery = \<lparr>dc_ServerPreferredResources = (\<lambda>w. Inr demo_lists), dc_ServerGroups = (\<lambda>w. Inr []), dc_ServerVersion = (\<lambda>w. Inr ''v1.24''),
     dc_FilteredBy = keep_supported, dc_SupportsAllVerbs = (\<lambda>vs g r. set vs \<subseteq> set (ae_verbs r)), dc_ParseGroupVersion = (\<lambda>g. Inr ([], g))\<rparr>"

lemma demo_helper_laws: "helper_laws demo_discovery"
proof -
  have "flat (keep_supported P ls) = filter (\<lambda>(g, r). P g r) (flat ls)" for P ls
    by (induction ls) (auto simp: flat_def keep_supported_def filter_map comp_def)
  then show ?thesis by (simp add: helper_laws_def demo_discovery_def)
qed

definition empty_helper :: "(string \<times> iface) list discoverHelper" where
  "empty_helper = \<lparr>dh_resources = [], dh_k8sAPIGroups = [], dh_k8sVersion = None, dh_apiIndexedResources = []\<rparr>"

lemma list_of_singleton: "distinct l \<Longrightarrow> set l = {x} \<Longrightarrow> l = [x]"
proof (cases l)
  case (Cons a b)
  assume "distinct l" "set l = {x}"
  then have "set b \<subseteq> {x}" "x \<notin> set b" "a = x" using Cons by auto
  then show "l = [x]" using Cons by (cases b) auto
qed simp

theorem refreshed_table_exact_witness:
  "\<exists>l. GetNamespaceScopedAPIResources alist_table (snd (Refresh demo_discovery alist_table () empty_helper)) = Inr l \<and> map ar_name l = [''pods'']"
proof -
  have sv: "served demo_discovery demo_lists = [\<lparr>ar_name = ''pods'', ar_group = [], ar_version = ''v1'', ar_kind = ''Pod'',
      ae_namespaced = True, ae_verbs = [''get'', ''list'', ''create'', ''delete'']\<rparr>]"
    by (simp add: served_def flat_def demo_lists_def with_gvk_def gv_of_def demo_discovery_def)
  obtain e h' where run: "Refresh demo_discovery alist_table () empty_helper = (e, h')" by fastforce
  have "fst (add_groups demo_discovery tb gs c) = None" for tb :: "(string \<times> iface) list table" and gs c
    by (induction gs arbitrary: c) (auto simp: demo_discovery_def)
  moreover have "dc_ServerPreferredResources demo_discovery () = Inr demo_lists" "dc_ServerGroups demo_discovery () = Inr []"
    "dc_ServerVersion demo_discovery () = Inr ''v1.24''" by (simp_all add: demo_discovery_def)
  ultimately have "fst (Refresh demo_discovery alist_table () empty_helper) = None"
    by (simp add: Refresh_def Let_def case_prod_unfold)
  then have ok: "Refresh demo_discovery alist_table () empty_helper = (None, h')" using run by simp
  have sup: "dc_ServerPreferredResources demo_discovery () = Inr demo_lists" by (simp add: demo_discovery_def)
  have dist: "distinct (map entry_key (served demo_discovery demo_lists))" unfolding sv by simp
  note exact = refreshed_table_exact [OF alist_table_laws demo_helper_laws sup dist ok, THEN conjunct1]
  obtain l where l: "GetNamespaceScopedAPIResources alist_table h' = Inr l" "distinct l"
      "set l = {r \<in> set (served demo_discovery demo_lists). ae_namespaced r}"
    using exact by (elim exE conjE)
  have "set l = {hd (served demo_discovery demo_lists)}" unfolding l(3) sv by auto
  from list_of_singleton [OF l(2) this] have "map ar_name l = [''pods'']" unfolding sv by simp
  then show ?thesis using run l(1) by simp
qed

end
