(* ===== verification/Identity.thy ===== *)
theory Identity
  imports Kahu_Prelude
begin

text \<open>
  Registration of a provider with the cluster, \<^verbatim>\<open>providerframework/identityservice/\<close>: the side car asks the
  provider for its name and capabilities and creates a \<^verbatim>\<open>Provider\<close> object for it.

  The provider, the API server, the client factory and the generated table of capability names are parameters.
\<close>

section \<open>Objects and environment\<close>

datatype ProviderType = ProviderTypeMetadata | ProviderTypeVolume

datatype ProviderState = ProviderStateAvailable | ProviderStateUnavailable

record ProviderInfo =
  pi_provider :: string
  pi_version :: string
  pi_manifest :: "string \<rightharpoonup> string"

record Provider =
  pc_name :: string
  pc_version :: string
  pc_type :: ProviderType
  pc_manifest :: "string \<rightharpoonup> string"
  pc_capabilities :: "string \<rightharpoonup> bool"
  pc_annotations :: "string \<rightharpoonup> string"
  pc_supportedVolumeProvisioners :: "string list"
  pc_state :: "ProviderState option"

text \<open>A capability may be a nil pointer (\<open>None\<close>) or something else than a service (\<open>Some None\<close>).\<close>

record 'w identity_env =
  id_GetProviderInfo :: "'w \<Rightarrow> (goerr + ProviderInfo) \<times> 'w"
  id_GetProviderCapabilities :: "'w \<Rightarrow> (goerr + int option option list) \<times> 'w"
  id_Service_Type_name :: "int \<Rightarrow> string"
  id_KahuClient :: "'w \<Rightarrow> goerr option"
  id_Get :: "string \<Rightarrow> 'w \<Rightarrow> (goerr + Provider) \<times> 'w"
  id_Create :: "Provider \<Rightarrow> 'w \<Rightarrow> (goerr + Provider) \<times> 'w"
  id_UpdateStatus :: "Provider \<Rightarrow> 'w \<Rightarrow> (goerr + Provider) \<times> 'w"

section \<open>Asking the provider\<close>

definition GetProviderInfo :: "'w identity_env \<Rightarrow> 'w \<Rightarrow> (goerr + ProviderInfo) \<times> 'w" where
  "GetProviderInfo env w = (case id_GetProviderInfo env w of
     (Inl err, w1) \<Rightarrow> (Inl err, w1)
   | (Inr rsp, w1) \<Rightarrow>
       (if pi_provider rsp = [] then Inl (errorf ''provider name is empty'')
        else if pi_version rsp = [] then Inl (errorf ''version is empty'') else Inr rsp, w1))"

definition capability_names :: "'w identity_env \<Rightarrow> int option option list \<Rightarrow> string \<rightharpoonup> bool" where
  "capability_names env rsp = fold (\<lambda>capability caps. case capability of None \<Rightarrow> caps
     | Some None \<Rightarrow> caps | Some (Some t) \<Rightarrow> caps(id_Service_Type_name env t \<mapsto> True)) rsp Map.empty"

definition GetProviderCapabilities :: "'w identity_env \<Rightarrow> 'w \<Rightarrow> (goerr + (string \<rightharpoonup> bool)) \<times> 'w" where
  "GetProviderCapabilities env w = (case id_GetProviderCapabilities env w of
     (Inl err, w1) \<Rightarrow> (Inl err, w1) | (Inr rsp, w1) \<Rightarrow> (Inr (capability_names env rsp), w1))"

section \<open>Registering it\<close>

definition new_provider :: "ProviderInfo \<Rightarrow> ProviderType \<Rightarrow> (string \<rightharpoonup> bool) \<Rightarrow> Provider" where
  "new_provider info ty caps = \<lparr>pc_name = pi_provider info, pc_version = pi_version info, pc_type = ty, pc_manifest = pi_manifest info,
     pc_capabilities = caps, pc_annotations = Map.empty, pc_supportedVolumeProvisioners = [], pc_state = None\<rparr>"

definition createProviderCR ::
  "'w identity_env \<Rightarrow> ProviderInfo \<Rightarrow> ProviderType \<Rightarrow> (string \<rightharpoonup> bool) \<Rightarrow> 'w \<Rightarrow> (goerr + Provider) \<times> 'w" where
  "createProviderCR env info ty caps w = (case id_KahuClient env w of Some err \<Rightarrow> (Inl err, w)
   | None \<Rightarrow> (case id_Get env (pi_provider info) w of
       (Inr p, w1) \<Rightarrow> (Inr p, w1)
     | (Inl err, w1) \<Rightarrow> if \<not> IsNotFound (Some err) then (Inl err, w1)
         else (case id_Create env (new_provider info ty caps) w1 of
             (Inl err, w2) \<Rightarrow> (Inl err, w2)
           | (Inr p, w2) \<Rightarrow> id_UpdateStatus env (p\<lparr>pc_state := Some ProviderStateAvailable\<rparr>) w2)))"

definition registerProvider :: "'w identity_env \<Rightarrow> ProviderType \<Rightarrow> 'w \<Rightarrow> (goerr + Provider) \<times> 'w" where
  "registerProvider env ty w = (case GetProviderInfo env w of
     (Inl err, w1) \<Rightarrow> (Inl err, w1)
   | (Inr info, w1) \<Rightarrow> (case GetProviderCapabilities env w1 of
       (Inl err, w2) \<Rightarrow> (Inl err, w2)
     | (Inr caps, w2) \<Rightarrow> createProviderCR env info ty caps w2))"

definition RegisterMetadataProvider :: "'w identity_env \<Rightarrow> 'w \<Rightarrow> (goerr + Provider) \<times> 'w" where
  "RegisterMetadataProvider env = registerProvider env ProviderTypeMetadata"

definition RegisterVolumeProvider :: "'w identity_env \<Rightarrow> 'w \<Rightarrow> (goerr + Provider) \<times> 'w" where
  "RegisterVolumeProvider env = registerProvider env ProviderTypeVolume"

section \<open>What is registered\<close>

lemma capability_names_iff:
  "capability_names env rsp k = (if k \<in> id_Service_Type_name env ` {t. Some (Some t) \<in> set rsp} then Some True else None)"
proof -
  have "fold (\<lambda>capability caps. case capability of None \<Rightarrow> caps | Some None \<Rightarrow> caps
      | Some (Some t) \<Rightarrow> caps(id_Service_Type_name env t \<mapsto> True)) rsp m k =
    (if k \<in> id_Service_Type_name env ` {t. Some (Some t) \<in> set rsp} then Some True else m k)" for m
    by (induction rsp arbitrary: m) (auto split: option.splits)
  then show ?thesis by (simp add: capability_names_def)
qed

text \<open>A server that stores providers by name. Creating and updating may fail; only an update of the status writes the state.\<close>

record provider_world =
  pw_stored :: "string \<rightharpoonup> Provider"
  pw_failures :: "goerr option list"

definition next_failure :: "provider_world \<Rightarrow> goerr option \<times> provider_world" where
  "next_failure w = (case pw_failures w of [] \<Rightarrow> (None, w) | f # fs \<Rightarrow> (f, w\<lparr>pw_failures := fs\<rparr>))"

definition server_Get :: "string \<Rightarrow> provider_world \<Rightarrow> (goerr + Provider) \<times> provider_world" where
  "server_Get nm w = (case next_failure w of (Some e, w1) \<Rightarrow> (Inl e, w1)
     | (None, w1) \<Rightarrow> (case pw_stored w1 nm of None \<Rightarrow> (Inl (GoErr NotFound ''not found''), w1) | Some p \<Rightarrow> (Inr p, w1)))"

definition server_Create :: "Provider \<Rightarrow> provider_world \<Rightarrow> (goerr + Provider) \<times> provider_world" where
  "server_Create p w = (case next_failure w of (Some e, w1) \<Rightarrow> (Inl e, w1)
     | (None, w1) \<Rightarrow> if pw_stored w1 (pc_name p) \<noteq> None then (Inl (GoErr AlreadyExists ''already exists''), w1)
         else (Inr (p\<lparr>pc_state := None\<rparr>), w1\<lparr>pw_stored := (pw_stored w1)(pc_name p \<mapsto> p\<lparr>pc_state := None\<rparr>)\<rparr>))"

definition server_UpdateStatus :: "Provider \<Rightarrow> provider_world \<Rightarrow> (goerr + Provider) \<times> provider_world" where
  "server_UpdateStatus p w = (case next_failure w of (Some e, w1) \<Rightarrow> (Inl e, w1)
     | (None, w1) \<Rightarrow> (case pw_stored w1 (pc_name p) of None \<Rightarrow> (Inl (GoErr NotFound ''not found''), w1)
         | Some q \<Rightarrow> (Inr (q\<lparr>pc_state := pc_state p\<rparr>), w1\<lparr>pw_stored := (pw_stored w1)(pc_name p \<mapsto> q\<lparr>pc_state := pc_state p\<rparr>)\<rparr>)))"

definition server_env :: "goerr + ProviderInfo \<Rightarrow> goerr + int option option list \<Rightarrow> (int \<Rightarrow> string) \<Rightarrow> provider_world identity_env" where
  "server_env info caps names = \<lparr>id_GetProviderInfo = Pair info, id_GetProviderCapabilities = Pair caps, id_Service_Type_name = names,
     id_KahuClient = (\<lambda>w. None), id_Get = server_Get, id_Create = server_Create, id_UpdateStatus = server_UpdateStatus\<rparr>"

text \<open>A registration that succeeds has left a stored provider under the announced name. If there was none it is new,
  available, and carries what the provider announced; if there was one it is as it was.\<close>

theorem registered_is_stored:
  assumes "registerProvider (server_env (Inr info) (Inr caps) names) ty w = (Inr p, w')"
  shows "pw_stored w' (pi_provider info) = Some p \<and>
    (pw_stored w (pi_provider info) = Some p \<or> pw_stored w (pi_provider info) = None \<and>
       p = (new_provider info ty (capability_names (server_env (Inr info) (Inr caps) names) caps))\<lparr>pc_state := Some ProviderStateAvailable\<rparr> \<and>
       pi_provider info \<noteq> [] \<and> pi_version info \<noteq> [])"
  using assms
  by (auto simp: registerProvider_def GetProviderInfo_def GetProviderCapabilities_def createProviderCR_def server_Get_def
      server_Create_def server_UpdateStatus_def next_failure_def new_provider_def server_env_def capability_names_def
      split: list.splits option.splits prod.splits if_splits)

text \<open>A registration whose status update fails leaves a provider without a state, and no later registration mends
  it: the provider is found and returned.\<close>

theorem half_registered_stays:
  assumes "pi_provider info \<noteq> []" "pi_version info \<noteq> []" "pw_stored w (pi_provider info) = None" "pw_failures w = [None, None, Some e]"
    and "registerProvider (server_env (Inr info) (Inr caps) names) ty w = (r, w')"
  shows "r = Inl e \<and> (\<exists>p. registerProvider (server_env (Inr info) (Inr caps) names) ty w' = (Inr p, w') \<and> pc_state p = None)"
  using assms
  by (auto simp: registerProvider_def GetProviderInfo_def GetProviderCapabilities_def createProviderCR_def server_Get_def
      server_Create_def server_UpdateStatus_def next_failure_def new_provider_def server_env_def)

end
