(* ===== verification/Startup.thy ===== *)
theory Startup
  imports Identity Archive Backup_Safety
begin

text \<open>
  Start-up of the services up to the point where they serve: the readiness probe (\<^verbatim>\<open>utils/utils.go\<close>), the metadata
  service (\<^verbatim>\<open>providerframework/metaservice/app/\<close>), the volume service
  (\<^verbatim>\<open>providerframework/volumeservice/app/app.go\<close>) and the choice of controllers
  (\<^verbatim>\<open>controllers/manager/controllermanager.go\<close>).

  Command line parsing, leader election and the serving itself are library code. What happens is logged. The
  probe may wait for ever, so a start returns an option.
\<close>

section \<open>Endpoints\<close>

definition strings_HasPrefix :: "string \<Rightarrow> string \<Rightarrow> bool" where
  "strings_HasPrefix s prefix \<longleftrightarrow> take (length prefix) s = prefix"

definition unixPrefix :: string where "unixPrefix = ''unix://''"

text \<open>\<^verbatim>\<open>GetGRPCConnection\<close> and \<^verbatim>\<open>NewBackupRepository\<close> dial what this returns.\<close>

definition GetGRPCConnection_endpoint :: "string \<Rightarrow> goerr + string" where
  "GetGRPCConnection_endpoint endpoint = (let e = (if strings_HasPrefix endpoint ''/'' then unixPrefix @ endpoint else endpoint) in
     if \<not> strings_HasPrefix e unixPrefix then Inl (errorf (''invalid unix domain path ['' @ e @ '']'')) else Inr e)"

definition NewBackupRepository_address :: "string \<Rightarrow> goerr + string" where
  "NewBackupRepository_address addr = (let a = (if strings_HasPrefix addr ''/'' then unixPrefix @ addr else addr) in
     if \<not> strings_HasPrefix a unixPrefix then Inl (errorf (''invalid unix domain path ['' @ a @ '']'')) else Inr a)"

section \<open>The readiness probe\<close>

text \<open>An answer, which may lack the flag, or an error: without a gRPC status, a deadline, or another code.\<close>

datatype probe_answer = Ready "bool option" | NoStatus string | DeadlineExceeded | OtherCode string

fun probe_verdict :: "probe_answer \<Rightarrow> goerr option option" where
  "probe_verdict (Ready None) = Some None"
| "probe_verdict (Ready (Some b)) = (if b then Some None else None)"
| "probe_verdict (NoStatus msg) = Some (Some (errorf (''driver probe failed: '' @ msg)))"
| "probe_verdict DeadlineExceeded = None"
| "probe_verdict (OtherCode msg) = Some (Some (errorf (''driver probe failed: '' @ msg)))"

partial_function (option) Probe :: "('w \<Rightarrow> probe_answer \<times> 'w) \<Rightarrow> 'w \<Rightarrow> (goerr option \<times> 'w) option" where
  "Probe ask_driver w = (case ask_driver w of (a, w1) \<Rightarrow>
     (case probe_verdict a of Some r \<Rightarrow> Some (r, w1) | None \<Rightarrow> Probe ask_driver w1))"

section \<open>Flags of the metadata service\<close>

record MetaServiceFlags =
  mf_Port :: nat
  mf_Address :: string
  mf_CompressionFormat :: string
  mf_ArchivalYard :: string
  mf_BackupDriverAddress :: string
  mf_DeployedNamespace :: string
  mf_ServiceName :: string

definition NewMetaServiceFlags :: MetaServiceFlags where
  "NewMetaServiceFlags = \<lparr>mf_Port = 443, mf_Address = ''0.0.0.0'', mf_CompressionFormat = GZipType, mf_ArchivalYard = ''/tmp'',
     mf_BackupDriverAddress = ''/tmp/nfs.sock'', mf_DeployedNamespace = ''default'', mf_ServiceName = ''metadata-service''\<rparr>"

text \<open>\<^verbatim>\<open>net.ParseIP\<close> and \<^verbatim>\<open>os.Stat\<close> are parameters.\<close>

definition flags_Apply :: "(string \<Rightarrow> bool) \<Rightarrow> (string \<Rightarrow> goerr option) \<Rightarrow> plugins \<Rightarrow> MetaServiceFlags \<Rightarrow> goerr option" where
  "flags_Apply parseIP stat pl options =
     (if mf_Port options \<le> 0 then Some (errorf ''invalid port'')
      else if \<not> parseIP (mf_Address options) then Some (errorf (''invalid address '' @ mf_Address options))
      else if \<not> CheckWriterCompressor pl (mf_CompressionFormat options)
        then Some (errorf (''invalid compression type '' @ mf_CompressionFormat options))
      else if IsNotFound (stat (mf_ArchivalYard options))
        then Some (errorf (''archival temporary directory('' @ mf_ArchivalYard options @ '') does not exist''))
      else if mf_BackupDriverAddress options = [] then Some (errorf ''backup driver address can not be empty'')
      else if mf_DeployedNamespace options = [] then Some (errorf ''namespace can not be empty'')
      else if mf_ServiceName options = [] then Some (errorf ''name can not be empty'')
      else None)"

section \<open>Starting the metadata service\<close>

datatype boot_event =
    BootProbe
  | BootRegister ProviderType "goerr + Provider"
  | BootPatch Provider Provider bool
  | BootServe

text \<open>A start ends with a value, or the process exits (\<^verbatim>\<open>log.Fatal\<close>).\<close>

datatype boot_end = Returned "goerr option" | Exited

record 'w boot_env =
  bt_identity :: "'w identity_env"
  bt_listen :: "string \<Rightarrow> nat \<Rightarrow> 'w \<Rightarrow> goerr option"
  bt_dial :: "string \<Rightarrow> 'w \<Rightarrow> goerr option"
  bt_probe :: "'w \<Rightarrow> probe_answer \<times> 'w"
  bt_mergePatch :: "Provider \<Rightarrow> Provider \<Rightarrow> goerr + string"
  bt_Patch :: "string \<Rightarrow> string \<Rightarrow> 'w \<Rightarrow> (goerr + Provider) \<times> 'w"
  bt_showPort :: "nat \<Rightarrow> string"

definition serviceAnnotation :: string where "serviceAnnotation = ''kahu.io/provider-service''"

definition patchProvider :: "'w boot_env \<Rightarrow> Provider \<Rightarrow> Provider \<Rightarrow> 'w \<Rightarrow> goerr option \<times> boot_event list \<times> 'w" where
  "patchProvider env p clone w = (case bt_mergePatch env p clone of
     Inl err \<Rightarrow> (Some (wrap err ''error creating json merge patch for backup''), [], w)
   | Inr bytes \<Rightarrow> (case id_KahuClient (bt_identity env) w of
       Some err \<Rightarrow> (Some err, [], w)
     | None \<Rightarrow> (case bt_Patch env (pc_name p) bytes w of
         (Inl err, w1) \<Rightarrow> (Some (wrap err ''error annotating volume backup completeness''), [BootPatch p clone False], w1)
       | (Inr q, w1) \<Rightarrow> (None, [BootPatch p clone True], w1))))"

definition annotateProvider :: "'w boot_env \<Rightarrow> string \<Rightarrow> string \<Rightarrow> Provider \<Rightarrow> 'w \<Rightarrow> goerr option \<times> boot_event list \<times> 'w" where
  "annotateProvider env annotation val p w = patchProvider env p (p\<lparr>pc_annotations := (pc_annotations p)(annotation \<mapsto> val)\<rparr>) w"

definition serviceAddress :: "'w boot_env \<Rightarrow> MetaServiceFlags \<Rightarrow> string" where
  "serviceAddress env opts = mf_ServiceName opts @ ''.'' @ mf_DeployedNamespace opts @ '':'' @ bt_showPort env (mf_Port opts)"

text \<open>The run ends, without an error, when the context is cancelled.\<close>

definition ms_Run :: "'w boot_env \<Rightarrow> MetaServiceFlags \<Rightarrow> 'w \<Rightarrow> (boot_end \<times> boot_event list \<times> 'w) option" where
  "ms_Run env opts w =
     (if bt_listen env (mf_Address opts) (mf_Port opts) w \<noteq> None then Some (Exited, [], w)
      else (case NewBackupRepository_address (mf_BackupDriverAddress opts) of
        Inl err \<Rightarrow> Some (Returned (Some err), [], w)
      | Inr addr \<Rightarrow> (case bt_dial env addr w of
          Some err \<Rightarrow> Some (Returned (Some err), [], w)
        | None \<Rightarrow> (case Probe (bt_probe env) w of
            None \<Rightarrow> None
          | Some (Some err, w1) \<Rightarrow> Some (Returned (Some err), [], w1)
          | Some (None, w1) \<Rightarrow> (case RegisterMetadataProvider (bt_identity env) w1 of
              (Inl err, w2) \<Rightarrow> Some (Returned (Some err), [BootProbe, BootRegister ProviderTypeMetadata (Inl err)], w2)
            | (Inr p, w2) \<Rightarrow> (case annotateProvider env serviceAnnotation (serviceAddress env opts) p w2 of
                (err, l, w3) \<Rightarrow>
                  let l' = [BootProbe, BootRegister ProviderTypeMetadata (Inr p)] @ l in
                  Some (if err \<noteq> None then (Returned err, l', w3) else (Returned None, l' @ [BootServe], w3))))))))"

section \<open>Starting the volume service\<close>

record volume_config =
  vsc_DriverEndpoint :: string
  vsc_EnableLeaderElection :: bool
  vsc_Provider :: string
  vsc_Version :: string
  vsc_Manifest :: "string \<rightharpoonup> string"
  vsc_DisableControllers :: "string list"

text \<open>The provider's answer is taken over unchecked; the registration asks again and checks it.\<close>

definition ensureDriver ::
  "'w boot_env \<Rightarrow> volume_config \<Rightarrow> 'w \<Rightarrow> (goerr option \<times> volume_config \<times> boot_event list \<times> 'w) option" where
  "ensureDriver env cfg w = (case Probe (bt_probe env) w of
     None \<Rightarrow> None
   | Some (Some err, w1) \<Rightarrow> Some (Some err, cfg, [], w1)
   | Some (None, w1) \<Rightarrow> (case id_GetProviderInfo (bt_identity env) w1 of
       (Inl err, w2) \<Rightarrow> Some (Some err, cfg, [BootProbe], w2)
     | (Inr info, w2) \<Rightarrow>
         let cfg1 = cfg\<lparr>vsc_Provider := pi_provider info, vsc_Version := pi_version info, vsc_Manifest := pi_manifest info\<rparr> in
         (case RegisterVolumeProvider (bt_identity env) w2 of
            (Inl err, w3) \<Rightarrow> Some (Some err, cfg1, [BootProbe, BootRegister ProviderTypeVolume (Inl err)], w3)
          | (Inr p, w3) \<Rightarrow> Some (None, cfg1, [BootProbe, BootRegister ProviderTypeVolume (Inr p)], w3))))"

section \<open>Choosing the controllers\<close>

text \<open>A constructor of a controller gives an error or the controller, here its name.\<close>

fun remove_disabled :: "string list \<Rightarrow> (string \<rightharpoonup> 'c) \<Rightarrow> (string \<rightharpoonup> 'c)" where
  "remove_disabled [] m = m"
| "remove_disabled (d # ds) m = remove_disabled ds (if m d \<noteq> None then m(d := None) else m)"

definition RemoveDisabledControllers :: "string list \<Rightarrow> (string \<rightharpoonup> 'c) \<Rightarrow> (string \<rightharpoonup> 'c)" where
  "RemoveDisabledControllers disabled controllers = remove_disabled disabled controllers"

fun init_controllers :: "(string \<times> (goerr + string \<times> 'c)) list \<Rightarrow> (string \<rightharpoonup> 'c) \<Rightarrow> goerr + (string \<rightharpoonup> 'c)" where
  "init_controllers [] m = Inr m"
| "init_controllers ((what, r) # rs) m = (case r of
     Inl err \<Rightarrow> Inl (errorf (''failed to initialize '' @ what @ ''. '' @ err_msg err))
   | Inr (nm, c) \<Rightarrow> init_controllers rs (m(nm \<mapsto> c)))"

definition InitControllers ::
  "goerr + string \<times> 'c \<Rightarrow> goerr + string \<times> 'c \<Rightarrow> goerr + string \<times> 'c \<Rightarrow> goerr + string \<times> 'c \<Rightarrow> goerr + (string \<rightharpoonup> 'c)" where
  "InitControllers backupC restoreC snapshotC volumeBackupC = init_controllers
     [(''backup controller'', backupC), (''restore controller'', restoreC), (''snapshot controller'', snapshotC),
      (''volume baclup controller'', volumeBackupC)] Map.empty"

text \<open>Those of the volume service.\<close>

definition configureControllers :: "string list \<Rightarrow> goerr + string \<times> 'c \<Rightarrow> goerr + string \<times> 'c \<Rightarrow> goerr + (string \<rightharpoonup> 'c)" where
  "configureControllers disabled backupC restoreC = (case init_controllers
     [(''volume backup controller'', backupC), (''volume backup controller'', restoreC)] Map.empty of
     Inl err \<Rightarrow> Inl err | Inr m \<Rightarrow> Inr (remove_disabled disabled m))"

section \<open>When the probe returns\<close>

definition probed :: "('w \<Rightarrow> probe_answer \<times> 'w) \<Rightarrow> nat \<Rightarrow> 'w \<Rightarrow> 'w" where
  "probed ask_driver n = ((\<lambda>w. snd (ask_driver w)) ^^ n)"

definition decides_at :: "('w \<Rightarrow> probe_answer \<times> 'w) \<Rightarrow> 'w \<Rightarrow> nat \<Rightarrow> goerr option \<Rightarrow> bool" where
  "decides_at ask_driver w n r \<longleftrightarrow> (\<forall>i < n. probe_verdict (fst (ask_driver (probed ask_driver i w))) = None) \<and>
     probe_verdict (fst (ask_driver (probed ask_driver n w))) = Some r"

lemma Probe_decided: "decides_at ask_driver w n r \<Longrightarrow> Probe ask_driver w = Some (r, probed ask_driver (Suc n) w)"
proof (induction n arbitrary: w)
  case 0
  then show ?case by (cases "ask_driver w") (simp add: decides_at_def probed_def Probe.simps [of ask_driver w])
next
  case (Suc n)
  obtain a w1 where a: "ask_driver w = (a, w1)" by fastforce
  have shift: "probed ask_driver (Suc i) w = probed ask_driver i w1" for i
    using a by (simp add: probed_def funpow_Suc_right del: funpow.simps)
  have "probe_verdict a = None" using Suc.prems a by (auto simp: decides_at_def probed_def dest: spec [of _ 0])
  moreover have "decides_at ask_driver w1 n r"
    using Suc.prems shift unfolding decides_at_def by (metis Suc_less_eq)
  ultimately show ?case using Suc.IH [of w1] a shift by (simp add: Probe.simps [of ask_driver w])
qed

lemma Probe_some: fixes ask_driver :: "'w \<Rightarrow> probe_answer \<times> 'w" shows "Probe ask_driver w = Some y \<Longrightarrow> \<exists>n. decides_at ask_driver w n (fst y) \<and> snd y = probed ask_driver (Suc n) w"
proof (erule Probe.raw_induct [where P = "\<lambda>ask_driver w y. \<exists>n. decides_at ask_driver w n (fst y) \<and> snd y = probed ask_driver (Suc n) w", rotated])
  fix rec :: "('w \<Rightarrow> probe_answer \<times> 'w) \<Rightarrow> 'w \<Rightarrow> (goerr option \<times> 'w) option" and ask_driver :: "'w \<Rightarrow> probe_answer \<times> 'w" and w y
  assume IH: "\<And>ask_driver w y. rec ask_driver w = Some y \<Longrightarrow>
      \<exists>n. decides_at ask_driver w n (fst y) \<and> snd y = probed ask_driver (Suc n) w"
    and eq: "(case ask_driver w of (a, w1) \<Rightarrow> case probe_verdict a of Some r \<Rightarrow> Some (r, w1) | None \<Rightarrow> rec ask_driver w1) = Some y"
  obtain a w1 where a: "ask_driver w = (a, w1)" by fastforce
  have shift: "probed ask_driver (Suc i) w = probed ask_driver i w1" for i
    using a by (simp add: probed_def funpow_Suc_right del: funpow.simps)
  show "\<exists>n. decides_at ask_driver w n (fst y) \<and> snd y = probed ask_driver (Suc n) w"
  proof (cases "probe_verdict a")
    case None
    then have "rec ask_driver w1 = Some y" using eq a by simp
    from IH [OF this] obtain n where n: "decides_at ask_driver w1 n (fst y)" "snd y = probed ask_driver (Suc n) w1" by blast
    have "decides_at ask_driver w (Suc n) (fst y)"
      using n(1) a None shift unfolding decides_at_def by (auto simp: less_Suc_eq_0_disj) (simp add: probed_def)
    then show ?thesis using n(2) shift [of "Suc n"] by metis
  next
    case (Some r)
    then have "y = (r, w1)" using eq a by simp
    moreover have "decides_at ask_driver w 0 r" using a Some by (simp add: decides_at_def probed_def)
    ultimately show ?thesis using shift [of 0] by (intro exI [of _ 0]) (simp add: probed_def)
  qed
qed

text \<open>The probe returns as soon as the driver says that it is ready or fails with something else than a deadline,
  and never while it does neither.\<close>

theorem Probe_exact: "Probe ask_driver w = Some (r, w') \<longleftrightarrow> (\<exists>n. decides_at ask_driver w n r \<and> w' = probed ask_driver (Suc n) w)"
  using Probe_some [of ask_driver w "(r, w')"] Probe_decided [of ask_driver w _ r] by auto

section \<open>What is served and where it is found\<close>

text \<open>The service serves only after the driver was ready, the provider was registered and annotated, in this order.\<close>

lemma ms_Run_serves:
  assumes "ms_Run env opts w = Some (e, log, w')" "BootServe \<in> set log"
  shows "\<exists>w1 p w2 q bytes. Probe (bt_probe env) w = Some (None, w1) \<and> RegisterMetadataProvider (bt_identity env) w1 = (Inr p, w2) \<and>
    q = p\<lparr>pc_annotations := (pc_annotations p)(serviceAnnotation \<mapsto> serviceAddress env opts)\<rparr> \<and>
    bt_mergePatch env p q = Inr bytes \<and> (\<exists>p'. bt_Patch env (pc_name p) bytes w2 = (Inr p', w')) \<and> e = Returned None \<and>
    log = [BootProbe, BootRegister ProviderTypeMetadata (Inr p), BootPatch p q True, BootServe]"
  using assms
  by (auto simp: ms_Run_def annotateProvider_def patchProvider_def Let_def split: if_splits sum.splits option.splits prod.splits)

text \<open>An API server that stores providers by name: what it returns is what it stores, and a merge patch made from a
  stored object turns it into the object it was made for.\<close>

definition provider_store :: "'w boot_env \<Rightarrow> ('w \<Rightarrow> string \<rightharpoonup> Provider) \<Rightarrow> bool" where
  "provider_store env stored \<longleftrightarrow>
     (\<forall>nm w p w'. id_Get (bt_identity env) nm w = (Inr p, w') \<longrightarrow> stored w' (pc_name p) = Some p) \<and>
     (\<forall>x w p w'. id_UpdateStatus (bt_identity env) x w = (Inr p, w') \<longrightarrow> stored w' (pc_name p) = Some p) \<and>
     (\<forall>old new bytes w p w'. bt_mergePatch env old new = Inr bytes \<and> stored w (pc_name old) = Some old \<and>
        bt_Patch env (pc_name old) bytes w = (Inr p, w') \<longrightarrow> stored w' (pc_name old) = Some new)"

lemma createProviderCR_Inr:
  assumes "createProviderCR env info ty caps w = (Inr p, w')"
  shows "id_Get env (pi_provider info) w = (Inr p, w') \<or> (\<exists>x v. id_UpdateStatus env x v = (Inr p, w'))"
proof -
  obtain g w1 where g: "id_Get env (pi_provider info) w = (g, w1)" by fastforce
  obtain c w2 where c: "id_Create env (new_provider info ty caps) w1 = (c, w2)" by fastforce
  show ?thesis using assms g c by (auto simp: createProviderCR_def split: option.splits sum.splits if_splits)
qed

lemma registered_stored:
  assumes "provider_store env stored" "RegisterMetadataProvider (bt_identity env) w = (Inr p, w')"
  shows "stored w' (pc_name p) = Some p"
proof -
  obtain info caps v where "createProviderCR (bt_identity env) info ProviderTypeMetadata caps v = (Inr p, w')"
    using assms(2) by (auto simp: RegisterMetadataProvider_def registerProvider_def split: prod.splits sum.splits)
  from createProviderCR_Inr [OF this] show ?thesis using assms(1) unfolding provider_store_def by blast
qed

lemma served_is_annotated:
  assumes "provider_store env stored" "ms_Run env opts w = Some (e, log, w')" "BootServe \<in> set log"
    and "BootRegister ProviderTypeMetadata (Inr p) \<in> set log"
  shows "stored w' (pc_name p) = Some (p\<lparr>pc_annotations := (pc_annotations p)(serviceAnnotation \<mapsto> serviceAddress env opts)\<rparr>)"
proof -
  obtain w1 p2 w2 q bytes p' where r: "RegisterMetadataProvider (bt_identity env) w1 = (Inr p2, w2)"
      "q = p2\<lparr>pc_annotations := (pc_annotations p2)(serviceAnnotation \<mapsto> serviceAddress env opts)\<rparr>"
      "bt_mergePatch env p2 q = Inr bytes" "bt_Patch env (pc_name p2) bytes w2 = (Inr p', w')"
      "log = [BootProbe, BootRegister ProviderTypeMetadata (Inr p2), BootPatch p2 q True, BootServe]"
    using ms_Run_serves [OF assms(2,3)] by blast
  have "p2 = p" using assms(4) r(5) by auto
  then show ?thesis using registered_stored [OF assms(1) r(1)] r(2,3,4) assms(1) unfolding provider_store_def by blast
qed

text \<open>The view the backup controller has of a provider.\<close>

definition lister_view :: "Provider \<Rightarrow> provider" where
  "lister_view p = \<lparr>pr_name = pc_name p, pr_manifest = pc_manifest p,
     pr_type = (case pc_type p of ProviderTypeMetadata \<Rightarrow> ''MetadataProvider'' | ProviderTypeVolume \<Rightarrow> ''VolumeProvider''),
     pr_annotations = pc_annotations p\<rparr>"

text \<open>C27: a metadata service that serves is found: once the lister of the backup controller shows the provider as
  the start-up left it stored, the controller connects, for a backup location of this provider, to the address the
  service was started under. This needs the registered provider to be of the metadata type: the start-up takes a stored
  provider of its name as it is, and where that is of the other type the controller reports an error and connects
  nowhere, although the service serves.\<close>

theorem announced_service_is_connected:
  assumes "provider_store env stored" "ms_Run env opts w = Some (e, log, w')" "BootServe \<in> set log"
    and "BootRegister ProviderTypeMetadata (Inr p) \<in> set log"
    and "me_locationGet menv location (bc_world s) = Inr l" "bl_provider l = pc_name p"
    and "me_providerGet menv (pc_name p) (bc_world s) =
      (case stored w' (pc_name p) of Some q \<Rightarrow> Inr (lister_view q) | None \<Rightarrow> Inl (GoErr NotFound []))"
    and "run_state (fetchMetaServiceClient menv location) s = (r, s')"
  shows "if pc_type p = ProviderTypeMetadata then \<exists>ok. bc_log s' = bc_log s @ [EvMetaConnect (serviceAddress env opts) ok]
     else bc_log s' = bc_log s \<and> r \<noteq> None"
proof -
  have "me_providerGet menv (pc_name p) (bc_world s) =
      Inr (lister_view (p\<lparr>pc_annotations := (pc_annotations p)(serviceAnnotation \<mapsto> serviceAddress env opts)\<rparr>))"
    using assms(7) served_is_annotated [OF assms(1-4)] by simp
  then show ?thesis using assms(5,6,8)
    by (auto simp: fetchMetaServiceClient_def ctrl_fetchBackupLocation_def ctrl_fetchProvider_def lister_view_def ask_def call_def
        BackupLocationServiceAnnotation_def serviceAnnotation_def split: prod.splits ProviderType.splits)
qed

section \<open>Which controllers run\<close>

lemma remove_disabled_eq: "remove_disabled ds m = (\<lambda>k. if k \<in> set ds then None else m k)"
  by (induction ds arbitrary: m) (auto simp: fun_eq_iff)

lemma enabled_controllers:
  assumes "distinct [fst b, fst r, fst s, fst v]" "InitControllers (Inr b) (Inr r) (Inr s) (Inr v) = Inr m"
  shows "RemoveDisabledControllers disabled m k = (if k \<in> set disabled then None else map_of [b, r, s, v] k)"
  using assms
  by (cases b; cases r; cases s; cases v) (auto simp: InitControllers_def RemoveDisabledControllers_def remove_disabled_eq)

section \<open>A concrete start\<close>

text \<open>A server with a map of providers; its patches carry the address that is written.\<close>

definition demo_providers :: "(string \<rightharpoonup> Provider) boot_env" where
  "demo_providers = \<lparr>
     bt_identity = \<lparr>id_GetProviderInfo = Pair (Inr \<lparr>pi_provider = ''nfs'', pi_version = ''v1'', pi_manifest = Map.empty\<rparr>),
       id_GetProviderCapabilities = Pair (Inr []), id_Service_Type_name = (\<lambda>t. []), id_KahuClient = (\<lambda>w. None),
       id_Get = (\<lambda>nm m. (case m nm of Some p \<Rightarrow> if pc_name p = nm then Inr p else Inl (GoErr NotFound []) | None \<Rightarrow> Inl (GoErr NotFound []), m)),
       id_Create = (\<lambda>p m. (Inr p, m(pc_name p \<mapsto> p))), id_UpdateStatus = (\<lambda>p m. (Inr p, m(pc_name p \<mapsto> p)))\<rparr>,
     bt_listen = (\<lambda>a p w. None), bt_dial = (\<lambda>a w. None), bt_probe = Pair (Ready None),
     bt_mergePatch = (\<lambda>old new. case pc_annotations new serviceAnnotation of None \<Rightarrow> Inl (errorf [])
       | Some v \<Rightarrow> if new = old\<lparr>pc_annotations := (pc_annotations old)(serviceAnnotation \<mapsto> v)\<rparr> then Inr v else Inl (errorf [])),
     bt_Patch = (\<lambda>nm bytes m. case m nm of None \<Rightarrow> (Inl (GoErr NotFound []), m)
       | Some p \<Rightarrow> (let q = p\<lparr>pc_annotations := (pc_annotations p)(serviceAnnotation \<mapsto> bytes)\<rparr> in (Inr q, m(nm \<mapsto> q)))),
     bt_showPort = (\<lambda>n. ''443'')\<rparr>"

lemma demo_provider_store: "provider_store demo_providers (\<lambda>m. m)"
  unfolding provider_store_def
proof (intro conjI allI impI)
  fix old new bytes w p w'
  assume "bt_mergePatch demo_providers old new = Inr bytes \<and> w (pc_name old) = Some old \<and> bt_Patch demo_providers (pc_name old) bytes w = (Inr p, w')"
  then show "w' (pc_name old) = Some new"
    by (auto simp: demo_providers_def Let_def split: option.splits if_splits)
qed (auto simp: demo_providers_def split: option.splits if_splits)

definition demo_nfs :: Provider where
  "demo_nfs = \<lparr>pc_name = ''nfs'', pc_version = ''v1'', pc_type = ProviderTypeMetadata, pc_manifest = Map.empty, pc_capabilities = Map.empty,
     pc_annotations = Map.empty, pc_supportedVolumeProvisioners = [], pc_state = Some ProviderStateAvailable\<rparr>"

lemma demo_start:
  "\<exists>q w'. ms_Run demo_providers NewMetaServiceFlags Map.empty =
     Some (Returned None, [BootProbe, BootRegister ProviderTypeMetadata (Inr demo_nfs), BootPatch demo_nfs q True, BootServe], w')"
proof -
  have "Probe (bt_probe demo_providers) w = Some (None, w)" for w by (simp add: Probe.simps demo_providers_def)
  moreover have "NewBackupRepository_address (mf_BackupDriverAddress NewMetaServiceFlags) = Inr ''unix:///tmp/nfs.sock''"
    by (simp add: NewBackupRepository_address_def NewMetaServiceFlags_def strings_HasPrefix_def unixPrefix_def)
  ultimately show ?thesis
    by (simp add: ms_Run_def)
       (simp add: demo_providers_def RegisterMetadataProvider_def registerProvider_def GetProviderInfo_def GetProviderCapabilities_def
         createProviderCR_def new_provider_def capability_names_def annotateProvider_def patchProvider_def demo_nfs_def Let_def)
qed

theorem announced_service_is_connected_witness:
  "\<exists>q w' ok. ms_Run demo_providers NewMetaServiceFlags Map.empty =
       Some (Returned None, [BootProbe, BootRegister ProviderTypeMetadata (Inr demo_nfs), BootPatch demo_nfs q True, BootServe], w') \<and>
     bc_log (snd (run_state (fetchMetaServiceClient (demo_meta\<lparr>me_providerGet := (\<lambda>nm _. case w' nm of
         Some p \<Rightarrow> Inr (lister_view p) | None \<Rightarrow> Inl (GoErr NotFound []))\<rparr>) ''loc'') demo_unit)) =
       bc_log demo_unit @ [EvMetaConnect ''metadata-service.default:443'' ok]"
proof -
  obtain q w' where run: "ms_Run demo_providers NewMetaServiceFlags Map.empty =
      Some (Returned None, [BootProbe, BootRegister ProviderTypeMetadata (Inr demo_nfs), BootPatch demo_nfs q True, BootServe], w')"
    using demo_start by blast
  let ?menv = "demo_meta\<lparr>me_providerGet := (\<lambda>nm _. case w' nm of Some p \<Rightarrow> Inr (lister_view p) | None \<Rightarrow> Inl (GoErr NotFound []))\<rparr>"
  have addr: "serviceAddress demo_providers NewMetaServiceFlags = ''metadata-service.default:443''"
    by (simp add: serviceAddress_def NewMetaServiceFlags_def demo_providers_def)
  have loc: "me_locationGet ?menv ''loc'' (bc_world demo_unit) = Inr \<lparr>bl_name = ''loc'', bl_provider = ''nfs'', bl_config = Map.empty\<rparr>"
    by (simp add: demo_meta_def)
  obtain r s' where f: "run_state (fetchMetaServiceClient ?menv ''loc'') demo_unit = (r, s')" by fastforce
  have "\<exists>ok. bc_log s' = bc_log demo_unit @ [EvMetaConnect (serviceAddress demo_providers NewMetaServiceFlags) ok]"
    using announced_service_is_connected [where p = demo_nfs, OF demo_provider_store run _ _ loc _ _ f] by (simp add: demo_nfs_def)
  then show ?thesis using run f addr by auto
qed

end
