(* ===== verification/Workload_Conflict.thy ===== *)
theory Workload_Conflict
  imports Restore_Apply
begin

text \<open>
  The conflict check of workloads, the end of \<^verbatim>\<open>controllers/restore/metadatarestore.go\<close>: whether the cluster
  already runs the workload that a restored object came from. Nothing in the repository calls it. Converters
  and the API server are parameters; the selector of a workload is a pointer, and reading through nil panics.
\<close>

section \<open>Environment\<close>

datatype workload_kind = WPod | WDeployment | WDaemonSet | WStatefulSet | WReplicaSet

record 'w conflict_env =
  wf_selector :: "workload_kind \<Rightarrow> unstructured \<Rightarrow> goerr + (string \<rightharpoonup> string) option"
  wf_get :: "workload_kind \<Rightarrow> string \<Rightarrow> string \<Rightarrow> 'w \<Rightarrow> goerr + (string \<rightharpoonup> string) option"

definition bytes_TrimPrefix :: "string \<Rightarrow> string \<Rightarrow> string" where
  "bytes_TrimPrefix s prefix = (if take (length prefix) s = prefix then drop (length prefix) s else s)"

section \<open>The check\<close>

text \<open>The body the five checks share. For a pod the labels of the object take the place of the selector and are never nil.\<close>

definition isMatchingWorkloadExist :: "'w conflict_env \<Rightarrow> workload_kind \<Rightarrow> unstructured \<Rightarrow> string \<Rightarrow> 'w \<Rightarrow> bool outcome" where
  "isMatchingWorkloadExist env k u backedupResName w = (case wf_selector env k u of
     Inl err \<Rightarrow> Ret False
   | Inr None \<Rightarrow> Panic
   | Inr (Some labelSelectors) \<Rightarrow>
       if labelSelectors = Map.empty then Ret False
       else (case wf_get env k (meta_namespace (un_meta u)) backedupResName w of
           Inl err \<Rightarrow> Ret False
         | Inr None \<Rightarrow> Panic
         | Inr (Some existing) \<Rightarrow> Ret (labelSelectors = existing)))"

definition isMatchingReplicaSetExist :: "'w conflict_env \<Rightarrow> unstructured \<Rightarrow> string \<Rightarrow> 'w \<Rightarrow> bool outcome" where
  "isMatchingReplicaSetExist env = isMatchingWorkloadExist env WReplicaSet"

definition isMatchingStatefulSetExist :: "'w conflict_env \<Rightarrow> unstructured \<Rightarrow> string \<Rightarrow> 'w \<Rightarrow> bool outcome" where
  "isMatchingStatefulSetExist env = isMatchingWorkloadExist env WStatefulSet"

definition isMatchingDaemonSetExist :: "'w conflict_env \<Rightarrow> unstructured \<Rightarrow> string \<Rightarrow> 'w \<Rightarrow> bool outcome" where
  "isMatchingDaemonSetExist env = isMatchingWorkloadExist env WDaemonSet"

definition isMatchingDeployExist :: "'w conflict_env \<Rightarrow> unstructured \<Rightarrow> string \<Rightarrow> 'w \<Rightarrow> bool outcome" where
  "isMatchingDeployExist env = isMatchingWorkloadExist env WDeployment"

definition isMatchingPodExist :: "'w conflict_env \<Rightarrow> unstructured \<Rightarrow> string \<Rightarrow> 'w \<Rightarrow> bool outcome" where
  "isMatchingPodExist env = isMatchingWorkloadExist env WPod"

definition checkWorkloadConflict :: "'w conflict_env \<Rightarrow> Restore \<Rightarrow> unstructured \<Rightarrow> 'w \<Rightarrow> bool outcome" where
  "checkWorkloadConflict env restore u w =
     (let backedupResName = bytes_TrimPrefix (meta_name (un_meta u)) (rp_resourcePrefix (rs_spec restore)) in
      if un_kind u = Pod_kind then isMatchingPodExist env u backedupResName w
      else if un_kind u = Deployment_kind then isMatchingDeployExist env u backedupResName w
      else if un_kind u = DaemonSet_kind then isMatchingDaemonSetExist env u backedupResName w
      else if un_kind u = StatefulSet_kind then isMatchingStatefulSetExist env u backedupResName w
      else if un_kind u = Replicaset_kind then isMatchingReplicaSetExist env u backedupResName w
      else Ret False)"

text \<open>The loop over the cached objects: the first conflict is the error. An entry of the cache that is no
  unstructured object is skipped.\<close>

datatype cached = CachedUnstructured unstructured | CachedOther

definition conflict_error :: "unstructured \<Rightarrow> goerr" where
  "conflict_error u = errorf (''Resource('' @ meta_name (un_meta u) @ '') kind('' @ un_kind u @ '') namespace('' @
     meta_namespace (un_meta u) @ '') conflicts with existing resource label in cluster '')"

fun checkForRestoreResConflict :: "'w conflict_env \<Rightarrow> Restore \<Rightarrow> cached list \<Rightarrow> 'w \<Rightarrow> goerr option outcome" where
  "checkForRestoreResConflict env restore [] w = Ret None"
| "checkForRestoreResConflict env restore (CachedOther # rs) w = checkForRestoreResConflict env restore rs w"
| "checkForRestoreResConflict env restore (CachedUnstructured u # rs) w =
     (case checkWorkloadConflict env restore u w of
        Panic \<Rightarrow> Panic
      | Ret True \<Rightarrow> Ret (Some (conflict_error u))
      | Ret False \<Rightarrow> checkForRestoreResConflict env restore rs w)"

section \<open>What it finds\<close>

lemma TrimPrefix_prefix [simp]: "bytes_TrimPrefix (p @ s) p = s"
  by (simp add: bytes_TrimPrefix_def)

text \<open>The check is about the name before the prefix of the restore was put in front.\<close>

lemma conflict_of_prefixed:
  assumes "meta_name (un_meta u) = rp_resourcePrefix (rs_spec restore) @ nm" "un_kind u = Deployment_kind"
    and "wf_selector env WDeployment u = Inr (Some sel)" "sel \<noteq> Map.empty"
    and "wf_get env WDeployment (meta_namespace (un_meta u)) nm w = Inr (Some existing)"
  shows "checkWorkloadConflict env restore u w = Ret (sel = existing)"
  using assms by (simp add: Pod_kind_def Deployment_kind_def checkWorkloadConflict_def isMatchingDeployExist_def isMatchingWorkloadExist_def)

text \<open>The restore may go on exactly when no object in the cache conflicts.\<close>

lemma no_conflict_iff:
  "checkForRestoreResConflict env restore rs w = Ret None \<longleftrightarrow>
     (\<forall>u. CachedUnstructured u \<in> set rs \<longrightarrow> checkWorkloadConflict env restore u w = Ret False)"
  by (induction env restore rs w rule: checkForRestoreResConflict.induct) (auto split: outcome.splits bool.splits)

end
