(* ===== verification/Workload_Wait.thy ===== *)
theory Workload_Wait
  imports Restore_Apply
begin

text \<open>
  The wait for a restored workload, \<^verbatim>\<open>WaitResource\<close> of \<^verbatim>\<open>hooks/restore_hooks.go\<close>, from the side of the informer:
  what its handlers do with the events it delivers until one of them cancels the context or two minutes pass.
  The informer itself is library code; the events are a list.
\<close>

section \<open>Handlers\<close>

datatype watch_event = EvAdded kobj | EvUpdated kobj kobj | EvDeleted kobj

text \<open>The type the handler asserts, by resource type.\<close>

definition watched_kind :: "string \<Rightarrow> string option" where
  "watched_kind resourceType =
     (if resourceType = ''deployments'' then Some Deployment_kind
      else if resourceType = ''daemonsets'' then Some DaemonSet_kind
      else if resourceType = ''replicasets'' then Some Replicaset_kind
      else if resourceType = ''statefulsets'' then Some StatefulSet_kind
      else None)"

text \<open>A failed assertion logs the name of the nil pointer it returned, and panics there. Otherwise the context is cancelled.\<close>

definition resource_handler :: "string \<Rightarrow> kobj \<Rightarrow> unit outcome" where
  "resource_handler resourceType newObj = (case watched_kind resourceType of
     None \<Rightarrow> Ret ()
   | Some kind \<Rightarrow> (case newObj of KWorkload k newResource \<Rightarrow> if k = kind then Ret () else Panic | _ \<Rightarrow> Panic))"

definition on_watch_event :: "string \<Rightarrow> watch_event \<Rightarrow> unit outcome" where
  "on_watch_event resourceType ev = (case ev of
     EvAdded o' \<Rightarrow> resource_handler resourceType o'
   | EvUpdated _ o' \<Rightarrow> resource_handler resourceType o'
   | EvDeleted _ \<Rightarrow> Ret ())"

text \<open>Events that come before the time out is over, and those the informer still delivers after the cancellation.\<close>

fun watch_events :: "string \<Rightarrow> watch_event list \<Rightarrow> unit outcome" where
  "watch_events resourceType [] = Ret ()"
| "watch_events resourceType (ev # evs) =
     (case on_watch_event resourceType ev of Panic \<Rightarrow> Panic | Ret _ \<Rightarrow> watch_events resourceType evs)"

fun watch_object :: "watch_event \<Rightarrow> kobj option" where
  "watch_object (EvAdded x) = Some x"
| "watch_object (EvUpdated _ x) = Some x"
| "watch_object (EvDeleted _) = None"

section \<open>When the wait survives\<close>

definition expected_object :: "string \<Rightarrow> kobj \<Rightarrow> bool" where
  "expected_object resourceType x \<longleftrightarrow>
     (case watched_kind resourceType of None \<Rightarrow> True | Some kind \<Rightarrow> (\<exists>w. x = KWorkload kind w))"

lemma resource_handler_Ret: "resource_handler t x = Ret () \<longleftrightarrow> expected_object t x"
  by (cases x) (auto simp: expected_object_def resource_handler_def split: option.splits)

lemma on_watch_event_Ret: "on_watch_event t ev = Ret () \<longleftrightarrow> (\<forall>x. watch_object ev = Some x \<longrightarrow> expected_object t x)"
  by (cases ev) (simp_all add: on_watch_event_def resource_handler_Ret)

text \<open>The process survives the wait exactly when no handler is given an object of another type.\<close>

lemma watch_events_survive:
  "watch_events t evs = Ret () \<longleftrightarrow> (\<forall>ev \<in> set evs. \<forall>x. watch_object ev = Some x \<longrightarrow> expected_object t x)"
proof (induction evs)
  case (Cons ev evs)
  have "watch_events t (ev # evs) = Ret () \<longleftrightarrow> on_watch_event t ev = Ret () \<and> watch_events t evs = Ret ()"
    by (simp split: outcome.splits)
  then show ?case using Cons on_watch_event_Ret [of t ev] by simp
qed simp

end
