(* ===== verification/Spec2Isabelle.thy ===== *)
theory Spec2Isabelle
  imports Backup_Progress Backup_Volumes Operation Restore_Order Volume_Restore_Progress
    Volume_Backup_Safety Reconcilers Volume_Pipeline Snapshot_Controller Driver_Assignment Meta_Properties Csi_Provider Discovery Startup Workload_Conflict Workload_Wait
begin

text \<open>
  \<^bold>\<open>A model of the Kahu backup and restore controllers.\<close>

  Kahu backs up and restores applications of a Kubernetes cluster. A user creates a \<^verbatim>\<open>Backup\<close> or a
  \<^verbatim>\<open>Restore\<close> object; the controllers under \<^verbatim>\<open>controllers/\<close> take it from a work queue, move it
  through stages, and record every step in its status. Volume data is handed to drivers through
  \<^verbatim>\<open>VolumeBackupContent\<close> and \<^verbatim>\<open>VolumeRestoreContent\<close> objects; the metadata of the
  cluster objects goes to and comes from a metadata service; commands run in pods before and after
  (\<^verbatim>\<open>hooks/\<close>). This development models the two controllers with everything they call inside the
  repository, and proves what they guarantee.

  \<^bold>\<open>How code is modelled.\<close>
  Go structs are records, enumerations are datatypes with a constructor for unknown values, a map is a
  partial function, a slice whose array is shared is modelled with its aliasing (\<open>Selection\<close>). An
  error is a value of \<open>goerr\<close>; a function that may dereference nil or index out of range returns an
  \<open>outcome\<close>, a step that may do so an \<open>sres\<close> (\<open>Ok\<close>, \<open>Fail\<close> or \<open>Crash\<close>). Stateful code is a
  computation of \<open>State_Monad\<close> on a record that holds the controller's cache, an arbitrary world
  \<open>'w\<close>, and a log of the calls that matter: \<open>bctrl\<close> with \<open>bk_event\<close> for backups, \<open>rctrl\<close> with
  \<open>rs_event\<close> for restores, \<open>hstate\<close> for commands in pods. Everything outside the repository (the API
  server, discovery, converters, regular expressions, the gRPC services, clocks) is a field of an
  environment record, a function on the world: \<open>backup_api\<close>, \<open>collect_env\<close>, \<open>dep_env\<close>,
  \<open>res_env\<close>, \<open>meta_env\<close>, \<open>ctrl_env\<close>, \<open>hook_env\<close>, \<open>mut_env\<close>, \<open>conv_env\<close>, \<open>renv\<close>.
  A theorem that needs something of it names it as a hypothesis (\<open>indexer_laws\<close> and \<open>rindexer_laws\<close>
  for the client-go cache, \<open>mut_laws\<close> and \<open>converter_laws\<close> for converters, \<open>server_ok\<close> and
  \<open>server_laws\<close> for the documented behaviour of status updates and merge patches at the API server, read
  through an observer of the stages it stores), and its witness gives an instance. Log lines, deep copies of values that are not shared and
  the passing of contexts have no counterpart. Ranging over a Go map or set uses an order taken from
  the environment.

  \<^bold>\<open>Shared theories.\<close>
  \<open>Kahu_Prelude\<close>: errors, outcomes, the state monad with \<open>seq\<close>, \<open>each\<close> and a Hoare rule set.
  \<open>Traces\<close>: what a computation appends to a log (\<open>tr\<close>, \<open>every\<close>), and properties of logs
  (\<open>led_by\<close>: an event comes directly after one that justifies it; \<open>only_after\<close>: what precedes an
  event satisfies a condition). \<open>ObjectMeta\<close> (\<^verbatim>\<open>utils/annotations.go\<close>, \<^verbatim>\<open>finalizers.go\<close>):
  annotations and finalizers, with the locale \<open>marker\<close> interpreted for both. \<open>Store\<close>
  (\<^verbatim>\<open>utils/store.go\<close>): the keyed cache and the revision filter, with the locale \<open>kv_store\<close>.
  \<open>Selection\<close> (\<^verbatim>\<open>utils/validations.go\<close>, \<^verbatim>\<open>utils.go\<close>): include and exclude lists.
  \<open>Operation\<close> (\<^verbatim>\<open>utils/operation\<close>): the operation manager as a step relation over all
  interleavings of its goroutines. \<open>Queue\<close> (\<^verbatim>\<open>controllers/controller.go\<close>): the worker loop and
  how often it calls the handler for a failing key. \<open>Paths\<close> (\<^verbatim>\<open>utils/parser.go\<close>, \<^verbatim>\<open>backupconfig.go\<close>): file names and driver
  parameters.

  \<^bold>\<open>Backup.\<close>
  \<open>Backup_Types\<close>, \<open>VBC_Types\<close>, \<open>Kube_Types\<close>: API objects. \<open>Backup_Updater\<close>
  (\<^verbatim>\<open>controllers/backup/updaters.go\<close>): status merging and updates. \<open>Collectors\<close>: the resource
  collectors. \<open>Dependency\<close> (\<^verbatim>\<open>dependencyresolver.go\<close>): the recursive resolution; it runs with
  fuel, and \<open>Resolve_closes\<close> shows that the number of fetchable objects plus two is enough, because
  every recursive call adds an object to the cache; it may also end in the panic on a claim without storage
  class. \<open>Backup_Resources\<close>: selection of resources.
  \<open>Backup_Metadata\<close>, \<open>Backup_Controller\<close>, \<open>Backup_Volumes\<close>: the handler of the queue, one
  definition per case of the stage switch. \<open>Backup_Safety\<close>: the order of hooks, volumes and metadata,
  the finalizer, deletion, failed hooks, with arbitrary answers of all servers. \<open>Backup_Progress\<close>: stages
  never go back, a pass settles, validation.

  \<^bold>\<open>Hooks.\<close>
  \<open>Hooks\<close> (\<^verbatim>\<open>hooks/common.go\<close>, \<^verbatim>\<open>hooks.go\<close>, \<^verbatim>\<open>pod_command_executor.go\<close>,
  \<^verbatim>\<open>init_hooks.go\<close>): which pods a hook selects and how its commands run. \<open>Restore_Hooks\<close>
  (\<^verbatim>\<open>restore_hooks.go\<close>): hooks of restored pods, driven by any sequence of informer events.

  \<^bold>\<open>Restore.\<close>
  \<open>Restore_Types\<close>: API objects and constants. \<open>Restore_Filters\<close> (\<^verbatim>\<open>controllers/restore/filters.go\<close>,
  \<^verbatim>\<open>resolver.go\<close>): the chain of filters refines the predicate \<open>restore_candidate\<close>; resolution needs fuel 2,
  since a volume leads to its claim and a claim to its storage class. \<open>Restore_Mutators\<close>
  (\<^verbatim>\<open>mutators.go\<close>, \<^verbatim>\<open>restorehelper.go\<close>): what an object looks like after the chain of mutations.
  \<open>Restore_Updater\<close>, \<open>Restore_Apply\<close> (\<^verbatim>\<open>metadatarestore.go\<close>), \<open>Restore_Volumes\<close>
  (\<^verbatim>\<open>volumerestore.go\<close>), \<open>Restore_Controller\<close> (\<^verbatim>\<open>restorecontroller.go\<close>): the handler of the
  queue and its stages; the goroutines that run hooks are collected in \<open>rx_pending\<close> and run when the
  controller waits for them. \<open>Restore_Safety\<close>: deletion touches only objects and volume restore contents of the restore,
  creation never replaces an object, the finalizer comes first and goes last. \<open>Workload_Conflict\<close>: a check that nothing calls. \<open>Workload_Wait\<close>: the handlers of the wait for a restored workload. \<open>Restore_Order\<close>: resources come after
  volumes, and finishing after the hooks, under \<open>server_laws\<close>, for a restore whose stored stage is no later
  than that and which nobody else moves on during the pass.

  \<^bold>\<open>Volumes.\<close>
  The side car of a volume provider runs one controller for \<^verbatim>\<open>VolumeRestoreContent\<close> and one for
  \<^verbatim>\<open>VolumeBackupContent\<close> objects. \<open>Volume_Service\<close>: what they share, the patching of objects, and the
  contract of a progress check (\<open>poll_spec\<close>) with the locale \<open>progress_table\<close>, interpreted for both.
  \<open>Volume_Restore_Service\<close> (\<^verbatim>\<open>providerframework/volumeservice/restore/restorevolume.go\<close>) and
  \<open>Volume_Backup_Service\<close> (\<^verbatim>\<open>backup/backupvolume.go\<close>): queue handlers and polls.
  \<open>Volume_Restore_Safety\<close>, \<open>Volume_Backup_Safety\<close>: the polls refine the contract, the driver works only
  under the finalizer, and the finalizer goes only after the driver has cancelled or deleted.
  \<open>Volume_Restore_Progress\<close>: runs of the restore controller as a step relation (\<open>vr_step\<close>), the phase state
  machine, and the end of polling once the volumes are restored. \<open>Reconcilers\<close>
  (\<^verbatim>\<open>controllers/backup/volumebackupreconciler.go\<close>, \<^verbatim>\<open>controllers/restore/volumerestorereconciler.go\<close>):
  the periodic loops that carry the phases of contents over to their backup or restore.

  \<^bold>\<open>Snapshots.\<close>
  \<open>Snapshot_Types\<close>: API objects, and the loop both snapshotters wait in; it returns because every round
  takes at least the initial backoff from the remaining time. \<open>Volumes\<close> (\<^verbatim>\<open>volume/\<close>): groups of
  volumes, their snapshots by provisioner, the contents made for snapshots. \<open>Volume_Pipeline\<close> implements the
  \<open>volume_ops\<close> of the backup controller with this package and follows a volume backup from the claims to
  the contents; pointers are addresses in a heap. \<open>Snapshot_Classes\<close>, \<open>Snapshot_CSI\<close>,
  \<open>Snapshot_Controller\<close> (\<^verbatim>\<open>controllers/snapshot/\<close>): the table of snapshot classes, taking CSI snapshots,
  and the controller that starts these jobs, as a step relation (\<open>snap_step\<close>) of informer, queue and jobs.
  \<open>Driver_Assignment\<close> (\<^verbatim>\<open>controllers/volumebackup/\<close>): the choice of a backup driver. In the last two the
  informer's cache is part of the state, because the handlers write into the objects it hands out.

  \<^bold>\<open>Metadata service and providers.\<close>
  \<open>Files\<close>: two file systems as maps from clean paths to contents, and the operations of \<^verbatim>\<open>os\<close> and of
  streams, each of which an oracle may fail. \<open>Archive\<close> (\<^verbatim>\<open>providerframework/metaservice/archiver/\<close>): plugins,
  archive writers and readers; \<open>format_laws\<close> says that decoding inverts encoding. \<open>Nfs_Provider\<close>
  (\<^verbatim>\<open>providers/nfs/server\<close>): the store of uploaded files. \<open>Meta_Service\<close>
  (\<^verbatim>\<open>providerframework/metaservice/server\<close>, \<^verbatim>\<open>backuprespository/\<close>): backup, restore and deletion, with the
  handlers of the provider at the other end of the streams. \<open>Meta_Roundtrip\<close> and \<open>Meta_Liveness\<close> follow a
  backup and a restore with and without failures; \<open>Meta_Properties\<close> states what the service promises.
  \<open>Csi_Provider\<close> (\<^verbatim>\<open>providers/csi-snapshotter/server\<close>): the CSI provider, put under the volume services as
  their driver. \<open>Identity\<close> (\<^verbatim>\<open>providerframework/identityservice/\<close>): registration of a provider.
  \<open>Startup\<close>: the readiness probe, which returns exactly when the driver decides, the start of the metadata
  service up to serving, and why the backup controller then finds it.

  \<^bold>\<open>Discovery.\<close>
  \<open>Discovery\<close> (\<^verbatim>\<open>discovery/discovery.go\<close>): the table of API resources that collectors, resolver and restore
  ask; after a refresh it is exact, under \<open>table_laws\<close> for the client-go index and \<open>helper_laws\<close>.

  \<^bold>\<open>What the lemmas show beyond correctness.\<close>
  Where the code loses an error, panics, or depends on an unspecified order, a lemma shows it: for instance
  \<open>refused_update_unreported\<close>, \<open>overlapping_runs_both_start\<close>, \<open>include_namespaces_ignored\<close>,
  \<open>chained_mapping_depends_on_order\<close>, \<open>completion_time_unset\<close>, \<open>failed_cleanup_forgotten\<close>.

  \<^bold>\<open>Not modelled.\<close>
  Commands, leader election, signal handling and the construction of clients and informers. Deep copies, clients and protobuf
  bindings are generated. Symbolic links and modes of files, and the contents of partly written archives, which
  nothing reads. Waiting for time to pass (sleeps, time outs) has no effect
  in the model but a change of the world.
\<close>

end
